(* ===== verification/Prelude.thy ===== *)
theory Prelude
  imports Main "HOL-Library.Monad_Syntax"
begin

text \<open>
  Shared vocabulary of the development.

  \<^item> \<open>'a res\<close> is the result of a Rust function that may panic: \<open>None\<close> is the panic
    (an index out of range, an arithmetic overflow in a checked build, a failed
    \<open>debug_assert!\<close>), \<open>Some x\<close> a normal return.
  \<^item> \<open>succeeds m P\<close> is total correctness: the call returns and its result satisfies \<open>P\<close>.
    Its simplification rules push it through \<open>do\<close> blocks, so that a proof about an operation
    is a rewrite followed by arithmetic.
  \<^item> \<open>foldM\<close> is a \<open>for\<close> loop over a range or a collection, \<open>repeatM\<close> a counted loop.
  \<^item> The \<open>16\<close>-suffixed operations are \<open>u16\<close> arithmetic on \<open>nat\<close> with the width written out:
    plain \<open>+\<close>/\<open>-\<close> panic on overflow, \<open>sat_add16\<close> saturates, \<open>as_u16\<close> truncates.
    \<open>usize\<close> is \<open>nat\<close> (a buffer of \<open>2 ^ 64\<close> rows cannot be allocated); its subtraction panics
    below zero.
\<close>

named_theorems model_defs \<open>unfolding equations of non-recursive operations\<close>

subsection \<open>Results that may panic\<close>

type_synonym 'a res = "'a option"

definition succeeds :: "'a option \<Rightarrow> ('a \<Rightarrow> bool) \<Rightarrow> bool" where
  "succeeds m P \<longleftrightarrow> (\<exists>x. m = Some x \<and> P x)"

lemma succeeds_Some [simp]: "succeeds (Some x) P = P x"
  by (simp add: succeeds_def)

lemma succeeds_None [simp]: "\<not> succeeds None P"
  by (simp add: succeeds_def)

lemma succeeds_bind [simp]: "succeeds (m \<bind> f) P = succeeds m (\<lambda>x. succeeds (f x) P)"
  by (auto simp: succeeds_def Option.bind_eq_Some_conv)

lemma succeeds_if [simp]: "succeeds (if b then m else n) P = (if b then succeeds m P else succeeds n P)"
  by simp

lemma succeeds_mono: "succeeds m P \<Longrightarrow> (\<And>x. P x \<Longrightarrow> Q x) \<Longrightarrow> succeeds m Q"
  by (auto simp: succeeds_def)

lemma succeedsE: "succeeds m P \<Longrightarrow> (\<And>x. m = Some x \<Longrightarrow> P x \<Longrightarrow> R) \<Longrightarrow> R"
  by (auto simp: succeeds_def)

lemma succeeds_conj: "succeeds m P \<Longrightarrow> succeeds m Q \<Longrightarrow> succeeds m (\<lambda>x. P x \<and> Q x)"
  by (auto simp: succeeds_def)

lemma succeeds_bindI: "succeeds m P \<Longrightarrow> (\<And>x. P x \<Longrightarrow> succeeds (f x) Q) \<Longrightarrow> succeeds (m \<bind> f) Q"
  by (auto intro: succeeds_mono)

text \<open>A \<open>let\<close> in front of a computation is transparent to \<open>succeeds\<close>.\<close>

lemma succeeds_let [simp]: "succeeds (let x = e in f x) P = succeeds (f e) P"
  by (simp add: Let_def)

subsection \<open>Loops\<close>

fun foldM :: "('a \<Rightarrow> 's \<Rightarrow> 's option) \<Rightarrow> 'a list \<Rightarrow> 's \<Rightarrow> 's option" where
  "foldM f [] s = Some s"
| "foldM f (x # xs) s = f x s \<bind> foldM f xs"

fun repeatM :: "nat \<Rightarrow> ('s \<Rightarrow> 's option) \<Rightarrow> 's \<Rightarrow> 's option" where
  "repeatM 0 f s = Some s"
| "repeatM (Suc n) f s = f s \<bind> repeatM n f"

lemma foldM_invariant:
  assumes "I s" and "\<And>x s. x \<in> set xs \<Longrightarrow> I s \<Longrightarrow> succeeds (f x s) I"
  shows "succeeds (foldM f xs s) I"
  using assms
proof (induction xs arbitrary: s)
  case Nil
  then show ?case by simp
next
  case (Cons x xs)
  from Cons.prems have "succeeds (f x s) I" by simp
  then show ?case
    using Cons by (auto intro: succeeds_mono)
qed

lemma repeatM_invariant:
  assumes "I s" and "\<And>s. I s \<Longrightarrow> succeeds (f s) I"
  shows "succeeds (repeatM n f s) I"
  using assms(1) by (induction n arbitrary: s) (auto intro: succeeds_mono assms(2))

lemma repeatM_total:
  "(\<And>s. f s = Some (g s)) \<Longrightarrow> repeatM n f s = Some ((g ^^ n) s)"
  by (induction n arbitrary: s) (simp_all add: funpow_swap1)

lemma foldM_append: "foldM f (xs @ ys) s = foldM f xs s \<bind> foldM f ys"
proof (induction xs arbitrary: s)
  case Nil
  then show ?case by simp
next
  case (Cons x xs)
  then show ?case by (cases "f x s") simp_all
qed

lemma foldM_upt_invariant:
  assumes "I 0 s" and "\<And>k s. k < n \<Longrightarrow> I k s \<Longrightarrow> succeeds (f k s) (I (Suc k))"
  shows "succeeds (foldM f [0..<n] s) (I n)"
  using assms(2)
proof (induction n)
  case 0
  then show ?case using assms(1) by simp
next
  case (Suc n)
  then have "succeeds (foldM f [0..<n] s) (I n)" by simp
  then show ?case
    using Suc.prems [of n] by (auto simp: foldM_append elim!: succeeds_mono)
qed

subsection \<open>Machine integers\<close>

definition U16_MAX :: nat where "U16_MAX = 65535"

definition add16 :: "nat \<Rightarrow> nat \<Rightarrow> nat option" where
  "add16 a b = (if a + b \<le> U16_MAX then Some (a + b) else None)"

definition sub16 :: "nat \<Rightarrow> nat \<Rightarrow> nat option" where
  "sub16 a b = (if b \<le> a then Some (a - b) else None)"

definition usub :: "nat \<Rightarrow> nat \<Rightarrow> nat option" where
  "usub a b = (if b \<le> a then Some (a - b) else None)"

definition sat_add16 :: "nat \<Rightarrow> nat \<Rightarrow> nat" where
  "sat_add16 a b = min U16_MAX (a + b)"

definition as_u16 :: "nat \<Rightarrow> nat" where
  "as_u16 n = n mod 65536"

definition as_u8 :: "nat \<Rightarrow> nat" where
  "as_u8 n = n mod 256"

definition checked_add64 :: "nat \<Rightarrow> nat \<Rightarrow> nat option" where
  "checked_add64 a b = (if a + b < 2 ^ 64 then Some (a + b) else None)"

lemma succeeds_add16 [simp]: "succeeds (add16 a b) P = (a + b \<le> U16_MAX \<and> P (a + b))"
  by (simp add: add16_def)

lemma succeeds_sub16 [simp]: "succeeds (sub16 a b) P = (b \<le> a \<and> P (a - b))"
  by (simp add: sub16_def)

lemma succeeds_usub [simp]: "succeeds (usub a b) P = (b \<le> a \<and> P (a - b))"
  by (simp add: usub_def)

lemma as_u16_id [simp]: "n \<le> U16_MAX \<Longrightarrow> as_u16 n = n"
  by (simp add: as_u16_def U16_MAX_def)

lemma as_u16_le: "as_u16 n \<le> n"
  by (simp add: as_u16_def)

lemma sat_add16_le_max [simp]: "sat_add16 a b \<le> U16_MAX"
  by (simp add: sat_add16_def)

lemma checked_add64_SomeD: "checked_add64 a b = Some c \<Longrightarrow> c = a + b \<and> c < 2 ^ 64"
  by (auto simp: checked_add64_def split: if_splits)

subsection \<open>Vectors\<close>

text \<open>Indexing, indexed assignment, \<open>insert\<close> and \<open>remove\<close> of \<open>Vec\<close> and \<open>VecDeque\<close>.\<close>

definition vget :: "'a list \<Rightarrow> nat \<Rightarrow> 'a option" where
  "vget xs i = (if i < length xs then Some (xs ! i) else None)"

definition vset :: "'a list \<Rightarrow> nat \<Rightarrow> 'a \<Rightarrow> 'a list option" where
  "vset xs i v = (if i < length xs then Some (xs[i := v]) else None)"

definition vinsert :: "'a list \<Rightarrow> nat \<Rightarrow> 'a \<Rightarrow> 'a list option" where
  "vinsert xs i v = (if i \<le> length xs then Some (take i xs @ v # drop i xs) else None)"

definition vremove :: "'a list \<Rightarrow> nat \<Rightarrow> ('a \<times> 'a list) option" where
  "vremove xs i = (if i < length xs then Some (xs ! i, take i xs @ drop (Suc i) xs) else None)"

lemma succeeds_vget [simp]: "succeeds (vget xs i) P = (i < length xs \<and> P (xs ! i))"
  by (simp add: vget_def)

lemma vget_bind: "i < length xs \<Longrightarrow> vget xs i \<bind> f = f (xs ! i)"
  by (simp add: vget_def)

lemma succeeds_vset [simp]: "succeeds (vset xs i v) P = (i < length xs \<and> P (xs[i := v]))"
  by (simp add: vset_def)

lemma succeeds_vinsert [simp]:
  "succeeds (vinsert xs i v) P = (i \<le> length xs \<and> P (take i xs @ v # drop i xs))"
  by (simp add: vinsert_def)

lemma succeeds_vremove [simp]:
  "succeeds (vremove xs i) P = (i < length xs \<and> P (xs ! i, take i xs @ drop (Suc i) xs))"
  by (simp add: vremove_def)

text \<open>\<open>Vec::resize\<close>: truncate, or extend with copies of a value.\<close>

definition vresize :: "'a list \<Rightarrow> nat \<Rightarrow> 'a \<Rightarrow> 'a list" where
  "vresize xs n v = take n xs @ replicate (n - length xs) v"

lemma length_vresize [simp]: "length (vresize xs n v) = n"
  by (simp add: vresize_def)

lemma nth_vresize: "i < n \<Longrightarrow> vresize xs n v ! i = (if i < length xs then xs ! i else v)"
  by (auto simp: vresize_def nth_append min_def)

text \<open>\<open>Iterator::position\<close>: the index of the first element that satisfies the predicate.\<close>

fun position :: "('a \<Rightarrow> bool) \<Rightarrow> 'a list \<Rightarrow> nat option" where
  "position P [] = None"
| "position P (x # xs) = (if P x then Some 0 else map_option Suc (position P xs))"

lemma position_SomeD: "position P xs = Some i \<Longrightarrow> i < length xs \<and> P (xs ! i) \<and> (\<forall>j < i. \<not> P (xs ! j))"
proof (induction xs arbitrary: i)
  case Nil
  then show ?case by simp
next
  case (Cons x xs)
  then show ?case
    by (auto split: if_splits simp: less_Suc_eq_0_disj)
qed

lemma position_None_iff: "position P xs = None \<longleftrightarrow> (\<forall>x \<in> set xs. \<not> P x)"
  by (induction xs) auto

text \<open>\<open>Option::is_some_and\<close>.\<close>

definition is_some_and :: "'a option \<Rightarrow> ('a \<Rightarrow> bool) \<Rightarrow> bool" where
  "is_some_and o' P = (case o' of None \<Rightarrow> False | Some x \<Rightarrow> P x)"

lemma is_some_and_simps [simp]:
  "is_some_and None P = False" "is_some_and (Some x) P = P x"
  by (simp_all add: is_some_and_def)

lemma is_some_and_iff: "is_some_and o' P \<longleftrightarrow> (\<exists>x. o' = Some x \<and> P x)"
  by (cases o') auto

subsection \<open>List facts shared by the row and grid proofs\<close>

lemma nth_append_drop: "i < length (drop k xs) \<Longrightarrow> drop k xs ! i = xs ! (k + i)"
  by simp

lemma in_set_dropE:
  assumes "x \<in> set (drop k xs)"
  obtains i where "i < length xs - k" "x = xs ! (k + i)"
proof -
  from assms obtain i where "i < length (drop k xs)" "drop k xs ! i = x"
    by (auto simp: in_set_conv_nth)
  then show thesis using that by auto
qed

lemma set_list_update_subset: "set (xs[i := v]) \<subseteq> insert v (set xs)"
  by (rule set_update_subset_insert)

lemma list_all_replicate [simp]: "list_all P (replicate n x) = (n = 0 \<or> P x)"
  by (induction n) auto

lemma list_all_update: "list_all P xs \<Longrightarrow> P v \<Longrightarrow> list_all P (xs[i := v])"
  using set_update_subset_insert [of xs i v] by (auto simp: list_all_iff)

lemma list_all_take: "list_all P xs \<Longrightarrow> list_all P (take n xs)"
  by (auto simp: list_all_iff dest: in_set_takeD)

lemma list_all_drop: "list_all P xs \<Longrightarrow> list_all P (drop n xs)"
  by (auto simp: list_all_iff dest: in_set_dropD)

lemma list_all_vresize: "list_all P xs \<Longrightarrow> P v \<Longrightarrow> list_all P (vresize xs n v)"
  by (auto simp: vresize_def list_all_take)

subsection \<open>An interface: a step function that keeps an invariant and never panics\<close>

text \<open>
  Every event loop of the program is a step function driven by a sequence of events that
  somebody else chooses (bytes of a PTY, frames of a socket). A client of the loop relies on two
  promises: from a good state every admissible event is handled without a panic, and the state
  stays good. The whole run then has both.
\<close>

locale panic_free_machine =
  fixes good :: "'s \<Rightarrow> bool"
    and admissible :: "'e \<Rightarrow> bool"
    and step :: "'e \<Rightarrow> 's \<Rightarrow> 's option"
  assumes step_good: "good s \<Longrightarrow> admissible e \<Longrightarrow> succeeds (step e s) good"
begin

lemma run_good: "good s \<Longrightarrow> list_all admissible es \<Longrightarrow> succeeds (foldM step es s) good"
  by (rule foldM_invariant [where I = good]) (auto simp: list_all_iff intro: step_good)

lemma run_returns: "good s \<Longrightarrow> list_all admissible es \<Longrightarrow> \<exists>s'. foldM step es s = Some s' \<and> good s'"
  using run_good [of s es] by (auto simp: succeeds_def)

end

end
