(* ===== verification/Style_Table.thy ===== *)
theory Style_Table
  imports Prelude
begin

text \<open>
  SGR styles and their interning table (\<open>crates/qrmux/src/screen/style.rs\<close>): the style record,
  the SGR writer and parser, and the table that hands out 16-bit style identifiers and reclaims
  dead ones. Colour components and identifiers are \<open>nat\<close>s below \<open>256\<close> and \<open>65536\<close>; the output
  buffer of the writer is a list of bytes.
\<close>

datatype UnderlineStyle = UlNone | UlSingle | UlDouble | UlCurly | UlDotted | UlDashed

definition underline_from_sgr :: "nat \<Rightarrow> UnderlineStyle" where
  "underline_from_sgr n =
     (if n = 0 then UlNone else if n = 1 then UlSingle else if n = 2 then UlDouble
      else if n = 3 then UlCurly else if n = 4 then UlDotted else if n = 5 then UlDashed
      else UlSingle)"

fun sgr_param :: "UnderlineStyle \<Rightarrow> nat" where
  "sgr_param UlNone = 0"
| "sgr_param UlSingle = 1"
| "sgr_param UlDouble = 2"
| "sgr_param UlCurly = 3"
| "sgr_param UlDotted = 4"
| "sgr_param UlDashed = 5"

datatype Color = Indexed nat | Rgb nat nat nat

record Style =
  bold :: bool
  dim :: bool
  italic :: bool
  underline :: UnderlineStyle
  blink :: bool
  inverse :: bool
  strikethrough :: bool
  hidden :: bool
  fg :: "Color option"
  bg :: "Color option"
  underline_color :: "Color option"

definition style_default :: Style where
  "style_default = \<lparr>bold = False, dim = False, italic = False, underline = UlNone, blink = False,
     inverse = False, strikethrough = False, hidden = False, fg = None, bg = None,
     underline_color = None\<rparr>"

definition style_is_default :: "Style \<Rightarrow> bool" where
  "style_is_default s \<longleftrightarrow> s = style_default"

subsection \<open>Writing SGR parameters\<close>

text \<open>Decimal writers; a digit \<open>d\<close> is the byte \<open>48 + d\<close>.\<close>

definition write_u8 :: "nat \<Rightarrow> nat list" where
  "write_u8 n = (if 100 \<le> n then [48 + n div 100] else [])
              @ (if 10 \<le> n then [48 + (n div 10) mod 10] else [])
              @ [48 + n mod 10]"

definition write_u16 :: "nat \<Rightarrow> nat list" where
  "write_u16 n = (if 10000 \<le> n then [48 + n div 10000] else [])
               @ (if 1000 \<le> n then [48 + (n div 1000) mod 10] else [])
               @ (if 100 \<le> n then [48 + (n div 100) mod 10] else [])
               @ (if 10 \<le> n then [48 + (n div 10) mod 10] else [])
               @ [48 + n mod 10]"

text \<open>
  \<open>write_sgr_to\<close> threads the buffer and the \<open>need_sep\<close> flag. \<open>emit\<close> is its \<open>sep!\<close> macro followed
  by the bytes of one parameter.
\<close>

type_synonym sgr_buf = "nat list \<times> bool"

definition emit :: "nat list \<Rightarrow> sgr_buf \<Rightarrow> sgr_buf" where
  "emit bs b = (fst b @ (if snd b then [59] else []) @ bs, True)"

definition emit_if :: "bool \<Rightarrow> nat list \<Rightarrow> sgr_buf \<Rightarrow> sgr_buf" where
  "emit_if p bs b = (if p then emit bs b else b)"

definition write_color_to :: "Color option \<Rightarrow> nat \<Rightarrow> nat \<Rightarrow> nat list \<Rightarrow> sgr_buf \<Rightarrow> sgr_buf" where
  "write_color_to color base bright_base extended b =
     (case color of
        Some (Indexed c) \<Rightarrow>
          if c < 8 then emit (write_u8 (base + c)) b
          else if c < 16 then emit (write_u8 (bright_base + c - 8)) b
          else emit (extended @ [59, 53, 59] @ write_u8 c) b
      | Some (Rgb r g bl) \<Rightarrow>
          emit (extended @ [59, 50, 59] @ write_u8 r @ [59] @ write_u8 g @ [59] @ write_u8 bl) b
      | None \<Rightarrow> b)"

definition write_underline_to :: "UnderlineStyle \<Rightarrow> sgr_buf \<Rightarrow> sgr_buf" where
  "write_underline_to u b =
     (case u of UlNone \<Rightarrow> b
      | UlSingle \<Rightarrow> emit [52] b
      | other \<Rightarrow> emit [52, 58, 48 + sgr_param other] b)"

definition write_underline_color_to :: "Color option \<Rightarrow> sgr_buf \<Rightarrow> sgr_buf" where
  "write_underline_color_to color b =
     (case color of None \<Rightarrow> b
      | Some (Indexed c) \<Rightarrow> emit ([53, 56, 59, 53, 59] @ write_u8 c) b
      | Some (Rgb r g bl) \<Rightarrow>
          emit ([53, 56, 59, 50, 59] @ write_u8 r @ [59] @ write_u8 g @ [59] @ write_u8 bl) b)"

definition write_sgr_to :: "Style \<Rightarrow> sgr_buf \<Rightarrow> sgr_buf" where
  "write_sgr_to s b =
     (let b = emit_if (bold s) [49] b;
          b = emit_if (dim s) [50] b;
          b = emit_if (italic s) [51] b;
          b = write_underline_to (underline s) b;
          b = emit_if (blink s) [53] b;
          b = emit_if (inverse s) [55] b;
          b = emit_if (hidden s) [56] b;
          b = emit_if (strikethrough s) [57] b;
          b = write_color_to (fg s) 30 90 [51, 56] b;
          b = write_color_to (bg s) 40 100 [52, 56] b
      in write_underline_color_to (underline_color s) b)"

definition write_sgr_with_reset_to :: "Style \<Rightarrow> nat list \<Rightarrow> nat list" where
  "write_sgr_with_reset_to s out =
     (if style_is_default s then out @ [27, 91, 48, 109]
      else fst (write_sgr_to s (out @ [27, 91, 48], True)) @ [109])"

definition to_sgr_with_reset :: "Style \<Rightarrow> nat list" where
  "to_sgr_with_reset s = write_sgr_with_reset_to s []"

subsection \<open>Applying SGR parameters\<close>

text \<open>
  A parameter is the list of its colon-separated subparameters (\<open>u16\<close> values).
  \<open>parse_extended_color\<close> returns the colour and how many extra parameters it consumed, which is
  the amount the source adds to the index \<open>i\<close>.
\<close>

definition param_first :: "nat list \<Rightarrow> nat" where
  "param_first p = (case p of [] \<Rightarrow> 0 | v # _ \<Rightarrow> v)"

definition parse_extended_color :: "nat list list \<Rightarrow> Color option \<times> nat" where
  "parse_extended_color ps =
     (case ps of [] \<Rightarrow> (None, 0)
      | sub # rest \<Rightarrow>
        if 1 < length sub then
          (if 3 \<le> length sub \<and> sub ! 1 = 5 then (Some (Indexed (as_u8 (sub ! 2))), 0)
           else if sub ! 1 = 2 \<and> 6 \<le> length sub
             then (Some (Rgb (as_u8 (sub ! 3)) (as_u8 (sub ! 4)) (as_u8 (sub ! 5))), 0)
           else if sub ! 1 = 2 \<and> 5 \<le> length sub
             then (Some (Rgb (as_u8 (sub ! 2)) (as_u8 (sub ! 3)) (as_u8 (sub ! 4))), 0)
           else (None, 0))
        else if 1 \<le> length rest then
          (let mode = param_first (rest ! 0)
           in if mode = 5 \<and> 2 \<le> length rest
                then (Some (Indexed (as_u8 (param_first (rest ! 1)))), 2)
              else if mode = 2 \<and> 4 \<le> length rest
                then (Some (Rgb (as_u8 (param_first (rest ! 1))) (as_u8 (param_first (rest ! 2)))
                                (as_u8 (param_first (rest ! 3)))), 4)
              else (None, 0))
        else (None, 0))"

definition apply_sgr_simple :: "nat \<Rightarrow> nat list \<Rightarrow> Style \<Rightarrow> Style" where
  "apply_sgr_simple p sub s =
     (if p = 0 then style_default
      else if p = 1 then s\<lparr>bold := True\<rparr>
      else if p = 2 then s\<lparr>dim := True\<rparr>
      else if p = 3 then s\<lparr>italic := True\<rparr>
      else if p = 4 then
        (if 1 < length sub then s\<lparr>underline := underline_from_sgr (as_u8 (sub ! 1))\<rparr>
         else s\<lparr>underline := UlSingle\<rparr>)
      else if p = 5 \<or> p = 6 then s\<lparr>blink := True\<rparr>
      else if p = 7 then s\<lparr>inverse := True\<rparr>
      else if p = 8 then s\<lparr>hidden := True\<rparr>
      else if p = 9 then s\<lparr>strikethrough := True\<rparr>
      else if p = 21 then s\<lparr>underline := UlDouble\<rparr>
      else if p = 22 then s\<lparr>bold := False, dim := False\<rparr>
      else if p = 23 then s\<lparr>italic := False\<rparr>
      else if p = 24 then s\<lparr>underline := UlNone\<rparr>
      else if p = 25 then s\<lparr>blink := False\<rparr>
      else if p = 27 then s\<lparr>inverse := False\<rparr>
      else if p = 28 then s\<lparr>hidden := False\<rparr>
      else if p = 29 then s\<lparr>strikethrough := False\<rparr>
      else if 30 \<le> p \<and> p \<le> 37 then s\<lparr>fg := Some (Indexed (as_u8 (p - 30)))\<rparr>
      else if p = 39 then s\<lparr>fg := None\<rparr>
      else if 40 \<le> p \<and> p \<le> 47 then s\<lparr>bg := Some (Indexed (as_u8 (p - 40)))\<rparr>
      else if p = 49 then s\<lparr>bg := None\<rparr>
      else if p = 59 then s\<lparr>underline_color := None\<rparr>
      else if 90 \<le> p \<and> p \<le> 97 then s\<lparr>fg := Some (Indexed (as_u8 (p - 90 + 8)))\<rparr>
      else if 100 \<le> p \<and> p \<le> 107 then s\<lparr>bg := Some (Indexed (as_u8 (p - 100 + 8)))\<rparr>
      else s)"

definition set_color :: "nat \<Rightarrow> Color option \<Rightarrow> Style \<Rightarrow> Style" where
  "set_color p color s =
     (case color of None \<Rightarrow> s
      | Some c \<Rightarrow> if p = 38 then s\<lparr>fg := Some c\<rparr>
                  else if p = 48 then s\<lparr>bg := Some c\<rparr>
                  else s\<lparr>underline_color := Some c\<rparr>)"

function apply_sgr_loop :: "nat list list \<Rightarrow> Style \<Rightarrow> Style" where
  "apply_sgr_loop [] s = s"
| "apply_sgr_loop (sub # rest) s =
     (let p = param_first sub
      in if p = 38 \<or> p = 48 \<or> p = 58
         then (let (color, n) = parse_extended_color (sub # rest)
               in apply_sgr_loop (drop n rest) (set_color p color s))
         else apply_sgr_loop rest (apply_sgr_simple p sub s))"
  by pat_completeness auto
termination
  by (relation "measure (\<lambda>(ps, s). length ps)") auto

definition apply_sgr :: "nat list list \<Rightarrow> Style \<Rightarrow> Style" where
  "apply_sgr ps s = (if ps = [] then style_default else apply_sgr_loop ps s)"

subsection \<open>The interning table\<close>

record StyleTable =
  styles :: "Style list"
  index :: "Style \<rightharpoonup> nat"
  free_slots :: "nat list"

definition style_table_new :: StyleTable where
  "style_table_new = \<lparr>styles = [style_default], index = Map.empty, free_slots = []\<rparr>"

text \<open>\<open>free_slots\<close> is a stack: \<open>push\<close> appends at the end of the vector and \<open>pop\<close> takes from there.\<close>

definition intern :: "Style \<Rightarrow> StyleTable \<Rightarrow> (nat \<times> StyleTable) option" where
  "intern s t =
     (if style_is_default s then Some (0, t)
      else case index t s of
        Some i \<Rightarrow> Some (i, t)
      | None \<Rightarrow>
        if free_slots t \<noteq> [] then do {
          let i = last (free_slots t);
          st \<leftarrow> vset (styles t) i s;
          Some (i, t\<lparr>free_slots := butlast (free_slots t), styles := st, index := (index t)(s \<mapsto> i)\<rparr>) }
        else if U16_MAX < length (styles t) then Some (0, t)
        else (let i = as_u16 (length (styles t))
              in Some (i, t\<lparr>styles := styles t @ [s], index := (index t)(s \<mapsto> i)\<rparr>)))"

definition style_get :: "StyleTable \<Rightarrow> nat \<Rightarrow> Style" where
  "style_get t i = (if i < length (styles t) then styles t ! i else style_default)"

definition capacity :: "StyleTable \<Rightarrow> nat" where
  "capacity t = length (styles t)"

definition is_full :: "StyleTable \<Rightarrow> bool" where
  "is_full t \<longleftrightarrow> U16_MAX < length (styles t) \<and> free_slots t = []"

fun reclaim_loop :: "bool list \<Rightarrow> nat list \<Rightarrow> StyleTable \<Rightarrow> StyleTable" where
  "reclaim_loop live [] t = t"
| "reclaim_loop live (i # is) t =
     reclaim_loop live is
       (if i < length live \<and> \<not> live ! i
        then t\<lparr>index := (index t)(styles t ! i := None), free_slots := free_slots t @ [as_u16 i]\<rparr>
        else t)"

definition reclaim :: "bool list \<Rightarrow> StyleTable \<Rightarrow> StyleTable" where
  "reclaim live t = reclaim_loop live [1..<length (styles t)] (t\<lparr>free_slots := []\<rparr>)"

definition style_table_reset :: "StyleTable \<Rightarrow> StyleTable" where
  "style_table_reset t = \<lparr>styles = [style_default], index = Map.empty, free_slots = []\<rparr>"

end
