(* ===== verification/Grid.thy ===== *)
theory Grid
  imports Cell_Row Style_Table
begin

text \<open>
  The cell grid of the terminal emulator (\<open>crates/qrmux/src/screen/grid.rs\<close>): one record with the
  fields of \<open>struct Grid\<close>, one definition per method, in the order of the source. Every method that
  can index, insert, drain or subtract returns a \<open>res\<close>; \<open>debug_assert!\<close> and \<open>check_invariants\<close> are
  branches that panic. \<open>VecDeque\<close> is a list, \<open>BTreeSet\<close> a set, the two identity counters
  (\<open>Cell<Option<u64>>\<close>) are fields threaded through the fresh-row operations.
\<close>

datatype Charset = Ascii | LineDrawing
datatype ActiveCharset = G0 | G1
datatype CursorShape = ShapeDefault | BlinkBlock | SteadyBlock | BlinkUnderline | SteadyUnderline
  | BlinkBar | SteadyBar

definition cursor_shape_from_param :: "nat \<Rightarrow> CursorShape" where
  "cursor_shape_from_param n =
     (if n = 1 then BlinkBlock else if n = 2 then SteadyBlock else if n = 3 then BlinkUnderline
      else if n = 4 then SteadyUnderline else if n = 5 then BlinkBar else if n = 6 then SteadyBar
      else ShapeDefault)"

fun cursor_shape_to_param :: "CursorShape \<Rightarrow> nat" where
  "cursor_shape_to_param ShapeDefault = 0"
| "cursor_shape_to_param BlinkBlock = 1"
| "cursor_shape_to_param SteadyBlock = 2"
| "cursor_shape_to_param BlinkUnderline = 3"
| "cursor_shape_to_param SteadyUnderline = 4"
| "cursor_shape_to_param BlinkBar = 5"
| "cursor_shape_to_param SteadyBar = 6"

datatype MouseEncoding = X10 | MouseUtf8 | MouseSgr

record MouseModes =
  click :: bool
  button :: bool
  any_motion :: bool

record TerminalModes =
  cursor_key_mode :: bool
  bracketed_paste :: bool
  origin_mode :: bool
  autowrap_mode :: bool
  focus_reporting :: bool
  mouse_modes :: MouseModes
  mouse_encoding :: MouseEncoding
  keypad_app_mode :: bool
  cursor_shape :: CursorShape
  g0_charset :: Charset
  g1_charset :: Charset
  active_charset :: ActiveCharset

definition modes_default :: TerminalModes where
  "modes_default = \<lparr>cursor_key_mode = False, bracketed_paste = False, origin_mode = False,
     autowrap_mode = True, focus_reporting = False,
     mouse_modes = \<lparr>click = False, button = False, any_motion = False\<rparr>, mouse_encoding = X10,
     keypad_app_mode = False, cursor_shape = ShapeDefault, g0_charset = Ascii, g1_charset = Ascii,
     active_charset = G0\<rparr>"

definition mouse_modes_set :: "nat \<Rightarrow> bool \<Rightarrow> MouseModes \<Rightarrow> MouseModes" where
  "mouse_modes_set param enable m =
     (if param = 1000 then m\<lparr>click := enable\<rparr>
      else if param = 1002 then m\<lparr>button := enable\<rparr>
      else if param = 1003 then m\<lparr>any_motion := enable\<rparr> else m)"

definition mouse_encoding_from_param :: "nat \<Rightarrow> MouseEncoding option" where
  "mouse_encoding_from_param p =
     (if p = 1005 then Some MouseUtf8 else if p = 1006 then Some MouseSgr else None)"

record PendingWrap =
  pw_source :: nat
  pw_source_revision :: nat
  pw_source_width :: nat
  pw_kind :: WrapKind
  pw_padding_count :: nat

record SequentialEdge =
  se_source :: nat
  se_target :: nat

datatype GeometryInvalidationReason = LiveResize bool | AltRestore bool

record Grid =
  cols :: nat
  rows :: nat
  cells :: "Row list"
  cursor_x :: nat
  cursor_y :: nat
  wrap_pending :: bool
  scroll_top :: nat
  scroll_bottom :: nat
  cursor_visible :: bool
  modes :: TerminalModes
  tab_stops :: "bool list"
  scrollback_len :: nat
  scrollback_limit :: nat
  pending_start :: nat
  style_table :: StyleTable
  next_row_id :: "nat option"
  next_edge_id :: "nat option"
  pending_wrap :: "PendingWrap option"
  sequential_edge :: "SequentialEdge option"
  in_alt_domain :: bool
  logical_shadow :: bool

record SavedGrid =
  sg_visible_cells :: "Row list"
  sg_scrollback_limit :: nat
  sg_save_cols :: nat
  sg_alt_epoch :: "nat option"
  sg_entered_with_1049 :: bool
  sg_pending_wrap :: "PendingWrap option"
  sg_sequential_edge :: "SequentialEdge option"

subsection \<open>Construction and fresh rows\<close>

definition default_tab_stops :: "nat \<Rightarrow> bool list" where
  "default_tab_stops n = map (\<lambda>c. 0 < c \<and> c mod 8 = 0) [0..<n]"

definition sanitize_dimensions :: "nat \<Rightarrow> nat \<Rightarrow> nat \<times> nat" where
  "sanitize_dimensions c r = (max c 1, max r 1)"

definition take_id :: "nat option \<Rightarrow> nat option \<times> nat option" where
  "take_id counter = (counter, counter \<bind> (\<lambda>v. checked_add64 v 1))"

fun fresh_rows :: "nat \<Rightarrow> nat \<Rightarrow> nat option \<Rightarrow> Row list \<times> nat option" where
  "fresh_rows 0 c next_id = ([], next_id)"
| "fresh_rows (Suc n) c next_id =
     (let (i, next_id') = take_id next_id; (rs, fin) = fresh_rows n c next_id'
      in (assign_id i (row_new c) # rs, fin))"

definition new_with_role :: "nat \<Rightarrow> nat \<Rightarrow> nat \<Rightarrow> bool \<Rightarrow> Grid" where
  "new_with_role c r limit shadow =
     (let (c, r) = sanitize_dimensions c r; (rs, next_id) = fresh_rows r c (Some 0)
      in \<lparr>cols = c, rows = r, cells = rs, cursor_x = 0, cursor_y = 0, wrap_pending = False,
          scroll_top = 0, scroll_bottom = r - 1, cursor_visible = True, modes = modes_default,
          tab_stops = default_tab_stops c, scrollback_len = 0, scrollback_limit = limit,
          pending_start = 0, style_table = style_table_new, next_row_id = next_id,
          next_edge_id = Some 0, pending_wrap = None, sequential_edge = None,
          in_alt_domain = False, logical_shadow = shadow\<rparr>)"

definition fresh_row_with_cells :: "Cell list \<Rightarrow> Grid \<Rightarrow> Row \<times> Grid" where
  "fresh_row_with_cells cs g =
     (let (i, next_id) = take_id (next_row_id g)
      in (assign_id i (row_from_cells cs), g\<lparr>next_row_id := next_id\<rparr>))"

definition fresh_blank_row :: "nat \<Rightarrow> Grid \<Rightarrow> Row \<times> Grid" where
  "fresh_blank_row n g =
     (let (i, next_id) = take_id (next_row_id g)
      in (assign_id i (row_new n), g\<lparr>next_row_id := next_id\<rparr>))"

definition push_back :: "Row \<Rightarrow> Grid \<Rightarrow> Grid" where
  "push_back r g = g\<lparr>cells := cells g @ [r]\<rparr>"

subsection \<open>Row access and the debug invariant check\<close>

definition visible_row :: "nat \<Rightarrow> Grid \<Rightarrow> Row option" where
  "visible_row y g = (if y < rows g then vget (cells g) (scrollback_len g + y) else None)"

definition upd_row :: "nat \<Rightarrow> (Row \<Rightarrow> Row option) \<Rightarrow> Grid \<Rightarrow> Grid option" where
  "upd_row i f g = do {
     r \<leftarrow> vget (cells g) i;
     r \<leftarrow> f r;
     cs \<leftarrow> vset (cells g) i r;
     Some (g\<lparr>cells := cs\<rparr>) }"

definition visible_row_mut :: "nat \<Rightarrow> (Row \<Rightarrow> Row option) \<Rightarrow> Grid \<Rightarrow> Grid option" where
  "visible_row_mut y f g = (if y < rows g then upd_row (scrollback_len g + y) f g else None)"

definition visible_rows :: "Grid \<Rightarrow> Row list" where
  "visible_rows g = take (rows g) (drop (scrollback_len g) (cells g))"

definition scrollback_rows :: "Grid \<Rightarrow> Row list" where
  "scrollback_rows g = take (scrollback_len g) (cells g)"

definition visible_row_count :: "Grid \<Rightarrow> nat" where
  "visible_row_count g = length (cells g) - scrollback_len g"

definition check_invariants :: "Grid \<Rightarrow> Grid option" where
  "check_invariants g =
     (if pending_start g \<le> scrollback_len g \<and> length (cells g) = scrollback_len g + rows g
      then Some g else None)"

subsection \<open>Deferred wrap and its provenance\<close>

definition set_wrap_pending :: "bool \<Rightarrow> Grid \<Rightarrow> Grid" where
  "set_wrap_pending v g =
     (let g = g\<lparr>wrap_pending := v\<rparr>
      in if v then g else g\<lparr>pending_wrap := None, sequential_edge := None\<rparr>)"

definition arm_qualified_wrap :: "WrapKind \<Rightarrow> nat \<Rightarrow> Grid \<Rightarrow> Grid option" where
  "arm_qualified_wrap k padding g = do {
     let g = g\<lparr>wrap_pending := True\<rparr>;
     row \<leftarrow> visible_row (cursor_y g) g;
     Some (g\<lparr>pending_wrap :=
       (case (row_id row, content_revision row) of
          (Some source, Some rv) \<Rightarrow>
            Some \<lparr>pw_source = source, pw_source_revision = rv,
                  pw_source_width = (if row_len row \<le> U16_MAX then row_len row else U16_MAX),
                  pw_kind = k, pw_padding_count = padding\<rparr>
        | _ \<Rightarrow> None)\<rparr>) }"

definition take_qualified_wrap :: "Grid \<Rightarrow> (PendingWrap option \<times> Grid) option" where
  "take_qualified_wrap g =
     (case pending_wrap g of
        None \<Rightarrow> Some (None, g)
      | Some p \<Rightarrow> do {
          let g = g\<lparr>pending_wrap := None\<rparr>;
          row \<leftarrow> visible_row (cursor_y g) g;
          let kind_valid = ((pw_kind p = Normal \<and> pw_padding_count p = 0)
                            \<or> (pw_kind p = WideEarly \<and> 0 < pw_padding_count p));
          Some (if kind_valid \<and> row_id row = Some (pw_source p)
                   \<and> content_revision row = Some (pw_source_revision p)
                   \<and> row_len row = pw_source_width p \<and> cols g = pw_source_width p
                then Some p else None, g) })"

definition row_has_id :: "nat \<Rightarrow> Row \<Rightarrow> bool" where
  "row_has_id i r \<longleftrightarrow> row_id r = Some i"

definition publish_deferred_wrap :: "PendingWrap option \<Rightarrow> Grid \<Rightarrow> Grid option" where
  "publish_deferred_wrap pending g =
     (let cut = g\<lparr>sequential_edge := None\<rparr>
      in case pending of None \<Rightarrow> Some cut
      | Some p \<Rightarrow> do {
          row \<leftarrow> visible_row (cursor_y g) g;
          case row_id row of None \<Rightarrow> Some cut
          | Some tgt \<Rightarrow>
            if tgt = pw_source p then Some cut
            else case position (row_has_id (pw_source p)) (cells g) of
              None \<Rightarrow> Some cut
            | Some si \<Rightarrow>
              if position (row_has_id tgt) (cells g) \<noteq> Some (si + 1)
                 \<or> row_len (cells g ! si) \<noteq> pw_source_width p
                 \<or> row_len (cells g ! (si + 1)) \<noteq> pw_source_width p
              then Some cut
              else case take_id (next_edge_id g) of
                (None, next_id) \<Rightarrow> Some (cut\<lparr>next_edge_id := next_id\<rparr>)
              | (Some eid, next_id) \<Rightarrow> do {
                  g \<leftarrow> upd_row si (\<lambda>r. Some (r\<lparr>outgoing := Some \<lparr>we_edge_id = eid, we_target = tgt,
                          we_kind = pw_kind p, we_padding_count = pw_padding_count p,
                          we_valid_width = pw_source_width p\<rparr>\<rparr>)) (g\<lparr>next_edge_id := next_id\<rparr>);
                  Some (g\<lparr>sequential_edge := Some \<lparr>se_source = pw_source p, se_target = tgt\<rparr>\<rparr>) } })"

definition invalidate_provenance_keep_raw :: "Grid \<Rightarrow> Grid" where
  "invalidate_provenance_keep_raw g = g\<lparr>pending_wrap := None, sequential_edge := None\<rparr>"

definition invalidate_pending_for_geometry :: "GeometryInvalidationReason \<Rightarrow> Grid \<Rightarrow> Grid" where
  "invalidate_pending_for_geometry reason g =
     (let invalid = (case reason of LiveResize w \<Rightarrow> w | AltRestore s \<Rightarrow> s)
      in if invalid
         then (let g = g\<lparr>pending_wrap := None, sequential_edge := None\<rparr>
               in if logical_shadow g then g\<lparr>wrap_pending := False\<rparr> else g)
         else g)"

subsection \<open>Edge validation and severing\<close>

definition edge_shape_valid :: "Row \<Rightarrow> Row \<Rightarrow> WrapEdge \<Rightarrow> bool" where
  "edge_shape_valid source tgt edge \<longleftrightarrow>
     (case we_kind edge of
        Normal \<Rightarrow> we_padding_count edge = 0
      | WideEarly \<Rightarrow> 0 < we_padding_count edge \<and> we_padding_count edge \<le> row_len source
          \<and> list_all (\<lambda>c. ch c = SP \<and> width c = 1)
              (take (we_padding_count edge) (rev (row_cells source))))
     \<and> row_len source = we_valid_width edge \<and> row_len tgt = we_valid_width edge
     \<and> row_id tgt = Some (we_target edge)"

definition suspended_boundary :: "Grid \<Rightarrow> Row list \<Rightarrow> nat \<Rightarrow> WrapEdge \<Rightarrow> bool" where
  "suspended_boundary g cs i edge \<longleftrightarrow>
     in_alt_domain g \<and> i + 1 = scrollback_len g
     \<and> \<not> list_ex (row_has_id (we_target edge)) cs \<and> row_id (cs ! i) \<noteq> None"

definition edge_valid_at :: "Grid \<Rightarrow> Row list \<Rightarrow> nat \<Rightarrow> WrapEdge \<Rightarrow> bool" where
  "edge_valid_at g cs i edge \<longleftrightarrow>
     (if suspended_boundary g cs i edge
      then row_len (cs ! i) = we_valid_width edge
      else is_some_and (row_id (cs ! i)) (\<lambda>s. s \<noteq> we_target edge)
           \<and> \<not> (in_alt_domain g \<and> i + 1 = scrollback_len g)
           \<and> i + 1 < length cs
           \<and> row_has_id (we_target edge) (cs ! (i + 1))
           \<and> edge_shape_valid (cs ! i) (cs ! (i + 1)) edge)"

definition validate_step :: "Grid \<Rightarrow> nat \<Rightarrow> Row list \<times> bool \<Rightarrow> Row list \<times> bool" where
  "validate_step g i st =
     (let (cs, seq_valid) = st
      in case outgoing (cs ! i) of None \<Rightarrow> (cs, seq_valid)
      | Some edge \<Rightarrow>
          if \<not> edge_valid_at g cs i edge then (cs[i := (cs ! i)\<lparr>outgoing := None\<rparr>], seq_valid)
          else (cs, seq_valid
                 \<or> is_some_and (sequential_edge g)
                     (\<lambda>seq. row_id (cs ! i) = Some (se_source seq) \<and> we_target edge = se_target seq
                            \<and> \<not> suspended_boundary g cs i edge)))"

definition pending_matches_cursor_row :: "Grid \<Rightarrow> PendingWrap \<Rightarrow> bool" where
  "pending_matches_cursor_row g p \<longleftrightarrow>
     is_some_and (vget (cells g) (scrollback_len g + cursor_y g))
       (\<lambda>row. row_id row = Some (pw_source p)
              \<and> content_revision row = Some (pw_source_revision p)
              \<and> row_len row = pw_source_width p)"

definition validate_all_edges :: "Grid \<Rightarrow> Grid" where
  "validate_all_edges g =
     (let (cs, seq_valid) = fold (validate_step g) [0..<length (cells g)] (cells g, False);
          g' = g\<lparr>cells := cs\<rparr>;
          g' = (if is_some_and (pending_wrap g') (pending_matches_cursor_row g') then g'
                else g'\<lparr>pending_wrap := None\<rparr>)
      in if sequential_edge g \<noteq> None \<and> \<not> seq_valid then g'\<lparr>sequential_edge := None\<rparr> else g')"

definition sever_row :: "nat set \<Rightarrow> Row \<Rightarrow> Row" where
  "sever_row doomed r =
     (if is_some_and (outgoing r) (\<lambda>e. we_target e \<in> doomed)
         \<or> is_some_and (row_id r) (\<lambda>i. i \<in> doomed)
      then r\<lparr>outgoing := None\<rparr> else r)"

definition sever_ids :: "nat set \<Rightarrow> Grid \<Rightarrow> Grid" where
  "sever_ids doomed g =
     (let g = g\<lparr>cells := map (sever_row doomed) (cells g)\<rparr>;
          g = (if is_some_and (pending_wrap g) (\<lambda>p. pw_source p \<in> doomed)
               then g\<lparr>pending_wrap := None\<rparr> else g)
      in if is_some_and (sequential_edge g) (\<lambda>s. se_source s \<in> doomed \<or> se_target s \<in> doomed)
         then g\<lparr>sequential_edge := None\<rparr> else g)"

definition sever_opt :: "Row option \<Rightarrow> Grid \<Rightarrow> Grid" where
  "sever_opt r g = (case r \<bind> row_id of None \<Rightarrow> g | Some i \<Rightarrow> sever_ids {i} g)"

definition cells_back :: "Row list \<Rightarrow> Row option" where
  "cells_back rs = (if rs = [] then None else Some (last rs))"

definition cells_front :: "Row list \<Rightarrow> Row option" where
  "cells_front rs = (case rs of [] \<Rightarrow> None | r # _ \<Rightarrow> Some r)"

definition sever_pop_back :: "Grid \<Rightarrow> Grid" where
  "sever_pop_back g = (let g = sever_opt (cells_back (cells g)) g in g\<lparr>cells := butlast (cells g)\<rparr>)"

subsection \<open>Content writes\<close>

text \<open>The two halves of \<open>before_content_write\<close> around the revision bump.\<close>

definition sever_incoming :: "nat \<Rightarrow> nat option \<Rightarrow> bool \<Rightarrow> Grid \<Rightarrow> Grid option" where
  "sever_incoming i target_id forward_stream g =
     (if 0 < i then do {
        prev \<leftarrow> vget (cells g) (i - 1);
        let incoming = outgoing prev;
        let authorized = (forward_stream \<and> is_some_and (sequential_edge g) (\<lambda>seq.
              row_id prev = Some (se_source seq) \<and> target_id = Some (se_target seq)
              \<and> is_some_and incoming (\<lambda>e. we_target e = se_target seq)));
        if is_some_and incoming (\<lambda>e. Some (we_target e) = target_id) \<and> \<not> authorized
        then upd_row (i - 1) (\<lambda>r. Some (r\<lparr>outgoing := None\<rparr>)) g
        else Some g }
      else Some g)"

definition settle_pending :: "nat option \<Rightarrow> bool \<Rightarrow> nat option \<Rightarrow> nat option \<Rightarrow> Grid \<Rightarrow> Grid" where
  "settle_pending target_id refresh_pending old_revision new_revision g =
     (let pending = pending_wrap g;
          refresh = (refresh_pending \<and> is_some_and pending (\<lambda>t.
            target_id = Some (pw_source t) \<and> old_revision = Some (pw_source_revision t)));
          g = (if refresh
               then g\<lparr>pending_wrap :=
                      (case (pending, new_revision) of
                         (Some t, Some rv) \<Rightarrow> Some (t\<lparr>pw_source_revision := rv\<rparr>)
                       | _ \<Rightarrow> None)\<rparr>
               else if is_some_and pending (\<lambda>t. target_id = Some (pw_source t))
               then g\<lparr>pending_wrap := None\<rparr> else g)
      in if new_revision = None then g\<lparr>pending_wrap := None, sequential_edge := None\<rparr> else g)"

definition before_content_write :: "nat \<Rightarrow> bool \<Rightarrow> bool \<Rightarrow> Grid \<Rightarrow> Grid option" where
  "before_content_write y forward_stream refresh_pending g =
     (if rows g \<le> y then Some g else do {
        let i = scrollback_len g + y;
        row \<leftarrow> vget (cells g) i;
        g \<leftarrow> upd_row i (\<lambda>r. Some (r\<lparr>outgoing := None\<rparr>)) g;
        g \<leftarrow> sever_incoming i (row_id row) forward_stream g;
        row' \<leftarrow> vget (cells g) i;
        g \<leftarrow> upd_row i (\<lambda>r. Some (advance_revision r)) g;
        Some (settle_pending (row_id row) refresh_pending (content_revision row')
                (content_revision (advance_revision row')) g) })"

definition prepare_addressed_write :: "nat \<Rightarrow> Grid \<Rightarrow> Grid option" where
  "prepare_addressed_write y g = do {
     g \<leftarrow> before_content_write y False False g;
     Some (g\<lparr>sequential_edge := None\<rparr>) }"

definition fixup_wide_char_at :: "nat \<Rightarrow> nat \<Rightarrow> Grid \<Rightarrow> Grid option" where
  "fixup_wide_char_at x y g =
     (if rows g \<le> y \<or> cols g \<le> x then Some g else do {
        r \<leftarrow> visible_row y g;
        c \<leftarrow> row_get x r;
        if width c = 2 then do {
          g \<leftarrow> (if x + 1 < cols g then visible_row_mut y (row_set (x + 1) cell_default) g else Some g);
          visible_row_mut y (row_set x cell_default) g }
        else if width c = 0 \<and> 0 < x then do {
          g \<leftarrow> visible_row_mut y (row_set (x - 1) cell_default) g;
          visible_row_mut y (row_set x cell_default) g }
        else Some g })"

definition set_cell_raw :: "nat \<Rightarrow> nat \<Rightarrow> Cell \<Rightarrow> Grid \<Rightarrow> Grid option" where
  "set_cell_raw x y cell g = do {
     g \<leftarrow> fixup_wide_char_at x y g;
     g \<leftarrow> visible_row_mut y (\<lambda>r. do { r \<leftarrow> row_set x cell r; Some (clear_combining (as_u16 x) r) }) g;
     if width cell = 2 \<and> x + 1 < cols g then do {
       g \<leftarrow> fixup_wide_char_at (x + 1) y g;
       visible_row_mut y (\<lambda>r. do { r \<leftarrow> row_set (x + 1) (cell_new NUL (style_id cell) 0) r;
                                  Some (clear_combining (as_u16 (x + 1)) r) }) g }
     else Some g }"

definition set_cell :: "nat \<Rightarrow> nat \<Rightarrow> Cell \<Rightarrow> Grid \<Rightarrow> Grid option" where
  "set_cell x y cell g =
     (if rows g \<le> y \<or> cols g \<le> x then Some g
      else do { g \<leftarrow> before_content_write y False False g; set_cell_raw x y cell g })"

definition set_print_cell :: "nat \<Rightarrow> nat \<Rightarrow> Cell \<Rightarrow> Grid \<Rightarrow> Grid option" where
  "set_print_cell x y cell g =
     (if rows g \<le> y \<or> cols g \<le> x then Some g
      else do { g \<leftarrow> before_content_write y True False g; set_cell_raw x y cell g })"

definition set_wide_early_padding :: "nat \<Rightarrow> nat \<Rightarrow> Cell \<Rightarrow> Grid \<Rightarrow> Grid option" where
  "set_wide_early_padding x y cell g =
     (if rows g \<le> y \<or> cols g \<le> x then Some g
      else do { g \<leftarrow> before_content_write y True False g; visible_row_mut y (row_set x cell) g })"

definition push_print_combining :: "nat \<Rightarrow> nat \<Rightarrow> rchar \<Rightarrow> Grid \<Rightarrow> Grid option" where
  "push_print_combining y x mark g = do {
     g \<leftarrow> before_content_write y True True g;
     visible_row_mut y (\<lambda>r. Some (push_combining (as_u16 x) mark r)) g }"

definition erase_cells :: "nat \<Rightarrow> nat \<Rightarrow> nat \<Rightarrow> Cell \<Rightarrow> Grid \<Rightarrow> Grid option" where
  "erase_cells y from to blank g =
     (let from = min from (cols g); to = min to (cols g)
      in if rows g \<le> y \<or> to \<le> from then Some g else do {
        g \<leftarrow> before_content_write y False False g;
        g \<leftarrow> fixup_wide_char_at from y g;
        g \<leftarrow> (if to < cols g then fixup_wide_char_at to y g else Some g);
        visible_row_mut y (\<lambda>r. do {
          r \<leftarrow> foldM (\<lambda>i. row_set i blank) [from..<to] r;
          Some (clear_combining_range (as_u16 from) (as_u16 to) r) }) g })"

definition blank_row :: "Cell \<Rightarrow> Row \<Rightarrow> Row" where
  "blank_row blank r = clear_all_combining (r\<lparr>row_cells := map (\<lambda>_. blank) (row_cells r)\<rparr>)"

definition erase_rows :: "nat \<Rightarrow> nat \<Rightarrow> Cell \<Rightarrow> Grid \<Rightarrow> Grid option" where
  "erase_rows from_y to_y blank g =
     foldM (\<lambda>y g. do { g \<leftarrow> before_content_write y False False g;
                       visible_row_mut y (\<lambda>r. Some (blank_row blank r)) g })
       [min from_y (rows g)..<min to_y (rows g)] g"

subsection \<open>Row insertion, removal and scrolling\<close>

definition remove_row_at :: "nat \<Rightarrow> Grid \<Rightarrow> Row option \<times> Grid" where
  "remove_row_at i g =
     (if length (cells g) \<le> i then (None, g)
      else let doomed = row_id (cells g ! i);
               g = (case doomed of None \<Rightarrow> g
                    | Some d \<Rightarrow>
                      let g = (if 0 < i \<and> is_some_and (outgoing (cells g ! (i - 1))) (\<lambda>e. we_target e = d)
                               then g\<lparr>cells := (cells g)[i - 1 := (cells g ! (i - 1))\<lparr>outgoing := None\<rparr>]\<rparr>
                               else g);
                          g = (if is_some_and (pending_wrap g) (\<lambda>p. pw_source p = d)
                               then g\<lparr>pending_wrap := None\<rparr> else g)
                      in if is_some_and (sequential_edge g) (\<lambda>s. se_source s = d \<or> se_target s = d)
                         then g\<lparr>sequential_edge := None\<rparr> else g)
           in (Some (cells g ! i), g\<lparr>cells := take i (cells g) @ drop (Suc i) (cells g)\<rparr>))"

definition remove_visible_row :: "nat \<Rightarrow> Grid \<Rightarrow> (Row \<times> Grid) option" where
  "remove_visible_row y g =
     (let i = scrollback_len g + y
      in if i < length (cells g)
         then (case remove_row_at i g of
                 (Some r, g') \<Rightarrow> Some (r, g')
               | (None, g') \<Rightarrow> Some (row_new (cols g), g'))
         else None)"

definition insert_visible_row :: "nat \<Rightarrow> Row \<Rightarrow> Grid \<Rightarrow> Grid option" where
  "insert_visible_row y row g = do {
     let i = scrollback_len g + y;
     let g = (if 0 < i \<and> i < length (cells g)
                 \<and> is_some_and (outgoing (cells g ! (i - 1))) (\<lambda>e. row_id (cells g ! i) = Some (we_target e))
              then let source_id = row_id (cells g ! (i - 1)); target_id = row_id (cells g ! i);
                       g = g\<lparr>cells := (cells g)[i - 1 := (cells g ! (i - 1))\<lparr>outgoing := None\<rparr>]\<rparr>
                   in if is_some_and (sequential_edge g)
                          (\<lambda>s. source_id = Some (se_source s) \<and> target_id = Some (se_target s))
                      then g\<lparr>sequential_edge := None\<rparr> else g
              else g);
     cs \<leftarrow> vinsert (cells g) i row;
     Some (g\<lparr>cells := cs\<rparr>) }"

definition next_tab_stop :: "nat \<Rightarrow> Grid \<Rightarrow> nat option" where
  "next_tab_stop col g =
     (case List.find (\<lambda>c. tab_stops g ! c) [col + 1..<length (tab_stops g)] of
        Some c \<Rightarrow> Some (as_u16 c)
      | None \<Rightarrow> sub16 (cols g) 1)"

definition scroll_up :: "bool \<Rightarrow> Cell \<Rightarrow> Grid \<Rightarrow> Grid option" where
  "scroll_up in_alt fill g = do {
     let top = scroll_top g;
     let bottom = scroll_bottom g;
     visible_len \<leftarrow> usub (length (cells g)) (scrollback_len g);
     g \<leftarrow> (if \<not> in_alt \<and> top = 0 \<and> 0 < scrollback_limit g then do {
             let g = g\<lparr>scrollback_len := scrollback_len g + 1\<rparr>;
             let g = (if scrollback_limit g < scrollback_len g
                      then let g = snd (remove_row_at 0 g);
                               g = g\<lparr>scrollback_len := scrollback_len g - 1\<rparr>
                           in if 0 < pending_start g then g\<lparr>pending_start := pending_start g - 1\<rparr> else g
                      else g);
             last_row \<leftarrow> usub visible_len 1;
             let (blank, g) = fresh_row_with_cells (replicate (cols g) fill) g;
             if last_row \<le> bottom then Some (push_back blank g)
             else insert_visible_row bottom blank g }
           else if top \<le> bottom \<and> bottom < visible_len then
             (if top = 0 \<and> bottom = visible_len - 1 then do {
                (_, g) \<leftarrow> remove_visible_row 0 g;
                let (blank, g) = fresh_row_with_cells (replicate (cols g) fill) g;
                insert_visible_row (visible_row_count g) blank g }
              else do {
                (_, g) \<leftarrow> remove_visible_row top g;
                let (blank, g) = fresh_row_with_cells (replicate (cols g) fill) g;
                insert_visible_row bottom blank g })
           else Some g);
     check_invariants g }"

definition scroll_down :: "Cell \<Rightarrow> Grid \<Rightarrow> Grid option" where
  "scroll_down fill g = do {
     let top = scroll_top g;
     let bottom = scroll_bottom g;
     visible_len \<leftarrow> usub (length (cells g)) (scrollback_len g);
     g \<leftarrow> (if top \<le> bottom \<and> bottom < visible_len then do {
             (_, g) \<leftarrow> remove_visible_row bottom g;
             let (blank, g) = fresh_row_with_cells (replicate (cols g) fill) g;
             insert_visible_row top blank g }
           else Some g);
     check_invariants g }"

definition clear_scrollback :: "Grid \<Rightarrow> Grid option" where
  "clear_scrollback g = do {
     let doomed = set (List.map_filter row_id (take (scrollback_len g) (cells g)));
     let g = sever_ids doomed g;
     _ \<leftarrow> usub (length (cells g)) (scrollback_len g);
     check_invariants (g\<lparr>cells := drop (scrollback_len g) (cells g), scrollback_len := 0, pending_start := 0\<rparr>) }"

definition reset_scroll_region :: "Grid \<Rightarrow> Grid option" where
  "reset_scroll_region g = do {
     b \<leftarrow> sub16 (rows g) 1;
     Some (g\<lparr>scroll_top := 0, scroll_bottom := b\<rparr>) }"

definition set_scroll_region :: "nat \<Rightarrow> nat \<Rightarrow> Grid \<Rightarrow> Grid" where
  "set_scroll_region t b g = g\<lparr>scroll_top := t, scroll_bottom := b\<rparr>"

definition set_tab_stop :: "nat \<Rightarrow> Grid \<Rightarrow> Grid" where
  "set_tab_stop c g =
     (if c < length (tab_stops g) then g\<lparr>tab_stops := (tab_stops g)[c := True]\<rparr> else g)"

definition clear_tab_stop :: "nat \<Rightarrow> Grid \<Rightarrow> Grid" where
  "clear_tab_stop c g =
     (if c < length (tab_stops g) then g\<lparr>tab_stops := (tab_stops g)[c := False]\<rparr> else g)"

definition clear_all_tab_stops :: "Grid \<Rightarrow> Grid" where
  "clear_all_tab_stops g = g\<lparr>tab_stops := map (\<lambda>_. False) (tab_stops g)\<rparr>"

definition reset_tab_stops :: "Grid \<Rightarrow> Grid" where
  "reset_tab_stops g = g\<lparr>tab_stops := default_tab_stops (cols g)\<rparr>"

definition pending_scrollback_count :: "Grid \<Rightarrow> nat" where
  "pending_scrollback_count g = scrollback_len g - pending_start g"

end
