(* ===== verification/Grid_Geometry.thy ===== *)
theory Grid_Geometry
  imports Grid
begin

text \<open>
  The geometry half of \<open>crates/qrmux/src/screen/grid.rs\<close> (alternate-screen save and restore,
  resizing, moving rows between the visible part and the scrollback) together with
  \<open>Screen::resize_grid\<close> and \<open>compact_styles\<close> of \<open>screen/mod.rs\<close>, which drive it.
\<close>

subsection \<open>Alternate screen\<close>

definition row_ids :: "Row list \<Rightarrow> nat set" where
  "row_ids rs = set (List.map_filter row_id rs)"

definition restore_row :: "nat set \<Rightarrow> bool \<Rightarrow> Row \<Rightarrow> Row" where
  "restore_row affected width_changed r =
     (let r = sever_row affected r in if width_changed then advance_revision r else r)"

definition prepare_alt_restore :: "SavedGrid \<Rightarrow> Grid \<Rightarrow> (bool \<times> nat) \<times> SavedGrid \<times> Grid" where
  "prepare_alt_restore saved g =
     (let keep = min (rows g) (length (sg_visible_cells saved));
          doomed = row_ids (drop keep (sg_visible_cells saved));
          width_changed = (cols g \<noteq> sg_save_cols saved);
          affected = (if width_changed then row_ids (sg_visible_cells saved) else doomed);
          g = sever_ids affected g;
          saved = saved\<lparr>sg_visible_cells := map (restore_row affected width_changed) (sg_visible_cells saved)\<rparr>;
          saved = (if is_some_and (sg_pending_wrap saved) (\<lambda>p. pw_source p \<in> affected) \<or> width_changed
                   then saved\<lparr>sg_pending_wrap := None\<rparr> else saved);
          saved = (if is_some_and (sg_sequential_edge saved)
                         (\<lambda>s. se_source s \<in> affected \<or> se_target s \<in> affected) \<or> width_changed
                   then saved\<lparr>sg_sequential_edge := None\<rparr> else saved)
      in ((width_changed, keep), saved, g))"

definition finish_alt_restore ::
  "PendingWrap option \<Rightarrow> SequentialEdge option \<Rightarrow> bool \<Rightarrow> Grid \<Rightarrow> Grid" where
  "finish_alt_restore pending sequential authorize g =
     (let g = g\<lparr>in_alt_domain := False, pending_wrap := (if authorize then pending else None),
                sequential_edge := (if authorize then sequential else None)\<rparr>;
          g = validate_all_edges g;
          g = (if is_some_and (pending_wrap g)
                    (\<lambda>t. pending_matches_cursor_row g t \<and> cols g = pw_source_width t)
               then g else g\<lparr>pending_wrap := None\<rparr>)
      in validate_all_edges g)"

definition drain_visible :: "Grid \<Rightarrow> (Row list \<times> Grid) option" where
  "drain_visible g = do {
     _ \<leftarrow> usub (length (cells g)) (scrollback_len g);
     Some (drop (scrollback_len g) (cells g), g\<lparr>cells := take (scrollback_len g) (cells g)\<rparr>) }"

definition replace_visible :: "Row list \<Rightarrow> Grid \<Rightarrow> Grid" where
  "replace_visible rs g =
     g\<lparr>cells := take (scrollback_len g) (cells g) @ rs, in_alt_domain := False\<rparr>"

definition push_fresh_blank :: "nat \<Rightarrow> Grid \<Rightarrow> Grid" where
  "push_fresh_blank n g = (let (r, g) = fresh_blank_row n g in push_back r g)"

definition fill_visible_blank :: "Grid \<Rightarrow> Grid option" where
  "fill_visible_blank g =
     (let g = (push_fresh_blank (cols g) ^^ rows g) g
      in check_invariants (g\<lparr>in_alt_domain := True, pending_wrap := None, sequential_edge := None\<rparr>))"

definition leave_alt_domain :: "Grid \<Rightarrow> Grid" where
  "leave_alt_domain g = g\<lparr>in_alt_domain := False\<rparr>"

text \<open>
  The two \<open>while\<close> loops of \<open>adjust_visible_to_fit\<close> change the visible row count by one per
  iteration towards \<open>rows\<close>; their iteration counts are the two differences (one of them zero).
\<close>

definition adjust_visible_to_fit :: "Grid \<Rightarrow> Grid option" where
  "adjust_visible_to_fit g =
     (let g = (sever_pop_back ^^ (visible_row_count g - rows g)) g;
          g = (push_fresh_blank (cols g) ^^ (rows g - visible_row_count g)) g
      in check_invariants (validate_all_edges g))"

subsection \<open>Moving rows across the scrollback boundary\<close>

definition restore_scrollback :: "nat \<Rightarrow> Grid \<Rightarrow> Grid option" where
  "restore_scrollback count g =
     (if count \<le> scrollback_len g
      then (let n = scrollback_len g - count
            in Some (g\<lparr>scrollback_len := n, pending_start := min (pending_start g) n\<rparr>))
      else None)"

definition chop_blank :: "Grid \<Rightarrow> Row \<Rightarrow> bool" where
  "chop_blank g r \<longleftrightarrow>
     list_all (\<lambda>(i, c). (ch c = SP \<or> ch c = NUL) \<and> (\<not> logical_shadow g \<or> row_combining r (as_u16 i) = []))
       (enumerate 0 (row_cells r))"

fun chop_blank_bottom_rows :: "nat \<Rightarrow> Grid \<Rightarrow> (nat \<times> Grid) option" where
  "chop_blank_bottom_rows 0 g = Some (0, g)"
| "chop_blank_bottom_rows (Suc n) g = do {
     visible_len \<leftarrow> usub (length (cells g)) (scrollback_len g);
     if visible_len = 0 \<or> as_u16 (visible_len - 1) \<le> cursor_y g then Some (0, g)
     else if \<not> chop_blank g (last (cells g)) then Some (0, g)
     else do { (k, g) \<leftarrow> chop_blank_bottom_rows n (sever_pop_back g); Some (Suc k, g) } }"

fun push_top_rows_to_scrollback :: "nat \<Rightarrow> Grid \<Rightarrow> Grid option" where
  "push_top_rows_to_scrollback 0 g = Some g"
| "push_top_rows_to_scrollback (Suc n) g = do {
     visible_len \<leftarrow> usub (length (cells g)) (scrollback_len g);
     if visible_len = 0 then Some g
     else (let g = g\<lparr>scrollback_len := scrollback_len g + 1\<rparr>;
               g = (if scrollback_limit g < scrollback_len g
                    then let g = sever_opt (cells_front (cells g)) g;
                             g = g\<lparr>cells := tl (cells g), scrollback_len := scrollback_len g - 1\<rparr>
                         in if 0 < pending_start g then g\<lparr>pending_start := pending_start g - 1\<rparr> else g
                    else g)
           in push_top_rows_to_scrollback n g) }"

subsection \<open>Resizing\<close>

definition resize_row :: "nat \<Rightarrow> Row \<Rightarrow> Row option" where
  "resize_row n r = do {
     let r = (if row_len r \<noteq> n then advance_revision (r\<lparr>outgoing := None\<rparr>) else r);
     r \<leftarrow> fix_wide_char_orphan_at_boundary n r;
     Some (row_resize n cell_default r) }"

fun mapM :: "('a \<Rightarrow> 'b option) \<Rightarrow> 'a list \<Rightarrow> 'b list option" where
  "mapM f [] = Some []"
| "mapM f (x # xs) = do { y \<leftarrow> f x; ys \<leftarrow> mapM f xs; Some (y # ys) }"

text \<open>The parts of \<open>grid_resize\<close>: fitting the number of visible rows, and provenance.\<close>

definition fit_row_count :: "nat \<Rightarrow> nat \<Rightarrow> Grid \<Rightarrow> Grid option" where
  "fit_row_count c r g = do {
     visible_len \<leftarrow> usub (length (cells g)) (scrollback_len g);
     Some (if r < visible_len then (sever_pop_back ^^ (visible_len - r)) g
           else if visible_len < r then (push_fresh_blank c ^^ (r - visible_len)) g
           else g) }"

definition settle_resize :: "bool \<Rightarrow> Grid \<Rightarrow> Grid" where
  "settle_resize width_changed g =
     (let g = invalidate_pending_for_geometry (LiveResize width_changed) g
      in if \<not> logical_shadow g \<or> width_changed
         then g\<lparr>wrap_pending := False, pending_wrap := None, sequential_edge := None\<rparr>
         else let g = validate_all_edges g
              in if pending_wrap g = None then g\<lparr>wrap_pending := False\<rparr> else g)"

definition grid_resize :: "nat \<Rightarrow> nat \<Rightarrow> Grid \<Rightarrow> Grid option" where
  "grid_resize c r g = do {
     let old_cols = cols g;
     let (c, r) = sanitize_dimensions c r;
     g \<leftarrow> fit_row_count c r (g\<lparr>cols := c, rows := r\<rparr>);
     vis \<leftarrow> mapM (resize_row c) (drop (scrollback_len g) (cells g));
     let g = validate_all_edges (g\<lparr>cells := take (scrollback_len g) (cells g) @ vis\<rparr>);
     cx \<leftarrow> (if c \<le> cursor_x g then sub16 c 1 else Some (cursor_x g));
     cy \<leftarrow> (if r \<le> cursor_y g then sub16 r 1 else Some (cursor_y g));
     let g = settle_resize (old_cols \<noteq> c) (g\<lparr>cursor_x := cx, cursor_y := cy\<rparr>);
     b \<leftarrow> sub16 r 1;
     check_invariants (g\<lparr>scroll_top := 0, scroll_bottom := b, tab_stops := default_tab_stops c\<rparr>) }"

text \<open>The two halves of \<open>Screen::resize_grid\<close> before the inner resize.\<close>

definition grow_phase :: "bool \<Rightarrow> nat \<Rightarrow> Grid \<Rightarrow> Grid option" where
  "grow_phase in_alt r g =
     (if \<not> in_alt \<and> rows g < r then do {
        let grow = r - rows g;
        let restore_count = min grow (scrollback_len g);
        g \<leftarrow> restore_scrollback restore_count g;
        let n = (if restore_count \<le> U16_MAX then restore_count else U16_MAX);
        Some (g\<lparr>cursor_y := sat_add16 (cursor_y g) n\<rparr>) }
      else Some g)"

definition push_phase :: "nat \<Rightarrow> Grid \<Rightarrow> Grid option" where
  "push_phase needed g =
     (let push = min needed (cursor_y g)
      in if 0 < push then do {
           g \<leftarrow> push_top_rows_to_scrollback push g;
           cy \<leftarrow> sub16 (cursor_y g) (as_u16 push);
           Some (g\<lparr>cursor_y := cy\<rparr>) }
         else Some g)"

definition shrink_phase :: "bool \<Rightarrow> nat \<Rightarrow> nat \<Rightarrow> Grid \<Rightarrow> Grid option" where
  "shrink_phase in_alt old_rows r g =
     (if \<not> in_alt \<and> 0 < r \<and> r < old_rows then do {
        (k, g) \<leftarrow> chop_blank_bottom_rows (old_rows - r) g;
        needed \<leftarrow> usub (old_rows - r) k;
        push_phase needed g }
      else Some g)"

definition resize_grid :: "bool \<Rightarrow> nat \<Rightarrow> nat \<Rightarrow> Grid \<Rightarrow> Grid option" where
  "resize_grid in_alt c r g = do {
     let old_rows = rows g;
     g \<leftarrow> grow_phase in_alt r g;
     g \<leftarrow> shrink_phase in_alt old_rows r g;
     grid_resize c r g }"

subsection \<open>Style garbage collection over the grid\<close>

definition mark_live :: "nat \<Rightarrow> Cell \<Rightarrow> bool list \<Rightarrow> bool list" where
  "mark_live cap c live = (if style_id c < cap then live[style_id c := True] else live)"

definition mark_rows :: "nat \<Rightarrow> Row list \<Rightarrow> bool list \<Rightarrow> bool list" where
  "mark_rows cap rs live = fold (mark_live cap) (concat (map row_cells rs)) live"

definition compact_styles :: "Row list option \<Rightarrow> Grid \<Rightarrow> Grid" where
  "compact_styles saved g =
     (let cap = capacity (style_table g)
      in if cap \<le> 1 then g
         else let live = (replicate cap False)[0 := True];
                  live = mark_rows cap (scrollback_rows g @ visible_rows g) live;
                  live = (case saved of None \<Rightarrow> live | Some rs \<Rightarrow> mark_rows cap rs live)
              in g\<lparr>style_table := reclaim live (style_table g)\<rparr>)"

end
