(* ===== verification/Performer.thy ===== *)
theory Performer
  imports Grid_Geometry
begin

text \<open>
  The VTE performer (\<open>crates/qrmux/src/screen/performer.rs\<close>) and the non-grid screen state it
  mutates (\<open>ScreenState\<close> of \<open>screen/mod.rs\<close>). A performer call takes the pair of grid and state and
  returns it updated, or panics. One definition per method; \<open>perform\<close> dispatches the callbacks of
  the \<open>vte\<close> crate's \<open>Perform\<close> trait. The display width of a character comes from the \<open>unicode_width\<close>
  crate and is the parameter \<open>uw\<close>. Text received from the application is a list of bytes.
\<close>

definition MAX_COMBINING :: nat where "MAX_COMBINING = 16"
definition MAX_PENDING :: nat where "MAX_PENDING = 1024"
definition MAX_QUEUED_NOTIFICATIONS :: nat where "MAX_QUEUED_NOTIFICATIONS = 50"

type_synonym bytes = "nat list"

record SavedCursor =
  sc_x :: nat
  sc_y :: nat
  sc_style :: Style
  sc_g0_charset :: Charset
  sc_g1_charset :: Charset
  sc_active_charset :: ActiveCharset
  sc_autowrap_mode :: bool
  sc_origin_mode :: bool
  sc_wrap_pending :: bool
  sc_alt_epoch :: "nat option"
  sc_saved_by_alt_1049 :: bool

record ScreenState =
  current_style :: Style
  in_alt_screen :: bool
  saved_grid :: "SavedGrid option"
  saved_cursor_state :: "SavedCursor option"
  saved_modes :: "TerminalModes option"
  saved_scroll_region :: "(nat \<times> nat) option"
  pending_responses :: "bytes list"
  pending_passthrough :: "bytes list"
  queued_notifications :: "bytes list"
  title :: bytes
  title_stack :: "bytes list"
  last_printed_char :: rchar
  next_alt_epoch :: "nat option"

definition screen_state_default :: ScreenState where
  "screen_state_default = \<lparr>current_style = style_default, in_alt_screen = False, saved_grid = None,
     saved_cursor_state = None, saved_modes = None, saved_scroll_region = None,
     pending_responses = [], pending_passthrough = [], queued_notifications = [], title = [],
     title_stack = [], last_printed_char = SP, next_alt_epoch = Some 0\<rparr>"

definition push_response :: "bytes \<Rightarrow> ScreenState \<Rightarrow> ScreenState" where
  "push_response d s =
     (if length (pending_responses s) < MAX_PENDING
      then s\<lparr>pending_responses := pending_responses s @ [d]\<rparr> else s)"

definition push_passthrough :: "bytes \<Rightarrow> ScreenState \<Rightarrow> ScreenState" where
  "push_passthrough d s =
     (if length (pending_passthrough s) < MAX_PENDING
      then s\<lparr>pending_passthrough := pending_passthrough s @ [d]\<rparr> else s)"

definition push_notification :: "bytes \<Rightarrow> ScreenState \<Rightarrow> ScreenState" where
  "push_notification d s =
     (let q = (if MAX_QUEUED_NOTIFICATIONS \<le> length (queued_notifications s)
               then tl (queued_notifications s) else queued_notifications s)
      in s\<lparr>queued_notifications := q @ [d]\<rparr>)"

record ScreenPerformer =
  grid :: Grid
  state :: ScreenState

definition on_grid :: "(Grid \<Rightarrow> Grid option) \<Rightarrow> ScreenPerformer \<Rightarrow> ScreenPerformer option" where
  "on_grid f p = do { g \<leftarrow> f (grid p); Some (p\<lparr>grid := g\<rparr>) }"

definition with_grid :: "(Grid \<Rightarrow> Grid) \<Rightarrow> ScreenPerformer \<Rightarrow> ScreenPerformer" where
  "with_grid f p = p\<lparr>grid := f (grid p)\<rparr>"

definition with_state :: "(ScreenState \<Rightarrow> ScreenState) \<Rightarrow> ScreenPerformer \<Rightarrow> ScreenPerformer" where
  "with_state f p = p\<lparr>state := f (state p)\<rparr>"

subsection \<open>Styles, blanks and scrolling\<close>

definition intern_style :: "Style \<Rightarrow> ScreenPerformer \<Rightarrow> (nat \<times> ScreenPerformer) option" where
  "intern_style s p = do {
     (i, t) \<leftarrow> intern s (style_table (grid p));
     Some (i, with_grid (\<lambda>g. g\<lparr>style_table := t\<rparr>) p) }"

definition intern_with_gc :: "Style \<Rightarrow> ScreenPerformer \<Rightarrow> (nat \<times> ScreenPerformer) option" where
  "intern_with_gc s p = do {
     (i, p) \<leftarrow> intern_style s p;
     if i = 0 \<and> \<not> style_is_default s \<and> is_full (style_table (grid p))
     then intern_style s (with_grid (compact_styles (map_option sg_visible_cells (saved_grid (state p)))) p)
     else Some (i, p) }"

definition blank_cell :: "ScreenPerformer \<Rightarrow> (Cell \<times> ScreenPerformer) option" where
  "blank_cell p = do {
     (i, p) \<leftarrow> intern_with_gc (style_default\<lparr>bg := bg (current_style (state p))\<rparr>) p;
     Some (cell_new SP i 1, p) }"

definition perf_scroll_up :: "ScreenPerformer \<Rightarrow> ScreenPerformer option" where
  "perf_scroll_up p = do {
     (fill, p) \<leftarrow> blank_cell p;
     on_grid (scroll_up (in_alt_screen (state p)) fill) p }"

definition perf_scroll_down :: "ScreenPerformer \<Rightarrow> ScreenPerformer option" where
  "perf_scroll_down p = do {
     (fill, p) \<leftarrow> blank_cell p;
     on_grid (scroll_down fill) p }"

definition line_drawing :: "rchar \<Rightarrow> rchar" where
  "line_drawing c =
     (if c = 106 then 9496 else if c = 107 then 9488 else if c = 108 then 9484
      else if c = 109 then 9492 else if c = 110 then 9532 else if c = 113 then 9472
      else if c = 116 then 9500 else if c = 117 then 9508 else if c = 118 then 9524
      else if c = 119 then 9516 else if c = 120 then 9474 else if c = 97 then 9618
      else if c = 96 then 9670 else c)"

definition map_charset :: "ScreenPerformer \<Rightarrow> rchar \<Rightarrow> rchar" where
  "map_charset p c =
     (let m = modes (grid p);
          charset = (case active_charset m of G0 \<Rightarrow> g0_charset m | G1 \<Rightarrow> g1_charset m)
      in case charset of LineDrawing \<Rightarrow> line_drawing c | Ascii \<Rightarrow> c)"

subsection \<open>Cursor save and restore\<close>

definition save_cursor_with_alt :: "nat option \<Rightarrow> bool \<Rightarrow> ScreenPerformer \<Rightarrow> ScreenPerformer" where
  "save_cursor_with_alt alt_epoch by_1049 p =
     (let g = grid p; m = modes g
      in with_state (\<lambda>s. s\<lparr>saved_cursor_state := Some \<lparr>sc_x = cursor_x g, sc_y = cursor_y g,
           sc_style = current_style s, sc_g0_charset = g0_charset m, sc_g1_charset = g1_charset m,
           sc_active_charset = active_charset m, sc_autowrap_mode = autowrap_mode m,
           sc_origin_mode = origin_mode m, sc_wrap_pending = wrap_pending g,
           sc_alt_epoch = alt_epoch, sc_saved_by_alt_1049 = by_1049\<rparr>\<rparr>) p)"

definition save_cursor :: "ScreenPerformer \<Rightarrow> ScreenPerformer" where
  "save_cursor p = save_cursor_with_alt None False p"

definition restore_cursor_after_geometry :: "bool \<Rightarrow> ScreenPerformer \<Rightarrow> ScreenPerformer option" where
  "restore_cursor_after_geometry geometry_invalid p = do {
     let p = with_grid (invalidate_pending_for_geometry (AltRestore geometry_invalid)) p;
     case saved_cursor_state (state p) of None \<Rightarrow> Some p
     | Some sc \<Rightarrow> do {
         max_x \<leftarrow> sub16 (cols (grid p)) 1;
         max_y \<leftarrow> sub16 (rows (grid p)) 1;
         let wp = (sc_wrap_pending sc \<and> \<not> (geometry_invalid \<and> logical_shadow (grid p)));
         let p = with_grid (\<lambda>g. set_wrap_pending wp (invalidate_provenance_keep_raw g)) p;
         let p = with_grid (\<lambda>g. g\<lparr>cursor_x := min (sc_x sc) max_x, cursor_y := min (sc_y sc) max_y\<rparr>) p;
         let p = with_state (\<lambda>s. s\<lparr>current_style := sc_style sc\<rparr>) p;
         Some (with_grid (\<lambda>g. g\<lparr>modes := (modes g)\<lparr>g0_charset := sc_g0_charset sc,
                 g1_charset := sc_g1_charset sc, active_charset := sc_active_charset sc,
                 autowrap_mode := sc_autowrap_mode sc, origin_mode := sc_origin_mode sc\<rparr>\<rparr>) p) } }"

definition restore_cursor :: "ScreenPerformer \<Rightarrow> ScreenPerformer option" where
  "restore_cursor p = restore_cursor_after_geometry False p"

subsection \<open>Alternate screen\<close>

text \<open>The bookkeeping of \<open>enter_alt_screen\<close> before the rows are moved.\<close>

definition enter_alt_state :: "bool \<Rightarrow> ScreenPerformer \<Rightarrow> ScreenPerformer" where
  "enter_alt_state save p =
     (let alt_epoch = next_alt_epoch (state p);
          p = with_state (\<lambda>s. s\<lparr>next_alt_epoch := alt_epoch \<bind> (\<lambda>v. checked_add64 v 1)\<rparr>) p;
          p = (if save then save_cursor_with_alt alt_epoch True p else p)
      in with_state (\<lambda>s. s\<lparr>saved_scroll_region := Some (scroll_top (grid p), scroll_bottom (grid p))\<rparr>) p)"

definition enter_alt_screen :: "bool \<Rightarrow> ScreenPerformer \<Rightarrow> ScreenPerformer option" where
  "enter_alt_screen save p =
     (if in_alt_screen (state p) then Some p else do {
        let alt_epoch = next_alt_epoch (state p);
        let p = enter_alt_state save p;
        (saved_visible, g) \<leftarrow> drain_visible (grid p);
        let p = with_state (\<lambda>s. s\<lparr>saved_grid := Some \<lparr>sg_visible_cells = saved_visible,
                    sg_scrollback_limit = scrollback_limit g, sg_save_cols = cols g,
                    sg_alt_epoch = alt_epoch, sg_entered_with_1049 = save,
                    sg_pending_wrap = pending_wrap g, sg_sequential_edge = sequential_edge g\<rparr>\<rparr>) (p\<lparr>grid := g\<rparr>);
        p \<leftarrow> on_grid fill_visible_blank p;
        let p = with_grid (\<lambda>g. g\<lparr>scrollback_limit := 0\<rparr>) p;
        let p = with_state (\<lambda>s. s\<lparr>saved_modes := Some (modes (grid p)), in_alt_screen := True\<rparr>) p;
        let p = with_grid (\<lambda>g. g\<lparr>cursor_x := 0, cursor_y := 0\<rparr>) p;
        p \<leftarrow> on_grid reset_scroll_region p;
        Some (with_grid (set_wrap_pending False) p) })"

definition fit_row :: "nat \<Rightarrow> Row \<Rightarrow> Row option" where
  "fit_row n r = do { r \<leftarrow> fix_wide_char_orphan_at_boundary n r; Some (row_resize n cell_default r) }"

definition fit_visible_rows :: "Grid \<Rightarrow> Grid option" where
  "fit_visible_rows g =
     foldM (\<lambda>y. visible_row_mut y (fit_row (cols g))) [0..<visible_row_count g] g"

definition restore_saved_grid ::
  "SavedGrid \<Rightarrow> ScreenPerformer \<Rightarrow>
     (bool \<times> (nat option \<times> bool \<times> PendingWrap option \<times> SequentialEdge option) \<times> ScreenPerformer) option" where
  "restore_saved_grid saved p = do {
     let ((width_changed, keep_count), saved, g) = prepare_alt_restore saved (grid p);
     let geometry_invalid = (width_changed
           \<or> is_some_and (saved_cursor_state (state p)) (\<lambda>c. keep_count \<le> sc_y c));
     let g = replace_visible (sg_visible_cells saved) g;
     let g = g\<lparr>scrollback_limit := sg_scrollback_limit saved\<rparr>;
     g \<leftarrow> adjust_visible_to_fit g;
     g \<leftarrow> fit_visible_rows g;
     Some (geometry_invalid,
           (sg_alt_epoch saved, sg_entered_with_1049 saved, sg_pending_wrap saved, sg_sequential_edge saved),
           p\<lparr>grid := g\<rparr>) }"

definition restore_scroll_region :: "(nat \<times> nat) option \<Rightarrow> Grid \<Rightarrow> Grid option" where
  "restore_scroll_region sr g =
     (case sr of
        Some (t, b) \<Rightarrow>
          (let bottom_max = rows g - 1; top' = min t bottom_max; bottom' = max (min b bottom_max) top'
           in Some (set_scroll_region top' bottom' g))
      | None \<Rightarrow> reset_scroll_region g)"

text \<open>The parts of \<open>exit_alt_screen\<close> after the rows are back: modes, and provenance.\<close>

type_synonym alt_provenance = "nat option \<times> bool \<times> PendingWrap option \<times> SequentialEdge option"

definition restore_saved_modes :: "ScreenPerformer \<Rightarrow> ScreenPerformer" where
  "restore_saved_modes p =
     (case saved_modes (state p) of None \<Rightarrow> p
      | Some m \<Rightarrow> with_grid (\<lambda>g. g\<lparr>modes := m\<rparr>) (with_state (\<lambda>s. s\<lparr>saved_modes := None\<rparr>) p))"

definition finish_provenance :: "bool \<Rightarrow> alt_provenance option \<Rightarrow> ScreenPerformer \<Rightarrow> ScreenPerformer" where
  "finish_provenance do_restore prov p =
     (case prov of None \<Rightarrow> p
      | Some (alt_epoch, entered, pending, sequential) \<Rightarrow>
        let cursor_matches = is_some_and (saved_cursor_state (state p)) (\<lambda>c.
              sc_saved_by_alt_1049 c \<and> sc_alt_epoch c \<noteq> None
              \<and> sc_alt_epoch c = alt_epoch \<and> entered)
        in with_grid (finish_alt_restore pending sequential (do_restore \<and> cursor_matches)) p)"

definition exit_restore_grid :: "ScreenPerformer \<Rightarrow> (bool \<times> alt_provenance option \<times> ScreenPerformer) option" where
  "exit_restore_grid p =
     (case saved_grid (state p) of
        None \<Rightarrow> Some (False, None, p)
      | Some saved \<Rightarrow> do {
          (gi, pr, p) \<leftarrow> restore_saved_grid saved (with_state (\<lambda>s. s\<lparr>saved_grid := None\<rparr>) p);
          Some (gi, Some pr, p) })"

definition exit_alt_screen :: "bool \<Rightarrow> ScreenPerformer \<Rightarrow> ScreenPerformer option" where
  "exit_alt_screen do_restore p =
     (if \<not> in_alt_screen (state p) then Some p else do {
        let p = with_state (\<lambda>s. s\<lparr>in_alt_screen := False\<rparr>) p;
        let p = with_grid leave_alt_domain p;
        (geometry_invalid, prov, p) \<leftarrow> exit_restore_grid p;
        let p = restore_saved_modes p;
        p \<leftarrow> (if do_restore then restore_cursor_after_geometry geometry_invalid p else Some p);
        let p = finish_provenance do_restore prov p;
        let sr = saved_scroll_region (state p);
        p \<leftarrow> on_grid (restore_scroll_region sr) (with_state (\<lambda>s. s\<lparr>saved_scroll_region := None\<rparr>) p);
        Some (with_grid (compact_styles None) p) })"

subsection \<open>Cursor motion\<close>

definition set_cursor_x :: "nat \<Rightarrow> ScreenPerformer \<Rightarrow> ScreenPerformer" where
  "set_cursor_x x p = with_grid (\<lambda>g. g\<lparr>cursor_x := x\<rparr>) p"

definition set_cursor_y :: "nat \<Rightarrow> ScreenPerformer \<Rightarrow> ScreenPerformer" where
  "set_cursor_y y p = with_grid (\<lambda>g. g\<lparr>cursor_y := y\<rparr>) p"

definition clear_wrap :: "ScreenPerformer \<Rightarrow> ScreenPerformer" where
  "clear_wrap p = with_grid (set_wrap_pending False) p"

definition csi_cursor_up :: "nat \<Rightarrow> ScreenPerformer \<Rightarrow> ScreenPerformer" where
  "csi_cursor_up n p =
     (let p = clear_wrap p; g = grid p;
          t = (if scroll_top g \<le> cursor_y g then scroll_top g else 0)
      in set_cursor_y (max (cursor_y g - n) t) p)"

definition csi_cursor_down :: "nat \<Rightarrow> ScreenPerformer \<Rightarrow> ScreenPerformer option" where
  "csi_cursor_down n p = do {
     let p = clear_wrap p;
     let g = grid p;
     b \<leftarrow> (if cursor_y g \<le> scroll_bottom g then Some (scroll_bottom g) else sub16 (rows g) 1);
     Some (set_cursor_y (min (sat_add16 (cursor_y g) n) b) p) }"

definition csi_cursor_forward :: "nat \<Rightarrow> ScreenPerformer \<Rightarrow> ScreenPerformer option" where
  "csi_cursor_forward n p = do {
     let p = clear_wrap p;
     m \<leftarrow> sub16 (cols (grid p)) 1;
     Some (set_cursor_x (min (sat_add16 (cursor_x (grid p)) n) m) p) }"

definition csi_cursor_back :: "nat \<Rightarrow> ScreenPerformer \<Rightarrow> ScreenPerformer" where
  "csi_cursor_back n p =
     (let p = clear_wrap p in set_cursor_x (cursor_x (grid p) - n) p)"

definition csi_cursor_next_line :: "nat \<Rightarrow> ScreenPerformer \<Rightarrow> ScreenPerformer option" where
  "csi_cursor_next_line n p = do {
     let p = set_cursor_x 0 (clear_wrap p);
     let g = grid p;
     b \<leftarrow> (if cursor_y g \<le> scroll_bottom g then Some (scroll_bottom g) else sub16 (rows g) 1);
     Some (set_cursor_y (min (sat_add16 (cursor_y g) n) b) p) }"

definition csi_cursor_prev_line :: "nat \<Rightarrow> ScreenPerformer \<Rightarrow> ScreenPerformer" where
  "csi_cursor_prev_line n p =
     (let p = set_cursor_x 0 (clear_wrap p); g = grid p;
          t = (if scroll_top g \<le> cursor_y g then scroll_top g else 0)
      in set_cursor_y (max (cursor_y g - n) t) p)"

definition csi_cursor_horizontal_absolute :: "nat \<Rightarrow> ScreenPerformer \<Rightarrow> ScreenPerformer option" where
  "csi_cursor_horizontal_absolute col p = do {
     let p = clear_wrap p;
     m \<leftarrow> sub16 (cols (grid p)) 1;
     Some (set_cursor_x (min (col - 1) m) p) }"

definition csi_line_position_absolute :: "nat \<Rightarrow> ScreenPerformer \<Rightarrow> ScreenPerformer option" where
  "csi_line_position_absolute row p = do {
     let p = clear_wrap p;
     let g = grid p;
     if origin_mode (modes g)
     then Some (set_cursor_y (min (sat_add16 (scroll_top g) (row - 1)) (scroll_bottom g)) p)
     else do { m \<leftarrow> sub16 (rows g) 1; Some (set_cursor_y (min (row - 1) m) p) } }"

definition csi_cursor_position :: "nat \<Rightarrow> nat \<Rightarrow> ScreenPerformer \<Rightarrow> ScreenPerformer option" where
  "csi_cursor_position row col p = do {
     let p = clear_wrap p;
     let g = grid p;
     p \<leftarrow> (if origin_mode (modes g)
           then Some (set_cursor_y (min (sat_add16 (scroll_top g) (row - 1)) (scroll_bottom g)) p)
           else do { m \<leftarrow> sub16 (rows g) 1; Some (set_cursor_y (min (row - 1) m) p) });
     m \<leftarrow> sub16 (cols (grid p)) 1;
     Some (set_cursor_x (min (col - 1) m) p) }"

subsection \<open>Erasing, inserting and deleting\<close>

definition csi_erase_display :: "nat \<Rightarrow> ScreenPerformer \<Rightarrow> ScreenPerformer option" where
  "csi_erase_display mode p = do {
     (blank, p) \<leftarrow> blank_cell p;
     let g = grid p;
     if mode = 0 then do {
       p \<leftarrow> on_grid (erase_cells (cursor_y g) (cursor_x g) (cols g) blank) p;
       on_grid (erase_rows (cursor_y g + 1) (rows (grid p)) blank) p }
     else if mode = 1 then do {
       p \<leftarrow> on_grid (erase_rows 0 (cursor_y g) blank) p;
       on_grid (erase_cells (cursor_y g) 0 (min (cursor_x g + 1) (cols (grid p))) blank) p }
     else if mode = 2 then on_grid (erase_rows 0 (rows g) blank) p
     else if mode = 3 then do {
       p \<leftarrow> on_grid clear_scrollback p;
       Some (with_state (push_passthrough [27, 91, 51, 74]) p) }
     else Some p }"

definition csi_erase_line :: "nat \<Rightarrow> ScreenPerformer \<Rightarrow> ScreenPerformer option" where
  "csi_erase_line mode p = do {
     (blank, p) \<leftarrow> blank_cell p;
     let g = grid p;
     if mode = 0 then on_grid (erase_cells (cursor_y g) (cursor_x g) (cols g) blank) p
     else if mode = 1 then on_grid (erase_cells (cursor_y g) 0 (min (cursor_x g + 1) (cols g)) blank) p
     else if mode = 2 then on_grid (erase_cells (cursor_y g) 0 (cols g) blank) p
     else Some p }"

definition csi_erase_character :: "nat \<Rightarrow> ScreenPerformer \<Rightarrow> ScreenPerformer option" where
  "csi_erase_character n p = do {
     (blank, p) \<leftarrow> blank_cell p;
     let g = grid p;
     if cursor_y g < rows g
     then on_grid (erase_cells (cursor_y g) (cursor_x g) (min (cursor_x g + n) (cols g)) blank) p
     else Some p }"

text \<open>The row edits of DCH and ICH after \<open>prepare_addressed_write\<close> and \<open>fixup_wide_char_at\<close>.\<close>

definition delete_shift :: "nat \<Rightarrow> nat \<Rightarrow> Cell \<Rightarrow> Row \<Rightarrow> Row option" where
  "delete_shift count x blank r =
     repeatM count (\<lambda>r. do { r \<leftarrow> row_remove x r; Some (row_push blank r) }) r"

definition delete_fixup :: "nat \<Rightarrow> Cell \<Rightarrow> Row \<Rightarrow> Row option" where
  "delete_fixup x blank r = do {
     c \<leftarrow> row_get x r;
     if width c = 0 then do {
       r \<leftarrow> row_set x blank r;
       if 0 < x then do {
         b \<leftarrow> row_get (x - 1) r;
         if width b = 2 then row_set (x - 1) blank r else Some r }
       else Some r }
     else Some r }"

definition csi_delete_character :: "nat \<Rightarrow> ScreenPerformer \<Rightarrow> ScreenPerformer option" where
  "csi_delete_character n p = do {
     (blank, p) \<leftarrow> blank_cell p;
     let y = cursor_y (grid p);
     let x = cursor_x (grid p);
     let c = cols (grid p);
     if y < rows (grid p) then do {
       p \<leftarrow> on_grid (prepare_addressed_write y) p;
       p \<leftarrow> on_grid (fixup_wide_char_at x y) p;
       p \<leftarrow> on_grid (visible_row_mut y (delete_shift (min n (c - x)) x blank)) p;
       if x < c then on_grid (visible_row_mut y (delete_fixup x blank)) p else Some p }
     else Some p }"

definition insert_shift :: "nat \<Rightarrow> nat \<Rightarrow> Cell \<Rightarrow> Row \<Rightarrow> Row option" where
  "insert_shift count x blank r =
     repeatM count (\<lambda>r. row_insert x blank (row_pop r)) r"

definition insert_fixup :: "nat \<Rightarrow> Cell \<Rightarrow> Row \<Rightarrow> Row option" where
  "insert_fixup last_col blank r = do {
     c \<leftarrow> row_get last_col r;
     if width c = 2 then row_set last_col blank r
     else if width c = 0 then do {
       r \<leftarrow> row_set last_col blank r;
       if 0 < last_col then do {
         b \<leftarrow> row_get (last_col - 1) r;
         if width b = 2 then row_set (last_col - 1) blank r else Some r }
       else Some r }
     else Some r }"

definition csi_insert_character :: "nat \<Rightarrow> ScreenPerformer \<Rightarrow> ScreenPerformer option" where
  "csi_insert_character n p = do {
     (blank, p) \<leftarrow> blank_cell p;
     let y = cursor_y (grid p);
     let x = cursor_x (grid p);
     let c = cols (grid p);
     if y < rows (grid p) then do {
       p \<leftarrow> on_grid (prepare_addressed_write y) p;
       p \<leftarrow> on_grid (fixup_wide_char_at x y) p;
       p \<leftarrow> on_grid (visible_row_mut y (insert_shift (min n (c - x)) x blank)) p;
       last_col \<leftarrow> usub c 1;
       on_grid (visible_row_mut y (insert_fixup last_col blank)) p }
     else Some p }"

definition csi_scroll_up_n :: "nat \<Rightarrow> ScreenPerformer \<Rightarrow> ScreenPerformer option" where
  "csi_scroll_up_n n p = repeatM (min n (rows (grid p))) perf_scroll_up p"

definition csi_scroll_down_n :: "nat \<Rightarrow> ScreenPerformer \<Rightarrow> ScreenPerformer option" where
  "csi_scroll_down_n n p = repeatM (min n (rows (grid p))) perf_scroll_down p"

definition delete_line_step :: "nat \<Rightarrow> nat \<Rightarrow> Cell \<Rightarrow> Grid \<Rightarrow> Grid option" where
  "delete_line_step y b blank g =
     (if y \<le> b \<and> b < visible_row_count g then do {
        (_, g) \<leftarrow> remove_visible_row y g;
        let (r, g) = fresh_row_with_cells (replicate (cols g) blank) g;
        insert_visible_row b r g }
      else Some g)"

definition csi_delete_lines :: "nat \<Rightarrow> ScreenPerformer \<Rightarrow> ScreenPerformer option" where
  "csi_delete_lines n p = do {
     (blank, p) \<leftarrow> blank_cell p;
     let y = cursor_y (grid p);
     let t = scroll_top (grid p);
     let b = scroll_bottom (grid p);
     if t \<le> y \<and> y \<le> b
     then on_grid (repeatM (min n (b - y + 1)) (delete_line_step y b blank)) (clear_wrap p)
     else Some p }"

definition insert_line_step :: "nat \<Rightarrow> nat \<Rightarrow> Cell \<Rightarrow> Grid \<Rightarrow> Grid option" where
  "insert_line_step y b blank g =
     (if y \<le> b \<and> b < visible_row_count g then do {
        (_, g) \<leftarrow> remove_visible_row b g;
        let (r, g) = fresh_row_with_cells (replicate (cols g) blank) g;
        insert_visible_row y r g }
      else Some g)"

definition csi_insert_lines :: "nat \<Rightarrow> ScreenPerformer \<Rightarrow> ScreenPerformer option" where
  "csi_insert_lines n p = do {
     (blank, p) \<leftarrow> blank_cell p;
     let y = cursor_y (grid p);
     let t = scroll_top (grid p);
     let b = scroll_bottom (grid p);
     if t \<le> y \<and> y \<le> b
     then on_grid (repeatM (min n (b - y + 1)) (insert_line_step y b blank)) (clear_wrap p)
     else Some p }"

definition csi_set_scrolling_region :: "nat \<Rightarrow> nat \<Rightarrow> ScreenPerformer \<Rightarrow> ScreenPerformer option" where
  "csi_set_scrolling_region t b p = do {
     m \<leftarrow> sub16 (rows (grid p)) 1;
     let t = t - 1;
     let b = min (b - 1) m;
     if t \<le> b then do {
       let p = with_grid (set_scroll_region t b) p;
       let p = set_cursor_x 0 p;
       let p = (if origin_mode (modes (grid p)) then set_cursor_y t p else set_cursor_y 0 p);
       Some (clear_wrap p) }
     else Some p }"

subsection \<open>Printing\<close>

definition handle_combining_mark :: "rchar \<Rightarrow> ScreenPerformer \<Rightarrow> ScreenPerformer option" where
  "handle_combining_mark c p =
     (let g = grid p; cx = cursor_x g; cy = cursor_y g
      in if rows g \<le> cy then Some p
         else if \<not> wrap_pending g \<and> cx = 0 then Some p
         else let tx = (if wrap_pending g then cx else cx - 1)
              in if cols g \<le> tx then Some p
                 else do {
                   r \<leftarrow> visible_row cy g;
                   cell \<leftarrow> row_get tx r;
                   let tx = (if width cell = 0 \<and> 0 < tx then tx - 1 else tx);
                   if combining_len r (as_u16 tx) < MAX_COMBINING
                   then on_grid (push_print_combining cy tx c) p else Some p })"

definition line_feed_motion :: "ScreenPerformer \<Rightarrow> ScreenPerformer option" where
  "line_feed_motion p =
     (if cursor_y (grid p) = scroll_bottom (grid p) then perf_scroll_up p
      else do {
        m \<leftarrow> sub16 (rows (grid p)) 1;
        if cursor_y (grid p) < m
        then do { y \<leftarrow> add16 (cursor_y (grid p)) 1; Some (set_cursor_y y p) }
        else Some p })"

definition perform_deferred_wrap :: "ScreenPerformer \<Rightarrow> ScreenPerformer option" where
  "perform_deferred_wrap p = do {
     (pending, g) \<leftarrow> take_qualified_wrap (grid p);
     let p = set_cursor_x 0 (clear_wrap (p\<lparr>grid := g\<rparr>));
     p \<leftarrow> line_feed_motion p;
     on_grid (publish_deferred_wrap pending) p }"

definition wide_early_wrap :: "ScreenPerformer \<Rightarrow> ScreenPerformer option" where
  "wide_early_wrap p = do {
     let x = cursor_x (grid p);
     let y = cursor_y (grid p);
     p \<leftarrow> (if x < cols (grid p) \<and> y < rows (grid p)
           then do { (blank, p) \<leftarrow> blank_cell p; on_grid (set_wide_early_padding x y blank) p }
           else Some p);
     p \<leftarrow> on_grid (arm_qualified_wrap WideEarly 1) p;
     perform_deferred_wrap p }"

definition print_cell :: "rchar \<Rightarrow> nat \<Rightarrow> ScreenPerformer \<Rightarrow> ScreenPerformer option" where
  "print_cell c char_width p = do {
     let x = cursor_x (grid p);
     let y = cursor_y (grid p);
     if x < cols (grid p) \<and> y < rows (grid p) then do {
       (sid, p) \<leftarrow> intern_with_gc (current_style (state p)) p;
       p \<leftarrow> on_grid (set_print_cell x y (cell_new c sid (as_u8 char_width))) p;
       new_x \<leftarrow> add16 (cursor_x (grid p)) char_width;
       if cols (grid p) \<le> new_x then do {
         m \<leftarrow> sub16 (cols (grid p)) 1;
         let p = set_cursor_x m p;
         if autowrap_mode (modes (grid p)) then on_grid (arm_qualified_wrap Normal 0) p else Some p }
       else Some (set_cursor_x new_x p) }
     else Some p }"

definition print :: "(rchar \<Rightarrow> nat option) \<Rightarrow> rchar \<Rightarrow> ScreenPerformer \<Rightarrow> ScreenPerformer option" where
  "print uw c p = do {
     let p = with_state (\<lambda>s. s\<lparr>last_printed_char := c\<rparr>) p;
     let c = map_charset p c;
     let char_width = (case uw c of None \<Rightarrow> 0 | Some w \<Rightarrow> as_u16 w);
     if char_width = 0 then handle_combining_mark c p
     else do {
       p \<leftarrow> (if wrap_pending (grid p) \<and> autowrap_mode (modes (grid p))
             then perform_deferred_wrap p else Some p);
       at_margin \<leftarrow> (if char_width = 2
         then do { m \<leftarrow> sub16 (cols (grid p)) 1; Some (m \<le> cursor_x (grid p)) } else Some False);
       if at_margin then
         (if autowrap_mode (modes (grid p)) then
            (if cols (grid p) < 2 then Some p
             else do { p \<leftarrow> wide_early_wrap p; print_cell c char_width p })
          else Some p)
       else print_cell c char_width p } }"

subsection \<open>Control bytes\<close>

definition set_modes_by :: "(TerminalModes \<Rightarrow> TerminalModes) \<Rightarrow> ScreenPerformer \<Rightarrow> ScreenPerformer" where
  "set_modes_by f p = with_grid (\<lambda>g. g\<lparr>modes := f (modes g)\<rparr>) p"

definition execute :: "nat \<Rightarrow> ScreenPerformer \<Rightarrow> ScreenPerformer option" where
  "execute byte p =
     (if byte = 13 then Some (clear_wrap (set_cursor_x 0 p))
      else if 10 \<le> byte \<and> byte \<le> 12 then line_feed_motion (clear_wrap p)
      else if byte = 8 then
        (let p = clear_wrap p
         in if 0 < cursor_x (grid p) then Some (set_cursor_x (cursor_x (grid p) - 1) p) else Some p)
      else if byte = 9 then do {
        let p = clear_wrap p;
        nx \<leftarrow> next_tab_stop (cursor_x (grid p)) (grid p);
        Some (set_cursor_x nx p) }
      else if byte = 14 then Some (set_modes_by (\<lambda>m. m\<lparr>active_charset := G1\<rparr>) p)
      else if byte = 15 then Some (set_modes_by (\<lambda>m. m\<lparr>active_charset := G0\<rparr>) p)
      else if byte = 7 then Some (with_state (push_passthrough [7]) p)
      else Some p)"

subsection \<open>DEC private modes\<close>

definition dec_private_mode :: "bool \<Rightarrow> nat list \<Rightarrow> ScreenPerformer \<Rightarrow> ScreenPerformer option" where
  "dec_private_mode enable param p =
     (case param of [] \<Rightarrow> Some p
      | v # _ \<Rightarrow>
        if v = 1 then Some (set_modes_by (\<lambda>m. m\<lparr>cursor_key_mode := enable\<rparr>) p)
        else if v = 6 then
          (let p = set_modes_by (\<lambda>m. m\<lparr>origin_mode := enable\<rparr>) p
           in Some (if enable then clear_wrap (set_cursor_y (scroll_top (grid p)) (set_cursor_x 0 p)) else p))
        else if v = 7 then Some (set_modes_by (\<lambda>m. m\<lparr>autowrap_mode := enable\<rparr>) p)
        else if v = 12 then Some p
        else if v = 25 then Some (with_grid (\<lambda>g. g\<lparr>cursor_visible := enable\<rparr>) p)
        else if v = 1000 \<or> v = 1002 \<or> v = 1003 then
          Some (set_modes_by (\<lambda>m. m\<lparr>mouse_modes := mouse_modes_set v enable (mouse_modes m)\<rparr>) p)
        else if v = 1005 \<or> v = 1006 then
          Some (set_modes_by (\<lambda>m. m\<lparr>mouse_encoding :=
            (if enable then (case mouse_encoding_from_param v of None \<Rightarrow> X10 | Some e \<Rightarrow> e) else X10)\<rparr>) p)
        else if v = 1004 then Some (set_modes_by (\<lambda>m. m\<lparr>focus_reporting := enable\<rparr>) p)
        else if v = 1048 then (if enable then Some (save_cursor p) else restore_cursor p)
        else if v = 2004 then Some (set_modes_by (\<lambda>m. m\<lparr>bracketed_paste := enable\<rparr>) p)
        else if v = 1049 then (if enable then enter_alt_screen True p else exit_alt_screen True p)
        else if v = 1047 \<or> v = 47 then (if enable then enter_alt_screen False p else exit_alt_screen False p)
        else Some p)"

definition csi_set_dec_private_mode :: "nat list list \<Rightarrow> bool \<Rightarrow> ScreenPerformer \<Rightarrow> ScreenPerformer option" where
  "csi_set_dec_private_mode ps enable p = foldM (dec_private_mode enable) ps p"

end
