(* ===== verification/Performer_Dispatch.thy ===== *)
theory Performer_Dispatch
  imports Performer
begin

text \<open>
  The dispatch half of \<open>crates/qrmux/src/screen/performer.rs\<close>: CSI, ESC and OSC sequences, and the
  \<open>Perform\<close> callbacks as events. The byte-level helpers of the standard library that OSC handling
  uses (\<open>str::from_utf8\<close>, \<open>str::parse::<u16>\<close>, slicing at a character boundary) are written out.
\<close>

subsection \<open>Strings of the standard library\<close>

definition cont_byte :: "nat \<Rightarrow> bool" where
  "cont_byte b \<longleftrightarrow> 128 \<le> b \<and> b \<le> 191"

text \<open>The well-formed byte sequences that \<open>std::str::from_utf8\<close> accepts.\<close>

fun utf8_valid :: "bytes \<Rightarrow> bool" where
  "utf8_valid [] = True"
| "utf8_valid (b # bs) =
     (if b < 128 then utf8_valid bs
      else if 194 \<le> b \<and> b \<le> 223 then
        (case bs of c1 # r \<Rightarrow> cont_byte c1 \<and> utf8_valid r | _ \<Rightarrow> False)
      else if 224 \<le> b \<and> b \<le> 239 then
        (case bs of c1 # c2 # r \<Rightarrow>
           (if b = 224 then 160 \<le> c1 \<and> c1 \<le> 191
            else if b = 237 then 128 \<le> c1 \<and> c1 \<le> 159 else cont_byte c1)
           \<and> cont_byte c2 \<and> utf8_valid r
         | _ \<Rightarrow> False)
      else if 240 \<le> b \<and> b \<le> 244 then
        (case bs of c1 # c2 # c3 # r \<Rightarrow>
           (if b = 240 then 144 \<le> c1 \<and> c1 \<le> 191
            else if b = 244 then 128 \<le> c1 \<and> c1 \<le> 143 else cont_byte c1)
           \<and> cont_byte c2 \<and> cont_byte c3 \<and> utf8_valid r
         | _ \<Rightarrow> False)
      else False)"

definition is_char_boundary :: "bytes \<Rightarrow> nat \<Rightarrow> bool" where
  "is_char_boundary s i \<longleftrightarrow> i = 0 \<or> i = length s \<or> (i < length s \<and> \<not> cont_byte (s ! i))"

text \<open>\<open>s[..n]\<close> panics unless \<open>n\<close> is a character boundary; \<open>truncate\<close> does so only when it cuts.\<close>

definition str_prefix :: "bytes \<Rightarrow> nat \<Rightarrow> bytes option" where
  "str_prefix s n = (if is_char_boundary s n then Some (take n s) else None)"

definition str_truncate :: "bytes \<Rightarrow> nat \<Rightarrow> bytes option" where
  "str_truncate s n = (if n \<le> length s then str_prefix s n else Some s)"

definition is_digit_byte :: "nat \<Rightarrow> bool" where
  "is_digit_byte b \<longleftrightarrow> 48 \<le> b \<and> b \<le> 57"

definition digits_value :: "bytes \<Rightarrow> nat" where
  "digits_value ds = foldl (\<lambda>acc d. 10 * acc + (d - 48)) 0 ds"

definition parse_u16 :: "bytes \<Rightarrow> nat option" where
  "parse_u16 s =
     (let ds = (if s \<noteq> [] \<and> hd s = 43 then tl s else s)
      in if ds \<noteq> [] \<and> list_all is_digit_byte ds \<and> digits_value ds \<le> U16_MAX
         then Some (digits_value ds) else None)"

subsection \<open>CSI\<close>

definition csi_param :: "nat list list \<Rightarrow> nat \<Rightarrow> nat \<Rightarrow> nat" where
  "csi_param ps i dflt =
     (if i < length ps
      then (case ps ! i of [] \<Rightarrow> dflt | v # _ \<Rightarrow> if v \<noteq> 0 then v else dflt)
      else dflt)"

definition device_status_report :: "ScreenPerformer \<Rightarrow> ScreenPerformer option" where
  "device_status_report p = do {
     let g = grid p;
     row \<leftarrow> (if origin_mode (modes g) then add16 (cursor_y g - scroll_top g) 1 else add16 (cursor_y g) 1);
     col \<leftarrow> add16 (cursor_x g) 1;
     Some (with_state (push_response ([27, 91] @ write_u16 row @ [59] @ write_u16 col @ [82])) p) }"

definition csi_device_attributes :: "nat list list \<Rightarrow> bytes \<Rightarrow> ScreenPerformer \<Rightarrow> ScreenPerformer" where
  "csi_device_attributes ps ims p =
     (if ims = [] then
        (if csi_param ps 0 0 = 0 then with_state (push_response [27, 91, 63, 54, 50, 59, 99]) p else p)
      else if ims = [62] \<and> csi_param ps 0 0 = 0
        then with_state (push_response [27, 91, 62, 48, 59, 49, 48, 59, 49, 99]) p
      else p)"

definition csi_tab_clear :: "nat list list \<Rightarrow> ScreenPerformer \<Rightarrow> ScreenPerformer" where
  "csi_tab_clear ps p =
     (if csi_param ps 0 0 = 0 then with_grid (\<lambda>g. clear_tab_stop (cursor_x g) g) p
      else if csi_param ps 0 0 = 3 then with_grid clear_all_tab_stops p else p)"

definition csi_title_stack :: "nat list list \<Rightarrow> ScreenPerformer \<Rightarrow> ScreenPerformer option" where
  "csi_title_stack ps p =
     (let cmd = csi_param ps 0 0; scope = csi_param ps 1 0; s = state p
      in if cmd = 22 \<and> (scope = 0 \<or> scope = 2) \<and> length (title_stack s) < 16 then do {
           t \<leftarrow> str_truncate (title s) 4096;
           Some (with_state (\<lambda>s. s\<lparr>title_stack := title_stack s @ [t]\<rparr>) p) }
         else if cmd = 23 \<and> (scope = 0 \<or> scope = 2) then
           Some (if title_stack s = [] then p
                 else with_state (\<lambda>s. s\<lparr>title := last (title_stack s),
                                         title_stack := butlast (title_stack s)\<rparr>) p)
         else Some p)"

definition csi_dispatch ::
  "(rchar \<Rightarrow> nat option) \<Rightarrow> nat list list \<Rightarrow> bytes \<Rightarrow> rchar \<Rightarrow> ScreenPerformer \<Rightarrow> ScreenPerformer option" where
  "csi_dispatch uw ps ims action p =
     (let n = csi_param ps 0 1; m = csi_param ps 0 0
      in if action = 65 then Some (csi_cursor_up n p)
         else if action = 66 then csi_cursor_down n p
         else if action = 67 then csi_cursor_forward n p
         else if action = 68 then Some (csi_cursor_back n p)
         else if action = 69 then csi_cursor_next_line n p
         else if action = 70 then Some (csi_cursor_prev_line n p)
         else if action = 71 then csi_cursor_horizontal_absolute n p
         else if action = 72 \<or> action = 102 then csi_cursor_position n (csi_param ps 1 1) p
         else if action = 100 then csi_line_position_absolute n p
         else if action = 74 then csi_erase_display m p
         else if action = 75 then csi_erase_line m p
         else if action = 88 then csi_erase_character n p
         else if action = 80 then csi_delete_character n p
         else if action = 64 then csi_insert_character n p
         else if action = 98 then repeatM n (print uw (last_printed_char (state p))) p
         else if action = 109 then
           Some (with_state (\<lambda>s. s\<lparr>current_style := apply_sgr ps (current_style s)\<rparr>) p)
         else if action = 110 \<and> ims = [] \<and> m = 6 then device_status_report p
         else if action = 99 then Some (csi_device_attributes ps ims p)
         else if action = 113 \<and> ims = [32] then
           Some (set_modes_by (\<lambda>md. md\<lparr>cursor_shape := cursor_shape_from_param (as_u8 m)\<rparr>) p)
         else if action = 83 then csi_scroll_up_n n p
         else if action = 84 \<and> length ps \<le> 1 then csi_scroll_down_n n p
         else if action = 77 then csi_delete_lines n p
         else if action = 76 then csi_insert_lines n p
         else if action = 114 \<and> ims = [] then
           csi_set_scrolling_region n (csi_param ps 1 (rows (grid p))) p
         else if action = 115 \<and> ims = [] then Some (save_cursor p)
         else if action = 117 \<and> ims = [] then restore_cursor p
         else if action = 103 \<and> ims = [] then Some (csi_tab_clear ps p)
         else if action = 116 then csi_title_stack ps p
         else if (action = 104 \<or> action = 108) \<and> ims = [63] then
           csi_set_dec_private_mode ps (action = 104) p
         else Some p)"

subsection \<open>ESC\<close>

definition reverse_index :: "ScreenPerformer \<Rightarrow> ScreenPerformer option" where
  "reverse_index p =
     (let p = with_grid invalidate_provenance_keep_raw p
      in if cursor_y (grid p) = scroll_top (grid p) then perf_scroll_down p
         else if 0 < cursor_y (grid p) then Some (set_cursor_y (cursor_y (grid p) - 1) p)
         else Some p)"

definition full_reset :: "ScreenPerformer \<Rightarrow> ScreenPerformer option" where
  "full_reset p = do {
     let p = set_cursor_y 0 (set_cursor_x 0 p);
     p \<leftarrow> on_grid reset_scroll_region p;
     let p = clear_wrap (with_grid (\<lambda>g. g\<lparr>cursor_visible := True\<rparr>) p);
     let p = with_grid (\<lambda>g. g\<lparr>modes := modes_default\<rparr>) p;
     let p = with_state (\<lambda>s. s\<lparr>current_style := style_default\<rparr>) p;
     let p = (case saved_grid (state p) of None \<Rightarrow> p
              | Some sg \<Rightarrow> with_grid (\<lambda>g. g\<lparr>scrollback_limit := sg_scrollback_limit sg\<rparr>) p);
     let p = with_state (\<lambda>s. s\<lparr>in_alt_screen := False\<rparr>) p;
     let p = with_grid leave_alt_domain p;
     let p = with_state (\<lambda>s. s\<lparr>saved_grid := None, saved_modes := None, saved_cursor_state := None,
               saved_scroll_region := None, title := [], title_stack := [], last_printed_char := SP\<rparr>) p;
     let p = with_grid reset_tab_stops p;
     let p = with_grid (\<lambda>g. g\<lparr>style_table := style_table_reset (style_table g)\<rparr>) p;
     p \<leftarrow> on_grid (erase_rows 0 (rows (grid p)) cell_default) p;
     p \<leftarrow> on_grid clear_scrollback p;
     Some (with_state (push_passthrough [27, 91, 51, 74]) p) }"

definition screen_alignment :: "ScreenPerformer \<Rightarrow> ScreenPerformer option" where
  "screen_alignment p = do {
     p \<leftarrow> on_grid reset_scroll_region p;
     let p = clear_wrap (set_cursor_y 0 (set_cursor_x 0 p));
     (sid, p) \<leftarrow> intern_with_gc style_default p;
     let e_cell = cell_new 69 sid 1;
     on_grid (foldM (\<lambda>y. foldM (\<lambda>x. set_cell x y e_cell) [0..<cols (grid p)]) [0..<rows (grid p)]) p }"

definition esc_dispatch :: "bytes \<Rightarrow> nat \<Rightarrow> ScreenPerformer \<Rightarrow> ScreenPerformer option" where
  "esc_dispatch ims byte p =
     (if ims = [] then
        (if byte = 72 then Some (with_grid (\<lambda>g. set_tab_stop (cursor_x g) g) p)
         else if byte = 68 then line_feed_motion (clear_wrap p)
         else if byte = 69 then line_feed_motion (clear_wrap (set_cursor_x 0 p))
         else if byte = 77 then reverse_index p
         else if byte = 55 then Some (save_cursor p)
         else if byte = 56 then restore_cursor p
         else if byte = 99 then full_reset p
         else if byte = 61 then Some (set_modes_by (\<lambda>m. m\<lparr>keypad_app_mode := True\<rparr>) p)
         else if byte = 62 then Some (set_modes_by (\<lambda>m. m\<lparr>keypad_app_mode := False\<rparr>) p)
         else Some p)
      else if ims = [40] \<and> byte = 66 then Some (set_modes_by (\<lambda>m. m\<lparr>g0_charset := Ascii\<rparr>) p)
      else if ims = [40] \<and> byte = 48 then Some (set_modes_by (\<lambda>m. m\<lparr>g0_charset := LineDrawing\<rparr>) p)
      else if ims = [41] \<and> byte = 66 then Some (set_modes_by (\<lambda>m. m\<lparr>g1_charset := Ascii\<rparr>) p)
      else if ims = [41] \<and> byte = 48 then Some (set_modes_by (\<lambda>m. m\<lparr>g1_charset := LineDrawing\<rparr>) p)
      else if ims = [35] \<and> byte = 56 then screen_alignment p
      else Some p)"

subsection \<open>OSC\<close>

definition osc_number :: "bytes \<Rightarrow> nat option" where
  "osc_number b = (if utf8_valid b then parse_u16 b else None)"

definition osc_set_title :: "bytes \<Rightarrow> ScreenPerformer \<Rightarrow> ScreenPerformer option" where
  "osc_set_title t p =
     (if utf8_valid t then
        (if length t \<le> 4096 then Some (with_state (\<lambda>s. s\<lparr>title := t\<rparr>) p)
         else do { t' \<leftarrow> str_prefix t 4096; Some (with_state (\<lambda>s. s\<lparr>title := t'\<rparr>) p) })
      else Some p)"

fun osc_join :: "bytes list \<Rightarrow> bytes" where
  "osc_join [] = []"
| "osc_join [q] = q"
| "osc_join (q # r # qs) = q @ [59] @ osc_join (r # qs)"

definition osc_dispatch :: "bytes list \<Rightarrow> bool \<Rightarrow> ScreenPerformer \<Rightarrow> ScreenPerformer option" where
  "osc_dispatch params bell_terminated p =
     (case params of [] \<Rightarrow> Some p
      | q # rest \<Rightarrow>
        let osc_num = osc_number q
        in if osc_num = Some 0 \<or> osc_num = Some 2 then
             (case rest of [] \<Rightarrow> Some p | t # _ \<Rightarrow> osc_set_title t p)
           else let buf = [27, 93] @ osc_join params @ (if bell_terminated then [7] else [27, 92])
                in Some (if osc_num = Some 9 \<or> osc_num = Some 777 \<or> osc_num = Some 99
                         then with_state (push_notification buf) p
                         else with_state (push_passthrough buf) p))"

subsection \<open>The \<open>Perform\<close> callbacks\<close>

datatype vte_event =
    Print rchar
  | Execute nat
  | CsiDispatch "nat list list" bytes bool rchar
  | EscDispatch bytes bool nat
  | OscDispatch "bytes list" bool
  | Hook "nat list list" bytes bool rchar
  | Put nat
  | Unhook

fun perform :: "(rchar \<Rightarrow> nat option) \<Rightarrow> vte_event \<Rightarrow> ScreenPerformer \<Rightarrow> ScreenPerformer option" where
  "perform uw (Print c) p = print uw c p"
| "perform uw (Execute b) p = execute b p"
| "perform uw (CsiDispatch ps ims ignore action) p = csi_dispatch uw ps ims action p"
| "perform uw (EscDispatch ims ignore byte) p = esc_dispatch ims byte p"
| "perform uw (OscDispatch params bell) p = osc_dispatch params bell p"
| "perform uw (Hook ps ims ignore action) p = Some p"
| "perform uw (Put b) p = Some p"
| "perform uw Unhook p = Some p"

end
