(* ===== verification/Grid_Inv.thy ===== *)
theory Grid_Inv
  imports Performer_Dispatch
begin

text \<open>
  The well-formedness invariant of the grid and its preservation by the grid operations.

  \<open>grid_inv\<close> holds what the source states in \<open>check_invariants\<close> (the unified buffer is exactly
  scrollback plus \<open>rows\<close> visible rows, unsent scrollback starts inside it) and what every indexing
  expression relies on besides: positive \<open>u16\<close> dimensions, cursor and scroll region inside the
  screen, visible rows of exactly \<open>cols\<close> cells, one tab-stop slot per column.

  Operations that write into rows are related by \<open>upd_ok\<close>: the fields outside the row contents
  and the deferred-wrap bookkeeping (\<open>frame\<close>) are unchanged, and so is a chosen view of each row
  (its length, or all of its content and identity).
\<close>

definition table_inv :: "StyleTable \<Rightarrow> bool" where
  "table_inv t \<longleftrightarrow> styles t \<noteq> [] \<and> styles t ! 0 = style_default \<and> length (styles t) \<le> 65536
     \<and> list_all (\<lambda>i. 0 < i \<and> i < length (styles t)) (free_slots t) \<and> distinct (free_slots t)
     \<and> (\<forall>s i. index t s = Some i \<longrightarrow> 0 < i \<and> i < length (styles t) \<and> styles t ! i = s \<and> i \<notin> set (free_slots t))"

definition grid_inv :: "Grid \<Rightarrow> bool" where
  "grid_inv g \<longleftrightarrow>
     1 \<le> cols g \<and> cols g \<le> U16_MAX \<and> 1 \<le> rows g \<and> rows g \<le> U16_MAX
     \<and> length (cells g) = scrollback_len g + rows g \<and> pending_start g \<le> scrollback_len g
     \<and> cursor_x g < cols g \<and> cursor_y g < rows g
     \<and> scroll_top g \<le> scroll_bottom g \<and> scroll_bottom g < rows g
     \<and> list_all (\<lambda>n. n = cols g) (map row_len (drop (scrollback_len g) (cells g)))
     \<and> length (tab_stops g) = cols g \<and> table_inv (style_table g)"

type_synonym grid_frame =
  "(nat \<times> nat \<times> nat \<times> nat \<times> nat \<times> nat) \<times> (bool list \<times> nat \<times> nat \<times> nat)
    \<times> StyleTable \<times> TerminalModes \<times> bool \<times> nat option \<times> bool \<times> bool"

definition frame :: "Grid \<Rightarrow> grid_frame" where
  "frame g = ((cols g, rows g, cursor_x g, cursor_y g, scroll_top g, scroll_bottom g),
     (tab_stops g, scrollback_len g, scrollback_limit g, pending_start g),
     style_table g, modes g, cursor_visible g, next_row_id g, in_alt_domain g, logical_shadow g)"

definition strip :: "Row \<Rightarrow> Cell list \<times> (nat \<times> rchar list) list \<times> nat option" where
  "strip r = (row_cells r, combining r, row_id r)"

definition upd_ok :: "(Row \<Rightarrow> 'a) \<Rightarrow> Grid \<Rightarrow> Grid \<Rightarrow> bool" where
  "upd_ok h g g' \<longleftrightarrow> frame g' = frame g \<and> map h (cells g') = map h (cells g)"

abbreviation geom_eq :: "Grid \<Rightarrow> Grid \<Rightarrow> bool" where
  "geom_eq \<equiv> upd_ok row_len"

abbreviation same_content :: "Grid \<Rightarrow> Grid \<Rightarrow> bool" where
  "same_content \<equiv> upd_ok strip"

lemma upd_ok_refl [simp, intro]: "upd_ok h g g"
  by (simp add: upd_ok_def)

lemma upd_ok_trans: "upd_ok h g1 g2 \<Longrightarrow> upd_ok h g2 g3 \<Longrightarrow> upd_ok h g1 g3"
  by (simp add: upd_ok_def)

lemma row_len_strip: "row_len r = length (fst (strip r))"
  by (simp add: row_len_def strip_def)

lemma same_content_geom: "same_content g g' \<Longrightarrow> geom_eq g g'"
proof -
  assume "same_content g g'"
  then have "map (\<lambda>s. length (fst s)) (map strip (cells g')) = map (\<lambda>s. length (fst s)) (map strip (cells g))"
    and "frame g' = frame g"
    by (simp_all add: upd_ok_def)
  then show ?thesis
    by (simp add: upd_ok_def row_len_strip [abs_def] o_def)
qed

lemma upd_ok_length: "upd_ok h g g' \<Longrightarrow> length (cells g') = length (cells g)"
  unfolding upd_ok_def by (metis length_map)

lemma upd_ok_fields:
  assumes "upd_ok h g g'"
  shows "cols g' = cols g" "rows g' = rows g" "cursor_x g' = cursor_x g" "cursor_y g' = cursor_y g"
    "scroll_top g' = scroll_top g" "scroll_bottom g' = scroll_bottom g" "tab_stops g' = tab_stops g"
    "scrollback_len g' = scrollback_len g" "scrollback_limit g' = scrollback_limit g"
    "pending_start g' = pending_start g" "style_table g' = style_table g" "modes g' = modes g"
    "next_row_id g' = next_row_id g" "in_alt_domain g' = in_alt_domain g"
    "logical_shadow g' = logical_shadow g" "cursor_visible g' = cursor_visible g"
    "length (cells g') = length (cells g)"
  using assms upd_ok_length [OF assms] by (auto simp: upd_ok_def frame_def)

lemma geom_eq_inv:
  assumes "geom_eq g g'" and "grid_inv g"
  shows "grid_inv g'"
proof -
  note f = upd_ok_fields [OF assms(1)]
  have "map row_len (drop (scrollback_len g') (cells g')) = map row_len (drop (scrollback_len g) (cells g))"
    using assms(1) f by (metis drop_map upd_ok_def)
  then show ?thesis
    using assms(2) unfolding grid_inv_def f by simp
qed

lemma geom_bind:
  assumes "succeeds m (geom_eq g)" and "\<And>g1. geom_eq g g1 \<Longrightarrow> succeeds (h g1) (geom_eq g1)"
  shows "succeeds (m \<bind> h) (geom_eq g)"
  using assms(1) by (auto intro: upd_ok_trans succeeds_mono dest: assms(2))

lemma succeeds_geomI: "succeeds m (same_content g) \<Longrightarrow> succeeds m (geom_eq g)"
  by (blast intro: succeeds_mono same_content_geom)

lemma grid_inv_visible_len:
  "grid_inv g \<Longrightarrow> y < rows g \<Longrightarrow> row_len (cells g ! (scrollback_len g + y)) = cols g"
proof -
  assume inv: "grid_inv g" and y: "y < rows g"
  then have "cells g ! (scrollback_len g + y) \<in> set (drop (scrollback_len g) (cells g))"
    by (metis add_diff_cancel_left' grid_inv_def length_drop nth_append_drop nth_mem)
  then show ?thesis using inv by (auto simp: grid_inv_def list_all_iff)
qed

subsection \<open>Writing one row\<close>

lemma upd_row_ok:
  assumes "i < length (cells g)" and "succeeds (f (cells g ! i)) (\<lambda>r. h r = h (cells g ! i))"
  shows "succeeds (upd_row i f g) (upd_ok h g)"
  using assms
  by (auto simp: upd_row_def upd_ok_def frame_def map_update list_update_same_conv
      elim!: succeeds_mono)

lemma visible_row_mut_ok:
  assumes "grid_inv g" and "y < rows g"
    and "succeeds (f (cells g ! (scrollback_len g + y))) (\<lambda>r. h r = h (cells g ! (scrollback_len g + y)))"
  shows "succeeds (visible_row_mut y f g) (upd_ok h g)"
  using assms by (auto simp: visible_row_mut_def grid_inv_def intro!: upd_row_ok)

lemma visible_row_mut_geom:
  assumes "grid_inv g" and "y < rows g"
    and "\<And>r. row_len r = cols g \<Longrightarrow> succeeds (f r) (\<lambda>r'. row_len r' = cols g)"
  shows "succeeds (visible_row_mut y f g) (geom_eq g)"
proof (rule visible_row_mut_ok [OF assms(1,2)])
  have "row_len (cells g ! (scrollback_len g + y)) = cols g"
    using assms(1,2) by (rule grid_inv_visible_len)
  with assms(3) show "succeeds (f (cells g ! (scrollback_len g + y)))
      (\<lambda>r. row_len r = row_len (cells g ! (scrollback_len g + y)))" by simp
qed

lemma succeeds_visible_row [simp]:
  "grid_inv g \<Longrightarrow> y < rows g \<Longrightarrow>
   succeeds (visible_row y g) P = P (cells g ! (scrollback_len g + y))"
  by (simp add: visible_row_def grid_inv_def)

subsection \<open>Content writes\<close>

lemma strip_simps [simp]:
  "strip (r\<lparr>outgoing := e\<rparr>) = strip r"
  "strip (r\<lparr>content_revision := v\<rparr>) = strip r"
  "strip (advance_revision r) = strip r"
  by (simp_all add: strip_def advance_revision_def)

lemma same_content_wrap [simp]:
  "same_content g (g\<lparr>pending_wrap := a\<rparr>)"
  "same_content g (g\<lparr>sequential_edge := b\<rparr>)"
  "same_content g (g\<lparr>pending_wrap := a, sequential_edge := b\<rparr>)"
  "same_content g (g\<lparr>wrap_pending := w\<rparr>)"
  "same_content g (g\<lparr>next_edge_id := n\<rparr>)"
  by (simp_all add: upd_ok_def frame_def)

lemma same_content_bind:
  assumes "succeeds m (same_content g)" and "\<And>g1. same_content g g1 \<Longrightarrow> succeeds (h g1) (same_content g1)"
  shows "succeeds (m \<bind> h) (same_content g)"
  using assms(1) by (auto intro: upd_ok_trans succeeds_mono dest: assms(2))

lemma clear_outgoing_ok:
  "i < length (cells g) \<Longrightarrow> succeeds (upd_row i (\<lambda>r. Some (r\<lparr>outgoing := e\<rparr>)) g) (same_content g)"
  by (rule upd_row_ok) simp_all

lemma sever_incoming_ok:
  "i < length (cells g) \<Longrightarrow> succeeds (sever_incoming i t fw g) (same_content g)"
  by (auto simp: sever_incoming_def intro!: clear_outgoing_ok)

lemma settle_pending_ok: "same_content g (settle_pending t rf o' n g)"
  by (simp add: settle_pending_def Let_def upd_ok_def frame_def)

lemma before_content_write_ok:
  assumes "length (cells g) = scrollback_len g + rows g"
  shows "succeeds (before_content_write y fw rf g) (same_content g)"
proof (cases "rows g \<le> y")
  case True
  then show ?thesis by (simp add: before_content_write_def)
next
  case False
  let ?i = "scrollback_len g + y"
  from False assms have i: "?i < length (cells g)" by simp
  have tail: "succeeds (vget (cells g1) ?i \<bind> (\<lambda>row'. upd_row ?i (\<lambda>r. Some (advance_revision r)) g1 \<bind>
      (\<lambda>g2. Some (settle_pending t rf (content_revision row') (content_revision (advance_revision row')) g2))))
      (same_content g1)" if "same_content g g1" for g1 t
    using upd_ok_length [OF that] i
    by (auto intro!: succeeds_mono [OF upd_row_ok [where h = strip]]
        intro: upd_ok_trans [OF _ settle_pending_ok])
  have "before_content_write y fw rf g = upd_row ?i (\<lambda>r. Some (r\<lparr>outgoing := None\<rparr>)) g \<bind>
     (\<lambda>g. sever_incoming ?i (row_id (cells g0 ! ?i)) fw g \<bind> (\<lambda>g1. vget (cells g1) ?i \<bind> (\<lambda>row'.
       upd_row ?i (\<lambda>r. Some (advance_revision r)) g1 \<bind> (\<lambda>g2. Some (settle_pending (row_id (cells g0 ! ?i)) rf
         (content_revision row') (content_revision (advance_revision row')) g2)))))"
    if "g0 = g" for g0
    using False i that by (simp add: before_content_write_def vget_bind Let_def)
  note eq = this [OF refl]
  show ?thesis
    unfolding eq
  proof (intro same_content_bind clear_outgoing_ok [OF i])
    fix g1 assume s1: "same_content g g1"
    show "succeeds (sever_incoming ?i (row_id (cells g ! ?i)) fw g1) (same_content g1)"
      using upd_ok_length [OF s1] i by (intro sever_incoming_ok) simp
    fix g2 assume "same_content g1 g2"
    with s1 have "same_content g g2" by (rule upd_ok_trans)
    then show "succeeds (vget (cells g2) ?i \<bind> (\<lambda>row'. upd_row ?i (\<lambda>r. Some (advance_revision r)) g2 \<bind>
      (\<lambda>g3. Some (settle_pending (row_id (cells g ! ?i)) rf (content_revision row')
        (content_revision (advance_revision row')) g3)))) (same_content g2)"
      by (rule tail)
  qed
qed

lemma before_content_write_geom:
  "grid_inv g \<Longrightarrow> succeeds (before_content_write y fw rf g) (geom_eq g)"
  by (intro succeeds_geomI before_content_write_ok) (simp add: grid_inv_def)

lemma prepare_addressed_write_geom:
  "grid_inv g \<Longrightarrow> succeeds (prepare_addressed_write y g) (geom_eq g)"
  unfolding prepare_addressed_write_def
  by (rule geom_bind [OF before_content_write_geom]) (simp_all add: same_content_geom)

lemma row_set_geom:
  "grid_inv g \<Longrightarrow> y < rows g \<Longrightarrow> x < cols g \<Longrightarrow> succeeds (visible_row_mut y (row_set x c) g) (geom_eq g)"
  by (rule visible_row_mut_geom) (simp_all add: row_len_def)

text \<open>A second operation may rely on the geometry the first one kept.\<close>

lemma geom_inv_bind:
  assumes "grid_inv g" and "succeeds m (geom_eq g)"
    and "\<And>g1. grid_inv g1 \<Longrightarrow> rows g1 = rows g \<Longrightarrow> cols g1 = cols g \<Longrightarrow> scrollback_len g1 = scrollback_len g
      \<Longrightarrow> succeeds (h g1) (geom_eq g1)"
  shows "succeeds (m \<bind> h) (geom_eq g)"
  using assms(2)
  by (rule geom_bind) (rule assms(3), auto simp: upd_ok_fields intro: geom_eq_inv assms(1))

lemma fixup_wide_char_at_geom:
  assumes "grid_inv g"
  shows "succeeds (fixup_wide_char_at x y g) (geom_eq g)"
proof (cases "rows g \<le> y \<or> cols g \<le> x")
  case True
  then show ?thesis by (simp add: fixup_wide_char_at_def)
next
  case False
  then have y: "y < rows g" and x: "x < cols g" by simp_all
  define c where "c = row_cells (cells g ! (scrollback_len g + y)) ! x"
  have eq: "fixup_wide_char_at x y g =
      (if width c = 2 then
         (if x + 1 < cols g then visible_row_mut y (row_set (x + 1) cell_default) g else Some g)
           \<bind> visible_row_mut y (row_set x cell_default)
       else if width c = 0 \<and> 0 < x then
         visible_row_mut y (row_set (x - 1) cell_default) g \<bind> visible_row_mut y (row_set x cell_default)
       else Some g)"
    using False assms grid_inv_visible_len [OF assms y]
    by (simp add: fixup_wide_char_at_def visible_row_def row_get_def vget_def c_def grid_inv_def row_len_def)
  show ?thesis
    unfolding eq using x y assms
    by (auto simp del: succeeds_bind intro!: geom_inv_bind [OF assms] row_set_geom)
qed

lemma set_cell_row_geom:
  "grid_inv g \<Longrightarrow> y < rows g \<Longrightarrow> x < cols g \<Longrightarrow>
   succeeds (visible_row_mut y (\<lambda>r. do { r \<leftarrow> row_set x cell r; Some (clear_combining n r) }) g) (geom_eq g)"
  by (rule visible_row_mut_geom) (simp_all add: row_len_def)

lemma set_cell_raw_geom:
  assumes "grid_inv g" "y < rows g" "x < cols g"
  shows "succeeds (set_cell_raw x y cell g) (geom_eq g)"
  unfolding set_cell_raw_def using assms
  by (intro geom_inv_bind fixup_wide_char_at_geom set_cell_row_geom)
    (auto simp del: succeeds_bind intro!: geom_inv_bind fixup_wide_char_at_geom set_cell_row_geom)

lemma set_cell_geom: "grid_inv g \<Longrightarrow> succeeds (set_cell x y cell g) (geom_eq g)"
  by (auto simp del: succeeds_bind simp: set_cell_def intro!: geom_inv_bind before_content_write_geom set_cell_raw_geom)

lemma set_print_cell_geom: "grid_inv g \<Longrightarrow> succeeds (set_print_cell x y cell g) (geom_eq g)"
  by (auto simp del: succeeds_bind simp: set_print_cell_def intro!: geom_inv_bind before_content_write_geom set_cell_raw_geom)

lemma set_wide_early_padding_geom:
  "grid_inv g \<Longrightarrow> succeeds (set_wide_early_padding x y cell g) (geom_eq g)"
  by (auto simp del: succeeds_bind simp: set_wide_early_padding_def
      intro!: geom_inv_bind before_content_write_geom row_set_geom)

lemma push_print_combining_geom:
  "grid_inv g \<Longrightarrow> y < rows g \<Longrightarrow> succeeds (push_print_combining y x mark g) (geom_eq g)"
  unfolding push_print_combining_def
  by (intro geom_inv_bind before_content_write_geom visible_row_mut_geom) (simp_all add: row_len_def)

lemma erase_fold_len:
  "to \<le> row_len r \<Longrightarrow> succeeds (foldM (\<lambda>i. row_set i blank) [from..<to] r) (\<lambda>r'. row_len r' = row_len r)"
  by (rule foldM_invariant) (auto simp: row_len_def)

lemma erase_cells_geom:
  assumes "grid_inv g"
  shows "succeeds (erase_cells y from to blank g) (geom_eq g)"
proof -
  have row: "succeeds (visible_row_mut y (\<lambda>r. do {
          r \<leftarrow> foldM (\<lambda>i. row_set i blank) [min from (cols g)..<min to (cols g)] r;
          Some (clear_combining_range a b r) }) g1) (geom_eq g1)"
    if "grid_inv g1" "y < rows g1" "cols g1 = cols g" for g1 a b
    using that
    by (intro visible_row_mut_geom) (auto intro!: succeeds_mono [OF erase_fold_len] simp: row_len_def)
  show ?thesis
    using assms
    by (auto simp del: succeeds_bind simp: erase_cells_def Let_def
        intro!: geom_inv_bind before_content_write_geom fixup_wide_char_at_geom row)
qed

lemma erase_rows_geom:
  assumes "grid_inv g"
  shows "succeeds (erase_rows from_y to_y blank g) (geom_eq g)"
  unfolding erase_rows_def
proof (rule foldM_invariant)
  fix y g1 assume y: "y \<in> set [min from_y (rows g)..<min to_y (rows g)]" and g: "geom_eq g g1"
  then have inv: "grid_inv g1" using assms by (auto intro: geom_eq_inv)
  have "succeeds (do { g \<leftarrow> before_content_write y False False g1;
      visible_row_mut y (\<lambda>r. Some (blank_row blank r)) g }) (geom_eq g1)"
    using y upd_ok_fields [OF g] inv
    by (intro geom_inv_bind before_content_write_geom visible_row_mut_geom)
      (auto simp: blank_row_def row_len_def)
  then show "succeeds (do { g \<leftarrow> before_content_write y False False g1;
      visible_row_mut y (\<lambda>r. Some (blank_row blank r)) g }) (geom_eq g)"
    using g by (auto intro: upd_ok_trans succeeds_mono)
qed simp

end
