(* ===== verification/Grid_Scroll.thy ===== *)
theory Grid_Scroll
  imports Grid_Inv
begin

text \<open>
  Row-level operations of the grid on the unified buffer: what removal, insertion and scrolling do
  to the sequence of row contents (\<open>contents\<close>), and that they keep \<open>grid_inv\<close>. The provenance
  bookkeeping that these operations also carry out (severing edges) is invisible in \<open>contents\<close>.
\<close>

definition contents :: "Grid \<Rightarrow> (Cell list \<times> (nat \<times> rchar list) list \<times> nat option) list" where
  "contents g = map strip (cells g)"

definition rm_nth :: "nat \<Rightarrow> 'a list \<Rightarrow> 'a list" where
  "rm_nth i xs = take i xs @ drop (Suc i) xs"

definition ins_nth :: "nat \<Rightarrow> 'a \<Rightarrow> 'a list \<Rightarrow> 'a list" where
  "ins_nth i x xs = take i xs @ x # drop i xs"

lemma length_rm_nth [simp]: "i < length xs \<Longrightarrow> length (rm_nth i xs) = length xs - 1"
  by (simp add: rm_nth_def)

lemma length_ins_nth [simp]: "i \<le> length xs \<Longrightarrow> length (ins_nth i x xs) = Suc (length xs)"
  by (simp add: ins_nth_def)

lemma drop_rm_nth: "n + i < length xs \<Longrightarrow> drop n (rm_nth (n + i) xs) = rm_nth i (drop n xs)"
  by (simp add: rm_nth_def drop_take add.commute)

lemma take_rm_nth: "n + i < length xs \<Longrightarrow> take n (rm_nth (n + i) xs) = take n xs"
  by (simp add: rm_nth_def)

lemma drop_ins_nth: "n + i \<le> length xs \<Longrightarrow> drop n (ins_nth (n + i) x xs) = ins_nth i x (drop n xs)"
  by (simp add: ins_nth_def drop_take add.commute)

lemma take_ins_nth: "n + i \<le> length xs \<Longrightarrow> take n (ins_nth (n + i) x xs) = take n xs"
  by (simp add: ins_nth_def)

lemma list_all_rm_nth: "list_all P xs \<Longrightarrow> list_all P (rm_nth i xs)"
  by (auto simp: rm_nth_def list_all_take list_all_drop)

lemma list_all_ins_nth: "list_all P xs \<Longrightarrow> P x \<Longrightarrow> list_all P (ins_nth i x xs)"
  by (auto simp: ins_nth_def list_all_take list_all_drop)

lemma map_rm_nth: "map f (rm_nth i xs) = rm_nth i (map f xs)"
  by (simp add: rm_nth_def take_map drop_map)

lemma map_ins_nth: "map f (ins_nth i x xs) = ins_nth i (f x) (map f xs)"
  by (simp add: ins_nth_def take_map drop_map)

subsection \<open>The invariant seen through contents\<close>

lemma length_contents [simp]: "length (contents g) = length (cells g)"
  by (simp add: contents_def)

lemma same_content_iff: "same_content g g' \<longleftrightarrow> frame g' = frame g \<and> contents g' = contents g"
  by (simp add: upd_ok_def contents_def)

lemma contents_simps [simp]:
  "contents (g\<lparr>scrollback_len := n\<rparr>) = contents g"
  "contents (g\<lparr>pending_start := n\<rparr>) = contents g"
  "contents (g\<lparr>next_row_id := i\<rparr>) = contents g"
  "contents (g\<lparr>next_edge_id := i\<rparr>) = contents g"
  "contents (g\<lparr>pending_wrap := pw\<rparr>) = contents g"
  "contents (g\<lparr>sequential_edge := se\<rparr>) = contents g"
  "contents (g\<lparr>wrap_pending := w\<rparr>) = contents g"
  "contents (g\<lparr>cursor_x := n\<rparr>) = contents g"
  "contents (g\<lparr>cursor_y := n\<rparr>) = contents g"
  "contents (g\<lparr>cols := n\<rparr>) = contents g"
  "contents (g\<lparr>rows := n\<rparr>) = contents g"
  "contents (g\<lparr>scroll_top := n\<rparr>) = contents g"
  "contents (g\<lparr>scroll_bottom := n\<rparr>) = contents g"
  "contents (g\<lparr>tab_stops := ts\<rparr>) = contents g"
  "contents (g\<lparr>scrollback_limit := n\<rparr>) = contents g"
  "contents (g\<lparr>style_table := t\<rparr>) = contents g"
  "contents (g\<lparr>modes := m\<rparr>) = contents g"
  "contents (g\<lparr>cursor_visible := b\<rparr>) = contents g"
  "contents (g\<lparr>in_alt_domain := b\<rparr>) = contents g"
  "contents (g\<lparr>cells := rs\<rparr>) = map strip rs"
  by (simp_all add: contents_def)

text \<open>What the invariant asks of the rows: the visible ones have \<open>c\<close> cells each.\<close>

definition visible_ok :: "nat \<Rightarrow> nat \<Rightarrow> (Cell list \<times> 'b) list \<Rightarrow> bool" where
  "visible_ok n c S \<longleftrightarrow> list_all (\<lambda>s. length (fst s) = c) (drop n S)"

lemma visible_ok_contents:
  "visible_ok n c (contents g) \<longleftrightarrow> list_all (\<lambda>k. k = c) (map row_len (drop n (cells g)))"
  by (simp add: visible_ok_def contents_def drop_map list_all_iff row_len_strip)

definition frame_ok :: "Grid \<Rightarrow> bool" where
  "frame_ok g \<longleftrightarrow>
     1 \<le> cols g \<and> cols g \<le> U16_MAX \<and> 1 \<le> rows g \<and> rows g \<le> U16_MAX \<and> pending_start g \<le> scrollback_len g
     \<and> cursor_x g < cols g \<and> cursor_y g < rows g
     \<and> scroll_top g \<le> scroll_bottom g \<and> scroll_bottom g < rows g
     \<and> length (tab_stops g) = cols g \<and> table_inv (style_table g)"

lemma grid_inv_split:
  "grid_inv g \<longleftrightarrow> frame_ok g \<and> length (contents g) = scrollback_len g + rows g
     \<and> visible_ok (scrollback_len g) (cols g) (contents g)"
  by (auto simp: grid_inv_def frame_ok_def visible_ok_contents)

lemma frame_fields:
  assumes "frame g' = frame g"
  shows "cols g' = cols g" "rows g' = rows g" "cursor_x g' = cursor_x g" "cursor_y g' = cursor_y g"
    "scroll_top g' = scroll_top g" "scroll_bottom g' = scroll_bottom g" "tab_stops g' = tab_stops g"
    "scrollback_len g' = scrollback_len g" "scrollback_limit g' = scrollback_limit g"
    "pending_start g' = pending_start g" "style_table g' = style_table g" "modes g' = modes g"
    "next_row_id g' = next_row_id g" "in_alt_domain g' = in_alt_domain g"
    "logical_shadow g' = logical_shadow g" "cursor_visible g' = cursor_visible g"
  using assms by (auto simp: frame_def)

lemma frame_cells [simp]: "frame (g\<lparr>cells := rs\<rparr>) = frame g"
  by (simp add: frame_def)

lemma frame_wrap [simp]:
  "frame (g\<lparr>pending_wrap := pw\<rparr>) = frame g" "frame (g\<lparr>sequential_edge := se\<rparr>) = frame g"
  "frame (g\<lparr>wrap_pending := w\<rparr>) = frame g" "frame (g\<lparr>next_edge_id := i\<rparr>) = frame g"
  by (simp_all add: frame_def)

subsection \<open>Severing and validating edges change no content\<close>

lemma strip_sever_row [simp]: "strip (sever_row D r) = strip r"
  by (simp add: sever_row_def)

lemma sever_ids_same: "same_content g (sever_ids D g)"
  by (simp add: sever_ids_def Let_def same_content_iff contents_def o_def)

lemma sever_opt_same: "same_content g (sever_opt r g)"
  by (auto simp: sever_opt_def sever_ids_same split: option.split)

lemma map_strip_clear [simp]:
  "map strip (rs[i := (rs ! i)\<lparr>outgoing := None\<rparr>]) = map strip rs"
  by (cases "i < length rs") (simp_all add: map_update list_update_same_conv list_update_beyond)

lemma validate_step_strip: "map strip (fst (validate_step g i st)) = map strip (fst st)"
  by (auto simp: validate_step_def Let_def split: prod.split option.split)

lemma fold_validate_strip:
  "map strip (fst (fold (validate_step g) is st)) = map strip (fst st)"
  by (induction "is" arbitrary: st) (simp_all add: validate_step_strip)

lemma validate_all_edges_same: "same_content g (validate_all_edges g)"
proof -
  obtain cs sv where f: "fold (validate_step g) [0..<length (cells g)] (cells g, False) = (cs, sv)"
    by force
  then have "map strip cs = map strip (cells g)"
    using fold_validate_strip [of g "[0..<length (cells g)]" "(cells g, False)"] by simp
  then show ?thesis
    by (simp add: validate_all_edges_def f Let_def same_content_iff contents_def)
qed

lemma contents_nth: "i < length (cells g) \<Longrightarrow> contents g ! i = strip (cells g ! i)"
  by (simp add: contents_def)

subsection \<open>Removing and inserting rows\<close>

lemma remove_row_at_spec:
  assumes "i < length (cells g)"
  shows "\<exists>r g'. remove_row_at i g = (Some r, g') \<and> strip r = contents g ! i
    \<and> frame g' = frame g \<and> contents g' = rm_nth i (contents g)"
proof -
  define g1 where "g1 = (case row_id (cells g ! i) of None \<Rightarrow> g
      | Some d \<Rightarrow>
        let g = (if 0 < i \<and> is_some_and (outgoing (cells g ! (i - 1))) (\<lambda>e. we_target e = d)
                 then g\<lparr>cells := (cells g)[i - 1 := (cells g ! (i - 1))\<lparr>outgoing := None\<rparr>]\<rparr> else g);
            g = (if is_some_and (pending_wrap g) (\<lambda>p. pw_source p = d) then g\<lparr>pending_wrap := None\<rparr> else g)
        in if is_some_and (sequential_edge g) (\<lambda>s. se_source s = d \<or> se_target s = d)
           then g\<lparr>sequential_edge := None\<rparr> else g)"
  have same: "contents g1 = contents g" "frame g1 = frame g"
    by (simp_all add: g1_def Let_def contents_def split: option.split)
  then have len: "length (cells g1) = length (cells g)"
    by (metis length_contents)
  have "remove_row_at i g = (Some (cells g1 ! i), g1\<lparr>cells := take i (cells g1) @ drop (Suc i) (cells g1)\<rparr>)"
    using assms by (simp add: remove_row_at_def g1_def [symmetric] Let_def)
  moreover have "strip (cells g1 ! i) = contents g ! i"
    using assms len same(1) contents_nth [of i g1] by simp
  moreover have "map strip (take i (cells g1) @ drop (Suc i) (cells g1)) = rm_nth i (contents g)"
    using same(1) by (simp add: rm_nth_def contents_def flip: take_map drop_map)
  ultimately show ?thesis
    using same(2) by simp
qed

lemma remove_visible_row_spec:
  assumes "scrollback_len g + y < length (cells g)"
  shows "succeeds (remove_visible_row y g) (\<lambda>(r, g'). strip r = contents g ! (scrollback_len g + y)
     \<and> frame g' = frame g \<and> contents g' = rm_nth (scrollback_len g + y) (contents g))"
  using remove_row_at_spec [OF assms] assms by (auto simp: remove_visible_row_def)

lemma insert_visible_row_spec:
  assumes "scrollback_len g + y \<le> length (cells g)"
  shows "succeeds (insert_visible_row y row g) (\<lambda>g'. frame g' = frame g
     \<and> contents g' = ins_nth (scrollback_len g + y) (strip row) (contents g))"
  using assms
  by (auto simp: insert_visible_row_def Let_def contents_def ins_nth_def take_map drop_map take_update_swap drop_update_swap
      simp flip: take_map drop_map)

lemma fresh_row_with_cells_eq:
  "fresh_row_with_cells cs g =
     (assign_id (next_row_id g) (row_from_cells cs), g\<lparr>next_row_id := snd (take_id (next_row_id g))\<rparr>)"
  by (simp add: fresh_row_with_cells_def take_id_def)

lemma strip_fresh [simp]: "strip (assign_id i (row_from_cells cs)) = (cs, [], i)"
  by (simp add: strip_def assign_id_def row_from_cells_def Let_def)

lemma strip_fresh_blank [simp]: "strip (assign_id i (row_new n)) = (replicate n cell_default, [], i)"
  by (simp add: strip_def assign_id_def row_new_def Let_def)

text \<open>
  The step shared by scrolling and by inserting and deleting lines: one visible row leaves the
  buffer at \<open>a\<close> and a freshly identified blank row enters at \<open>b\<close>.
\<close>

definition blank_line :: "Cell \<Rightarrow> Grid \<Rightarrow> Cell list \<times> (nat \<times> rchar list) list \<times> nat option" where
  "blank_line fill g = (replicate (cols g) fill, [], next_row_id g)"

definition bump_row_id :: "Grid \<Rightarrow> Grid" where
  "bump_row_id g = g\<lparr>next_row_id := snd (take_id (next_row_id g))\<rparr>"

lemma bump_simps [simp]: "contents (bump_row_id g) = contents g" "cells (bump_row_id g) = cells g"
  "scrollback_len (bump_row_id g) = scrollback_len g" "rows (bump_row_id g) = rows g" "cols (bump_row_id g) = cols g"
  by (simp_all add: bump_row_id_def)

lemma frame_bump_cong: "frame g' = frame g \<Longrightarrow> frame (bump_row_id g') = frame (bump_row_id g)"
  by (simp add: frame_def bump_row_id_def)

lemma move_line_spec:
  assumes inv: "grid_inv g" and a: "a < rows g" and b: "b < rows g"
  shows "succeeds (do { (_, g) \<leftarrow> remove_visible_row a g;
       let (r, g) = fresh_row_with_cells (replicate (cols g) fill) g;
       insert_visible_row b r g })
     (\<lambda>g'. frame g' = frame (bump_row_id g)
        \<and> contents g' = ins_nth (scrollback_len g + b) (blank_line fill g)
                          (rm_nth (scrollback_len g + a) (contents g)))"
proof -
  have len: "length (cells g) = scrollback_len g + rows g" using inv by (simp add: grid_inv_def)
  have "succeeds (insert_visible_row b (assign_id (next_row_id g1) (row_from_cells (replicate (cols g1) fill)))
      (g1\<lparr>next_row_id := snd (take_id (next_row_id g1))\<rparr>))
     (\<lambda>g'. frame g' = frame (bump_row_id g)
        \<and> contents g' = ins_nth (scrollback_len g + b) (blank_line fill g)
                          (rm_nth (scrollback_len g + a) (contents g)))"
    if f: "frame g1 = frame g" and c: "contents g1 = rm_nth (scrollback_len g + a) (contents g)" for g1
  proof -
    note ff = frame_fields [OF f]
    have "length (cells g1) = length (cells g) - 1"
      using arg_cong [OF c, of length] a len by simp
    then have "scrollback_len g1 + b \<le> length (cells g1)" using b len ff by simp
    then show ?thesis
      using insert_visible_row_spec [of "bump_row_id g1" b "assign_id (next_row_id g1) (row_from_cells (replicate (cols g1) fill))"]
      unfolding bump_row_id_def [symmetric]
      by (simp add: frame_bump_cong [OF f] ff(1,8,13) c blank_line_def)
  qed
  then show ?thesis
    using remove_visible_row_spec [of g a] a len
    by (auto simp: fresh_row_with_cells_eq elim!: succeeds_mono)
qed

subsection \<open>Scrolling\<close>

lemma check_invariants_ok [simp]:
  "pending_start g \<le> scrollback_len g \<Longrightarrow> length (cells g) = scrollback_len g + rows g \<Longrightarrow>
   succeeds (check_invariants g) P = P g"
  by (simp add: check_invariants_def)

lemma check_invariants_frame:
  assumes "frame g' = frame g" "length (contents g') = scrollback_len g + rows g" "pending_start g \<le> scrollback_len g"
  shows "check_invariants g' = Some g'"
  using assms frame_fields [OF assms(1)] by (simp add: check_invariants_def)

lemma grid_inv_lengths:
  "grid_inv g \<Longrightarrow> length (cells g) = scrollback_len g + rows g"
  "grid_inv g \<Longrightarrow> pending_start g \<le> scrollback_len g"
  "grid_inv g \<Longrightarrow> scroll_top g \<le> scroll_bottom g"
  "grid_inv g \<Longrightarrow> scroll_bottom g < rows g"
  "grid_inv g \<Longrightarrow> cursor_x g < cols g"
  "grid_inv g \<Longrightarrow> cursor_y g < rows g"
  "grid_inv g \<Longrightarrow> 1 \<le> cols g"
  "grid_inv g \<Longrightarrow> 1 \<le> rows g"
  "grid_inv g \<Longrightarrow> cols g \<le> U16_MAX"
  "grid_inv g \<Longrightarrow> rows g \<le> U16_MAX"
  by (simp_all add: grid_inv_def)

lemma scroll_up_region:
  assumes inv: "grid_inv g" and "in_alt \<or> 0 < scroll_top g \<or> scrollback_limit g = 0"
  shows "succeeds (scroll_up in_alt fill g) (\<lambda>g'. frame g' = frame (bump_row_id g)
     \<and> contents g' = ins_nth (scrollback_len g + scroll_bottom g) (blank_line fill g)
                       (rm_nth (scrollback_len g + scroll_top g) (contents g)))"
proof -
  note len = grid_inv_lengths [OF inv]
  let ?move = "do { (_, g1) \<leftarrow> remove_visible_row (scroll_top g) g;
       let (r, g2) = fresh_row_with_cells (replicate (cols g1) fill) g1;
       insert_visible_row (scroll_bottom g) r g2 }"
  let ?post = "\<lambda>g'. frame g' = frame (bump_row_id g)
     \<and> contents g' = ins_nth (scrollback_len g + scroll_bottom g) (blank_line fill g)
                       (rm_nth (scrollback_len g + scroll_top g) (contents g))"
  have move: "succeeds ?move ?post"
    using move_line_spec [OF inv, of "scroll_top g" "scroll_bottom g" fill] len by simp
  have check: "succeeds (check_invariants g') ?post" if "?post g'" for g'
    using that len check_invariants_frame [of g' "bump_row_id g"]
    by (auto simp: bump_row_id_def)
  have last: "visible_row_count g2 = scroll_bottom g"
    if "scroll_top g = 0" "scroll_bottom g = rows g - 1" "frame g1 = frame g"
      "contents g1 = rm_nth (scrollback_len g + 0) (contents g)" "g2 = bump_row_id g1" for g1 g2
  proof -
    have "length (cells g1) = length (cells g) - 1"
      using arg_cong [OF that(4), of length] len by simp
    then show ?thesis
      using that len frame_fields [OF that(3)] by (simp add: visible_row_count_def bump_row_id_def)
  qed
  have full: "succeeds (do { (_, g1) \<leftarrow> remove_visible_row 0 g;
       let (r, g2) = fresh_row_with_cells (replicate (cols g1) fill) g1;
       insert_visible_row (visible_row_count g2) r g2 }) ?post"
    if t: "scroll_top g = 0" and b: "scroll_bottom g = rows g - 1"
  proof -
    obtain r g1 where g1: "remove_visible_row 0 g = Some (r, g1)" "frame g1 = frame g"
      "contents g1 = rm_nth (scrollback_len g + 0) (contents g)"
      using remove_visible_row_spec [of g 0] len by (auto simp: succeeds_def)
    show ?thesis
      using move t last [OF t b g1(2,3) refl]
      by (simp add: g1(1) fresh_row_with_cells_eq bump_row_id_def [symmetric])
  qed
  have body: "succeeds (if scroll_top g = 0 \<and> scroll_bottom g = rows g - 1
      then do { (_, g1) \<leftarrow> remove_visible_row 0 g;
       let (r, g2) = fresh_row_with_cells (replicate (cols g1) fill) g1;
       insert_visible_row (visible_row_count g2) r g2 } else ?move) ?post"
    using move full by (simp del: succeeds_bind)
  have "scroll_up in_alt fill g = (if scroll_top g = 0 \<and> scroll_bottom g = rows g - 1
      then do { (_, g1) \<leftarrow> remove_visible_row 0 g;
       let (r, g2) = fresh_row_with_cells (replicate (cols g1) fill) g1;
       insert_visible_row (visible_row_count g2) r g2 } else ?move) \<bind> check_invariants"
    using assms(2) len by (auto simp: scroll_up_def usub_def Let_def)
  then show ?thesis
    using succeeds_bindI [OF body check] by (simp only:)
qed

text \<open>
  Scrolling the primary screen with the region at the top: the row that leaves the screen becomes
  the newest scrollback row, and only a full scrollback loses its oldest row.
\<close>

definition evict_oldest :: "Grid \<Rightarrow> bool" where
  "evict_oldest g \<longleftrightarrow> scrollback_limit g < scrollback_len g + 1"

definition grow_scrollback :: "Grid \<Rightarrow> Grid" where
  "grow_scrollback g =
     (if evict_oldest g then g\<lparr>pending_start := pending_start g - 1\<rparr>
      else g\<lparr>scrollback_len := scrollback_len g + 1\<rparr>)"

lemma evict_step:
  assumes "grid_inv g"
  shows "\<exists>g1. (let g1 = g\<lparr>scrollback_len := scrollback_len g + 1\<rparr> in
     if scrollback_limit g1 < scrollback_len g1
     then let g2 = snd (remove_row_at 0 g1); g3 = g2\<lparr>scrollback_len := scrollback_len g2 - 1\<rparr>
          in if 0 < pending_start g3 then g3\<lparr>pending_start := pending_start g3 - 1\<rparr> else g3
     else g1) = g1 \<and> frame g1 = frame (grow_scrollback g)
     \<and> contents g1 = (if evict_oldest g then tl (contents g) else contents g)"
proof (cases "evict_oldest g")
  case False
  then show ?thesis by (auto simp: grow_scrollback_def evict_oldest_def)
next
  case True
  let ?g = "g\<lparr>scrollback_len := scrollback_len g + 1\<rparr>"
  have "0 < length (cells ?g)" using grid_inv_lengths [OF assms] by simp
  from remove_row_at_spec [OF this] obtain r g2 where g2: "remove_row_at 0 ?g = (Some r, g2)"
    "frame g2 = frame ?g" "contents g2 = rm_nth 0 (contents ?g)" by blast
  then have "contents g2 = tl (contents g)" by (simp add: rm_nth_def drop_Suc)
  then show ?thesis
    using True g2 frame_fields [OF g2(2)]
    by (simp add: grow_scrollback_def evict_oldest_def frame_def Let_def)
qed

lemma scroll_up_history:
  assumes inv: "grid_inv g" and top: "scroll_top g = 0" and limit: "0 < scrollback_limit g"
  shows "succeeds (scroll_up False fill g) (\<lambda>g'. frame g' = frame (bump_row_id (grow_scrollback g))
     \<and> contents g' = (if evict_oldest g
         then ins_nth (scrollback_len g + scroll_bottom g) (blank_line fill g) (tl (contents g))
         else ins_nth (scrollback_len g + 1 + scroll_bottom g) (blank_line fill g) (contents g)))"
    (is "succeeds _ ?post")
proof -
  note len = grid_inv_lengths [OF inv]
  from evict_step [OF inv] obtain g1 where g1: "(let g1 = g\<lparr>scrollback_len := scrollback_len g + 1\<rparr> in
     if scrollback_limit g1 < scrollback_len g1
     then let g2 = snd (remove_row_at 0 g1); g3 = g2\<lparr>scrollback_len := scrollback_len g2 - 1\<rparr>
          in if 0 < pending_start g3 then g3\<lparr>pending_start := pending_start g3 - 1\<rparr> else g3
     else g1) = g1" and fr: "frame g1 = frame (grow_scrollback g)"
    and ct: "contents g1 = (if evict_oldest g then tl (contents g) else contents g)" by blast
  note ff = frame_fields [OF fr]
  define r where "r = assign_id (next_row_id g1) (row_from_cells (replicate (cols g1) fill))"
  have lc: "length (cells g1) = scrollback_len g1 + (rows g - 1)"
    using arg_cong [OF ct, of length] len ff(8)
    by (auto simp: grow_scrollback_def split: if_splits)
  have eq: "scroll_up False fill g =
      (if rows g - 1 \<le> scroll_bottom g then Some (push_back r (bump_row_id g1))
       else insert_visible_row (scroll_bottom g) r (bump_row_id g1)) \<bind> check_invariants"
    using top limit len g1
    by (simp add: scroll_up_def usub_def Let_def fresh_row_with_cells_eq bump_row_id_def r_def)
  have sr: "strip r = blank_line fill g"
    using ff by (simp add: r_def blank_line_def grow_scrollback_def)
  have fb: "frame (bump_row_id g1) = frame (bump_row_id (grow_scrollback g))"
    by (rule frame_bump_cong [OF fr])
  let ?mid = "\<lambda>g'. frame g' = frame (bump_row_id (grow_scrollback g))
     \<and> contents g' = ins_nth (scrollback_len g1 + scroll_bottom g) (blank_line fill g) (contents g1)"
  have mid: "succeeds (if rows g - 1 \<le> scroll_bottom g then Some (push_back r (bump_row_id g1))
       else insert_visible_row (scroll_bottom g) r (bump_row_id g1)) ?mid"
  proof (cases "rows g - 1 \<le> scroll_bottom g")
    case True
    then have "scrollback_len g1 + scroll_bottom g = length (contents g1)" using lc len by simp
    then show ?thesis
      using True fb sr by (simp add: push_back_def ins_nth_def contents_def)
  next
    case False
    then show ?thesis
      using insert_visible_row_spec [of "bump_row_id g1" "scroll_bottom g" r] lc len fb sr by simp
  qed
  have post: "succeeds (check_invariants g') ?post" if "?mid g'" for g'
  proof -
    have "check_invariants g' = Some g'"
      using that lc len ff fb
      by (intro check_invariants_frame [where g = "bump_row_id (grow_scrollback g)"])
        (auto simp: bump_row_id_def grow_scrollback_def evict_oldest_def)
    moreover have "?post g'"
      using that ff(8) ct by (simp add: grow_scrollback_def split: if_splits)
    ultimately show ?thesis by simp
  qed
  show ?thesis
    unfolding eq by (rule succeeds_bindI [OF mid post])
qed

lemma scroll_down_spec:
  assumes inv: "grid_inv g"
  shows "succeeds (scroll_down fill g) (\<lambda>g'. frame g' = frame (bump_row_id g)
     \<and> contents g' = ins_nth (scrollback_len g + scroll_top g) (blank_line fill g)
                       (rm_nth (scrollback_len g + scroll_bottom g) (contents g)))"
    (is "succeeds _ ?post")
proof -
  note len = grid_inv_lengths [OF inv]
  have move: "succeeds (do { (_, g1) \<leftarrow> remove_visible_row (scroll_bottom g) g;
       let (r, g2) = fresh_row_with_cells (replicate (cols g1) fill) g1;
       insert_visible_row (scroll_top g) r g2 }) ?post"
    using move_line_spec [OF inv, of "scroll_bottom g" "scroll_top g" fill] len by simp
  have check: "succeeds (check_invariants g') ?post" if "?post g'" for g'
    using that len check_invariants_frame [of g' "bump_row_id g"]
    by (auto simp: bump_row_id_def)
  have "scroll_down fill g = (do { (_, g1) \<leftarrow> remove_visible_row (scroll_bottom g) g;
       let (r, g2) = fresh_row_with_cells (replicate (cols g1) fill) g1;
       insert_visible_row (scroll_top g) r g2 }) \<bind> check_invariants"
    using len by (simp add: scroll_down_def usub_def)
  then show ?thesis
    using succeeds_bindI [OF move check] by (simp only:)
qed

lemma clear_scrollback_spec:
  assumes "grid_inv g"
  shows "succeeds (clear_scrollback g) (\<lambda>g'. frame g' = frame (g\<lparr>scrollback_len := 0, pending_start := 0\<rparr>)
     \<and> contents g' = drop (scrollback_len g) (contents g))"
proof -
  define g1 where "g1 = sever_ids (set (List.map_filter row_id (take (scrollback_len g) (cells g)))) g"
  have same: "same_content g g1" by (simp add: g1_def sever_ids_same)
  note len = grid_inv_lengths [OF assms] and f = upd_ok_fields [OF same]
  have "contents g1 = contents g" using same by (simp add: same_content_iff)
  moreover have "clear_scrollback g = check_invariants (g1\<lparr>cells := drop (scrollback_len g1) (cells g1),
      scrollback_len := 0, pending_start := 0\<rparr>)"
    using len f by (simp add: clear_scrollback_def g1_def [symmetric] usub_def Let_def)
  moreover have "frame g1 = frame g" using same by (simp add: upd_ok_def)
  ultimately show ?thesis
    using len f by (simp add: contents_def drop_map flip: drop_map) (simp add: frame_def)
qed

subsection \<open>Every row operation keeps the invariant and the geometry\<close>

definition keeps :: "Grid \<Rightarrow> Grid \<Rightarrow> bool" where
  "keeps g g' \<longleftrightarrow> grid_inv g' \<and> cols g' = cols g \<and> rows g' = rows g
     \<and> cursor_x g' = cursor_x g \<and> cursor_y g' = cursor_y g
     \<and> scroll_top g' = scroll_top g \<and> scroll_bottom g' = scroll_bottom g \<and> modes g' = modes g
     \<and> scrollback_limit g' = scrollback_limit g
     \<and> scrollback_len g' \<le> max (scrollback_len g) (scrollback_limit g)"

lemma keeps_refl: "grid_inv g \<Longrightarrow> keeps g g"
  by (simp add: keeps_def)

lemma keeps_trans: "keeps g1 g2 \<Longrightarrow> keeps g2 g3 \<Longrightarrow> keeps g1 g3"
  by (auto simp: keeps_def)

lemma keeps_inv: "keeps g g' \<Longrightarrow> grid_inv g'"
  by (simp add: keeps_def)

lemma geom_keeps: "grid_inv g \<Longrightarrow> geom_eq g g' \<Longrightarrow> keeps g g'"
  using upd_ok_fields [of row_len g g'] by (simp add: keeps_def geom_eq_inv)

lemma succeeds_keepsI: "grid_inv g \<Longrightarrow> succeeds m (geom_eq g) \<Longrightarrow> succeeds m (keeps g)"
  by (blast intro: succeeds_mono geom_keeps)

lemma keeps_bind:
  assumes "succeeds m (keeps g)" and "\<And>g1. keeps g g1 \<Longrightarrow> succeeds (h g1) (keeps g1)"
  shows "succeeds (m \<bind> h) (keeps g)"
  using assms(1) by (auto intro: keeps_trans succeeds_mono dest: assms(2))

lemma visible_ok_move:
  assumes "visible_ok n c S" "n + a < length S" "n + b < length S" "length (fst x) = c"
  shows "visible_ok n c (ins_nth (n + b) x (rm_nth (n + a) S))"
  using assms
  by (auto simp: visible_ok_def drop_ins_nth drop_rm_nth intro!: list_all_ins_nth list_all_rm_nth)

lemma visible_ok_ins:
  assumes "visible_ok n c S" "n + b \<le> length S" "length (fst x) = c"
  shows "visible_ok n c (ins_nth (n + b) x S)"
  using assms by (auto simp: visible_ok_def drop_ins_nth intro!: list_all_ins_nth)

lemma visible_ok_Suc: "visible_ok n c S \<Longrightarrow> visible_ok (Suc n) c S"
  unfolding visible_ok_def by (metis drop_Suc list_all_drop drop_drop plus_1_eq_Suc)

lemma visible_ok_tl: "visible_ok (Suc n) c S \<Longrightarrow> visible_ok n c (tl S)"
  by (simp add: visible_ok_def drop_Suc)

lemma keeps_moved:
  assumes inv: "grid_inv g" and ab: "a < rows g" "b < rows g"
    and f: "frame g' = frame (bump_row_id g)"
    and c: "contents g' = ins_nth (scrollback_len g + b) (blank_line fill g) (rm_nth (scrollback_len g + a) (contents g))"
  shows "keeps g g'"
proof -
  note ff = frame_fields [OF f] and len = grid_inv_lengths [OF inv]
  have "visible_ok (scrollback_len g) (cols g) (contents g')"
    unfolding c using inv ab len by (intro visible_ok_move) (auto simp: grid_inv_split blank_line_def)
  moreover have "length (contents g') = scrollback_len g + rows g"
    unfolding c using ab len by simp
  ultimately have "grid_inv g'"
    using inv ff by (simp add: grid_inv_split frame_ok_def bump_row_id_def)
  then show ?thesis
    using ff by (simp add: keeps_def bump_row_id_def)
qed

lemma scroll_up_history_keeps:
  assumes inv: "grid_inv g"
    and f: "frame g' = frame (bump_row_id (grow_scrollback g))"
    and c: "contents g' = (if evict_oldest g
         then ins_nth (scrollback_len g + scroll_bottom g) (blank_line fill g) (tl (contents g))
         else ins_nth (scrollback_len g + 1 + scroll_bottom g) (blank_line fill g) (contents g))"
  shows "keeps g g'"
proof -
  note ff = frame_fields [OF f] and len = grid_inv_lengths [OF inv]
  have v: "visible_ok (scrollback_len g) (cols g) (contents g)" using inv by (simp add: grid_inv_split)
  have "visible_ok (scrollback_len g') (cols g) (contents g')"
  proof (cases "evict_oldest g")
    case True
    have "visible_ok (scrollback_len g) (cols g) (tl (contents g))"
      by (intro visible_ok_tl visible_ok_Suc v)
    then show ?thesis
      using True len ff by (simp add: c bump_row_id_def grow_scrollback_def blank_line_def visible_ok_ins)
  next
    case False
    then show ?thesis
      using len ff visible_ok_ins [OF visible_ok_Suc [OF v], of "scroll_bottom g"]
      by (simp add: c bump_row_id_def grow_scrollback_def blank_line_def)
  qed
  moreover have "length (contents g') = scrollback_len g' + rows g"
    unfolding c ff using len by (auto simp: bump_row_id_def grow_scrollback_def)
  ultimately have "grid_inv g'"
    using inv ff by (auto simp: grid_inv_split frame_ok_def bump_row_id_def grow_scrollback_def)
  then show ?thesis
    using ff by (auto simp: keeps_def bump_row_id_def grow_scrollback_def evict_oldest_def)
qed

lemma scroll_up_keeps: "grid_inv g \<Longrightarrow> succeeds (scroll_up in_alt fill g) (keeps g)"
proof (cases "in_alt \<or> 0 < scroll_top g \<or> scrollback_limit g = 0")
  case True
  assume inv: "grid_inv g"
  show ?thesis
    using grid_inv_lengths [OF inv] succeeds_mono [OF scroll_up_region [OF inv True, of fill]]
      keeps_moved [OF inv, of "scroll_top g" "scroll_bottom g" _ fill] by simp
next
  case False
  assume inv: "grid_inv g"
  then show ?thesis
    using scroll_up_history [OF inv, of fill] False
    by (auto elim!: succeeds_mono intro!: scroll_up_history_keeps [OF inv])
qed

lemma scroll_down_keeps: "grid_inv g \<Longrightarrow> succeeds (scroll_down fill g) (keeps g)"
proof -
  assume inv: "grid_inv g"
  show ?thesis
    using grid_inv_lengths [OF inv] succeeds_mono [OF scroll_down_spec [OF inv, of fill]]
      keeps_moved [OF inv, of "scroll_bottom g" "scroll_top g" _ fill] by simp
qed

lemma clear_scrollback_keeps: "grid_inv g \<Longrightarrow> succeeds (clear_scrollback g) (keeps g)"
proof -
  assume inv: "grid_inv g"
  have "keeps g g'" if f: "frame g' = frame (g\<lparr>scrollback_len := 0, pending_start := 0\<rparr>)"
    and c: "contents g' = drop (scrollback_len g) (contents g)" for g'
    using inv frame_fields [OF f] c
    by (simp add: keeps_def grid_inv_split frame_ok_def visible_ok_def)
  then show ?thesis
    using clear_scrollback_spec [OF inv] by (auto elim: succeeds_mono)
qed

lemma delete_line_step_keeps:
  "grid_inv g \<Longrightarrow> y < rows g \<Longrightarrow> b < rows g \<Longrightarrow> succeeds (delete_line_step y b blank g) (keeps g)"
  using move_line_spec [of g y b blank] keeps_moved [of g y b _ blank] keeps_refl [of g]
  by (auto simp: delete_line_step_def elim!: succeeds_mono)

lemma insert_line_step_keeps:
  "grid_inv g \<Longrightarrow> y < rows g \<Longrightarrow> b < rows g \<Longrightarrow> succeeds (insert_line_step y b blank g) (keeps g)"
  using move_line_spec [of g b y blank] keeps_moved [of g b y _ blank] keeps_refl [of g]
  by (auto simp: insert_line_step_def elim!: succeeds_mono)

end
