(* ===== verification/Grid_Resize.thy ===== *)
theory Grid_Resize
  imports Grid_Scroll
begin

text \<open>
  Resizing and the alternate screen at the level of the grid: what \<open>grid_resize\<close> and
  \<open>resize_grid\<close> do to the rows of the unified buffer and to the cursor, and that the grid they
  return satisfies \<open>grid_inv\<close> whatever geometry the caller asks for.
\<close>

subsection \<open>Popping and pushing rows at the bottom\<close>

lemma sever_pop_back_spec:
  "frame (sever_pop_back g) = frame g" "contents (sever_pop_back g) = butlast (contents g)"
  using sever_opt_same [of g "cells_back (cells g)"]
  by (simp_all add: sever_pop_back_def Let_def same_content_iff map_butlast flip: contents_def)

lemma pop_rows:
  "frame ((sever_pop_back ^^ k) g) = frame g"
  "contents ((sever_pop_back ^^ k) g) = take (length (cells g) - k) (contents g)"
proof -
  show "frame ((sever_pop_back ^^ k) g) = frame g"
    by (induction k) (simp_all add: sever_pop_back_spec)
  show "contents ((sever_pop_back ^^ k) g) = take (length (cells g) - k) (contents g)"
    by (induction k) (simp_all add: sever_pop_back_spec butlast_take flip: length_contents)
qed

definition blank_contents :: "nat \<Rightarrow> (Cell list \<times> (nat \<times> rchar list) list \<times> nat option) list \<Rightarrow> bool" where
  "blank_contents c bs \<longleftrightarrow> list_all (\<lambda>s. fst s = replicate c cell_default \<and> fst (snd s) = []) bs"

definition frame_but_ids :: "Grid \<Rightarrow> Grid \<Rightarrow> bool" where
  "frame_but_ids g g' \<longleftrightarrow> frame g' = frame (g\<lparr>next_row_id := next_row_id g'\<rparr>)"

lemma frame_but_ids_refl [simp]: "frame_but_ids g g"
  by (simp add: frame_but_ids_def)

lemma frame_but_ids_trans: "frame_but_ids g1 g2 \<Longrightarrow> frame_but_ids g2 g3 \<Longrightarrow> frame_but_ids g1 g3"
  by (auto simp: frame_but_ids_def frame_def)

lemma frame_but_ids_fields:
  assumes "frame_but_ids g g'"
  shows "cols g' = cols g" "rows g' = rows g" "cursor_x g' = cursor_x g" "cursor_y g' = cursor_y g"
    "scroll_top g' = scroll_top g" "scroll_bottom g' = scroll_bottom g" "tab_stops g' = tab_stops g"
    "scrollback_len g' = scrollback_len g" "scrollback_limit g' = scrollback_limit g"
    "pending_start g' = pending_start g" "style_table g' = style_table g" "modes g' = modes g"
    "in_alt_domain g' = in_alt_domain g"
    "logical_shadow g' = logical_shadow g" "cursor_visible g' = cursor_visible g"
  using assms by (auto simp: frame_but_ids_def frame_def)

lemma push_fresh_blank_spec:
  "frame_but_ids g (push_fresh_blank c g)"
  "contents (push_fresh_blank c g) = contents g @ [(replicate c cell_default, [], next_row_id g)]"
  by (simp_all add: push_fresh_blank_def fresh_blank_row_def take_id_def push_back_def
      frame_but_ids_def frame_def contents_def)

lemma push_rows:
  "frame_but_ids g ((push_fresh_blank c ^^ k) g)
   \<and> (\<exists>bs. contents ((push_fresh_blank c ^^ k) g) = contents g @ bs \<and> length bs = k \<and> blank_contents c bs)"
proof (induction k)
  case 0
  then show ?case by (simp add: blank_contents_def)
next
  case (Suc k)
  then obtain bs where "contents ((push_fresh_blank c ^^ k) g) = contents g @ bs" "length bs = k"
    "blank_contents c bs" "frame_but_ids g ((push_fresh_blank c ^^ k) g)" by blast
  then show ?case
    by (auto simp: push_fresh_blank_spec blank_contents_def intro: frame_but_ids_trans)
qed

subsection \<open>Resizing rows\<close>

lemma mapM_list_all2:
  "(\<And>x. x \<in> set xs \<Longrightarrow> succeeds (f x) (Q x)) \<Longrightarrow> succeeds (mapM f xs) (\<lambda>ys. list_all2 Q xs ys)"
proof (induction xs)
  case Nil
  then show ?case by simp
next
  case (Cons x xs)
  then have "succeeds (f x) (Q x)" "succeeds (mapM f xs) (\<lambda>ys. list_all2 Q xs ys)" by simp_all
  then show ?case by (auto simp: succeeds_def)
qed

definition row_fit :: "nat \<Rightarrow> Row \<Rightarrow> Row \<Rightarrow> bool" where
  "row_fit n r r' \<longleftrightarrow> row_len r' = n \<and> row_id r' = row_id r \<and> (row_len r = n \<longrightarrow> strip r' = strip r)"

lemma fit_row_spec: "succeeds (fit_row n r) (row_fit n r)"
proof -
  have "succeeds (fix_wide_char_orphan_at_boundary n r) (\<lambda>r'. row_id r' = row_id r \<and> (row_len r = n \<longrightarrow> r' = r))"
    by (auto simp: fix_wide_char_orphan_at_boundary_def row_len_def)
  then show ?thesis
    by (auto simp: fit_row_def row_fit_def row_resize_def row_len_def strip_def vresize_def Let_def elim!: succeeds_mono)
qed

lemma resize_row_spec: "succeeds (resize_row n r) (row_fit n r)"
proof -
  let ?r = "if row_len r \<noteq> n then advance_revision (r\<lparr>outgoing := None\<rparr>) else r"
  have s: "strip ?r = strip r" "row_id ?r = row_id r" "row_len ?r = row_len r"
    by (simp_all add: advance_revision_def row_len_def strip_def)
  have "resize_row n r = fit_row n ?r"
    by (simp add: resize_row_def fit_row_def)
  then show ?thesis
    using fit_row_spec [of n ?r] s by (auto simp: row_fit_def elim!: succeeds_mono)
qed

subsection \<open>\<open>grid_resize\<close>\<close>

text \<open>The number of buffer rows that survive a resize to \<open>r\<close> visible rows.\<close>

definition kept_rows :: "nat \<Rightarrow> Grid \<Rightarrow> nat" where
  "kept_rows r g = scrollback_len g + min (length (cells g) - scrollback_len g) r"

definition resized :: "nat \<Rightarrow> nat \<Rightarrow> Grid \<Rightarrow> Grid \<Rightarrow> bool" where
  "resized c r g g' \<longleftrightarrow> grid_inv g' \<and> cols g' = c \<and> rows g' = r
     \<and> scrollback_len g' = scrollback_len g \<and> scrollback_limit g' = scrollback_limit g
     \<and> pending_start g' = pending_start g \<and> style_table g' = style_table g \<and> modes g' = modes g
     \<and> cursor_x g' = min (cursor_x g) (c - 1) \<and> cursor_y g' = min (cursor_y g) (r - 1)
     \<and> take (scrollback_len g) (contents g') = take (scrollback_len g) (contents g)
     \<and> map (snd \<circ> snd) (take (kept_rows r g) (contents g')) = map (snd \<circ> snd) (take (kept_rows r g) (contents g))
     \<and> (visible_ok (scrollback_len g) c (contents g)
          \<longrightarrow> take (kept_rows r g) (contents g') = take (kept_rows r g) (contents g))"

text \<open>First half: the number of visible rows is made \<open>r\<close>.\<close>

definition row_count_fitted :: "nat \<Rightarrow> nat \<Rightarrow> Grid \<Rightarrow> Grid \<Rightarrow> bool" where
  "row_count_fitted c r g g' \<longleftrightarrow> frame_but_ids g g' \<and> length (contents g') = scrollback_len g + r
     \<and> take (kept_rows r g) (contents g') = take (kept_rows r g) (contents g)
     \<and> (visible_ok (scrollback_len g) c (contents g) \<longrightarrow> visible_ok (scrollback_len g) c (contents g'))"

lemma fit_row_count_spec:
  assumes "scrollback_len g \<le> length (cells g)"
  shows "succeeds (fit_row_count c r g) (row_count_fitted c r g)"
proof -
  let ?v = "length (cells g) - scrollback_len g"
  obtain bs where bs: "contents ((push_fresh_blank c ^^ (r - ?v)) g) = contents g @ bs" "length bs = r - ?v"
    "blank_contents c bs" "frame_but_ids g ((push_fresh_blank c ^^ (r - ?v)) g)"
    using push_rows [of g "r - ?v" c] by blast
  have lc: "length (contents g) = length (cells g)" by (rule length_contents)
  have pop: "row_count_fitted c r g ((sever_pop_back ^^ (?v - r)) g)" if "r < ?v"
  proof -
    have "frame_but_ids g ((sever_pop_back ^^ (?v - r)) g)"
      using frame_fields(13) [OF pop_rows(1) [of "?v - r" g]] pop_rows(1) [of "?v - r" g]
      by (simp add: frame_but_ids_def)
    then show ?thesis
      unfolding row_count_fitted_def pop_rows(2)
      using that assms lc by (auto simp: kept_rows_def min_def visible_ok_def drop_take list_all_take)
  qed
  have push: "row_count_fitted c r g ((push_fresh_blank c ^^ (r - ?v)) g)" if "?v < r"
    unfolding row_count_fitted_def bs(1)
    using that assms bs lc
    by (auto simp: kept_rows_def visible_ok_def blank_contents_def elim: list.pred_mono_strong)
  have keep: "row_count_fitted c r g g" if "?v = r"
    using that assms by (simp add: row_count_fitted_def)
  show ?thesis
    using assms pop push keep by (auto simp: fit_row_count_def nat_neq_iff)
qed

text \<open>Second half: every visible row is given \<open>c\<close> cells.\<close>

lemma resize_visible_spec:
  assumes "scrollback_len g \<le> length (cells g)"
  shows "succeeds (mapM (resize_row c) (drop (scrollback_len g) (cells g)))
    (\<lambda>vis. length vis = length (cells g) - scrollback_len g \<and> list_all (\<lambda>r. row_len r = c) vis
       \<and> map row_id vis = map row_id (drop (scrollback_len g) (cells g))
       \<and> (visible_ok (scrollback_len g) c (contents g) \<longrightarrow> map strip vis = drop (scrollback_len g) (contents g)))"
proof (rule succeeds_mono [OF mapM_list_all2 [where Q = "row_fit c"]])
  fix vis
  let ?old = "drop (scrollback_len g) (cells g)"
  assume fit: "list_all2 (row_fit c) ?old vis"
  then have len: "length vis = length ?old" by (metis list_all2_lengthD)
  have nth: "row_fit c (?old ! i) (vis ! i)" if "i < length vis" for i
    using fit that len by (simp add: list_all2_conv_all_nth)
  have "map strip vis = drop (scrollback_len g) (contents g)" if v: "visible_ok (scrollback_len g) c (contents g)"
  proof (rule nth_equalityI)
    fix i assume i: "i < length (map strip vis)"
    then have "row_len (?old ! i) = c"
      using v len by (simp add: visible_ok_contents list_all_length)
    then show "map strip vis ! i = drop (scrollback_len g) (contents g) ! i"
      using nth [of i] i len by (simp add: row_fit_def contents_def)
  qed (use len in simp)
  moreover have "map row_id vis = map row_id ?old"
    using nth len by (intro nth_equalityI) (simp_all add: row_fit_def)
  ultimately show "length vis = length (cells g) - scrollback_len g \<and> list_all (\<lambda>r. row_len r = c) vis
       \<and> map row_id vis = map row_id ?old
       \<and> (visible_ok (scrollback_len g) c (contents g) \<longrightarrow> map strip vis = drop (scrollback_len g) (contents g))"
    using nth len by (auto simp: list_all_length row_fit_def)
qed (rule resize_row_spec)

text \<open>Third part: cursor clamping and provenance, which leave the rows alone.\<close>

lemma same_content_invalidate: "same_content g (invalidate_pending_for_geometry why g)"
  by (simp add: invalidate_pending_for_geometry_def Let_def same_content_iff)

lemma settle_resize_same: "same_content g (settle_resize w g)"
  using same_content_invalidate [of g "LiveResize w"]
    validate_all_edges_same [of "invalidate_pending_for_geometry (LiveResize w) g"]
  by (cases w) (simp_all add: settle_resize_def Let_def same_content_iff)

lemma map_id_snd: "map (snd \<circ> snd) (contents g) = map row_id (cells g)"
  by (simp add: contents_def strip_def o_def)

lemma grid_resize_unfold:
  assumes "1 \<le> c" "1 \<le> r"
  shows "grid_resize c r g = fit_row_count c r (g\<lparr>cols := c, rows := r\<rparr>) \<bind> (\<lambda>g1.
     mapM (resize_row c) (drop (scrollback_len g1) (cells g1)) \<bind> (\<lambda>vis.
     let g2 = validate_all_edges (g1\<lparr>cells := take (scrollback_len g1) (cells g1) @ vis\<rparr>);
         g3 = settle_resize (cols g \<noteq> c) (g2\<lparr>cursor_x := min (cursor_x g2) (c - 1), cursor_y := min (cursor_y g2) (r - 1)\<rparr>)
     in check_invariants (g3\<lparr>scroll_top := 0, scroll_bottom := r - 1, tab_stops := default_tab_stops c\<rparr>)))"
proof -
  have m: "(if (n::nat) \<le> x then Some (n - 1) else Some x) = Some (min x (n - 1))" if "1 \<le> n" for n x
    using that by (auto simp: min_def)
  have "sanitize_dimensions c r = (c, r)" "sub16 r 1 = Some (r - 1)" "sub16 c 1 = Some (c - 1)"
    using assms by (simp_all add: sanitize_dimensions_def max_def sub16_def)
  then show ?thesis
    unfolding grid_resize_def by (simp only: Let_def prod.case m [OF assms(1)] m [OF assms(2)] Option.bind.simps)
qed

lemma length_default_tab_stops [simp]: "length (default_tab_stops n) = n"
  by (simp add: default_tab_stops_def)

text \<open>The rows after the resize, from the rows of the buffer whose count was fitted.\<close>

lemma resized_rows:
  assumes vis: "length vis = length C - n" "list_all (\<lambda>r. row_len r = c) vis" "n \<le> k" "n \<le> length C"
      "map row_id vis = map (snd \<circ> snd) (drop n C)"
      "visible_ok n c C \<longrightarrow> map strip vis = drop n C"
    and D: "D = take n C @ map strip vis"
  shows "visible_ok n c D" "length D = length C" "take n D = take n C"
    "map (snd \<circ> snd) (take k D) = map (snd \<circ> snd) (take k C)" "visible_ok n c C \<longrightarrow> take k D = take k C"
proof -
  show "visible_ok n c D"
    using vis(1,2,4) D by (auto simp: visible_ok_def list_all_iff row_len_strip)
  show "length D = length C" "take n D = take n C" using vis D by simp_all
  have "map (snd \<circ> snd) D = map (snd \<circ> snd) (take n C) @ map (snd \<circ> snd) (drop n C)"
    using vis(5) by (simp add: D strip_def o_def)
  also have "\<dots> = map (snd \<circ> snd) C" by (simp flip: map_append)
  finally show "map (snd \<circ> snd) (take k D) = map (snd \<circ> snd) (take k C)" by (simp flip: take_map)
  show "visible_ok n c C \<longrightarrow> take k D = take k C" using vis(6) D by auto
qed

lemma grid_resize_tail:
  assumes sb: "pending_start g \<le> scrollback_len g"
    and t: "table_inv (style_table g)" and c: "1 \<le> c" "c \<le> U16_MAX" and r: "1 \<le> r" "r \<le> U16_MAX"
    and g1: "row_count_fitted c r (g\<lparr>cols := c, rows := r\<rparr>) g1"
  shows "succeeds (mapM (resize_row c) (drop (scrollback_len g1) (cells g1)) \<bind> (\<lambda>vis.
     let g2 = validate_all_edges (g1\<lparr>cells := take (scrollback_len g1) (cells g1) @ vis\<rparr>);
         g3 = settle_resize (cols g \<noteq> c) (g2\<lparr>cursor_x := min (cursor_x g2) (c - 1), cursor_y := min (cursor_y g2) (r - 1)\<rparr>)
     in check_invariants (g3\<lparr>scroll_top := 0, scroll_bottom := r - 1, tab_stops := default_tab_stops c\<rparr>))) (resized c r g)"
proof -
  have fit: "frame_but_ids (g\<lparr>cols := c, rows := r\<rparr>) g1" "length (contents g1) = scrollback_len g + r"
    "take (kept_rows r g) (contents g1) = take (kept_rows r g) (contents g)"
    "visible_ok (scrollback_len g) c (contents g) \<Longrightarrow> visible_ok (scrollback_len g) c (contents g1)"
    using g1 by (simp_all add: row_count_fitted_def kept_rows_def)
  note f1 = frame_but_ids_fields [OF fit(1)]
  have n1: "scrollback_len g1 = scrollback_len g" using f1 by simp
  have kr: "scrollback_len g \<le> kept_rows r g" by (simp add: kept_rows_def)
  have tn: "take (scrollback_len g) (contents g1) = take (scrollback_len g) (contents g)"
    using arg_cong [OF fit(3), of "take (scrollback_len g)"] kr by (simp add: min_absorb1)
  have fin: "succeeds (let g2 = validate_all_edges (g1\<lparr>cells := take (scrollback_len g1) (cells g1) @ vis\<rparr>);
         g3 = settle_resize (cols g \<noteq> c) (g2\<lparr>cursor_x := min (cursor_x g2) (c - 1), cursor_y := min (cursor_y g2) (r - 1)\<rparr>)
     in check_invariants (g3\<lparr>scroll_top := 0, scroll_bottom := r - 1, tab_stops := default_tab_stops c\<rparr>)) (resized c r g)"
    if v: "length vis = length (cells g1) - scrollback_len g1 \<and> list_all (\<lambda>r. row_len r = c) vis
       \<and> map row_id vis = map row_id (drop (scrollback_len g1) (cells g1))
       \<and> (visible_ok (scrollback_len g1) c (contents g1) \<longrightarrow> map strip vis = drop (scrollback_len g1) (contents g1))" for vis
  proof -
    define g2 where "g2 = validate_all_edges (g1\<lparr>cells := take (scrollback_len g1) (cells g1) @ vis\<rparr>)"
    define g3 where "g3 = settle_resize (cols g \<noteq> c)
      (g2\<lparr>cursor_x := min (cursor_x g2) (c - 1), cursor_y := min (cursor_y g2) (r - 1)\<rparr>)"
    have f2: "frame g2 = frame g1" and c2: "contents g2 = take (scrollback_len g) (contents g1) @ map strip vis"
      using validate_all_edges_same [of "g1\<lparr>cells := take (scrollback_len g1) (cells g1) @ vis\<rparr>"] n1
      by (simp_all add: g2_def same_content_iff) (simp add: contents_def take_map)
    have f3: "frame g3 = frame (g2\<lparr>cursor_x := min (cursor_x g2) (c - 1), cursor_y := min (cursor_y g2) (r - 1)\<rparr>)"
      and c3: "contents g3 = contents g2"
      using settle_resize_same [of "g2\<lparr>cursor_x := min (cursor_x g2) (c - 1), cursor_y := min (cursor_y g2) (r - 1)\<rparr>" "cols g \<noteq> c"]
      by (simp_all add: g3_def same_content_iff)
    note ff = frame_fields [OF f3] frame_fields [OF f2] f1
    have ids: "map row_id vis = map (snd \<circ> snd) (drop (scrollback_len g) (contents g1))"
      using v n1 by (simp add: drop_map flip: map_id_snd) (simp add: contents_def drop_map strip_def)
    note rr = resized_rows [of vis "contents g1" "scrollback_len g" c "kept_rows r g" "contents g3", unfolded c3 c2, OF _ _ kr _ ids]
    have rows': "visible_ok (scrollback_len g) c (contents g3)" "length (contents g3) = scrollback_len g + r"
      "take (scrollback_len g) (contents g3) = take (scrollback_len g) (contents g)"
      "map (snd \<circ> snd) (take (kept_rows r g) (contents g3)) = map (snd \<circ> snd) (take (kept_rows r g) (contents g))"
      "visible_ok (scrollback_len g) c (contents g) \<longrightarrow> take (kept_rows r g) (contents g3) = take (kept_rows r g) (contents g)"
      unfolding c3 c2 using rr v n1 fit tn by auto
    let ?g = "g3\<lparr>scroll_top := 0, scroll_bottom := r - 1, tab_stops := default_tab_stops c\<rparr>"
    have "grid_inv ?g"
      using rows' ff sb t c r by (simp add: grid_inv_split frame_ok_def min_less_iff_disj)
    then have "resized c r g ?g" "check_invariants ?g = Some ?g"
      using grid_inv_lengths(1,2) [of ?g] by (simp_all add: resized_def check_invariants_def rows' ff)
    then show ?thesis unfolding Let_def g2_def [symmetric] g3_def [symmetric] by simp
  qed
  show ?thesis
    using fit(2) n1 by (intro succeeds_bindI [OF resize_visible_spec fin]) simp_all
qed

lemma grid_resize_spec:
  assumes "scrollback_len g \<le> length (cells g)" "pending_start g \<le> scrollback_len g"
    and "table_inv (style_table g)" and c: "1 \<le> c" "c \<le> U16_MAX" and r: "1 \<le> r" "r \<le> U16_MAX"
  shows "succeeds (grid_resize c r g) (resized c r g)"
  unfolding grid_resize_unfold [OF c(1) r(1)]
  using assms
  by (intro succeeds_bindI [OF fit_row_count_spec grid_resize_tail]) simp_all

subsection \<open>Vertical shrinking: blank rows first, then the scrollback\<close>

lemma sever_pop_back_len [simp]:
  "length (cells (sever_pop_back g)) = length (cells g) - 1"
  using arg_cong [OF sever_pop_back_spec(2) [of g], of length] by simp

text \<open>Chopping removes only rows below the cursor whose cells are all blank.\<close>

definition blank_at :: "Grid \<Rightarrow> nat \<Rightarrow> bool" where
  "blank_at g i \<longleftrightarrow> list_all (\<lambda>c. ch c = SP \<or> ch c = NUL) (fst (contents g ! i))"

definition chopped :: "Grid \<Rightarrow> nat \<Rightarrow> nat \<times> Grid \<Rightarrow> bool" where
  "chopped g n kg \<longleftrightarrow> fst kg \<le> n \<and> frame (snd kg) = frame g
     \<and> contents (snd kg) = take (length (cells g) - fst kg) (contents g)
     \<and> scrollback_len g + cursor_y g < length (cells g) - fst kg
     \<and> (\<forall>i. length (cells g) - fst kg \<le> i \<and> i < length (cells g) \<longrightarrow> blank_at g i)"

lemma chopped_Suc:
  assumes ne: "cells g \<noteq> []" and blank: "chop_blank g (last (cells g))"
    and ch: "chopped (sever_pop_back g) n (k, g')"
  shows "chopped g (Suc n) (Suc k, g')"
proof -
  note pb = sever_pop_back_spec [of g] and ff = frame_fields [OF sever_pop_back_spec(1) [of g]]
  have bl: "blank_at g (length (cells g) - 1)"
    using blank ne
    by (auto simp: blank_at_def chop_blank_def contents_def last_conv_nth strip_def list_all_length nth_enumerate_eq)
  have "blank_at g i" if "length (cells g) - Suc k \<le> i" "i < length (cells g)" for i
  proof (cases "i = length (cells g) - 1")
    case False
    with that have i: "i < length (cells g) - 1" by simp
    with that ch have "blank_at (sever_pop_back g) i" by (simp add: chopped_def)
    then show ?thesis using i pb by (simp add: blank_at_def nth_butlast)
  qed (use bl in simp)
  then show ?thesis
    using ch pb ff by (auto simp: chopped_def take_butlast)
qed

lemma chop_spec:
  assumes "scrollback_len g + cursor_y g < length (cells g)" "length (cells g) \<le> scrollback_len g + U16_MAX"
  shows "succeeds (chop_blank_bottom_rows n g) (chopped g n)"
  using assms
proof (induction n arbitrary: g)
  case 0
  then show ?case by (auto simp: chopped_def)
next
  case (Suc n)
  let ?v = "length (cells g) - scrollback_len g"
  note ff = frame_fields [OF sever_pop_back_spec(1) [of g]]
  have v: "usub (length (cells g)) (scrollback_len g) = Some ?v"
      "as_u16 (length (cells g) - Suc (scrollback_len g)) = length (cells g) - Suc (scrollback_len g)"
    using Suc.prems by (simp_all add: usub_def)
  show ?case
  proof (cases "?v - 1 \<le> cursor_y g \<or> \<not> chop_blank g (last (cells g))")
    case True
    then have "chop_blank_bottom_rows (Suc n) g = Some (0, g)" by (auto simp: v)
    then show ?thesis using Suc.prems by (auto simp: chopped_def)
  next
    case False
    have "succeeds (chop_blank_bottom_rows n (sever_pop_back g)) (chopped (sever_pop_back g) n)"
      using Suc.prems False ff by (intro Suc.IH) auto
    moreover have "cells g \<noteq> []" using Suc.prems(1) by auto
    ultimately show ?thesis
      using False v by (auto simp: intro: chopped_Suc elim!: succeeds_mono)
  qed
qed

text \<open>Pushing moves the boundary between scrollback and screen; only a full scrollback drops rows.\<close>

definition pushed :: "Grid \<Rightarrow> nat \<Rightarrow> Grid \<Rightarrow> bool" where
  "pushed g n g' \<longleftrightarrow> (\<exists>e ps. frame g' = frame (g\<lparr>scrollback_len := scrollback_len g + n - e, pending_start := ps\<rparr>)
     \<and> e \<le> n \<and> contents g' = drop e (contents g) \<and> ps \<le> scrollback_len g + n - e
     \<and> (scrollback_len g + n \<le> scrollback_limit g \<longrightarrow> e = 0)
     \<and> scrollback_len g + n - e \<le> max (scrollback_len g) (scrollback_limit g))"

lemma push_step:
  assumes "scrollback_len g < length (cells g)" "pending_start g \<le> scrollback_len g"
  shows "pushed g 1 (let g = g\<lparr>scrollback_len := scrollback_len g + 1\<rparr>
      in if scrollback_limit g < scrollback_len g
         then let g = sever_opt (cells_front (cells g)) g;
                  g = g\<lparr>cells := tl (cells g), scrollback_len := scrollback_len g - 1\<rparr>
              in if 0 < pending_start g then g\<lparr>pending_start := pending_start g - 1\<rparr> else g
         else g)"
proof (cases "scrollback_limit g < scrollback_len g + 1")
  case False
  show ?thesis
    unfolding pushed_def
    by (insert assms(2) False, rule exI [of _ 0], rule exI [of _ "pending_start g"], simp add: frame_def)
next
  case True
  let ?g = "g\<lparr>scrollback_len := scrollback_len g + 1\<rparr>"
  have s: "frame (sever_opt (cells_front (cells g)) ?g) = frame ?g"
    "contents (sever_opt (cells_front (cells g)) ?g) = contents g"
    using sever_opt_same [of ?g "cells_front (cells g)"] by (simp_all add: same_content_iff)
  have t: "map strip (tl (cells (sever_opt (cells_front (cells g)) ?g))) = drop 1 (contents g)"
    using s(2) by (simp add: map_tl drop_Suc flip: contents_def)
  show ?thesis
    unfolding pushed_def
    by (insert True assms t frame_fields [OF s(1)] s, rule exI [of _ 1], rule exI [of _ "pending_start g - 1"],
        simp add: frame_def Let_def, arith)
qed

lemma pushed_trans:
  assumes 1: "pushed g a g1" and 2: "pushed g1 b g2"
  shows "pushed g (a + b) g2"
proof -
  obtain e1 p1 where e1: "frame g1 = frame (g\<lparr>scrollback_len := scrollback_len g + a - e1, pending_start := p1\<rparr>)"
    "e1 \<le> a" "contents g1 = drop e1 (contents g)" "scrollback_len g + a \<le> scrollback_limit g \<longrightarrow> e1 = 0"
    "scrollback_len g + a - e1 \<le> max (scrollback_len g) (scrollback_limit g)"
    using 1 by (auto simp: pushed_def)
  obtain e2 p2 where e2: "frame g2 = frame (g1\<lparr>scrollback_len := scrollback_len g1 + b - e2, pending_start := p2\<rparr>)"
    "e2 \<le> b" "contents g2 = drop e2 (contents g1)" "p2 \<le> scrollback_len g1 + b - e2"
    "scrollback_len g1 + b \<le> scrollback_limit g1 \<longrightarrow> e2 = 0"
    "scrollback_len g1 + b - e2 \<le> max (scrollback_len g1) (scrollback_limit g1)"
    using 2 by (auto simp: pushed_def)
  note f1 = frame_fields [OF e1(1)]
  have "frame g2 = frame (g\<lparr>scrollback_len := scrollback_len g + (a + b) - (e1 + e2), pending_start := p2\<rparr>)"
    using e2(1,2) e1(2) f1 by (simp add: frame_def)
  moreover have "contents g2 = drop (e1 + e2) (contents g)"
    using e1(3) e2(3) by (simp add: add.commute)
  moreover have "scrollback_len g + (a + b) \<le> scrollback_limit g \<longrightarrow> e1 + e2 = 0"
    using e1(2,4) e2(5) f1(8,9) by simp
  moreover have "scrollback_len g + (a + b) - (e1 + e2) \<le> max (scrollback_len g) (scrollback_limit g)"
    using e1(2,5) e2(2,6) f1(8,9) by simp
  moreover have "p2 \<le> scrollback_len g + (a + b) - (e1 + e2)"
    using e1(2) e2(2,4) f1(8) by simp
  ultimately show ?thesis
    unfolding pushed_def using e1(2) e2(2) by (intro exI [of _ "e1 + e2"] exI) auto
qed

lemma push_spec:
  assumes "scrollback_len g + n < length (cells g)" "pending_start g \<le> scrollback_len g"
  shows "succeeds (push_top_rows_to_scrollback n g) (pushed g n)"
  using assms
proof (induction n arbitrary: g)
  case 0
  have "pushed g 0 g"
    unfolding pushed_def
    by (insert 0, rule exI [of _ 0], rule exI [of _ "pending_start g"], simp add: frame_def)
  then show ?case by simp
next
  case (Suc n)
  define g1 where "g1 = (let g = g\<lparr>scrollback_len := scrollback_len g + 1\<rparr>
      in if scrollback_limit g < scrollback_len g
         then let g = sever_opt (cells_front (cells g)) g;
                  g = g\<lparr>cells := tl (cells g), scrollback_len := scrollback_len g - 1\<rparr>
              in if 0 < pending_start g then g\<lparr>pending_start := pending_start g - 1\<rparr> else g
         else g)"
  have p1: "pushed g 1 g1" unfolding g1_def using Suc.prems by (intro push_step) simp_all
  then obtain e ps where e: "frame g1 = frame (g\<lparr>scrollback_len := scrollback_len g + 1 - e, pending_start := ps\<rparr>)"
    "e \<le> 1" "contents g1 = drop e (contents g)" "ps \<le> scrollback_len g + 1 - e"
    by (auto simp: pushed_def)
  note f1 = frame_fields [OF e(1)]
  have "length (cells g1) = length (cells g) - e" using arg_cong [OF e(3), of length] by simp
  then have "succeeds (push_top_rows_to_scrollback n g1) (pushed g1 n)"
    using Suc.prems e f1 by (intro Suc.IH) auto
  moreover have "push_top_rows_to_scrollback (Suc n) g = push_top_rows_to_scrollback n g1"
    using Suc.prems by (simp add: g1_def usub_def Let_def)
  ultimately show ?case
    using pushed_trans [OF p1] by (auto elim: succeeds_mono)
qed

subsection \<open>\<open>resize_grid\<close>\<close>

lemma grow_phase_spec:
  assumes inv: "grid_inv g" and r: "r \<le> U16_MAX"
  shows "\<exists>n. n \<le> scrollback_len g \<and> (in_alt \<or> r \<le> rows g \<longrightarrow> n = 0)
     \<and> (\<not> in_alt \<and> rows g < r \<longrightarrow> n = min (r - rows g) (scrollback_len g))
     \<and> grow_phase in_alt r g = Some (g\<lparr>scrollback_len := scrollback_len g - n,
          pending_start := min (pending_start g) (scrollback_len g - n), cursor_y := cursor_y g + n\<rparr>)"
proof (cases "\<not> in_alt \<and> rows g < r")
  case False
  have "g = g\<lparr>scrollback_len := scrollback_len g - 0,
          pending_start := min (pending_start g) (scrollback_len g - 0), cursor_y := cursor_y g + 0\<rparr>"
    using grid_inv_lengths(2) [OF inv] by (simp add: min_absorb1)
  then show ?thesis
    using False by (intro exI [of _ 0]) (auto simp: grow_phase_def)
next
  case True
  let ?n = "min (r - rows g) (scrollback_len g)"
  have "?n \<le> U16_MAX" "cursor_y g + ?n \<le> U16_MAX"
    using r True grid_inv_lengths(6) [OF inv] by auto
  then show ?thesis
    using True by (intro exI [of _ ?n]) (simp add: grow_phase_def restore_scrollback_def sat_add16_def Let_def)
qed

text \<open>
  Shrinking keeps every row up to and including the cursor row: the cursor row's distance from the
  end of the evicted prefix is unchanged, and nothing is evicted while the scrollback has room.
\<close>

definition shrunk :: "nat \<Rightarrow> Grid \<Rightarrow> Grid \<Rightarrow> bool" where
  "shrunk need g g' \<longleftrightarrow> (\<exists>e k push. k \<le> need \<and> push = min (need - k) (cursor_y g) \<and> e \<le> push
     \<and> contents g' = drop e (take (length (cells g) - k) (contents g))
     \<and> (\<forall>i. length (cells g) - k \<le> i \<and> i < length (cells g) \<longrightarrow> blank_at g i)
     \<and> scrollback_len g + cursor_y g < length (cells g) - k
     \<and> scrollback_len g' = scrollback_len g + push - e \<and> cursor_y g' = cursor_y g - push
     \<and> (scrollback_len g + push \<le> scrollback_limit g \<longrightarrow> e = 0)
     \<and> scrollback_len g' \<le> max (scrollback_len g) (scrollback_limit g)
     \<and> pending_start g' \<le> scrollback_len g'
     \<and> frame g' = frame (g\<lparr>scrollback_len := scrollback_len g', pending_start := pending_start g', cursor_y := cursor_y g'\<rparr>))"

lemma shrink_phase_spec:
  assumes inv: "grid_inv g" and r: "\<not> in_alt" "0 < r" "r < rows g"
  shows "succeeds (shrink_phase in_alt (rows g) r g) (shrunk (rows g - r) g)"
proof -
  note len = grid_inv_lengths [OF inv]
  have push: "succeeds (push_phase (rows g - r - k) g1) (shrunk (rows g - r) g)"
    if ch: "chopped g (rows g - r) (k, g1)" for k g1
  proof -
    have k: "k \<le> rows g - r" and f: "frame g1 = frame g"
      and c: "contents g1 = take (length (cells g) - k) (contents g)"
      and cur: "scrollback_len g + cursor_y g < length (cells g) - k"
      and bl: "\<forall>i. length (cells g) - k \<le> i \<and> i < length (cells g) \<longrightarrow> blank_at g i"
      using ch by (simp_all add: chopped_def)
    note ff = frame_fields [OF f]
    define push where "push = min (rows g - r - k) (cursor_y g)"
    have pe: "min (rows g - (r + k)) (cursor_y g) = push" by (simp add: push_def)
    have l1: "length (cells g1) = length (cells g) - k" using arg_cong [OF c, of length] by simp
    have pu: "push \<le> U16_MAX" "push \<le> cursor_y g" using len by (auto simp: push_def)
    have "succeeds (push_top_rows_to_scrollback push g1) (pushed g1 push)"
      using l1 cur pu ff len by (intro push_spec) auto
    then obtain g2 where g2: "push_top_rows_to_scrollback push g1 = Some g2" "pushed g1 push g2"
      by (auto simp: succeeds_def)
    then obtain e ps where e: "frame g2 = frame (g1\<lparr>scrollback_len := scrollback_len g1 + push - e, pending_start := ps\<rparr>)"
     "e \<le> push" "contents g2 = drop e (contents g1)" "ps \<le> scrollback_len g1 + push - e"
     "scrollback_len g1 + push \<le> scrollback_limit g1 \<longrightarrow> e = 0"
     "scrollback_len g1 + push - e \<le> max (scrollback_len g1) (scrollback_limit g1)"
      by (auto simp: pushed_def)
    note f2 = frame_fields [OF e(1)]
    have "shrunk (rows g - r) g (g2\<lparr>cursor_y := cursor_y g2 - push\<rparr>)"
      unfolding shrunk_def
      by (rule exI [of _ e], rule exI [of _ k], rule exI [of _ push])
        (use k bl cur e(2-6) f2 ff c in \<open>simp add: pe frame_def\<close>)
    moreover have "shrunk (rows g - r) g g1" if "push = 0"
      unfolding shrunk_def
      by (rule exI [of _ 0], rule exI [of _ k], rule exI [of _ push])
        (use k bl cur ff c that len in \<open>simp add: pe frame_def\<close>)
    ultimately show ?thesis
      using g2(1) pu f2(4) ff(4) by (simp add: push_phase_def pe sub16_def)
  qed
  have "succeeds (case kg of (k, g) \<Rightarrow> usub (rows g0 - r) k \<bind> (\<lambda>needed. push_phase needed g)) (shrunk (rows g - r) g)"
    if "chopped g (rows g - r) kg" "g0 = g" for kg g0
    using that push by (cases kg) (auto simp: chopped_def)
  then show ?thesis
    unfolding shrink_phase_def
    using r chop_spec [of g "rows g - r"] len
    by (auto elim!: succeeds_mono)
qed

text \<open>The caller's geometry reaches the grid sanitized; \<open>0\<close> asks for \<open>1\<close>.\<close>

lemma grid_resize_sanitized: "grid_resize c r g = grid_resize (max c 1) (max r 1) g"
  by (simp add: grid_resize_def sanitize_dimensions_def)

lemma shrink_phase_frame:
  assumes "grid_inv g"
  shows "succeeds (shrink_phase in_alt (rows g) r g) (\<lambda>g'. scrollback_len g' \<le> length (cells g')
     \<and> pending_start g' \<le> scrollback_len g' \<and> scrollback_limit g' = scrollback_limit g
     \<and> style_table g' = style_table g \<and> scrollback_len g' \<le> max (scrollback_len g) (scrollback_limit g))"
proof (cases "\<not> in_alt \<and> 0 < r \<and> r < rows g")
  case False
  then show ?thesis
    using grid_inv_lengths [OF assms] by (auto simp: shrink_phase_def)
next
  case True
  have "scrollback_len g' \<le> length (cells g')
     \<and> pending_start g' \<le> scrollback_len g' \<and> scrollback_limit g' = scrollback_limit g
     \<and> style_table g' = style_table g \<and> scrollback_len g' \<le> max (scrollback_len g) (scrollback_limit g)"
    if "shrunk (rows g - r) g g'" for g'
  proof -
    from that obtain e k push where *: "push = min (rows g - r - k) (cursor_y g)" "e \<le> push"
      "contents g' = drop e (take (length (cells g) - k) (contents g))"
      "scrollback_len g + cursor_y g < length (cells g) - k"
      "scrollback_len g' = scrollback_len g + push - e" "pending_start g' \<le> scrollback_len g'"
      "scrollback_len g' \<le> max (scrollback_len g) (scrollback_limit g)"
      "frame g' = frame (g\<lparr>scrollback_len := scrollback_len g', pending_start := pending_start g', cursor_y := cursor_y g'\<rparr>)"
      unfolding shrunk_def by blast
    have "length (cells g') = length (cells g) - k - e" using arg_cong [OF *(3), of length] by simp
    moreover have "push \<le> cursor_y g" using *(1) by simp
    ultimately have "scrollback_len g' \<le> length (cells g')" using *(2,4,5) by linarith
    then show ?thesis using *(6,7) frame_fields(9,11) [OF *(8)] by simp
  qed
  then show ?thesis
    using shrink_phase_spec [OF assms, of in_alt r] True by (auto elim: succeeds_mono)
qed

lemma resize_grid_ok:
  assumes inv: "grid_inv g" and c: "c \<le> U16_MAX" and r: "r \<le> U16_MAX"
  shows "succeeds (resize_grid in_alt c r g) (\<lambda>g'. grid_inv g' \<and> cols g' = max c 1 \<and> rows g' = max r 1
     \<and> scrollback_limit g' = scrollback_limit g
     \<and> scrollback_len g' \<le> max (scrollback_len g) (scrollback_limit g))"
proof -
  note len = grid_inv_lengths [OF inv]
  have t: "table_inv (style_table g)" using inv by (simp add: grid_inv_def)
  have U: "1 \<le> U16_MAX" by (simp add: U16_MAX_def)
  have fin: "succeeds (grid_resize c r g2) (\<lambda>g'. grid_inv g' \<and> cols g' = max c 1 \<and> rows g' = max r 1
       \<and> scrollback_limit g' = scrollback_limit g \<and> scrollback_len g' \<le> max (scrollback_len g) (scrollback_limit g))"
    if "scrollback_len g2 \<le> length (cells g2)" "pending_start g2 \<le> scrollback_len g2"
      "scrollback_limit g2 = scrollback_limit g" "style_table g2 = style_table g"
      "scrollback_len g2 \<le> max (scrollback_len g) (scrollback_limit g)" for g2
    using grid_resize_spec [of g2 "max c 1" "max r 1"] that t c r U
    unfolding grid_resize_sanitized [of c r] by (auto simp: resized_def elim!: succeeds_mono)
  obtain n where n: "n \<le> scrollback_len g" "in_alt \<or> r \<le> rows g \<longrightarrow> n = 0"
    "grow_phase in_alt r g = Some (g\<lparr>scrollback_len := scrollback_len g - n,
          pending_start := min (pending_start g) (scrollback_len g - n), cursor_y := cursor_y g + n\<rparr>)"
    using grow_phase_spec [OF inv r] by blast
  show ?thesis
  proof (cases "\<not> in_alt \<and> r < rows g")
    case True
    then have g1: "grow_phase in_alt r g = Some g" by (simp add: grow_phase_def)
    show ?thesis
      unfolding resize_grid_def Let_def g1 Option.bind.simps
      by (rule succeeds_bindI [OF shrink_phase_frame [OF inv] fin]) simp_all
  next
    case False
    then have g2: "shrink_phase in_alt (rows g) r g1 = Some g1" for g1 by (auto simp: shrink_phase_def)
    show ?thesis
      unfolding resize_grid_def Let_def n(3) Option.bind.simps g2 by (rule fin) (use len in simp_all)
  qed
qed

subsection \<open>What a vertical resize keeps\<close>

lemma shrink_keeps_cursor_line:
  assumes inv: "grid_inv g" and r: "0 < r" "r < rows g"
    and room: "scrollback_len g + (rows g - r) \<le> scrollback_limit g"
  shows "\<exists>g' k. resize_grid False (cols g) r g = Some g' \<and> grid_inv g'
     \<and> scrollback_len g' + cursor_y g' = scrollback_len g + cursor_y g \<and> cursor_x g' = cursor_x g
     \<and> take (scrollback_len g + cursor_y g + 1) (contents g') = take (scrollback_len g + cursor_y g + 1) (contents g)
     \<and> (rows g - r \<le> cursor_y g \<longrightarrow> contents g' = take (length (cells g) - k) (contents g)
          \<and> (\<forall>i. length (cells g) - k \<le> i \<and> i < length (cells g) \<longrightarrow> blank_at g i))"
proof -
  note len = grid_inv_lengths [OF inv]
  from shrink_phase_spec [OF inv _ r, of False] obtain g2 where
    g2: "shrink_phase False (rows g) r g = Some g2" "shrunk (rows g - r) g g2" by (auto simp: succeeds_def)
  then obtain e k push where k: "k \<le> rows g - r" and push: "push = min (rows g - r - k) (cursor_y g)"
    and c: "contents g2 = drop e (take (length (cells g) - k) (contents g))"
    and bl: "\<forall>i. length (cells g) - k \<le> i \<and> i < length (cells g) \<longrightarrow> blank_at g i"
    and cur: "scrollback_len g + cursor_y g < length (cells g) - k"
    and sl: "scrollback_len g2 = scrollback_len g + push - e" and cy: "cursor_y g2 = cursor_y g - push"
    and e: "scrollback_len g + push \<le> scrollback_limit g \<longrightarrow> e = 0" and ps: "pending_start g2 \<le> scrollback_len g2"
    and f: "frame g2 = frame (g\<lparr>scrollback_len := scrollback_len g2, pending_start := pending_start g2, cursor_y := cursor_y g2\<rparr>)"
    unfolding shrunk_def by blast
  note ff = frame_fields [OF f]
  have pl: "push \<le> rows g - r" "push \<le> cursor_y g" using push by simp_all
  then have e0: "e = 0" using e room by simp
  have c2: "contents g2 = take (length (cells g) - k) (contents g)" using c e0 by simp
  have l2: "length (cells g2) = length (cells g) - k" using arg_cong [OF c2, of length] by simp
  have "succeeds (grid_resize (cols g) r g2) (resized (cols g) r g2)"
    using inv len r l2 sl e0 pl cur ps ff by (intro grid_resize_spec) (simp_all add: grid_inv_def)
  then obtain g' where g': "grid_resize (cols g) r g2 = Some g'" "resized (cols g) r g2 g'"
    by (auto simp: succeeds_def)
  have "list_all (\<lambda>s. length (fst s) = cols g) (drop (scrollback_len g) (take (length (cells g) - k) (contents g)))"
    using inv by (simp add: grid_inv_split visible_ok_def drop_take list_all_take)
  then have "list_all (\<lambda>s. length (fst s) = cols g)
      (drop push (drop (scrollback_len g) (take (length (cells g) - k) (contents g))))"
    by (rule list_all_drop)
  then have "visible_ok (scrollback_len g2) (cols g) (contents g2)"
    unfolding visible_ok_def c2 sl e0 by (simp add: add.commute)
  then have tk: "take (kept_rows r g2) (contents g') = take (kept_rows r g2) (contents g2)"
    and inv': "grid_inv g'" and cur': "cursor_y g' = min (cursor_y g2) (r - 1)" "cursor_x g' = min (cursor_x g2) (cols g - 1)"
    and sl': "scrollback_len g' = scrollback_len g2" and r': "rows g' = r"
    using g'(2) by (simp_all add: resized_def)
  have cyr: "cursor_y g2 \<le> r - 1"
    using cy push k len(1) r cur by (auto simp: min_def)
  have kr: "scrollback_len g + cursor_y g + 1 \<le> kept_rows r g2"
    using cyr sl e0 pl cy l2 cur r by (simp add: kept_rows_def)
  have pre: "take (scrollback_len g + cursor_y g + 1) (contents g') = take (scrollback_len g + cursor_y g + 1) (contents g)"
  proof -
    have "take (scrollback_len g + cursor_y g + 1) (contents g') = take (scrollback_len g + cursor_y g + 1) (take (kept_rows r g2) (contents g'))"
      using kr by (simp add: min_absorb1)
    also have "\<dots> = take (scrollback_len g + cursor_y g + 1) (contents g)"
      unfolding tk c2 using kr cur by (simp add: min_absorb1)
    finally show ?thesis .
  qed
  have full: "contents g' = take (length (cells g) - k) (contents g)" if "rows g - r \<le> cursor_y g"
  proof -
    have "kept_rows r g2 = length (cells g) - k" "length (contents g') = length (cells g) - k"
      using that push k sl e0 l2 len r cur grid_inv_lengths(1) [OF inv'] sl' r' by (auto simp: kept_rows_def)
    then show ?thesis using tk c2 by simp
  qed
  have "resize_grid False (cols g) r g = Some g'"
    using r g2(1) g'(1) by (simp add: resize_grid_def grow_phase_def)
  then show ?thesis
    using inv' pre full bl cur' cyr sl' sl cy e0 pl ff len by (intro exI [of _ g'] exI [of _ k]) auto
qed

end
