(* ===== verification/Style_Inv.thy ===== *)
theory Style_Inv
  imports Grid_Resize
begin

text \<open>
  The style table: interning and reclaiming keep \<open>table_inv\<close>, an interned style is read back under
  the identifier it was given, and neither interning nor garbage collection changes the style of an
  identifier that some cell still uses. The bidirectional part (SGR text that is written and then
  applied again) is in \<open>Sgr_Roundtrip\<close>.
\<close>

subsection \<open>Reclaiming\<close>

lemma reclaim_loop_eq:
  "reclaim_loop live is t = t\<lparr>
     index := (\<lambda>s. if list_ex (\<lambda>i. i < length live \<and> \<not> live ! i \<and> styles t ! i = s) is then None else index t s),
     free_slots := free_slots t @ map as_u16 (filter (\<lambda>i. i < length live \<and> \<not> live ! i) is)\<rparr>"
proof (induction "is" arbitrary: t)
  case Nil
  then show ?case by simp
next
  case (Cons i "is")
  show ?case by (simp add: Cons.IH fun_eq_iff) auto
qed

definition dead_slots :: "bool list \<Rightarrow> StyleTable \<Rightarrow> nat list" where
  "dead_slots live t = filter (\<lambda>i. i < length live \<and> \<not> live ! i) [1..<length (styles t)]"

lemma reclaim_fields:
  assumes "table_inv t"
  shows "styles (reclaim live t) = styles t" "free_slots (reclaim live t) = dead_slots live t"
    "index (reclaim live t) s = (if \<exists>i \<in> set (dead_slots live t). styles t ! i = s then None else index t s)"
proof -
  have "length (styles t) \<le> 65536" using assms by (simp add: table_inv_def)
  then have "map as_u16 (dead_slots live t) = dead_slots live t"
    by (intro map_idI) (auto simp: dead_slots_def as_u16_def)
  then show "styles (reclaim live t) = styles t" "free_slots (reclaim live t) = dead_slots live t"
    "index (reclaim live t) s = (if \<exists>i \<in> set (dead_slots live t). styles t ! i = s then None else index t s)"
    by (auto simp: reclaim_def reclaim_loop_eq dead_slots_def list_ex_iff)
qed

lemma reclaim_inv: "table_inv t \<Longrightarrow> table_inv (reclaim live t)"
  unfolding table_inv_def [of "reclaim live t"]
  by (simp add: reclaim_fields) (auto simp: table_inv_def dead_slots_def list_all_iff split: if_splits)

subsection \<open>Interning\<close>

text \<open>
  An identifier is in use when it addresses a slot that is not on the free list. \<open>table_ext\<close>:
  every identifier in use stays in use and keeps its style.
\<close>

definition in_use :: "StyleTable \<Rightarrow> nat \<Rightarrow> bool" where
  "in_use t i \<longleftrightarrow> i < length (styles t) \<and> i \<notin> set (free_slots t)"

definition table_ext :: "StyleTable \<Rightarrow> StyleTable \<Rightarrow> bool" where
  "table_ext t t' \<longleftrightarrow> (\<forall>i. in_use t i \<longrightarrow> in_use t' i \<and> style_get t' i = style_get t i)"

lemma table_ext_refl [simp]: "table_ext t t"
  by (simp add: table_ext_def)

lemma table_ext_trans: "table_ext t1 t2 \<Longrightarrow> table_ext t2 t3 \<Longrightarrow> table_ext t1 t3"
  by (simp add: table_ext_def)

lemma in_use_zero: "table_inv t \<Longrightarrow> in_use t 0"
  by (auto simp: table_inv_def in_use_def list_all_iff)

definition interned :: "Style \<Rightarrow> StyleTable \<Rightarrow> nat \<times> StyleTable \<Rightarrow> bool" where
  "interned s t r \<longleftrightarrow> table_inv (snd r) \<and> table_ext t (snd r) \<and> in_use (snd r) (fst r)
     \<and> (style_get (snd r) (fst r) = s \<or> fst r = 0 \<and> is_full t \<and> snd r = t)"

lemma interned_reuse:
  assumes inv: "table_inv t" and s: "index t s = None" and f: "free_slots t = fs @ [i]"
  shows "interned s t (i, t\<lparr>free_slots := fs, styles := (styles t)[i := s], index := (index t)(s \<mapsto> i)\<rparr>)"
    (is "interned s t (i, ?t)")
proof -
  have i: "0 < i" "i < length (styles t)" "i \<notin> set fs" "distinct fs" "list_all (\<lambda>j. 0 < j \<and> j < length (styles t)) fs"
    using inv by (auto simp: table_inv_def f)
  have idx: "0 < j \<and> j < length (styles t) \<and> styles t ! j = s' \<and> j \<noteq> i \<and> j \<notin> set fs" if "index t s' = Some j" for s' j
    using inv that by (auto simp: table_inv_def f)
  have idx': "(styles t)[i := s] ! j = s'" if "index t s' = Some j" for s' j
    using idx [OF that] by auto
  have "table_inv ?t"
    using inv i idx idx' by (auto simp: table_inv_def)
  moreover have "table_ext t ?t"
    by (auto simp: table_ext_def in_use_def style_get_def f)
  ultimately show ?thesis
    using i by (auto simp: interned_def in_use_def style_get_def)
qed

lemma interned_push:
  assumes inv: "table_inv t" and s: "index t s = None" and len: "length (styles t) \<le> U16_MAX" and f: "free_slots t = []"
  shows "interned s t (length (styles t), t\<lparr>styles := styles t @ [s], index := (index t)(s \<mapsto> length (styles t))\<rparr>)"
    (is "interned s t (_, ?t)")
proof -
  have idx: "0 < j \<and> j < Suc (length (styles t)) \<and> j < length (styles t) \<and> styles t ! j = s'" if "index t s' = Some j" for s' j
    using inv that by (auto simp: table_inv_def intro: less_SucI)
  have "table_inv ?t"
    using inv len idx by (auto simp: table_inv_def nth_append U16_MAX_def f)
  moreover have "table_ext t ?t"
    by (auto simp: table_ext_def in_use_def style_get_def nth_append f)
  ultimately show ?thesis
    by (simp add: interned_def in_use_def style_get_def f)
qed

lemma intern_spec:
  assumes inv: "table_inv t"
  shows "succeeds (intern s t) (interned s t)"
proof (cases "s = style_default")
  case True
  have "style_get t 0 = style_default" using inv by (auto simp: table_inv_def style_get_def)
  then show ?thesis
    using True inv in_use_zero [OF inv] by (simp add: intern_def style_is_default_def interned_def)
next
  case sd: False
  show ?thesis
  proof (cases "index t s")
    case (Some i)
    then have "i < length (styles t)" "styles t ! i = s" "i \<notin> set (free_slots t)"
      using inv by (auto simp: table_inv_def)
    then show ?thesis
      using Some sd inv by (simp add: intern_def style_is_default_def interned_def in_use_def style_get_def)
  next
    case None
    consider fs i where "free_slots t = fs @ [i]" | "free_slots t = []" "length (styles t) \<le> U16_MAX"
      | "free_slots t = []" "U16_MAX < length (styles t)"
      by (metis append_butlast_last_id not_less)
    then show ?thesis
    proof cases
      case (1 fs i)
      then have "i < length (styles t)" using inv by (simp add: table_inv_def)
      then show ?thesis
        using 1 None sd interned_reuse [OF inv None 1] by (simp add: intern_def style_is_default_def)
    next
      case 2
      then show ?thesis
        using None sd interned_push [OF inv None 2(2,1)]
        by (simp add: intern_def style_is_default_def Let_def)
    next
      case 3
      then show ?thesis
        using None sd inv in_use_zero [OF inv]
        by (simp add: intern_def style_is_default_def interned_def is_full_def)
    qed
  qed
qed

subsection \<open>Garbage collection over the grid\<close>

definition cells_use :: "StyleTable \<Rightarrow> Row list \<Rightarrow> bool" where
  "cells_use t rs \<longleftrightarrow> list_all (\<lambda>r. list_all (\<lambda>c. in_use t (style_id c)) (row_cells r)) rs"

lemma mark_fold:
  "length (fold (mark_live cap) cs live) = length live \<and>
   (\<forall>i < length live. fold (mark_live cap) cs live ! i \<longleftrightarrow> live ! i \<or> (i < cap \<and> (\<exists>c \<in> set cs. style_id c = i)))"
proof (induction cs arbitrary: live)
  case Nil
  then show ?case by simp
next
  case (Cons c cs)
  have l: "length (mark_live cap c live) = length live" by (simp add: mark_live_def)
  have "mark_live cap c live ! i \<longleftrightarrow> live ! i \<or> (i < cap \<and> style_id c = i)" if "i < length live" for i
    using that by (cases "i = style_id c") (simp_all add: mark_live_def)
  then show ?case
    using Cons.IH [of "mark_live cap c live"] l by auto
qed

lemma mark_rows_length [simp]: "length (mark_rows cap rs live) = length live"
  using mark_fold by (simp add: mark_rows_def)

lemma mark_rows_nth:
  "i < length live \<Longrightarrow> mark_rows cap rs live ! i \<longleftrightarrow>
     live ! i \<or> (i < cap \<and> (\<exists>r \<in> set rs. \<exists>c \<in> set (row_cells r). style_id c = i))"
  using mark_fold [of cap "concat (map row_cells rs)" live] by (auto simp: mark_rows_def)

lemma compact_styles_frame:
  "cells (compact_styles saved g) = cells g"
  "frame (compact_styles saved g) = frame (g\<lparr>style_table := style_table (compact_styles saved g)\<rparr>)"
  by (simp_all add: compact_styles_def Let_def frame_def split: option.split)

lemma compact_styles_table:
  assumes inv: "table_inv (style_table g)" and len: "length (cells g) = scrollback_len g + rows g"
    and use: "cells_use (style_table g) (cells g)" "\<And>rs. saved = Some rs \<Longrightarrow> cells_use (style_table g) rs"
  defines "t \<equiv> style_table g" and "t' \<equiv> style_table (compact_styles saved g)"
  shows "table_inv t'" "styles t' = styles t" "cells_use t' (cells g)" "saved = Some rs \<Longrightarrow> cells_use t' rs"
proof -
  have all: "set (scrollback_rows g @ visible_rows g) = set (cells g)"
    using len by (simp add: scrollback_rows_def visible_rows_def flip: set_append)
  define live where "live = (case saved of
      None \<Rightarrow> mark_rows (capacity t) (scrollback_rows g @ visible_rows g) ((replicate (capacity t) False)[0 := True])
    | Some rs \<Rightarrow> mark_rows (capacity t) rs
        (mark_rows (capacity t) (scrollback_rows g @ visible_rows g) ((replicate (capacity t) False)[0 := True])))"
  have t': "t' = (if capacity t \<le> 1 then t else reclaim live t)"
    by (auto simp: t'_def t_def compact_styles_def live_def Let_def split: option.split)
  have inv_t: "table_inv t" using inv by (simp add: t_def)
  show "table_inv t'" "styles t' = styles t"
    using inv_t by (simp_all add: t' reclaim_inv reclaim_fields)
  have keep: "cells_use t' rs" if u: "cells_use t rs" and
     m: "\<And>r c. r \<in> set rs \<Longrightarrow> c \<in> set (row_cells r) \<Longrightarrow> style_id c < capacity t \<Longrightarrow> live ! style_id c" for rs
    using u m reclaim_fields(1,2) [OF inv_t, of live]
    by (auto simp: t' cells_use_def list_all_iff in_use_def capacity_def dead_slots_def)
  show "cells_use t' (cells g)"
    using use(1) all by (intro keep) (auto simp: t_def live_def mark_rows_nth split: option.split)
  show "saved = Some rs \<Longrightarrow> cells_use t' rs"
    using use(2) by (intro keep) (auto simp: t_def live_def mark_rows_nth split: option.split)
qed

lemma compact_styles_inv: "grid_inv g \<Longrightarrow> keeps g (compact_styles saved g)"
proof -
  assume inv: "grid_inv g"
  have "table_inv (style_table (compact_styles saved g))"
    using inv by (auto simp: compact_styles_def Let_def grid_inv_def reclaim_inv)
  then show ?thesis
    using inv frame_fields [OF compact_styles_frame(2) [of saved g]]
    by (simp add: keeps_def grid_inv_def compact_styles_frame(1))
qed

end
