(* ===== verification/Performer_Inv.thy ===== *)
theory Performer_Inv
  imports Style_Inv
begin

text \<open>
  The invariant of the performer and its preservation by every callback of the \<open>vte\<close> parser. The
  invariant is \<open>grid_inv\<close> together with the bounds of the response, passthrough, notification and
  title queues, the link between alternate screen and saved grid, and the scrollback limit that
  holds across the alternate screen. Each lemma also says that the call returns: no index is out of
  range, no \<open>u16\<close> computation overflows, no debug assertion fails.
\<close>

definition hist_limit :: "nat \<Rightarrow> SavedGrid option \<Rightarrow> nat" where
  "hist_limit limit sg = (case sg of None \<Rightarrow> limit | Some sg \<Rightarrow> sg_scrollback_limit sg)"

lemma hist_limit_simps [simp]: "hist_limit n None = n" "hist_limit n (Some sg) = sg_scrollback_limit sg"
  by (simp_all add: hist_limit_def)

definition state_ok :: "ScreenState \<Rightarrow> bool" where
  "state_ok s \<longleftrightarrow> in_alt_screen s = (saved_grid s \<noteq> None)
     \<and> length (pending_responses s) \<le> MAX_PENDING \<and> length (pending_passthrough s) \<le> MAX_PENDING
     \<and> length (queued_notifications s) \<le> MAX_QUEUED_NOTIFICATIONS
     \<and> length (title s) \<le> 4096 \<and> length (title_stack s) \<le> 16
     \<and> list_all (\<lambda>t. length t \<le> 4096) (title_stack s)"

text \<open>What the callbacks never change: the limit of the scrollback of the main screen, and the number of columns.\<close>

record Extent =
  ex_limit :: nat
  ex_cols :: nat

definition perf_inv :: "Extent \<Rightarrow> ScreenPerformer \<Rightarrow> bool" where
  "perf_inv L p \<longleftrightarrow> grid_inv (grid p) \<and> state_ok (state p) \<and> cols (grid p) = ex_cols L
     \<and> hist_limit (scrollback_limit (grid p)) (saved_grid (state p)) = ex_limit L
     \<and> scrollback_len (grid p) \<le> ex_limit L \<and> scrollback_limit (grid p) \<le> ex_limit L"

definition pkeeps :: "Extent \<Rightarrow> ScreenPerformer \<Rightarrow> ScreenPerformer \<Rightarrow> bool" where
  "pkeeps L p p' \<longleftrightarrow> perf_inv L p' \<and> keeps (grid p) (grid p') \<and> state p' = state p"

lemma perf_inv_grid: "perf_inv L p \<Longrightarrow> grid_inv (grid p)"
  by (simp add: perf_inv_def)

lemma with_simps [simp]:
  "grid (with_grid f p) = f (grid p)" "state (with_grid f p) = state p"
  "grid (with_state h p) = grid p" "state (with_state h p) = h (state p)"
  by (simp_all add: with_grid_def with_state_def)

lemma pkeeps_refl: "perf_inv L p \<Longrightarrow> pkeeps L p p"
  by (simp add: pkeeps_def keeps_refl perf_inv_def)

lemma pkeeps_trans: "pkeeps L p1 p2 \<Longrightarrow> pkeeps L p2 p3 \<Longrightarrow> pkeeps L p1 p3"
  by (auto simp: pkeeps_def intro: keeps_trans)

lemma pkeeps_inv: "pkeeps L p p' \<Longrightarrow> perf_inv L p'"
  by (simp add: pkeeps_def)

lemma pkeeps_fields:
  assumes "pkeeps L p p'"
  shows "cols (grid p') = cols (grid p)" "rows (grid p') = rows (grid p)"
    "cursor_x (grid p') = cursor_x (grid p)" "cursor_y (grid p') = cursor_y (grid p)"
    "scroll_top (grid p') = scroll_top (grid p)" "scroll_bottom (grid p') = scroll_bottom (grid p)"
    "modes (grid p') = modes (grid p)" "state p' = state p"
  using assms by (auto simp: pkeeps_def keeps_def)

lemma keeps_perf_inv:
  assumes "perf_inv L p" "keeps (grid p) g"
  shows "perf_inv L (p\<lparr>grid := g\<rparr>)"
  using assms by (auto simp: perf_inv_def keeps_def)

lemma on_grid_keeps:
  assumes "perf_inv L p" "succeeds (f (grid p)) (keeps (grid p))"
  shows "succeeds (on_grid f p) (pkeeps L p)"
  using assms keeps_perf_inv by (auto simp: on_grid_def pkeeps_def elim!: succeeds_mono)

lemma on_grid_geom:
  assumes "perf_inv L p" "succeeds (f (grid p)) (geom_eq (grid p))"
  shows "succeeds (on_grid f p) (pkeeps L p)"
  using assms by (intro on_grid_keeps succeeds_keepsI) (simp_all add: perf_inv_def)

lemma pkeeps_bind:
  assumes "succeeds m (pkeeps L p)" and "\<And>p1. pkeeps L p p1 \<Longrightarrow> succeeds (h p1) (pkeeps L p1)"
  shows "succeeds (m \<bind> h) (pkeeps L p)"
  using assms(1) by (auto intro: pkeeps_trans succeeds_mono dest: assms(2))

lemma succeeds_pkeepsD: "succeeds m (pkeeps L p) \<Longrightarrow> succeeds m (perf_inv L)"
  by (blast intro: succeeds_mono pkeeps_inv)

lemma perf_bind:
  assumes "succeeds m (pkeeps L p)" and "\<And>p1. pkeeps L p p1 \<Longrightarrow> succeeds (h p1) (perf_inv L)"
  shows "succeeds (m \<bind> h) (perf_inv L)"
  using assms by (rule succeeds_bindI)

subsection \<open>Field updates\<close>

lemma grid_inv_updates [simp]:
  "grid_inv g \<Longrightarrow> grid_inv (g\<lparr>cursor_x := x\<rparr>) \<longleftrightarrow> x < cols g"
  "grid_inv g \<Longrightarrow> grid_inv (g\<lparr>cursor_y := y\<rparr>) \<longleftrightarrow> y < rows g"
  "grid_inv g \<Longrightarrow> grid_inv (g\<lparr>cursor_visible := v\<rparr>)"
  "grid_inv g \<Longrightarrow> grid_inv (g\<lparr>modes := m\<rparr>)"
  "grid_inv g \<Longrightarrow> grid_inv (g\<lparr>scrollback_limit := n\<rparr>)"
  "grid_inv g \<Longrightarrow> grid_inv (g\<lparr>in_alt_domain := b\<rparr>)"
  "grid_inv g \<Longrightarrow> grid_inv (g\<lparr>wrap_pending := b\<rparr>)"
  "grid_inv g \<Longrightarrow> grid_inv (g\<lparr>pending_wrap := pw\<rparr>)"
  "grid_inv g \<Longrightarrow> grid_inv (g\<lparr>sequential_edge := se\<rparr>)"
  "grid_inv g \<Longrightarrow> grid_inv (g\<lparr>style_table := t\<rparr>) \<longleftrightarrow> table_inv t"
  "grid_inv g \<Longrightarrow> grid_inv (g\<lparr>tab_stops := ts\<rparr>) \<longleftrightarrow> length ts = cols g"
  by (auto simp: grid_inv_def)

lemma set_wrap_pending_fields [simp]:
  "cols (set_wrap_pending v g) = cols g" "rows (set_wrap_pending v g) = rows g"
  "cursor_x (set_wrap_pending v g) = cursor_x g" "cursor_y (set_wrap_pending v g) = cursor_y g"
  "scroll_top (set_wrap_pending v g) = scroll_top g" "scroll_bottom (set_wrap_pending v g) = scroll_bottom g"
  "modes (set_wrap_pending v g) = modes g" "scrollback_len (set_wrap_pending v g) = scrollback_len g"
  "scrollback_limit (set_wrap_pending v g) = scrollback_limit g" "cells (set_wrap_pending v g) = cells g"
  "tab_stops (set_wrap_pending v g) = tab_stops g" "style_table (set_wrap_pending v g) = style_table g"
  by (simp_all add: set_wrap_pending_def Let_def)

lemma grid_inv_set_wrap_pending [simp]: "grid_inv g \<Longrightarrow> grid_inv (set_wrap_pending v g)"
  by (simp add: set_wrap_pending_def Let_def)

lemma clear_wrap_pkeeps: "perf_inv L p \<Longrightarrow> pkeeps L p (clear_wrap p)"
  by (auto simp: pkeeps_def perf_inv_def keeps_def clear_wrap_def split: option.splits)

lemma clear_wrap_inv [simp]: "perf_inv L p \<Longrightarrow> perf_inv L (clear_wrap p)"
  by (blast intro: clear_wrap_pkeeps pkeeps_inv)

lemma clear_wrap_fields [simp]:
  "cols (grid (clear_wrap p)) = cols (grid p)" "rows (grid (clear_wrap p)) = rows (grid p)"
  "cursor_x (grid (clear_wrap p)) = cursor_x (grid p)" "cursor_y (grid (clear_wrap p)) = cursor_y (grid p)"
  "scroll_top (grid (clear_wrap p)) = scroll_top (grid p)" "scroll_bottom (grid (clear_wrap p)) = scroll_bottom (grid p)"
  "modes (grid (clear_wrap p)) = modes (grid p)" "state (clear_wrap p) = state p"
  "cells (grid (clear_wrap p)) = cells (grid p)" "tab_stops (grid (clear_wrap p)) = tab_stops (grid p)"
  by (simp_all add: clear_wrap_def)

lemma perf_inv_cursor [simp]:
  "perf_inv L p \<Longrightarrow> perf_inv L (set_cursor_x x p) \<longleftrightarrow> x < cols (grid p)"
  "perf_inv L p \<Longrightarrow> perf_inv L (set_cursor_y y p) \<longleftrightarrow> y < rows (grid p)"
  by (auto simp: perf_inv_def set_cursor_x_def set_cursor_y_def)

lemma set_cursor_fields [simp]:
  "cols (grid (set_cursor_x x p)) = cols (grid p)" "rows (grid (set_cursor_x x p)) = rows (grid p)"
  "cursor_y (grid (set_cursor_x x p)) = cursor_y (grid p)" "cursor_x (grid (set_cursor_x x p)) = x"
  "cols (grid (set_cursor_y y p)) = cols (grid p)" "rows (grid (set_cursor_y y p)) = rows (grid p)"
  "cursor_y (grid (set_cursor_y y p)) = y" "cursor_x (grid (set_cursor_y y p)) = cursor_x (grid p)"
  "scroll_top (grid (set_cursor_x x p)) = scroll_top (grid p)" "scroll_bottom (grid (set_cursor_x x p)) = scroll_bottom (grid p)"
  "scroll_top (grid (set_cursor_y y p)) = scroll_top (grid p)" "scroll_bottom (grid (set_cursor_y y p)) = scroll_bottom (grid p)"
  "modes (grid (set_cursor_x x p)) = modes (grid p)" "modes (grid (set_cursor_y y p)) = modes (grid p)"
  "state (set_cursor_x x p) = state p" "state (set_cursor_y y p) = state p"
  by (simp_all add: set_cursor_x_def set_cursor_y_def)

lemma perf_inv_bounds:
  assumes "perf_inv L p"
  shows "1 \<le> cols (grid p)" "cols (grid p) \<le> U16_MAX" "1 \<le> rows (grid p)" "rows (grid p) \<le> U16_MAX"
    "cursor_x (grid p) < cols (grid p)" "cursor_y (grid p) < rows (grid p)"
    "scroll_top (grid p) \<le> scroll_bottom (grid p)" "scroll_bottom (grid p) < rows (grid p)"
  using assms by (simp_all add: perf_inv_def grid_inv_def)

lemma perf_inv_modes [simp]: "perf_inv L p \<Longrightarrow> perf_inv L (set_modes_by f p)"
  by (auto simp: perf_inv_def set_modes_by_def)

text \<open>State updates that touch neither the saved grid nor the queues.\<close>

lemma perf_inv_with_state:
  assumes "perf_inv L p" "state_ok (h (state p))" "saved_grid (h (state p)) = saved_grid (state p)"
  shows "perf_inv L (with_state h p)"
  using assms by (auto simp: perf_inv_def)

subsection \<open>Cursor motion\<close>

lemma cursor_motion_inv:
  assumes "perf_inv L p"
  shows "perf_inv L (csi_cursor_up n p)" "succeeds (csi_cursor_down n p) (perf_inv L)"
    "succeeds (csi_cursor_forward n p) (perf_inv L)" "perf_inv L (csi_cursor_back n p)"
    "succeeds (csi_cursor_next_line n p) (perf_inv L)" "perf_inv L (csi_cursor_prev_line n p)"
    "succeeds (csi_cursor_horizontal_absolute n p) (perf_inv L)" "succeeds (csi_line_position_absolute n p) (perf_inv L)"
    "succeeds (csi_cursor_position n m p) (perf_inv L)"
proof -
  note b = perf_inv_bounds [OF assms]
  show "perf_inv L (csi_cursor_up n p)" "perf_inv L (csi_cursor_back n p)" "perf_inv L (csi_cursor_prev_line n p)"
    using assms b by (auto simp: csi_cursor_up_def csi_cursor_back_def csi_cursor_prev_line_def Let_def)
  show "succeeds (csi_cursor_down n p) (perf_inv L)" "succeeds (csi_cursor_next_line n p) (perf_inv L)"
    using assms b by (auto simp: csi_cursor_down_def csi_cursor_next_line_def min_less_iff_disj)
  show "succeeds (csi_cursor_forward n p) (perf_inv L)" "succeeds (csi_cursor_horizontal_absolute n p) (perf_inv L)"
    using assms b by (auto simp: csi_cursor_forward_def csi_cursor_horizontal_absolute_def min_less_iff_disj)
  show "succeeds (csi_line_position_absolute n p) (perf_inv L)" "succeeds (csi_cursor_position n m p) (perf_inv L)"
    using assms b by (auto simp: csi_line_position_absolute_def csi_cursor_position_def min_less_iff_disj)
qed

subsection \<open>Interning through the performer\<close>

lemma keeps_style_table: "grid_inv g \<Longrightarrow> table_inv t \<Longrightarrow> keeps g (g\<lparr>style_table := t\<rparr>)"
  by (simp add: keeps_def)

lemma intern_style_spec:
  assumes "perf_inv L p"
  shows "succeeds (intern_style s p) (\<lambda>(i, p'). pkeeps L p p' \<and> cells (grid p') = cells (grid p)
     \<and> interned s (style_table (grid p)) (i, style_table (grid p')))"
proof -
  have t: "table_inv (style_table (grid p))" using assms by (simp add: perf_inv_def grid_inv_def)
  have "pkeeps L p (with_grid (\<lambda>g. g\<lparr>style_table := t'\<rparr>) p)" if "table_inv t'" for t'
    using assms that by (simp add: pkeeps_def keeps_style_table perf_inv_def)
  then show ?thesis
    using intern_spec [OF t, of s]
    by (auto simp: intern_style_def interned_def elim!: succeeds_mono)
qed

lemma intern_with_gc_keeps:
  assumes "perf_inv L p"
  shows "succeeds (intern_with_gc s p) (\<lambda>(i, p'). pkeeps L p p')"
proof -
  have gc: "pkeeps L p1 (with_grid (compact_styles sv) p1)" if "perf_inv L p1" for p1 sv
    using that compact_styles_inv [of "grid p1" sv] keeps_perf_inv [of L p1]
    by (simp add: pkeeps_def with_grid_def perf_inv_def)
  have "succeeds (intern_style s (with_grid (compact_styles sv) p1)) (\<lambda>(i, p'). pkeeps L p p')" if "pkeeps L p p1" for p1 sv
  proof -
    have p2: "pkeeps L p (with_grid (compact_styles sv) p1)"
      using gc [OF pkeeps_inv [OF that], of sv] that by (blast intro: pkeeps_trans)
    show ?thesis
      by (rule succeeds_mono [OF intern_style_spec [OF pkeeps_inv [OF p2]]]) (auto intro: pkeeps_trans [OF p2])
  qed
  then show ?thesis
    using intern_style_spec [OF assms, of s]
    by (auto simp: intern_with_gc_def elim!: succeeds_mono)
qed

lemma blank_cell_keeps:
  "perf_inv L p \<Longrightarrow> succeeds (blank_cell p) (\<lambda>(c, p'). pkeeps L p p' \<and> ch c = SP \<and> width c = 1)"
  by (auto simp: blank_cell_def cell_new_def elim!: succeeds_mono [OF intern_with_gc_keeps])

lemma blank_bind:
  assumes "perf_inv L p" "\<And>c p1. pkeeps L p p1 \<Longrightarrow> succeeds (f c p1) Q"
  shows "succeeds (blank_cell p \<bind> (\<lambda>(c, p1). f c p1)) Q"
  by (rule succeeds_bindI [OF blank_cell_keeps [OF assms(1)]]) (auto intro: assms(2))

lemma perf_scroll_keeps:
  assumes "perf_inv L p"
  shows "succeeds (perf_scroll_up p) (pkeeps L p)" "succeeds (perf_scroll_down p) (pkeeps L p)"
proof -
  have gi: "grid_inv (grid p1)" if "pkeeps L p p1" for p1
    using that by (simp add: pkeeps_def keeps_def)
  have up: "succeeds (on_grid (scroll_up b c) p1) (pkeeps L p)" if "pkeeps L p p1" for p1 b c
    using on_grid_keeps [where f = "scroll_up b c", OF pkeeps_inv [OF that] scroll_up_keeps [OF gi [OF that]]]
    by (rule succeeds_mono) (rule pkeeps_trans [OF that])
  have down: "succeeds (on_grid (scroll_down c) p1) (pkeeps L p)" if "pkeeps L p p1" for p1 c
    using on_grid_keeps [where f = "scroll_down c", OF pkeeps_inv [OF that] scroll_down_keeps [OF gi [OF that]]]
    by (rule succeeds_mono) (rule pkeeps_trans [OF that])
  show "succeeds (perf_scroll_up p) (pkeeps L p)" "succeeds (perf_scroll_down p) (pkeeps L p)"
    unfolding perf_scroll_up_def perf_scroll_down_def by (rule blank_bind [OF assms], erule up down)+
qed

subsection \<open>Erasing\<close>

lemma erase_keeps:
  assumes "perf_inv L p"
  shows "succeeds (on_grid (erase_cells y a b c) p) (pkeeps L p)" "succeeds (on_grid (erase_rows a b c) p) (pkeeps L p)"
  using assms by (auto intro!: on_grid_geom erase_cells_geom erase_rows_geom perf_inv_grid)

lemmas erase_inv = erase_keeps [THEN succeeds_pkeepsD]

lemma pkeeps_then: "pkeeps L p p1 \<Longrightarrow> succeeds m (pkeeps L p1) \<Longrightarrow> succeeds m (pkeeps L p)"
  by (auto elim: succeeds_mono intro: pkeeps_trans)

lemma push_passthrough_ok: "state_ok s \<Longrightarrow> state_ok (push_passthrough d s)"
  by (simp add: state_ok_def push_passthrough_def)

lemma push_response_ok: "state_ok s \<Longrightarrow> state_ok (push_response d s)"
  by (simp add: state_ok_def push_response_def)

lemma push_notification_ok: "state_ok s \<Longrightarrow> state_ok (push_notification d s)"
  by (auto simp: state_ok_def push_notification_def Let_def MAX_QUEUED_NOTIFICATIONS_def)

lemma push_saved_grid [simp]:
  "saved_grid (push_passthrough d s) = saved_grid s" "saved_grid (push_response d s) = saved_grid s"
  "saved_grid (push_notification d s) = saved_grid s"
  by (simp_all add: push_passthrough_def push_response_def push_notification_def Let_def)

lemma push_inv [simp]:
  assumes "perf_inv L p"
  shows "perf_inv L (with_state (push_passthrough d) p)" "perf_inv L (with_state (push_response d) p)"
    "perf_inv L (with_state (push_notification d) p)"
  using assms push_passthrough_ok push_response_ok push_notification_ok
  by (simp_all add: perf_inv_def)

lemma csi_erase_display_inv:
  assumes "perf_inv L p"
  shows "succeeds (csi_erase_display mode p) (perf_inv L)"
proof -
  have two: "succeeds (on_grid f p1 \<bind> h) (perf_inv L)"
    if "succeeds (on_grid f p1) (pkeeps L p1)" "\<And>p2. perf_inv L p2 \<Longrightarrow> succeeds (h p2) (perf_inv L)" for f p1 h
    using that(1) by (rule perf_bind) (rule that(2), erule pkeeps_inv)
  have cs: "succeeds (on_grid clear_scrollback p1) (pkeeps L p1)" if "perf_inv L p1" for p1
    using that by (intro on_grid_keeps clear_scrollback_keeps perf_inv_grid)
  show ?thesis
    unfolding csi_erase_display_def Let_def
  proof (rule blank_bind [OF assms])
    fix c p1 assume "pkeeps L p p1"
    then have inv: "perf_inv L p1" by (rule pkeeps_inv)
    show "succeeds (if mode = 0 then
         on_grid (erase_cells (cursor_y (grid p1)) (cursor_x (grid p1)) (cols (grid p1)) c) p1
           \<bind> (\<lambda>p. on_grid (erase_rows (cursor_y (grid p1) + 1) (rows (grid p)) c) p)
       else if mode = 1 then
         on_grid (erase_rows 0 (cursor_y (grid p1)) c) p1
           \<bind> (\<lambda>p. on_grid (erase_cells (cursor_y (grid p1)) 0 (min (cursor_x (grid p1) + 1) (cols (grid p))) c) p)
       else if mode = 2 then on_grid (erase_rows 0 (rows (grid p1)) c) p1
       else if mode = 3 then
         on_grid clear_scrollback p1 \<bind> (\<lambda>p. Some (with_state (push_passthrough [27, 91, 51, 74]) p))
       else Some p1) (perf_inv L)"
      using inv
      by (auto simp del: succeeds_bind intro!: two erase_keeps [OF inv] cs erase_inv)
  qed
qed

lemma csi_erase_line_inv:
  "perf_inv L p \<Longrightarrow> succeeds (csi_erase_line mode p) (perf_inv L)"
  unfolding csi_erase_line_def
  by (intro blank_bind) (auto intro!: succeeds_pkeepsD erase_keeps dest: pkeeps_inv)

lemma csi_erase_character_inv:
  "perf_inv L p \<Longrightarrow> succeeds (csi_erase_character n p) (perf_inv L)"
  unfolding csi_erase_character_def
  by (intro blank_bind) (auto intro!: succeeds_pkeepsD erase_keeps dest: pkeeps_inv)

subsection \<open>Inserting and deleting characters and lines\<close>

lemma delete_shift_len:
  "x < row_len r \<Longrightarrow> succeeds (delete_shift n x blank r) (\<lambda>r'. row_len r' = row_len r)"
  unfolding delete_shift_def
  by (rule repeatM_invariant) (auto simp: row_remove_def row_push_def row_len_def Let_def)

lemma insert_shift_len:
  "x < row_len r \<Longrightarrow> succeeds (insert_shift n x blank r) (\<lambda>r'. row_len r' = row_len r)"
  unfolding insert_shift_def
  by (rule repeatM_invariant) (auto simp: row_insert_def row_pop_def row_len_def Let_def)

lemma delete_fixup_len:
  "x < row_len r \<Longrightarrow> succeeds (delete_fixup x blank r) (\<lambda>r'. row_len r' = row_len r)"
  by (auto simp: delete_fixup_def row_len_def)

lemma insert_fixup_len:
  "x < row_len r \<Longrightarrow> succeeds (insert_fixup x blank r) (\<lambda>r'. row_len r' = row_len r)"
  by (auto simp: insert_fixup_def row_len_def)

lemma row_edit_keeps:
  assumes p: "perf_inv L p" and y: "y < rows (grid p)"
    and f: "\<And>r. row_len r = cols (grid p) \<Longrightarrow> succeeds (f r) (\<lambda>r'. row_len r' = row_len r)"
  shows "succeeds (on_grid (visible_row_mut y f) p) (pkeeps L p)"
proof (rule on_grid_geom [OF p])
  show "succeeds (visible_row_mut y f (grid p)) (geom_eq (grid p))"
    using f by (intro visible_row_mut_geom perf_inv_grid [OF p] y) (auto elim: succeeds_mono)
qed

lemma edit_prefix_keeps:
  assumes "perf_inv L p"
  shows "succeeds (on_grid (prepare_addressed_write y) p) (pkeeps L p)" "succeeds (on_grid (fixup_wide_char_at x y) p) (pkeeps L p)"
  using assms by (auto intro!: on_grid_geom prepare_addressed_write_geom fixup_wide_char_at_geom perf_inv_grid)

lemma csi_delete_character_inv:
  assumes "perf_inv L p"
  shows "succeeds (csi_delete_character n p) (perf_inv L)"
proof -
  have "succeeds (do {
       p \<leftarrow> on_grid (prepare_addressed_write y) p1;
       p \<leftarrow> on_grid (fixup_wide_char_at x y) p;
       p \<leftarrow> on_grid (visible_row_mut y (delete_shift m x blank)) p;
       if x < c then on_grid (visible_row_mut y (delete_fixup x blank)) p else Some p }) (pkeeps L p1)"
    if "perf_inv L p1" "x < cols (grid p1)" "y < rows (grid p1)" "c = cols (grid p1)" for p1 x y c m blank
    using that
    by (intro pkeeps_bind edit_prefix_keeps row_edit_keeps delete_shift_len)
      (auto simp: pkeeps_fields pkeeps_inv pkeeps_refl intro!: row_edit_keeps delete_fixup_len)
  note edit = this [THEN succeeds_pkeepsD]
  show ?thesis
    unfolding csi_delete_character_def Let_def
  proof (rule blank_bind [OF assms], goal_cases)
    case (1 c p1)
    then have inv: "perf_inv L p1" by (rule pkeeps_inv)
    show ?case
      unfolding if_P [OF perf_inv_bounds(6) [OF inv]] by (rule edit) (simp_all add: perf_inv_bounds [OF inv] inv)
  qed
qed

lemma csi_insert_character_inv:
  assumes "perf_inv L p"
  shows "succeeds (csi_insert_character n p) (perf_inv L)"
proof -
  have "succeeds (do {
       p \<leftarrow> on_grid (prepare_addressed_write y) p1;
       p \<leftarrow> on_grid (fixup_wide_char_at x y) p;
       p \<leftarrow> on_grid (visible_row_mut y (insert_shift m x blank)) p;
       last_col \<leftarrow> usub (cols (grid p1)) 1;
       on_grid (visible_row_mut y (insert_fixup last_col blank)) p }) (pkeeps L p1)"
    if "perf_inv L p1" "x < cols (grid p1)" "y < rows (grid p1)" for p1 x y m blank
    using that perf_inv_bounds [OF that(1)]
    by (intro pkeeps_bind edit_prefix_keeps row_edit_keeps insert_shift_len)
      (auto simp: pkeeps_fields pkeeps_inv intro!: row_edit_keeps insert_fixup_len)
  note edit = this [THEN succeeds_pkeepsD]
  show ?thesis
    unfolding csi_insert_character_def Let_def
  proof (rule blank_bind [OF assms], goal_cases)
    case (1 c p1)
    then have inv: "perf_inv L p1" by (rule pkeeps_inv)
    show ?case
      unfolding if_P [OF perf_inv_bounds(6) [OF inv]] by (rule edit) (simp_all add: perf_inv_bounds [OF inv] inv)
  qed
qed

lemma scroll_n_inv:
  assumes "perf_inv L p"
  shows "succeeds (csi_scroll_up_n n p) (perf_inv L)" "succeeds (csi_scroll_down_n n p) (perf_inv L)"
  unfolding csi_scroll_up_n_def csi_scroll_down_n_def
  using assms by (auto intro!: repeatM_invariant perf_scroll_keeps [THEN succeeds_pkeepsD])

lemma lines_inv:
  assumes "perf_inv L p"
  shows "succeeds (csi_delete_lines n p) (perf_inv L)" "succeeds (csi_insert_lines n p) (perf_inv L)"
proof -
  have rep: "succeeds (on_grid (repeatM k f) (clear_wrap p1)) (perf_inv L)"
    if p1: "perf_inv L p1" and f: "\<And>g. keeps (grid (clear_wrap p1)) g \<Longrightarrow> succeeds (f g) (keeps g)" for p1 k f
  proof -
    have "succeeds (repeatM k f (grid (clear_wrap p1))) (keeps (grid (clear_wrap p1)))"
    proof (rule repeatM_invariant)
      fix g assume g: "keeps (grid (clear_wrap p1)) g"
      show "succeeds (f g) (keeps (grid (clear_wrap p1)))"
        by (rule succeeds_mono [OF f [OF g]]) (rule keeps_trans [OF g])
    qed (rule keeps_refl [OF perf_inv_grid [OF clear_wrap_inv [OF p1]]])
    then show ?thesis
      using p1 by (intro on_grid_keeps [THEN succeeds_pkeepsD] clear_wrap_inv)
  qed
  have step: "succeeds (delete_line_step (cursor_y (grid p1)) (scroll_bottom (grid p1)) c g) (keeps g)"
    "succeeds (insert_line_step (cursor_y (grid p1)) (scroll_bottom (grid p1)) c g) (keeps g)"
    if "perf_inv L p1" "keeps (grid (clear_wrap p1)) g" for p1 c g
    using that perf_inv_bounds [OF that(1)]
    by (auto intro!: delete_line_step_keeps insert_line_step_keeps simp: keeps_def)
  show "succeeds (csi_delete_lines n p) (perf_inv L)"
    unfolding csi_delete_lines_def Let_def
    by (rule blank_bind [OF assms]) (auto simp: pkeeps_inv intro!: rep step)
  show "succeeds (csi_insert_lines n p) (perf_inv L)"
    unfolding csi_insert_lines_def Let_def
    by (rule blank_bind [OF assms]) (auto simp: pkeeps_inv intro!: rep step)
qed

lemma csi_set_scrolling_region_inv:
  assumes "perf_inv L p"
  shows "succeeds (csi_set_scrolling_region t b p) (perf_inv L)"
proof -
  note bd = perf_inv_bounds [OF assms]
  have "perf_inv L (with_grid (set_scroll_region t' b') p)" if "t' \<le> b'" "b' < rows (grid p)" for t' b'
    using assms that by (auto simp: perf_inv_def grid_inv_def set_scroll_region_def)
  then show ?thesis
    unfolding csi_set_scrolling_region_def Let_def
    using bd assms by (auto simp: set_scroll_region_def min_less_iff_disj)
qed

subsection \<open>Printing\<close>

lemma handle_combining_mark_inv:
  assumes p: "perf_inv L p"
  shows "succeeds (handle_combining_mark c p) (perf_inv L)"
proof -
  note b = perf_inv_bounds [OF p] and gi = perf_inv_grid [OF p]
  have "succeeds (on_grid (push_print_combining (cursor_y (grid p)) tx c) p) (perf_inv L)" for tx
    using p b by (intro on_grid_geom [THEN succeeds_pkeepsD] push_print_combining_geom gi) auto
  moreover have "row_len (cells (grid p) ! (scrollback_len (grid p) + cursor_y (grid p))) = cols (grid p)"
    using gi b by (intro grid_inv_visible_len)
  ultimately show ?thesis
    using p b gi by (simp add: handle_combining_mark_def Let_def)
qed

lemma line_feed_motion_spec:
  "perf_inv L p \<Longrightarrow> succeeds (line_feed_motion p) (\<lambda>p'. perf_inv L p' \<and> cursor_x (grid p') = cursor_x (grid p))"
  using perf_inv_bounds [of L p]
  by (auto simp: line_feed_motion_def pkeeps_fields intro: pkeeps_inv intro!: succeeds_mono [OF perf_scroll_keeps(1)])

lemma line_feed_motion_inv: "perf_inv L p \<Longrightarrow> succeeds (line_feed_motion p) (perf_inv L)"
  by (rule succeeds_mono [OF line_feed_motion_spec [of L]]) simp_all

lemma take_qualified_wrap_same:
  assumes "grid_inv g"
  shows "succeeds (take_qualified_wrap g) (\<lambda>(w, g'). same_content g g')"
proof -
  have "succeeds (visible_row (cursor_y g) (g\<lparr>pending_wrap := None\<rparr>)) (\<lambda>_. True)"
    using assms by (simp add: grid_inv_def)
  then show ?thesis
    by (auto simp: take_qualified_wrap_def split: option.split elim!: succeeds_mono)
qed

lemma arm_qualified_wrap_same:
  assumes "grid_inv g"
  shows "succeeds (arm_qualified_wrap k n g) (same_content g)"
proof -
  have "succeeds (visible_row (cursor_y g) (g\<lparr>wrap_pending := True\<rparr>)) (\<lambda>_. True)"
    using assms by (simp add: grid_inv_def)
  then show ?thesis
    by (auto simp: arm_qualified_wrap_def same_content_iff elim!: succeeds_mono)
qed

lemma publish_deferred_wrap_same:
  assumes "grid_inv g"
  shows "succeeds (publish_deferred_wrap w g) (same_content g)"
proof -
  have upd: "succeeds (upd_row i (\<lambda>r. Some (r\<lparr>outgoing := e\<rparr>)) (g\<lparr>next_edge_id := n\<rparr>))
      (\<lambda>g'. same_content g (g'\<lparr>sequential_edge := s\<rparr>))" if "i < length (cells g)" for i e n s
    using clear_outgoing_ok [of i "g\<lparr>next_edge_id := n\<rparr>" e] that
    by (auto simp: same_content_iff elim!: succeeds_mono)
  show ?thesis
    using assms grid_inv_lengths(6) [OF assms]
    by (auto simp: publish_deferred_wrap_def Let_def same_content_iff take_id_def
        split: option.split dest!: position_SomeD intro!: succeeds_mono [OF upd])
qed

lemma wrap_keeps:
  assumes "perf_inv L p"
  shows "succeeds (on_grid (arm_qualified_wrap k n) p) (pkeeps L p)" "succeeds (on_grid (publish_deferred_wrap w) p) (pkeeps L p)"
  using assms
  by (auto intro!: on_grid_geom succeeds_geomI arm_qualified_wrap_same publish_deferred_wrap_same perf_inv_grid)

lemmas wrap_inv = wrap_keeps [THEN succeeds_pkeepsD]

text \<open>After a deferred wrap the cursor is in the first column of a valid screen.\<close>

lemma perform_deferred_wrap_spec:
  assumes p: "perf_inv L p"
  shows "succeeds (perform_deferred_wrap p) (\<lambda>p'. perf_inv L p' \<and> cursor_x (grid p') = 0)"
proof -
  have step: "succeeds (on_grid (publish_deferred_wrap w) p1) (\<lambda>p'. perf_inv L p' \<and> cursor_x (grid p') = 0)"
    if "perf_inv L p1 \<and> cursor_x (grid p1) = cursor_x (grid (set_cursor_x 0 p2))" for w p1 p2
    using that by (auto intro!: succeeds_mono [OF wrap_keeps(2)] simp: pkeeps_fields intro: pkeeps_inv)
  have "succeeds (line_feed_motion (set_cursor_x 0 (clear_wrap (p\<lparr>grid := g\<rparr>))) \<bind> on_grid (publish_deferred_wrap w))
      (\<lambda>p'. perf_inv L p' \<and> cursor_x (grid p') = 0)"
    if "same_content (grid p) g" for g w
  proof -
    have "perf_inv L (p\<lparr>grid := g\<rparr>)"
      using p that by (intro keeps_perf_inv geom_keeps same_content_geom perf_inv_grid)
    then have "perf_inv L (set_cursor_x 0 (clear_wrap (p\<lparr>grid := g\<rparr>)))"
      using perf_inv_bounds(1) by fastforce
    then show ?thesis
      by (rule succeeds_bindI [OF line_feed_motion_spec step])
  qed
  then show ?thesis
    unfolding perform_deferred_wrap_def Let_def
    by (intro succeeds_bindI [OF take_qualified_wrap_same [OF perf_inv_grid [OF p]]]) auto
qed

lemma wide_early_wrap_spec:
  assumes p: "perf_inv L p"
  shows "succeeds (wide_early_wrap p) (\<lambda>p'. perf_inv L p' \<and> cursor_x (grid p') = 0)"
proof -
  have pad: "succeeds (if x < cols (grid p) \<and> y < rows (grid p)
      then do { (blank, p) \<leftarrow> blank_cell p; on_grid (set_wide_early_padding x y blank) p } else Some p) (perf_inv L)" for x y
    using p by (auto simp del: succeeds_bind dest: pkeeps_inv
        intro!: blank_bind on_grid_geom [THEN succeeds_pkeepsD] set_wide_early_padding_geom perf_inv_grid)
  show ?thesis
    unfolding wide_early_wrap_def Let_def
    by (intro succeeds_bindI [OF pad] succeeds_bindI [OF wrap_inv(1)] perform_deferred_wrap_spec)
qed

lemma print_cell_inv:
  assumes p: "perf_inv L p" and w: "cursor_x (grid p) + w \<le> U16_MAX"
  shows "succeeds (print_cell c w p) (perf_inv L)"
proof -
  have tail: "succeeds (do {
       p \<leftarrow> on_grid (set_print_cell x y cell) p1;
       new_x \<leftarrow> add16 (cursor_x (grid p)) w;
       if cols (grid p) \<le> new_x then do {
         m \<leftarrow> sub16 (cols (grid p)) 1;
         let p = set_cursor_x m p;
         if autowrap_mode (modes (grid p)) then on_grid (arm_qualified_wrap Normal 0) p else Some p }
       else Some (set_cursor_x new_x p) }) (perf_inv L)"
    if "pkeeps L p p1" for p1 x y cell
  proof (rule succeeds_bindI)
    show "succeeds (on_grid (set_print_cell x y cell) p1) (pkeeps L p1)"
      using that by (intro on_grid_geom set_print_cell_geom perf_inv_grid pkeeps_inv)
    fix p2 assume "pkeeps L p1 p2"
    with that have p2: "pkeeps L p p2" by (rule pkeeps_trans)
    then show "succeeds (do {
       new_x \<leftarrow> add16 (cursor_x (grid p2)) w;
       if cols (grid p2) \<le> new_x then do {
         m \<leftarrow> sub16 (cols (grid p2)) 1;
         let p = set_cursor_x m p2;
         if autowrap_mode (modes (grid p)) then on_grid (arm_qualified_wrap Normal 0) p else Some p }
       else Some (set_cursor_x new_x p2) }) (perf_inv L)"
      using w perf_inv_bounds [OF pkeeps_inv [OF p2]] pkeeps_fields [OF p2] pkeeps_inv [OF p2]
      by (auto intro: wrap_inv)
  qed
  show ?thesis
    unfolding print_cell_def Let_def
    using p tail [unfolded Let_def]
    by (auto simp del: succeeds_bind intro!: succeeds_bindI [OF intern_with_gc_keeps])
qed

text \<open>
  The display width of a character is a parameter: what the \<open>unicode_width\<close> crate answers, no width at
  all for a control character. Nothing is assumed of it. The code adds the width to the column in \<open>u16\<close>;
  a wide character is moved to the next line before that, a character wider than two columns is not, so
  it must fit behind the last column (with a width of three, as U+17D8 has in \<open>unicode-width\<close> 0.2, up to
  65533 columns).
\<close>

definition width_fits :: "(rchar \<Rightarrow> nat option) \<Rightarrow> nat \<Rightarrow> bool" where
  "width_fits uw n \<longleftrightarrow> (\<forall>c w. uw c = Some w \<longrightarrow> w \<le> 2 \<or> n + w \<le> U16_MAX + 1)"

lemma set_last_printed_inv: "perf_inv L p \<Longrightarrow> perf_inv L (with_state (\<lambda>s. s\<lparr>last_printed_char := c\<rparr>) p)"
  by (auto intro!: perf_inv_with_state simp: perf_inv_def state_ok_def)

lemma print_after_wrap_inv:
  assumes p: "perf_inv L p" and w: "w \<le> 2 \<or> ex_cols L + w \<le> U16_MAX + 1"
  shows "succeeds (do {
       at_margin \<leftarrow> (if w = 2
         then do { m \<leftarrow> sub16 (cols (grid p)) 1; Some (m \<le> cursor_x (grid p)) } else Some False);
       if at_margin then
         (if autowrap_mode (modes (grid p)) then
            (if cols (grid p) < 2 then Some p
             else do { p \<leftarrow> wide_early_wrap p; print_cell c w p })
          else Some p)
       else print_cell c w p }) (perf_inv L)"
proof -
  note b = perf_inv_bounds [OF p]
  have c: "cols (grid p) = ex_cols L" using p by (simp add: perf_inv_def)
  have w16: "w \<le> U16_MAX" using w b(1) c by (auto simp: U16_MAX_def)
  have wide: "succeeds (wide_early_wrap p \<bind> print_cell c w) (perf_inv L)"
    by (rule succeeds_bindI [OF wide_early_wrap_spec [OF p]]) (use w16 in \<open>auto intro!: print_cell_inv\<close>)
  have "succeeds (print_cell c w p) (perf_inv L)" if "w \<noteq> 2 \<or> \<not> cols (grid p) - 1 \<le> cursor_x (grid p)"
    using p b w c that by (intro print_cell_inv) auto
  then show ?thesis
    using wide b p by (cases "w = 2") (auto simp del: succeeds_bind simp: sub16_def)
qed

lemma print_inv:
  assumes p: "perf_inv L p" and uw: "width_fits uw (ex_cols L)"
  shows "succeeds (print uw c p) (perf_inv L)"
proof -
  let ?p = "with_state (\<lambda>s. s\<lparr>last_printed_char := c\<rparr>) p"
  let ?w = "case uw (map_charset ?p c) of None \<Rightarrow> 0 | Some w \<Rightarrow> as_u16 w"
  have p': "perf_inv L ?p" using p by (rule set_last_printed_inv)
  have w: "?w \<le> 2 \<or> ex_cols L + ?w \<le> U16_MAX + 1"
  proof (cases "uw (map_charset ?p c)")
    case (Some v)
    then have "v \<le> 2 \<or> ex_cols L + v \<le> U16_MAX + 1" using uw by (simp add: width_fits_def)
    then show ?thesis using as_u16_le [of v] Some by auto
  qed simp
  have wrap: "succeeds (if wrap_pending (grid ?p) \<and> autowrap_mode (modes (grid ?p)) then perform_deferred_wrap ?p else Some ?p) (perf_inv L)"
    using p' by (auto intro: succeeds_mono [OF perform_deferred_wrap_spec])
  show ?thesis
  proof (cases "?w = 0")
    case True
    then show ?thesis
      using handle_combining_mark_inv [OF p'] by (simp add: print_def)
  next
    case False
    show ?thesis
      unfolding print_def Let_def if_not_P [OF False]
      by (rule succeeds_bindI [OF wrap print_after_wrap_inv [OF _ w]])
  qed
qed

subsection \<open>Control bytes\<close>

lemma next_tab_stop_bound: "grid_inv g \<Longrightarrow> succeeds (next_tab_stop c g) (\<lambda>x. x < cols g)"
proof -
  assume inv: "grid_inv g"
  have "as_u16 i < cols g" if "List.find P [a..<length (tab_stops g)] = Some i" for P a i
    using that inv as_u16_le [of i] by (auto simp: find_Some_iff grid_inv_def)
  then show ?thesis
    using inv by (auto simp: next_tab_stop_def grid_inv_def split: option.split)
qed

lemma execute_inv:
  assumes p: "perf_inv L p"
  shows "succeeds (execute b p) (perf_inv L)"
proof -
  note bd = perf_inv_bounds [OF p]
  have "succeeds (next_tab_stop (cursor_x (grid (clear_wrap p))) (grid (clear_wrap p)))
      (\<lambda>x. perf_inv L (set_cursor_x x (clear_wrap p)))"
    using p next_tab_stop_bound [OF perf_inv_grid [OF clear_wrap_inv [OF p]]]
    by (auto elim!: succeeds_mono)
  then show ?thesis
    using p bd by (auto simp: execute_def Let_def intro!: line_feed_motion_inv)
qed

end
