(* ===== verification/Performer_Alt.thy ===== *)
theory Performer_Alt
  imports Performer_Inv
begin

text \<open>
  The alternate screen: entering it saves the visible rows and leaving it puts them back, at
  whatever geometry the screen has by then.
\<close>

subsection \<open>Entering\<close>

lemma fill_visible_blank_spec:
  assumes "frame_ok g" "length (cells g) = scrollback_len g"
  shows "succeeds (fill_visible_blank g) (\<lambda>g'. grid_inv g' \<and> frame_but_ids (g\<lparr>in_alt_domain := True\<rparr>) g'
     \<and> take (scrollback_len g) (contents g') = contents g)"
proof -
  obtain bs where bs: "contents ((push_fresh_blank (cols g) ^^ rows g) g) = contents g @ bs" "length bs = rows g"
    "blank_contents (cols g) bs" "frame_but_ids g ((push_fresh_blank (cols g) ^^ rows g) g)"
    using push_rows [of g "rows g" "cols g"] by blast
  let ?g1 = "(push_fresh_blank (cols g) ^^ rows g) g"
  let ?g = "?g1\<lparr>in_alt_domain := True, pending_wrap := None, sequential_edge := None\<rparr>"
  note ff = frame_but_ids_fields [OF bs(4)]
  have len: "length (cells ?g1) = scrollback_len g + rows g"
    using arg_cong [OF bs(1), of length] bs(2) assms(2) by simp
  have "visible_ok (scrollback_len g) (cols g) (contents ?g1)"
    using bs assms(2) by (auto simp: visible_ok_def blank_contents_def elim: list.pred_mono_strong)
  then have "grid_inv ?g"
    using assms ff len by (simp add: grid_inv_split frame_ok_def)
  moreover have "frame_but_ids (g\<lparr>in_alt_domain := True\<rparr>) ?g"
    using bs(4) by (simp add: frame_but_ids_def frame_def)
  moreover have "fill_visible_blank g = Some ?g"
    using assms(1) len ff by (simp add: fill_visible_blank_def Let_def check_invariants_def frame_ok_def)
  ultimately show ?thesis
    using bs assms(2) by simp
qed

lemma drain_visible_spec:
  assumes "grid_inv g"
  shows "drain_visible g = Some (drop (scrollback_len g) (cells g), g\<lparr>cells := take (scrollback_len g) (cells g)\<rparr>)"
  using grid_inv_lengths(1) [OF assms] by (simp add: drain_visible_def usub_def)

lemma reset_scroll_region_inv:
  "grid_inv g \<Longrightarrow> succeeds (reset_scroll_region g) (\<lambda>g'. grid_inv g' \<and> g' = g\<lparr>scroll_top := 0, scroll_bottom := rows g - 1\<rparr>)"
  by (auto simp: reset_scroll_region_def grid_inv_def)

lemma contents_set_wrap_pending [simp]: "contents (set_wrap_pending v g) = contents g"
  by (simp add: contents_def)

lemma on_grid_bind [simp]: "succeeds (on_grid f p) P = succeeds (f (grid p)) (\<lambda>g. P (p\<lparr>grid := g\<rparr>))"
  by (simp add: on_grid_def)

definition entered :: "ScreenPerformer \<Rightarrow> ScreenPerformer \<Rightarrow> bool" where
  "entered p p' \<longleftrightarrow> in_alt_screen (state p') \<and> cols (grid p') = cols (grid p) \<and> rows (grid p') = rows (grid p)
     \<and> scrollback_len (grid p') = scrollback_len (grid p)
     \<and> take (scrollback_len (grid p)) (contents (grid p')) = take (scrollback_len (grid p)) (contents (grid p))
     \<and> (\<exists>sg. saved_grid (state p') = Some sg \<and> sg_visible_cells sg = drop (scrollback_len (grid p)) (cells (grid p))
          \<and> sg_scrollback_limit sg = scrollback_limit (grid p) \<and> sg_save_cols sg = cols (grid p))
     \<and> saved_modes (state p') = Some (modes (grid p))
     \<and> saved_scroll_region (state p') = Some (scroll_top (grid p), scroll_bottom (grid p))"

lemma enter_alt_screen_spec:
  assumes p: "perf_inv L p" and alt: "\<not> in_alt_screen (state p)"
  shows "succeeds (enter_alt_screen save p) (\<lambda>p'. perf_inv L p' \<and> entered p p'
     \<and> (save \<longrightarrow> is_some_and (saved_cursor_state (state p')) (\<lambda>sc. sc_x sc = cursor_x (grid p) \<and> sc_y sc = cursor_y (grid p)
          \<and> sc_style sc = current_style (state p))))"
proof -
  have gi: "grid_inv (grid p)" and so: "state_ok (state p)" and sg: "saved_grid (state p) = None"
    and sl: "scrollback_len (grid p) \<le> scrollback_limit (grid p)" and lim: "scrollback_limit (grid p) = ex_limit L"
    and co: "cols (grid p) = ex_cols L"
    using p alt by (auto simp: perf_inv_def state_ok_def)
  let ?g = "(grid p)\<lparr>cells := take (scrollback_len (grid p)) (cells (grid p))\<rparr>"
  have fo: "frame_ok ?g" using gi by (simp add: grid_inv_split frame_ok_def)
  have len: "length (cells ?g) = scrollback_len ?g" using grid_inv_lengths(1) [OF gi] by simp
  have fin: "succeeds (reset_scroll_region (g'\<lparr>scrollback_limit := 0, cursor_x := 0, cursor_y := 0\<rparr>))
      (\<lambda>g2. grid_inv (set_wrap_pending False g2) \<and> cols g2 = cols (grid p) \<and> rows g2 = rows (grid p)
        \<and> scrollback_len g2 = scrollback_len (grid p) \<and> scrollback_limit g2 = 0 \<and> contents g2 = contents g'
        \<and> modes g' = modes (grid p))"
    if g': "grid_inv g'" "frame_but_ids (?g\<lparr>in_alt_domain := True\<rparr>) g'" for g'
  proof -
    note ff = frame_but_ids_fields [OF g'(2)]
    have "grid_inv (g'\<lparr>scrollback_limit := 0, cursor_x := 0, cursor_y := 0\<rparr>)"
      using g' grid_inv_lengths [OF g'(1)] by simp
    then show ?thesis
      by (rule succeeds_mono [OF reset_scroll_region_inv]) (use ff in auto)
  qed
  note len' = grid_inv_lengths(1) [OF gi]
  have ok: "perf_inv L p'" if "grid_inv (grid p')" "scrollback_len (grid p') = scrollback_len (grid p)"
     "scrollback_limit (grid p') = 0" "saved_grid (state p') = Some sg'" "sg_scrollback_limit sg' = scrollback_limit (grid p)"
     "state_ok (state p')" "cols (grid p') = cols (grid p)" for p' sg'
    using that sl lim co by (simp add: perf_inv_def)
  have st: "grid (enter_alt_state save p) = grid p" "state_ok (state (enter_alt_state save p)\<lparr>saved_grid := Some sg', saved_modes := m, in_alt_screen := True\<rparr>)"
    "saved_scroll_region (state (enter_alt_state save p)) = Some (scroll_top (grid p), scroll_bottom (grid p))"
    "save \<longrightarrow> is_some_and (saved_cursor_state (state (enter_alt_state save p))) (\<lambda>sc. sc_x sc = cursor_x (grid p)
       \<and> sc_y sc = cursor_y (grid p) \<and> sc_style sc = current_style (state p))" for sg' m
    using so by (simp_all add: enter_alt_state_def save_cursor_with_alt_def Let_def state_ok_def)
  show ?thesis
    using alt drain_visible_spec [OF gi] st
    by (simp add: enter_alt_screen_def Let_def)
      (rule succeeds_mono [OF fill_visible_blank_spec [OF fo len]], rule succeeds_mono [OF fin], simp, simp,
       intro conjI, rule ok, auto simp: entered_def take_map contents_def)
qed

subsection \<open>Leaving\<close>

lemma prepare_alt_restore_spec:
  assumes "prepare_alt_restore saved g = ((w, k), saved', g')"
  shows "same_content g g'" "map strip (sg_visible_cells saved') = map strip (sg_visible_cells saved)"
    "sg_scrollback_limit saved' = sg_scrollback_limit saved" "w = (cols g \<noteq> sg_save_cols saved)"
proof -
  have r: "strip (restore_row A b r) = strip r" for A b r
    by (simp add: restore_row_def Let_def)
  show "same_content g g'" "map strip (sg_visible_cells saved') = map strip (sg_visible_cells saved)"
    "sg_scrollback_limit saved' = sg_scrollback_limit saved" "w = (cols g \<noteq> sg_save_cols saved)"
    using assms sever_ids_same by (auto simp: prepare_alt_restore_def Let_def r split: if_splits)
qed

lemma adjust_visible_to_fit_eq:
  assumes "scrollback_len g \<le> length (cells g)"
  shows "adjust_visible_to_fit g = fit_row_count (cols g) (rows g) g \<bind> (\<lambda>g. check_invariants (validate_all_edges g))"
proof -
  let ?v = "length (cells g) - scrollback_len g"
  have f: "frame ((sever_pop_back ^^ k) g) = frame g" for k by (rule pop_rows)
  have l: "length (cells ((sever_pop_back ^^ k) g)) = length (cells g) - k" for k
    using arg_cong [OF pop_rows(2) [of k g], of length] by simp
  show ?thesis
    using assms frame_fields [OF f] l
    by (auto simp: adjust_visible_to_fit_def fit_row_count_def visible_row_count_def usub_def Let_def not_less)
qed

lemma adjust_spec:
  assumes fo: "frame_ok g" and len: "scrollback_len g \<le> length (cells g)"
  shows "succeeds (adjust_visible_to_fit g) (row_count_fitted (cols g) (rows g) g)"
proof -
  have "succeeds (check_invariants (validate_all_edges g1)) (row_count_fitted (cols g) (rows g) g)"
    if f: "row_count_fitted (cols g) (rows g) g g1" for g1
  proof -
    have v: "frame (validate_all_edges g1) = frame g1" "contents (validate_all_edges g1) = contents g1"
      using validate_all_edges_same [of g1] by (simp_all add: same_content_iff)
    have ok: "row_count_fitted (cols g) (rows g) g (validate_all_edges g1)"
      using f v frame_fields(13) [OF v(1)] by (simp add: row_count_fitted_def frame_but_ids_def)
    have "check_invariants (validate_all_edges g1) = Some (validate_all_edges g1)"
      using ok fo frame_but_ids_fields [of g "validate_all_edges g1"]
      by (simp add: check_invariants_def row_count_fitted_def frame_ok_def)
    with ok show ?thesis by simp
  qed
  then show ?thesis
    unfolding adjust_visible_to_fit_eq [OF len] by (rule succeeds_bindI [OF fit_row_count_spec [OF len]])
qed

definition rows_fitted :: "Grid \<Rightarrow> Grid \<Rightarrow> bool" where
  "rows_fitted g g' \<longleftrightarrow> frame g' = frame g \<and> length (cells g') = length (cells g)
     \<and> visible_ok (scrollback_len g) (cols g) (contents g')
     \<and> take (scrollback_len g) (contents g') = take (scrollback_len g) (contents g)
     \<and> (visible_ok (scrollback_len g) (cols g) (contents g) \<longrightarrow> contents g' = contents g)"

text \<open>The fitting loop after \<open>k\<close> rows.\<close>

definition fit_progress :: "Grid \<Rightarrow> nat \<Rightarrow> Grid \<Rightarrow> bool" where
  "fit_progress g k g' \<longleftrightarrow> frame g' = frame g \<and> length (cells g') = length (cells g)
     \<and> (\<forall>i < length (cells g). if scrollback_len g \<le> i \<and> i < scrollback_len g + k
          then row_fit (cols g) (cells g ! i) (cells g' ! i) else cells g' ! i = cells g ! i)"

lemma fit_progress_done:
  assumes "fit_progress g (rows g) g'" "length (cells g) = scrollback_len g + rows g"
  shows "rows_fitted g g'"
proof -
  have f: "frame g' = frame g" "length (cells g') = length (cells g)"
    and sb: "\<And>i. i < scrollback_len g \<Longrightarrow> cells g' ! i = cells g ! i"
    and vis: "\<And>i. scrollback_len g \<le> i \<Longrightarrow> i < length (cells g) \<Longrightarrow> row_fit (cols g) (cells g ! i) (cells g' ! i)"
    using assms by (auto simp: fit_progress_def split: if_splits)
  have "visible_ok (scrollback_len g) (cols g) (contents g')"
    using vis f(2) by (auto simp: visible_ok_contents list_all_length row_fit_def)
  moreover have "take (scrollback_len g) (contents g') = take (scrollback_len g) (contents g)"
    using sb f(2) assms(2) by (intro nth_equalityI) (auto simp: contents_def)
  moreover have "contents g' = contents g" if v: "visible_ok (scrollback_len g) (cols g) (contents g)"
  proof (rule nth_equalityI)
    fix i assume i: "i < length (contents g')"
    show "contents g' ! i = contents g ! i"
    proof (cases "i < scrollback_len g")
      case False
      then have "row_len (cells g ! i) = cols g"
        using v i f(2) by (auto simp: visible_ok_contents list_all_length dest!: spec [of _ "i - scrollback_len g"])
      then show ?thesis using vis [of i] False i f(2) by (simp add: contents_nth row_fit_def)
    qed (use sb i f(2) in \<open>simp add: contents_nth\<close>)
  qed (simp add: f(2))
  ultimately show ?thesis using f by (simp add: rows_fitted_def)
qed

lemma fit_visible_rows_spec:
  assumes "length (cells g) = scrollback_len g + rows g"
  shows "succeeds (fit_visible_rows g) (rows_fitted g)"
proof -
  have "succeeds (foldM (\<lambda>y. visible_row_mut y (fit_row (cols g))) [0..<rows g] g) (fit_progress g (rows g))"
  proof (rule foldM_upt_invariant)
    fix k g1 assume k: "k < rows g" and g1: "fit_progress g k g1"
    have ff: "rows g1 = rows g" "scrollback_len g1 = scrollback_len g" "length (cells g1) = length (cells g)"
      using g1 frame_fields(2,8) [of g1 g] by (simp_all add: fit_progress_def)
    let ?i = "scrollback_len g + k"
    have "cells g1 ! ?i = cells g ! ?i" using g1 k assms by (simp add: fit_progress_def)
    then have "succeeds (fit_row (cols g) (cells g1 ! ?i)) (row_fit (cols g) (cells g ! ?i))"
      using fit_row_spec [of "cols g" "cells g ! ?i"] by simp
    then show "succeeds (visible_row_mut k (fit_row (cols g)) g1) (fit_progress g (Suc k))"
      using k ff assms g1
      by (auto simp: visible_row_mut_def upd_row_def fit_progress_def nth_list_update elim!: succeeds_mono)
  qed (auto simp: fit_progress_def)
  then show ?thesis
    unfolding fit_visible_rows_def using assms fit_progress_done [OF _ assms]
    by (auto simp: visible_row_count_def elim: succeeds_mono)
qed

definition grid_restored :: "SavedGrid \<Rightarrow> Grid \<Rightarrow> Grid \<Rightarrow> bool" where
  "grid_restored saved g g' \<longleftrightarrow> grid_inv g' \<and> cols g' = cols g \<and> rows g' = rows g
     \<and> cursor_x g' = cursor_x g \<and> cursor_y g' = cursor_y g
     \<and> scroll_top g' = scroll_top g \<and> scroll_bottom g' = scroll_bottom g \<and> modes g' = modes g
     \<and> scrollback_len g' = scrollback_len g \<and> scrollback_limit g' = sg_scrollback_limit saved
     \<and> take (scrollback_len g) (contents g') = take (scrollback_len g) (contents g)
     \<and> (length (sg_visible_cells saved) = rows g \<and> list_all (\<lambda>r. row_len r = cols g) (sg_visible_cells saved)
          \<longrightarrow> drop (scrollback_len g) (contents g') = map strip (sg_visible_cells saved))"

lemma grid_restoredI:
  assumes inv: "grid_inv g" and rs: "map strip rs = map strip (sg_visible_cells saved)"
    and f0: "frame g0 = frame (g\<lparr>in_alt_domain := b, scrollback_limit := sg_scrollback_limit saved\<rparr>)"
    and c0: "contents g0 = take (scrollback_len g) (contents g) @ map strip rs"
    and g1: "row_count_fitted (cols g0) (rows g0) g0 g1" and g2: "rows_fitted g1 g2"
  shows "grid_restored saved g g2"
proof -
  note len = grid_inv_lengths [OF inv]
  have n0: "scrollback_len g0 = scrollback_len g" "cols g0 = cols g" "rows g0 = rows g"
    using frame_fields [OF f0] by simp_all
  have fit: "frame_but_ids g0 g1" "length (contents g1) = scrollback_len g + rows g"
    "take (kept_rows (rows g) g0) (contents g1) = take (kept_rows (rows g) g0) (contents g0)"
    "visible_ok (scrollback_len g) (cols g) (contents g0) \<longrightarrow> visible_ok (scrollback_len g) (cols g) (contents g1)"
    using g1 n0 by (simp_all add: row_count_fitted_def)
  note f1 = frame_but_ids_fields [OF fit(1)]
  have r2: "frame g2 = frame g1" "length (cells g2) = length (cells g1)"
    "visible_ok (scrollback_len g) (cols g) (contents g2)"
    "take (scrollback_len g) (contents g2) = take (scrollback_len g) (contents g1)"
    "visible_ok (scrollback_len g) (cols g) (contents g1) \<longrightarrow> contents g2 = contents g1"
    using g2 n0 f1 by (simp_all add: rows_fitted_def)
  note ff = frame_fields [OF r2(1)] f1 frame_fields [OF f0]
  have "grid_inv g2"
    using inv r2(2,3) fit(2) ff by (simp add: grid_inv_split frame_ok_def)
  moreover have lc0: "length (cells g0) = scrollback_len g + length rs"
    using arg_cong [OF c0, of length] len by simp
  have "take (scrollback_len g) (contents g2) = take (scrollback_len g) (contents g)"
  proof -
    have "scrollback_len g \<le> kept_rows (rows g) g0" using n0 by (simp add: kept_rows_def)
    then have "take (scrollback_len g) (contents g1) = take (scrollback_len g) (contents g0)"
      using arg_cong [OF fit(3), of "take (scrollback_len g)"] by (simp add: min_absorb1)
    then show ?thesis using r2(4) c0 len by simp
  qed
  moreover have "drop (scrollback_len g) (contents g2) = map strip (sg_visible_cells saved)"
    if l: "length (sg_visible_cells saved) = rows g" and w: "list_all (\<lambda>r. row_len r = cols g) (sg_visible_cells saved)"
  proof -
    have "list_all (\<lambda>s. length (fst s) = cols g) (map strip (sg_visible_cells saved))"
      using w by (simp add: list_all_iff row_len_strip)
    then have v0: "visible_ok (scrollback_len g) (cols g) (contents g0)"
      using c0 rs len by (simp add: visible_ok_def)
    have lr: "length rs = rows g" using arg_cong [OF rs, of length] l by simp
    then have "kept_rows (rows g) g0 = length (contents g0)" "length (contents g1) = length (contents g0)"
      using lc0 n0 fit(2) by (simp_all add: kept_rows_def)
    then have "contents g1 = contents g0" using fit(3) by simp
    then show ?thesis using v0 fit(4) r2(5) c0 rs len by simp
  qed
  ultimately show ?thesis
    using ff by (simp add: grid_restored_def)
qed

lemma restore_saved_grid_spec:
  assumes inv: "grid_inv (grid p)"
  shows "succeeds (restore_saved_grid saved p) (\<lambda>(gi, pr, p'). grid_restored saved (grid p) (grid p') \<and> state p' = state p
     \<and> (gi \<longrightarrow> cols (grid p) \<noteq> sg_save_cols saved
          \<or> is_some_and (saved_cursor_state (state p)) (\<lambda>c. min (rows (grid p)) (length (sg_visible_cells saved)) \<le> sc_y c)))"
proof -
  obtain w k saved' g1 where pr: "prepare_alt_restore saved (grid p) = ((w, k), saved', g1)"
    by (metis prod.exhaust)
  note sp = prepare_alt_restore_spec [OF pr]
  let ?g0 = "(replace_visible (sg_visible_cells saved') g1)\<lparr>scrollback_limit := sg_scrollback_limit saved'\<rparr>"
  have f1: "frame g1 = frame (grid p)" "contents g1 = contents (grid p)" using sp(1) by (simp_all add: same_content_iff)
  note ff1 = frame_fields [OF f1(1)]
  have f0: "frame ?g0 = frame ((grid p)\<lparr>in_alt_domain := False, scrollback_limit := sg_scrollback_limit saved\<rparr>)"
    using ff1 sp(3) by (simp add: frame_def replace_visible_def)
  have c0: "contents ?g0 = take (scrollback_len (grid p)) (contents (grid p)) @ map strip (sg_visible_cells saved')"
    using f1(2) ff1(8) by (simp add: replace_visible_def flip: take_map contents_def)
  have "length (contents g1) = length (contents (grid p))" by (simp only: f1(2))
  then have l0: "scrollback_len ?g0 \<le> length (cells ?g0)"
    using grid_inv_lengths(1) [OF inv] ff1(8) by (simp add: replace_visible_def)
  have fo: "frame_ok ?g0"
    using inv frame_fields [OF f0] by (simp add: grid_inv_split frame_ok_def)
  have kk: "k = min (rows (grid p)) (length (sg_visible_cells saved))"
    using pr by (simp add: prepare_alt_restore_def Let_def)
  have main: "succeeds (adjust_visible_to_fit ?g0 \<bind> fit_visible_rows) (grid_restored saved (grid p))"
  proof (rule succeeds_bindI [OF adjust_spec [OF fo l0]])
    fix g2 assume g2: "row_count_fitted (cols ?g0) (rows ?g0) ?g0 g2"
    then have "length (cells g2) = scrollback_len g2 + rows g2"
      using frame_but_ids_fields(2,8) [of ?g0 g2] by (simp add: row_count_fitted_def)
    then show "succeeds (fit_visible_rows g2) (grid_restored saved (grid p))"
      by (rule succeeds_mono [OF fit_visible_rows_spec]) (rule grid_restoredI [OF inv sp(2) f0 c0 g2])
  qed
  then show ?thesis
    using sp(4) kk by (auto simp: restore_saved_grid_def pr elim!: succeeds_mono)
qed

subsection \<open>Restoring the cursor\<close>

lemma same_content_provenance: "same_content g (invalidate_provenance_keep_raw g)"
  by (simp add: invalidate_provenance_keep_raw_def)

lemma grid_inv_same_content: "same_content g g' \<Longrightarrow> grid_inv g \<Longrightarrow> grid_inv g'"
  by (blast intro: geom_eq_inv same_content_geom)

definition cursor_restored :: "bool \<Rightarrow> ScreenPerformer \<Rightarrow> ScreenPerformer \<Rightarrow> bool" where
  "cursor_restored gi p p' \<longleftrightarrow> grid_inv (grid p') \<and> contents (grid p') = contents (grid p)
     \<and> cols (grid p') = cols (grid p) \<and> rows (grid p') = rows (grid p)
     \<and> scroll_top (grid p') = scroll_top (grid p) \<and> scroll_bottom (grid p') = scroll_bottom (grid p)
     \<and> scrollback_len (grid p') = scrollback_len (grid p) \<and> scrollback_limit (grid p') = scrollback_limit (grid p)
     \<and> (\<exists>st. state p' = (state p)\<lparr>current_style := st\<rparr>)
     \<and> (case saved_cursor_state (state p) of
          None \<Rightarrow> cursor_x (grid p') = cursor_x (grid p) \<and> cursor_y (grid p') = cursor_y (grid p)
        | Some sc \<Rightarrow> cursor_x (grid p') = min (sc_x sc) (cols (grid p) - 1)
            \<and> cursor_y (grid p') = min (sc_y sc) (rows (grid p) - 1) \<and> current_style (state p') = sc_style sc)"

lemma restore_cursor_spec:
  assumes inv: "grid_inv (grid p)"
  shows "succeeds (restore_cursor_after_geometry gi p) (cursor_restored gi p)"
proof -
  define g1 where "g1 = invalidate_pending_for_geometry (AltRestore gi) (grid p)"
  have s1: "same_content (grid p) g1" by (simp add: g1_def same_content_invalidate)
  have i1: "grid_inv g1" using s1 inv by (rule grid_inv_same_content)
  have c1: "contents g1 = contents (grid p)" using s1 by (simp add: same_content_iff)
  note f1 = upd_ok_fields [OF s1] and b = grid_inv_lengths [OF i1]
  show ?thesis
  proof (cases "saved_cursor_state (state p)")
    case None
    then show ?thesis
      using i1 c1 f1
      by (auto simp: restore_cursor_after_geometry_def g1_def [symmetric] cursor_restored_def
          intro: exI [of _ "current_style (state p)"])
  next
    case (Some sc)
    have c2: "contents (invalidate_provenance_keep_raw g) = contents g"
      "cols (invalidate_provenance_keep_raw g) = cols g" "rows (invalidate_provenance_keep_raw g) = rows g"
      "scroll_top (invalidate_provenance_keep_raw g) = scroll_top g"
      "scroll_bottom (invalidate_provenance_keep_raw g) = scroll_bottom g"
      "scrollback_len (invalidate_provenance_keep_raw g) = scrollback_len g"
      "scrollback_limit (invalidate_provenance_keep_raw g) = scrollback_limit g"
      "grid_inv g \<Longrightarrow> grid_inv (invalidate_provenance_keep_raw g)" for g
      by (simp_all add: invalidate_provenance_keep_raw_def)
    show ?thesis
      using Some i1 c1 f1 b
      by (auto simp: restore_cursor_after_geometry_def g1_def [symmetric] cursor_restored_def c2 min_less_iff_disj
          intro: exI [of _ "sc_style sc"])
  qed
qed

lemma restore_cursor_inv:
  assumes p: "perf_inv L p"
  shows "succeeds (restore_cursor p) (perf_inv L)"
  unfolding restore_cursor_def
proof (rule succeeds_mono [OF restore_cursor_spec [OF perf_inv_grid [OF p]]])
  fix p' assume "cursor_restored False p p'"
  then show "perf_inv L p'"
    using p by (auto simp: cursor_restored_def perf_inv_def state_ok_def)
qed

lemma finish_alt_restore_same: "same_content (g\<lparr>in_alt_domain := False\<rparr>) (finish_alt_restore pw se a g)"
proof -
  let ?g1 = "validate_all_edges (g\<lparr>in_alt_domain := False, pending_wrap := (if a then pw else None),
                sequential_edge := (if a then se else None)\<rparr>)"
  let ?g2 = "if is_some_and (pending_wrap ?g1)
                    (\<lambda>t. pending_matches_cursor_row ?g1 t \<and> cols ?g1 = pw_source_width t)
               then ?g1 else ?g1\<lparr>pending_wrap := None\<rparr>"
  have 1: "same_content (g\<lparr>in_alt_domain := False\<rparr>) ?g1"
    using validate_all_edges_same [of "g\<lparr>in_alt_domain := False, pending_wrap := (if a then pw else None),
                sequential_edge := (if a then se else None)\<rparr>"] by (simp add: same_content_iff)
  have 2: "same_content ?g1 ?g2" by simp
  have "finish_alt_restore pw se a g = validate_all_edges ?g2"
    by (simp only: finish_alt_restore_def Let_def)
  then show ?thesis
    using upd_ok_trans [OF upd_ok_trans [OF 1 2] validate_all_edges_same] by simp
qed

subsection \<open>\<open>exit_alt_screen\<close>\<close>

text \<open>What stays fixed from the moment the rows are back until the end of \<open>exit_alt_screen\<close>.\<close>

definition after_restore :: "ScreenPerformer \<Rightarrow> SavedGrid \<Rightarrow> ScreenPerformer \<Rightarrow> bool" where
  "after_restore p saved q \<longleftrightarrow> grid_inv (grid q) \<and> cols (grid q) = cols (grid p) \<and> rows (grid q) = rows (grid p)
     \<and> scrollback_len (grid q) = scrollback_len (grid p) \<and> scrollback_limit (grid q) = sg_scrollback_limit saved
     \<and> take (scrollback_len (grid p)) (contents (grid q)) = take (scrollback_len (grid p)) (contents (grid p))
     \<and> (length (sg_visible_cells saved) = rows (grid p) \<and> list_all (\<lambda>r. row_len r = cols (grid p)) (sg_visible_cells saved)
          \<longrightarrow> drop (scrollback_len (grid p)) (contents (grid q)) = map strip (sg_visible_cells saved))
     \<and> saved_grid (state q) = None \<and> \<not> in_alt_screen (state q) \<and> state_ok (state q)
     \<and> saved_cursor_state (state q) = saved_cursor_state (state p)"

lemma state_ok_fields:
  "state_ok s \<Longrightarrow> state_ok (s\<lparr>saved_modes := m\<rparr>)" "state_ok s \<Longrightarrow> state_ok (s\<lparr>current_style := st\<rparr>)"
  "state_ok s \<Longrightarrow> state_ok (s\<lparr>saved_scroll_region := sr\<rparr>)" "state_ok s \<Longrightarrow> state_ok (s\<lparr>in_alt_screen := False, saved_grid := None\<rparr>)"
  by (simp_all add: state_ok_def)

lemma restore_saved_modes_after:
  "after_restore p saved q \<Longrightarrow> after_restore p saved (restore_saved_modes q)"
  by (auto simp: after_restore_def restore_saved_modes_def state_ok_fields split: option.split)

lemma restore_saved_modes_fields [simp]:
  "saved_cursor_state (state (restore_saved_modes q)) = saved_cursor_state (state q)"
  "saved_scroll_region (state (restore_saved_modes q)) = saved_scroll_region (state q)"
  by (simp_all add: restore_saved_modes_def split: option.split)

lemma restore_cursor_after:
  "after_restore p saved q \<Longrightarrow> cursor_restored gi q q' \<Longrightarrow> after_restore p saved q'
     \<and> saved_scroll_region (state q') = saved_scroll_region (state q)"
  by (auto simp: after_restore_def cursor_restored_def state_ok_fields)

lemma finish_provenance_after:
  assumes "after_restore p saved q"
  shows "after_restore p saved (finish_provenance r prov q)" "state (finish_provenance r prov q) = state q"
    "cursor_x (grid (finish_provenance r prov q)) = cursor_x (grid q)"
    "cursor_y (grid (finish_provenance r prov q)) = cursor_y (grid q)"
proof -
  have f: "contents (finish_alt_restore pw se a g) = contents g" "cols (finish_alt_restore pw se a g) = cols g"
    "rows (finish_alt_restore pw se a g) = rows g" "scrollback_len (finish_alt_restore pw se a g) = scrollback_len g"
    "scrollback_limit (finish_alt_restore pw se a g) = scrollback_limit g"
    "cursor_x (finish_alt_restore pw se a g) = cursor_x g" "cursor_y (finish_alt_restore pw se a g) = cursor_y g"
    "grid_inv g \<Longrightarrow> grid_inv (finish_alt_restore pw se a g)" for pw se a g
    using finish_alt_restore_same [of g pw se a] upd_ok_fields [OF finish_alt_restore_same [of g pw se a]]
      grid_inv_same_content [OF finish_alt_restore_same [of g pw se a]]
    by (simp_all add: same_content_iff)
  show "after_restore p saved (finish_provenance r prov q)" "state (finish_provenance r prov q) = state q"
    "cursor_x (grid (finish_provenance r prov q)) = cursor_x (grid q)"
    "cursor_y (grid (finish_provenance r prov q)) = cursor_y (grid q)"
    using assms by (auto simp: finish_provenance_def after_restore_def f Let_def split: option.split prod.split)
qed

lemma grid_inv_region:
  "grid_inv g \<Longrightarrow> t \<le> b \<Longrightarrow> b < rows g \<Longrightarrow> grid_inv (g\<lparr>scroll_top := t, scroll_bottom := b\<rparr>)"
  by (simp add: grid_inv_def)

lemma restore_scroll_region_spec:
  assumes "grid_inv g"
  shows "\<exists>t b. restore_scroll_region sr g = Some (g\<lparr>scroll_top := t, scroll_bottom := b\<rparr>) \<and> t \<le> b \<and> b < rows g
     \<and> (\<forall>t' b'. sr = Some (t', b') \<and> t' \<le> b' \<and> b' < rows g \<longrightarrow> t = t' \<and> b = b')"
proof (cases sr)
  case None
  then show ?thesis
    using grid_inv_lengths(8) [OF assms]
    by (intro exI [of _ 0] exI [of _ "rows g - 1"]) (auto simp: restore_scroll_region_def reset_scroll_region_def sub16_def)
next
  case (Some tb)
  obtain t b where tb: "tb = (t, b)" by force
  let ?t = "min t (rows g - 1)"
  have "?t \<le> max (min b (rows g - 1)) ?t \<and> max (min b (rows g - 1)) ?t < rows g
     \<and> (t \<le> b \<and> b < rows g \<longrightarrow> ?t = t \<and> max (min b (rows g - 1)) ?t = b)"
    using grid_inv_lengths(8) [OF assms] by (auto simp: min_def max_def)
  moreover have "restore_scroll_region (Some (t, b)) g = Some (g\<lparr>scroll_top := ?t, scroll_bottom := max (min b (rows g - 1)) ?t\<rparr>)"
    by (simp add: restore_scroll_region_def set_scroll_region_def Let_def)
  ultimately show ?thesis
    unfolding Some tb by blast
qed

lemma compact_styles_contents [simp]: "contents (compact_styles sv g) = contents g"
  by (simp add: contents_def compact_styles_frame)

definition exited :: "bool \<Rightarrow> ScreenPerformer \<Rightarrow> SavedGrid \<Rightarrow> ScreenPerformer \<Rightarrow> bool" where
  "exited do_restore p saved p' \<longleftrightarrow> perf_inv \<lparr>ex_limit = sg_scrollback_limit saved, ex_cols = cols (grid p)\<rparr> p' \<and> after_restore p saved p'
     \<and> (\<forall>t b. saved_scroll_region (state p) = Some (t, b) \<and> t \<le> b \<and> b < rows (grid p)
           \<longrightarrow> scroll_top (grid p') = t \<and> scroll_bottom (grid p') = b)
     \<and> (do_restore \<longrightarrow> (\<forall>sc. saved_cursor_state (state p) = Some sc
           \<longrightarrow> cursor_x (grid p') = min (sc_x sc) (cols (grid p) - 1)
             \<and> cursor_y (grid p') = min (sc_y sc) (rows (grid p) - 1)
             \<and> current_style (state p') = sc_style sc))"

lemma exit_tail:
  assumes q: "after_restore p saved q" and sr: "saved_scroll_region (state q) = saved_scroll_region (state p)"
    and cur: "\<And>sc. do_restore \<Longrightarrow> saved_cursor_state (state p) = Some sc \<Longrightarrow> cursor_x (grid q) = min (sc_x sc) (cols (grid p) - 1)
             \<and> cursor_y (grid q) = min (sc_y sc) (rows (grid p) - 1) \<and> current_style (state q) = sc_style sc"
    and sl: "scrollback_len (grid p) \<le> sg_scrollback_limit saved"
  shows "succeeds (do {
        let q1 = finish_provenance do_restore prov q;
        let sr = saved_scroll_region (state q1);
        p \<leftarrow> on_grid (restore_scroll_region sr) (with_state (\<lambda>s. s\<lparr>saved_scroll_region := None\<rparr>) q1);
        Some (with_grid (compact_styles None) p) }) (exited do_restore p saved)"
proof -
  let ?q = "finish_provenance do_restore prov q"
  note fp = finish_provenance_after [OF q, of do_restore prov]
  have gi: "grid_inv (grid ?q)" using fp(1) by (simp add: after_restore_def)
  from restore_scroll_region_spec [OF gi, of "saved_scroll_region (state p)"] obtain t b where
    tb: "restore_scroll_region (saved_scroll_region (state p)) (grid ?q) = Some ((grid ?q)\<lparr>scroll_top := t, scroll_bottom := b\<rparr>)"
      "t \<le> b" "b < rows (grid ?q)"
    and reg: "\<forall>t' b'. saved_scroll_region (state p) = Some (t', b') \<and> t' \<le> b' \<and> b' < rows (grid ?q) \<longrightarrow> t = t' \<and> b = b'"
    by blast
  define g where "g = (grid ?q)\<lparr>scroll_top := t, scroll_bottom := b\<rparr>"
  have inv_g: "grid_inv g" using gi tb by (simp add: g_def grid_inv_region)
  note kc = compact_styles_inv [OF inv_g, of None]
  have k: "grid_inv (compact_styles None g)" "cols (compact_styles None g) = cols (grid p)" "rows (compact_styles None g) = rows (grid p)"
    "scrollback_limit (compact_styles None g) = sg_scrollback_limit saved"
    "scrollback_len (compact_styles None g) = scrollback_len (grid p)" "scroll_top (compact_styles None g) = t"
    "scroll_bottom (compact_styles None g) = b" "cursor_x (compact_styles None g) = cursor_x (grid q)"
    "cursor_y (compact_styles None g) = cursor_y (grid q)" "contents (compact_styles None g) = contents (grid ?q)"
    using kc fp frame_fields [OF compact_styles_frame(2) [of None g]]
    by (auto simp: keeps_def g_def after_restore_def)
  let ?p = "(with_state (\<lambda>s. s\<lparr>saved_scroll_region := None\<rparr>) ?q)\<lparr>grid := compact_styles None g\<rparr>"
  have ar: "after_restore p saved ?p"
    using fp k q by (simp add: after_restore_def state_ok_fields)
  then have pi: "perf_inv \<lparr>ex_limit = sg_scrollback_limit saved, ex_cols = cols (grid p)\<rparr> ?p"
    using sl by (simp add: perf_inv_def after_restore_def)
  have "\<forall>t' b'. saved_scroll_region (state p) = Some (t', b') \<and> t' \<le> b' \<and> b' < rows (grid p) \<longrightarrow> t = t' \<and> b = b'"
    using reg fp(1) by (simp add: after_restore_def)
  then have "exited do_restore p saved ?p"
    unfolding exited_def using pi ar cur by (simp add: k finish_provenance_after(2) [OF q])
  moreover have "with_grid (compact_styles None) ((with_state (\<lambda>s. s\<lparr>saved_scroll_region := None\<rparr>) ?q)\<lparr>grid := g\<rparr>) = ?p"
    by (simp add: with_grid_def)
  ultimately show ?thesis
    using tb(1) fp(2) sr by (simp add: g_def with_grid_def)
qed

lemma exit_alt_screen_spec:
  assumes p: "perf_inv L p" and saved: "saved_grid (state p) = Some saved"
  shows "succeeds (exit_alt_screen do_restore p) (exited do_restore p saved)"
proof -
  have alt: "in_alt_screen (state p)" and so: "state_ok (state p)" and gi: "grid_inv (grid p)"
    and sl: "scrollback_len (grid p) \<le> sg_scrollback_limit saved"
    using p saved by (auto simp: perf_inv_def state_ok_def)
  define p0 where "p0 = with_state (\<lambda>s. s\<lparr>saved_grid := None\<rparr>) (with_grid leave_alt_domain (with_state (\<lambda>s. s\<lparr>in_alt_screen := False\<rparr>) p))"
  have p0: "grid p0 = (grid p)\<lparr>in_alt_domain := False\<rparr>" "state p0 = (state p)\<lparr>in_alt_screen := False, saved_grid := None\<rparr>"
    by (simp_all add: p0_def leave_alt_domain_def)
  have gi0: "grid_inv (grid p0)" using gi p0 by simp
  have after: "after_restore p saved q" if "grid_restored saved (grid p0) (grid q)" "state q = state p0" for q
    using that so by (auto simp: grid_restored_def after_restore_def p0 state_ok_fields)
  have rest: "succeeds (do {
        let q = restore_saved_modes q;
        q \<leftarrow> (if do_restore then restore_cursor_after_geometry geo q else Some q);
        let q1 = finish_provenance do_restore prov q;
        let sr = saved_scroll_region (state q1);
        p \<leftarrow> on_grid (restore_scroll_region sr) (with_state (\<lambda>s. s\<lparr>saved_scroll_region := None\<rparr>) q1);
        Some (with_grid (compact_styles None) p) }) (exited do_restore p saved)"
    if a: "after_restore p saved q" and st: "state q = state p0" for q geo prov
  proof -
    let ?q = "restore_saved_modes q"
    have aq: "after_restore p saved ?q" using a by (rule restore_saved_modes_after)
    have srq: "saved_scroll_region (state ?q) = saved_scroll_region (state p)" using st p0 by simp
    have gq: "grid_inv (grid ?q)" using aq by (simp add: after_restore_def)
    show ?thesis
    proof (cases do_restore)
      case True
      have "succeeds (do {
        let q1 = finish_provenance do_restore prov q2;
        let sr = saved_scroll_region (state q1);
        p \<leftarrow> on_grid (restore_scroll_region sr) (with_state (\<lambda>s. s\<lparr>saved_scroll_region := None\<rparr>) q1);
        Some (with_grid (compact_styles None) p) }) (exited do_restore p saved)"
        if c: "cursor_restored geo ?q q2" for q2
        by (rule exit_tail)
          (use restore_cursor_after [OF aq c] c srq aq sl in \<open>auto simp: cursor_restored_def after_restore_def\<close>)
      then show ?thesis
        using True restore_cursor_spec [OF gq, of geo]
        by (simp add: Let_def del: succeeds_bind) (rule succeeds_bindI)
    next
      case False
      then show ?thesis
        using exit_tail [OF aq srq _ sl, of do_restore prov] by simp
    qed
  qed
  have "succeeds (restore_saved_grid saved p0) (\<lambda>(geo, pr, q). grid_restored saved (grid p0) (grid q) \<and> state q = state p0)"
    by (rule succeeds_mono [OF restore_saved_grid_spec [OF gi0]]) auto
  moreover have "exit_restore_grid (with_grid leave_alt_domain (with_state (\<lambda>s. s\<lparr>in_alt_screen := False\<rparr>) p))
      = restore_saved_grid saved p0 \<bind> (\<lambda>(gi, pr, p). Some (gi, Some pr, p))"
    using saved by (simp add: exit_restore_grid_def p0_def)
  ultimately have ex: "succeeds (exit_restore_grid (with_grid leave_alt_domain (with_state (\<lambda>s. s\<lparr>in_alt_screen := False\<rparr>) p)))
      (\<lambda>(geo, pr, q). grid_restored saved (grid p0) (grid q) \<and> state q = state p0)"
    by (auto elim!: succeeds_mono)
  show ?thesis
    unfolding exit_alt_screen_def Let_def
    using alt rest [unfolded Let_def] after
    by (simp only: not_True_eq_False if_False) (rule succeeds_bindI [OF ex], auto simp del: succeeds_bind)
qed

lemma alt_screen_inv:
  assumes p: "perf_inv L p"
  shows "succeeds (enter_alt_screen save p) (perf_inv L)" "succeeds (exit_alt_screen r p) (perf_inv L)"
proof -
  show "succeeds (enter_alt_screen save p) (perf_inv L)"
  proof (cases "in_alt_screen (state p)")
    case True
    then show ?thesis using p by (simp add: enter_alt_screen_def)
  next
    case False
    show ?thesis by (rule succeeds_mono [OF enter_alt_screen_spec [OF p False]]) simp
  qed
  show "succeeds (exit_alt_screen r p) (perf_inv L)"
  proof (cases "saved_grid (state p)")
    case None
    then show ?thesis using p by (simp add: exit_alt_screen_def perf_inv_def state_ok_def)
  next
    case (Some sg)
    then have "\<lparr>ex_limit = sg_scrollback_limit sg, ex_cols = cols (grid p)\<rparr> = L" using p by (simp add: perf_inv_def)
    then show ?thesis
      by (intro succeeds_mono [OF exit_alt_screen_spec [OF p Some]]) (simp add: exited_def)
  qed
qed

end
