(* ===== verification/Performer_Safe.thy ===== *)
theory Performer_Safe
  imports Performer_Alt
begin

text \<open>
  Every callback of the parser is handled without a panic and keeps the performer's invariant; by
  interpretation of \<open>panic_free_machine\<close> so does every sequence of callbacks. The one exception,
  stated as the admissibility condition \<open>title_safe\<close>, is a title longer than 4096 bytes whose byte
  4096 is inside a character.
\<close>

subsection \<open>Dispatch\<close>

lemma save_cursor_inv: "perf_inv L p \<Longrightarrow> perf_inv L (save_cursor p)"
  by (simp add: save_cursor_def save_cursor_with_alt_def Let_def perf_inv_def state_ok_def)

lemma dec_private_mode_inv:
  assumes p: "perf_inv L p"
  shows "succeeds (dec_private_mode enable param p) (perf_inv L)"
proof -
  note b = perf_inv_bounds [OF p]
  have origin: "perf_inv L (clear_wrap (set_cursor_y (scroll_top (grid (set_modes_by f p))) (set_cursor_x 0 (set_modes_by f p))))" for f
  proof -
    have "perf_inv L (set_modes_by f p)" using p by simp
    moreover have "scroll_top (grid (set_modes_by f p)) < rows (grid (set_modes_by f p))"
      "0 < cols (grid (set_modes_by f p))"
      using b by (simp_all add: set_modes_by_def)
    ultimately show ?thesis by simp
  qed
  have vis: "perf_inv L (with_grid (\<lambda>g. g\<lparr>cursor_visible := v\<rparr>) p)" for v
    using p by (simp add: perf_inv_def)
  show ?thesis
    using p origin vis
    by (auto simp: dec_private_mode_def Let_def save_cursor_inv alt_screen_inv restore_cursor_inv split: list.split)
qed

lemma csi_set_dec_private_mode_inv: "perf_inv L p \<Longrightarrow> succeeds (csi_set_dec_private_mode ps enable p) (perf_inv L)"
  unfolding csi_set_dec_private_mode_def by (rule foldM_invariant) (auto intro: dec_private_mode_inv)

lemma device_status_report_inv: "perf_inv L p \<Longrightarrow> succeeds (device_status_report p) (perf_inv L)"
  using perf_inv_bounds [of L p] by (auto simp: device_status_report_def)

lemma tab_inv:
  assumes p: "perf_inv L p"
  shows "perf_inv L (with_grid (\<lambda>g. set_tab_stop (cursor_x g) g) p)" "perf_inv L (csi_tab_clear ps p)"
    "perf_inv L (with_grid reset_tab_stops p)"
  using p
  by (auto simp: perf_inv_def set_tab_stop_def csi_tab_clear_def clear_tab_stop_def clear_all_tab_stops_def
      reset_tab_stops_def grid_inv_def)

lemma csi_title_stack_inv:
  assumes p: "perf_inv L p"
  shows "succeeds (csi_title_stack ps p) (perf_inv L)"
proof -
  have t: "length (title (state p)) \<le> 4096" "length (title_stack (state p)) \<le> 16"
    "list_all (\<lambda>t. length t \<le> 4096) (title_stack (state p))" and so: "state_ok (state p)"
    using p by (auto simp: perf_inv_def state_ok_def)
  have tr: "str_truncate (title (state p)) 4096 = Some (title (state p))"
    using t(1) by (auto simp: str_truncate_def str_prefix_def is_char_boundary_def)
  have push: "perf_inv L (with_state (\<lambda>s. s\<lparr>title_stack := title_stack s @ [title (state p)]\<rparr>) p)"
    if "length (title_stack (state p)) < 16"
    using p that t by (auto simp: perf_inv_def state_ok_def)
  have "length (last (title_stack (state p))) \<le> 4096 \<and> list_all (\<lambda>t. length t \<le> 4096) (butlast (title_stack (state p)))"
    if "title_stack (state p) \<noteq> []"
    using t(3) that by (auto simp: list_all_iff dest: in_set_butlastD)
  then have pop: "perf_inv L (with_state (\<lambda>s. s\<lparr>title := last (title_stack s), title_stack := butlast (title_stack s)\<rparr>) p)"
    if "title_stack (state p) \<noteq> []"
    using p that t so by (auto simp: perf_inv_def state_ok_def)
  show ?thesis
    using p tr push pop by (auto simp: csi_title_stack_def Let_def)
qed

lemma apply_style_inv: "perf_inv L p \<Longrightarrow> perf_inv L (with_state (\<lambda>s. s\<lparr>current_style := f s\<rparr>) p)"
  by (auto simp: perf_inv_def state_ok_def)

lemma csi_device_attributes_inv: "perf_inv L p \<Longrightarrow> perf_inv L (csi_device_attributes ps ims p)"
  by (auto simp: csi_device_attributes_def)

lemmas csi_inv = cursor_motion_inv csi_erase_display_inv csi_erase_line_inv csi_erase_character_inv
  csi_delete_character_inv csi_insert_character_inv apply_style_inv device_status_report_inv
  csi_device_attributes_inv scroll_n_inv lines_inv csi_set_scrolling_region_inv save_cursor_inv
  restore_cursor_inv tab_inv csi_title_stack_inv csi_set_dec_private_mode_inv

lemma csi_dispatch_inv:
  assumes p: "perf_inv L p" and uw: "width_fits uw (ex_cols L)"
  shows "succeeds (csi_dispatch uw ps ims action p) (perf_inv L)"
proof -
  have rep: "succeeds (repeatM n (print uw c) p) (perf_inv L)" for n c
    using p by (rule repeatM_invariant) (rule print_inv [OF _ uw])
  show ?thesis
    unfolding csi_dispatch_def Let_def
    by (simp only: succeeds_if succeeds_Some) (simp add: csi_inv [OF p] rep p)
qed

lemma reset_region_inv:
  "perf_inv L p \<Longrightarrow> succeeds (on_grid reset_scroll_region p) (\<lambda>p'. perf_inv L p' \<and> p' = p\<lparr>grid := (grid p)\<lparr>scroll_top := 0, scroll_bottom := rows (grid p) - 1\<rparr>\<rparr>)"
  by (auto simp: perf_inv_def intro!: succeeds_mono [OF reset_scroll_region_inv])

lemma reverse_index_inv:
  assumes p: "perf_inv L p"
  shows "succeeds (reverse_index p) (perf_inv L)"
proof -
  let ?p = "with_grid invalidate_provenance_keep_raw p"
  have "perf_inv L ?p"
    using p by (simp add: perf_inv_def invalidate_provenance_keep_raw_def)
  then show ?thesis
    using perf_inv_bounds [of L ?p]
    by (auto simp: reverse_index_def Let_def intro: perf_scroll_keeps [THEN succeeds_pkeepsD])
qed

text \<open>RIS: the state that \<open>full_reset\<close> establishes before it erases.\<close>

definition reset_state :: "ScreenPerformer \<Rightarrow> ScreenPerformer" where
  "reset_state p =
    (let p = clear_wrap (with_grid (\<lambda>g. g\<lparr>cursor_visible := True\<rparr>) p);
         p = with_grid (\<lambda>g. g\<lparr>modes := modes_default\<rparr>) p;
         p = with_state (\<lambda>s. s\<lparr>current_style := style_default\<rparr>) p;
         p = (case saved_grid (state p) of None \<Rightarrow> p
              | Some sg \<Rightarrow> with_grid (\<lambda>g. g\<lparr>scrollback_limit := sg_scrollback_limit sg\<rparr>) p);
         p = with_state (\<lambda>s. s\<lparr>in_alt_screen := False\<rparr>) p;
         p = with_grid leave_alt_domain p;
         p = with_state (\<lambda>s. s\<lparr>saved_grid := None, saved_modes := None, saved_cursor_state := None,
               saved_scroll_region := None, title := [], title_stack := [], last_printed_char := SP\<rparr>) p;
         p = with_grid reset_tab_stops p
     in with_grid (\<lambda>g. g\<lparr>style_table := style_table_reset (style_table g)\<rparr>) p)"

lemma full_reset_eq:
  "full_reset p = do {
     p \<leftarrow> on_grid reset_scroll_region (set_cursor_y 0 (set_cursor_x 0 p));
     let p = reset_state p;
     p \<leftarrow> on_grid (erase_rows 0 (rows (grid p)) cell_default) p;
     p \<leftarrow> on_grid clear_scrollback p;
     Some (with_state (push_passthrough [27, 91, 51, 74]) p) }"
  by (simp only: full_reset_def reset_state_def Let_def)

lemma reset_state_inv:
  assumes p: "perf_inv L p"
  shows "perf_inv L (reset_state p)"
proof -
  have t: "table_inv (style_table_reset t)" for t
    by (simp add: table_inv_def style_table_reset_def)
  have so: "state_ok (state (reset_state p))" "saved_grid (state (reset_state p)) = None"
    using p by (auto simp: reset_state_def Let_def perf_inv_def state_ok_def split: option.split)
  have g: "grid_inv (grid (reset_state p))"
    using p t by (auto simp: reset_state_def Let_def perf_inv_def leave_alt_domain_def reset_tab_stops_def clear_wrap_def
        split: option.split)
  have "scrollback_len (grid (reset_state p)) \<le> ex_limit L \<and> scrollback_limit (grid (reset_state p)) = ex_limit L
     \<and> cols (grid (reset_state p)) = ex_cols L"
    using p by (auto simp: reset_state_def Let_def perf_inv_def leave_alt_domain_def reset_tab_stops_def clear_wrap_def
        split: option.split)
  with so g show ?thesis by (simp add: perf_inv_def)
qed

lemma full_reset_inv:
  assumes p: "perf_inv L p"
  shows "succeeds (full_reset p) (perf_inv L)"
proof -
  have home: "perf_inv L (set_cursor_y 0 (set_cursor_x 0 p))"
    using p perf_inv_bounds [OF p] by simp
  have clr: "succeeds (on_grid clear_scrollback p1) (perf_inv L)" if "perf_inv L p1" for p1
    using that by (intro on_grid_keeps [THEN succeeds_pkeepsD] clear_scrollback_keeps perf_inv_grid)
  have erase: "succeeds (on_grid (erase_rows a b cell_default) (reset_state p1)) (perf_inv L)" if "perf_inv L p1" for p1 a b
    using that by (intro erase_inv(2) reset_state_inv)
  have finish: "succeeds (on_grid clear_scrollback p1 \<bind> (\<lambda>p. Some (with_state (push_passthrough [27, 91, 51, 74]) p))) (perf_inv L)"
    if "perf_inv L p1" for p1
    by (rule succeeds_bindI [OF clr [OF that]]) simp
  show ?thesis
    unfolding full_reset_eq Let_def
    by (rule succeeds_bindI [OF reset_region_inv [OF home]]) (rule succeeds_bindI [OF erase finish], simp_all)
qed

lemma screen_alignment_inv:
  assumes p: "perf_inv L p"
  shows "succeeds (screen_alignment p) (perf_inv L)"
proof -
  have fill: "succeeds (on_grid (foldM (\<lambda>y. foldM (\<lambda>x. set_cell x y c) xs) ys) p1) (perf_inv L)" if "perf_inv L p1" for p1 c xs ys
  proof (rule on_grid_geom [THEN succeeds_pkeepsD, OF that])
    have inner: "succeeds (foldM (\<lambda>x. set_cell x y c) xs g) (geom_eq (grid p1))" if g: "geom_eq (grid p1) g" for y g
    proof (rule foldM_invariant)
      show "geom_eq (grid p1) g" by (rule g)
    next
      fix x g1 assume "geom_eq (grid p1) g1"
      then show "succeeds (set_cell x y c g1) (geom_eq (grid p1))"
        using geom_eq_inv [OF _ perf_inv_grid [OF \<open>perf_inv L p1\<close>]] set_cell_geom
        by (blast intro: succeeds_mono upd_ok_trans)
    qed
    show "succeeds (foldM (\<lambda>y. foldM (\<lambda>x. set_cell x y c) xs) ys (grid p1)) (geom_eq (grid p1))"
      by (rule foldM_invariant) (auto intro: inner)
  qed
  have home: "perf_inv L (clear_wrap (set_cursor_y 0 (set_cursor_x 0 p1)))" if "perf_inv L p1" for p1
    using that perf_inv_bounds [OF that] by simp
  have rest: "succeeds (intern_with_gc style_default (clear_wrap (set_cursor_y 0 (set_cursor_x 0 p1))) \<bind> (\<lambda>(sid, p).
      on_grid (foldM (\<lambda>y. foldM (\<lambda>x. set_cell x y (cell_new 69 sid 1)) [0..<cols (grid p)]) [0..<rows (grid p)]) p)) (perf_inv L)"
    if "perf_inv L p1" for p1
    by (rule succeeds_bindI [OF intern_with_gc_keeps [OF home [OF that]]])
      (auto simp del: on_grid_bind intro!: fill dest: pkeeps_inv)
  show ?thesis
    unfolding screen_alignment_def Let_def
    by (rule succeeds_bindI [OF reset_region_inv [OF p]]) (rule rest, simp)
qed

lemma esc_dispatch_inv:
  assumes p: "perf_inv L p"
  shows "succeeds (esc_dispatch ims byte p) (perf_inv L)"
proof -
  have ix: "perf_inv L (set_cursor_x 0 p)" using p perf_inv_bounds [OF p] by simp
  show ?thesis
    unfolding esc_dispatch_def
    by (simp only: succeeds_if succeeds_Some)
      (simp add: p ix tab_inv [OF p] line_feed_motion_inv reverse_index_inv save_cursor_inv restore_cursor_inv
        full_reset_inv screen_alignment_inv del: on_grid_bind)
qed

subsection \<open>Titles and the other OSC sequences\<close>

definition title_safe :: "vte_event \<Rightarrow> bool" where
  "title_safe e = (case e of
     OscDispatch (q # t # _) _ \<Rightarrow> (osc_number q = Some 0 \<or> osc_number q = Some 2) \<and> utf8_valid t \<and> 4096 < length t
        \<longrightarrow> is_char_boundary t 4096
   | _ \<Rightarrow> True)"

lemma osc_dispatch_inv:
  assumes p: "perf_inv L p" and safe: "title_safe (OscDispatch params bell)"
  shows "succeeds (osc_dispatch params bell p) (perf_inv L)"
proof -
  have set: "perf_inv L (with_state (\<lambda>s. s\<lparr>title := t\<rparr>) p)" if "length t \<le> 4096" for t
    using p that by (auto simp: perf_inv_def state_ok_def)
  have "succeeds (osc_set_title t p) (perf_inv L)" if "utf8_valid t \<and> 4096 < length t \<longrightarrow> is_char_boundary t 4096" for t
    using that p set by (auto simp: osc_set_title_def str_prefix_def)
  then show ?thesis
    using p safe by (auto simp: osc_dispatch_def title_safe_def Let_def split: list.split)
qed

theorem perform_inv:
  assumes "perf_inv L p" "width_fits uw (ex_cols L)" "title_safe e"
  shows "succeeds (perform uw e p) (perf_inv L)"
  using assms
  by (cases e) (auto intro: print_inv execute_inv csi_dispatch_inv esc_dispatch_inv osc_dispatch_inv)

end
