(* ===== verification/Screen.thy ===== *)
theory Screen
  imports Performer_Safe
begin

text \<open>
  \<open>Screen\<close> of \<open>crates/qrmux/src/screen/mod.rs\<close>: two performers fed with the same bytes, one for the
  physical rows and one whose grid carries the logical-line provenance. The \<open>vte\<close> parser is the
  parameter \<open>adv\<close>: from a parser state and a byte to the next state and the callbacks it makes, in
  order. Nothing is assumed about which callbacks those are, apart from what a theorem says.
\<close>

type_synonym 'q vte_parser = "'q \<Rightarrow> nat \<Rightarrow> 'q \<times> vte_event list"

record 'q Screen =
  scr_main :: ScreenPerformer
  scr_parser :: 'q
  scr_logical :: ScreenPerformer
  scr_logical_parser :: 'q

definition screen_new :: "'q \<Rightarrow> nat \<Rightarrow> nat \<Rightarrow> nat \<Rightarrow> 'q Screen" where
  "screen_new q0 c r limit =
     \<lparr>scr_main = \<lparr>grid = new_with_role c r limit False, state = screen_state_default\<rparr>, scr_parser = q0,
      scr_logical = \<lparr>grid = new_with_role c r limit True, state = screen_state_default\<rparr>, scr_logical_parser = q0\<rparr>"

definition process_byte :: "'q vte_parser \<Rightarrow> (rchar \<Rightarrow> nat option) \<Rightarrow> nat \<Rightarrow> 'q Screen \<Rightarrow> 'q Screen option" where
  "process_byte adv uw b s = do {
     let (q, es) = adv (scr_parser s) b;
     p \<leftarrow> foldM (perform uw) es (scr_main s);
     let (lq, les) = adv (scr_logical_parser s) b;
     l \<leftarrow> foldM (perform uw) les (scr_logical s);
     Some \<lparr>scr_main = p, scr_parser = q, scr_logical = l, scr_logical_parser = lq\<rparr> }"

definition process :: "'q vte_parser \<Rightarrow> (rchar \<Rightarrow> nat option) \<Rightarrow> bytes \<Rightarrow> 'q Screen \<Rightarrow> 'q Screen option" where
  "process adv uw bs s = foldM (process_byte adv uw) bs s"

definition take_responses :: "'q Screen \<Rightarrow> bytes list \<times> 'q Screen" where
  "take_responses s = (pending_responses (state (scr_main s)),
     s\<lparr>scr_main := with_state (\<lambda>st. st\<lparr>pending_responses := []\<rparr>) (scr_main s)\<rparr>)"

definition take_passthrough :: "'q Screen \<Rightarrow> bytes list \<times> 'q Screen" where
  "take_passthrough s = (pending_passthrough (state (scr_main s)),
     s\<lparr>scr_main := with_state (\<lambda>st. st\<lparr>pending_passthrough := []\<rparr>) (scr_main s)\<rparr>)"

definition take_queued_notifications :: "'q Screen \<Rightarrow> bytes list \<times> 'q Screen" where
  "take_queued_notifications s = (queued_notifications (state (scr_main s)),
     s\<lparr>scr_main := with_state (\<lambda>st. st\<lparr>queued_notifications := []\<rparr>) (scr_main s)\<rparr>)"

definition screen_resize :: "nat \<Rightarrow> nat \<Rightarrow> 'q Screen \<Rightarrow> 'q Screen option" where
  "screen_resize c r s = do {
     p \<leftarrow> on_grid (resize_grid (in_alt_screen (state (scr_main s))) c r) (scr_main s);
     l \<leftarrow> on_grid (resize_grid (in_alt_screen (state (scr_logical s))) c r) (scr_logical s);
     Some (s\<lparr>scr_main := p, scr_logical := l\<rparr>) }"

text \<open>
  \<open>screen_text\<close>: \<open>str::trim_end\<close> removes the trailing characters with the Unicode \<open>White_Space\<close>
  property; rows are joined by a newline.
\<close>

definition is_whitespace :: "rchar \<Rightarrow> bool" where
  "is_whitespace c \<longleftrightarrow> 9 \<le> c \<and> c \<le> 13 \<or> c = 32 \<or> c = 133 \<or> c = 160 \<or> c = 5760 \<or> 8192 \<le> c \<and> c \<le> 8202
     \<or> c = 8232 \<or> c = 8233 \<or> c = 8239 \<or> c = 8287 \<or> c = 12288"

definition trim_end :: "rchar list \<Rightarrow> rchar list" where
  "trim_end s = rev (dropWhile is_whitespace (rev s))"

fun join_lines :: "rchar list list \<Rightarrow> rchar list" where
  "join_lines [] = []"
| "join_lines [l] = l"
| "join_lines (l # m # ls) = l @ [10] @ join_lines (m # ls)"

definition row_text :: "Row \<Rightarrow> rchar list" where
  "row_text r = trim_end (map ch (row_cells r))"

definition screen_text :: "'q Screen \<Rightarrow> rchar list" where
  "screen_text s = join_lines (map row_text (visible_rows (grid (scr_main s))))"

subsection \<open>The invariant of a screen\<close>

text \<open>
  Both performers are well formed, with the same scrollback limit and the same number of columns, and
  both parsers, which are fed the same bytes, are in the same state.
\<close>

definition screen_extent :: "nat \<Rightarrow> 'q Screen \<Rightarrow> Extent" where
  "screen_extent limit s = \<lparr>ex_limit = limit, ex_cols = cols (grid (scr_main s))\<rparr>"

definition screen_inv :: "nat \<Rightarrow> 'q Screen \<Rightarrow> bool" where
  "screen_inv limit s \<longleftrightarrow> perf_inv (screen_extent limit s) (scr_main s) \<and> perf_inv (screen_extent limit s) (scr_logical s)
     \<and> scr_logical_parser s = scr_parser s"

lemma fresh_rows_spec: "length (fst (fresh_rows n c i)) = n \<and> list_all (\<lambda>r. row_len r = c) (fst (fresh_rows n c i))"
  by (induction n c i rule: fresh_rows.induct) (auto simp: Let_def row_len_def split: prod.split)

lemma new_with_role_inv:
  assumes "c \<le> U16_MAX" "r \<le> U16_MAX"
  shows "grid_inv (new_with_role c r limit sh)"
proof -
  obtain rs i where f: "fresh_rows (max r 1) (max c 1) (Some 0) = (rs, i)" by force
  have "length rs = max r 1" "list_all (\<lambda>r. row_len r = max c 1) rs"
    using fresh_rows_spec [of "max r 1" "max c 1" "Some 0"] f by simp_all
  moreover have "table_inv style_table_new" by (simp add: table_inv_def style_table_new_def)
  moreover have "1 \<le> U16_MAX" by (simp add: U16_MAX_def)
  ultimately show ?thesis
    using assms f by (auto simp: new_with_role_def sanitize_dimensions_def grid_inv_def list_all_iff)
qed

lemma screen_new_inv:
  assumes "c \<le> U16_MAX" "r \<le> U16_MAX"
  shows "screen_inv limit (screen_new q0 c r limit)"
  using new_with_role_inv [OF assms]
  by (auto simp: screen_inv_def screen_extent_def screen_new_def perf_inv_def state_ok_def screen_state_default_def
      new_with_role_def Let_def MAX_PENDING_def MAX_QUEUED_NOTIFICATIONS_def split: prod.split)

lemma resize_perf_inv:
  assumes p: "perf_inv L p" and c: "c \<le> U16_MAX" "r \<le> U16_MAX"
  shows "succeeds (on_grid (resize_grid alt c r) p)
     (\<lambda>p'. perf_inv (L\<lparr>ex_cols := max c 1\<rparr>) p' \<and> cols (grid p') = max c 1 \<and> rows (grid p') = max r 1)"
proof -
  have "perf_inv (L\<lparr>ex_cols := max c 1\<rparr>) (p\<lparr>grid := g\<rparr>)"
    if "grid_inv g" "cols g = max c 1" "scrollback_limit g = scrollback_limit (grid p)"
      "scrollback_len g \<le> max (scrollback_len (grid p)) (scrollback_limit (grid p))" for g
    using p that by (auto simp: perf_inv_def)
  then show ?thesis
    by (auto intro!: succeeds_mono [OF resize_grid_ok [OF perf_inv_grid [OF p] c]])
qed

lemma screen_resize_inv:
  assumes s: "screen_inv limit s" and c: "c \<le> U16_MAX" "r \<le> U16_MAX"
  shows "succeeds (screen_resize c r s) (\<lambda>s'. screen_inv limit s' \<and> cols (grid (scr_main s')) = max c 1
     \<and> rows (grid (scr_main s')) = max r 1 \<and> scr_parser s' = scr_parser s)"
proof -
  have p: "perf_inv (screen_extent limit s) (scr_main s)" "perf_inv (screen_extent limit s) (scr_logical s)"
    "scr_logical_parser s = scr_parser s"
    using s by (simp_all add: screen_inv_def)
  show ?thesis
    unfolding screen_resize_def
    by (rule succeeds_bindI [OF resize_perf_inv [OF p(1) c]], rule succeeds_bindI [OF resize_perf_inv [OF p(2) c]])
      (use p(3) in \<open>simp add: screen_inv_def screen_extent_def\<close>)
qed

lemma take_inv:
  assumes "screen_inv limit s"
  shows "screen_inv limit (snd (take_responses s))" "screen_inv limit (snd (take_passthrough s))"
    "screen_inv limit (snd (take_queued_notifications s))"
  using assms
  by (simp_all add: screen_inv_def screen_extent_def take_responses_def take_passthrough_def take_queued_notifications_def
      perf_inv_def state_ok_def)

subsection \<open>Bytes through the parser and the performer\<close>

interpretation perf_machine: panic_free_machine "\<lambda>p. perf_inv L p \<and> width_fits uw (ex_cols L)" title_safe "perform uw" for uw L
  by unfold_locales (auto intro: succeeds_conj perform_inv elim!: succeeds_mono [OF perform_inv])

text \<open>The state of the parser after some bytes, and the callbacks it makes on the way.\<close>

primrec parser_after :: "'q vte_parser \<Rightarrow> 'q \<Rightarrow> bytes \<Rightarrow> 'q" where
  "parser_after adv q [] = q"
| "parser_after adv q (b # bs) = parser_after adv (fst (adv q b)) bs"

primrec callbacks :: "'q vte_parser \<Rightarrow> 'q \<Rightarrow> bytes \<Rightarrow> vte_event list" where
  "callbacks adv q [] = []"
| "callbacks adv q (b # bs) = snd (adv q b) @ callbacks adv (fst (adv q b)) bs"

lemma callbacks_append: "callbacks adv q (as @ bs) = callbacks adv q as @ callbacks adv (parser_after adv q as) bs"
  by (induction as arbitrary: q) simp_all

text \<open>What a step keeps that the number of columns and the parsers decide.\<close>

definition fed_to :: "nat \<Rightarrow> 'q vte_parser \<Rightarrow> bytes \<Rightarrow> 'q Screen \<Rightarrow> 'q Screen \<Rightarrow> bool" where
  "fed_to limit adv bs s s' \<longleftrightarrow> screen_inv limit s' \<and> cols (grid (scr_main s')) = cols (grid (scr_main s))
     \<and> scr_parser s' = parser_after adv (scr_parser s) bs"

lemma process_byte_inv:
  assumes s: "screen_inv limit s" and uw: "width_fits uw (cols (grid (scr_main s)))"
    and safe: "list_all title_safe (snd (adv (scr_parser s) b))"
  shows "succeeds (process_byte adv uw b s) (fed_to limit adv [b] s)"
proof -
  obtain q es where a: "adv (scr_parser s) b = (q, es)" by force
  let ?L = "screen_extent limit s"
  have good: "perf_inv ?L (scr_main s) \<and> width_fits uw (ex_cols ?L)" "perf_inv ?L (scr_logical s) \<and> width_fits uw (ex_cols ?L)"
    and par: "scr_logical_parser s = scr_parser s"
    using s uw by (simp_all add: screen_inv_def screen_extent_def)
  have es: "list_all title_safe es" using safe a by simp
  have "succeeds (foldM (perform uw) es p) (perf_inv ?L)" if "perf_inv ?L p \<and> width_fits uw (ex_cols ?L)" for p
    by (rule succeeds_mono [OF perf_machine.run_good [OF that es]]) simp
  note this [OF good(1)] this [OF good(2)]
  then show ?thesis
    using par by (auto simp: process_byte_def a fed_to_def screen_inv_def screen_extent_def perf_inv_def elim!: succeeds_mono)
qed

lemma process_inv:
  assumes "screen_inv limit s" "width_fits uw (cols (grid (scr_main s)))"
    "list_all title_safe (callbacks adv (scr_parser s) bs)"
  shows "succeeds (process adv uw bs s) (fed_to limit adv bs s)"
  using assms unfolding process_def
proof (induction bs arbitrary: s)
  case Nil
  then show ?case by (simp add: fed_to_def)
next
  case (Cons b bs)
  have "succeeds (foldM (process_byte adv uw) bs s1) (fed_to limit adv (b # bs) s)" if "fed_to limit adv [b] s s1" for s1
    by (rule succeeds_mono [OF Cons.IH]) (use that Cons.prems in \<open>auto simp: fed_to_def\<close>)
  then show ?case
    using process_byte_inv [OF Cons.prems(1,2), of adv b] Cons.prems(3)
    by (simp del: succeeds_bind) (rule succeeds_bindI)
qed

end
