(* ===== verification/Queues.thy ===== *)
theory Queues
  imports Prelude
begin

text \<open>
  Interfaces of the bounded queues of the program. A producer pushes items one by one and relies on
  three promises: below the capacity nothing is lost, the capacity is never exceeded, and a full
  queue either refuses the new item (\<open>dropping_queue\<close>) or forgets the oldest (\<open>window_queue\<close>).
\<close>

locale bounded_queue =
  fixes cap :: nat
    and items :: "'s \<Rightarrow> 'a list"
    and push :: "'a \<Rightarrow> 's \<Rightarrow> 's"
  assumes room: "length (items s) < cap \<Longrightarrow> items (push x s) = items s @ [x]"
    and bounded: "length (items s) \<le> cap \<Longrightarrow> length (items (push x s)) \<le> cap"
begin

lemma fold_bounded: "length (items s) \<le> cap \<Longrightarrow> length (items (fold push xs s)) \<le> cap"
  by (induction xs arbitrary: s) (auto intro: bounded)

lemma fold_room: "length (items s) + length xs \<le> cap \<Longrightarrow> items (fold push xs s) = items s @ xs"
  by (induction xs arbitrary: s) (auto simp: room)

end

locale dropping_queue = bounded_queue +
  assumes refuse: "cap \<le> length (items s) \<Longrightarrow> items (push x s) = items s"
begin

lemma fold_take: "length (items s) \<le> cap \<Longrightarrow> items (fold push xs s) = take cap (items s @ xs)"
proof (induction xs arbitrary: s)
  case Nil
  then show ?case by simp
next
  case (Cons x xs)
  show ?case
  proof (cases "length (items s) < cap")
    case True
    then show ?thesis using Cons.IH [of "push x s"] by (simp add: room)
  next
    case False
    then show ?thesis using Cons.IH [of "push x s"] Cons.prems by (simp add: refuse)
  qed
qed

end

locale window_queue = bounded_queue +
  assumes nonempty: "0 < cap"
    and forget: "length (items s) = cap \<Longrightarrow> items (push x s) = tl (items s) @ [x]"
begin

text \<open>The queue is always the window of the last \<open>cap\<close> items pushed.\<close>

lemma push_window: "length (items s) \<le> cap \<Longrightarrow> items (push x s) = drop (length (items s) + 1 - cap) (items s @ [x])"
proof (cases "length (items s) < cap")
  case True
  then show ?thesis by (simp add: room)
next
  case False
  assume "length (items s) \<le> cap"
  with False have "length (items s) = cap" by simp
  with nonempty show ?thesis by (cases "items s") (simp_all add: forget)
qed

lemma fold_window:
  "length (items s) \<le> cap \<Longrightarrow> items (fold push xs s) = drop (length (items s) + length xs - cap) (items s @ xs)"
proof (induction xs arbitrary: s)
  case Nil
  then show ?case by simp
next
  case (Cons x xs)
  let ?d = "length (items s) + 1 - cap"
  have "length (items (push x s)) = length (items s) + 1 - ?d"
    using push_window [OF Cons.prems, of x] by simp
  then have idx: "length (items (push x s)) + length xs - cap + ?d = length (items s) + Suc (length xs) - cap"
    using Cons.prems by (cases "length (items s) = cap") auto
  have "items (fold push xs (push x s)) = drop (length (items (push x s)) + length xs - cap) (items (push x s) @ xs)"
    by (rule Cons.IH) (rule bounded [OF Cons.prems])
  also have "items (push x s) @ xs = drop ?d (items s @ x # xs)"
    using push_window [OF Cons.prems, of x] nonempty by simp
  finally show ?case
    using idx by (simp only: drop_drop fold_Cons comp_apply list.size add_Suc_right add_0_right)
qed

end

text \<open>
  A window over items with keys, where only an item with a new key is a push: the last \<open>cap\<close> items
  pushed are kept, and a lookup by key sees exactly those.
\<close>

locale keyed_window =
  fixes cap :: nat
    and ok :: "'s \<Rightarrow> bool"
    and items :: "'s \<Rightarrow> ('k \<times> 'v) list"
    and push :: "'k \<times> 'v \<Rightarrow> 's \<Rightarrow> 's"
  assumes positive: "0 < cap"
    and keeps: "ok s \<Longrightarrow> ok (push x s)"
    and bound: "ok s \<Longrightarrow> length (items s) \<le> cap \<and> distinct (map fst (items s))"
    and fresh: "ok s \<Longrightarrow> fst x \<notin> fst ` set (items s) \<Longrightarrow>
      items (push x s) = drop (length (items s) + 1 - cap) (items s @ [x])"
begin

lemma fold_ok: "ok s \<Longrightarrow> ok (fold push xs s)"
  by (induction xs arbitrary: s) (auto intro: keeps)

lemma fold_keyed:
  "ok s \<Longrightarrow> distinct (map fst (items s @ xs)) \<Longrightarrow>
     items (fold push xs s) = drop (length (items s) + length xs - cap) (items s @ xs)"
proof (induction xs arbitrary: s)
  case Nil
  then show ?case using bound [of s] by simp
next
  case (Cons x xs)
  let ?d = "length (items s) + 1 - cap"
  have px: "items (push x s) = drop ?d (items s @ [x])" using Cons.prems by (intro fresh) (auto simp: image_iff)
  have b: "length (items s) \<le> cap" using bound [OF Cons.prems(1)] by simp
  have ap: "items (push x s) @ xs = drop ?d (items s @ x # xs)" using px b positive by simp
  have "distinct (map fst (items (push x s) @ xs))"
    unfolding ap drop_map [symmetric] using Cons.prems(2) by (rule distinct_drop)
  then have "items (fold push xs (push x s)) = drop (length (items (push x s)) + length xs - cap) (items (push x s) @ xs)"
    by (rule Cons.IH [OF keeps [OF Cons.prems(1)]])
  also note ap
  also have "drop (length (items (push x s)) + length xs - cap) (drop ?d (items s @ x # xs))
      = drop (length (items s) + length (x # xs) - cap) (items s @ x # xs)"
  proof -
    have "length (items (push x s)) = length (items s) + 1 - ?d" using px by simp
    then have "length (items (push x s)) + length xs - cap + ?d = length (items s) + length (x # xs) - cap"
      using b positive by (cases "length (items s) = cap") auto
    then show ?thesis by (simp only: drop_drop)
  qed
  finally show ?case by simp
qed

end

end
