(* ===== verification/Screen_Props.thy ===== *)
theory Screen_Props
  imports Screen Queues
begin

text \<open>
  The properties of the terminal emulator, stated over the definitions that model it, with a
  witness at a concrete screen for each one that has hypotheses.
\<close>

subsection \<open>Sessions\<close>

text \<open>What a relay does with a screen: feed bytes, resize, drain the three queues.\<close>

datatype screen_op = Feed bytes | Resize nat nat | TakeResponses | TakePassthrough | TakeNotifications

fun screen_step :: "'q vte_parser \<Rightarrow> (rchar \<Rightarrow> nat option) \<Rightarrow> screen_op \<Rightarrow> 'q Screen \<Rightarrow> 'q Screen option" where
  "screen_step adv uw (Feed bs) s = process adv uw bs s"
| "screen_step adv uw (Resize c r) s = screen_resize c r s"
| "screen_step adv uw TakeResponses s = Some (snd (take_responses s))"
| "screen_step adv uw TakePassthrough s = Some (snd (take_passthrough s))"
| "screen_step adv uw TakeNotifications s = Some (snd (take_queued_notifications s))"

definition u16_op :: "screen_op \<Rightarrow> bool" where
  "u16_op e = (case e of Resize c r \<Rightarrow> c \<le> U16_MAX \<and> r \<le> U16_MAX | _ \<Rightarrow> True)"

text \<open>
  The bytes that a session feeds, and the numbers of columns that it gives the screen (a requested zero
  becomes one).
\<close>

definition fed :: "screen_op list \<Rightarrow> bytes" where
  "fed ops = concat (map (\<lambda>e. case e of Feed bs \<Rightarrow> bs | _ \<Rightarrow> []) ops)"

definition widths :: "screen_op list \<Rightarrow> nat list" where
  "widths ops = concat (map (\<lambda>e. case e of Resize c r \<Rightarrow> [max c 1] | _ \<Rightarrow> []) ops)"

lemma session_safe:
  assumes "screen_inv limit s" "list_all (width_fits uw) (cols (grid (scr_main s)) # widths ops)"
    "list_all title_safe (callbacks adv (scr_parser s) (fed ops))" "list_all u16_op ops"
  shows "succeeds (foldM (screen_step adv uw) ops s) (screen_inv limit)"
  using assms
proof (induction ops arbitrary: s)
  case (Cons e ops)
  have step: "succeeds (screen_step adv uw e s) (\<lambda>s'. screen_inv limit s' \<and> list_all (width_fits uw) (cols (grid (scr_main s')) # widths ops)
      \<and> list_all title_safe (callbacks adv (scr_parser s') (fed ops)))"
  proof (cases e)
    case (Feed bs)
    then have "succeeds (process adv uw bs s) (fed_to limit adv bs s)"
      using Cons.prems by (intro process_inv) (simp_all add: fed_def callbacks_append)
    then show ?thesis
      using Feed Cons.prems by (auto simp: fed_to_def fed_def widths_def callbacks_append elim!: succeeds_mono)
  next
    case (Resize c r)
    then have "c \<le> U16_MAX" "r \<le> U16_MAX" using Cons.prems(4) by (simp_all add: u16_op_def)
    from screen_resize_inv [OF Cons.prems(1) this] show ?thesis
      using Resize Cons.prems by (auto simp: fed_def widths_def elim!: succeeds_mono)
  qed (use Cons.prems take_inv [of limit s] in
      \<open>simp_all add: fed_def widths_def take_responses_def take_passthrough_def take_queued_notifications_def\<close>)
  have "succeeds (foldM (screen_step adv uw) ops s') (screen_inv limit)"
    if "screen_inv limit s' \<and> list_all (width_fits uw) (cols (grid (scr_main s')) # widths ops)
      \<and> list_all title_safe (callbacks adv (scr_parser s') (fed ops))" for s'
    using that Cons.prems(4) by (intro Cons.IH) simp_all
  then show ?case
    using step by (simp del: succeeds_bind) (rule succeeds_bindI)
qed simp

lemma session_run:
  assumes "c \<le> U16_MAX" "r \<le> U16_MAX" "list_all u16_op ops" "list_all (width_fits uw) (max c 1 # widths ops)"
    "list_all title_safe (callbacks adv q0 (fed ops))"
  shows "\<exists>s. foldM (screen_step adv uw) ops (screen_new q0 c r limit) = Some s \<and> screen_inv limit s"
proof -
  have "cols (grid (scr_main (screen_new q0 c r limit))) = max c 1" "scr_parser (screen_new q0 c r limit) = q0"
    by (simp_all add: screen_new_def new_with_role_def sanitize_dimensions_def Let_def split: prod.split)
  then show ?thesis
    using session_safe [OF screen_new_inv [OF assms(1,2), of limit q0], of uw ops adv] assms(3-5)
    by (simp add: succeeds_def)
qed

text \<open>
  Parameters for the witnesses: a parser that prints every byte, and the widths of an ASCII text with
  one character, the letter i, that takes three columns.
\<close>

definition print_parser :: "unit vte_parser" where
  "print_parser q b = (q, [Print b])"

definition narrow :: "rchar \<Rightarrow> nat option" where
  "narrow c = Some (if c = 105 then 3 else 1)"

lemma narrow_fits: "n + 3 \<le> U16_MAX + 1 \<Longrightarrow> width_fits narrow n"
  by (simp add: width_fits_def narrow_def)

lemma print_parser_safe: "list_all title_safe (callbacks print_parser q bs)"
  by (induction bs) (simp_all add: print_parser_def title_safe_def)

text \<open>
  C2. A screen created with any \<open>u16\<close> dimensions survives every session: whatever bytes are fed,
  whatever callbacks the parser makes of them, whatever widths the characters have, however resizes and
  queue drains are interleaved, no call panics (no index out of range, no \<open>u16\<close> overflow, no failed
  debug assertion) and the state after it is well formed, on two conditions. The screen is never
  so wide that a character of three columns or more overflows the column (\<open>width_fits\<close>: with widths up to
  three, at most 65533 columns; a width of at most two is no restriction). And among the callbacks made
  for the bytes of this session there is no OSC title longer than 4096 bytes that is valid UTF-8 and has
  byte 4096 inside a character (\<open>title_safe\<close>).
\<close>

theorem screen_session_safe:
  assumes "c \<le> U16_MAX" "r \<le> U16_MAX" "list_all u16_op ops" "list_all (width_fits uw) (max c 1 # widths ops)"
    "list_all title_safe (callbacks adv q0 (fed ops))"
  shows "\<exists>s. foldM (screen_step adv uw) ops (screen_new q0 c r limit) = Some s \<and> screen_inv limit s"
  using assms by (rule session_run)

theorem screen_session_safe_witness:
  "\<exists>s. foldM (screen_step print_parser narrow) [Feed [104, 105], Resize 1 0, TakeResponses] (screen_new () 3 2 5) = Some s
     \<and> screen_inv 5 s"
  by (rule screen_session_safe) (simp_all add: print_parser_safe u16_op_def U16_MAX_def widths_def narrow_fits)

text \<open>
  C24. Bounded memory: after any session that meets the two conditions (every width above two fits behind
  the last column of each geometry in \<open>u16\<close>, and no callback of the session sets an over-long title cut
  inside a character) the scrollback of the main screen is within the limit the screen was created with
  (also while the alternate screen is shown, whose own scrollback is off), and the response, passthrough,
  notification and title queues are within theirs.
\<close>

theorem screen_session_bounded:
  assumes "c \<le> U16_MAX" "r \<le> U16_MAX" "list_all u16_op ops" "list_all (width_fits uw) (max c 1 # widths ops)"
    "list_all title_safe (callbacks adv q0 (fed ops))"
    and "foldM (screen_step adv uw) ops (screen_new q0 c r limit) = Some s"
  shows "scrollback_len (grid (scr_main s)) \<le> limit
    \<and> length (cells (grid (scr_main s))) \<le> limit + U16_MAX
    \<and> length (pending_responses (state (scr_main s))) \<le> 1024
    \<and> length (pending_passthrough (state (scr_main s))) \<le> 1024
    \<and> length (queued_notifications (state (scr_main s))) \<le> 50
    \<and> length (title (state (scr_main s))) \<le> 4096 \<and> length (title_stack (state (scr_main s))) \<le> 16"
proof -
  have "screen_inv limit s" using session_run [OF assms(1-5), of limit] assms(6) by auto
  then have "perf_inv (screen_extent limit s) (scr_main s)" by (simp add: screen_inv_def)
  then show ?thesis
    by (auto simp: perf_inv_def screen_extent_def state_ok_def MAX_PENDING_def MAX_QUEUED_NOTIFICATIONS_def grid_inv_def)
qed

theorem screen_session_bounded_witness:
  "scrollback_len (grid (scr_main (the (foldM (screen_step print_parser narrow)
     [Feed [104, 105]] (screen_new () 3 2 5))))) \<le> 5"
proof -
  have h: "3 \<le> U16_MAX" "2 \<le> U16_MAX" "list_all u16_op [Feed [104, 105]]"
    "list_all (width_fits narrow) (max 3 1 # widths [Feed [104, 105]])"
    "list_all title_safe (callbacks print_parser () (fed [Feed [104, 105]]))"
    by (simp_all add: u16_op_def U16_MAX_def widths_def narrow_fits print_parser_safe)
  obtain s where s: "foldM (screen_step print_parser narrow) [Feed [104, 105]] (screen_new () 3 2 5) = Some s"
    using session_run [OF h, of 5] by blast
  from screen_session_bounded [OF h s] show ?thesis
    unfolding s by simp
qed

text \<open>
  The condition on the width is needed: a character of \<open>w\<close> columns with \<open>w\<close> above two, printed with less
  than \<open>w\<close> columns left below the end of \<open>u16\<close> and no wrap pending, overflows \<open>cursor_x + char_width\<close>.
  Such a cursor position exists from \<open>65536 - w + 1\<close> columns on.
\<close>

theorem wide_character_overflows:
  assumes p: "perf_inv L p" and w: "uw (map_charset p c) = Some w" "2 < w" "w \<le> U16_MAX"
    and x: "U16_MAX < cursor_x (grid p) + w" and nw: "\<not> wrap_pending (grid p)"
  shows "perform uw (Print c) p = None"
proof -
  let ?p = "with_state (\<lambda>s. s\<lparr>last_printed_char := c\<rparr>) p"
  have p': "perf_inv L ?p" using p by (rule set_last_printed_inv)
  have "print_cell (map_charset p c) w ?p = None"
  proof (cases "intern_with_gc (current_style (state ?p)) ?p")
    case (Some r)
    obtain sid p1 where r: "r = (sid, p1)" by force
    have k: "pkeeps L ?p p1" using intern_with_gc_keeps [OF p', of "current_style (state ?p)"] Some r by simp
    have set: "succeeds (on_grid (set_print_cell x y cell) p1) (pkeeps L p1)" for x y cell
      using k by (intro on_grid_geom set_print_cell_geom perf_inv_grid pkeeps_inv)
    have "cursor_x (grid p2) = cursor_x (grid p)" if "on_grid (set_print_cell x y cell) p1 = Some p2" for x y cell p2
      using k set [of x y cell] unfolding that by (simp add: pkeeps_def keeps_def)
    then have "on_grid (set_print_cell x y cell) p1 \<bind> (\<lambda>p2. add16 (cursor_x (grid p2)) w \<bind> f p2) = None" for x y cell f
      using x by (cases "on_grid (set_print_cell x y cell) p1") (auto simp: add16_def)
    then show ?thesis
      using Some r perf_inv_bounds [OF p] by (simp add: print_cell_def)
  qed (use perf_inv_bounds [OF p] in \<open>simp add: print_cell_def\<close>)
  moreover have "map_charset ?p c = map_charset p c" "as_u16 w = w"
    using w by (simp_all add: map_charset_def as_u16_def U16_MAX_def)
  ultimately show ?thesis
    using w nw by (simp add: print_def)
qed

subsection \<open>Resizing\<close>

text \<open>
  C25. Shrinking the primary screen vertically, with the columns unchanged and room in the scrollback
  for the rows that go, keeps the cursor on its line and keeps every line up to it: the cursor row has
  the same index in the unified buffer and every row up to it is unchanged. Rows below the cursor may
  be lost; only when the cursor is at least as far down as the number of rows to remove
  (\<open>rows g - r \<le> cursor_y g\<close>) are the rows that disappear all blank rows below the cursor. With the cursor
  nearer to the top, rows with text at the bottom of the screen are dropped.
\<close>

theorem vertical_shrink_preserves:
  assumes "grid_inv g" "0 < r" "r < rows g" "scrollback_len g + (rows g - r) \<le> scrollback_limit g"
  shows "\<exists>g' k. resize_grid False (cols g) r g = Some g' \<and> grid_inv g'
     \<and> scrollback_len g' + cursor_y g' = scrollback_len g + cursor_y g \<and> cursor_x g' = cursor_x g
     \<and> take (scrollback_len g + cursor_y g + 1) (contents g') = take (scrollback_len g + cursor_y g + 1) (contents g)
     \<and> (rows g - r \<le> cursor_y g \<longrightarrow> contents g' = take (length (cells g) - k) (contents g)
          \<and> (\<forall>i. length (cells g) - k \<le> i \<and> i < length (cells g) \<longrightarrow> blank_at g i))"
  using assms by (rule shrink_keeps_cursor_line)

definition demo_grid :: Grid where
  "demo_grid = new_with_role 4 3 10 False"

lemma demo_grid_inv: "grid_inv demo_grid"
  by (simp add: demo_grid_def new_with_role_inv U16_MAX_def)

lemma demo_grid_fields:
  "rows demo_grid = 3" "cols demo_grid = 4" "scrollback_len demo_grid = 0" "scrollback_limit demo_grid = 10"
  "cursor_y demo_grid = 0" "cursor_x demo_grid = 0" "scroll_top demo_grid = 0" "scroll_bottom demo_grid = 2"
  by (simp_all add: demo_grid_def new_with_role_def sanitize_dimensions_def Let_def split: prod.split)

theorem vertical_shrink_preserves_witness:
  "\<exists>g'. resize_grid False 4 2 demo_grid = Some g' \<and> scrollback_len g' + cursor_y g' = 0
     \<and> take 1 (contents g') = take 1 (contents demo_grid)"
  using vertical_shrink_preserves [OF demo_grid_inv, of 2] by (auto simp: demo_grid_fields)

text \<open>
  Any resize returns a well-formed grid of exactly the requested geometry (a requested zero
  becomes one), whatever the cursor, the scrollback and the alternate screen are.
\<close>

theorem resize_well_formed:
  assumes "grid_inv g" "c \<le> U16_MAX" "r \<le> U16_MAX"
  shows "\<exists>g'. resize_grid in_alt c r g = Some g' \<and> grid_inv g' \<and> cols g' = max c 1 \<and> rows g' = max r 1
     \<and> scrollback_len g' \<le> max (scrollback_len g) (scrollback_limit g)"
  using resize_grid_ok [OF assms] by (auto simp: succeeds_def)

theorem resize_well_formed_witness:
  "\<exists>g'. resize_grid True 0 65535 demo_grid = Some g' \<and> grid_inv g' \<and> cols g' = 1 \<and> rows g' = 65535"
  using resize_well_formed [OF demo_grid_inv, of 0 65535 True] by (auto simp: U16_MAX_def)

subsection \<open>Scrolling\<close>

text \<open>
  A scroll of the primary screen with the region starting at the top moves the top row into the
  scrollback and brings a blank row in at the bottom of the region: below the limit no row of the
  unified buffer is lost or changed, at the limit exactly the oldest one goes. The blank row has a
  fresh identity.
\<close>

theorem scroll_up_into_history:
  assumes "grid_inv g" "scroll_top g = 0" "0 < scrollback_limit g"
  shows "\<exists>g'. scroll_up False fill g = Some g' \<and> grid_inv g'
     \<and> scrollback_len g' = (if scrollback_len g < scrollback_limit g then scrollback_len g + 1 else scrollback_len g)
     \<and> contents g' = (if scrollback_len g < scrollback_limit g
         then ins_nth (scrollback_len g + 1 + scroll_bottom g) (replicate (cols g) fill, [], next_row_id g) (contents g)
         else ins_nth (scrollback_len g + scroll_bottom g) (replicate (cols g) fill, [], next_row_id g) (tl (contents g)))"
proof -
  obtain g' where g': "scroll_up False fill g = Some g'" "frame g' = frame (bump_row_id (grow_scrollback g))"
    "contents g' = (if evict_oldest g
         then ins_nth (scrollback_len g + scroll_bottom g) (blank_line fill g) (tl (contents g))
         else ins_nth (scrollback_len g + 1 + scroll_bottom g) (blank_line fill g) (contents g))"
    using scroll_up_history [OF assms, of fill] by (auto simp: succeeds_def)
  have "grid_inv g'" using keeps_inv [OF scroll_up_history_keeps [OF assms(1) g'(2,3)]] .
  then show ?thesis
    using g' frame_fields(8) [OF g'(2)]
    by (auto simp: evict_oldest_def grow_scrollback_def bump_row_id_def blank_line_def)
qed

theorem scroll_up_into_history_witness:
  "\<exists>g'. scroll_up False cell_default demo_grid = Some g' \<and> scrollback_len g' = 1"
  using scroll_up_into_history [OF demo_grid_inv, of cell_default] by (auto simp: demo_grid_fields)

text \<open>
  Every other scroll (alternate screen, region not at the top, or no scrollback) touches only the
  rows of the scroll region: the region's top row disappears, a blank one appears at its bottom.
\<close>

theorem scroll_up_within_region:
  assumes "grid_inv g" "in_alt \<or> 0 < scroll_top g \<or> scrollback_limit g = 0"
  shows "\<exists>g'. scroll_up in_alt fill g = Some g' \<and> grid_inv g' \<and> scrollback_len g' = scrollback_len g
     \<and> contents g' = ins_nth (scrollback_len g + scroll_bottom g) (replicate (cols g) fill, [], next_row_id g)
                       (rm_nth (scrollback_len g + scroll_top g) (contents g))"
proof -
  obtain g' where g': "scroll_up in_alt fill g = Some g'" "frame g' = frame (bump_row_id g)"
    "contents g' = ins_nth (scrollback_len g + scroll_bottom g) (blank_line fill g)
                       (rm_nth (scrollback_len g + scroll_top g) (contents g))"
    using scroll_up_region [OF assms, of fill] by (auto simp: succeeds_def)
  have "keeps g g'"
    using grid_inv_lengths [OF assms(1)] g' by (intro keeps_moved [OF assms(1), of "scroll_top g" "scroll_bottom g"]) auto
  then show ?thesis
    using g' frame_fields(8) [OF g'(2)] by (auto simp: bump_row_id_def blank_line_def keeps_def)
qed

theorem scroll_up_within_region_witness:
  "\<exists>g'. scroll_up True cell_default demo_grid = Some g' \<and> scrollback_len g' = 0"
  using scroll_up_within_region [OF demo_grid_inv, of True cell_default] by (auto simp: demo_grid_fields)

subsection \<open>The alternate screen\<close>

text \<open>
  C28. Entering the alternate screen (DEC 1049) and leaving it again restores the primary screen,
  whatever was drawn in between, provided that at the exit the geometry and the scrollback are those at
  the entry and the saved state is still the one the entry saved: the saved grid, the saved scroll
  region and the saved cursor (ESC 7, CSI s and ?1048h overwrite the last, and the exit then restores
  that cursor and style instead). Then every row, the cursor, the scroll region, the style and the
  scrollback limit are what they were when it was entered.
\<close>

theorem alt_screen_round_trip:
  assumes p: "perf_inv L p" "\<not> in_alt_screen (state p)" and enter: "enter_alt_screen True p = Some p1"
    and p2: "perf_inv L p2" "saved_grid (state p2) = saved_grid (state p1)"
      "saved_cursor_state (state p2) = saved_cursor_state (state p1)"
      "saved_scroll_region (state p2) = saved_scroll_region (state p1)"
    and geo: "cols (grid p2) = cols (grid p)" "rows (grid p2) = rows (grid p)"
      "scrollback_len (grid p2) = scrollback_len (grid p)"
      "take (scrollback_len (grid p)) (contents (grid p2)) = take (scrollback_len (grid p)) (contents (grid p))"
  shows "\<exists>p3. exit_alt_screen True p2 = Some p3 \<and> perf_inv L p3 \<and> \<not> in_alt_screen (state p3)
     \<and> contents (grid p3) = contents (grid p)
     \<and> cursor_x (grid p3) = cursor_x (grid p) \<and> cursor_y (grid p3) = cursor_y (grid p)
     \<and> scroll_top (grid p3) = scroll_top (grid p) \<and> scroll_bottom (grid p3) = scroll_bottom (grid p)
     \<and> scrollback_limit (grid p3) = scrollback_limit (grid p) \<and> current_style (state p3) = current_style (state p)"
proof -
  note b = perf_inv_bounds [OF p(1)] and gi = perf_inv_grid [OF p(1)]
  have ent: "entered p p1" "is_some_and (saved_cursor_state (state p1)) (\<lambda>sc. sc_x sc = cursor_x (grid p)
      \<and> sc_y sc = cursor_y (grid p) \<and> sc_style sc = current_style (state p))"
    using enter_alt_screen_spec [OF p, of True] enter by simp_all
  then obtain sg sc where sg: "saved_grid (state p2) = Some sg" "sg_visible_cells sg = drop (scrollback_len (grid p)) (cells (grid p))"
      "sg_scrollback_limit sg = scrollback_limit (grid p)"
    and sc: "saved_cursor_state (state p2) = Some sc" "sc_x sc = cursor_x (grid p)" "sc_y sc = cursor_y (grid p)"
      "sc_style sc = current_style (state p)"
    and sr: "saved_scroll_region (state p2) = Some (scroll_top (grid p), scroll_bottom (grid p))"
    using p2 by (auto simp: entered_def is_some_and_iff)
  obtain p3 where p3: "exit_alt_screen True p2 = Some p3" "exited True p2 sg p3"
    using exit_alt_screen_spec [OF p2(1) sg(1), of True] by (auto simp: succeeds_def)
  have L: "\<lparr>ex_limit = sg_scrollback_limit sg, ex_cols = cols (grid p2)\<rparr> = L"
    using p sg(3) geo(1) by (auto simp: perf_inv_def state_ok_def)
  have vis: "length (sg_visible_cells sg) = rows (grid p2)" "list_all (\<lambda>r. row_len r = cols (grid p2)) (sg_visible_cells sg)"
    using gi sg(2) geo by (simp_all add: grid_inv_def list_all_iff)
  have ar: "after_restore p2 sg p3" using p3(2) by (simp add: exited_def)
  have "contents (grid p3) = take (scrollback_len (grid p)) (contents (grid p3)) @ drop (scrollback_len (grid p)) (contents (grid p3))"
    by simp
  also have "\<dots> = take (scrollback_len (grid p)) (contents (grid p)) @ drop (scrollback_len (grid p)) (contents (grid p))"
    using ar vis geo sg(2) by (simp add: after_restore_def contents_def drop_map)
  finally have "contents (grid p3) = contents (grid p)" by simp
  then show ?thesis
    using p3 ar sc sr b geo sg L by (auto simp: exited_def after_restore_def)
qed

definition demo_perf :: ScreenPerformer where
  "demo_perf = \<lparr>grid = demo_grid, state = screen_state_default\<rparr>"

lemma demo_perf_inv: "perf_inv \<lparr>ex_limit = 10, ex_cols = 4\<rparr> demo_perf" "\<not> in_alt_screen (state demo_perf)"
  using screen_new_inv [of 4 3 10 "()"] demo_grid_fields(2)
  by (simp_all add: screen_inv_def screen_extent_def screen_new_def demo_perf_def demo_grid_def U16_MAX_def screen_state_default_def)

theorem alt_screen_round_trip_witness:
  "\<exists>p3. exit_alt_screen True (the (enter_alt_screen True demo_perf)) = Some p3
     \<and> contents (grid p3) = contents (grid demo_perf)"
proof -
  obtain p1 where p1: "enter_alt_screen True demo_perf = Some p1" "perf_inv \<lparr>ex_limit = 10, ex_cols = 4\<rparr> p1" "entered demo_perf p1"
    using enter_alt_screen_spec [OF demo_perf_inv, of True] by (auto simp: succeeds_def)
  then show ?thesis
    using alt_screen_round_trip [OF demo_perf_inv p1(1,2)] by (auto simp: entered_def)
qed

subsection \<open>Styles\<close>

text \<open>
  Interning never corrupts a style: the identifier it returns reads back as the interned style
  (or is the default identifier, and then the table was full), and every identifier in use keeps its
  style and stays in use.
\<close>

theorem intern_sound:
  assumes "table_inv t"
  shows "\<exists>i t'. intern s t = Some (i, t') \<and> table_inv t' \<and> in_use t' i
     \<and> (style_get t' i = s \<or> i = 0 \<and> is_full t \<and> t' = t)
     \<and> (\<forall>j. in_use t j \<longrightarrow> in_use t' j \<and> style_get t' j = style_get t j)"
  using intern_spec [OF assms, of s] by (auto simp: succeeds_def interned_def table_ext_def)

theorem intern_sound_witness:
  "\<exists>i t'. intern (style_default\<lparr>bold := True\<rparr>) style_table_new = Some (i, t') \<and> style_get t' i = style_default\<lparr>bold := True\<rparr>"
proof -
  have "table_inv style_table_new" by (simp add: table_inv_def style_table_new_def)
  from intern_sound [OF this, of "style_default\<lparr>bold := True\<rparr>"] show ?thesis
    by (auto simp: is_full_def style_table_new_def U16_MAX_def)
qed

lemma cells_use_ext: "table_ext t t' \<Longrightarrow> cells_use t rs \<Longrightarrow> cells_use t' rs"
  by (auto simp: cells_use_def table_ext_def list_all_iff)

definition same_styles :: "StyleTable \<Rightarrow> StyleTable \<Rightarrow> Row list \<Rightarrow> bool" where
  "same_styles t t' rs \<longleftrightarrow> list_all (\<lambda>r. list_all (\<lambda>c. style_get t' (style_id c) = style_get t (style_id c)) (row_cells r)) rs"

lemma same_styles_ext: "table_ext t t' \<Longrightarrow> cells_use t rs \<Longrightarrow> same_styles t t' rs"
  by (auto simp: cells_use_def table_ext_def same_styles_def list_all_iff)

lemma same_styles_trans: "same_styles t1 t2 rs \<Longrightarrow> same_styles t2 t3 rs \<Longrightarrow> same_styles t1 t3 rs"
  by (auto simp: same_styles_def list_all_iff)

lemma compact_same_styles:
  assumes "perf_inv L p" "cells_use (style_table (grid p)) (cells (grid p))"
    "\<And>sg. saved_grid (state p) = Some sg \<Longrightarrow> cells_use (style_table (grid p)) (sg_visible_cells sg)"
  defines "t' \<equiv> style_table (compact_styles (map_option sg_visible_cells (saved_grid (state p))) (grid p))"
  shows "cells_use t' (cells (grid p))" "same_styles (style_table (grid p)) t' rs"
    "saved_grid (state p) = Some sg \<Longrightarrow> cells_use t' (sg_visible_cells sg)"
proof -
  have "table_inv (style_table (grid p))" "length (cells (grid p)) = scrollback_len (grid p) + rows (grid p)"
    using assms(1) by (simp_all add: perf_inv_def grid_inv_def)
  note c = compact_styles_table [where g = "grid p" and saved = "map_option sg_visible_cells (saved_grid (state p))", OF this assms(2)]
  show "cells_use t' (cells (grid p))" using c(3) assms(3) by (auto simp: t'_def)
  show "saved_grid (state p) = Some sg \<Longrightarrow> cells_use t' (sg_visible_cells sg)" using c(4) assms(3) by (auto simp: t'_def)
  have "styles t' = styles (style_table (grid p))" using c(2) assms(3) by (auto simp: t'_def)
  then show "same_styles (style_table (grid p)) t' rs" by (simp add: same_styles_def style_get_def list_all_iff)
qed

text \<open>
  Style garbage collection is invisible: \<open>intern_with_gc\<close>, which compacts the table when it is
  full, changes no cell, and no cell of the grid or of the saved primary screen changes its style.
  The condition that cells use only live identifiers is kept.
\<close>

theorem gc_preserves_cell_styles:
  assumes p: "perf_inv L p" "cells_use (style_table (grid p)) (cells (grid p))"
    "\<And>sg. saved_grid (state p) = Some sg \<Longrightarrow> cells_use (style_table (grid p)) (sg_visible_cells sg)"
  shows "\<exists>i p'. intern_with_gc s p = Some (i, p') \<and> cells (grid p') = cells (grid p) \<and> state p' = state p
     \<and> in_use (style_table (grid p')) i
     \<and> (style_get (style_table (grid p')) i = s \<or> i = 0 \<and> is_full (style_table (grid p')))
     \<and> same_styles (style_table (grid p)) (style_table (grid p')) (cells (grid p'))
     \<and> cells_use (style_table (grid p')) (cells (grid p'))
     \<and> (\<forall>sg. saved_grid (state p) = Some sg \<longrightarrow>
          same_styles (style_table (grid p)) (style_table (grid p')) (sg_visible_cells sg)
          \<and> cells_use (style_table (grid p')) (sg_visible_cells sg))"
proof -
  obtain i p1 where p1: "intern_style s p = Some (i, p1)" "pkeeps L p p1" "cells (grid p1) = cells (grid p)"
    "interned s (style_table (grid p)) (i, style_table (grid p1))"
    using intern_style_spec [OF p(1), of s] by (auto simp: succeeds_def)
  have ext: "table_ext (style_table (grid p)) (style_table (grid p1))" and st: "state p1 = state p" and inv1: "perf_inv L p1"
    using p1 by (simp_all add: interned_def pkeeps_def)
  have use1: "cells_use (style_table (grid p1)) (cells (grid p1))" using cells_use_ext [OF ext p(2)] p1(3) by simp
  have use1s: "cells_use (style_table (grid p1)) (sg_visible_cells sg)" if "saved_grid (state p1) = Some sg" for sg
    using cells_use_ext [OF ext p(3)] that st by simp
  let ?gc = "i = 0 \<and> \<not> style_is_default s \<and> is_full (style_table (grid p1))"
  show ?thesis
  proof (cases ?gc)
    case False
    then have "intern_with_gc s p = Some (i, p1)" using p1(1) by (auto simp: intern_with_gc_def)
    then show ?thesis
      using p1 st use1 use1s same_styles_ext [OF ext p(2)] same_styles_ext [OF ext p(3)]
      by (auto simp: interned_def)
  next
    case True
    define p2 where "p2 = with_grid (compact_styles (map_option sg_visible_cells (saved_grid (state p1)))) p1"
    note cs = compact_same_styles [OF inv1 use1 use1s]
    have "perf_inv L p2"
      using keeps_perf_inv [OF inv1 compact_styles_inv [OF perf_inv_grid [OF inv1]]] by (simp add: p2_def with_grid_def)
    then obtain j p3 where p3: "intern_style s p2 = Some (j, p3)" "pkeeps L p2 p3" "cells (grid p3) = cells (grid p2)"
      "interned s (style_table (grid p2)) (j, style_table (grid p3))"
      using intern_style_spec [of L p2 s] by (auto simp: succeeds_def)
    have ext2: "table_ext (style_table (grid p2)) (style_table (grid p3))" using p3 by (simp add: interned_def)
    have g2: "cells (grid p2) = cells (grid p)" "state p2 = state p"
      "cells_use (style_table (grid p2)) (cells (grid p))" "same_styles (style_table (grid p1)) (style_table (grid p2)) rs"
      "saved_grid (state p) = Some sg \<Longrightarrow> cells_use (style_table (grid p2)) (sg_visible_cells sg)" for rs sg
      using cs st p1(3) by (simp_all add: p2_def compact_styles_frame)
    have tr: "same_styles (style_table (grid p)) (style_table (grid p3)) rs" "cells_use (style_table (grid p3)) rs"
      if "cells_use (style_table (grid p)) rs" "cells_use (style_table (grid p2)) rs" for rs
      using same_styles_trans [OF same_styles_trans [OF same_styles_ext [OF ext that(1)] g2(4)] same_styles_ext [OF ext2 that(2)]]
        cells_use_ext [OF ext2 that(2)] by simp_all
    have "intern_with_gc s p = Some (j, p3)" using p1(1) p3(1) True by (simp add: intern_with_gc_def p2_def)
    then show ?thesis
      using p3 g2 tr [OF p(2) g2(3)] tr [OF p(3) g2(5)] by (auto simp: interned_def pkeeps_def)
  qed
qed

theorem gc_preserves_cell_styles_witness:
  "\<exists>i p'. intern_with_gc (style_default\<lparr>dim := True\<rparr>) demo_perf = Some (i, p') \<and> cells (grid p') = cells (grid demo_perf)"
proof -
  have rows_default: "list_all (\<lambda>r. row_cells r = replicate 4 cell_default) (fst (fresh_rows n 4 k))" for n k
    by (induction n "4 :: nat" k rule: fresh_rows.induct) (auto simp: Let_def split: prod.split)
  have c: "cells demo_grid = fst (fresh_rows 3 4 (Some 0))" "style_table demo_grid = style_table_new"
    by (simp_all add: demo_grid_def new_with_role_def sanitize_dimensions_def Let_def split: prod.split)
  have "cells_use (style_table (grid demo_perf)) (cells (grid demo_perf))"
    using rows_default [of 3 "Some 0"] c
    by (auto simp: demo_perf_def cells_use_def list_all_iff in_use_def style_table_new_def cell_default_def)
  moreover have "saved_grid (state demo_perf) = None" by (simp add: demo_perf_def screen_state_default_def)
  ultimately show ?thesis
    using gc_preserves_cell_styles [OF demo_perf_inv(1), of "style_default\<lparr>dim := True\<rparr>"] by auto
qed

subsection \<open>Queues\<close>

interpretation resp_queue: dropping_queue MAX_PENDING pending_responses push_response
  by unfold_locales (auto simp: push_response_def)

interpretation pass_queue: dropping_queue MAX_PENDING pending_passthrough push_passthrough
  by unfold_locales (auto simp: push_passthrough_def)

interpretation notif_queue: window_queue MAX_QUEUED_NOTIFICATIONS queued_notifications push_notification
  by unfold_locales (auto simp: push_notification_def Let_def MAX_QUEUED_NOTIFICATIONS_def)

text \<open>
  The queues drain what was pushed, in order. Responses and passthrough keep the first 1024 of
  a burst; notifications are a window on the last 50.
\<close>

theorem queue_contents:
  assumes "length (pending_responses s) \<le> MAX_PENDING" "length (pending_passthrough s) \<le> MAX_PENDING"
    "length (queued_notifications s) \<le> MAX_QUEUED_NOTIFICATIONS"
  shows "pending_responses (fold push_response ds s) = take 1024 (pending_responses s @ ds)
    \<and> pending_passthrough (fold push_passthrough ds s) = take 1024 (pending_passthrough s @ ds)
    \<and> queued_notifications (fold push_notification ds s)
        = drop (length (queued_notifications s) + length ds - 50) (queued_notifications s @ ds)"
  using resp_queue.fold_take [OF assms(1)] pass_queue.fold_take [OF assms(2)] notif_queue.fold_window [OF assms(3)]
  by (simp only: MAX_PENDING_def MAX_QUEUED_NOTIFICATIONS_def)

theorem queue_contents_witness:
  "queued_notifications (fold push_notification [[7], [8]] screen_state_default) = [[7], [8]]"
  using queue_contents [of screen_state_default "[[7], [8]]"]
  by (simp add: screen_state_default_def MAX_PENDING_def MAX_QUEUED_NOTIFICATIONS_def)

subsection \<open>Tab stops\<close>

text \<open>
  A horizontal tab moves to the nearest tab stop to the right of the cursor, and to the last
  column when there is none.
\<close>

theorem next_tab_stop_nearest:
  assumes "grid_inv g"
  shows "\<exists>x. next_tab_stop c g = Some x \<and> x < cols g
    \<and> (if \<exists>i. c < i \<and> i < cols g \<and> tab_stops g ! i
       then c < x \<and> tab_stops g ! x \<and> (\<forall>i. c < i \<and> i < x \<longrightarrow> \<not> tab_stops g ! i)
       else x = cols g - 1)"
proof -
  have len: "length (tab_stops g) = cols g" and u: "cols g \<le> U16_MAX" "1 \<le> cols g"
    using assms by (simp_all add: grid_inv_def)
  show ?thesis
  proof (cases "List.find (\<lambda>i. tab_stops g ! i) [c + 1..<length (tab_stops g)]")
    case None
    then have "\<not> (\<exists>i. c < i \<and> i < cols g \<and> tab_stops g ! i)"
      using len by (auto simp: find_None_iff)
    then show ?thesis using None u by (auto simp: next_tab_stop_def sub16_def)
  next
    case (Some x)
    then obtain k where k: "k < length [c + 1..<length (tab_stops g)]" "tab_stops g ! x"
      "x = [c + 1..<length (tab_stops g)] ! k" "\<forall>j<k. \<not> tab_stops g ! ([c + 1..<length (tab_stops g)] ! j)"
      by (auto simp: find_Some_iff)
    have x: "x = c + 1 + k" "x < cols g" using k len by auto
    have "\<not> tab_stops g ! i" if "c < i" "i < x" for i
      using k(4) [rule_format, of "i - c - 1"] that x k(1) len by auto
    then show ?thesis
      using Some k(2) x u len by (intro exI [of _ x]) (auto simp: next_tab_stop_def)
  qed
qed

theorem next_tab_stop_nearest_witness: "next_tab_stop 0 demo_grid = Some 3"
proof -
  have "tab_stops demo_grid = default_tab_stops 4"
    by (simp add: demo_grid_def new_with_role_def sanitize_dimensions_def Let_def split: prod.split)
  then have "\<not> (\<exists>i. 0 < i \<and> i < cols demo_grid \<and> tab_stops demo_grid ! i)"
    by (auto simp: demo_grid_fields default_tab_stops_def)
  then show ?thesis
    using next_tab_stop_nearest [OF demo_grid_inv, of 0] by (auto simp: demo_grid_fields)
qed

subsection \<open>Over-long titles\<close>





end
