(* ===== verification/Codec.thy ===== *)
theory Codec
  imports Prelude "HOL-Library.Word"
begin

unbundle bit_operations_syntax

text \<open>
  The wire protocol of the multiplexer (\<open>crates/qrmux/src/protocol/codec.rs\<close> and \<open>handshake.rs\<close>):
  length-prefixed frames, the buffered frame reader, the version preamble and the capability check.
  Bytes are 8-bit words and the length prefix is a 32-bit word. The \<open>bincode\<close> serializer is the pair
  of parameters \<open>ser\<close> and \<open>de\<close>; \<open>bincode_ok\<close> says what the protocol relies on. What a socket read
  yields is a parameter too: each \<open>read\<close> returns an error or some bytes, no bytes at end of file.
\<close>

type_synonym byte = "8 word"

datatype io_error = UnexpectedEof | OtherIo nat

datatype 'e ProtocolError = FrameTooLarge nat nat | EncodeTooLarge nat | Deserialize 'e | Io io_error

definition MAX_FRAME_SIZE :: nat where "MAX_FRAME_SIZE = 16 * 1024 * 1024"
definition READ_BUF_SIZE :: nat where "READ_BUF_SIZE = 65536"

definition to_be_bytes :: "32 word \<Rightarrow> byte list" where
  "to_be_bytes w = [ucast (drop_bit 24 w), ucast (drop_bit 16 w), ucast (drop_bit 8 w), ucast w]"

definition from_be_bytes :: "byte \<Rightarrow> byte \<Rightarrow> byte \<Rightarrow> byte \<Rightarrow> 32 word" where
  "from_be_bytes a b c d = push_bit 24 (ucast a) OR push_bit 16 (ucast b) OR push_bit 8 (ucast c) OR ucast d"

definition encode :: "('m \<Rightarrow> 'e + byte list) \<Rightarrow> 'm \<Rightarrow> 'e ProtocolError + byte list" where
  "encode ser msg =
     (case ser msg of Inl e \<Rightarrow> Inl (Deserialize e)
      | Inr data \<Rightarrow>
        if length data < 2 ^ 32 then Inr (to_be_bytes (of_nat (length data)) @ data)
        else Inl (EncodeTooLarge (length data)))"

definition decode :: "(byte list \<Rightarrow> 'e + 'm) \<Rightarrow> byte list \<Rightarrow> 'e ProtocolError + 'm" where
  "decode de data = (case de data of Inl e \<Rightarrow> Inl (Deserialize e) | Inr m \<Rightarrow> Inr m)"

definition decode_frame :: "byte list \<Rightarrow> 'e ProtocolError + (byte list \<times> nat) option" where
  "decode_frame buf =
     (if length buf < 4 then Inr None
      else let len = unat (from_be_bytes (buf ! 0) (buf ! 1) (buf ! 2) (buf ! 3))
           in if MAX_FRAME_SIZE < len then Inl (FrameTooLarge len MAX_FRAME_SIZE)
              else if length buf < 4 + len then Inr None
              else Inr (Some (take len (drop 4 buf), 4 + len)))"

text \<open>The scratch buffer \<open>tmp_buf\<close> is not part of the state: a read hands over what it put there.\<close>

record FrameReader =
  read_buf :: "byte list"
  offset :: nat

definition frame_reader_new :: FrameReader where
  "frame_reader_new = \<lparr>read_buf = [], offset = 0\<rparr>"

definition with_leftover :: "byte list \<Rightarrow> FrameReader" where
  "with_leftover bs = \<lparr>read_buf = bs, offset = 0\<rparr>"

text \<open>\<open>drain(..offset)\<close> panics when the offset is past the end.\<close>

definition compact_buf :: "FrameReader \<Rightarrow> FrameReader option" where
  "compact_buf fr =
     (if 0 < offset fr
      then if length (read_buf fr) < offset fr then None
           else Some (fr\<lparr>read_buf := drop (offset fr) (read_buf fr), offset := 0\<rparr>)
      else Some fr)"

definition fill_from ::
  "io_error + byte list \<Rightarrow> FrameReader \<Rightarrow> (('e ProtocolError + bool) \<times> FrameReader) option" where
  "fill_from rd fr = do {
     fr \<leftarrow> compact_buf fr;
     Some (case rd of
             Inl e \<Rightarrow> (Inl (Io e), fr)
           | Inr chunk \<Rightarrow>
               if chunk = [] then (Inr False, fr)
               else let fr = fr\<lparr>read_buf := read_buf fr @ chunk\<rparr>
                    in if MAX_FRAME_SIZE * 2 + 8 < length (read_buf fr)
                       then (Inl (FrameTooLarge (length (read_buf fr)) MAX_FRAME_SIZE), fr)
                       else (Inr True, fr)) }"

text \<open>The slice \<open>read_buf[offset..]\<close> panics when the offset is past the end.\<close>

definition decode_next ::
  "(byte list \<Rightarrow> 'e + 'm) \<Rightarrow> FrameReader \<Rightarrow> (('e ProtocolError + 'm option) \<times> FrameReader) option" where
  "decode_next de fr =
     (if length (read_buf fr) < offset fr then None
      else case decode_frame (drop (offset fr) (read_buf fr)) of
             Inl e \<Rightarrow> Some (Inl e, fr)
           | Inr None \<Rightarrow> Some (Inr None, fr)
           | Inr (Some (data, consumed)) \<Rightarrow>
               (case decode de data of
                  Inl e \<Rightarrow> Some (Inl e, fr)
                | Inr m \<Rightarrow> Some (Inr (Some m), fr\<lparr>offset := offset fr + consumed\<rparr>)))"

definition into_leftover :: "FrameReader \<Rightarrow> byte list option" where
  "into_leftover fr = (if length (read_buf fr) < offset fr then None else Some (drop (offset fr) (read_buf fr)))"

text \<open>
  \<open>read_one_message\<close> on the results of the successive reads; running out of reads is the
  future that is still waiting (\<open>Some None\<close>).
\<close>

fun read_one_message ::
  "(byte list \<Rightarrow> 'e + 'm) \<Rightarrow> (io_error + byte list) list \<Rightarrow> FrameReader \<Rightarrow> ('e ProtocolError + 'm) option option" where
  "read_one_message de [] fr = Some None"
| "read_one_message de (rd # rds) fr =
     (case fill_from rd fr of
        None \<Rightarrow> None
      | Some (Inl e, fr) \<Rightarrow> Some (Some (Inl e))
      | Some (Inr False, fr) \<Rightarrow> Some (Some (Inl (Io UnexpectedEof)))
      | Some (Inr True, fr) \<Rightarrow>
          (case decode_next de fr of
             None \<Rightarrow> None
           | Some (Inl e, fr) \<Rightarrow> Some (Some (Inl e))
           | Some (Inr (Some m), fr) \<Rightarrow> Some (Some (Inr m))
           | Some (Inr None, fr) \<Rightarrow> read_one_message de rds fr))"

lemma decode_frame_SomeD:
  "decode_frame buf = Inr (Some (data, n)) \<Longrightarrow> 4 \<le> n \<and> n \<le> length buf \<and> data = take (n - 4) (drop 4 buf)"
  by (auto simp: decode_frame_def Let_def split: if_splits)

lemma decode_next_progress:
  "decode_next de fr = Some (Inr (Some m), fr') \<Longrightarrow>
     read_buf fr' = read_buf fr \<and> offset fr < offset fr' \<and> offset fr' \<le> length (read_buf fr)"
  by (auto simp: decode_next_def split: if_splits sum.splits option.splits dest!: decode_frame_SomeD)

text \<open>
  The receive loop of the client (\<open>run_socket_to_stdout\<close> of \<open>client/mod.rs\<close>): the frames already in the
  leftover bytes are handled first; then, after every read, messages are decoded and handed to the handler
  until no complete frame is left, and the output is flushed. A message after which the handler says \<open>Done\<close>
  ends the loop at once, as does an error of the reader, of the handler or of the flush. The handler and
  the flush are functions on the client's state with their result; running out of reads is the future
  that is still waiting.
\<close>

datatype DispatchResult = Continue | Done

datatype ('e, 'x) RecvEnd = Waiting | Closed | Stopped | ReadFailed "'e ProtocolError" | HandlerFailed 'x

type_synonym ('m, 'x, 's) handler = "'m \<Rightarrow> 's \<Rightarrow> ('x + DispatchResult) \<times> 's"
type_synonym ('x, 's) flusher = "'s \<Rightarrow> 'x option \<times> 's"

function drain_msgs ::
  "(byte list \<Rightarrow> 'e + 'm) \<Rightarrow> ('m, 'x, 's) handler \<Rightarrow> FrameReader \<Rightarrow> 's
     \<Rightarrow> (('e, 'x) RecvEnd option \<times> FrameReader \<times> 's) option" where
  "drain_msgs de h fr s =
     (case decode_next de fr of
        None \<Rightarrow> None
      | Some (Inl e, fr') \<Rightarrow> Some (Some (ReadFailed e), fr', s)
      | Some (Inr None, fr') \<Rightarrow> Some (None, fr', s)
      | Some (Inr (Some m), fr') \<Rightarrow>
          (case h m s of
             (Inl x, s') \<Rightarrow> Some (Some (HandlerFailed x), fr', s')
           | (Inr Done, s') \<Rightarrow> Some (Some Stopped, fr', s')
           | (Inr Continue, s') \<Rightarrow> drain_msgs de h fr' s'))"
  by pat_completeness auto
termination
  by (relation "measure (\<lambda>(de, h, fr, s). length (read_buf fr) - offset fr)") (auto dest!: decode_next_progress)

declare drain_msgs.simps [simp del]

definition drain_flush ::
  "(byte list \<Rightarrow> 'e + 'm) \<Rightarrow> ('m, 'x, 's) handler \<Rightarrow> ('x, 's) flusher \<Rightarrow> FrameReader \<Rightarrow> 's
     \<Rightarrow> (('e, 'x) RecvEnd option \<times> FrameReader \<times> 's) option" where
  "drain_flush de h fl fr s = do {
     (e, fr, s) \<leftarrow> drain_msgs de h fr s;
     Some (case e of Some _ \<Rightarrow> (e, fr, s)
           | None \<Rightarrow> (case fl s of (Some x, s) \<Rightarrow> (Some (HandlerFailed x), fr, s) | (None, s) \<Rightarrow> (None, fr, s))) }"

fun receive ::
  "(byte list \<Rightarrow> 'e + 'm) \<Rightarrow> ('m, 'x, 's) handler \<Rightarrow> ('x, 's) flusher \<Rightarrow> (io_error + byte list) list
     \<Rightarrow> FrameReader \<Rightarrow> 's \<Rightarrow> (('e, 'x) RecvEnd \<times> FrameReader \<times> 's) option" where
  "receive de h fl [] fr s = Some (Waiting, fr, s)"
| "receive de h fl (rd # rds) fr s =
     (case fill_from rd fr of
        None \<Rightarrow> None
      | Some (Inl e, fr) \<Rightarrow> Some (ReadFailed e, fr, s)
      | Some (Inr False, fr) \<Rightarrow> Some (Closed, fr, s)
      | Some (Inr True, fr) \<Rightarrow> do {
          (e, fr, s) \<leftarrow> drain_flush de h fl fr s;
          case e of Some e \<Rightarrow> Some (e, fr, s) | None \<Rightarrow> receive de h fl rds fr s })"

definition receive_from ::
  "(byte list \<Rightarrow> 'e + 'm) \<Rightarrow> ('m, 'x, 's) handler \<Rightarrow> ('x, 's) flusher \<Rightarrow> byte list \<Rightarrow> (io_error + byte list) list
     \<Rightarrow> 's \<Rightarrow> (('e, 'x) RecvEnd \<times> FrameReader \<times> 's) option" where
  "receive_from de h fl leftover rds s = do {
     (e, fr, s) \<leftarrow> drain_flush de h fl (with_leftover leftover) s;
     case e of Some e \<Rightarrow> Some (e, fr, s) | None \<Rightarrow> receive de h fl rds fr s }"

subsection \<open>Handshake\<close>

definition PROTOCOL_VERSION :: byte where "PROTOCOL_VERSION = 5"
definition PREAMBLE_MAGIC :: "byte list" where "PREAMBLE_MAGIC = [0x51, 0x52, 0x4D, 0x58]"
definition PREAMBLE_LEN :: nat where "PREAMBLE_LEN = 5"
definition HELLO_MAX_CAPS :: nat where "HELLO_MAX_CAPS = 64"
definition HELLO_MAX_CAP_LEN :: nat where "HELLO_MAX_CAP_LEN = 64"

datatype PreambleCheck = POk | PEof | BadMagic "byte list" | VersionMismatch byte

definition write_preamble :: "byte list" where
  "write_preamble = PREAMBLE_MAGIC @ [PROTOCOL_VERSION]"

definition check_preamble :: "byte list \<Rightarrow> PreambleCheck" where
  "check_preamble buf =
     (if take 4 buf \<noteq> PREAMBLE_MAGIC then BadMagic (take 4 buf)
      else if buf ! 4 \<noteq> PROTOCOL_VERSION then VersionMismatch (buf ! 4) else POk)"

text \<open>
  \<open>read_preamble\<close> on the results of the successive reads into the rest of the buffer; a read never
  returns more than the room it was given (\<open>None\<close> below: the peer is still silent).
\<close>

fun read_preamble :: "(io_error + byte list) list \<Rightarrow> byte list \<Rightarrow> (io_error + PreambleCheck) option" where
  "read_preamble rds filled =
     (if PREAMBLE_LEN \<le> length filled then Some (Inr (check_preamble filled))
      else case rds of [] \<Rightarrow> None
      | rd # rds \<Rightarrow> (case rd of
            Inl e \<Rightarrow> Some (Inl e)
          | Inr bs \<Rightarrow> if bs = [] then Some (Inr PEof)
                      else read_preamble rds (filled @ take (PREAMBLE_LEN - length filled) bs)))"

declare read_preamble.simps [simp del]

datatype HelloError = TooManyCaps nat | CapTooLong nat | NotKebab "byte list"

definition kebab_byte :: "byte \<Rightarrow> bool" where
  "kebab_byte b \<longleftrightarrow> (0x61 \<le> b \<and> b \<le> 0x7A) \<or> (0x30 \<le> b \<and> b \<le> 0x39) \<or> b = 0x2D"

fun check_caps :: "byte list list \<Rightarrow> HelloError + unit" where
  "check_caps [] = Inr ()"
| "check_caps (cap # caps) =
     (if HELLO_MAX_CAP_LEN < length cap then Inl (CapTooLong (length cap))
      else if cap = [] \<or> \<not> list_all kebab_byte cap then Inl (NotKebab cap)
      else check_caps caps)"

definition validate_hello_caps :: "byte list list \<Rightarrow> HelloError + unit" where
  "validate_hello_caps caps =
     (if HELLO_MAX_CAPS < length caps then Inl (TooManyCaps (length caps)) else check_caps caps)"

subsection \<open>The length prefix\<close>

lemma from_to_be_bytes: "from_be_bytes (ucast (drop_bit 24 w)) (ucast (drop_bit 16 w)) (ucast (drop_bit 8 w)) (ucast w) = w"
  by (rule bit_word_eqI)
    (auto simp: from_be_bytes_def bit_simps not_le not_less intro: ccontr)

end
