(* ===== verification/Client.thy ===== *)
theory Client
  imports Codec Style_Table
begin

text \<open>
  The client side of a session (\<open>crates/qrmux/src/client/mod.rs\<close>): what it writes to the terminal for each
  message of the server, and the relay from the socket to the standard output, which is the receive loop of
  \<open>Codec\<close> with this handler. The standard output is the pair of parameters \<open>wr\<close> and \<open>fl\<close> (\<open>write_all\<close> and
  \<open>flush\<close> of the buffered writer), each with the error it may report; output bytes are numbers, as for the styles.
  The notes on standard error, the log lines and what a dropped writer still flushes are not modelled.
\<close>

subsection \<open>Messages of the server\<close>

record LogicalCell =
  lc_ch :: nat
  lc_display_width :: nat
  lc_combining :: "nat list"
  lc_style :: Style
  lc_wide_early_padding :: bool

record LogicalHistoryChunk =
  hc_cells :: "LogicalCell list"
  hc_end_of_line :: bool

record SessionInfo =
  si_name :: string
  si_pid :: nat
  si_cols :: nat
  si_rows :: nat
  si_created :: "nat option"

datatype ServerMsg =
    ScreenUpdate "nat list"
  | History "nat list list"
  | SessionList "SessionInfo list"
  | SessionEnded
  | Error string
  | Connected string bool
  | SessionKilled string
  | Passthrough "nat list"
  | InputSent string nat
  | Hello "string list" string
  | RepublishReady string
  | RepublishTurnEnd string bool "string option"
  | RepublishStatus string
  | RepublishEnd string
  | HistoryLogical "LogicalHistoryChunk list"
  | DeliveryQueued string
  | DeliveryOutcome string string

subsection \<open>Logical history\<close>

text \<open>\<open>char::encode_utf8\<close>, and the bytes of a \<open>String\<close>.\<close>

definition encode_utf8 :: "nat \<Rightarrow> nat list" where
  "encode_utf8 c =
     (if c < 0x80 then [c]
      else if c < 0x800 then [0xC0 + c div 64, 0x80 + c mod 64]
      else if c < 0x10000 then [0xE0 + c div 4096, 0x80 + c div 64 mod 64, 0x80 + c mod 64]
      else [0xF0 + c div 262144, 0x80 + c div 4096 mod 64, 0x80 + c div 64 mod 64, 0x80 + c mod 64])"

definition visible_cell :: "LogicalCell \<Rightarrow> bool" where
  "visible_cell c \<longleftrightarrow> \<not> lc_wide_early_padding c
     \<and> (lc_ch c \<noteq> 32 \<and> lc_ch c \<noteq> 0 \<or> lc_combining c \<noteq> [] \<or> lc_style c \<noteq> style_default)"

text \<open>The cells up to the last visible one (\<open>rposition\<close>).\<close>

definition up_to_last_visible :: "LogicalCell list \<Rightarrow> LogicalCell list" where
  "up_to_last_visible cs = rev (dropWhile (\<lambda>c. \<not> visible_cell c) (rev cs))"

fun render_cells :: "LogicalCell list \<Rightarrow> nat list \<Rightarrow> Style \<Rightarrow> nat list \<times> Style" where
  "render_cells [] out st = (out, st)"
| "render_cells (c # cs) out st =
     (if lc_wide_early_padding c \<or> lc_display_width c = 0 then render_cells cs out st
      else render_cells cs
        ((if lc_style c \<noteq> st then write_sgr_with_reset_to (lc_style c) out else out)
           @ encode_utf8 (lc_ch c) @ concat (map encode_utf8 (lc_combining c)))
        (lc_style c))"

definition render_logical_line :: "LogicalCell list \<Rightarrow> nat list" where
  "render_logical_line cs =
     (case render_cells (up_to_last_visible cs) [] style_default of
        (out, st) \<Rightarrow> if st \<noteq> style_default then out @ [27, 91, 48, 109] else out)"

fun render_chunks :: "LogicalHistoryChunk list \<Rightarrow> LogicalCell list \<Rightarrow> (nat list \<times> bool) list" where
  "render_chunks [] cs = (if cs \<noteq> [] then [(render_logical_line cs, False)] else [])"
| "render_chunks (k # ks) cs =
     (let cs = cs @ hc_cells k
      in if hc_end_of_line k then (render_logical_line cs, True) # render_chunks ks [] else render_chunks ks cs)"

definition render_logical_history :: "LogicalHistoryChunk list \<Rightarrow> (nat list \<times> bool) list" where
  "render_logical_history ks = render_chunks ks []"

subsection \<open>Dispatching a message\<close>

type_synonym 'o writer = "nat list \<Rightarrow> 'o \<Rightarrow> io_error option \<times> 'o"

definition CRLF :: "nat list" where "CRLF = [13, 10]"

fun write_each :: "'o writer \<Rightarrow> nat list list \<Rightarrow> 'o \<Rightarrow> (io_error + DispatchResult) \<times> 'o" where
  "write_each wr [] s = (Inr Continue, s)"
| "write_each wr (d # ds) s = (case wr d s of (Some e, s) \<Rightarrow> (Inl e, s) | (None, s) \<Rightarrow> write_each wr ds s)"

text \<open>\<open>flush()?\<close> followed by what the arm returns.\<close>

definition flush_then :: "(io_error, 'o) flusher \<Rightarrow> DispatchResult \<Rightarrow> 'o \<Rightarrow> (io_error + DispatchResult) \<times> 'o" where
  "flush_then fl r s = (case fl s of (Some e, s) \<Rightarrow> (Inl e, s) | (None, s) \<Rightarrow> (Inr r, s))"

fun dispatch_server_msg :: "'o writer \<Rightarrow> (io_error, 'o) flusher \<Rightarrow> (ServerMsg, io_error, 'o) handler" where
  "dispatch_server_msg wr fl (ScreenUpdate d) s = write_each wr [d] s"
| "dispatch_server_msg wr fl (Passthrough d) s =
     (case wr d s of (Some e, s) \<Rightarrow> (Inl e, s) | (None, s) \<Rightarrow> flush_then fl Continue s)"
| "dispatch_server_msg wr fl (History ls) s = write_each wr (concat (map (\<lambda>l. [l, CRLF]) ls)) s"
| "dispatch_server_msg wr fl (HistoryLogical ks) s =
     write_each wr (concat (map (\<lambda>(l, eol). if eol then [l, CRLF] else [l]) (render_logical_history ks))) s"
| "dispatch_server_msg wr fl SessionEnded s = flush_then fl Done s"
| "dispatch_server_msg wr fl (Error e) s = flush_then fl Done s"
| "dispatch_server_msg wr fl _ s = (Inr Continue, s)"

subsection \<open>The relay from the socket to the standard output\<close>

record 'o ClientState =
  cl_stdout :: 'o
  awaiting_stream_completion :: bool
  logical_chunks :: "LogicalHistoryChunk list"

datatype ClientError = StdoutIo io_error | NoCompletionFrame ServerMsg | ServerClosed

definition on_stdout :: "('o \<Rightarrow> (io_error + 'r) \<times> 'o) \<Rightarrow> 'o ClientState \<Rightarrow> (ClientError + 'r) \<times> 'o ClientState" where
  "on_stdout f c = (case f (cl_stdout c) of (r, s) \<Rightarrow> (map_sum StdoutIo id r, c\<lparr>cl_stdout := s\<rparr>))"

definition dispatch_frame ::
  "'o writer \<Rightarrow> (io_error, 'o) flusher \<Rightarrow> (ServerMsg, ClientError, 'o ClientState) handler" where
  "dispatch_frame wr fl msg c =
     (if awaiting_stream_completion c
      then case msg of
             HistoryLogical ks \<Rightarrow>
               if ks = []
               then on_stdout (dispatch_server_msg wr fl (HistoryLogical (logical_chunks c)))
                      (c\<lparr>awaiting_stream_completion := False, logical_chunks := []\<rparr>)
               else (Inr Continue, c\<lparr>logical_chunks := logical_chunks c @ ks\<rparr>)
           | other \<Rightarrow> (Inl (NoCompletionFrame other), c)
      else on_stdout (dispatch_server_msg wr fl msg) c)"

definition flush_stdout :: "(io_error, 'o) flusher \<Rightarrow> (ClientError, 'o ClientState) flusher" where
  "flush_stdout fl c = (case fl (cl_stdout c) of (e, s) \<Rightarrow> (map_option StdoutIo e, c\<lparr>cl_stdout := s\<rparr>))"

datatype 'e RelayResult = Pending | RelayOk | RelayFailed "'e ProtocolError + ClientError"

definition relay_result :: "('e, ClientError) RecvEnd \<Rightarrow> 'o ClientState \<Rightarrow> 'e RelayResult" where
  "relay_result e c =
     (case e of
        Waiting \<Rightarrow> Pending
      | Closed \<Rightarrow> if awaiting_stream_completion c then RelayFailed (Inr ServerClosed) else RelayOk
      | Stopped \<Rightarrow> RelayOk
      | ReadFailed e \<Rightarrow> RelayFailed (Inl e)
      | HandlerFailed x \<Rightarrow> RelayFailed (Inr x))"

definition run_socket_to_stdout ::
  "'o writer \<Rightarrow> (io_error, 'o) flusher \<Rightarrow> (byte list \<Rightarrow> 'e + ServerMsg) \<Rightarrow> (io_error + byte list) list \<Rightarrow> byte list
     \<Rightarrow> bool \<Rightarrow> 'o \<Rightarrow> ('e RelayResult \<times> 'o) option" where
  "run_socket_to_stdout wr fl de rds leftover logical_history_stream out = do {
     (e, fr, c) \<leftarrow> receive_from de (dispatch_frame wr fl) (flush_stdout fl) leftover rds
       \<lparr>cl_stdout = out, awaiting_stream_completion = logical_history_stream, logical_chunks = []\<rparr>;
     Some (relay_result e c, cl_stdout c) }"

end
