(* ===== verification/Codec_Props.thy ===== *)
theory Codec_Props
  imports Client
begin

text \<open>
  Properties of the wire protocol. The interface \<open>framing\<close> is what a reader of frames relies on: a
  complete frame is recognized whatever follows it, and it consumes at least one and at most all
  bytes. From it follows that reading a stream in pieces gives the frames of the whole stream. The loop that
  reads them takes any handler and any flush; the relay of the client is an instance.
\<close>

function parse_all :: "('b list \<Rightarrow> ('p \<times> nat) option) \<Rightarrow> 'b list \<Rightarrow> 'p list \<times> 'b list" where
  "parse_all parse buf =
     (case parse buf of None \<Rightarrow> ([], buf)
      | Some (p, n) \<Rightarrow> if 0 < n \<and> n \<le> length buf
          then (p # fst (parse_all parse (drop n buf)), snd (parse_all parse (drop n buf))) else ([], buf))"
  by pat_completeness auto
termination
  by (relation "measure (\<lambda>(parse, buf). length buf)") auto

declare parse_all.simps [simp del]

locale framing =
  fixes parse :: "'b list \<Rightarrow> ('p \<times> nat) option"
    and frame_of :: "'p \<Rightarrow> 'b list"
    and valid :: "'p \<Rightarrow> bool"
  assumes extend: "parse buf = Some (p, n) \<Longrightarrow> parse (buf @ ext) = Some (p, n)"
    and bounds: "parse buf = Some (p, n) \<Longrightarrow> 0 < n \<and> n \<le> length buf"
    and complete: "valid p \<Longrightarrow> parse (frame_of p) = Some (p, length (frame_of p))"
begin

lemma parse_all_None: "parse buf = None \<Longrightarrow> parse_all parse buf = ([], buf)"
  by (simp add: parse_all.simps)

lemma parse_all_Some:
  "parse buf = Some (p, n) \<Longrightarrow>
     parse_all parse buf = (p # fst (parse_all parse (drop n buf)), snd (parse_all parse (drop n buf)))"
  using bounds by (simp add: parse_all.simps [of parse buf])

lemma parse_all_append:
  "parse_all parse (a @ b) =
     (fst (parse_all parse a) @ fst (parse_all parse (snd (parse_all parse a) @ b)),
      snd (parse_all parse (snd (parse_all parse a) @ b)))"
proof (induction "length a" arbitrary: a rule: less_induct)
  case less
  show ?case
  proof (cases "parse a")
    case None
    then show ?thesis by (simp add: parse_all_None)
  next
    case (Some pn)
    obtain p n where pn: "pn = (p, n)" by force
    have n: "0 < n" "n \<le> length a" using bounds Some pn by auto
    have "length (drop n a) < length a" using n by simp
    note IH = less [OF this]
    show ?thesis
      using parse_all_Some [OF extend [OF Some [unfolded pn], of b]] parse_all_Some [OF Some [unfolded pn]] IH n
      by simp
  qed
qed

lemma parse_all_frames:
  "list_all valid ps \<Longrightarrow> parse_all parse (concat (map frame_of ps) @ rest)
     = (ps @ fst (parse_all parse rest), snd (parse_all parse rest))"
proof (induction ps)
  case Nil
  then show ?case by simp
next
  case (Cons p ps)
  then have "parse (frame_of p @ concat (map frame_of ps) @ rest) = Some (p, length (frame_of p))"
    using extend [OF complete] by simp
  from parse_all_Some [OF this] Cons show ?case by simp
qed

text \<open>Feeding a stream chunk by chunk, draining after each chunk.\<close>

primrec feed :: "'b list list \<Rightarrow> 'b list \<Rightarrow> 'p list \<times> 'b list" where
  "feed [] buf = ([], buf)"
| "feed (c # cs) buf =
     (fst (parse_all parse (buf @ c)) @ fst (feed cs (snd (parse_all parse (buf @ c)))),
      snd (feed cs (snd (parse_all parse (buf @ c)))))"

lemma parse_all_rest: "parse_all parse (snd (parse_all parse a)) = ([], snd (parse_all parse a))"
proof (induction "length a" arbitrary: a rule: less_induct)
  case less
  show ?case
  proof (cases "parse a")
    case None
    then show ?thesis by (simp add: parse_all_None)
  next
    case (Some pn)
    obtain p n where pn: "pn = (p, n)" by force
    have "0 < n" "n \<le> length a" using bounds Some pn by auto
    then have "length (drop n a) < length a" by simp
    from less [OF this] show ?thesis using parse_all_Some [OF Some [unfolded pn]] by simp
  qed
qed

lemma feed_chunks: "parse_all parse buf = ([], buf) \<Longrightarrow> feed cs buf = parse_all parse (buf @ concat cs)"
proof (induction cs arbitrary: buf)
  case Nil
  then show ?case by simp
next
  case (Cons c cs)
  have "feed cs (snd (parse_all parse (buf @ c))) = parse_all parse (snd (parse_all parse (buf @ c)) @ concat cs)"
    by (rule Cons.IH) (rule parse_all_rest)
  then show ?case
    using parse_all_append [of "buf @ c" "concat cs"] by simp
qed

end

subsection \<open>The frames of the protocol\<close>

text \<open>
  What the protocol relies on from the serializer: it reads back what it wrote, and its size limit
  (\<open>with_limit(MAX_FRAME_SIZE)\<close>) makes it refuse a message that takes more bytes.
\<close>

definition bincode_ok :: "('m \<Rightarrow> 'e + byte list) \<Rightarrow> (byte list \<Rightarrow> 'e + 'm) \<Rightarrow> bool" where
  "bincode_ok ser de \<longleftrightarrow> (\<forall>m d. ser m = Inr d \<longrightarrow> de d = Inr m \<and> length d \<le> MAX_FRAME_SIZE)"

definition frame_of :: "byte list \<Rightarrow> byte list" where
  "frame_of data = to_be_bytes (of_nat (length data)) @ data"

definition parse_msg :: "(byte list \<Rightarrow> 'e + 'm) \<Rightarrow> byte list \<Rightarrow> ('m \<times> nat) option" where
  "parse_msg de buf =
     (case decode_frame buf :: 'e ProtocolError + (byte list \<times> nat) option of
        Inr (Some (data, n)) \<Rightarrow> (case de data of Inr m \<Rightarrow> Some (m, n) | Inl _ \<Rightarrow> None)
      | _ \<Rightarrow> None)"

definition msg_frame :: "('m \<Rightarrow> 'e + byte list) \<Rightarrow> 'm \<Rightarrow> byte list" where
  "msg_frame ser m = (case encode ser m of Inr f \<Rightarrow> f | Inl _ \<Rightarrow> [])"

definition msg_valid :: "('m \<Rightarrow> 'e + byte list) \<Rightarrow> (byte list \<Rightarrow> 'e + 'm) \<Rightarrow> 'm \<Rightarrow> bool" where
  "msg_valid ser de m \<longleftrightarrow> (\<exists>d. ser m = Inr d \<and> de d = Inr m \<and> length d \<le> MAX_FRAME_SIZE)"

lemma length_to_be_bytes [simp]: "length (to_be_bytes w) = 4"
  by (simp add: to_be_bytes_def)

lemma length_frame_of [simp]: "length (frame_of d) = 4 + length d"
  by (simp add: frame_of_def)

lemma length_prefix:
  assumes "length data < 2 ^ 32"
  shows "unat (from_be_bytes (frame_of data ! 0) (frame_of data ! 1) (frame_of data ! 2) (frame_of data ! 3)) = length data"
proof -
  have "unat (of_nat (length data) :: 32 word) = length data"
    using assms by (simp add: unsigned_of_nat take_bit_nat_eq_self)
  then show ?thesis
    by (simp add: frame_of_def to_be_bytes_def numeral_2_eq_2 numeral_3_eq_3 from_to_be_bytes)
qed

lemma frame_prefix: "i < 4 \<Longrightarrow> (frame_of data @ rest) ! i = frame_of data ! i"
  by (simp add: frame_of_def nth_append)

lemma decode_frame_of:
  assumes "length data \<le> MAX_FRAME_SIZE"
  shows "decode_frame (frame_of data @ rest) = Inr (Some (data, 4 + length data))"
proof -
  have "length data < 2 ^ 32" using assms by (simp add: MAX_FRAME_SIZE_def)
  from length_prefix [OF this] show ?thesis
    using assms frame_prefix [of 0 data rest] frame_prefix [of 1 data rest] frame_prefix [of 2 data rest]
      frame_prefix [of 3 data rest]
    by (simp add: decode_frame_def Let_def) (simp add: frame_of_def)
qed

lemma decode_frame_extend:
  "decode_frame buf = (Inr (Some pn) :: 'e ProtocolError + _)
     \<Longrightarrow> decode_frame (buf @ ext) = (Inr (Some pn) :: 'e ProtocolError + _)"
  "decode_frame buf = Inl e \<Longrightarrow> decode_frame (buf @ ext) = Inl e"
  by (auto simp: decode_frame_def Let_def nth_append split: if_splits)

lemma encode_valid: "msg_valid ser de m \<Longrightarrow> \<exists>d. ser m = Inr d \<and> de d = Inr m \<and> length d \<le> MAX_FRAME_SIZE \<and> encode ser m = Inr (frame_of d)"
  by (auto simp: msg_valid_def encode_def frame_of_def MAX_FRAME_SIZE_def)

interpretation wire: framing "parse_msg de" "msg_frame ser" "msg_valid ser de"
  for ser :: "'m \<Rightarrow> 'e + byte list" and de :: "byte list \<Rightarrow> 'e + 'm"
proof
  fix buf p n ext
  assume p: "parse_msg de buf = Some (p, n)"
  then obtain d where d: "(decode_frame buf :: 'e ProtocolError + _) = Inr (Some (d, n))" "de d = Inr p"
    by (auto simp: parse_msg_def split: sum.splits option.splits)
  show "parse_msg de (buf @ ext) = Some (p, n)"
    using decode_frame_extend(1) [OF d(1)] d(2) by (simp add: parse_msg_def)
  show "0 < n \<and> n \<le> length buf" using decode_frame_SomeD [OF d(1)] by simp
next
  fix p assume "msg_valid ser de p"
  from encode_valid [OF this] obtain d
    where d: "de d = Inr p" "length d \<le> MAX_FRAME_SIZE" "encode ser p = Inr (frame_of d)" by blast
  have "(decode_frame (frame_of d) :: 'e ProtocolError + _) = Inr (Some (d, 4 + length d))"
    using decode_frame_of [OF d(2), of "[]"] by simp
  then show "parse_msg de (msg_frame ser p) = Some (p, length (msg_frame ser p))"
    using d by (simp add: parse_msg_def msg_frame_def)
qed

subsection \<open>The frame reader\<close>

definition reader_ok :: "FrameReader \<Rightarrow> bool" where
  "reader_ok fr \<longleftrightarrow> offset fr \<le> length (read_buf fr)"

definition unread :: "FrameReader \<Rightarrow> byte list" where
  "unread fr = drop (offset fr) (read_buf fr)"

text \<open>The error \<open>decode_next\<close> reports on the unread bytes, if any.\<close>

definition frame_error :: "(byte list \<Rightarrow> 'e + 'm) \<Rightarrow> byte list \<Rightarrow> 'e ProtocolError option" where
  "frame_error de buf =
     (case decode_frame buf of
        Inl e \<Rightarrow> Some e
      | Inr None \<Rightarrow> None
      | Inr (Some (data, n)) \<Rightarrow> (case de data of Inl e \<Rightarrow> Some (Deserialize e) | Inr m \<Rightarrow> None))"

lemma frame_error_extend: "frame_error de buf = Some e \<Longrightarrow> frame_error de (buf @ ext) = Some e"
  unfolding frame_error_def
  by (auto simp: decode_frame_extend split: sum.splits option.splits)

lemma frame_error_parse: "frame_error de buf = Some e \<Longrightarrow> parse_msg de buf = None"
  by (auto simp: frame_error_def parse_msg_def split: sum.splits option.splits)

lemma frame_error_Nil [simp]: "frame_error de [] = None"
  by (simp add: frame_error_def decode_frame_def)

lemma incomplete_short:
  "\<lbrakk>frame_error de buf = None; parse_msg de buf = None\<rbrakk> \<Longrightarrow> length buf < 4 + MAX_FRAME_SIZE"
  by (auto simp: frame_error_def parse_msg_def decode_frame_def Let_def split: if_splits sum.splits option.splits)

lemma decode_next_cases:
  assumes "reader_ok fr"
  shows "decode_next de fr =
    (case frame_error de (unread fr) of Some e \<Rightarrow> Some (Inl e, fr)
     | None \<Rightarrow> (case parse_msg de (unread fr) of None \<Rightarrow> Some (Inr None, fr)
        | Some (m, n) \<Rightarrow> Some (Inr (Some m), fr\<lparr>offset := offset fr + n\<rparr>)))"
  using assms unfolding decode_next_def frame_error_def parse_msg_def decode_def reader_ok_def unread_def
  by (auto split: sum.splits option.splits)

lemma fill_from_ok:
  assumes "reader_ok fr"
  obtains r fr' where "fill_from rd fr = Some (r, fr')" "reader_ok fr'"
    "unread fr' = unread fr @ (case rd of Inl _ \<Rightarrow> [] | Inr c \<Rightarrow> c)" "offset fr' = 0"
    "r = (case rd of Inl e \<Rightarrow> Inl (Io e)
       | Inr c \<Rightarrow> if c = [] then Inr False
         else if MAX_FRAME_SIZE * 2 + 8 < length (unread fr @ c)
         then Inl (FrameTooLarge (length (unread fr @ c)) MAX_FRAME_SIZE) else Inr True)"
  using assms unfolding fill_from_def compact_buf_def reader_ok_def unread_def
  by (cases rd) (force simp: Let_def split: if_splits)+

text \<open>
  The reference for the loop: the messages in order, up to the first one that ends it or fails; and bursts
  of messages with a flush after each, the last messages without one.
\<close>

primrec handle_msgs :: "('m, 'x, 's) handler \<Rightarrow> 'm list \<Rightarrow> 's \<Rightarrow> ('x + DispatchResult) \<times> 's" where
  "handle_msgs h [] s = (Inr Continue, s)"
| "handle_msgs h (m # ms) s = (case h m s of (Inr Continue, s') \<Rightarrow> handle_msgs h ms s' | r \<Rightarrow> r)"

primrec handle_bursts ::
  "('m, 'x, 's) handler \<Rightarrow> ('x, 's) flusher \<Rightarrow> 'm list list \<Rightarrow> 'm list \<Rightarrow> 's \<Rightarrow> ('x + DispatchResult) \<times> 's" where
  "handle_bursts h fl [] l s = handle_msgs h l s"
| "handle_bursts h fl (g # gs) l s =
     (case handle_msgs h g s of
        (Inr Continue, s') \<Rightarrow> (case fl s' of (None, s'') \<Rightarrow> handle_bursts h fl gs l s'' | (Some x, s'') \<Rightarrow> (Inl x, s''))
      | r \<Rightarrow> r)"

fun stop_of :: "'x + DispatchResult \<Rightarrow> ('e, 'x) RecvEnd option" where
  "stop_of (Inl x) = Some (HandlerFailed x)"
| "stop_of (Inr Done) = Some Stopped"
| "stop_of (Inr Continue) = None"

lemma stop_of_None [simp]: "stop_of r = None \<longleftrightarrow> r = Inr Continue"
  by (cases r rule: stop_of.cases) simp_all

lemma stop_of_case:
  "(case stop_of r of Some e \<Rightarrow> e | None \<Rightarrow> d) = (case r of Inl x \<Rightarrow> HandlerFailed x | Inr Done \<Rightarrow> Stopped | Inr Continue \<Rightarrow> d)"
  by (cases r rule: stop_of.cases) simp_all

text \<open>Draining handles every complete frame of the unread bytes, up to the first that ends the loop.\<close>

lemma drain_msgs_ok:
  assumes "reader_ok fr" "parse_all (parse_msg de) (unread fr) = (ms, rest)" "handle_msgs h ms s = (r, s')"
  shows "\<exists>fr'. reader_ok fr' \<and> read_buf fr' = read_buf fr \<and> (r = Inr Continue \<longrightarrow> unread fr' = rest)
     \<and> drain_msgs de h fr s = Some (case stop_of r of Some e \<Rightarrow> Some e | None \<Rightarrow> map_option ReadFailed (frame_error de rest), fr', s')"
  using assms
proof (induction de h fr s arbitrary: ms rule: drain_msgs.induct)
  case (1 de h fr s)
  show ?case
  proof (cases "parse_msg de (unread fr)")
    case None
    then have "ms = []" "rest = unread fr" using 1(3) by (simp_all add: wire.parse_all_None)
    with 1(2,4) None show ?thesis
      by (cases "frame_error de (unread fr)") (auto simp: drain_msgs.simps [of de h fr] decode_next_cases)
  next
    case (Some mn)
    obtain m n where mn: "mn = (m, n)" by force
    let ?fr = "fr\<lparr>offset := offset fr + n\<rparr>"
    have n: "0 < n" "n \<le> length (unread fr)" using wire.bounds [of de "unread fr"] Some mn by auto
    have "frame_error de (unread fr) = None" using frame_error_parse Some by (cases "frame_error de (unread fr)") fastforce+
    then have dn: "decode_next de fr = Some (Inr (Some m), ?fr)" using 1(2) Some mn by (simp add: decode_next_cases)
    have ok: "reader_ok ?fr" using n 1(2) by (simp add: reader_ok_def unread_def)
    have u: "unread ?fr = drop n (unread fr)" by (simp add: unread_def add.commute)
    obtain ms' where ms': "ms = m # ms'" "parse_all (parse_msg de) (unread ?fr) = (ms', rest)"
      using wire.parse_all_Some [of de "unread fr" m n] Some mn 1(3) u by (cases "parse_all (parse_msg de) (drop n (unread fr))") simp
    obtain r1 s1 where h: "h m s = (r1, s1)" by force
    show ?thesis
    proof (cases "r1 = Inr Continue")
      case True
      then have "handle_msgs h ms' s1 = (r, s')" using 1(4) ms' h by simp
      from 1(1) [OF dn refl refl refl h [symmetric] True refl ok ms'(2) this] show ?thesis
        using dn h True by (simp add: drain_msgs.simps [of de h fr])
    next
      case False
      then have "r = r1" "s' = s1" using 1(4) ms' h by (auto split: sum.splits DispatchResult.splits)
      with False show ?thesis
        using dn h ok by (cases r1 rule: stop_of.cases) (auto simp: drain_msgs.simps [of de h fr])
    qed
  qed
qed

subsection \<open>Receiving a stream in pieces\<close>

definition chunk_ok :: "byte list \<Rightarrow> bool" where
  "chunk_ok c \<longleftrightarrow> c \<noteq> [] \<and> length c \<le> READ_BUF_SIZE"

definition drained :: "(byte list \<Rightarrow> 'e + 'm) \<Rightarrow> byte list \<Rightarrow> bool" where
  "drained de buf \<longleftrightarrow> parse_msg de buf = None \<and> frame_error de buf = None"

lemma drained_Nil [simp]: "drained de []"
  by (simp add: drained_def parse_msg_def decode_frame_def)

lemma parse_all_rest_None: "parse_msg de (snd (parse_all (parse_msg de) a)) = None"
proof (cases "parse_msg de (snd (parse_all (parse_msg de) a))")
  case (Some mn)
  then show ?thesis
    using wire.parse_all_rest [of de a] wire.parse_all_Some [of de "snd (parse_all (parse_msg de) a)"]
    by (cases mn) force
qed

lemma fill_from_chunk:
  fixes de :: "byte list \<Rightarrow> 'e + 'm"
  assumes "reader_ok fr" "drained de (unread fr)" "chunk_ok c"
  obtains fr' where "fill_from (Inr c) fr = Some (Inr True :: 'e ProtocolError + bool, fr')" "reader_ok fr'"
    "unread fr' = unread fr @ c"
proof -
  obtain r fr' where fr': "fill_from (Inr c) fr = Some (r :: 'e ProtocolError + bool, fr')" "reader_ok fr'" "unread fr' = unread fr @ c"
    "r = (if c = [] then Inr False
       else if MAX_FRAME_SIZE * 2 + 8 < length (unread fr @ c)
       then Inl (FrameTooLarge (length (unread fr @ c)) MAX_FRAME_SIZE) else Inr True)"
    by (rule fill_from_ok [OF assms(1), of "Inr c", unfolded sum.case])
  have "length (unread fr) < 4 + MAX_FRAME_SIZE" using assms(2) incomplete_short by (auto simp: drained_def)
  then have "r = Inr True"
    using assms(3) fr'(4) by (simp add: chunk_ok_def MAX_FRAME_SIZE_def READ_BUF_SIZE_def)
  then show thesis using fr'(1-3) by (intro that [of fr']) simp_all
qed

lemma into_leftover_unread: "reader_ok fr \<Longrightarrow> into_leftover fr = Some (unread fr)"
  by (simp add: into_leftover_def reader_ok_def unread_def)

text \<open>
  What is left of the reads after the chunks with bytes: nothing more so far, end of file, or an error.
\<close>

definition quiet :: "(io_error + byte list) list \<Rightarrow> bool" where
  "quiet fin = (case fin of Inr (_ # _) # _ \<Rightarrow> False | _ \<Rightarrow> True)"

fun stream_end :: "(io_error + byte list) list \<Rightarrow> ('e, 'x) RecvEnd" where
  "stream_end [] = Waiting"
| "stream_end (Inl e # _) = ReadFailed (Io e)"
| "stream_end (Inr _ # _) = Closed"

definition handled ::
  "(byte list \<Rightarrow> 'e + 'm) \<Rightarrow> ('m, 'x, 's) handler \<Rightarrow> ('x, 's) flusher \<Rightarrow> nat \<Rightarrow> (io_error + byte list) list \<Rightarrow> 'm list \<Rightarrow> byte list
     \<Rightarrow> 's \<Rightarrow> (('e, 'x) RecvEnd \<times> FrameReader \<times> 's) option \<Rightarrow> bool" where
  "handled de h fl n fin ms rest s res \<longleftrightarrow>
     (\<exists>gs l r s' fr. concat gs @ l = ms \<and> length gs \<le> n \<and> (frame_error de rest = None \<longrightarrow> l = [] \<and> length gs = n)
       \<and> handle_bursts h fl gs l s = (r, s')
       \<and> res = Some (case stop_of r of Some e \<Rightarrow> e
                     | None \<Rightarrow> (case frame_error de rest of Some e \<Rightarrow> ReadFailed e | None \<Rightarrow> stream_end fin), fr, s')
       \<and> (r = Inr Continue \<and> frame_error de rest = None \<longrightarrow> into_leftover fr = Some rest))"

lemma handle_bursts_first:
  "handle_bursts h fl (g # gs) l s = (case handle_bursts h fl [g] [] s of (Inr Continue, s') \<Rightarrow> handle_bursts h fl gs l s' | r \<Rightarrow> r)"
  by (simp split: prod.split sum.split DispatchResult.split option.split)

text \<open>One round of the loop: on bytes without a frame in error it is a burst, otherwise the flush is not reached.\<close>

lemma drain_flush_ok:
  assumes fr: "reader_ok fr" and p: "parse_all (parse_msg de) (unread fr) = (ms, rest)"
  shows "\<lbrakk>frame_error de rest = None; handle_bursts h fl [ms] [] s = (r, s')\<rbrakk> \<Longrightarrow>
      \<exists>fr'. reader_ok fr' \<and> (r = Inr Continue \<longrightarrow> unread fr' = rest) \<and> drain_flush de h fl fr s = Some (stop_of r, fr', s')"
    and "\<lbrakk>frame_error de rest = Some err; handle_msgs h ms s = (r, s')\<rbrakk> \<Longrightarrow>
      \<exists>fr'. drain_flush de h fl fr s = Some (Some (case stop_of r of Some e \<Rightarrow> e | None \<Rightarrow> ReadFailed err), fr', s')"
proof -
  obtain r1 s1 where h1: "handle_msgs h ms s = (r1, s1)" by force
  obtain fr1 where d: "reader_ok fr1" "r1 = Inr Continue \<longrightarrow> unread fr1 = rest"
    "drain_msgs de h fr s = Some (case stop_of r1 of Some e \<Rightarrow> Some e | None \<Rightarrow> map_option ReadFailed (frame_error de rest), fr1, s1)"
    using drain_msgs_ok [OF fr p h1] by blast
  show "\<lbrakk>frame_error de rest = None; handle_bursts h fl [ms] [] s = (r, s')\<rbrakk> \<Longrightarrow>
      \<exists>fr'. reader_ok fr' \<and> (r = Inr Continue \<longrightarrow> unread fr' = rest) \<and> drain_flush de h fl fr s = Some (stop_of r, fr', s')"
    using d h1 by (cases r1 rule: stop_of.cases) (auto simp: drain_flush_def split: prod.split option.split)
  show "\<lbrakk>frame_error de rest = Some err; handle_msgs h ms s = (r, s')\<rbrakk> \<Longrightarrow>
      \<exists>fr'. drain_flush de h fl fr s = Some (Some (case stop_of r of Some e \<Rightarrow> e | None \<Rightarrow> ReadFailed err), fr', s')"
    using d h1 by (cases r1 rule: stop_of.cases) (auto simp: drain_flush_def)
qed

lemma handled_burst:
  assumes later: "handled de h fl n fin ms2 rest s2 res2"
    and first: "handle_bursts h fl [ms1] [] s = (r1, s1)"
    and res: "if r1 = Inr Continue then s2 = s1 \<and> res = res2 else \<exists>fr1. res = Some (the (stop_of r1), fr1, s1)"
  shows "handled de h fl (Suc n) fin (ms1 @ ms2) rest s res"
proof -
  obtain gs l r s' fr where g: "concat gs @ l = ms2" "length gs \<le> n" "frame_error de rest = None \<longrightarrow> l = [] \<and> length gs = n"
    "handle_bursts h fl gs l s2 = (r, s')"
    "res2 = Some (case stop_of r of Some e \<Rightarrow> e
       | None \<Rightarrow> (case frame_error de rest of Some e \<Rightarrow> ReadFailed e | None \<Rightarrow> stream_end fin), fr, s')"
    "r = Inr Continue \<and> frame_error de rest = None \<longrightarrow> into_leftover fr = Some rest"
    using later unfolding handled_def by (elim exE conjE) (rule that)
  have l: "concat (ms1 # gs) @ l = ms1 @ ms2" "length (ms1 # gs) \<le> Suc n"
    "frame_error de rest = None \<longrightarrow> l = [] \<and> length (ms1 # gs) = Suc n"
    using g(1-3) by auto
  show ?thesis
  proof (cases "r1 = Inr Continue")
    case True
    then have "handle_bursts h fl (ms1 # gs) l s = (r, s')"
      unfolding handle_bursts_first [of h fl ms1 gs] first using g(4) res by simp
    with l g(5,6) res True show ?thesis unfolding handled_def by fastforce
  next
    case False
    obtain fr1 where "res = Some (the (stop_of r1), fr1, s1)" using res False by auto
    moreover have "handle_bursts h fl (ms1 # gs) l s = (r1, s1)"
      unfolding handle_bursts_first [of h fl ms1 gs] first using False by (cases r1 rule: stop_of.cases) simp_all
    ultimately show ?thesis
      unfolding handled_def using l False
      by (intro exI [of _ "ms1 # gs"] exI [of _ l] exI [of _ r1] exI [of _ s1] exI [of _ fr1])
        (cases r1 rule: stop_of.cases; simp)
  qed
qed

lemma drain_then:
  fixes de :: "byte list \<Rightarrow> 'e + 'm"
  assumes fr: "reader_ok fr" and whole: "parse_all (parse_msg de) (unread fr @ ext) = (ms, rest)"
    and k: "\<And>fr' s' ms'. \<lbrakk>reader_ok fr'; drained de (unread fr'); parse_all (parse_msg de) (unread fr' @ ext) = (ms', rest)\<rbrakk>
       \<Longrightarrow> handled de h fl n fin ms' rest s' (k fr' s')"
  shows "handled de h fl (Suc n) fin ms rest s (do {
     (e, fr, s) \<leftarrow> drain_flush de h fl fr s;
     case e of Some e \<Rightarrow> Some (e, fr, s) | None \<Rightarrow> k fr s })"
proof -
  obtain ms1 rest1 where p1: "parse_all (parse_msg de) (unread fr) = (ms1, rest1)" by force
  have none: "parse_msg de rest1 = None" using parse_all_rest_None [of de "unread fr"] p1 by simp
  obtain ms2 where p2: "parse_all (parse_msg de) (rest1 @ ext) = (ms2, rest)" "ms = ms1 @ ms2"
    using whole wire.parse_all_append [of de "unread fr" ext] p1
    by (cases "parse_all (parse_msg de) (rest1 @ ext)") simp
  show ?thesis
  proof (cases "frame_error de rest1")
    case (Some err)
    from frame_error_extend [OF this, of ext] have e: "frame_error de (rest1 @ ext) = Some err" .
    then have m: "ms2 = []" "frame_error de rest = Some err"
      using p2(1) wire.parse_all_None [OF frame_error_parse [OF e]] by auto
    obtain r s' where h1: "handle_msgs h ms1 s = (r, s')" by force
    from drain_flush_ok(2) [OF fr p1 Some h1] obtain fr'
      where "drain_flush de h fl fr s = Some (Some (case stop_of r of Some e \<Rightarrow> e | None \<Rightarrow> ReadFailed err), fr', s')" by blast
    with m h1 p2 show ?thesis
      unfolding handled_def
      by (intro exI [of _ "[] :: 'm list list"] exI [of _ ms1] exI [of _ r] exI [of _ s'] exI [of _ fr']) (simp split: option.split)
  next
    case None
    then have dr: "drained de rest1" using none by (simp add: drained_def)
    have later: "handled de h fl n fin ms2 rest s2 (k fr2 s2)" if "reader_ok fr2" "unread fr2 = rest1" for fr2 s2
      using k [of fr2 ms2 s2] that dr p2(1) by simp
    have ok: "reader_ok (with_leftover rest1)" "unread (with_leftover rest1) = rest1"
      by (simp_all add: with_leftover_def reader_ok_def unread_def)
    obtain r1 s1 where h1: "handle_bursts h fl [ms1] [] s = (r1, s1)" by force
    obtain fr1 where d: "reader_ok fr1" "r1 = Inr Continue \<longrightarrow> unread fr1 = rest1"
      "drain_flush de h fl fr s = Some (stop_of r1, fr1, s1)"
      using drain_flush_ok(1) [OF fr p1 None h1] by blast
    show ?thesis
      unfolding p2(2)
      by (rule handled_burst [OF later h1, of "if r1 = Inr Continue then fr1 else with_leftover rest1" s1])
        (use d ok in \<open>cases r1 rule: stop_of.cases; simp\<close>)+
  qed
qed

lemma receive_chunks:
  fixes de :: "byte list \<Rightarrow> 'e + 'm"
  assumes "reader_ok fr" "drained de (unread fr)" "list_all chunk_ok cs" "quiet fin"
    and "parse_all (parse_msg de) (unread fr @ concat cs) = (ms, rest)"
  shows "handled de h fl (length cs) fin ms rest s (receive de h fl (map Inr cs @ fin) fr s)"
  using assms
proof (induction cs arbitrary: fr ms s)
  case Nil
  then have p: "ms = []" "rest = unread fr" "frame_error de rest = None"
    by (simp_all add: drained_def wire.parse_all_None)
  have "\<exists>fr'. receive de h fl fin fr s = Some (stream_end fin, fr', s) \<and> into_leftover fr' = Some rest"
  proof (cases fin)
    case Nil
    then show ?thesis using p(2) into_leftover_unread [OF \<open>reader_ok fr\<close>] by simp
  next
    case (Cons rd rds)
    obtain w :: "'e ProtocolError + bool" and fr' where f: "fill_from rd fr = Some (w, fr')" "reader_ok fr'"
      "unread fr' = unread fr @ (case rd of Inl _ \<Rightarrow> [] | Inr c \<Rightarrow> c)"
      "w = (case rd of Inl e \<Rightarrow> Inl (Io e)
         | Inr c \<Rightarrow> if c = [] then Inr False
           else if MAX_FRAME_SIZE * 2 + 8 < length (unread fr @ c)
           then Inl (FrameTooLarge (length (unread fr @ c)) MAX_FRAME_SIZE) else Inr True)"
      by (rule fill_from_ok [OF \<open>reader_ok fr\<close>])
    show ?thesis
      using Cons f p(2) \<open>quiet fin\<close> into_leftover_unread [OF f(2)]
      by (auto simp: quiet_def split: sum.splits list.splits)
  qed
  then show ?case using p by (auto simp: handled_def)
next
  case (Cons c cs)
  obtain fr1 where f: "fill_from (Inr c) fr = Some (Inr True :: 'e ProtocolError + bool, fr1)" "reader_ok fr1" "unread fr1 = unread fr @ c"
    using fill_from_chunk [of fr de c] Cons.prems by auto
  have "handled de h fl (length cs) fin ms' rest s' (receive de h fl (map Inr cs @ fin) fr' s')"
    if "reader_ok fr'" "drained de (unread fr')" "parse_all (parse_msg de) (unread fr' @ concat cs) = (ms', rest)" for fr' ms' s'
    using Cons.IH [OF that(1,2) _ Cons.prems(4) that(3)] Cons.prems(3) by simp
  from drain_then [OF f(2) _ this, of "concat cs" ms] Cons.prems(5) f(1,3) show ?case by simp
qed

lemma receive_from_chunks:
  assumes "list_all chunk_ok cs" "quiet fin" "parse_all (parse_msg de) (leftover @ concat cs) = (ms, rest)"
  shows "handled de h fl (Suc (length cs)) fin ms rest s (receive_from de h fl leftover (map Inr cs @ fin) s)"
  unfolding receive_from_def
  by (rule drain_then [where ext = "concat cs"])
    (use assms receive_chunks in \<open>auto simp: with_leftover_def reader_ok_def unread_def\<close>)

lemma frame_reader_new_ok [simp]: "reader_ok frame_reader_new" "unread frame_reader_new = []"
  by (simp_all add: frame_reader_new_def reader_ok_def unread_def)

text \<open>Whatever the reads return, the reader stays in bounds.\<close>

definition buffer_bound :: nat where
  "buffer_bound = MAX_FRAME_SIZE * 2 + 8 + READ_BUF_SIZE"

lemma fill_from_bounded:
  assumes "reader_ok fr" "length (unread fr) \<le> MAX_FRAME_SIZE * 2 + 8" "\<forall>c. rd = Inr c \<longrightarrow> length c \<le> READ_BUF_SIZE"
  shows "succeeds (fill_from rd fr) (\<lambda>(r, fr'). reader_ok fr' \<and> length (read_buf fr') \<le> buffer_bound)"
proof -
  obtain r :: "'a ProtocolError + bool" and fr' where "fill_from rd fr = Some (r, fr')" "reader_ok fr'"
    "unread fr' = unread fr @ (case rd of Inl _ \<Rightarrow> [] | Inr c \<Rightarrow> c)" "offset fr' = 0"
    by (rule fill_from_ok [OF assms(1)]) blast
  moreover from this(3) have "length (unread fr') \<le> buffer_bound"
    using assms(2,3) by (cases rd) (auto simp: buffer_bound_def)
  ultimately show ?thesis by (simp add: unread_def)
qed

lemma drain_flush_bounded:
  assumes "reader_ok fr" "length (read_buf fr) \<le> buffer_bound"
  shows "succeeds (drain_flush de h fl fr s) (\<lambda>(e, fr', s'). reader_ok fr' \<and> length (read_buf fr') \<le> buffer_bound
     \<and> (e = None \<longrightarrow> length (unread fr') \<le> MAX_FRAME_SIZE * 2 + 8))"
proof -
  obtain ms rest where p: "parse_all (parse_msg de) (unread fr) = (ms, rest)" by force
  obtain r s1 where h: "handle_msgs h ms s = (r, s1)" by force
  obtain fr' where d: "reader_ok fr'" "read_buf fr' = read_buf fr" "r = Inr Continue \<longrightarrow> unread fr' = rest"
    "drain_msgs de h fr s = Some (case stop_of r of Some e \<Rightarrow> Some e | None \<Rightarrow> map_option ReadFailed (frame_error de rest), fr', s1)"
    using drain_msgs_ok [OF assms(1) p h] by blast
  have "length rest \<le> MAX_FRAME_SIZE * 2 + 8" if "frame_error de rest = None"
    using incomplete_short [OF that] parse_all_rest_None [of de "unread fr"] p by simp
  then show ?thesis
    using d assms(2) by (cases r rule: stop_of.cases) (auto simp: drain_flush_def split: prod.split option.split)
qed

lemma receive_no_panic:
  assumes "reader_ok fr" "length (unread fr) \<le> MAX_FRAME_SIZE * 2 + 8" "length (read_buf fr) \<le> buffer_bound"
    and "\<forall>c. Inr c \<in> set rds \<longrightarrow> length c \<le> READ_BUF_SIZE"
  shows "succeeds (receive de h fl rds fr s) (\<lambda>(e, fr', s'). reader_ok fr' \<and> length (read_buf fr') \<le> buffer_bound)"
  using assms
proof (induction rds arbitrary: fr s)
  case Nil
  then show ?case by simp
next
  case (Cons rd rds)
  have "succeeds (fill_from rd fr) (\<lambda>(r :: 'a ProtocolError + bool, fr'). reader_ok fr' \<and> length (read_buf fr') \<le> buffer_bound)"
    using Cons.prems by (intro fill_from_bounded) auto
  then obtain r :: "'a ProtocolError + bool" and fr1
    where f: "fill_from rd fr = Some (r, fr1)" "reader_ok fr1" "length (read_buf fr1) \<le> buffer_bound"
    by (auto simp: succeeds_def)
  obtain e fr2 s2 where d: "drain_flush de h fl fr1 s = Some (e, fr2, s2)" "reader_ok fr2" "length (read_buf fr2) \<le> buffer_bound"
    "e = None \<longrightarrow> length (unread fr2) \<le> MAX_FRAME_SIZE * 2 + 8"
    using drain_flush_bounded [OF f(2,3), of de h fl s] by (auto simp: succeeds_def)
  have "succeeds (receive de h fl rds fr2 s2) (\<lambda>(e, fr', s'). reader_ok fr' \<and> length (read_buf fr') \<le> buffer_bound)" if "e = None"
    using that Cons.prems(4) d by (intro Cons.IH) auto
  then show ?case
    using f d by (cases e) (auto simp: succeeds_def split: sum.splits bool.splits)
qed

lemma bincode_valid: "bincode_ok ser de \<Longrightarrow> encode ser m = Inr f \<Longrightarrow> msg_valid ser de m \<and> msg_frame ser m = f"
  by (auto simp: bincode_ok_def encode_def msg_valid_def msg_frame_def split: sum.splits)

lemma encoded_stream:
  assumes "bincode_ok ser de" "list_all2 (\<lambda>m f. encode ser m = Inr f) ms fs"
  shows "parse_all (parse_msg de) (concat fs @ rest)
    = (ms @ fst (parse_all (parse_msg de) rest), snd (parse_all (parse_msg de) rest))"
proof -
  have "list_all (msg_valid ser de) ms \<and> map (msg_frame ser) ms = fs"
    using assms(2) by (induction rule: list_all2_induct) (auto dest: bincode_valid [OF assms(1)])
  with wire.parse_all_frames [of ser de ms rest] show ?thesis by auto
qed

lemma oversized_header:
  assumes "MAX_FRAME_SIZE < unat w"
  shows "frame_error de (to_be_bytes w @ junk) = Some (FrameTooLarge (unat w) MAX_FRAME_SIZE)"
  using assms by (simp add: frame_error_def decode_frame_def to_be_bytes_def numeral_2_eq_2 numeral_3_eq_3 from_to_be_bytes)

lemma read_one_chunks:
  fixes de :: "byte list \<Rightarrow> 'e + 'm"
  assumes "reader_ok fr" "drained de (unread fr)" "list_all chunk_ok cs"
    and "fst (parse_all (parse_msg de) (unread fr @ concat cs)) = m # ms"
  shows "read_one_message de (map Inr cs) fr = Some (Some (Inr m))"
  using assms
proof (induction cs arbitrary: fr)
  case Nil
  then show ?case by (simp add: drained_def wire.parse_all_None)
next
  case (Cons c cs)
  obtain fr1 where f: "fill_from (Inr c) fr = Some (Inr True :: 'e ProtocolError + bool, fr1)" "reader_ok fr1" "unread fr1 = unread fr @ c"
    using fill_from_chunk [of fr de c] Cons.prems by auto
  show ?case
  proof (cases "parse_msg de (unread fr1)")
    case None
    have "frame_error de (unread fr1) = None"
    proof (rule ccontr)
      assume "frame_error de (unread fr1) \<noteq> None"
      then obtain e where "frame_error de (unread fr1) = Some e" by blast
      from wire.parse_all_None [OF frame_error_parse [OF frame_error_extend [OF this, of "concat cs"]]]
      show False using Cons.prems(4) f(3) by simp
    qed
    with None f Cons.prems Cons.IH [of fr1] show ?thesis by (simp add: drained_def decode_next_cases)
  next
    case (Some mn)
    obtain m' n where mn: "mn = (m', n)" by force
    have "frame_error de (unread fr1) = None" using frame_error_parse [of de "unread fr1"] Some by (cases "frame_error de (unread fr1)") simp_all
    moreover have "m' = m"
      using wire.parse_all_Some [OF wire.extend [OF Some [unfolded mn], of "concat cs"]] Cons.prems(4) f(3) by simp
    ultimately show ?thesis using f Some mn by (simp add: decode_next_cases)
  qed
qed

lemma read_preamble_chunks:
  assumes "list_all (\<lambda>c. c \<noteq> []) cs" "length (filled @ concat cs) = PREAMBLE_LEN"
  shows "read_preamble (map Inr cs) filled = Some (Inr (check_preamble (filled @ concat cs)))"
  using assms
proof (induction cs arbitrary: filled)
  case Nil
  then show ?case by (simp add: read_preamble.simps)
next
  case (Cons c cs)
  moreover from Cons.prems have "\<not> PREAMBLE_LEN \<le> length filled" by (cases c) auto
  ultimately show ?case by (simp add: read_preamble.simps [of "Inr c # map Inr cs"])
qed

lemma check_caps_ok:
  "check_caps caps = Inr () \<longleftrightarrow> (\<forall>cap \<in> set caps. cap \<noteq> [] \<and> length cap \<le> HELLO_MAX_CAP_LEN \<and> list_all kebab_byte cap)"
  by (induction caps) auto

subsection \<open>The properties of the protocol\<close>

text \<open>An instance of the serializer, for the witnesses: messages are byte strings.\<close>

definition raw_ser :: "byte list \<Rightarrow> unit + byte list" where
  "raw_ser m = (if length m \<le> MAX_FRAME_SIZE then Inr m else Inl ())"

definition raw_de :: "byte list \<Rightarrow> unit + byte list" where
  "raw_de d = Inr d"

lemma raw_bincode: "bincode_ok raw_ser raw_de"
  by (simp add: bincode_ok_def raw_ser_def raw_de_def)

text \<open>A handler that keeps every message, with a flush that does nothing.\<close>

definition keep_msg :: "('m, unit, 'm list) handler" where
  "keep_msg m s = (Inr Continue, s @ [m])"

definition no_flush :: "(unit, 's) flusher" where
  "no_flush s = (None, s)"

lemma handle_msgs_append:
  "handle_msgs h (as @ bs) s = (case handle_msgs h as s of (Inr Continue, s') \<Rightarrow> handle_msgs h bs s' | r \<Rightarrow> r)"
  by (induction as arbitrary: s) (simp_all split: prod.split sum.split DispatchResult.split)

lemma silent_flush:
  assumes "\<And>s. fl s = (None, s)"
  shows "handle_bursts h fl gs l s = handle_msgs h (concat gs @ l) s"
  by (induction gs arbitrary: s) (simp_all add: assms handle_msgs_append split: prod.split sum.split DispatchResult.split)

lemma keep_bursts: "handle_bursts keep_msg no_flush gs l s = (Inr Continue, s @ concat gs @ l)"
proof -
  have "handle_msgs keep_msg ms s = (Inr Continue, s @ ms)" for ms and s :: "'a list"
    by (induction ms arbitrary: s) (simp_all add: keep_msg_def)
  then show ?thesis by (simp add: silent_flush no_flush_def)
qed

lemma receive_kept:
  assumes "list_all chunk_ok cs" "parse_all (parse_msg de) (concat cs) = (ms, rest)"
  shows "\<exists>fr. receive_from de keep_msg no_flush [] (map Inr cs) []
      = Some (case frame_error de rest of Some e \<Rightarrow> ReadFailed e | None \<Rightarrow> Waiting, fr, ms)
    \<and> (frame_error de rest = None \<longrightarrow> into_leftover fr = Some rest)"
  using receive_from_chunks [OF assms(1), of "[]" de "[]" ms rest keep_msg no_flush "[]"] assms(2)
  by (auto simp: handled_def quiet_def keep_bursts split: option.splits)

text \<open>
  C8. The receive loop of the client refines the one-shot parser, for every handler and every flush: however
  a stream is split into the leftover bytes and the reads, the messages handed to the handler are those that
  parsing the whole stream gives, each once and in order, up to the first one after which the handler says
  \<open>Done\<close> or fails, or a flush fails, which then is how the loop ends; the flush follows the messages of the
  leftover and of each read. If none of that happens, the loop ends with the error of the bytes that are left
  after the messages, if they are in error, and otherwise the way the reads end (still waiting, end of file,
  a failed read), with the unparsed rest left over. A read has at least one byte and at most the 65536 of
  the read buffer.
\<close>

theorem receive_refines_parse:
  assumes "list_all chunk_ok cs" "quiet fin" "parse_all (parse_msg de) (leftover @ concat cs) = (ms, rest)"
  shows "\<exists>gs l r s' fr. concat gs @ l = ms \<and> length gs \<le> Suc (length cs)
    \<and> (frame_error de rest = None \<longrightarrow> l = [] \<and> length gs = Suc (length cs))
    \<and> handle_bursts h fl gs l s = (r, s')
    \<and> receive_from de h fl leftover (map Inr cs @ fin) s
        = Some (case r of Inl x \<Rightarrow> HandlerFailed x | Inr Done \<Rightarrow> Stopped
                | Inr Continue \<Rightarrow> (case frame_error de rest of Some e \<Rightarrow> ReadFailed e | None \<Rightarrow> stream_end fin), fr, s')
    \<and> (r = Inr Continue \<and> frame_error de rest = None \<longrightarrow> into_leftover fr = Some rest)"
  using receive_from_chunks [OF assms, of h fl s] unfolding handled_def stop_of_case by simp

text \<open>The witness: the client's handler, a server that updates the screen and ends the session, with a message behind the end.\<close>

definition two_msgs :: "byte list \<Rightarrow> unit + ServerMsg" where
  "two_msgs d = Inr (if d = [] then SessionEnded else ScreenUpdate (if d = [7] then [55] else [46]))"

definition to_list :: "nat list writer" where
  "to_list d s = (None, s @ d)"

definition list_client :: "nat list ClientState" where
  "list_client = \<lparr>cl_stdout = [], awaiting_stream_completion = False, logical_chunks = []\<rparr>"

theorem receive_refines_parse_witness:
  "\<exists>fr. receive_from two_msgs (dispatch_frame to_list (\<lambda>s. (None, s))) (flush_stdout (\<lambda>s. (None, s)))
     [0, 0] (map Inr [[0, 1, 7, 0, 0], [0, 0], [0, 0, 0, 1, 8]] @ [Inr []]) list_client
   = Some (Stopped, fr, list_client\<lparr>cl_stdout := [55]\<rparr>)"
proof -
  let ?cs = "[[0, 1, 7, 0, 0], [0, 0], [0, 0, 0, 1, 8]] :: byte list list"
  let ?h = "dispatch_frame to_list (\<lambda>s. (None, s))" and ?fl = "flush_stdout (\<lambda>s. (None, s))"
  have c: "list_all chunk_ok ?cs" by (simp add: chunk_ok_def READ_BUF_SIZE_def)
  have q: "quiet [Inr []]" by (simp add: quiet_def)
  have p: "parse_all (parse_msg two_msgs) ([0, 0] @ concat ?cs) = ([ScreenUpdate [55], SessionEnded, ScreenUpdate [46]], [])"
    by (simp add: parse_all.simps parse_msg_def decode_frame_def from_be_bytes_def MAX_FRAME_SIZE_def two_msgs_def
        numeral_2_eq_2 numeral_3_eq_3)
  have f: "?fl s = (None, s)" for s
    by (simp add: flush_stdout_def)
  have m: "?h (ScreenUpdate d) list_client = (Inr Continue, list_client\<lparr>cl_stdout := d\<rparr>)"
    "?h SessionEnded (list_client\<lparr>cl_stdout := d\<rparr>) = (Inr Done, list_client\<lparr>cl_stdout := d\<rparr>)" for d
    by (simp_all add: dispatch_frame_def on_stdout_def list_client_def to_list_def flush_then_def)
  have b: "handle_bursts ?h ?fl gs [] list_client = (Inr Done, list_client\<lparr>cl_stdout := [55]\<rparr>)"
    if "concat gs = [ScreenUpdate [55], SessionEnded, ScreenUpdate [46]]" for gs
    using that m by (simp add: silent_flush [of ?fl, OF f])
  show ?thesis
    using receive_refines_parse [OF c q p, of ?h ?fl list_client] b by auto
qed

text \<open>
  Sending and receiving is a round trip: encode any messages, concatenate the frames, split
  the bytes in any way into reads that fit the buffer; the receiver delivers exactly those messages
  in order, with no error and nothing left over.
\<close>

theorem receive_round_trip:
  assumes "bincode_ok ser de" "list_all2 (\<lambda>m f. encode ser m = Inr f) ms fs"
    and "concat cs = concat fs" "list_all chunk_ok cs"
  shows "\<exists>fr. receive_from de keep_msg no_flush [] (map Inr cs) [] = Some (Waiting, fr, ms) \<and> into_leftover fr = Some []"
proof -
  have "parse_all (parse_msg de) [] = ([], [])"
    by (rule wire.parse_all_None) (simp add: parse_msg_def decode_frame_def)
  then have "parse_all (parse_msg de) (concat cs) = (ms, [])"
    using encoded_stream [OF assms(1,2), of "[]"] assms(3) by simp
  from receive_kept [OF assms(4) this] show ?thesis by simp
qed

theorem receive_round_trip_witness:
  "bincode_ok raw_ser raw_de \<and> (\<exists>fr. receive_from raw_de keep_msg no_flush [] (map Inr [[0, 0, 0], [1, 7, 0, 0, 0], [2], [8, 9]]) []
     = Some (Waiting, fr, [[7], [8, 9]]) \<and> into_leftover fr = Some [])"
proof -
  have e: "list_all2 (\<lambda>m f. encode raw_ser m = Inr f) [[7], [8, 9]] [[0, 0, 0, 1, 7], [0, 0, 0, 2, 8, 9]]"
    by (simp add: encode_def raw_ser_def MAX_FRAME_SIZE_def to_be_bytes_def)
  show ?thesis
    using receive_round_trip [OF raw_bincode e, of "[[0, 0, 0], [1, 7, 0, 0, 0], [2], [8, 9]]"] raw_bincode
    by (simp add: chunk_ok_def READ_BUF_SIZE_def)
qed

text \<open>
  A frame header that announces more than \<open>MAX_FRAME_SIZE\<close> bytes is refused as soon as it has
  arrived, after the messages before it have been delivered and whatever follows it, however the
  bytes are split.
\<close>

theorem oversized_frame_refused:
  assumes "bincode_ok ser de" "list_all2 (\<lambda>m f. encode ser m = Inr f) ms fs" "MAX_FRAME_SIZE < unat w"
    and "concat cs = concat fs @ to_be_bytes w @ junk" "list_all chunk_ok cs"
  shows "\<exists>fr. receive_from de keep_msg no_flush [] (map Inr cs) [] = Some (ReadFailed (FrameTooLarge (unat w) MAX_FRAME_SIZE), fr, ms)"
proof -
  note err = oversized_header [OF assms(3), of de junk]
  have "parse_all (parse_msg de) (concat cs) = (ms, to_be_bytes w @ junk)"
    using encoded_stream [OF assms(1,2), of "to_be_bytes w @ junk"] assms(4) wire.parse_all_None [OF frame_error_parse [OF err]]
    by simp
  from receive_kept [OF assms(5) this] err show ?thesis by simp
qed

theorem oversized_frame_refused_witness:
  "\<exists>fr. receive_from raw_de keep_msg no_flush [] (map Inr [[0, 0, 0, 1], [7, 0xFF, 0], [0, 0]]) []
     = Some (ReadFailed (FrameTooLarge 0xFF000000 MAX_FRAME_SIZE), fr, [[7]])"
proof -
  have e: "list_all2 (\<lambda>m f. encode raw_ser m = Inr f) [[7]] [[0, 0, 0, 1, 7]]"
    by (simp add: encode_def raw_ser_def MAX_FRAME_SIZE_def to_be_bytes_def)
  have "MAX_FRAME_SIZE < unat (0xFF000000 :: 32 word)" by (simp add: MAX_FRAME_SIZE_def)
  from oversized_frame_refused [OF raw_bincode e this, of "[[0, 0, 0, 1], [7, 0xFF, 0], [0, 0]]" "[]"]
  show ?thesis by (simp add: chunk_ok_def READ_BUF_SIZE_def to_be_bytes_def)
qed

text \<open>
  C30. Whatever a peer sends, whatever the handler and the flush do with it and however the reads end, the
  receive loop, started on any leftover bytes within the bound, never slices past its buffer, and the
  buffer stays below a fixed bound.
\<close>

theorem receive_safe:
  assumes "\<forall>c. Inr c \<in> set rds \<longrightarrow> length c \<le> READ_BUF_SIZE" "length leftover \<le> MAX_FRAME_SIZE * 2 + 8 + READ_BUF_SIZE"
  shows "\<exists>e fr s'. receive_from de h fl leftover rds s = Some (e, fr, s')
    \<and> offset fr \<le> length (read_buf fr) \<and> length (read_buf fr) \<le> MAX_FRAME_SIZE * 2 + 8 + READ_BUF_SIZE"
proof -
  obtain e fr1 s1 where d: "drain_flush de h fl (with_leftover leftover) s = Some (e, fr1, s1)" "reader_ok fr1"
    "length (read_buf fr1) \<le> buffer_bound" "e = None \<longrightarrow> length (unread fr1) \<le> MAX_FRAME_SIZE * 2 + 8"
    using drain_flush_bounded [of "with_leftover leftover" de h fl s] assms(2)
    by (auto simp: succeeds_def with_leftover_def reader_ok_def buffer_bound_def)
  then have "succeeds (receive_from de h fl leftover rds s) (\<lambda>(e, fr', s'). reader_ok fr' \<and> length (read_buf fr') \<le> buffer_bound)"
    using receive_no_panic [OF d(2) _ d(3) assms(1), of de h fl s1] by (cases e) (simp_all add: receive_from_def)
  then show ?thesis by (auto simp: succeeds_def reader_ok_def buffer_bound_def)
qed

theorem receive_safe_witness:
  "\<exists>e fr s'. receive_from raw_de keep_msg no_flush [0] [Inr [0, 0, 0], Inl (OtherIo 104)] [] = Some (e, fr, s')
    \<and> offset fr \<le> length (read_buf fr) \<and> length (read_buf fr) \<le> MAX_FRAME_SIZE * 2 + 8 + READ_BUF_SIZE"
  by (rule receive_safe) (simp_all add: READ_BUF_SIZE_def)

subsection \<open>The relay to the standard output\<close>

text \<open>A standard output that takes everything: \<open>out\<close> is what it was given so far, buffered or not.\<close>

definition stdout_works :: "'o writer \<Rightarrow> (io_error, 'o) flusher \<Rightarrow> ('o \<Rightarrow> nat list) \<Rightarrow> bool" where
  "stdout_works wr fl out \<longleftrightarrow> (\<forall>d s. \<exists>s'. wr d s = (None, s') \<and> out s' = out s @ d) \<and> (\<forall>s. \<exists>s'. fl s = (None, s') \<and> out s' = out s)"

fun server_output :: "ServerMsg \<Rightarrow> nat list" where
  "server_output (ScreenUpdate d) = d"
| "server_output (Passthrough d) = d"
| "server_output (History ls) = concat (map (\<lambda>l. l @ CRLF) ls)"
| "server_output (HistoryLogical ks) = concat (map (\<lambda>(l, eol). if eol then l @ CRLF else l) (render_logical_history ks))"
| "server_output _ = []"

fun ends_session :: "ServerMsg \<Rightarrow> bool" where
  "ends_session SessionEnded = True"
| "ends_session (Error _) = True"
| "ends_session _ = False"

lemma write_each_works:
  assumes "stdout_works wr fl out"
  shows "\<exists>s'. write_each wr ds s = (Inr Continue, s') \<and> out s' = out s @ concat ds"
proof (induction ds arbitrary: s)
  case (Cons d ds)
  obtain s1 where "wr d s = (None, s1)" "out s1 = out s @ d" using assms by (force simp: stdout_works_def)
  then show ?case using Cons [of s1] by auto
qed simp

lemma dispatch_works:
  assumes w: "stdout_works wr fl out"
  shows "\<exists>s'. dispatch_server_msg wr fl m s = (Inr (if ends_session m then Done else Continue), s') \<and> out s' = out s @ server_output m"
proof -
  have f: "\<exists>s'. flush_then fl r s = (Inr r, s') \<and> out s' = out s" for r s
    using w by (force simp: stdout_works_def flush_then_def)
  have lines: "concat (concat (map (\<lambda>l. [l, CRLF]) ls)) = concat (map (\<lambda>l. l @ CRLF) ls)"
    "concat (concat (map (\<lambda>(l, eol). if eol then [l, CRLF] else [l]) ps)) = concat (map (\<lambda>(l, eol). if eol then l @ CRLF else l) ps)" for ls ps
    by (induction ls; simp) (induction ps; auto)
  have "\<exists>s'. dispatch_server_msg wr fl (Passthrough d) s = (Inr Continue, s') \<and> out s' = out s @ d" for d
  proof -
    obtain s1 where "wr d s = (None, s1)" "out s1 = out s @ d" using w by (force simp: stdout_works_def)
    then show ?thesis using f [of Continue s1] by auto
  qed
  moreover have we: "\<exists>s'. write_each wr ds s = (Inr Continue, s') \<and> out s' = out s @ t" if "concat ds = t" for ds t
    using write_each_works [OF w] that by blast
  ultimately show ?thesis
    using f by (cases m) (simp_all del: write_each.simps, auto intro!: we simp: lines simp del: write_each.simps)
qed

lemma relay_msgs:
  assumes w: "stdout_works wr fl out"
  shows "\<not> awaiting_stream_completion c \<Longrightarrow>
    \<exists>c'. handle_msgs (dispatch_frame wr fl) ms c = (Inr (if list_ex ends_session ms then Done else Continue), c')
      \<and> \<not> awaiting_stream_completion c'
      \<and> out (cl_stdout c') = out (cl_stdout c) @ concat (map server_output (takeWhile (\<lambda>m. \<not> ends_session m) ms))"
proof (induction ms arbitrary: c)
  case (Cons m ms)
  obtain s' where s': "dispatch_server_msg wr fl m (cl_stdout c) = (Inr (if ends_session m then Done else Continue), s')"
    "out s' = out (cl_stdout c) @ server_output m" using dispatch_works [OF w] by blast
  have "ends_session m \<Longrightarrow> server_output m = []" by (cases m) simp_all
  then show ?case
    using s' Cons.prems Cons.IH [of "c\<lparr>cl_stdout := s'\<rparr>"] by (auto simp: dispatch_frame_def on_stdout_def)
qed simp

lemma relay_works:
  assumes w: "stdout_works wr fl out"
  shows "\<not> awaiting_stream_completion c \<Longrightarrow>
    \<exists>c'. handle_bursts (dispatch_frame wr fl) (flush_stdout fl) gs l c
        = (Inr (if list_ex ends_session (concat gs @ l) then Done else Continue), c') \<and> \<not> awaiting_stream_completion c'
      \<and> out (cl_stdout c') = out (cl_stdout c) @ concat (map server_output (takeWhile (\<lambda>m. \<not> ends_session m) (concat gs @ l)))"
proof (induction gs arbitrary: c)
  case Nil
  then show ?case using relay_msgs [OF w] by simp
next
  case (Cons g gs)
  obtain c1 where c1: "handle_msgs (dispatch_frame wr fl) g c = (Inr (if list_ex ends_session g then Done else Continue), c1)"
    "\<not> awaiting_stream_completion c1"
    "out (cl_stdout c1) = out (cl_stdout c) @ concat (map server_output (takeWhile (\<lambda>m. \<not> ends_session m) g))"
    using relay_msgs [OF w Cons.prems] by blast
  obtain s2 where s2: "fl (cl_stdout c1) = (None, s2)" "out s2 = out (cl_stdout c1)" using w by (force simp: stdout_works_def)
  have tw: "takeWhile (\<lambda>m. \<not> ends_session m) (g @ ms) =
      (if list_ex ends_session g then takeWhile (\<lambda>m. \<not> ends_session m) g else g @ takeWhile (\<lambda>m. \<not> ends_session m) ms)"
    "\<not> list_ex ends_session g \<Longrightarrow> takeWhile (\<lambda>m. \<not> ends_session m) g = g" for ms
    by (auto simp: list_ex_iff)
  show ?case
  proof (cases "list_ex ends_session g")
    case True
    then show ?thesis using c1 tw(1) [of "concat gs @ l"] by simp
  next
    case False
    have "flush_stdout fl c1 = (None, c1\<lparr>cl_stdout := s2\<rparr>)" using s2 by (simp add: flush_stdout_def)
    then show ?thesis
      using c1 s2 tw(2) tw(1) [of "concat gs @ l"] False Cons.IH [of "c1\<lparr>cl_stdout := s2\<rparr>"] by simp
  qed
qed

text \<open>
  The relay of the client on an output that takes everything, without a logical history stream: the terminal
  is given exactly the bytes of the messages before the end of the session, in order and however the stream
  is split, and the relay ends well at the end of the session.
\<close>

theorem relay_shows_stream:
  assumes "stdout_works wr fl out" "list_all chunk_ok cs" "quiet fin"
    "parse_all (parse_msg de) (leftover @ concat cs) = (ms, rest)"
  shows "\<exists>s'. out s' = out s @ concat (map server_output (takeWhile (\<lambda>m. \<not> ends_session m) ms))
    \<and> run_socket_to_stdout wr fl de (map Inr cs @ fin) leftover False s
      = Some (if list_ex ends_session ms then RelayOk
              else case frame_error de rest of Some e \<Rightarrow> RelayFailed (Inl e)
                   | None \<Rightarrow> (case fin of [] \<Rightarrow> Pending | Inr _ # _ \<Rightarrow> RelayOk | Inl e # _ \<Rightarrow> RelayFailed (Inl (Io e))), s')"
proof -
  let ?c = "\<lparr>cl_stdout = s, awaiting_stream_completion = False, logical_chunks = []\<rparr>"
  obtain gs l r c' fr where g: "concat gs @ l = ms" "handle_bursts (dispatch_frame wr fl) (flush_stdout fl) gs l ?c = (r, c')"
    "receive_from de (dispatch_frame wr fl) (flush_stdout fl) leftover (map Inr cs @ fin) ?c
       = Some (case stop_of r of Some e \<Rightarrow> e
               | None \<Rightarrow> (case frame_error de rest of Some e \<Rightarrow> ReadFailed e | None \<Rightarrow> stream_end fin), fr, c')"
    using receive_from_chunks [OF assms(2-4), of "dispatch_frame wr fl" "flush_stdout fl" ?c]
    unfolding handled_def by (elim exE conjE) (rule that)
  have "r = Inr (if list_ex ends_session ms then Done else Continue) \<and> \<not> awaiting_stream_completion c'
      \<and> out (cl_stdout c') = out s @ concat (map server_output (takeWhile (\<lambda>m. \<not> ends_session m) ms))"
    using relay_works [OF assms(1), of ?c gs l] g(1,2) by simp
  with g(3) show ?thesis
    by (intro exI [of _ "cl_stdout c'"])
      (auto simp: run_socket_to_stdout_def relay_result_def split: option.split list.split sum.split)
qed

theorem relay_shows_stream_witness:
  "\<exists>s'. s' = [55] \<and> run_socket_to_stdout to_list (\<lambda>s. (None, s)) two_msgs (map Inr [[0, 1, 7]] @ [Inr []]) [0, 0] False [] = Some (RelayOk, s')"
proof -
  have w: "stdout_works to_list (\<lambda>s. (None, s)) id" by (simp add: stdout_works_def to_list_def)
  have c: "list_all chunk_ok [[0, 1, 7]]" "quiet [Inr []]" by (simp_all add: chunk_ok_def READ_BUF_SIZE_def quiet_def)
  have p: "parse_all (parse_msg two_msgs) ([0, 0] @ concat [[0, 1, 7]]) = ([ScreenUpdate [55]], [])"
    by (simp add: parse_all.simps parse_msg_def decode_frame_def from_be_bytes_def MAX_FRAME_SIZE_def two_msgs_def
        numeral_2_eq_2 numeral_3_eq_3)
  from relay_shows_stream [OF w c p, of "[]"] show ?thesis by simp
qed

subsection \<open>One message, the preamble and the capabilities\<close>

text \<open>
  \<open>read_one_message\<close> returns the message that was sent, however its frame is split and whatever
  bytes follow it.
\<close>

theorem read_one_message_round_trip:
  assumes "bincode_ok ser de" "encode ser m = Inr f" "concat cs = f @ ext" "list_all chunk_ok cs"
  shows "read_one_message de (map Inr cs) frame_reader_new = Some (Some (Inr m))"
proof -
  have "list_all2 (\<lambda>m f. encode ser m = Inr f) [m] [f]" using assms(2) by simp
  from encoded_stream [OF assms(1) this, of ext] assms(3)
  have "fst (parse_all (parse_msg de) (concat cs)) = m # fst (parse_all (parse_msg de) ext)" by simp
  with read_one_chunks [of frame_reader_new de cs m] assms(4) show ?thesis by simp
qed

theorem read_one_message_round_trip_witness:
  "read_one_message raw_de (map Inr [[0], [0, 0, 2, 8], [9, 5]]) frame_reader_new = Some (Some (Inr [8, 9]))"
proof (rule read_one_message_round_trip [OF raw_bincode])
  show "encode raw_ser [8, 9] = Inr [0, 0, 0, 2, 8, 9]" by (simp add: encode_def raw_ser_def MAX_FRAME_SIZE_def to_be_bytes_def)
  show "concat [[0], [0, 0, 2, 8], [9, 5]] = [0, 0, 0, 2, 8, 9] @ [5]" by simp
  show "list_all chunk_ok [[0], [0, 0, 2, 8], [9, 5]]" by (simp add: chunk_ok_def READ_BUF_SIZE_def)
qed

text \<open>
  The handshake accepts a peer exactly when it sent the preamble of this version, however the
  five bytes arrive; a peer with the right magic and any other version byte is refused with that
  version, and anything else with the magic it sent.
\<close>

theorem preamble_check:
  assumes "list_all (\<lambda>c. c \<noteq> []) cs" "concat cs = magic @ [v]" "length magic = 4"
  shows "read_preamble (map Inr cs) [] = Some (Inr
    (if magic @ [v] = write_preamble then POk
     else if magic = PREAMBLE_MAGIC then VersionMismatch v else BadMagic magic))"
proof -
  have "(magic @ [v]) ! 4 = v" "take 4 (magic @ [v]) = magic" using assms(3) by (simp_all add: nth_append)
  then have "check_preamble (magic @ [v]) =
      (if magic \<noteq> PREAMBLE_MAGIC then BadMagic magic else if v \<noteq> PROTOCOL_VERSION then VersionMismatch v else POk)"
    by (simp only: check_preamble_def)
  with read_preamble_chunks [of cs "[]"] assms show ?thesis
    by (simp add: PREAMBLE_LEN_def write_preamble_def)
qed

theorem preamble_check_witness:
  "read_preamble (map Inr [[0x51, 0x52], [0x4D, 0x58, 4]]) [] = Some (Inr (VersionMismatch 4))"
  using preamble_check [of "[[0x51, 0x52], [0x4D, 0x58, 4]]" "[0x51, 0x52, 0x4D, 0x58]" 4]
  by (simp add: write_preamble_def PREAMBLE_MAGIC_def PROTOCOL_VERSION_def del: read_preamble.simps)

text \<open>
  The capability list of a Hello frame is accepted exactly when it has at most 64 entries, each
  of 1 to 64 bytes from \<open>[a-z0-9-]\<close>.
\<close>

theorem hello_caps_accepted:
  "validate_hello_caps caps = Inr () \<longleftrightarrow>
     length caps \<le> 64 \<and> (\<forall>cap \<in> set caps. cap \<noteq> [] \<and> length cap \<le> 64 \<and> list_all kebab_byte cap)"
  by (simp add: validate_hello_caps_def check_caps_ok HELLO_MAX_CAPS_def HELLO_MAX_CAP_LEN_def)

theorem hello_caps_accepted_witness:
  "validate_hello_caps [[0x61, 0x2D, 0x31]] = Inr () \<and> validate_hello_caps [[0x41]] \<noteq> Inr ()"
  using hello_caps_accepted [of "[[0x61, 0x2D, 0x31]]"] hello_caps_accepted [of "[[0x41]]"]
  by (simp add: kebab_byte_def)

end
