(* ===== verification/Relay.thy ===== *)
theory Relay
  imports Prelude "HOL-Library.AList"
begin

text \<open>
  The relay server of \<open>crates/dispatch/src/relay_server\<close>: the shared state and its operations
  (\<open>state.rs\<close>), reply delivery (\<open>deliver_reply\<close>, \<open>verify_waiter_delivery\<close> and \<open>push_back\<close> of \<open>mod.rs\<close>)
  and the long poll (\<open>handle_replies\<close> of \<open>http.rs\<close>). Threads share the state under one mutex; every
  lock span of the code is one function on the state, and \<open>relay_step\<close> interleaves the spans of any
  number of threads. Hash maps that are measured or iterated are association lists; an \<open>Instant\<close> is a
  number of milliseconds. The file system, the sockets and the clock are inputs of the steps.
\<close>

subsection \<open>Constants and records\<close>

definition MAX_TRACKED_ORIGINS :: nat where "MAX_TRACKED_ORIGINS = 2000"
definition RESOLVED_TTL :: nat where "RESOLVED_TTL = 5 * 60 * 1000"
definition REPLY_PREFIX :: string where "REPLY_PREFIX = ''[REPLY to ''"

definition is_reply_text :: "string \<Rightarrow> bool" where
  "is_reply_text t \<longleftrightarrow> take (length REPLY_PREFIX) t = REPLY_PREFIX"

record OriginRec =
  from_sess :: string
  is_reply :: bool

record ResolvedEntry =
  reply_text :: string
  deadline :: nat

datatype DeliveryDecision = ResolveWaiter | LoopPrevented | NotAddressable string | PushBack string | NoOrigin

record RelayState =
  pending :: "string set"
  resolved :: "(string \<times> ResolvedEntry) list"
  origins :: "(string \<times> OriginRec) list"
  origins_order :: "string list"
  verify_pending :: "string set"
  acks :: "string \<rightharpoonup> bool"
  seq :: nat

text \<open>
  What \<open>origin_from_inbox\<close> gets of the persisted message: the file may be missing or broken
  (\<open>None\<close>), and each field may be missing or not a string.
\<close>

type_synonym inbox_file = "string option \<times> string option"

definition origin_from_inbox :: "inbox_file option \<Rightarrow> OriginRec option" where
  "origin_from_inbox file = do {
     (from_session, txt) \<leftarrow> file;
     frm \<leftarrow> from_session;
     Some \<lparr>from_sess = frm, is_reply = is_reply_text (case txt of None \<Rightarrow> [] | Some t \<Rightarrow> t)\<rparr> }"

subsection \<open>Operations of the state\<close>

definition with_seq_seed :: "nat \<Rightarrow> RelayState" where
  "with_seq_seed seed = \<lparr>pending = {}, resolved = [], origins = [], origins_order = [],
     verify_pending = {}, acks = Map.empty, seq = seed\<rparr>"

text \<open>Decimal printing of an integer, as \<open>format!\<close> does it.\<close>

definition digit_char :: "nat \<Rightarrow> char" where
  "digit_char d = char_of (48 + d)"

fun decimal :: "nat \<Rightarrow> string" where
  "decimal n = (if n < 10 then [digit_char n] else decimal (n div 10) @ [digit_char (n mod 10)])"

declare decimal.simps [simp del]

text \<open>\<open>self.seq += 1\<close> panics on overflow of the \<open>u64\<close>.\<close>

definition mint_message_id :: "nat \<Rightarrow> RelayState \<Rightarrow> (string \<times> RelayState) option" where
  "mint_message_id now_ms s = do {
     n \<leftarrow> checked_add64 (seq s) 1;
     Some (''relay-'' @ decimal now_ms @ ''-'' @ decimal n, s\<lparr>seq := n\<rparr>) }"

definition evict_origin :: "RelayState \<Rightarrow> RelayState" where
  "evict_origin s =
     (if MAX_TRACKED_ORIGINS \<le> length (origins s)
      then case origins_order s of [] \<Rightarrow> s
           | oldest # rest \<Rightarrow> s\<lparr>origins_order := rest, origins := AList.delete oldest (origins s)\<rparr>
      else s)"

definition record_origin :: "string \<Rightarrow> string \<Rightarrow> bool \<Rightarrow> RelayState \<Rightarrow> RelayState" where
  "record_origin message_id from_session is_rep s =
     (let rec = \<lparr>from_sess = from_session, is_reply = is_rep\<rparr>
      in if map_of (origins s) message_id \<noteq> None then s\<lparr>origins := AList.update message_id rec (origins s)\<rparr>
         else let s = evict_origin s
              in s\<lparr>origins := AList.update message_id rec (origins s),
                   origins_order := origins_order s @ [message_id]\<rparr>)"

definition origin_for :: "string \<Rightarrow> RelayState \<Rightarrow> OriginRec option" where
  "origin_for message_id s = map_of (origins s) message_id"

definition tracked_message_ids :: "RelayState \<Rightarrow> string list" where
  "tracked_message_ids s = map fst (filter (\<lambda>(_, rec). \<not> is_reply rec) (origins s))"

definition buffer_reply :: "string \<Rightarrow> string \<Rightarrow> nat \<Rightarrow> RelayState \<Rightarrow> RelayState" where
  "buffer_reply message_id txt dl s =
     s\<lparr>resolved := AList.update message_id \<lparr>reply_text = txt, deadline = dl\<rparr> (resolved s)\<rparr>"

definition peek_resolved :: "string \<Rightarrow> nat \<Rightarrow> RelayState \<Rightarrow> string option \<times> RelayState" where
  "peek_resolved message_id now s =
     (case map_of (resolved s) message_id of
        None \<Rightarrow> (None, s)
      | Some e \<Rightarrow> if deadline e \<le> now then (None, s\<lparr>resolved := AList.delete message_id (resolved s)\<rparr>)
                  else (Some (reply_text e), s))"

definition register_waiter :: "string \<Rightarrow> RelayState \<Rightarrow> RelayState" where
  "register_waiter message_id s = s\<lparr>pending := insert message_id (pending s)\<rparr>"

definition remove_waiter :: "string \<Rightarrow> RelayState \<Rightarrow> RelayState" where
  "remove_waiter message_id s = s\<lparr>pending := pending s - {message_id}\<rparr>"

definition has_waiter :: "string \<Rightarrow> RelayState \<Rightarrow> bool" where
  "has_waiter message_id s \<longleftrightarrow> message_id \<in> pending s"

definition mark_verify :: "string \<Rightarrow> RelayState \<Rightarrow> RelayState" where
  "mark_verify message_id s = s\<lparr>verify_pending := insert message_id (verify_pending s)\<rparr>"

definition verify_open :: "string \<Rightarrow> RelayState \<Rightarrow> bool" where
  "verify_open message_id s \<longleftrightarrow> message_id \<in> verify_pending s"

definition offer_ack :: "string \<Rightarrow> bool \<Rightarrow> RelayState \<Rightarrow> RelayState" where
  "offer_ack message_id written s =
     (if message_id \<in> verify_pending s then s\<lparr>acks := (acks s)(message_id \<mapsto> written)\<rparr> else s)"

definition take_ack :: "string \<Rightarrow> RelayState \<Rightarrow> bool option \<times> RelayState" where
  "take_ack message_id s = (acks s message_id, s\<lparr>acks := (acks s)(message_id := None)\<rparr>)"

definition unmark_verify :: "string \<Rightarrow> RelayState \<Rightarrow> RelayState" where
  "unmark_verify message_id s =
     s\<lparr>verify_pending := verify_pending s - {message_id}, acks := (acks s)(message_id := None)\<rparr>"

definition sweep_expired :: "nat \<Rightarrow> RelayState \<Rightarrow> nat \<times> RelayState" where
  "sweep_expired now s =
     (let kept = filter (\<lambda>(_, e). now < deadline e) (resolved s)
      in (length (resolved s) - length kept, s\<lparr>resolved := kept\<rparr>))"

definition decide_delivery :: "bool \<Rightarrow> OriginRec option \<Rightarrow> string \<Rightarrow> DeliveryDecision" where
  "decide_delivery waiter_present origin own_session_id =
     (if waiter_present then ResolveWaiter
      else case origin of None \<Rightarrow> NoOrigin
      | Some rec \<Rightarrow>
          if is_reply rec then LoopPrevented
          else if from_sess rec = ''unknown'' \<or> from_sess rec = ''cli''
          then NotAddressable (''origin \"'' @ from_sess rec @ ''\" is not an addressable session'')
          else if from_sess rec = own_session_id then NotAddressable ''origin is this session itself''
          else PushBack (from_sess rec))"

subsection \<open>Receiving a message\<close>

text \<open>The lock span of \<open>handle_message\<close>.\<close>

definition message_span :: "nat \<Rightarrow> string \<Rightarrow> string \<Rightarrow> RelayState \<Rightarrow> (string \<times> RelayState) option" where
  "message_span now_ms txt from_session s = do {
     (i, s) \<leftarrow> mint_message_id now_ms s;
     Some (i, record_origin i from_session (is_reply_text txt) s) }"

end
