(* ===== verification/Relay_Threads.thy ===== *)
theory Relay_Threads
  imports Relay
begin

text \<open>
  The threads of the relay server. \<open>handle_replies\<close> (a poller) and \<open>deliver_reply\<close> (a deliverer) are
  sequences of lock spans with I/O in between; a program counter says which span comes next and
  carries the local variables that are live there. What I/O yields (is the client alive, did the
  write succeed, did a wait time out, what is in the inbox file, did push-back succeed) is an
  argument of the span or a free choice of the step.
\<close>

subsection \<open>Outcomes\<close>

record DeliveryOutcome =
  outcome_text :: string
  is_error :: bool

definition em_dash :: string where
  "em_dash = [CHR 0xE2, CHR 0x80, CHR 0x94]"

definition FRESH_MESSAGE_GUIDANCE :: string where
  "FRESH_MESSAGE_GUIDANCE =
     ''The text is buffered 5 minutes for --wait retries only. To actually reach the other session, send a fresh message ''
     @ em_dash @ '' qd send:relay <session-name-or-id> '' @ em_dash @ '' and restate your substance.''"

definition not_delivered_outcome :: "string \<Rightarrow> string \<Rightarrow> DeliveryOutcome" where
  "not_delivered_outcome message_id reason =
     \<lparr>outcome_text = ''NOT DELIVERED: no sender is waiting on '' @ message_id @ '' and push-back failed ('' @ reason
        @ ''). '' @ FRESH_MESSAGE_GUIDANCE, is_error = True\<rparr>"

definition delivery_outcome :: "(string \<Rightarrow> string option) \<Rightarrow> string \<Rightarrow> DeliveryDecision \<Rightarrow> DeliveryOutcome" where
  "delivery_outcome push message_id decision =
     (case decision of
        ResolveWaiter \<Rightarrow> \<lparr>outcome_text = ''DELIVERED: a sender was waiting on '' @ message_id
                           @ '' (long-poll resolved).'', is_error = False\<rparr>
      | LoopPrevented \<Rightarrow> \<lparr>outcome_text = ''NOT DELIVERED: loop prevention '' @ em_dash @ '' the inbound message ''
                           @ message_id @ '' is itself a pushed-back '' @ REPLY_PREFIX
                           @ ''...] reply; replies to replies never auto-post. '' @ FRESH_MESSAGE_GUIDANCE,
                         is_error = True\<rparr>
      | NotAddressable reason \<Rightarrow> \<lparr>outcome_text = ''NOT DELIVERED: '' @ reason @ ''. '' @ FRESH_MESSAGE_GUIDANCE,
                                  is_error = True\<rparr>
      | PushBack origin \<Rightarrow>
          (case push origin of
             Some detail \<Rightarrow> \<lparr>outcome_text = ''DELIVERED: no waiting sender; '' @ detail
                              @ ''. It arrives there as a channel message marked '' @ REPLY_PREFIX @ message_id @ ''] ''
                              @ em_dash @ '' the recipient will not reply-tool it back.'', is_error = False\<rparr>
           | None \<Rightarrow> not_delivered_outcome message_id (''no live sidecar found for origin session '' @ origin))
      | NoOrigin \<Rightarrow> not_delivered_outcome message_id
          (''no origin recorded for '' @ message_id @ '' (unknown id, or it predates this sidecar and left no inbox file)''))"

subsection \<open>Push-back\<close>

text \<open>
  A sidecar as \<open>push_back\<close> sees it: session, port, and the start time that it re-reads (empty when
  missing). \<open>health\<close> gives the session that answers on a port and \<open>send\<close> the result of the POST of a text from a session.
\<close>

record Sidecar =
  sc_session :: string
  sc_port :: nat
  sc_started_at :: string

definition PUSHBACK_CANDIDATE_CAP :: nat where "PUSHBACK_CANDIDATE_CAP = 8"

fun char_less :: "string \<Rightarrow> string \<Rightarrow> bool" where
  "char_less _ [] = False"
| "char_less [] (_ # _) = True"
| "char_less (a # as) (b # bs) =
     (of_char a < (of_char b :: nat) \<or> of_char a = (of_char b :: nat) \<and> char_less as bs)"

text \<open>The stable sort by start time, newest first.\<close>

fun insert_newest :: "nat \<times> string \<Rightarrow> (nat \<times> string) list \<Rightarrow> (nat \<times> string) list" where
  "insert_newest c [] = [c]"
| "insert_newest c (d # ds) = (if char_less (snd c) (snd d) then d # insert_newest c ds else c # d # ds)"

definition pushback_candidates :: "Sidecar list \<Rightarrow> string \<Rightarrow> (nat \<times> string) list" where
  "pushback_candidates sidecars origin =
     take PUSHBACK_CANDIDATE_CAP
       (foldr insert_newest (map (\<lambda>c. (sc_port c, sc_started_at c)) (filter (\<lambda>c. sc_session c = origin) sidecars)) [])"

fun try_candidates ::
  "(nat \<Rightarrow> string option) \<Rightarrow> (nat \<Rightarrow> string \<Rightarrow> string \<Rightarrow> string option) \<Rightarrow> string \<Rightarrow> string \<Rightarrow> string
     \<Rightarrow> (nat \<times> string) list \<Rightarrow> string option" where
  "try_candidates health send own origin pushed [] = None"
| "try_candidates health send own origin pushed ((port, _) # cs) =
     (if health port = Some origin
      then case send port pushed own of
             Some new_id \<Rightarrow> Some (''posted to session '' @ origin @ '' (port '' @ decimal port @ '') as new message '' @ new_id)
           | None \<Rightarrow> try_candidates health send own origin pushed cs
      else try_candidates health send own origin pushed cs)"

definition push_back ::
  "Sidecar list \<Rightarrow> (nat \<Rightarrow> string option) \<Rightarrow> (nat \<Rightarrow> string \<Rightarrow> string \<Rightarrow> string option) \<Rightarrow> string
     \<Rightarrow> string \<Rightarrow> string \<Rightarrow> string \<Rightarrow> string option" where
  "push_back sidecars health send own message_id txt origin =
     try_candidates health send own origin (REPLY_PREFIX @ message_id @ ''] '' @ txt) (pushback_candidates sidecars origin)"

subsection \<open>Lock spans\<close>

text \<open>The first span of \<open>deliver_reply\<close>, after the wait for an open window of the same message.\<close>

definition deliver_span :: "nat \<Rightarrow> string \<Rightarrow> string \<Rightarrow> RelayState \<Rightarrow> bool \<times> OriginRec option \<times> RelayState" where
  "deliver_span now message_id txt s =
     (let s = buffer_reply message_id txt (now + RESOLVED_TTL) s;
          waiter_present = has_waiter message_id s;
          in_mem_origin = origin_for message_id s;
          s = (if waiter_present then mark_verify message_id s else s)
      in (waiter_present, in_mem_origin, s))"

definition reply_origin :: "OriginRec option \<Rightarrow> inbox_file option \<Rightarrow> OriginRec option" where
  "reply_origin in_mem file = (case in_mem of Some rec \<Rightarrow> Some rec | None \<Rightarrow> origin_from_inbox file)"

text \<open>
  One round of the wait loop of \<open>verify_waiter_delivery\<close>: \<open>None\<close> goes back to waiting, otherwise the
  window is closed and the verdict returned.
\<close>

definition verify_span :: "bool \<Rightarrow> string \<Rightarrow> RelayState \<Rightarrow> bool option \<times> RelayState" where
  "verify_span timed_out message_id s =
     (let (ack, s) = take_ack message_id s;
          verdict = (case ack of Some written \<Rightarrow> Some written | None \<Rightarrow> if timed_out then Some False else None)
      in case verdict of None \<Rightarrow> (None, s)
         | Some verified \<Rightarrow>
             let s = unmark_verify message_id s;
                 s = (if \<not> verified then remove_waiter message_id s else s)
             in (Some verified, s))"

text \<open>What a span of \<open>handle_replies\<close> decides.\<close>

datatype poll_result = Cached string | Park | Probe | Respond string | Timeout408 | HungUp

definition poll_first_span :: "nat \<Rightarrow> nat \<Rightarrow> string \<Rightarrow> RelayState \<Rightarrow> poll_result \<times> RelayState" where
  "poll_first_span now park_deadline message_id s =
     (case peek_resolved message_id now s of
        (Some t, s) \<Rightarrow> (Cached t, s)
      | (None, s) \<Rightarrow>
          let s = register_waiter message_id s
          in if park_deadline \<le> now then (Timeout408, remove_waiter message_id s) else (Park, s))"

text \<open>A wake of the parked thread, up to the release of the lock for the liveness probe.\<close>

definition poll_wake_span :: "nat \<Rightarrow> string \<Rightarrow> RelayState \<Rightarrow> poll_result \<times> RelayState" where
  "poll_wake_span now message_id s =
     (case peek_resolved message_id now s of
        (Some t, s) \<Rightarrow> (Respond t, remove_waiter message_id s)
      | (None, s) \<Rightarrow> (Probe, s))"

text \<open>After the probe, up to the next park or the end; the deadline is checked at the loop head.\<close>

definition poll_probed_span :: "nat \<Rightarrow> nat \<Rightarrow> bool \<Rightarrow> string \<Rightarrow> RelayState \<Rightarrow> poll_result \<times> RelayState" where
  "poll_probed_span now park_deadline alive message_id s =
     (case peek_resolved message_id now s of
        (Some t, s) \<Rightarrow> (Respond t, remove_waiter message_id s)
      | (None, s) \<Rightarrow>
          if \<not> alive then (HungUp, offer_ack message_id False (remove_waiter message_id s))
          else if park_deadline \<le> now then (Timeout408, remove_waiter message_id s)
          else (Park, s))"

subsection \<open>Interleaving\<close>

text \<open>Program counters of a poller and of a deliverer; \<open>PIdle\<close> and \<open>DIdle\<close> are threads not started.\<close>

datatype poller =
    PIdle
  | PParked string nat
  | PProbing string nat
  | PWriting string string
  | POffer string string bool
  | PCached string string
  | PDone string "string option" bool

datatype deliverer =
    DIdle
  | DWaiting string string
  | DDecide string string bool "OriginRec option"
  | DVerify string string "OriginRec option"
  | DAct string string DeliveryDecision
  | DDone string string DeliveryDecision DeliveryOutcome

record relay_sys =
  rs :: RelayState
  clock :: nat
  inbox :: "string \<Rightarrow> inbox_file option"
  pollers :: "nat \<Rightarrow> poller"
  deliverers :: "nat \<Rightarrow> deliverer"

definition set_poller :: "nat \<Rightarrow> poller \<Rightarrow> RelayState \<Rightarrow> relay_sys \<Rightarrow> relay_sys" where
  "set_poller i pc st s = s\<lparr>rs := st, pollers := (pollers s)(i := pc)\<rparr>"

definition set_deliverer :: "nat \<Rightarrow> deliverer \<Rightarrow> RelayState \<Rightarrow> relay_sys \<Rightarrow> relay_sys" where
  "set_deliverer j pc st s = s\<lparr>rs := st, deliverers := (deliverers s)(j := pc)\<rparr>"

text \<open>What a poller does next when a span has decided \<open>r\<close>.\<close>

fun poll_next :: "string \<Rightarrow> nat \<Rightarrow> poll_result \<Rightarrow> poller" where
  "poll_next m dl (Cached t) = PCached m t"
| "poll_next m dl Park = PParked m dl"
| "poll_next m dl Probe = PProbing m dl"
| "poll_next m dl (Respond t) = PWriting m t"
| "poll_next m dl Timeout408 = PDone m None False"
| "poll_next m dl HungUp = PDone m None False"

text \<open>
  One step of the server with session id \<open>own\<close>. With \<open>patient\<close>, the bounded wait of a second reply
  for an open window of the same message never runs out (rule \<open>impatient\<close> is then disabled).
\<close>

inductive relay_step :: "string \<Rightarrow> bool \<Rightarrow> relay_sys \<Rightarrow> relay_sys \<Rightarrow> bool" for own patient where
  tick: "relay_step own patient s (s\<lparr>clock := clock s + n\<rparr>)"
| sweep: "relay_step own patient s (s\<lparr>rs := snd (sweep_expired (clock s) (rs s))\<rparr>)"
| message: "message_span now_ms txt frm (rs s) = Some (m, st) \<Longrightarrow>
    relay_step own patient s (s\<lparr>rs := st, inbox := (inbox s)(m := Some (Some frm, Some txt))\<rparr>)"
| poll_start: "pollers s i = PIdle \<Longrightarrow> poll_first_span (clock s) dl m (rs s) = (r, st) \<Longrightarrow>
    relay_step own patient s (set_poller i (poll_next m dl r) st s)"
| poll_wake: "pollers s i = PParked m dl \<Longrightarrow> poll_wake_span (clock s) m (rs s) = (r, st) \<Longrightarrow>
    relay_step own patient s (set_poller i (poll_next m dl r) st s)"
| poll_probed: "pollers s i = PProbing m dl \<Longrightarrow> poll_probed_span (clock s) dl alive m (rs s) = (r, st) \<Longrightarrow>
    relay_step own patient s (set_poller i (poll_next m dl r) st s)"
| poll_write: "pollers s i = PWriting m t \<Longrightarrow>
    relay_step own patient s (set_poller i (POffer m t written) (rs s) s)"
| poll_offer: "pollers s i = POffer m t written \<Longrightarrow>
    relay_step own patient s (set_poller i (PDone m (Some t) written) (offer_ack m written (rs s)) s)"
| deliver_start: "deliverers s j = DIdle \<Longrightarrow>
    relay_step own patient s (set_deliverer j (DWaiting m t) (rs s) s)"
| deliver_buffer: "deliverers s j = DWaiting m t \<Longrightarrow> \<not> verify_open m (rs s) \<Longrightarrow>
    deliver_span (clock s) m t (rs s) = (w, orig, st) \<Longrightarrow>
    relay_step own patient s (set_deliverer j (DDecide m t w orig) st s)"
| impatient: "\<not> patient \<Longrightarrow> deliverers s j = DWaiting m t \<Longrightarrow> verify_open m (rs s) \<Longrightarrow>
    deliver_span (clock s) m t (rs s) = (w, orig, st) \<Longrightarrow>
    relay_step own patient s (set_deliverer j (DDecide m t w orig) st s)"
| deliver_decide: "deliverers s j = DDecide m t w in_mem \<Longrightarrow> orig = reply_origin in_mem (inbox s m) \<Longrightarrow>
    decision = decide_delivery w orig own \<Longrightarrow>
    relay_step own patient s (set_deliverer j
      (if decision = ResolveWaiter then DVerify m t orig else DAct m t decision) (rs s) s)"
| deliver_verify: "deliverers s j = DVerify m t orig \<Longrightarrow> verify_span timed_out m (rs s) = (v, st) \<Longrightarrow>
    relay_step own patient s (set_deliverer j
      (case v of None \<Rightarrow> DVerify m t orig
       | Some True \<Rightarrow> DAct m t ResolveWaiter
       | Some False \<Rightarrow> DAct m t (decide_delivery False orig own)) st s)"
| deliver_act: "deliverers s j = DAct m t decision \<Longrightarrow>
    relay_step own patient s ((set_deliverer j (DDone m t decision (delivery_outcome (push_back sidecars health send own m t) m decision))
      (rs s) s)\<lparr>inbox := (inbox s)(m := None)\<rparr>)"

definition relay_init :: "nat \<Rightarrow> relay_sys" where
  "relay_init seed = \<lparr>rs = with_seq_seed seed, clock = 0, inbox = (\<lambda>_. None), pollers = (\<lambda>_. PIdle), deliverers = (\<lambda>_. DIdle)\<rparr>"

inductive relay_reach :: "string \<Rightarrow> bool \<Rightarrow> nat \<Rightarrow> relay_sys \<Rightarrow> bool" for own patient seed where
  start: "relay_reach own patient seed (relay_init seed)"
| step: "relay_reach own patient seed s \<Longrightarrow> relay_step own patient s s' \<Longrightarrow> relay_reach own patient seed s'"

end
