(* ===== verification/Relay_Inv.thy ===== *)
theory Relay_Inv
  imports Relay_Threads
begin

text \<open>
  The invariant of the interleaved relay server while no buffered reply has expired, and its
  preservation by every step in which no serialization wait is cut short.
\<close>

subsection \<open>The buffered replies as a map\<close>

definition buffered :: "RelayState \<Rightarrow> string \<Rightarrow> string option" where
  "buffered s m = map_option reply_text (map_of (resolved s) m)"

text \<open>No entry has expired at \<open>now\<close>, and the keys are distinct.\<close>

definition fresh_buffer :: "nat \<Rightarrow> RelayState \<Rightarrow> bool" where
  "fresh_buffer now s \<longleftrightarrow> distinct (map fst (resolved s)) \<and> (\<forall>(m, e) \<in> set (resolved s). now < deadline e)"

lemma fresh_lookup: "fresh_buffer now s \<Longrightarrow> map_of (resolved s) m = Some e \<Longrightarrow> now < deadline e"
  by (auto simp: fresh_buffer_def dest: map_of_SomeD)

lemma peek_fresh: "fresh_buffer now s \<Longrightarrow> peek_resolved m now s = (buffered s m, s)"
  using fresh_lookup [of now s m] by (auto simp: peek_resolved_def buffered_def split: option.splits)

lemma sweep_fresh: "fresh_buffer now s \<Longrightarrow> snd (sweep_expired now s) = s"
  by (auto simp: sweep_expired_def fresh_buffer_def Let_def intro!: filter_True)

lemma buffered_buffer_reply [simp]: "buffered (buffer_reply m t d s) = (buffered s)(m \<mapsto> t)"
  by (auto simp: buffered_def buffer_reply_def update_conv' fun_eq_iff)

lemma set_update: "set (AList.update k v xs) \<subseteq> insert (k, v) (set xs)"
  by (induction xs) auto

lemma fresh_buffer_reply: "fresh_buffer now s \<Longrightarrow> now < d \<Longrightarrow> fresh_buffer now (buffer_reply m t d s)"
  using set_update [of m "\<lparr>reply_text = t, deadline = d\<rparr>" "resolved s"]
  by (auto simp: fresh_buffer_def buffer_reply_def distinct_update)

text \<open>Operations that leave the buffer, the waiters, the windows or the acks alone.\<close>

lemma relay_frames [simp]:
  "resolved (register_waiter m s) = resolved s" "resolved (remove_waiter m s) = resolved s"
  "resolved (mark_verify m s) = resolved s" "resolved (offer_ack m b s) = resolved s"
  "resolved (unmark_verify m s) = resolved s"
  "pending (buffer_reply m t d s) = pending s" "pending (mark_verify m s) = pending s"
  "pending (offer_ack m b s) = pending s" "pending (unmark_verify m s) = pending s"
  "pending (register_waiter m s) = insert m (pending s)" "pending (remove_waiter m s) = pending s - {m}"
  "verify_pending (buffer_reply m t d s) = verify_pending s" "verify_pending (register_waiter m s) = verify_pending s"
  "verify_pending (remove_waiter m s) = verify_pending s" "verify_pending (offer_ack m b s) = verify_pending s"
  "verify_pending (mark_verify m s) = insert m (verify_pending s)"
  "verify_pending (unmark_verify m s) = verify_pending s - {m}"
  "acks (buffer_reply m t d s) = acks s" "acks (register_waiter m s) = acks s" "acks (remove_waiter m s) = acks s"
  "acks (mark_verify m s) = acks s" "acks (unmark_verify m s) = (acks s)(m := None)"
  "acks (offer_ack m b s) = (if m \<in> verify_pending s then (acks s)(m \<mapsto> b) else acks s)"
  by (simp_all add: register_waiter_def remove_waiter_def mark_verify_def offer_ack_def unmark_verify_def buffer_reply_def)

lemma origin_frames [simp]:
  "resolved (record_origin m f r s) = resolved s" "pending (record_origin m f r s) = pending s"
  "verify_pending (record_origin m f r s) = verify_pending s" "acks (record_origin m f r s) = acks s"
  by (simp_all add: record_origin_def evict_origin_def Let_def split: list.splits)

lemma message_frames:
  assumes "message_span now txt frm s = Some (m, st)"
  shows "resolved st = resolved s" "pending st = pending s" "verify_pending st = verify_pending s" "acks st = acks s"
  using assms by (auto simp: message_span_def mint_message_id_def Option.bind_eq_Some_conv split: prod.splits)

lemma buffered_cong: "resolved s' = resolved s \<Longrightarrow> buffered s' = buffered s"
  by (simp add: buffered_def fun_eq_iff)

lemma fresh_cong: "resolved s' = resolved s \<Longrightarrow> fresh_buffer now s' = fresh_buffer now s"
  by (simp add: fresh_buffer_def)

subsection \<open>Windows\<close>

text \<open>The window a deliverer has open, with the text it delivers.\<close>

fun window :: "deliverer \<Rightarrow> (string \<times> string) option" where
  "window (DDecide m t w orig) = (if w then Some (m, t) else None)"
| "window (DVerify m t orig) = Some (m, t)"
| "window _ = None"

text \<open>The message and text a poller is about to write or to acknowledge.\<close>

fun serving :: "poller \<Rightarrow> (string \<times> string) option" where
  "serving (PWriting m t) = Some (m, t)"
| "serving (POffer m t w) = Some (m, t)"
| "serving _ = None"

definition served :: "relay_sys \<Rightarrow> string \<Rightarrow> string \<Rightarrow> bool" where
  "served s m t \<longleftrightarrow> (\<exists>i. pollers s i = PDone m (Some t) True)"

text \<open>A poller that offers a positive outcome has written its text.\<close>

definition relay_inv :: "relay_sys \<Rightarrow> bool" where
  "relay_inv s \<longleftrightarrow>
     fresh_buffer (clock s) (rs s)
   \<and> (\<forall>m. m \<in> verify_pending (rs s) \<longleftrightarrow> (\<exists>j t. window (deliverers s j) = Some (m, t)))
   \<and> (\<forall>j k m t t'. window (deliverers s j) = Some (m, t) \<longrightarrow> window (deliverers s k) = Some (m, t') \<longrightarrow> j = k)
   \<and> (\<forall>j m t. window (deliverers s j) = Some (m, t) \<longrightarrow> buffered (rs s) m = Some t)
   \<and> (\<forall>i m t. serving (pollers s i) = Some (m, t) \<longrightarrow> m \<notin> pending (rs s) \<and> buffered (rs s) m \<noteq> None)
   \<and> (\<forall>i j m t t'. serving (pollers s i) = Some (m, t) \<longrightarrow> window (deliverers s j) = Some (m, t') \<longrightarrow> t = t')
   \<and> (\<forall>m b. acks (rs s) m = Some b \<longrightarrow> m \<in> verify_pending (rs s))
   \<and> (\<forall>m j t. acks (rs s) m = Some True \<longrightarrow> window (deliverers s j) = Some (m, t) \<longrightarrow> served s m t)
   \<and> (\<forall>j m t out. deliverers s j = DAct m t ResolveWaiter \<or> deliverers s j = DDone m t ResolveWaiter out \<longrightarrow> served s m t)"

lemma relay_invI:
  assumes "fresh_buffer (clock s) (rs s)"
    and "\<And>m. m \<in> verify_pending (rs s) \<longleftrightarrow> (\<exists>j t. window (deliverers s j) = Some (m, t))"
    and "\<And>j k m t t'. window (deliverers s j) = Some (m, t) \<Longrightarrow> window (deliverers s k) = Some (m, t') \<Longrightarrow> j = k"
    and "\<And>j m t. window (deliverers s j) = Some (m, t) \<Longrightarrow> buffered (rs s) m = Some t"
    and "\<And>i m t. serving (pollers s i) = Some (m, t) \<Longrightarrow> m \<notin> pending (rs s) \<and> buffered (rs s) m \<noteq> None"
    and "\<And>i j m t t'. serving (pollers s i) = Some (m, t) \<Longrightarrow> window (deliverers s j) = Some (m, t') \<Longrightarrow> t = t'"
    and "\<And>m b. acks (rs s) m = Some b \<Longrightarrow> m \<in> verify_pending (rs s)"
    and "\<And>m j t. acks (rs s) m = Some True \<Longrightarrow> window (deliverers s j) = Some (m, t) \<Longrightarrow> served s m t"
    and "\<And>j m t out. deliverers s j = DAct m t ResolveWaiter \<or> deliverers s j = DDone m t ResolveWaiter out \<Longrightarrow> served s m t"
  shows "relay_inv s"
  unfolding relay_inv_def using assms by (intro conjI; blast)

lemma relay_invD:
  assumes "relay_inv s"
  shows "fresh_buffer (clock s) (rs s)"
    and "m \<in> verify_pending (rs s) \<longleftrightarrow> (\<exists>j t. window (deliverers s j) = Some (m, t))"
    and "window (deliverers s j) = Some (m, t) \<Longrightarrow> window (deliverers s k) = Some (m, t') \<Longrightarrow> j = k"
    and "window (deliverers s j) = Some (m, t) \<Longrightarrow> buffered (rs s) m = Some t"
    and "serving (pollers s i) = Some (m, t) \<Longrightarrow> m \<notin> pending (rs s) \<and> buffered (rs s) m \<noteq> None"
    and "serving (pollers s i) = Some (m, t) \<Longrightarrow> window (deliverers s j) = Some (m, t') \<Longrightarrow> t = t'"
    and "acks (rs s) m = Some b \<Longrightarrow> m \<in> verify_pending (rs s)"
    and "acks (rs s) m = Some True \<Longrightarrow> window (deliverers s j) = Some (m, t) \<Longrightarrow> served s m t"
    and "deliverers s j = DAct m t ResolveWaiter \<or> deliverers s j = DDone m t ResolveWaiter out \<Longrightarrow> served s m t"
  by (insert assms, unfold relay_inv_def) (elim conjE, (assumption | erule spec | meson))+

text \<open>A step that changes no thread and none of the parts the invariant reads.\<close>

lemma relay_inv_state:
  assumes "relay_inv s" "fresh_buffer (clock s') (rs s')" "buffered (rs s') = buffered (rs s)"
    "pending (rs s') = pending (rs s)" "verify_pending (rs s') = verify_pending (rs s)" "acks (rs s') = acks (rs s)"
    "pollers s' = pollers s" "deliverers s' = deliverers s"
  shows "relay_inv s'"
  using relay_invD [OF assms(1)] assms(2-8) by (intro relay_invI) (auto simp: served_def)

text \<open>A poller moves: the buffer and the windows stay, a waiter may come or go.\<close>

lemma relay_inv_poller:
  assumes inv: "relay_inv s" and old: "\<And>m t w. pollers s i \<noteq> PDone m t w"
    and st: "resolved st = resolved (rs s)" "verify_pending st = verify_pending (rs s)"
    and new: "\<And>m t. serving pc = Some (m, t) \<Longrightarrow> m \<notin> pending st \<and> buffered (rs s) m = Some t
        \<or> serving (pollers s i) = Some (m, t)"
    and pend: "\<And>m. m \<in> pending st \<Longrightarrow> m \<in> pending (rs s) \<or> buffered (rs s) m = None"
    and ack: "acks st = acks (rs s) \<or> (\<exists>m t w. pollers s i = POffer m t w \<and> pc = PDone m (Some t) w
        \<and> m \<in> verify_pending (rs s) \<and> acks st = (acks (rs s))(m \<mapsto> w))
        \<or> (\<exists>m. m \<in> verify_pending (rs s) \<and> acks st = (acks (rs s))(m \<mapsto> False))"
  shows "relay_inv (set_poller i pc st s)"
proof -
  let ?s = "set_poller i pc st s"
  note D = relay_invD [OF inv]
  have f: "rs ?s = st" "clock ?s = clock s" "deliverers ?s = deliverers s" "pollers ?s = (pollers s)(i := pc)"
    by (simp_all add: set_poller_def)
  have b: "buffered st = buffered (rs s)" using st(1) by (rule buffered_cong)
  have sv: "served s m t \<Longrightarrow> served ?s m t" for m t
    using old unfolding served_def f by (metis fun_upd_other)
  show ?thesis
  proof (rule relay_invI, unfold f b st(2))
    show "fresh_buffer (clock s) st" using D(1) fresh_cong [OF st(1)] by simp
    show "m \<in> verify_pending (rs s) \<longleftrightarrow> (\<exists>j t. window (deliverers s j) = Some (m, t))" for m by (rule D(2))
    show "j = k" if "window (deliverers s j) = Some (m, t)" "window (deliverers s k) = Some (m, t')" for j k m t t'
      using that by (rule D(3))
    show "buffered (rs s) m = Some t" if "window (deliverers s j) = Some (m, t)" for j m t using that by (rule D(4))
    fix i' m t assume "serving (((pollers s)(i := pc)) i') = Some (m, t)"
    then have c: "m \<notin> pending st \<and> buffered (rs s) m = Some t \<or> (\<exists>k. serving (pollers s k) = Some (m, t))"
      using new by (auto split: if_splits)
    then show "m \<notin> pending st \<and> buffered (rs s) m \<noteq> None" using pend D(5) by blast
    show "t = t'" if "window (deliverers s j) = Some (m, t')" for j t'
      using c D(6) D(4) [OF that] that by fastforce
  next
    fix m b assume "acks st m = Some b"
    then show "m \<in> verify_pending (rs s)" using ack D(7) by (auto split: if_splits)
  next
    fix m j t assume a: "acks st m = Some True" and w: "window (deliverers s j) = Some (m, t)"
    show "served ?s m t"
      using ack
    proof (elim disjE exE conjE)
      assume "acks st = acks (rs s)"
      then show ?thesis using D(8) a w sv by simp
    next
      fix m' t' w' assume p: "pollers s i = POffer m' t' w'" "pc = PDone m' (Some t') w'"
        and ak: "acks st = (acks (rs s))(m' \<mapsto> w')"
      show ?thesis
      proof (cases "m = m'")
        case True
        then have "w'" "t' = t" using a ak D(6) [of i m t' j t] p(1) w by auto
        then show ?thesis using True p(2) unfolding served_def f by (intro exI [of _ i]) simp
      next
        case False
        then show ?thesis using D(8) a ak w sv by simp
      qed
    next
      fix m' assume "acks st = (acks (rs s))(m' \<mapsto> False)"
      then show ?thesis using D(8) a w sv by (auto split: if_splits)
    qed
  next
    fix j m t out
    assume "deliverers s j = DAct m t ResolveWaiter \<or> deliverers s j = DDone m t ResolveWaiter out"
    then show "served ?s m t" using D(9) sv by blast
  qed
qed

text \<open>
  A deliverer moves: it opens a window for a message that has none and a waiter, closes its own, or
  keeps what it has.
\<close>

lemma relay_inv_deliverer:
  assumes inv: "relay_inv s" and fr: "fresh_buffer (clock s) st"
    and vp: "\<And>m. m \<in> verify_pending st \<longleftrightarrow>
        (\<exists>t. window pc = Some (m, t)) \<or> (m \<in> verify_pending (rs s) \<and> (\<forall>t. window (deliverers s j) \<noteq> Some (m, t)))"
    and new: "\<And>m t. window pc = Some (m, t) \<Longrightarrow> buffered st m = Some t
        \<and> (window (deliverers s j) = Some (m, t) \<or> m \<notin> verify_pending (rs s) \<and> m \<in> pending (rs s))"
    and buf: "\<And>m. m \<in> verify_pending (rs s) \<Longrightarrow> buffered st m = buffered (rs s) m"
      "\<And>m. buffered (rs s) m \<noteq> None \<Longrightarrow> buffered st m \<noteq> None"
    and pend: "pending st \<subseteq> pending (rs s)"
    and ack: "\<And>m b. acks st m = Some b \<Longrightarrow> acks (rs s) m = Some b \<and> m \<in> verify_pending st"
    and fin: "\<And>m t out. pc = DAct m t ResolveWaiter \<or> pc = DDone m t ResolveWaiter out \<Longrightarrow> served s m t"
  shows "relay_inv (set_deliverer j pc st s)"
proof -
  let ?s = "set_deliverer j pc st s"
  note D = relay_invD [OF inv]
  have f: "rs ?s = st" "clock ?s = clock s" "deliverers ?s = (deliverers s)(j := pc)" "pollers ?s = pollers s"
    by (simp_all add: set_deliverer_def)
  have sv: "served ?s m t = served s m t" for m t by (simp add: served_def f)
  have own: "k = j" if "window (deliverers s k) = Some (m, t)" "window (deliverers s j) = Some (m, t')" for k m t t'
    using that by (rule D(3))
  have other: "m \<in> verify_pending (rs s) \<and> (\<forall>t. window (deliverers s j) \<noteq> Some (m, t))"
    if "window (deliverers s k) = Some (m, t)" "k \<noteq> j" for k m t
    using that D(2) own by blast
  have old_or_new: "window (deliverers s k) = Some (m, t) \<and> k \<noteq> j \<or> window pc = Some (m, t) \<and> k = j"
    if "window (((deliverers s)(j := pc)) k) = Some (m, t)" for k m t
    using that by (auto split: if_splits)
  show ?thesis
  proof (rule relay_invI, unfold f sv)
    show "fresh_buffer (clock s) st" by (rule fr)
  next
    fix m
    show "m \<in> verify_pending st \<longleftrightarrow> (\<exists>k t. window (((deliverers s)(j := pc)) k) = Some (m, t))"
      (is "_ \<longleftrightarrow> ?w")
    proof
      assume "m \<in> verify_pending st"
      then consider t where "window pc = Some (m, t)"
        | k t where "window (deliverers s k) = Some (m, t)" "k \<noteq> j"
        using vp D(2) by blast
      then show ?w by cases (metis fun_upd_same, metis fun_upd_other)
    next
      assume ?w then show "m \<in> verify_pending st" using old_or_new other vp by blast
    qed
  next
    fix k l m t t'
    assume "window (((deliverers s)(j := pc)) k) = Some (m, t)" "window (((deliverers s)(j := pc)) l) = Some (m, t')"
    then show "k = l" using old_or_new [of k m t] old_or_new [of l m t'] other new D(3) by blast
  next
    fix k m t assume "window (((deliverers s)(j := pc)) k) = Some (m, t)"
    then show "buffered st m = Some t" using old_or_new [of k m t] other new D(4) buf(1) by metis
  next
    fix i m t assume sg: "serving (pollers s i) = Some (m, t)"
    then show "m \<notin> pending st \<and> buffered st m \<noteq> None" using D(5) pend buf(2) by blast
    show "t = t'" if "window (((deliverers s)(j := pc)) k) = Some (m, t')" for k t'
      using old_or_new [OF that] new D(5) [OF sg] D(6) [OF sg] by blast
  next
    fix m b assume "acks st m = Some b" then show "m \<in> verify_pending st" using ack by blast
  next
    fix m k t assume a: "acks st m = Some True" "window (((deliverers s)(j := pc)) k) = Some (m, t)"
    then have "m \<in> verify_pending (rs s)" "acks (rs s) m = Some True" using ack D(7) by blast+
    then show "served s m t" using old_or_new [OF a(2)] new D(8) by blast
  next
    fix k m t out
    assume "((deliverers s)(j := pc)) k = DAct m t ResolveWaiter \<or> ((deliverers s)(j := pc)) k = DDone m t ResolveWaiter out"
    then show "served s m t" using fin D(9) by (cases "k = j") auto
  qed
qed

subsection \<open>Every step keeps the invariant\<close>

lemma decide_no_waiter: "decide_delivery False orig own \<noteq> ResolveWaiter"
  by (auto simp: decide_delivery_def split: option.splits)

lemma poll_first_inv:
  assumes inv: "relay_inv s" and pc: "pollers s i = PIdle" and sp: "poll_first_span (clock s) dl m (rs s) = (r, st)"
  shows "relay_inv (set_poller i (poll_next m dl r) st s)"
proof -
  note D = relay_invD [OF inv]
  have "r = (case buffered (rs s) m of Some t \<Rightarrow> Cached t | None \<Rightarrow> if dl \<le> clock s then Timeout408 else Park)"
    "resolved st = resolved (rs s)" "verify_pending st = verify_pending (rs s)" "acks st = acks (rs s)"
    "pending st \<subseteq> pending (rs s) \<union> (if buffered (rs s) m = None then {m} else {})"
    using sp peek_fresh [OF D(1)] by (auto simp: poll_first_span_def Let_def split: option.splits if_splits)
  then show ?thesis
    by (intro relay_inv_poller [OF inv]) (auto simp: pc split: option.splits if_splits)
qed

lemma poll_wake_inv:
  assumes inv: "relay_inv s" and pc: "pollers s i = PParked m dl" and sp: "poll_wake_span (clock s) m (rs s) = (r, st)"
  shows "relay_inv (set_poller i (poll_next m dl r) st s)"
proof -
  note D = relay_invD [OF inv]
  have "case buffered (rs s) m of Some t \<Rightarrow> r = Respond t \<and> st = remove_waiter m (rs s) | None \<Rightarrow> r = Probe \<and> st = rs s"
    using sp peek_fresh [OF D(1)] by (auto simp: poll_wake_span_def split: option.splits)
  then show ?thesis
    by (intro relay_inv_poller [OF inv]) (auto simp: pc split: option.splits)
qed

lemma poll_probed_inv:
  assumes inv: "relay_inv s" and pc: "pollers s i = PProbing m dl"
    and sp: "poll_probed_span (clock s) dl alive m (rs s) = (r, st)"
  shows "relay_inv (set_poller i (poll_next m dl r) st s)"
proof -
  note D = relay_invD [OF inv]
  have c: "case buffered (rs s) m of Some t \<Rightarrow> r = Respond t \<and> st = remove_waiter m (rs s)
      | None \<Rightarrow> serving (poll_next m dl r) = None \<and> resolved st = resolved (rs s) \<and> pending st \<subseteq> pending (rs s)
          \<and> verify_pending st = verify_pending (rs s)
          \<and> (acks st = acks (rs s) \<or> m \<in> verify_pending (rs s) \<and> acks st = (acks (rs s))(m \<mapsto> False))"
    using sp peek_fresh [OF D(1)] by (auto simp: poll_probed_span_def split: option.splits if_splits)
  then show ?thesis
    by (intro relay_inv_poller [OF inv]) (auto simp: pc split: option.splits)
qed

lemma poll_offer_inv:
  assumes inv: "relay_inv s" and pc: "pollers s i = POffer m t w"
  shows "relay_inv (set_poller i (PDone m (Some t) w) (offer_ack m w (rs s)) s)"
  using pc by (intro relay_inv_poller [OF inv]) auto

lemma deliver_buffer_inv:
  assumes inv: "relay_inv s" and pc: "deliverers s j = DWaiting m t" and no: "\<not> verify_open m (rs s)"
    and sp: "deliver_span (clock s) m t (rs s) = (w, orig, st)"
  shows "relay_inv (set_deliverer j (DDecide m t w orig) st s)"
proof -
  note D = relay_invD [OF inv]
  have st: "w = (m \<in> pending (rs s))" "pending st = pending (rs s)" "acks st = acks (rs s)"
    "verify_pending st = (if w then insert m (verify_pending (rs s)) else verify_pending (rs s))"
    "resolved st = resolved (buffer_reply m t (clock s + RESOLVED_TTL) (rs s))"
    using sp by (auto simp: deliver_span_def Let_def has_waiter_def)
  have b: "buffered st = (buffered (rs s))(m \<mapsto> t)" using buffered_cong [OF st(5)] by simp
  have fr: "fresh_buffer (clock s) st"
    using fresh_cong [OF st(5)] fresh_buffer_reply [OF D(1)] by (simp add: RESOLVED_TTL_def)
  show ?thesis
    using no D(7) by (intro relay_inv_deliverer [OF inv fr]) (auto simp: st(1-4) b pc verify_open_def split: if_splits)
qed

lemma deliver_decide_inv:
  assumes inv: "relay_inv s" and pc: "deliverers s j = DDecide m t w in_mem"
    and d: "decision = decide_delivery w orig own"
  shows "relay_inv (set_deliverer j (if decision = ResolveWaiter then DVerify m t orig else DAct m t decision) (rs s) s)"
proof -
  note D = relay_invD [OF inv]
  have "(decision = ResolveWaiter) = w" using d decide_no_waiter by (cases w) (auto simp: decide_delivery_def)
  moreover have "w \<Longrightarrow> m \<in> verify_pending (rs s)" using D(2) [of m] pc by (metis window.simps(1))
  ultimately show ?thesis
    using D(4) [of j m t] D(7)
    by (intro relay_inv_deliverer [OF inv D(1)]) (auto simp: pc split: if_splits)
qed

lemma deliver_verify_inv:
  assumes inv: "relay_inv s" and pc: "deliverers s j = DVerify m t orig" and sp: "verify_span timed_out m (rs s) = (v, st)"
  shows "relay_inv (set_deliverer j (case v of None \<Rightarrow> DVerify m t orig | Some True \<Rightarrow> DAct m t ResolveWaiter
       | Some False \<Rightarrow> DAct m t (decide_delivery False orig own)) st s)"
proof -
  note D = relay_invD [OF inv]
  have v: "v = (case acks (rs s) m of Some b \<Rightarrow> Some b | None \<Rightarrow> if timed_out then Some False else None)"
    using sp by (auto simp: verify_span_def take_ack_def Let_def split: option.splits if_splits)
  have st: "resolved st = resolved (rs s)" "pending st \<subseteq> pending (rs s)"
    "verify_pending st = (if v = None then verify_pending (rs s) else verify_pending (rs s) - {m})"
    "acks st = (acks (rs s))(m := None)"
    using sp by (auto simp: verify_span_def take_ack_def Let_def split: option.splits if_splits prod.splits)
  have w: "window (deliverers s j) = Some (m, t)" by (simp add: pc)
  have fr: "fresh_buffer (clock s) st" using fresh_cong [OF st(1)] D(1) by simp
  have sv: "served s m t" if "v = Some True" using D(8) [of m j t] w v that by (auto split: option.splits if_splits)
  have "m \<in> verify_pending (rs s)" using D(2) w by blast
  then show ?thesis
    using D(4) [OF w] D(7) st(2-4) sv
    by (intro relay_inv_deliverer [OF inv fr])
      (auto simp: pc buffered_cong [OF st(1)] decide_no_waiter [symmetric] decide_no_waiter split: option.splits bool.splits if_splits)
qed

lemma relay_step_inv:
  assumes "relay_step own True s s'" "relay_inv s" "clock s' < RESOLVED_TTL"
    and "\<forall>(m, e) \<in> set (resolved (rs s)). RESOLVED_TTL \<le> deadline e"
  shows "relay_inv s'"
  using assms
proof (cases rule: relay_step.cases)
  case (tick n)
  then show ?thesis
    using assms(2-4) relay_invD(1) [OF assms(2)]
    by (intro relay_inv_state [OF assms(2)]) (fastforce simp: fresh_buffer_def)+
next
  case sweep
  then show ?thesis using assms(2) sweep_fresh [OF relay_invD(1)] by simp
next
  case (message now_ms tx frm m st)
  note f = message_frames [OF message(2)]
  show ?thesis
    using relay_invD(1) [OF assms(2)] fresh_cong [OF f(1)] buffered_cong [OF f(1)] f message(1)
    by (intro relay_inv_state [OF assms(2)]) auto
next
  case (poll_start i dl m r st)
  then show ?thesis using poll_first_inv [OF assms(2)] by blast
next
  case (poll_wake i m dl r st)
  then show ?thesis using poll_wake_inv [OF assms(2)] by blast
next
  case (poll_probed i m dl alive r st)
  then show ?thesis using poll_probed_inv [OF assms(2)] by blast
next
  case (poll_write i m t written)
  then show ?thesis by (auto intro!: relay_inv_poller [OF assms(2)])
next
  case (poll_offer i m t written)
  then show ?thesis using poll_offer_inv [OF assms(2)] by blast
next
  case (deliver_start j m t)
  then show ?thesis using relay_invD(1,2,7) [OF assms(2)] by (auto intro!: relay_inv_deliverer [OF assms(2)])
next
  case (deliver_buffer j m t w orig st)
  then show ?thesis using deliver_buffer_inv [OF assms(2)] by blast
next
  case (deliver_decide j m t w in_mem orig decision)
  then show ?thesis using deliver_decide_inv [OF assms(2)] by blast
next
  case (deliver_verify j m t orig timed_out v st)
  then show ?thesis using deliver_verify_inv [OF assms(2)] by blast
next
  case (deliver_act j m t decision sidecars health send)
  let ?pc = "DDone m t decision (delivery_outcome (push_back sidecars health send own m t) m decision)"
  have "relay_inv (set_deliverer j ?pc (rs s) s)"
    using relay_invD(1,2,7) [OF assms(2)] relay_invD(9) [OF assms(2), of j m t] deliver_act(2) by (auto intro!: relay_inv_deliverer [OF assms(2)])
  then show ?thesis
    unfolding deliver_act(1)
    by (rule relay_inv_state) (use relay_invD(1) [OF assms(2)] in \<open>auto simp: set_deliverer_def\<close>)
qed simp

subsection \<open>Reachable states\<close>

text \<open>Every deadline is at least one lifetime after the start, so nothing expires before that.\<close>

definition late_deadlines :: "RelayState \<Rightarrow> bool" where
  "late_deadlines s \<longleftrightarrow> (\<forall>(m, e) \<in> set (resolved s). RESOLVED_TTL \<le> deadline e)"

lemma late_subset: "late_deadlines s \<Longrightarrow> set (resolved s') \<subseteq> set (resolved s) \<Longrightarrow> late_deadlines s'"
  by (auto simp: late_deadlines_def)

lemma set_delete: "set (AList.delete k xs) \<subseteq> set xs"
  by (auto simp: AList.delete_eq)

lemma peek_late: "late_deadlines s \<Longrightarrow> late_deadlines (snd (peek_resolved m now s))"
  using set_delete [of m "resolved s"] by (auto simp: peek_resolved_def late_deadlines_def split: option.splits)

lemma late_cong: "resolved s' = resolved s \<Longrightarrow> late_deadlines s' = late_deadlines s"
  by (simp add: late_deadlines_def)

lemma late_frames [simp]:
  "late_deadlines (register_waiter m s) = late_deadlines s" "late_deadlines (remove_waiter m s) = late_deadlines s"
  "late_deadlines (mark_verify m s) = late_deadlines s" "late_deadlines (offer_ack m b s) = late_deadlines s"
  by (rule late_cong, simp)+

lemma peek_late': "peek_resolved m now s = (r, st) \<Longrightarrow> late_deadlines s \<Longrightarrow> late_deadlines st"
  using peek_late [of s m now] by simp

lemma spans_late:
  assumes "late_deadlines s"
  shows "poll_first_span now dl m s = (r, st) \<Longrightarrow> late_deadlines st"
    and "poll_wake_span now m s = (r, st) \<Longrightarrow> late_deadlines st"
    and "poll_probed_span now dl alive m s = (r, st) \<Longrightarrow> late_deadlines st"
    and "deliver_span now m t s = (w, orig, st) \<Longrightarrow> late_deadlines st"
    and "verify_span timed_out m s = (v, st) \<Longrightarrow> late_deadlines st"
proof -
  show "poll_first_span now dl m s = (r, st) \<Longrightarrow> late_deadlines st"
    using assms by (auto simp: poll_first_span_def Let_def dest: peek_late' split: prod.splits option.splits if_splits)
  show "poll_wake_span now m s = (r, st) \<Longrightarrow> late_deadlines st"
    using assms by (auto simp: poll_wake_span_def dest: peek_late' split: prod.splits option.splits)
  show "poll_probed_span now dl alive m s = (r, st) \<Longrightarrow> late_deadlines st"
    using assms by (auto simp: poll_probed_span_def dest: peek_late' split: prod.splits option.splits if_splits)
  show "deliver_span now m t s = (w, orig, st) \<Longrightarrow> late_deadlines st"
    using assms set_update [of m "\<lparr>reply_text = t, deadline = now + RESOLVED_TTL\<rparr>" "resolved s"]
    by (auto simp: deliver_span_def Let_def late_deadlines_def buffer_reply_def mark_verify_def split: if_splits)
  show "verify_span timed_out m s = (v, st) \<Longrightarrow> late_deadlines st"
    using assms by (auto simp: verify_span_def take_ack_def Let_def late_deadlines_def unmark_verify_def remove_waiter_def
        split: option.splits if_splits)
qed

lemma relay_step_late: "relay_step own patient s s' \<Longrightarrow> late_deadlines (rs s) \<Longrightarrow> late_deadlines (rs s')"
proof (induction rule: relay_step.induct)
  case (sweep s)
  then show ?case by (auto simp: sweep_expired_def Let_def late_deadlines_def)
next
  case (message now_ms tx frm s m st)
  then show ?case using late_cong [OF message_frames(1) [OF message(1)]] by simp
qed (auto simp: set_poller_def set_deliverer_def dest: spans_late)

lemma relay_step_clock: "relay_step own patient s s' \<Longrightarrow> clock s \<le> clock s'"
  by (induction rule: relay_step.induct) (auto simp: set_poller_def set_deliverer_def)

lemma relay_init_inv: "relay_inv (relay_init seed)"
  by (rule relay_invI) (auto simp: relay_init_def with_seq_seed_def fresh_buffer_def)

lemma relay_reach_inv:
  assumes "relay_reach own True seed s" "clock s < RESOLVED_TTL"
  shows "relay_inv s"
proof -
  from assms have "late_deadlines (rs s) \<and> relay_inv s"
  proof (induction rule: relay_reach.induct)
    case start
    then show ?case by (simp add: relay_init_inv) (simp add: relay_init_def with_seq_seed_def late_deadlines_def)
  next
    case (step s s')
    then have c: "clock s < RESOLVED_TTL" using relay_step_clock [OF step.hyps(2)] by simp
    with step.IH have "late_deadlines (rs s)" "relay_inv s" by blast+
    then show ?case
      using relay_step_inv [OF step.hyps(2) _ step.prems] relay_step_late [OF step.hyps(2)]
      by (auto simp: late_deadlines_def)
  qed
  then show ?thesis by blast
qed

end
