(* ===== verification/Relay_Props.thy ===== *)
theory Relay_Props
  imports Relay_Inv Queues
begin

text \<open>
  The properties of the relay server: what a reply delivery reports, the buffer of replies, the
  origin window, message identifiers and the prevention of reply loops.
\<close>

subsection \<open>Delivery\<close>

text \<open>
  C3. A delivery report is an observation: in every interleaving of any number of repliers and long
  polls, while no reply has expired and no serialization wait is cut short, a replier that is told
  DELIVERED through a waiting sender is right: some long poll for that message wrote exactly this
  replier's text to a live client.
\<close>

theorem delivered_is_truthful:
  assumes "relay_reach own True seed s" "clock s < RESOLVED_TTL" "deliverers s j = DDone m t ResolveWaiter out"
  shows "\<exists>i. pollers s i = PDone m (Some t) True"
  using relay_invD(9) [OF relay_reach_inv [OF assms(1,2)], of j m t out] assms(3) by (simp add: served_def)

text \<open>A run for the witness: one long poll parks, one reply arrives and is served.\<close>

definition run_parked :: relay_sys where
  "run_parked = set_poller 0 (PParked ''m'' 1000) (register_waiter ''m'' (with_seq_seed 0)) (relay_init 0)"

definition run_rs :: RelayState where
  "run_rs = mark_verify ''m'' (buffer_reply ''m'' ''hi'' RESOLVED_TTL (register_waiter ''m'' (with_seq_seed 0)))"

lemma run_acked:
  "\<exists>s orig. relay_reach own True 0 s \<and> clock s = 0 \<and> deliverers s 0 = DVerify ''m'' ''hi'' orig \<and> acks (rs s) ''m'' = Some True"
proof -
  note go = relay_reach.step
  have s0: "relay_reach own True 0 (relay_init 0)" by (rule relay_reach.start)
  have s1: "relay_reach own True 0 run_parked"
  proof (rule go [OF s0])
    show "relay_step own True (relay_init 0) run_parked"
      using relay_step.poll_start [where s = "relay_init 0" and i = 0 and m = "''m''" and dl = 1000 and own = own and patient = True]
      by (simp add: relay_init_def poll_first_span_def peek_resolved_def with_seq_seed_def Let_def run_parked_def)
  qed
  obtain s2 where s2: "relay_reach own True 0 s2" "deliverers s2 0 = DWaiting ''m'' ''hi''" "rs s2 = rs run_parked"
    "clock s2 = 0" "pollers s2 = pollers run_parked"
    by (rule that [OF go [OF s1 relay_step.deliver_start [where j = 0 and m = "''m''" and t = "''hi''"]]])
      (simp_all add: run_parked_def set_poller_def set_deliverer_def relay_init_def)
  have sp: "deliver_span (clock s2) ''m'' ''hi'' (rs s2) = (True, None, run_rs)"
    using s2 by (simp add: deliver_span_def Let_def has_waiter_def run_parked_def set_poller_def origin_for_def run_rs_def
        buffer_reply_def register_waiter_def with_seq_seed_def)
  have nv: "\<not> verify_open ''m'' (rs s2)"
    using s2 by (simp add: verify_open_def run_parked_def set_poller_def with_seq_seed_def)
  obtain s3 where s3: "relay_reach own True 0 s3" "deliverers s3 0 = DDecide ''m'' ''hi'' True None" "rs s3 = run_rs"
    "clock s3 = 0" "pollers s3 0 = PParked ''m'' 1000"
    by (rule that [OF go [OF s2(1) relay_step.deliver_buffer [OF s2(2) nv sp]]])
      (simp_all add: set_deliverer_def s2 run_parked_def set_poller_def)
  obtain s4 where s4: "relay_reach own True 0 s4" "deliverers s4 0 = DVerify ''m'' ''hi'' (reply_origin None (inbox s3 ''m''))"
    "rs s4 = run_rs" "clock s4 = 0" "pollers s4 0 = PParked ''m'' 1000"
    by (rule that [OF go [OF s3(1) relay_step.deliver_decide [OF s3(2) refl refl]]])
      (simp_all add: set_deliverer_def s3 decide_delivery_def)
  have wk: "poll_wake_span (clock s4) ''m'' (rs s4) = (Respond ''hi'', remove_waiter ''m'' run_rs)"
    by (simp add: s4 poll_wake_span_def peek_resolved_def run_rs_def buffer_reply_def with_seq_seed_def RESOLVED_TTL_def
        update_conv' mark_verify_def register_waiter_def)
  obtain s5 where s5: "relay_reach own True 0 s5" "deliverers s5 0 = deliverers s4 0" "rs s5 = remove_waiter ''m'' run_rs"
    "clock s5 = 0" "pollers s5 0 = PWriting ''m'' ''hi''"
    by (rule that [OF go [OF s4(1) relay_step.poll_wake [OF s4(5) wk]]]) (simp_all add: set_poller_def s4)
  obtain s6 where s6: "relay_reach own True 0 s6" "deliverers s6 0 = deliverers s4 0" "rs s6 = remove_waiter ''m'' run_rs"
    "clock s6 = 0" "pollers s6 0 = POffer ''m'' ''hi'' True"
    by (rule that [OF go [OF s5(1) relay_step.poll_write [OF s5(5), where written = True]]]) (simp_all add: set_poller_def s5)
  obtain s7 where s7: "relay_reach own True 0 s7" "deliverers s7 0 = deliverers s4 0"
    "rs s7 = offer_ack ''m'' True (remove_waiter ''m'' run_rs)" "clock s7 = 0"
    by (rule that [OF go [OF s6(1) relay_step.poll_offer [OF s6(5)]]]) (simp_all add: set_poller_def s6)
  have dv: "deliverers s7 0 = DVerify ''m'' ''hi'' (reply_origin None (inbox s3 ''m''))" using s7 s4 by simp
  have ak: "acks (rs s7) ''m'' = Some True" using s7 by (simp add: run_rs_def)
  show ?thesis using s7(1,4) dv ak by blast
qed

lemma run_reach:
  "\<exists>s out. relay_reach own True 0 s \<and> clock s = 0 \<and> deliverers s 0 = DDone ''m'' ''hi'' ResolveWaiter out"
proof -
  note go = relay_reach.step
  obtain s7 orig where s7: "relay_reach own True 0 s7" "clock s7 = 0" and dv: "deliverers s7 0 = DVerify ''m'' ''hi'' orig"
    and ak: "acks (rs s7) ''m'' = Some True" using run_acked by blast
  obtain st where vs: "verify_span False ''m'' (rs s7) = (Some True, st)"
    using ak by (simp add: verify_span_def take_ack_def Let_def)
  obtain s8 where s8: "relay_reach own True 0 s8" "deliverers s8 0 = DAct ''m'' ''hi'' ResolveWaiter" "clock s8 = 0"
    by (rule that [OF go [OF s7(1) relay_step.deliver_verify [OF dv vs]]]) (simp_all add: set_deliverer_def s7)
  obtain s9 out where "relay_reach own True 0 s9" "deliverers s9 0 = DDone ''m'' ''hi'' ResolveWaiter out" "clock s9 = 0"
    by (rule that [OF go [OF s8(1) relay_step.deliver_act [OF s8(2)]]]) (simp_all add: set_deliverer_def s8)
  then show ?thesis by blast
qed

theorem delivered_is_truthful_witness:
  "\<exists>s i. relay_reach ''me'' True 0 s \<and> pollers s i = PDone ''m'' (Some ''hi'') True"
proof -
  obtain s out where s: "relay_reach ''me'' True 0 s" "clock s = 0" "deliverers s 0 = DDone ''m'' ''hi'' ResolveWaiter out"
    using run_reach by blast
  from delivered_is_truthful [OF s(1) _ s(3)] s show ?thesis by (auto simp: RESOLVED_TTL_def)
qed

definition acks_ok :: "RelayState \<Rightarrow> bool" where
  "acks_ok s \<longleftrightarrow> (\<forall>m b. acks s m = Some b \<longrightarrow> m \<in> verify_pending s)"

lemma peek_acks:
  "peek_resolved m now s = (r, st) \<Longrightarrow> acks st = acks s \<and> verify_pending st = verify_pending s"
  by (auto simp: peek_resolved_def split: option.splits if_splits)

lemma spans_acks:
  assumes "acks_ok s"
  shows "poll_first_span now dl m s = (r, st) \<Longrightarrow> acks_ok st"
    and "poll_wake_span now m s = (r, st) \<Longrightarrow> acks_ok st"
    and "poll_probed_span now dl alive m s = (r, st) \<Longrightarrow> acks_ok st"
    and "deliver_span now m t s = (w, orig, st) \<Longrightarrow> acks_ok st"
    and "verify_span timed_out m s = (v, st) \<Longrightarrow> acks_ok st"
proof -
  show "poll_first_span now dl m s = (r, st) \<Longrightarrow> acks_ok st"
    using assms by (auto simp: acks_ok_def poll_first_span_def Let_def dest!: peek_acks split: prod.splits option.splits if_splits)
  show "poll_wake_span now m s = (r, st) \<Longrightarrow> acks_ok st"
    using assms by (auto simp: acks_ok_def poll_wake_span_def dest!: peek_acks split: prod.splits option.splits)
  show "poll_probed_span now dl alive m s = (r, st) \<Longrightarrow> acks_ok st"
    using assms by (auto simp: acks_ok_def poll_probed_span_def dest!: peek_acks split: prod.splits option.splits if_splits)
  show "deliver_span now m t s = (w, orig, st) \<Longrightarrow> acks_ok st"
    using assms by (auto simp: acks_ok_def deliver_span_def Let_def split: if_splits)
  show "verify_span timed_out m s = (v, st) \<Longrightarrow> acks_ok st"
    using assms by (auto simp: acks_ok_def verify_span_def take_ack_def Let_def split: option.splits if_splits)
qed

text \<open>
  No acknowledgement outlives its window, in any interleaving, expiry and cut-short waits
  included: an entry of \<open>acks\<close> exists only for a message with an open verify window.
\<close>

theorem acks_never_orphaned:
  assumes "relay_reach own patient seed s" "acks (rs s) m = Some b"
  shows "m \<in> verify_pending (rs s)"
proof -
  have "acks_ok (rs s)"
    using assms(1)
  proof (induction rule: relay_reach.induct)
    case start
    then show ?case by (simp add: relay_init_def with_seq_seed_def acks_ok_def)
  next
    case (step s s')
    from step.hyps(2) step.IH show ?case
    proof (induction rule: relay_step.induct)
      case (sweep s)
      then show ?case by (simp add: sweep_expired_def Let_def acks_ok_def)
    next
      case (message now_ms tx frm s m st)
      then show ?case using message_frames [OF message(1)] by (simp add: acks_ok_def)
    next
      case (poll_offer s i m t written)
      then show ?case by (auto simp: set_poller_def acks_ok_def)
    qed (auto simp: set_poller_def set_deliverer_def dest: spans_acks)
  qed
  then show ?thesis using assms(2) by (simp add: acks_ok_def)
qed

theorem acks_never_orphaned_witness:
  "\<exists>s. relay_reach ''me'' True 0 s \<and> acks (rs s) ''m'' = Some True \<and> ''m'' \<in> verify_pending (rs s)"
proof -
  obtain s where "relay_reach ''me'' True 0 s" "acks (rs s) ''m'' = Some True" using run_acked by blast
  then show ?thesis using acks_never_orphaned by blast
qed

text \<open>
  The negative acknowledgement of a poll whose client hung up is dropped, as its comment says:
  when the poll finds no buffered reply no verify window is open for its message.
\<close>

theorem hangup_nack_dropped:
  assumes "relay_reach own True seed s" "clock s < RESOLVED_TTL" "fst (peek_resolved m (clock s) (rs s)) = None"
  shows "offer_ack m False (remove_waiter m (rs s)) = remove_waiter m (rs s)"
proof -
  note D = relay_invD [OF relay_reach_inv [OF assms(1,2)]]
  have "buffered (rs s) m = None" using peek_fresh [OF D(1)] assms(3) by simp
  then have "m \<notin> verify_pending (rs s)" using D(2) D(4) by force
  then show ?thesis by (simp add: offer_ack_def remove_waiter_def)
qed

theorem hangup_nack_dropped_witness:
  "offer_ack ''m'' False (remove_waiter ''m'' (rs (relay_init 0))) = remove_waiter ''m'' (rs (relay_init 0))"
  by (rule hangup_nack_dropped [OF relay_reach.start])
    (simp_all add: relay_init_def with_seq_seed_def RESOLVED_TTL_def peek_resolved_def)

subsection \<open>The reply buffer\<close>

lemma map_of_filter_distinct:
  "distinct (map fst xs) \<Longrightarrow> map_of (filter (\<lambda>(k, v). P v) xs) m = (case map_of xs m of Some v \<Rightarrow> if P v then Some v else None | None \<Rightarrow> None)"
  by (induction xs) (auto simp: map_of_eq_None_iff split: option.splits)

text \<open>
  The lazy and the proactive eviction agree: what a peek returns is what is left for that
  message when everything expired is swept, a peek of a live reply changes nothing, and a reply
  buffered at \<open>t0\<close> can be read any number of times for exactly \<open>RESOLVED_TTL\<close>.
\<close>

theorem peek_agrees_with_sweep:
  assumes "distinct (map fst (resolved s))"
  shows "fst (peek_resolved m now s) = map_option reply_text (map_of (resolved (snd (sweep_expired now s))) m)
    \<and> (fst (peek_resolved m now s) \<noteq> None \<longrightarrow> snd (peek_resolved m now s) = s)
    \<and> fst (peek_resolved m now (buffer_reply m t (t0 + RESOLVED_TTL) s)) = (if now < t0 + RESOLVED_TTL then Some t else None)"
proof -
  have "map_of (resolved (snd (sweep_expired now s))) m
      = (case map_of (resolved s) m of Some e \<Rightarrow> if now < deadline e then Some e else None | None \<Rightarrow> None)"
    using map_of_filter_distinct [OF assms, of "\<lambda>e. now < deadline e"] by (simp add: sweep_expired_def Let_def)
  then show ?thesis
    by (auto simp: peek_resolved_def buffer_reply_def update_conv' split: option.splits)
qed

theorem peek_agrees_with_sweep_witness:
  "fst (peek_resolved ''m'' 7 (buffer_reply ''m'' ''hi'' (5 + RESOLVED_TTL) (with_seq_seed 0))) = Some ''hi''"
  using peek_agrees_with_sweep [of "with_seq_seed 0" "''m''" 7 "''hi''" 5] by (simp add: with_seq_seed_def RESOLVED_TTL_def)

subsection \<open>Routing\<close>

text \<open>
  A reply is pushed back to a session only if nobody waits for it, the origin is known, the
  message was not itself a pushed-back reply, and the origin is neither a placeholder nor this
  session; and in exactly those cases.
\<close>

theorem push_back_exactly_when_addressable:
  "decide_delivery waiter_present origin own = PushBack target \<longleftrightarrow>
     \<not> waiter_present \<and> (\<exists>rec. origin = Some rec \<and> \<not> is_reply rec \<and> from_sess rec = target)
     \<and> target \<noteq> ''unknown'' \<and> target \<noteq> ''cli'' \<and> target \<noteq> own"
  by (auto simp: decide_delivery_def split: option.splits)

text \<open>
  Replies do not ping-pong: when the text that a push-back posts arrives at the other relay
  server, a reply to it there is never pushed back, whatever else happens to that server's origin
  record as long as it is still tracked, and also when it has to be recovered from the inbox file.
\<close>

theorem no_reply_loop:
  assumes "message_span now (REPLY_PREFIX @ m @ '']'' @ rest) frm s = Some (i, s')"
    and "origin_for i s'' = origin_for i s' \<or> origin_for i s'' = None"
    and "file = Some (Some frm, Some (REPLY_PREFIX @ m @ '']'' @ rest))"
  shows "decide_delivery False (reply_origin (origin_for i s'') file) own = LoopPrevented"
proof -
  have r: "is_reply_text (REPLY_PREFIX @ m @ '']'' @ rest)" by (simp add: is_reply_text_def)
  have "origin_for i s' = Some \<lparr>from_sess = frm, is_reply = True\<rparr>"
    using assms(1) r
    by (auto simp: message_span_def mint_message_id_def Option.bind_eq_Some_conv origin_for_def record_origin_def Let_def
        update_conv' split: prod.splits)
  with assms(2) show ?thesis
    using r by (auto simp: reply_origin_def decide_delivery_def assms(3) origin_from_inbox_def)
qed

theorem no_reply_loop_witness:
  "\<exists>i s'. message_span 5 (REPLY_PREFIX @ ''x'' @ '']'' @ '' hi'') ''peer'' (with_seq_seed 0) = Some (i, s')
     \<and> decide_delivery False (reply_origin (origin_for i s') (Some (Some ''peer'', Some (REPLY_PREFIX @ ''x'' @ '']'' @ '' hi'')))) ''me''
       = LoopPrevented"
proof -
  obtain i s' where e: "message_span 5 (REPLY_PREFIX @ ''x'' @ '']'' @ '' hi'') ''peer'' (with_seq_seed 0) = Some (i, s')"
    by (simp add: message_span_def mint_message_id_def checked_add64_def with_seq_seed_def)
  from no_reply_loop [OF e, of s'] e show ?thesis by blast
qed

subsection \<open>The origin window\<close>

definition origins_ok :: "RelayState \<Rightarrow> bool" where
  "origins_ok s \<longleftrightarrow> map fst (origins s) = origins_order s \<and> distinct (origins_order s) \<and> length (origins s) \<le> MAX_TRACKED_ORIGINS"

lemma update_fresh: "map_of xs k = None \<Longrightarrow> AList.update k v xs = xs @ [(k, v)]"
  by (induction xs) (auto split: if_splits)

lemma delete_head: "distinct (map fst (x # xs)) \<Longrightarrow> AList.delete (fst x) (x # xs) = xs"
  by (force simp: AList.delete_eq intro!: filter_True)

lemma evict_origin_ok:
  assumes "origins_ok s"
  shows "origins (evict_origin s) = drop (length (origins s) + 1 - MAX_TRACKED_ORIGINS) (origins s)
    \<and> origins_order (evict_origin s) = drop (length (origins s) + 1 - MAX_TRACKED_ORIGINS) (origins_order s)"
proof (cases "length (origins s) < MAX_TRACKED_ORIGINS")
  case True
  then show ?thesis by (simp add: evict_origin_def)
next
  case False
  then have full: "length (origins s) = MAX_TRACKED_ORIGINS" using assms by (simp add: origins_ok_def)
  then obtain x xs where x: "origins s = x # xs" by (cases "origins s") (auto simp: MAX_TRACKED_ORIGINS_def)
  then have "origins_order s = fst x # map fst xs" "distinct (map fst (x # xs))" using assms by (auto simp: origins_ok_def)
  then show ?thesis using full x delete_head [of x xs] by (simp add: evict_origin_def)
qed

lemma record_origin_fresh:
  assumes "origins_ok s" "map_of (origins s) m = None"
  shows "origins (record_origin m f r s)
      = drop (length (origins s) + 1 - MAX_TRACKED_ORIGINS) (origins s @ [(m, \<lparr>from_sess = f, is_reply = r\<rparr>)])"
    and "origins_order (record_origin m f r s) = map fst (origins (record_origin m f r s))"
proof -
  note e = evict_origin_ok [OF assms(1)]
  have sub: "fst ` set (origins (evict_origin s)) \<subseteq> fst ` set (origins s)" using e by (auto dest: in_set_dropD)
  then have "map_of (origins (evict_origin s)) m = None" using assms(2) by (auto simp: map_of_eq_None_iff)
  then have "record_origin m f r s = (evict_origin s)\<lparr>origins := origins (evict_origin s) @ [(m, \<lparr>from_sess = f, is_reply = r\<rparr>)],
      origins_order := origins_order (evict_origin s) @ [m]\<rparr>"
    using assms(2) by (simp add: record_origin_def Let_def update_fresh)
  moreover have "length (origins s) + 1 - MAX_TRACKED_ORIGINS \<le> length (origins s)"
    using assms(1) by (simp add: origins_ok_def MAX_TRACKED_ORIGINS_def)
  ultimately show "origins (record_origin m f r s)
      = drop (length (origins s) + 1 - MAX_TRACKED_ORIGINS) (origins s @ [(m, \<lparr>from_sess = f, is_reply = r\<rparr>)])"
    and "origins_order (record_origin m f r s) = map fst (origins (record_origin m f r s))"
    using e assms(1) by (simp_all add: origins_ok_def drop_map [symmetric])
qed

lemma record_origin_ok: "origins_ok s \<Longrightarrow> origins_ok (record_origin m f r s)"
proof (cases "map_of (origins s) m")
  case None
  assume ok: "origins_ok s"
  have d: "distinct (map fst (origins s @ [(m, \<lparr>from_sess = f, is_reply = r\<rparr>)]))"
    using ok None by (simp add: origins_ok_def map_of_eq_None_iff flip: set_map)
  have "distinct (map fst (origins (record_origin m f r s)))"
    unfolding record_origin_fresh(1) [OF ok None] drop_map [symmetric] using d by (rule distinct_drop)
  then show ?thesis
    using record_origin_fresh [OF ok None, of f r] ok by (simp add: origins_ok_def MAX_TRACKED_ORIGINS_def)
next
  case (Some rec)
  assume ok: "origins_ok s"
  have "map fst (AList.update m rec' (origins s)) = map fst (origins s)" for rec'
    using Some by (force simp: update_keys dest: map_of_SomeD)
  then show ?thesis using ok Some by (simp add: record_origin_def Let_def origins_ok_def) (metis length_map)
qed

interpretation origin_window: keyed_window MAX_TRACKED_ORIGINS origins_ok origins
  "\<lambda>(m, rec). record_origin m (from_sess rec) (is_reply rec)"
proof
  show "0 < MAX_TRACKED_ORIGINS" by (simp add: MAX_TRACKED_ORIGINS_def)
  fix s and x :: "string \<times> OriginRec" assume ok: "origins_ok s"
  show "origins_ok ((case x of (m, rec) \<Rightarrow> record_origin m (from_sess rec) (is_reply rec)) s)"
    using record_origin_ok [OF ok] by (simp split: prod.split)
  show "length (origins s) \<le> MAX_TRACKED_ORIGINS \<and> distinct (map fst (origins s))" using ok by (simp add: origins_ok_def)
  assume "fst x \<notin> fst ` set (origins s)"
  then have "map_of (origins s) (fst x) = None" by (simp add: map_of_eq_None_iff)
  from record_origin_fresh(1) [OF ok this]
  show "origins ((case x of (m, rec) \<Rightarrow> record_origin m (from_sess rec) (is_reply rec)) s)
      = drop (length (origins s) + 1 - MAX_TRACKED_ORIGINS) (origins s @ [x])"
    by (cases x; cases "snd x") (auto simp: MAX_TRACKED_ORIGINS_def)
qed

text \<open>
  The origin map is a window on the last 2000 messages: after recording any messages with
  distinct identifiers, exactly the origins of the last 2000 can be looked up, in any number the
  map never exceeds 2000, and the eviction order is the order of arrival.
\<close>

theorem origins_are_last_2000:
  assumes "distinct (map fst xs)"
  shows "origin_for m (fold (\<lambda>(m, rec). record_origin m (from_sess rec) (is_reply rec)) xs (with_seq_seed seed))
       = map_of (drop (length xs - 2000) xs) m
    \<and> origins_order (fold (\<lambda>(m, rec). record_origin m (from_sess rec) (is_reply rec)) xs (with_seq_seed seed))
       = map fst (drop (length xs - 2000) xs)"
proof -
  let ?s = "fold (\<lambda>(m, rec). record_origin m (from_sess rec) (is_reply rec)) xs (with_seq_seed seed)"
  have ok: "origins_ok (with_seq_seed seed)" by (simp add: origins_ok_def with_seq_seed_def)
  have "origins ?s = drop (length xs - 2000) xs"
    using origin_window.fold_keyed [OF ok, of xs] assms by (simp add: with_seq_seed_def MAX_TRACKED_ORIGINS_def)
  moreover have "origins_ok ?s" using origin_window.fold_ok [OF ok] .
  ultimately show ?thesis by (simp add: origin_for_def origins_ok_def)
qed

theorem origins_are_last_2000_witness:
  "origin_for ''b'' (fold (\<lambda>(m, rec). record_origin m (from_sess rec) (is_reply rec))
      [(''a'', \<lparr>from_sess = ''s1'', is_reply = False\<rparr>), (''b'', \<lparr>from_sess = ''s2'', is_reply = True\<rparr>)] (with_seq_seed 0))
     = Some \<lparr>from_sess = ''s2'', is_reply = True\<rparr>"
  using origins_are_last_2000 [of "[(''a'', \<lparr>from_sess = ''s1'', is_reply = False\<rparr>), (''b'', \<lparr>from_sess = ''s2'', is_reply = True\<rparr>)]" "''b''" 0]
  by simp

subsection \<open>Message identifiers\<close>

lemma decimal_digits: "list_all (\<lambda>c. c \<noteq> CHR ''-'') (decimal n)"
proof (induction n rule: decimal.induct)
  case (1 n)
  have d: "digit_char k \<noteq> CHR ''-''" if "k < 10" for k
  proof
    assume "digit_char k = CHR ''-''"
    then have "of_char (digit_char k) = (45 :: nat)" by simp
    then show False using that by (simp add: digit_char_def)
  qed
  show ?case using 1 d by (subst decimal.simps) simp
qed

lemma digit_char_inj: "a < 10 \<Longrightarrow> b < 10 \<Longrightarrow> digit_char a = digit_char b \<Longrightarrow> a = b"
proof -
  assume ab: "a < 10" "b < 10" "digit_char a = digit_char b"
  then have "of_char (digit_char a) = (of_char (digit_char b) :: nat)" by simp
  with ab show "a = b" by (simp add: digit_char_def)
qed

lemma decimal_nonempty: "decimal n \<noteq> []"
  by (subst decimal.simps) simp

lemma decimal_inj: "decimal a = decimal b \<Longrightarrow> a = b"
proof (induction a arbitrary: b rule: decimal.induct)
  case (1 a)
  show ?case
  proof (cases "a < 10")
    case True
    then have "b < 10" using 1(2) decimal_nonempty [of "b div 10"] by (auto simp: decimal.simps [of a] decimal.simps [of b] split: if_splits)
    then show ?thesis using 1(2) True digit_char_inj by (simp add: decimal.simps [of a] decimal.simps [of b])
  next
    case False
    then have b: "\<not> b < 10" using 1(2) decimal_nonempty [of "a div 10"] by (auto simp: decimal.simps [of a] decimal.simps [of b] split: if_splits)
    then have "decimal (a div 10) = decimal (b div 10)" "digit_char (a mod 10) = digit_char (b mod 10)"
      using 1(2) False by (simp_all add: decimal.simps [of a] decimal.simps [of b])
    then have "a div 10 = b div 10" "a mod 10 = b mod 10" using 1(1) [OF False] digit_char_inj by auto
    then show ?thesis by (metis div_mult_mod_eq)
  qed
qed

lemma split_at_dash:
  "\<lbrakk>xs @ CHR ''-'' # ys = xs' @ CHR ''-'' # ys'; list_all (\<lambda>c. c \<noteq> CHR ''-'') xs; list_all (\<lambda>c. c \<noteq> CHR ''-'') xs'\<rbrakk>
     \<Longrightarrow> xs = xs' \<and> ys = ys'"
proof (induction xs arbitrary: xs')
  case Nil
  then show ?case by (cases xs') auto
next
  case (Cons x xs)
  then show ?case by (cases xs') auto
qed

text \<open>
  Message identifiers are unique: two mints of one process never give the same identifier,
  whatever the clock does between them, and identifiers of two processes agree only if clock and
  sequence number do.
\<close>

theorem message_ids_unique:
  assumes "mint_message_id now s = Some (i, s')" "mint_message_id now' r = Some (i', r')"
  shows "i = i' \<longleftrightarrow> now = now' \<and> seq s = seq r"
proof -
  have ids: "i = ''relay-'' @ decimal now @ ''-'' @ decimal (seq s + 1)" "i' = ''relay-'' @ decimal now' @ ''-'' @ decimal (seq r + 1)"
    using assms by (auto simp: mint_message_id_def Option.bind_eq_Some_conv dest!: checked_add64_SomeD)
  then have "i = i' \<longleftrightarrow> decimal now = decimal now' \<and> decimal (seq s + 1) = decimal (seq r + 1)"
    using split_at_dash [OF _ decimal_digits decimal_digits] by auto
  then show ?thesis using decimal_inj [of now now'] decimal_inj [of "seq s + 1" "seq r + 1"] by auto
qed

theorem message_ids_unique_witness:
  "\<exists>i i' s'. mint_message_id 5 (with_seq_seed 0) = Some (i, s') \<and> mint_message_id 5 (with_seq_seed 1) = Some (i', with_seq_seed 2) \<and> i \<noteq> i'"
proof -
  have m: "mint_message_id 5 (with_seq_seed 0) = Some (''relay-'' @ decimal 5 @ ''-'' @ decimal 1, with_seq_seed 1)"
    "mint_message_id 5 (with_seq_seed 1) = Some (''relay-'' @ decimal 5 @ ''-'' @ decimal 2, with_seq_seed 2)"
    by (simp_all add: mint_message_id_def checked_add64_def with_seq_seed_def) (simp add: numeral_2_eq_2)
  from message_ids_unique [OF m] m show ?thesis by (auto simp: with_seq_seed_def)
qed

subsection \<open>Push-back\<close>

lemma try_candidates_find:
  "try_candidates health send own origin pushed cs =
     (case List.find (\<lambda>(port, _). health port = Some origin \<and> send port pushed own \<noteq> None) cs of
        None \<Rightarrow> None
      | Some (port, _) \<Rightarrow> Some (''posted to session '' @ origin @ '' (port '' @ decimal port @ '') as new message '' @ the (send port pushed own)))"
  by (induction health send own origin pushed cs rule: try_candidates.induct) (auto split: option.splits)

lemma insert_newest_set: "set (insert_newest c ds) = insert c (set ds)"
  by (induction c ds rule: insert_newest.induct) auto

lemma foldr_insert_newest_set: "set (foldr insert_newest cs ds) = set cs \<union> set ds"
  by (induction cs) (auto simp: insert_newest_set)

text \<open>
  Push-back reports success exactly when some candidate both answered its health check as the
  origin session and accepted the message; it reports the first such candidate, so a reused port of
  another session never receives the reply.
\<close>

theorem push_back_verified:
  assumes "push_back sidecars health send own m t origin = Some detail"
  shows "\<exists>sc new_id. sc \<in> set sidecars \<and> sc_session sc = origin \<and> health (sc_port sc) = Some origin
    \<and> send (sc_port sc) (REPLY_PREFIX @ m @ ''] '' @ t) own = Some new_id
    \<and> detail = ''posted to session '' @ origin @ '' (port '' @ decimal (sc_port sc) @ '') as new message '' @ new_id"
proof -
  let ?ok = "\<lambda>(port, _ :: string). health port = Some origin \<and> send port (REPLY_PREFIX @ m @ ''] '' @ t) own \<noteq> None"
  obtain port st where f: "List.find ?ok (pushback_candidates sidecars origin) = Some (port, st)"
    and d: "detail = ''posted to session '' @ origin @ '' (port '' @ decimal port @ '') as new message ''
      @ the (send port (REPLY_PREFIX @ m @ ''] '' @ t) own)"
    using assms by (auto simp: push_back_def try_candidates_find split: option.splits)
  have "(port, st) \<in> set (pushback_candidates sidecars origin)" "?ok (port, st)"
    using f unfolding find_Some_iff by (metis nth_mem)+
  moreover from this(1) obtain sc where "sc \<in> set sidecars" "sc_session sc = origin" "sc_port sc = port"
    by (auto simp: pushback_candidates_def foldr_insert_newest_set dest!: in_set_takeD)
  ultimately show ?thesis using d by auto
qed

theorem push_back_verified_witness:
  "push_back [\<lparr>sc_session = ''a'', sc_port = 7, sc_started_at = ''t1''\<rparr>] (\<lambda>_. Some ''a'') (\<lambda>_ _ _. Some ''n'') ''me'' ''m'' ''hi'' ''a'' \<noteq> None
   \<and> (\<exists>sc new_id. sc \<in> set [\<lparr>sc_session = ''a'', sc_port = 7, sc_started_at = ''t1''\<rparr>] \<and> sc_session sc = ''a'')"
proof -
  obtain detail where d: "push_back [\<lparr>sc_session = ''a'', sc_port = 7, sc_started_at = ''t1''\<rparr>] (\<lambda>_. Some ''a'') (\<lambda>_ _ _. Some ''n'')
      ''me'' ''m'' ''hi'' ''a'' = Some detail"
    by (simp add: push_back_def pushback_candidates_def PUSHBACK_CANDIDATE_CAP_def)
  from push_back_verified [OF d] d show ?thesis by blast
qed

end
