(* ===== verification/Dispositions.thy ===== *)
theory Dispositions
  imports Prelude "HOL-Library.AList"
begin

text \<open>
  The disposition ledger's pure half (\<open>crates/quorum-dispositions\<close>): the event and envelope rows with
  their hand-written and derived serde implementations (\<open>record.rs\<close>), the torn-tail tolerant JSONL
  reader (\<open>parse.rs\<close>) and the projection of events to summaries (\<open>project.rs\<close>). The JSON library is a
  pair of parameters: \<open>json_print\<close> writes the members of an object as one line and \<open>json_of\<close> reads a
  line as the members of an object, in text order and with duplicates; \<open>json_ok\<close> is what the ledger
  relies on. A file is a list of bytes.
\<close>

subsection \<open>Rows\<close>

text \<open>
  Values as the rows tell them apart: \<open>JUnit s\<close> is the object whose one member is \<open>s\<close> with the value
  \<open>null\<close>, and \<open>JOther\<close> any other object, an array, or a number that is not an integer.
\<close>

datatype jval = JNull | JBool bool | JInt int | JStr string | JUnit string | JOther

type_synonym members = "(string \<times> jval) list"

record Envelope =
  env_v :: nat
  env_correlation_id :: string
  env_authored_at :: int
  env_expires_at :: int
  env_target :: string
  env_origin :: string
  env_sender :: "string option"
  env_body :: string

datatype EventKind = KAttempted | KQueued | KDelivered | KDeliveryFailed | KRefused

datatype DispositionEvent =
    Attempted string int
  | Queued string int
  | Delivered string int string
  | DeliveryFailed string int string
  | Refused string int string

datatype SummaryState = Pending | SDelivered | Failed | Expired

record SummaryRecord =
  sum_v :: nat
  sum_correlation_id :: string
  sum_state :: SummaryState
  sum_attempts :: nat
  sum_last_event :: "EventKind option"
  sum_last_attempt_at :: "int option"
  sum_first_delivered_at :: "int option"
  sum_expires_at :: "int option"
  sum_authored_at :: "int option"
  sum_origin :: "string option"

fun kind :: "DispositionEvent \<Rightarrow> EventKind" where
  "kind (Attempted _ _) = KAttempted"
| "kind (Queued _ _) = KQueued"
| "kind (Delivered _ _ _) = KDelivered"
| "kind (DeliveryFailed _ _ _) = KDeliveryFailed"
| "kind (Refused _ _ _) = KRefused"

fun correlation_id :: "DispositionEvent \<Rightarrow> string" where
  "correlation_id (Attempted i _) = i"
| "correlation_id (Queued i _) = i"
| "correlation_id (Delivered i _ _) = i"
| "correlation_id (DeliveryFailed i _ _) = i"
| "correlation_id (Refused i _ _) = i"

fun created_at :: "DispositionEvent \<Rightarrow> int" where
  "created_at (Attempted _ t) = t"
| "created_at (Queued _ t) = t"
| "created_at (Delivered _ t _) = t"
| "created_at (DeliveryFailed _ t _) = t"
| "created_at (Refused _ t _) = t"

fun body_digest_of :: "DispositionEvent \<Rightarrow> string option" where
  "body_digest_of (Delivered _ _ d) = Some d"
| "body_digest_of _ = None"

subsection \<open>Serialization\<close>

fun kind_str :: "EventKind \<Rightarrow> string" where
  "kind_str KAttempted = ''attempted''"
| "kind_str KQueued = ''queued''"
| "kind_str KDelivered = ''delivered''"
| "kind_str KDeliveryFailed = ''delivery-failed''"
| "kind_str KRefused = ''refused''"

definition kind_of_str :: "string \<Rightarrow> EventKind option" where
  "kind_of_str s =
     (if s = ''attempted'' then Some KAttempted else if s = ''queued'' then Some KQueued
      else if s = ''delivered'' then Some KDelivered else if s = ''delivery-failed'' then Some KDeliveryFailed
      else if s = ''refused'' then Some KRefused else None)"

fun event_tail :: "DispositionEvent \<Rightarrow> members" where
  "event_tail (Delivered _ _ d) = [(''body_digest'', JStr d)]"
| "event_tail (DeliveryFailed _ _ c) = [(''class'', JStr c)]"
| "event_tail (Refused _ _ c) = [(''class'', JStr c)]"
| "event_tail _ = []"

definition serialize_event :: "DispositionEvent \<Rightarrow> members" where
  "serialize_event e =
     [(''v'', JInt 1), (''correlation_id'', JStr (correlation_id e)), (''event'', JStr (kind_str (kind e))),
      (''created_at'', JInt (created_at e))] @ event_tail e"

datatype DeError = DuplicateField string | UnknownField string | MissingField string | BadValue string | ForeignField string

fun as_u32 :: "jval \<Rightarrow> nat option" where
  "as_u32 (JInt n) = (if 0 \<le> n \<and> n < 2 ^ 32 then Some (nat n) else None)"
| "as_u32 _ = None"

fun as_i64 :: "jval \<Rightarrow> int option" where
  "as_i64 (JInt n) = (if - (2 ^ 63) \<le> n \<and> n < 2 ^ 63 then Some n else None)"
| "as_i64 _ = None"

fun as_str :: "jval \<Rightarrow> string option" where
  "as_str (JStr s) = Some s"
| "as_str _ = None"

text \<open>The derived reader of an enum without payloads takes the name, or an object that maps the name to \<open>null\<close>.\<close>

fun as_kind :: "jval \<Rightarrow> EventKind option" where
  "as_kind (JStr s) = kind_of_str s"
| "as_kind (JUnit s) = kind_of_str s"
| "as_kind _ = None"

fun as_opt_str :: "jval \<Rightarrow> string option option" where
  "as_opt_str JNull = Some None"
| "as_opt_str (JStr s) = Some (Some s)"
| "as_opt_str _ = None"

text \<open>\<open>set_once\<close>: a second occurrence of a key is an error, before its value is looked at.\<close>

definition set_once :: "string \<Rightarrow> (jval \<Rightarrow> 'a option) \<Rightarrow> jval \<Rightarrow> 'a option \<Rightarrow> DeError + 'a option" where
  "set_once field conv j slot =
     (case slot of Some _ \<Rightarrow> Inl (DuplicateField field)
      | None \<Rightarrow> (case conv j of None \<Rightarrow> Inl (BadValue field) | Some x \<Rightarrow> Inr (Some x)))"

record slots =
  sl_v :: "nat option"
  sl_correlation_id :: "string option"
  sl_event :: "EventKind option"
  sl_created_at :: "int option"
  sl_class :: "string option"
  sl_body_digest :: "string option"

definition no_slots :: slots where
  "no_slots = \<lparr>sl_v = None, sl_correlation_id = None, sl_event = None, sl_created_at = None, sl_class = None, sl_body_digest = None\<rparr>"

definition visit_key :: "string \<Rightarrow> jval \<Rightarrow> slots \<Rightarrow> DeError + slots" where
  "visit_key k j s =
     (if k = ''v'' then map_sum id (\<lambda>x. s\<lparr>sl_v := x\<rparr>) (set_once k as_u32 j (sl_v s))
      else if k = ''correlation_id'' then map_sum id (\<lambda>x. s\<lparr>sl_correlation_id := x\<rparr>) (set_once k as_str j (sl_correlation_id s))
      else if k = ''event'' then map_sum id (\<lambda>x. s\<lparr>sl_event := x\<rparr>) (set_once k as_kind j (sl_event s))
      else if k = ''created_at'' then map_sum id (\<lambda>x. s\<lparr>sl_created_at := x\<rparr>) (set_once k as_i64 j (sl_created_at s))
      else if k = ''class'' then map_sum id (\<lambda>x. s\<lparr>sl_class := x\<rparr>) (set_once k as_str j (sl_class s))
      else if k = ''body_digest'' then map_sum id (\<lambda>x. s\<lparr>sl_body_digest := x\<rparr>) (set_once k as_str j (sl_body_digest s))
      else Inl (UnknownField k))"

fun visit_map :: "members \<Rightarrow> slots \<Rightarrow> DeError + slots" where
  "visit_map [] s = Inr s"
| "visit_map ((k, j) # ms) s = (case visit_key k j s of Inl e \<Rightarrow> Inl e | Inr s \<Rightarrow> visit_map ms s)"

text \<open>The variant's tail: required on its own kinds, refused on the others.\<close>

fun build_event :: "EventKind \<Rightarrow> string \<Rightarrow> int \<Rightarrow> string option \<Rightarrow> string option \<Rightarrow> DeError + DispositionEvent" where
  "build_event KDelivered i t cls dig =
     (if cls \<noteq> None then Inl (ForeignField ''class'')
      else case dig of None \<Rightarrow> Inl (MissingField ''body_digest'') | Some d \<Rightarrow> Inr (Delivered i t d))"
| "build_event KDeliveryFailed i t cls dig =
     (if dig \<noteq> None then Inl (ForeignField ''body_digest'')
      else case cls of None \<Rightarrow> Inl (MissingField ''class'') | Some c \<Rightarrow> Inr (DeliveryFailed i t c))"
| "build_event KRefused i t cls dig =
     (if dig \<noteq> None then Inl (ForeignField ''body_digest'')
      else case cls of None \<Rightarrow> Inl (MissingField ''class'') | Some c \<Rightarrow> Inr (Refused i t c))"
| "build_event KAttempted i t cls dig =
     (if cls \<noteq> None then Inl (ForeignField ''class'') else if dig \<noteq> None then Inl (ForeignField ''body_digest'')
      else Inr (Attempted i t))"
| "build_event KQueued i t cls dig =
     (if cls \<noteq> None then Inl (ForeignField ''class'') else if dig \<noteq> None then Inl (ForeignField ''body_digest'')
      else Inr (Queued i t))"

definition deserialize_event :: "members \<Rightarrow> DeError + DispositionEvent" where
  "deserialize_event ms =
     (case visit_map ms no_slots of Inl e \<Rightarrow> Inl e
      | Inr s \<Rightarrow>
        (case sl_v s of None \<Rightarrow> Inl (MissingField ''v'')
         | Some _ \<Rightarrow> (case sl_correlation_id s of None \<Rightarrow> Inl (MissingField ''correlation_id'')
         | Some i \<Rightarrow> (case sl_event s of None \<Rightarrow> Inl (MissingField ''event'')
         | Some k \<Rightarrow> (case sl_created_at s of None \<Rightarrow> Inl (MissingField ''created_at'')
         | Some t \<Rightarrow> build_event k i t (sl_class s) (sl_body_digest s))))))"

text \<open>
  The derived implementation for \<open>Envelope\<close>: fields in declaration order; on the way in unknown keys
  are ignored, a repeated or missing field is an error, and \<open>sender\<close> defaults to none.
\<close>

definition serialize_envelope :: "Envelope \<Rightarrow> members" where
  "serialize_envelope e =
     [(''v'', JInt (int (env_v e))), (''correlation_id'', JStr (env_correlation_id e)),
      (''authored_at'', JInt (env_authored_at e)), (''expires_at'', JInt (env_expires_at e)),
      (''target'', JStr (env_target e)), (''origin'', JStr (env_origin e)),
      (''sender'', case env_sender e of None \<Rightarrow> JNull | Some s \<Rightarrow> JStr s), (''body'', JStr (env_body e))]"

definition field :: "string \<Rightarrow> (jval \<Rightarrow> 'a option) \<Rightarrow> members \<Rightarrow> DeError + 'a option" where
  "field k conv ms =
     (case filter (\<lambda>(k', _). k' = k) ms of
        [] \<Rightarrow> Inr None
      | [(_, j)] \<Rightarrow> (case conv j of None \<Rightarrow> Inl (BadValue k) | Some x \<Rightarrow> Inr (Some x))
      | _ \<Rightarrow> Inl (DuplicateField k))"

definition required :: "string \<Rightarrow> (jval \<Rightarrow> 'a option) \<Rightarrow> members \<Rightarrow> DeError + 'a" where
  "required k conv ms =
     (case field k conv ms of Inl e \<Rightarrow> Inl e | Inr None \<Rightarrow> Inl (MissingField k) | Inr (Some x) \<Rightarrow> Inr x)"

definition sum_bind :: "'e + 'a \<Rightarrow> ('a \<Rightarrow> 'e + 'b) \<Rightarrow> 'e + 'b" where
  "sum_bind m f = (case m of Inl e \<Rightarrow> Inl e | Inr x \<Rightarrow> f x)"

definition deserialize_envelope :: "members \<Rightarrow> DeError + Envelope" where
  "deserialize_envelope ms =
     sum_bind (required ''v'' as_u32 ms) (\<lambda>v.
     sum_bind (required ''correlation_id'' as_str ms) (\<lambda>i.
     sum_bind (required ''authored_at'' as_i64 ms) (\<lambda>a.
     sum_bind (required ''expires_at'' as_i64 ms) (\<lambda>x.
     sum_bind (required ''target'' as_str ms) (\<lambda>t.
     sum_bind (required ''origin'' as_str ms) (\<lambda>og.
     sum_bind (field ''sender'' as_opt_str ms) (\<lambda>s.
     sum_bind (required ''body'' as_str ms) (\<lambda>b.
       Inr \<lparr>env_v = v, env_correlation_id = i, env_authored_at = a, env_expires_at = x, env_target = t,
            env_origin = og, env_sender = (case s of None \<Rightarrow> None | Some y \<Rightarrow> y), env_body = b\<rparr>))))))))"

subsection \<open>Reading a file\<close>

definition NL :: char where "NL = CHR 0x0A"

fun split_nl :: "string \<Rightarrow> string list" where
  "split_nl [] = [[]]"
| "split_nl (c # cs) = (if c = NL then [] # split_nl cs else case split_nl cs of [] \<Rightarrow> [[c]] | l # ls \<Rightarrow> (c # l) # ls)"

definition terminated_lines :: "string \<Rightarrow> string list" where
  "terminated_lines bytes = butlast (split_nl bytes)"

definition ascii_whitespace :: "char \<Rightarrow> bool" where
  "ascii_whitespace c \<longleftrightarrow> c = CHR '' '' \<or> c = CHR 0x09 \<or> c = CHR 0x0A \<or> c = CHR 0x0C \<or> c = CHR 0x0D"

text \<open>A \<open>serde_json::Value\<close> keeps the last of duplicate keys.\<close>

definition value_get :: "string \<Rightarrow> members \<Rightarrow> jval option" where
  "value_get k ms = map_of (rev ms) k"

definition versioned :: "members \<Rightarrow> bool" where
  "versioned ms \<longleftrightarrow> value_get ''v'' ms = Some (JInt 1)"

definition parse_row :: "(string \<Rightarrow> members option) \<Rightarrow> (members \<Rightarrow> DeError + 'a) \<Rightarrow> string \<Rightarrow> 'a option" where
  "parse_row json_of de line = do {
     ms \<leftarrow> json_of line;
     if versioned ms then (case de ms of Inl _ \<Rightarrow> None | Inr x \<Rightarrow> Some x) else None }"

record 'a ReadResult =
  records :: "'a list"
  corrupt_interior :: nat

fun parse_lines :: "(string \<Rightarrow> 'a option) \<Rightarrow> string list \<Rightarrow> 'a ReadResult" where
  "parse_lines row [] = \<lparr>records = [], corrupt_interior = 0\<rparr>"
| "parse_lines row (line # rest) =
     (let r = parse_lines row rest
      in if list_all ascii_whitespace line then r
         else case row line of
                Some x \<Rightarrow> r\<lparr>records := x # records r\<rparr>
              | None \<Rightarrow> r\<lparr>corrupt_interior := corrupt_interior r + 1\<rparr>)"

definition parse_jsonl :: "(string \<Rightarrow> members option) \<Rightarrow> (members \<Rightarrow> DeError + 'a) \<Rightarrow> string \<Rightarrow> 'a ReadResult" where
  "parse_jsonl json_of de bytes = parse_lines (parse_row json_of de) (terminated_lines bytes)"

definition parse_log :: "(string \<Rightarrow> members option) \<Rightarrow> string \<Rightarrow> Envelope ReadResult" where
  "parse_log json_of bytes = parse_jsonl json_of deserialize_envelope bytes"

definition parse_dispositions :: "(string \<Rightarrow> members option) \<Rightarrow> string \<Rightarrow> DispositionEvent ReadResult" where
  "parse_dispositions json_of bytes = parse_jsonl json_of deserialize_event bytes"

subsection \<open>Projection\<close>

definition has_delivered :: "DispositionEvent list \<Rightarrow> string \<Rightarrow> bool" where
  "has_delivered evs i = list_ex (\<lambda>e. kind e = KDelivered \<and> correlation_id e = i) evs"

definition derive_state :: "bool \<Rightarrow> int option \<Rightarrow> EventKind option \<Rightarrow> int \<Rightarrow> SummaryState" where
  "derive_state delivered expires_at last_event now_ms =
     (if delivered then SDelivered
      else if is_some_and expires_at (\<lambda>x. x \<le> now_ms) then Expired
      else if last_event = Some KDeliveryFailed then Failed
      else Pending)"

record Fold =
  f_last_event :: EventKind
  f_last_event_at :: int
  f_attempts :: nat
  f_last_attempt_at :: "int option"
  f_first_delivered_at :: "int option"
  f_has_delivered :: bool

definition I64_MIN :: int where "I64_MIN = - (2 ^ 63)"

text \<open>\<open>attempts += 1\<close> panics on overflow of the \<open>u32\<close>.\<close>

definition checked_add32 :: "nat \<Rightarrow> nat \<Rightarrow> nat option" where
  "checked_add32 a b = (if a + b < 2 ^ 32 then Some (a + b) else None)"

definition absorb :: "DispositionEvent \<Rightarrow> Fold \<Rightarrow> Fold option" where
  "absorb ev f =
     (let t = created_at ev;
          f = (if f_last_event_at f \<le> t then f\<lparr>f_last_event := kind ev, f_last_event_at := t\<rparr> else f)
      in case kind ev of
           KAttempted \<Rightarrow> do {
             n \<leftarrow> checked_add32 (f_attempts f) 1;
             Some (f\<lparr>f_attempts := n,
               f_last_attempt_at := Some (case f_last_attempt_at f of None \<Rightarrow> t | Some m \<Rightarrow> max m t)\<rparr>) }
         | KDelivered \<Rightarrow> Some (f\<lparr>f_has_delivered := True,
             f_first_delivered_at := Some (case f_first_delivered_at f of None \<Rightarrow> t | Some m \<Rightarrow> min m t)\<rparr>)
         | _ \<Rightarrow> Some f)"

definition fold_new :: "DispositionEvent \<Rightarrow> Fold option" where
  "fold_new ev = absorb ev \<lparr>f_last_event = kind ev, f_last_event_at = I64_MIN, f_attempts = 0,
     f_last_attempt_at = None, f_first_delivered_at = None, f_has_delivered = False\<rparr>"

text \<open>One event of the fold over the stream: the folds by id, and the ids by first appearance.\<close>

definition fold_event ::
  "DispositionEvent \<Rightarrow> (string \<times> Fold) list \<times> string list \<Rightarrow> ((string \<times> Fold) list \<times> string list) option" where
  "fold_event ev acc =
     (let (folds, order) = acc; i = correlation_id ev
      in case map_of folds i of
           Some f \<Rightarrow> do { f \<leftarrow> absorb ev f; Some (AList.update i f folds, order) }
         | None \<Rightarrow> do { f \<leftarrow> fold_new ev; Some (AList.update i f folds, order @ [i]) })"

definition summary_for :: "string \<Rightarrow> Fold option \<Rightarrow> Envelope option \<Rightarrow> int \<Rightarrow> SummaryRecord" where
  "summary_for i f env now_ms =
     (let last = map_option f_last_event f;
          delivered = is_some_and f f_has_delivered;
          expires_at = map_option env_expires_at env
      in \<lparr>sum_v = 1, sum_correlation_id = i, sum_state = derive_state delivered expires_at last now_ms,
          sum_attempts = (case f of None \<Rightarrow> 0 | Some f \<Rightarrow> f_attempts f), sum_last_event = last,
          sum_last_attempt_at = f \<bind> f_last_attempt_at, sum_first_delivered_at = f \<bind> f_first_delivered_at,
          sum_expires_at = expires_at, sum_authored_at = map_option env_authored_at env,
          sum_origin = map_option env_origin env\<rparr>)"

fun first_envelopes :: "string list \<Rightarrow> Envelope list \<Rightarrow> Envelope list" where
  "first_envelopes seen [] = []"
| "first_envelopes seen (e # es) =
     (if env_correlation_id e \<in> set seen then first_envelopes seen es
      else e # first_envelopes (env_correlation_id e # seen) es)"

definition project_summary :: "Envelope list \<Rightarrow> DispositionEvent list \<Rightarrow> int \<Rightarrow> SummaryRecord list option" where
  "project_summary envelopes evs now_ms = do {
     (folds, order) \<leftarrow> foldM fold_event evs ([], []);
     let pass1 = map (\<lambda>e. summary_for (env_correlation_id e) (map_of folds (env_correlation_id e)) (Some e) now_ms)
                   (first_envelopes [] envelopes);
     let pass2 = map (\<lambda>i. summary_for i (map_of folds i) None now_ms)
                   (filter (\<lambda>i. i \<notin> set (map env_correlation_id envelopes)) order);
     Some (pass1 @ pass2) }"

definition project_one :: "Envelope list \<Rightarrow> DispositionEvent list \<Rightarrow> int \<Rightarrow> string \<Rightarrow> SummaryRecord option option" where
  "project_one envelopes evs now_ms i = do {
     rs \<leftarrow> project_summary envelopes evs now_ms;
     Some (List.find (\<lambda>r. sum_correlation_id r = i) rs) }"

end
