(* ===== verification/Ledger.thy ===== *)
theory Ledger
  imports Dispositions "HOL-Library.List_Lexorder" "HOL-Library.Char_ord"
begin

text \<open>
  The file half of the disposition ledger (\<open>crates/dispatch/src/dispositions.rs\<close>): the self-delimited
  append, the scoped readers and the queries. A file is its bytes, a missing file is empty. The
  exclusive lock makes an append atomic with respect to other appends; what can still go wrong is
  that the write stops early, which \<open>AppendError k\<close> stands for (\<open>k\<close> bytes got written and the call
  reports an error). Directory listings are arguments.
\<close>

datatype append_io = AppendOk | AppendError nat

definition frame_record :: "string \<Rightarrow> string" where
  "frame_record line = NL # line @ [NL]"

definition append_line :: "append_io \<Rightarrow> string \<Rightarrow> string \<Rightarrow> bool \<times> string" where
  "append_line io line file =
     (case io of AppendOk \<Rightarrow> (True, file @ frame_record line)
      | AppendError k \<Rightarrow> (False, file @ take k (frame_record line)))"

record Store =
  log_file :: string
  disp_file :: string
  log_archive :: string
  disp_archive :: string
  remotes :: "(string \<times> string \<times> string) list option"

definition append_envelope :: "(members \<Rightarrow> string) \<Rightarrow> append_io \<Rightarrow> Envelope \<Rightarrow> Store \<Rightarrow> bool \<times> Store" where
  "append_envelope json_print io env s =
     (let (ok, f) = append_line io (json_print (serialize_envelope env)) (log_file s) in (ok, s\<lparr>log_file := f\<rparr>))"

definition append_event :: "(members \<Rightarrow> string) \<Rightarrow> append_io \<Rightarrow> DispositionEvent \<Rightarrow> Store \<Rightarrow> bool \<times> Store" where
  "append_event json_print io ev s =
     (let (ok, f) = append_line io (json_print (serialize_event ev)) (disp_file s) in (ok, s\<lparr>disp_file := f\<rparr>))"

definition read_local_log :: "(string \<Rightarrow> members option) \<Rightarrow> Store \<Rightarrow> Envelope ReadResult" where
  "read_local_log json_of s = parse_log json_of (log_file s)"

definition read_local_events :: "(string \<Rightarrow> members option) \<Rightarrow> Store \<Rightarrow> DispositionEvent ReadResult" where
  "read_local_events json_of s = parse_dispositions json_of (disp_file s)"

datatype Scope = Local | Host string | All

definition is_valid_hostname :: "string \<Rightarrow> bool" where
  "is_valid_hostname h \<longleftrightarrow> h \<noteq> [] \<and> CHR ''/'' \<notin> set h \<and> CHR 0x5C \<notin> set h \<and> h \<noteq> ''..'' \<and> h \<noteq> ''.'' \<and> CHR 0x00 \<notin> set h"

type_synonym rows = "Envelope list \<times> DispositionEvent list"

definition accumulate :: "(string \<Rightarrow> members option) \<Rightarrow> string \<Rightarrow> string \<Rightarrow> rows \<Rightarrow> rows" where
  "accumulate json_of log_bytes disp_bytes acc =
     (fst acc @ records (parse_log json_of log_bytes), snd acc @ records (parse_dispositions json_of disp_bytes))"

definition remote_files :: "Store \<Rightarrow> string \<Rightarrow> string \<times> string" where
  "remote_files s h = (case remotes s \<bind> (\<lambda>dirs. map_of dirs h) of None \<Rightarrow> ([], []) | Some p \<Rightarrow> p)"

text \<open>A missing directory has no hosts; \<open>None\<close> is a directory that cannot be listed.\<close>

definition remote_hosts :: "Store \<Rightarrow> string list option" where
  "remote_hosts s = map_option (\<lambda>dirs. sort (map fst dirs)) (remotes s)"

text \<open>The result is \<open>None\<close> for a refused host name or a failed listing.\<close>

definition read_scoped :: "(string \<Rightarrow> members option) \<Rightarrow> Store \<Rightarrow> Scope \<Rightarrow> bool \<Rightarrow> rows option" where
  "read_scoped json_of s scope archive =
     (let acc = accumulate json_of (log_file s) (disp_file s) ([], []);
          acc = (if archive then accumulate json_of (log_archive s) (disp_archive s) acc else acc);
          remote = (\<lambda>h. accumulate json_of (fst (remote_files s h)) (snd (remote_files s h)))
      in case scope of
           Local \<Rightarrow> Some acc
         | Host h \<Rightarrow> if is_valid_hostname h then Some (remote h acc) else None
         | All \<Rightarrow> do { hosts \<leftarrow> remote_hosts s; Some (fold remote hosts acc) })"

text \<open>The queries fail with \<open>None\<close> like the read, or with the overflow of an attempt counter.\<close>

definition query_summary ::
  "(string \<Rightarrow> members option) \<Rightarrow> Store \<Rightarrow> Scope \<Rightarrow> bool \<Rightarrow> int \<Rightarrow> string option \<Rightarrow> SummaryRecord list option" where
  "query_summary json_of s scope archive now_ms only = do {
     (envelopes, evs) \<leftarrow> read_scoped json_of s scope archive;
     case only of
       None \<Rightarrow> project_summary envelopes evs now_ms
     | Some i \<Rightarrow> do { r \<leftarrow> project_one envelopes evs now_ms i; Some (case r of None \<Rightarrow> [] | Some x \<Rightarrow> [x]) } }"

definition read_events ::
  "(string \<Rightarrow> members option) \<Rightarrow> Store \<Rightarrow> Scope \<Rightarrow> bool \<Rightarrow> string option \<Rightarrow> DispositionEvent list option" where
  "read_events json_of s scope archive only = do {
     (_, evs) \<leftarrow> read_scoped json_of s scope archive;
     Some (case only of None \<Rightarrow> evs | Some i \<Rightarrow> filter (\<lambda>e. correlation_id e = i) evs) }"

definition query_joined ::
  "(string \<Rightarrow> members option) \<Rightarrow> Store \<Rightarrow> Scope \<Rightarrow> bool \<Rightarrow> int \<Rightarrow> (Envelope \<times> SummaryRecord) list option" where
  "query_joined json_of s scope archive now_ms = do {
     (envelopes, evs) \<leftarrow> read_scoped json_of s scope archive;
     summaries \<leftarrow> project_summary envelopes evs now_ms;
     Some (List.map_filter (\<lambda>r. map_option (\<lambda>e. (e, r))
             (List.find (\<lambda>e. env_correlation_id e = sum_correlation_id r) envelopes)) summaries) }"

definition has_delivered_event :: "(string \<Rightarrow> members option) \<Rightarrow> Store \<Rightarrow> string \<Rightarrow> bool" where
  "has_delivered_event json_of s i = has_delivered (records (read_local_events json_of s)) i"

definition logged_envelope :: "(string \<Rightarrow> members option) \<Rightarrow> Store \<Rightarrow> string \<Rightarrow> Envelope option" where
  "logged_envelope json_of s i = List.find (\<lambda>e. env_correlation_id e = i) (records (read_local_log json_of s))"

definition recorded_delivered_digest :: "(string \<Rightarrow> members option) \<Rightarrow> Store \<Rightarrow> string \<Rightarrow> string option" where
  "recorded_delivered_digest json_of s i =
     List.find (\<lambda>e. kind e = KDelivered \<and> correlation_id e = i) (records (read_local_events json_of s)) \<bind> body_digest_of"

definition local_host :: "(string \<Rightarrow> string option) \<Rightarrow> string" where
  "local_host env = (case env ''QD_HOST'' of None \<Rightarrow> ''local'' | Some h \<Rightarrow> if h = [] then ''local'' else h)"

end
