(* ===== verification/Json_Instance.thy ===== *)
theory Json_Instance
  imports Ledger
begin

text \<open>
  What the ledger relies on of the JSON library, and a small concrete printer and reader of objects
  that has it, so that the laws are seen to be satisfiable and the ledger can be run.
\<close>

text \<open>
  An object written on one line reads back as its members, contains no newline and is not blank, and
  a proper prefix of it is not an object.
\<close>

definition json_ok :: "(members \<Rightarrow> string) \<Rightarrow> (string \<Rightarrow> members option) \<Rightarrow> bool" where
  "json_ok json_print json_of \<longleftrightarrow>
     (\<forall>ms. json_of (json_print ms) = Some ms \<and> NL \<notin> set (json_print ms)
       \<and> \<not> list_all ascii_whitespace (json_print ms)
       \<and> (\<forall>k < length (json_print ms). json_of (take k (json_print ms)) = None))"

subsection \<open>Strings on one line\<close>

fun put_string :: "string \<Rightarrow> string" where
  "put_string [] = ''.''"
| "put_string (c # cs) = (if c = NL then CHR ''n'' # put_string cs else CHR ''c'' # c # put_string cs)"

definition put_strings :: "string list \<Rightarrow> string" where
  "put_strings ss = concat (map put_string ss) @ '']''"

fun get_strings :: "string \<Rightarrow> string \<Rightarrow> string list option" where
  "get_strings cur [] = None"
| "get_strings cur (t # rest) =
     (if t = CHR '']'' then (if cur = [] \<and> rest = [] then Some [] else None)
      else if t = CHR ''.'' then map_option (Cons (rev cur)) (get_strings [] rest)
      else if t = CHR ''n'' then get_strings (NL # cur) rest
      else if t = CHR ''c'' then (case rest of [] \<Rightarrow> None | c # rest' \<Rightarrow> get_strings (c # cur) rest')
      else None)"

lemma get_put_string: "get_strings cur (put_string s @ rest) = map_option (Cons (rev cur @ s)) (get_strings [] rest)"
  by (induction s arbitrary: cur) auto

lemma get_put_strings: "get_strings [] (put_strings ss) = Some ss"
  by (induction ss) (simp_all add: put_strings_def get_put_string)

lemma get_strings_ends:
  "get_strings cur p = Some v \<Longrightarrow> y \<noteq> [] \<Longrightarrow> get_strings cur (p @ y) = None"
  by (induction cur p arbitrary: v rule: get_strings.induct) (auto split: if_splits list.splits)

lemma put_string_no_nl: "NL \<notin> set (put_string s)"
  by (induction s) (auto simp: NL_def)

subsection \<open>Objects\<close>

fun val_string :: "jval \<Rightarrow> string" where
  "val_string JNull = ''N''"
| "val_string (JBool b) = (if b then ''T'' else ''F'')"
| "val_string (JInt n) = (if 0 \<le> n then CHR ''P'' # replicate (nat n) (CHR ''i'') else CHR ''M'' # replicate (nat (- n)) (CHR ''i''))"
| "val_string (JStr s) = CHR ''S'' # s"
| "val_string (JUnit s) = CHR ''U'' # s"
| "val_string JOther = ''O''"

fun string_val :: "string \<Rightarrow> jval option" where
  "string_val [] = None"
| "string_val (t # s) =
     (if t = CHR ''N'' then Some JNull else if t = CHR ''T'' then Some (JBool True) else if t = CHR ''F'' then Some (JBool False)
      else if t = CHR ''P'' then Some (JInt (int (length s))) else if t = CHR ''M'' then Some (JInt (- int (length s)))
      else if t = CHR ''S'' then Some (JStr s) else if t = CHR ''U'' then Some (JUnit s) else if t = CHR ''O'' then Some JOther else None)"

lemma string_val_inverse [simp]: "string_val (val_string v) = Some v"
  by (cases v) auto

fun pair_up :: "string list \<Rightarrow> members option" where
  "pair_up [] = Some []"
| "pair_up [s] = None"
| "pair_up (k # s # rest) = do { v \<leftarrow> string_val s; ms \<leftarrow> pair_up rest; Some ((k, v) # ms) }"

definition sample_print :: "members \<Rightarrow> string" where
  "sample_print ms = put_strings (concat (map (\<lambda>(k, v). [k, val_string v]) ms))"

definition sample_of :: "string \<Rightarrow> members option" where
  "sample_of s = get_strings [] s \<bind> pair_up"

lemma pair_up_inverse: "pair_up (concat (map (\<lambda>(k, v). [k, val_string v]) ms)) = Some ms"
  by (induction ms) auto

lemma sample_round_trip: "sample_of (sample_print ms) = Some ms"
  by (simp add: sample_of_def sample_print_def get_put_strings pair_up_inverse)

lemma sample_prefix:
  assumes "k < length (sample_print ms)"
  shows "sample_of (take k (sample_print ms)) = None"
proof (cases "get_strings [] (take k (sample_print ms))")
  case None
  then show ?thesis by (simp add: sample_of_def)
next
  case (Some v)
  have "drop k (sample_print ms) \<noteq> []" using assms by simp
  from get_strings_ends [OF Some this] have "get_strings [] (sample_print ms) = None" by simp
  then show ?thesis by (simp add: sample_print_def get_put_strings)
qed

lemma sample_json_ok: "json_ok sample_print sample_of"
proof -
  have "NL \<notin> set (sample_print ms)" "\<not> list_all ascii_whitespace (sample_print ms)" for ms
    using put_string_no_nl by (auto simp: sample_print_def put_strings_def NL_def ascii_whitespace_def)
  then show ?thesis by (simp add: json_ok_def sample_round_trip sample_prefix)
qed

end
