(* ===== verification/Dispositions_Fold.thy ===== *)
theory Dispositions_Fold
  imports Dispositions
begin

text \<open>
  The projection against a declarative reference: what the summary of an id says, stated over all the
  events of that id with no fold.
\<close>

definition ref_events :: "string \<Rightarrow> DispositionEvent list \<Rightarrow> DispositionEvent list" where
  "ref_events i evs = filter (\<lambda>e. correlation_id e = i) evs"

definition latest :: "DispositionEvent list \<Rightarrow> EventKind option" where
  "latest es = (if es = [] then None
     else Some (kind (last (filter (\<lambda>e. \<forall>e' \<in> set es. created_at e' \<le> created_at e) es))))"

definition times_of :: "EventKind \<Rightarrow> DispositionEvent list \<Rightarrow> int list" where
  "times_of k es = map created_at (filter (\<lambda>e. kind e = k) es)"

definition max_opt :: "int list \<Rightarrow> int option" where
  "max_opt ts = (if ts = [] then None else Some (Max (set ts)))"

definition min_opt :: "int list \<Rightarrow> int option" where
  "min_opt ts = (if ts = [] then None else Some (Min (set ts)))"

definition ref_summary :: "Envelope list \<Rightarrow> DispositionEvent list \<Rightarrow> int \<Rightarrow> string \<Rightarrow> SummaryRecord" where
  "ref_summary envs evs now i =
     (let es = ref_events i evs; env = List.find (\<lambda>e. env_correlation_id e = i) envs
      in \<lparr>sum_v = 1, sum_correlation_id = i,
          sum_state = (if has_delivered evs i then SDelivered
                       else if \<exists>e. env = Some e \<and> env_expires_at e \<le> now then Expired
                       else if latest es = Some KDeliveryFailed then Failed else Pending),
          sum_attempts = length (times_of KAttempted es), sum_last_event = latest es,
          sum_last_attempt_at = max_opt (times_of KAttempted es),
          sum_first_delivered_at = min_opt (times_of KDelivered es),
          sum_expires_at = map_option env_expires_at env, sum_authored_at = map_option env_authored_at env,
          sum_origin = map_option env_origin env\<rparr>)"

subsection \<open>One id\<close>

definition fold_ref :: "DispositionEvent list \<Rightarrow> Fold" where
  "fold_ref es = \<lparr>f_last_event = the (latest es), f_last_event_at = Max (created_at ` set es),
     f_attempts = length (times_of KAttempted es), f_last_attempt_at = max_opt (times_of KAttempted es),
     f_first_delivered_at = min_opt (times_of KDelivered es), f_has_delivered = (times_of KDelivered es \<noteq> [])\<rparr>"

lemma latest_snoc:
  assumes "es \<noteq> []"
  shows "latest (es @ [e]) = (if Max (created_at ` set es) \<le> created_at e then Some (kind e) else latest es)"
proof -
  let ?top = "\<lambda>es e. \<forall>e' \<in> set es. created_at e' \<le> created_at e"
  have top: "?top es e \<longleftrightarrow> Max (created_at ` set es) \<le> created_at e" using assms by simp
  show ?thesis
  proof (cases "?top es e")
    case True
    then have "?top (es @ [e]) e" by simp
    then show ?thesis using True top by (simp add: latest_def)
  next
    case False
    then obtain e' where e': "e' \<in> set es" "created_at e < created_at e'" by (auto simp: not_le)
    then have ne: "\<not> ?top (es @ [e]) e" by (auto simp: not_le)
    have eq: "?top (es @ [e]) x = ?top es x" if "x \<in> set es" for x
    proof
      assume "?top es x"
      with e' have "created_at e \<le> created_at x" by fastforce
      with \<open>?top es x\<close> show "?top (es @ [e]) x" by simp
    qed simp
    have "filter (?top (es @ [e])) (es @ [e]) = filter (?top (es @ [e])) es"
      using ne by (simp only: filter_append filter.simps if_False append_Nil2)
    also have "\<dots> = filter (?top es) es" using eq by (rule filter_cong [OF refl])
    finally have fin: "filter (?top (es @ [e])) (es @ [e]) = filter (?top es) es" .
    have "latest (es @ [e]) = latest es" unfolding latest_def fin using assms by (simp only: append_is_Nil_conv if_False simp_thms)
    then show ?thesis using False unfolding top by (simp only: if_False)
  qed
qed

lemma latest_single: "latest [e] = Some (kind e)"
  by (simp add: latest_def)

lemma times_of_snoc: "times_of k (es @ [e]) = times_of k es @ (if kind e = k then [created_at e] else [])"
  by (simp add: times_of_def)

lemma max_opt_snoc: "max_opt (ts @ [t]) = Some (case max_opt ts of None \<Rightarrow> t | Some m \<Rightarrow> max m t)"
  by (auto simp: max_opt_def max.commute)

lemma min_opt_snoc: "min_opt (ts @ [t]) = Some (case min_opt ts of None \<Rightarrow> t | Some m \<Rightarrow> min m t)"
  by (auto simp: min_opt_def min.commute)

lemma absorb_ref:
  assumes "es \<noteq> []" "length es + 1 < 2 ^ 32"
  shows "absorb e (fold_ref es) = Some (fold_ref (es @ [e]))"
proof -
  have n: "length (times_of KAttempted es) + 1 < 2 ^ 32"
    using assms(2) le_less_trans [OF length_filter_le [of "\<lambda>e. kind e = KAttempted" es]] by (simp add: times_of_def)
  have l: "latest es = Some (the (latest es))" using assms(1) by (simp add: latest_def)
  have m: "Max (created_at ` set (es @ [e])) = max (Max (created_at ` set es)) (created_at e)"
    using assms(1) by (simp add: max.commute)
  show ?thesis
    using n l m latest_snoc [OF assms(1), of e]
    by (cases "kind e") (auto simp: absorb_def fold_ref_def Let_def checked_add32_def times_of_snoc max_opt_snoc min_opt_snoc)
qed

lemma fold_new_ref: "I64_MIN \<le> created_at e \<Longrightarrow> fold_new e = Some (fold_ref [e])"
  by (cases "kind e")
    (auto simp: fold_new_def absorb_def fold_ref_def Let_def checked_add32_def latest_single times_of_def max_opt_def min_opt_def)

subsection \<open>All ids\<close>

fun first_ids :: "string list \<Rightarrow> string list" where
  "first_ids [] = []"
| "first_ids (i # is) = i # filter (\<lambda>j. j \<noteq> i) (first_ids is)"

lemma set_first_ids [simp]: "set (first_ids is) = set is"
  by (induction "is") auto

lemma distinct_first_ids [simp]: "distinct (first_ids is)"
  by (induction "is") auto

lemma first_ids_snoc: "first_ids (is @ [i]) = (if i \<in> set is then first_ids is else first_ids is @ [i])"
  by (induction "is") auto

definition folds_ok :: "DispositionEvent list \<Rightarrow> (string \<times> Fold) list \<times> string list \<Rightarrow> bool" where
  "folds_ok evs acc \<longleftrightarrow>
     (\<forall>i. map_of (fst acc) i = (if ref_events i evs = [] then None else Some (fold_ref (ref_events i evs))))
   \<and> snd acc = first_ids (map correlation_id evs)"

lemma foldM_snoc: "foldM f (xs @ [x]) s = foldM f xs s \<bind> f x"
proof (induction xs arbitrary: s)
  case Nil
  show ?case by (cases "f x s") auto
next
  case (Cons a xs)
  then show ?case by (cases "f a s") auto
qed

lemma ref_events_snoc: "ref_events i (evs @ [e]) = ref_events i evs @ (if correlation_id e = i then [e] else [])"
  by (simp add: ref_events_def)

lemma ref_events_empty: "ref_events i evs = [] \<longleftrightarrow> i \<notin> set (map correlation_id evs)"
  by (auto simp: ref_events_def filter_empty_conv)

lemma fold_event_ok:
  assumes ok: "folds_ok evs acc" and len: "length evs + 1 < 2 ^ 32" and t: "I64_MIN \<le> created_at e"
  shows "succeeds (fold_event e acc) (folds_ok (evs @ [e]))"
proof -
  obtain folds order where acc: "acc = (folds, order)" by force
  let ?i = "correlation_id e"
  have lookup: "map_of folds i = (if ref_events i evs = [] then None else Some (fold_ref (ref_events i evs)))"
    and order: "order = first_ids (map correlation_id evs)" for i
    using ok by (simp_all add: folds_ok_def acc)
  show ?thesis
  proof (cases "ref_events ?i evs = []")
    case True
    then have "fold_event e acc = Some (AList.update ?i (fold_ref [e]) folds, order @ [?i])"
      using lookup [of ?i] fold_new_ref [OF t] by (simp add: fold_event_def acc Let_def)
    moreover have "?i \<notin> correlation_id ` set evs" using True ref_events_empty by simp
    ultimately show ?thesis
      using True lookup order
      by (simp add: folds_ok_def update_conv' ref_events_snoc first_ids_snoc)
  next
    case False
    have "length (ref_events ?i evs) + 1 < 2 ^ 32"
      using len le_less_trans [OF length_filter_le [of "\<lambda>x. correlation_id x = ?i" evs]] by (simp add: ref_events_def)
    then have "fold_event e acc = Some (AList.update ?i (fold_ref (ref_events ?i evs @ [e])) folds, order)"
      using lookup [of ?i] False absorb_ref [OF False, of e] by (simp add: fold_event_def acc Let_def)
    moreover have "?i \<in> correlation_id ` set evs" using False ref_events_empty by auto
    ultimately show ?thesis
      using False lookup order
      by (simp add: folds_ok_def update_conv' ref_events_snoc first_ids_snoc)
  qed
qed

lemma folds_ok_all:
  assumes "length evs < 2 ^ 32" "\<forall>e \<in> set evs. I64_MIN \<le> created_at e"
  shows "succeeds (foldM fold_event evs ([], [])) (folds_ok evs)"
  using assms
proof (induction evs rule: rev_induct)
  case Nil
  then show ?case by (simp add: folds_ok_def ref_events_def)
next
  case (snoc e evs)
  then have "succeeds (foldM fold_event evs ([], [])) (folds_ok evs)" by simp
  then show ?case
    unfolding foldM_snoc by (rule succeeds_bindI) (use snoc.prems in \<open>auto intro: fold_event_ok\<close>)
qed

subsection \<open>The summaries\<close>

lemma first_envelopes_find:
  "e \<in> set (first_envelopes seen envs) \<Longrightarrow>
     env_correlation_id e \<notin> set seen \<and> List.find (\<lambda>x. env_correlation_id x = env_correlation_id e) envs = Some e"
proof (induction seen envs rule: first_envelopes.induct)
  case (2 seen e0 es)
  show ?case
  proof (cases "env_correlation_id e0 \<in> set seen")
    case True
    with 2 have "env_correlation_id e \<notin> set seen \<and> List.find (\<lambda>x. env_correlation_id x = env_correlation_id e) es = Some e"
      by simp
    with True show ?thesis by auto
  next
    case False
    with 2 show ?thesis by (cases "e = e0") auto
  qed
qed simp

lemma first_envelopes_ids:
  "set (map env_correlation_id (first_envelopes seen envs)) = set (map env_correlation_id envs) - set seen"
  by (induction seen envs rule: first_envelopes.induct) auto

lemma first_envelopes_distinct: "distinct (map env_correlation_id (first_envelopes seen envs))"
proof (induction seen envs rule: first_envelopes.induct)
  case (2 seen e es)
  then show ?case using first_envelopes_ids [of "env_correlation_id e # seen" es] by auto
qed simp

lemma times_delivered: "times_of KDelivered (ref_events i evs) \<noteq> [] \<longleftrightarrow> has_delivered evs i"
  by (auto simp: times_of_def ref_events_def has_delivered_def filter_empty_conv list_ex_iff)

lemma summary_ref:
  assumes "map_of folds i = (if ref_events i evs = [] then None else Some (fold_ref (ref_events i evs)))"
    "List.find (\<lambda>e. env_correlation_id e = i) envs = env"
  shows "summary_for i (map_of folds i) env now = ref_summary envs evs now i"
proof (cases "ref_events i evs = []")
  case True
  then have "\<not> has_delivered evs i" using times_delivered [of i evs] by (simp add: times_of_def)
  then show ?thesis
    using True assms
    by (auto simp: summary_for_def ref_summary_def Let_def derive_state_def is_some_and_def latest_def times_of_def max_opt_def
        min_opt_def split: option.splits)
next
  case False
  then have "latest (ref_events i evs) = Some (the (latest (ref_events i evs)))" by (simp add: latest_def)
  then show ?thesis
    using False assms times_delivered [of i evs]
    by (auto simp: summary_for_def ref_summary_def Let_def derive_state_def is_some_and_def fold_ref_def split: option.splits)
qed

lemma project_summary_ref:
  assumes "length evs < 2 ^ 32" "\<forall>e \<in> set evs. I64_MIN \<le> created_at e"
  shows "project_summary envs evs now =
    Some (map (ref_summary envs evs now)
      (map env_correlation_id (first_envelopes [] envs)
       @ filter (\<lambda>i. i \<notin> set (map env_correlation_id envs)) (first_ids (map correlation_id evs))))"
proof -
  obtain folds order where f: "foldM fold_event evs ([], []) = Some (folds, order)" and ok: "folds_ok evs (folds, order)"
    using folds_ok_all [OF assms] by (auto simp: succeeds_def)
  have lookup: "map_of folds i = (if ref_events i evs = [] then None else Some (fold_ref (ref_events i evs)))" for i
    using ok by (simp add: folds_ok_def)
  have p1: "map (\<lambda>e. summary_for (env_correlation_id e) (map_of folds (env_correlation_id e)) (Some e) now) (first_envelopes [] envs)
      = map (ref_summary envs evs now) (map env_correlation_id (first_envelopes [] envs))"
    using summary_ref [OF lookup] first_envelopes_find [of _ "[]" envs] by simp
  have "List.find (\<lambda>e. env_correlation_id e = i) envs = None" if "i \<notin> set (map env_correlation_id envs)" for i
    using that by (auto simp: find_None_iff)
  then have p2: "map (\<lambda>i. summary_for i (map_of folds i) None now) (filter (\<lambda>i. i \<notin> set (map env_correlation_id envs)) order)
      = map (ref_summary envs evs now) (filter (\<lambda>i. i \<notin> set (map env_correlation_id envs)) order)"
    using summary_ref [OF lookup] by (intro map_cong) auto
  show ?thesis using f p1 p2 ok by (simp add: project_summary_def folds_ok_def)
qed

end
