(* ===== verification/Ledger_Log.thy ===== *)
theory Ledger_Log
  imports Json_Instance Dispositions_Fold "HOL-Library.Sublist" "HOL-Library.Multiset"
begin

text \<open>
  The ledger's files as record logs: the rows survive the trip through JSON, the framing of an append
  isolates a torn write, and the laws of a record log, interpreted on the files, give what any history
  of appends leaves behind.
\<close>

subsection \<open>Rows\<close>

definition event_wf :: "DispositionEvent \<Rightarrow> bool" where
  "event_wf e \<longleftrightarrow> - (2 ^ 63) \<le> created_at e \<and> created_at e < 2 ^ 63"

definition envelope_wf :: "Envelope \<Rightarrow> bool" where
  "envelope_wf e \<longleftrightarrow> env_v e = 1 \<and> - (2 ^ 63) \<le> env_authored_at e \<and> env_authored_at e < 2 ^ 63
     \<and> - (2 ^ 63) \<le> env_expires_at e \<and> env_expires_at e < 2 ^ 63"

lemma kind_of_kind_str [simp]: "kind_of_str (kind_str k) = Some k"
  by (cases k) (simp_all add: kind_of_str_def)

lemma event_round_trip_aux: "event_wf e \<Longrightarrow> deserialize_event (serialize_event e) = Inr e"
  by (cases e) (simp_all add: event_wf_def serialize_event_def deserialize_event_def no_slots_def visit_key_def set_once_def
      kind_of_str_def)

lemma envelope_round_trip_aux: "envelope_wf e \<Longrightarrow> deserialize_envelope (serialize_envelope e) = Inr e"
  by (cases "env_sender e")
    (simp_all add: envelope_wf_def serialize_envelope_def deserialize_envelope_def required_def field_def sum_bind_def)

lemma versioned_event: "versioned (serialize_event e)"
  by (cases e) (simp_all add: versioned_def value_get_def serialize_event_def)

lemma versioned_envelope: "envelope_wf e \<Longrightarrow> versioned (serialize_envelope e)"
  by (simp add: envelope_wf_def versioned_def value_get_def serialize_envelope_def)

lemma parse_row_event:
  "json_ok json_print json_of \<Longrightarrow> event_wf e \<Longrightarrow>
     parse_row json_of deserialize_event (json_print (serialize_event e)) = Some e"
  by (simp add: json_ok_def parse_row_def versioned_event event_round_trip_aux)

lemma parse_row_envelope:
  "json_ok json_print json_of \<Longrightarrow> envelope_wf e \<Longrightarrow>
     parse_row json_of deserialize_envelope (json_print (serialize_envelope e)) = Some e"
  by (simp add: json_ok_def parse_row_def versioned_envelope envelope_round_trip_aux)

subsection \<open>Lines\<close>

lemma split_nl_nonempty [simp]: "split_nl bs \<noteq> []"
  by (induction bs) (auto split: list.splits)

lemma split_nl_append: "split_nl (a @ NL # b) = split_nl a @ split_nl b"
proof (induction a)
  case (Cons c a)
  then show ?case by (cases "split_nl a") auto
qed simp

lemma split_nl_line: "NL \<notin> set a \<Longrightarrow> split_nl a = [a]"
  by (induction a) auto

definition torn_tail :: "string \<Rightarrow> string" where
  "torn_tail bs = last (split_nl bs)"

lemma split_nl_parts: "split_nl bs = terminated_lines bs @ [torn_tail bs]"
  by (simp add: terminated_lines_def torn_tail_def)

lemma lines_after_append:
  assumes "NL \<notin> set line"
  shows "terminated_lines (bs @ frame_record line) = terminated_lines bs @ [torn_tail bs, line]"
    and "torn_tail (bs @ frame_record line) = []"
proof -
  have "split_nl (bs @ frame_record line) = split_nl bs @ [line, []]"
    using split_nl_append [of bs "line @ [NL]"] split_nl_append [of line "[]"] split_nl_line [OF assms]
    by (simp add: frame_record_def)
  then have eq: "split_nl (bs @ frame_record line) = (terminated_lines bs @ [torn_tail bs, line]) @ [[]]"
    using split_nl_parts [of bs] by simp
  show "terminated_lines (bs @ frame_record line) = terminated_lines bs @ [torn_tail bs, line]"
    unfolding terminated_lines_def [of "bs @ _"] eq by (rule butlast_snoc)
  show "torn_tail (bs @ frame_record line) = []"
    unfolding torn_tail_def [of "bs @ _"] eq by (rule last_snoc)
qed

lemma lines_after_torn:
  assumes "NL \<notin> set line" "k \<le> length line"
  shows "terminated_lines (bs @ take (Suc k) (frame_record line)) = terminated_lines bs @ [torn_tail bs]"
    and "torn_tail (bs @ take (Suc k) (frame_record line)) = take k line"
proof -
  have nl: "NL \<notin> set (take k line)" using assms(1) by (auto dest: in_set_takeD)
  have "split_nl (bs @ take (Suc k) (frame_record line)) = split_nl bs @ [take k line]"
    using split_nl_append [of bs "take k line"] split_nl_line [OF nl] assms(2) by (simp add: frame_record_def)
  then have eq: "split_nl (bs @ take (Suc k) (frame_record line)) = (terminated_lines bs @ [torn_tail bs]) @ [take k line]"
    using split_nl_parts [of bs] by simp
  show "terminated_lines (bs @ take (Suc k) (frame_record line)) = terminated_lines bs @ [torn_tail bs]"
    unfolding terminated_lines_def [of "bs @ _"] eq by (rule butlast_snoc)
  show "torn_tail (bs @ take (Suc k) (frame_record line)) = take k line"
    unfolding torn_tail_def [of "bs @ _"] eq by (rule last_snoc)
qed

lemma parse_lines_append:
  "records (parse_lines row (xs @ ys)) = records (parse_lines row xs) @ records (parse_lines row ys)"
  "corrupt_interior (parse_lines row (xs @ ys)) = corrupt_interior (parse_lines row xs) + corrupt_interior (parse_lines row ys)"
  by (induction xs) (auto simp: Let_def split: option.splits)

lemma parse_line_one:
  "records (parse_lines row [l]) = (if list_all ascii_whitespace l then [] else case row l of None \<Rightarrow> [] | Some x \<Rightarrow> [x])"
  "corrupt_interior (parse_lines row [l]) = (if list_all ascii_whitespace l then 0 else case row l of None \<Rightarrow> 1 | Some x \<Rightarrow> 0)"
  by (auto split: option.splits)

subsection \<open>Appends\<close>

text \<open>
  The laws of a record log, as the ledger's writers rely on them: a successful append adds its record
  after what was readable, an interrupted one adds at most its own record.
\<close>

locale record_log =
  fixes good :: "'r \<Rightarrow> bool"
    and readable :: "'s \<Rightarrow> 'r list"
    and tail :: "'s \<Rightarrow> 'r list"
    and put :: "append_io \<Rightarrow> 'r \<Rightarrow> 's \<Rightarrow> 's"
  assumes put_ok: "good r \<Longrightarrow> readable (put AppendOk r s) = readable s @ tail s @ [r] \<and> tail (put AppendOk r s) = []"
    and put_error: "good r \<Longrightarrow>
      readable (put (AppendError k) r s) = readable s \<and> tail (put (AppendError k) r s) = tail s
      \<or> readable (put (AppendError k) r s) = readable s @ tail s \<and> tail (put (AppendError k) r s) \<in> {[], [r]}
      \<or> readable (put (AppendError k) r s) = readable s @ tail s @ [r] \<and> tail (put (AppendError k) r s) = []"
begin

text \<open>Any history of appends: what succeeded is there in order, what is there was appended, in order.\<close>

lemma history:
  "list_all (\<lambda>(_, r). good r) hist \<Longrightarrow>
     subseq (readable s @ map snd (filter (\<lambda>(io, _). io = AppendOk) hist)) (readable (fold (\<lambda>(io, r). put io r) hist s))
       \<and> subseq (readable (fold (\<lambda>(io, r). put io r) hist s) @ tail (fold (\<lambda>(io, r). put io r) hist s))
           (readable s @ tail s @ map snd hist)
       \<and> prefix (readable s) (readable (fold (\<lambda>(io, r). put io r) hist s))"
proof (induction hist rule: rev_induct)
  case Nil
  then show ?case by simp
next
  case (snoc x hist)
  obtain io r where x: "x = (io, r)" by force
  define s' where "s' = fold (\<lambda>(io, r). put io r) hist s"
  have good: "good r" using snoc.prems x by simp
  have IH: "subseq (readable s @ map snd (filter (\<lambda>(io, _). io = AppendOk) hist)) (readable s')"
    "subseq (readable s' @ tail s') (readable s @ tail s @ map snd hist)" "prefix (readable s) (readable s')"
    using snoc by (simp_all add: s'_def)
  have step: "fold (\<lambda>(io, r). put io r) (hist @ [x]) s = put io r s'" by (simp add: x s'_def)
  have sub1: "subseq (readable s' @ tail s' @ [r]) (readable s @ tail s @ map snd hist @ [r])"
    using list_emb_append_mono [OF IH(2) subseq_order.refl [of "[r]"]] by simp
  have cases: "\<exists>a b. readable (put io r s') = readable s' @ a \<and> tail (put io r s') = b \<and> subseq (a @ b) (tail s' @ [r])
      \<and> (io = AppendOk \<longrightarrow> a = tail s' @ [r])"
  proof (cases io)
    case AppendOk
    then show ?thesis using put_ok [OF good, of s'] by auto
  next
    case (AppendError k)
    have *: "subseq (tail s') (tail s' @ [r])" by (rule prefix_imp_subseq) simp
    consider (same) "readable (put io r s') = readable s'" "tail (put io r s') = tail s'"
      | (nl) "readable (put io r s') = readable s' @ tail s'" "tail (put io r s') = [] \<or> tail (put io r s') = [r]"
      | (full) "readable (put io r s') = readable s' @ tail s' @ [r]" "tail (put io r s') = []"
      using put_error [OF good, of k s'] AppendError by blast
    then show ?thesis
    proof cases
      case same
      then show ?thesis using * AppendError by (intro exI [of _ "[]"] exI [of _ "tail s'"]) simp
    next
      case nl
      then show ?thesis using * AppendError by (intro exI [of _ "tail s'"] exI [of _ "tail (put io r s')"]) auto
    next
      case full
      then show ?thesis using AppendError by (intro exI [of _ "tail s' @ [r]"] exI [of _ "[]"]) simp
    qed
  qed
  then obtain a b where ab: "readable (put io r s') = readable s' @ a" "tail (put io r s') = b" "subseq (a @ b) (tail s' @ [r])"
    "io = AppendOk \<longrightarrow> a = tail s' @ [r]" by blast
  have "subseq ((readable s @ map snd (filter (\<lambda>(io, _). io = AppendOk) hist)) @ (if io = AppendOk then [r] else [])) (readable s' @ a)"
    using ab(4) by (intro list_emb_append_mono [OF IH(1)]) auto
  moreover have "subseq (readable s' @ a @ b) (readable s @ tail s @ map snd hist @ [r])"
    using subseq_order.trans [OF list_emb_append_mono [OF subseq_order.refl ab(3)] sub1] by simp
  ultimately show ?case using ab IH(3) unfolding step by (auto simp: x)
qed

end

subsection \<open>The files are record logs\<close>

definition file_put :: "(members \<Rightarrow> string) \<Rightarrow> ('r \<Rightarrow> members) \<Rightarrow> append_io \<Rightarrow> 'r \<Rightarrow> string \<Rightarrow> string" where
  "file_put json_print ser io r file = snd (append_line io (json_print (ser r)) file)"

definition torn_rows :: "(string \<Rightarrow> members option) \<Rightarrow> (members \<Rightarrow> DeError + 'r) \<Rightarrow> string \<Rightarrow> 'r list" where
  "torn_rows json_of de file = records (parse_lines (parse_row json_of de) [torn_tail file])"

definition row_ok :: "(members \<Rightarrow> string) \<Rightarrow> (string \<Rightarrow> members option) \<Rightarrow> ('r \<Rightarrow> members) \<Rightarrow> (members \<Rightarrow> DeError + 'r) \<Rightarrow> 'r \<Rightarrow> bool" where
  "row_ok json_print json_of ser de r \<longleftrightarrow>
     json_ok json_print json_of \<and> parse_row json_of de (json_print (ser r)) = Some r"

lemma put_ok_file:
  assumes "row_ok json_print json_of ser de r"
  shows "records (parse_jsonl json_of de (file_put json_print ser AppendOk r file))
           = records (parse_jsonl json_of de file) @ torn_rows json_of de file @ [r]"
    and "torn_rows json_of de (file_put json_print ser AppendOk r file) = []"
proof -
  let ?line = "json_print (ser r)"
  have line: "NL \<notin> set ?line" "\<not> list_all ascii_whitespace ?line" "parse_row json_of de ?line = Some r"
    using assms by (simp_all add: row_ok_def json_ok_def)
  have "records (parse_lines (parse_row json_of de) [?line]) = [r]" unfolding parse_line_one using line by simp
  then show "records (parse_jsonl json_of de (file_put json_print ser AppendOk r file))
      = records (parse_jsonl json_of de file) @ torn_rows json_of de file @ [r]"
    using parse_lines_append(1) [of "parse_row json_of de" "[torn_tail file]" "[?line]"]
    by (simp add: parse_jsonl_def file_put_def append_line_def lines_after_append(1) [OF line(1)] torn_rows_def parse_lines_append(1)
        del: parse_lines.simps)
  show "torn_rows json_of de (file_put json_print ser AppendOk r file) = []"
    by (simp add: torn_rows_def file_put_def append_line_def lines_after_append(2) [OF line(1)])
qed

lemma put_torn_file:
  assumes ok: "row_ok json_print json_of ser de r" and k: "k \<le> length (json_print (ser r))"
  shows "records (parse_jsonl json_of de (file_put json_print ser (AppendError (Suc k)) r file))
           = records (parse_jsonl json_of de file) @ torn_rows json_of de file"
    and "torn_rows json_of de (file_put json_print ser (AppendError (Suc k)) r file) \<in> {[], [r]}"
proof -
  let ?line = "json_print (ser r)"
  have line: "NL \<notin> set ?line" "parse_row json_of de ?line = Some r"
    using ok by (simp_all add: row_ok_def json_ok_def)
  have cut: "parse_row json_of de (take k ?line) = None" if "k < length ?line"
    using ok that by (simp add: row_ok_def json_ok_def parse_row_def [of json_of de "take k ?line"])
  show "records (parse_jsonl json_of de (file_put json_print ser (AppendError (Suc k)) r file))
      = records (parse_jsonl json_of de file) @ torn_rows json_of de file"
    by (simp add: parse_jsonl_def file_put_def append_line_def lines_after_torn(1) [OF line(1) k] torn_rows_def parse_lines_append(1)
        del: parse_lines.simps take_Suc)
  have "torn_rows json_of de (file_put json_print ser (AppendError (Suc k)) r file)
      = records (parse_lines (parse_row json_of de) [take k ?line])"
    by (simp add: torn_rows_def file_put_def append_line_def lines_after_torn(2) [OF line(1) k] del: parse_lines.simps take_Suc)
  also have "\<dots> \<in> {[], [r]}"
    unfolding parse_line_one using line cut k by (cases "k = length ?line") auto
  finally show "torn_rows json_of de (file_put json_print ser (AppendError (Suc k)) r file) \<in> {[], [r]}" .
qed

lemma put_overrun: "length (json_print (ser r)) + 2 \<le> k \<Longrightarrow>
    file_put json_print ser (AppendError k) r file = file_put json_print ser AppendOk r file"
  by (simp add: file_put_def append_line_def frame_record_def)

interpretation jsonl: record_log "row_ok json_print json_of ser de"
    "\<lambda>file. records (parse_jsonl json_of de file)" "torn_rows json_of de" "file_put json_print ser"
  for json_print json_of ser de
proof (unfold_locales, goal_cases)
  case (1 r s)
  then show ?case by (simp add: put_ok_file)
next
  case (2 r k s)
  consider "k = 0" | j where "k = Suc j" "j \<le> length (json_print (ser r))" | "length (json_print (ser r)) + 2 \<le> k"
    by (cases k) force+
  then show ?case
  proof cases
    case 1
    then show ?thesis by (simp add: file_put_def append_line_def)
  next
    case 2
    then show ?thesis using put_torn_file [OF \<open>row_ok json_print json_of ser de r\<close> 2(2)] by blast
  next
    case 3
    then show ?thesis using put_ok_file [OF \<open>row_ok json_print json_of ser de r\<close>] by (simp add: put_overrun)
  qed
qed

end
