(* ===== verification/Ledger_Props.thy ===== *)
theory Ledger_Props
  imports Ledger_Log "HOL-Library.Multiset"
begin

text \<open>
  Properties of the disposition ledger: which rows are read, what any history of appends leaves, what
  the summaries say, and that a delivery once recorded stays recorded.
\<close>

subsection \<open>The strict reader\<close>

definition key_ok :: "string \<Rightarrow> jval \<Rightarrow> bool" where
  "key_ok k j \<longleftrightarrow>
     (k = ''v'' \<and> as_u32 j \<noteq> None \<or> k = ''correlation_id'' \<and> as_str j \<noteq> None \<or> k = ''event'' \<and> as_kind j \<noteq> None
      \<or> k = ''created_at'' \<and> as_i64 j \<noteq> None \<or> (k = ''class'' \<or> k = ''body_digest'') \<and> as_str j \<noteq> None)"

definition slots_of :: "(string \<rightharpoonup> jval) \<Rightarrow> slots" where
  "slots_of m = \<lparr>sl_v = m ''v'' \<bind> as_u32, sl_correlation_id = m ''correlation_id'' \<bind> as_str, sl_event = m ''event'' \<bind> as_kind,
     sl_created_at = m ''created_at'' \<bind> as_i64, sl_class = m ''class'' \<bind> as_str, sl_body_digest = m ''body_digest'' \<bind> as_str\<rparr>"

definition members_ok :: "members \<Rightarrow> bool" where
  "members_ok ms \<longleftrightarrow> distinct (map fst ms) \<and> (\<forall>(k, j) \<in> set ms. key_ok k j)"

lemma visit_map_append:
  "visit_map (ms @ [(k, j)]) s = (case visit_map ms s of Inl e \<Rightarrow> Inl e | Inr s \<Rightarrow> visit_key k j s)"
  by (induction ms s rule: visit_map.induct) (auto split: sum.splits)

lemma set_once_Inr: "set_once f conv j slot = Inr x \<longleftrightarrow> slot = None \<and> conv j \<noteq> None \<and> x = conv j"
  by (auto simp: set_once_def split: option.splits)

lemma map_sum_Inr: "map_sum id f m = Inr s \<longleftrightarrow> (\<exists>x. m = Inr x \<and> s = f x)"
  by (cases m) auto

lemma visit_key_slots:
  assumes "\<forall>j. m k = Some j \<longrightarrow> key_ok k j"
  shows "visit_key k j (slots_of m) = Inr s \<longleftrightarrow> m k = None \<and> key_ok k j \<and> s = slots_of (m(k \<mapsto> j))"
proof -
  have taken: "m k \<bind> conv = None \<longleftrightarrow> m k = None" if "\<And>j. key_ok k j \<Longrightarrow> conv j \<noteq> None" for conv :: "jval \<Rightarrow> 'b option"
  proof (cases "m k")
    case (Some j)
    then have "conv j \<noteq> None" using assms that by blast
    then show ?thesis using Some by simp
  qed simp
  note defs = visit_key_def key_ok_def map_sum_Inr set_once_Inr slots_of_def
  consider "k = ''v''" | "k = ''correlation_id''" | "k = ''event''" | "k = ''created_at''" | "k = ''class''" | "k = ''body_digest''"
    | "k \<noteq> ''v''" "k \<noteq> ''correlation_id''" "k \<noteq> ''event''" "k \<noteq> ''created_at''" "k \<noteq> ''class''" "k \<noteq> ''body_digest''"
    by satx
  then show ?thesis
  proof cases
    case 1 then show ?thesis using taken [of as_u32] by (auto simp: defs)
  next
    case 2 then show ?thesis using taken [of as_str] by (auto simp: defs)
  next
    case 3 then show ?thesis using taken [of as_kind] by (auto simp: defs)
  next
    case 4 then show ?thesis using taken [of as_i64] by (auto simp: defs)
  next
    case 5 then show ?thesis using taken [of as_str] by (auto simp: defs)
  next
    case 6 then show ?thesis using taken [of as_str] by (auto simp: defs)
  next
    case 7 then show ?thesis by (simp add: defs)
  qed
qed

lemma visit_map_iff: "visit_map ms no_slots = Inr s \<longleftrightarrow> members_ok ms \<and> s = slots_of (map_of ms)"
proof (induction ms arbitrary: s rule: rev_induct)
  case Nil
  show ?case by (auto simp: members_ok_def slots_of_def no_slots_def)
next
  case (snoc kj ms)
  obtain k j where kj: "kj = (k, j)" by force
  show ?case
  proof (cases "members_ok ms")
    case True
    then have v: "visit_map ms no_slots = Inr (slots_of (map_of ms))" using snoc by blast
    have known: "\<forall>j. map_of ms k = Some j \<longrightarrow> key_ok k j" using True by (auto simp: members_ok_def dest: map_of_SomeD)
    have ext: "map_of (ms @ [(k, j)]) = (map_of ms)(k \<mapsto> j)" if "map_of ms k = None"
      using that by (auto simp: map_add_def fun_eq_iff split: option.splits)
    have fresh: "map_of ms k = None \<longleftrightarrow> k \<notin> set (map fst ms)" by (simp add: map_of_eq_None_iff)
    show ?thesis
      unfolding kj visit_map_append v sum.case visit_key_slots [where m = "map_of ms" and k = k, OF known]
      using True ext fresh by (auto simp: members_ok_def)
  next
    case False
    then have "\<not> members_ok (ms @ [kj])" by (auto simp: members_ok_def)
    moreover have "visit_map ms no_slots \<noteq> Inr s" for s using False snoc by blast
    ultimately show ?thesis unfolding kj visit_map_append by (cases "visit_map ms no_slots") auto
  qed
qed

lemma as_str_iff: "as_str j = Some x \<longleftrightarrow> j = JStr x"
  by (cases j) auto

lemma as_i64_iff: "as_i64 j = Some t \<longleftrightarrow> j = JInt t \<and> - (2 ^ 63) \<le> t \<and> t < 2 ^ 63"
  by (cases j) auto

lemma kind_of_str_iff: "kind_of_str s = Some k \<longleftrightarrow> s = kind_str k"
  by (cases k) (auto simp: kind_of_str_def)

lemma as_kind_iff: "as_kind j = Some k \<longleftrightarrow> (\<exists>g \<in> {JStr, JUnit}. j = g (kind_str k))"
  by (cases j) (auto simp: kind_of_str_iff)

text \<open>The members of a row in the two forms the reader knows; the writer uses the first, \<open>g = JStr\<close>.\<close>

definition event_members :: "(string \<Rightarrow> jval) \<Rightarrow> DispositionEvent \<Rightarrow> members" where
  "event_members g e =
     [(''v'', JInt 1), (''correlation_id'', JStr (correlation_id e)), (''event'', g (kind_str (kind e))),
      (''created_at'', JInt (created_at e))] @ event_tail e"

lemma serialize_members: "serialize_event e = event_members JStr e"
  by (simp add: serialize_event_def event_members_def)

lemma deserialize_members: "g \<in> {JStr, JUnit} \<Longrightarrow> event_wf e \<Longrightarrow> deserialize_event (event_members g e) = Inr e"
  by (cases e) (auto simp: event_wf_def event_members_def deserialize_event_def no_slots_def visit_key_def set_once_def kind_of_str_def)

lemma versioned_members: "versioned (event_members g e)"
  by (cases e) (simp_all add: versioned_def value_get_def event_members_def)

lemma map_of_rev_distinct: "distinct (map fst ms) \<Longrightarrow> map_of (rev ms) = map_of ms"
  by (rule map_of_inject_set [THEN iffD2]) (simp_all add: rev_map [symmetric])

lemma event_members_ok: "g \<in> {JStr, JUnit} \<Longrightarrow> event_wf e \<Longrightarrow> members_ok (event_members g e)"
  by (cases e) (auto simp: members_ok_def event_members_def key_ok_def event_wf_def kind_of_str_def)

lemma deserialize_cong:
  "members_ok ms \<Longrightarrow> members_ok ms' \<Longrightarrow> map_of ms = map_of ms' \<Longrightarrow> deserialize_event ms = deserialize_event ms'"
  using visit_map_iff [of ms "slots_of (map_of ms)"] visit_map_iff [of ms' "slots_of (map_of ms')"]
  by (simp add: deserialize_event_def)

lemma build_event_Inr:
  "build_event k i t cls dig = Inr e \<Longrightarrow>
     kind e = k \<and> correlation_id e = i \<and> created_at e = t
     \<and> map_of (event_tail e) ''class'' = map_option JStr cls \<and> map_of (event_tail e) ''body_digest'' = map_option JStr dig"
  by (cases k) (auto split: if_splits option.splits)

lemma deserialize_Inr:
  assumes de: "deserialize_event ms = Inr e"
  shows "members_ok ms" "event_wf e" "map_of ms ''correlation_id'' = Some (JStr (correlation_id e))"
    "\<exists>g \<in> {JStr, JUnit}. map_of ms ''event'' = Some (g (kind_str (kind e)))" "map_of ms ''created_at'' = Some (JInt (created_at e))"
    "map_of ms ''class'' = map_of (event_tail e) ''class''" "map_of ms ''body_digest'' = map_of (event_tail e) ''body_digest''"
proof -
  obtain s where "visit_map ms no_slots = Inr s"
    using de by (auto simp: deserialize_event_def split: sum.splits)
  then have ok: "members_ok ms" and s: "visit_map ms no_slots = Inr (slots_of (map_of ms))"
    using visit_map_iff by blast+
  obtain i k t where i: "map_of ms ''correlation_id'' \<bind> as_str = Some i" and k: "map_of ms ''event'' \<bind> as_kind = Some k"
    and t: "map_of ms ''created_at'' \<bind> as_i64 = Some t"
    and b: "build_event k i t (map_of ms ''class'' \<bind> as_str) (map_of ms ''body_digest'' \<bind> as_str) = Inr e"
    using de unfolding deserialize_event_def s by (auto simp: slots_of_def split: option.splits)
  have str: "map_option JStr (map_of ms k \<bind> as_str) = map_of ms k" if key: "k = ''class'' \<or> k = ''body_digest''" for k
  proof (cases "map_of ms k")
    case (Some j)
    then have "key_ok k j" using ok by (auto simp: members_ok_def dest: map_of_SomeD)
    then obtain x where "as_str j = Some x" using key by (auto simp: key_ok_def)
    then show ?thesis using Some by (simp add: as_str_iff)
  qed simp
  show "members_ok ms" by (rule ok)
  show "map_of ms ''correlation_id'' = Some (JStr (correlation_id e))" "\<exists>g \<in> {JStr, JUnit}. map_of ms ''event'' = Some (g (kind_str (kind e)))"
    "map_of ms ''created_at'' = Some (JInt (created_at e))" "event_wf e"
    using i k t build_event_Inr [OF b] by (auto simp: Option.bind_eq_Some_conv as_str_iff as_kind_iff as_i64_iff event_wf_def)
  show "map_of ms ''class'' = map_of (event_tail e) ''class''" "map_of ms ''body_digest'' = map_of (event_tail e) ''body_digest''"
    using build_event_Inr [OF b] str by simp_all
qed

lemma event_tail_keys: "map_of (event_tail e) k = Some j \<Longrightarrow> k = ''class'' \<or> k = ''body_digest''"
  by (cases e) (auto split: if_splits)

lemma map_of_row:
  assumes de: "deserialize_event ms = Inr e" and v: "map_of ms ''v'' = Some (JInt 1)"
  shows "\<exists>g \<in> {JStr, JUnit}. map_of ms = map_of (event_members g e)"
proof -
  note facts = deserialize_Inr [OF de] v
  then obtain g where g: "g \<in> {JStr, JUnit}" "map_of ms ''event'' = Some (g (kind_str (kind e)))" by blast
  have "map_of ms k = map_of (event_members g e) k" for k
  proof -
  consider "k = ''v''" | "k = ''correlation_id''" | "k = ''event''" | "k = ''created_at''" | "k = ''class'' \<or> k = ''body_digest''"
    | "k \<noteq> ''v''" "k \<noteq> ''correlation_id''" "k \<noteq> ''event''" "k \<noteq> ''created_at''" "k \<noteq> ''class''" "k \<noteq> ''body_digest''"
    by satx
  then show ?thesis
  proof cases
    case 6
    then have "\<not> key_ok k j" for j by (simp add: key_ok_def)
    then have "map_of ms k = None" using facts(1) by (cases "map_of ms k") (auto simp: members_ok_def dest: map_of_SomeD)
    moreover have "map_of (event_tail e) k = None" using 6 event_tail_keys by (cases "map_of (event_tail e) k") auto
    ultimately show ?thesis using 6 by (simp add: event_members_def)
  qed (use facts g in \<open>auto simp: event_members_def\<close>)
  qed
  then show ?thesis using g(1) by blast
qed

lemma parse_row_iff:
  "parse_row json_of de line = Some x \<longleftrightarrow> (\<exists>ms. json_of line = Some ms \<and> versioned ms \<and> de ms = Inr x)"
  by (cases "json_of line") (auto simp: parse_row_def split: sum.splits)

text \<open>
  C31. The event reader is exact: a line is read as event \<open>e\<close> if and only if it is a JSON object whose
  members are, in some order, exactly the members that writing \<open>e\<close> gives, with the time in the range
  of an \<open>i64\<close>, where the kind stands as its name (as the writer puts it) or as the object that maps the
  name to \<open>null\<close> (which the derived reader of the enum also takes). A duplicated, foreign, missing or
  extra field, or another version, is never read.
\<close>

theorem event_row_exact:
  "parse_row json_of deserialize_event line = Some e \<longleftrightarrow>
     (\<exists>ms. json_of line = Some ms \<and> (mset ms = mset (event_members JStr e) \<or> mset ms = mset (event_members JUnit e)) \<and> event_wf e)
   \<and> serialize_event e = event_members JStr e"
proof -
  have "versioned ms \<and> deserialize_event ms = Inr e \<longleftrightarrow> (\<exists>g \<in> {JStr, JUnit}. mset ms = mset (event_members g e)) \<and> event_wf e" (is "?L \<longleftrightarrow> ?R") for ms
  proof
    assume L: ?L
    then have ok: "members_ok ms" and wf: "event_wf e" using deserialize_Inr by blast+
    then have d: "distinct (map fst ms)" by (simp add: members_ok_def)
    then have "map_of ms ''v'' = Some (JInt 1)" using L by (simp add: versioned_def value_get_def map_of_rev_distinct)
    then obtain g where g: "g \<in> {JStr, JUnit}" "map_of ms = map_of (event_members g e)" using map_of_row L by blast
    have d': "distinct (map fst (event_members g e))" using event_members_ok [OF g(1) wf] by (simp add: members_ok_def)
    then have "set ms = set (event_members g e)" using g(2) d map_of_inject_set by metis
    then have "mset ms = mset (event_members g e)" using distinct_map d d' set_eq_iff_mset_eq_distinct by metis
    then show ?R using wf g(1) by blast
  next
    assume ?R
    then obtain g where g: "g \<in> {JStr, JUnit}" and R: "mset ms = mset (event_members g e)" "event_wf e" by blast
    note row = event_members_ok [OF g R(2)]
    have d: "distinct (map fst ms)"
      using row R(1) mset_map [of fst ms] mset_map [of fst "event_members g e"] by (metis members_ok_def mset_eq_imp_distinct_iff)
    have st: "set ms = set (event_members g e)" using R mset_eq_setD by blast
    then have ok: "members_ok ms" using d row by (simp add: members_ok_def)
    have m: "map_of ms = map_of (event_members g e)" using st d row by (simp add: map_of_inject_set members_ok_def)
    have "deserialize_event ms = Inr e"
      using deserialize_cong [OF ok row m] deserialize_members [OF g R(2)] by simp
    moreover have "versioned ms"
      using versioned_members [of g e] m d row by (simp add: versioned_def value_get_def map_of_rev_distinct members_ok_def)
    ultimately show ?L by blast
  qed
  then show ?thesis by (simp add: parse_row_iff serialize_members)
qed

subsection \<open>Histories of appends\<close>

definition append_events :: "(members \<Rightarrow> string) \<Rightarrow> (append_io \<times> DispositionEvent) list \<Rightarrow> Store \<Rightarrow> Store" where
  "append_events json_print hist s = fold (\<lambda>(io, e) s. snd (append_event json_print io e s)) hist s"

definition events_in :: "(string \<Rightarrow> members option) \<Rightarrow> Store \<Rightarrow> DispositionEvent list" where
  "events_in json_of s = records (read_local_events json_of s)"

definition ok_appends :: "(append_io \<times> 'r) list \<Rightarrow> 'r list" where
  "ok_appends hist = map snd (filter (\<lambda>(io, _). io = AppendOk) hist)"

lemma append_event_file:
  "snd (append_event json_print io e s) = s\<lparr>disp_file := file_put json_print serialize_event io e (disp_file s)\<rparr>"
  by (simp add: append_event_def file_put_def split: prod.splits)

lemma append_events_file:
  "append_events json_print hist s
     = s\<lparr>disp_file := fold (\<lambda>(io, e). file_put json_print serialize_event io e) hist (disp_file s)\<rparr>"
  by (induction hist arbitrary: s) (auto simp: append_events_def append_event_file)

lemma subseq_appendD1: "subseq (a @ b) c \<Longrightarrow> subseq a c"
  using subseq_order.trans prefix_imp_subseq prefixI by metis

text \<open>
  C12. A torn write loses nothing but itself. After any history of event appends, each of which
  succeeds or stops after any number of bytes and reports an error: every row that was readable
  before still is, in its place; every append that reported success is readable, in order; and
  whatever is readable was there, was the torn tail, or was appended, in order. The envelope log and
  the other files are untouched.
\<close>

theorem torn_append_isolated:
  assumes "json_ok json_print json_of" and "list_all (\<lambda>(io, e). event_wf e) hist"
  shows "prefix (events_in json_of s) (events_in json_of (append_events json_print hist s))
     \<and> subseq (events_in json_of s @ ok_appends hist) (events_in json_of (append_events json_print hist s))
     \<and> subseq (events_in json_of (append_events json_print hist s))
          (events_in json_of s @ torn_rows json_of deserialize_event (disp_file s) @ map snd hist)
     \<and> append_events json_print hist s = s\<lparr>disp_file := disp_file (append_events json_print hist s)\<rparr>"
proof -
  have "list_all (\<lambda>(io, e). row_ok json_print json_of serialize_event deserialize_event e) hist"
    using assms parse_row_event by (auto simp: list_all_iff row_ok_def)
  from jsonl.history [OF this, of "disp_file s"]
  show ?thesis
    by (auto simp: append_events_file events_in_def read_local_events_def parse_dispositions_def ok_appends_def
        intro: subseq_appendD1)
qed

theorem torn_append_isolated_witness:
  "let hist = [(AppendOk, Attempted ''a'' 1), (AppendError 30, Delivered ''a'' 2 ''d''), (AppendOk, Delivered ''a'' 3 ''d'')]
   in events_in sample_of (append_events sample_print hist \<lparr>log_file = [], disp_file = [], log_archive = [], disp_archive = [], remotes = None\<rparr>)
      = [Attempted ''a'' 1, Delivered ''a'' 3 ''d'']"
proof -
  let ?hist = "[(AppendOk, Attempted ''a'' 1), (AppendError 30, Delivered ''a'' 2 ''d''), (AppendOk, Delivered ''a'' 3 ''d'')]"
  let ?s = "\<lparr>log_file = [], disp_file = [], log_archive = [], disp_archive = [], remotes = None\<rparr>"
  have wf: "list_all (\<lambda>(io, e). event_wf e) ?hist" by (simp add: event_wf_def)
  have empty_store: "events_in sample_of ?s = []" "torn_rows sample_of deserialize_event (disp_file ?s) = []"
    by (simp_all add: events_in_def read_local_events_def parse_dispositions_def parse_jsonl_def terminated_lines_def torn_rows_def torn_tail_def)
  have "subseq (ok_appends ?hist) (events_in sample_of (append_events sample_print ?hist ?s))"
    "subseq (events_in sample_of (append_events sample_print ?hist ?s)) (map snd ?hist)"
    using torn_append_isolated [OF sample_json_ok wf, of ?s] empty_store by simp_all
  moreover have "length (events_in sample_of (append_events sample_print ?hist ?s)) = 2" by code_simp
  ultimately show ?thesis
    by (simp add: ok_appends_def Let_def) (metis subseq_same_length length_Cons list.size(3) One_nat_def numeral_2_eq_2)
qed

subsection \<open>Summaries\<close>

lemma find_map_keyed:
  "List.find (\<lambda>r. sum_correlation_id r = i) (map (ref_summary envs evs now) is)
     = (if i \<in> set is then Some (ref_summary envs evs now i) else None)"
  by (induction "is") (auto simp: ref_summary_def Let_def)

definition summary_ids :: "Envelope list \<Rightarrow> DispositionEvent list \<Rightarrow> string list" where
  "summary_ids envs evs = map env_correlation_id (first_envelopes [] envs)
     @ filter (\<lambda>i. i \<notin> set (map env_correlation_id envs)) (first_ids (map correlation_id evs))"

lemma summary_ids_set: "set (summary_ids envs evs) = env_correlation_id ` set envs \<union> correlation_id ` set evs"
  using first_envelopes_ids [of "[]" envs] by (auto simp: summary_ids_def)

lemma summary_ids_distinct: "distinct (summary_ids envs evs)"
  using first_envelopes_ids [of "[]" envs] first_envelopes_distinct [of "[]" envs] by (auto simp: summary_ids_def)

lemma project_summary_ids:
  "length evs < 2 ^ 32 \<Longrightarrow> \<forall>e \<in> set evs. I64_MIN \<le> created_at e \<Longrightarrow>
     project_summary envs evs now = Some (map (ref_summary envs evs now) (summary_ids envs evs))"
  by (simp only: project_summary_ref summary_ids_def)

lemma project_one_ref:
  assumes "length evs < 2 ^ 32" "\<forall>e \<in> set evs. I64_MIN \<le> created_at e"
  shows "project_one envs evs now i =
    Some (if i \<in> env_correlation_id ` set envs \<union> correlation_id ` set evs then Some (ref_summary envs evs now i) else None)"
  unfolding project_one_def project_summary_ids [OF assms] by (simp add: find_map_keyed summary_ids_set)

text \<open>
  C23. The incremental projection is the declarative one: there is exactly one summary per id that
  occurs in an envelope or an event, and it is \<open>ref_summary\<close>, defined over all events of the id with
  no fold: delivered wins over expired, expired over failed, the last event is the latest by time with
  ties to the later row, and the attempt count, the last attempt and the first delivery are the count,
  maximum and minimum over the events. \<open>project_one\<close> returns exactly that summary.
\<close>

theorem summaries_match_reference:
  assumes "length evs < 2 ^ 32" "\<forall>e \<in> set evs. I64_MIN \<le> created_at e"
  shows "\<exists>rs. project_summary envs evs now = Some rs
     \<and> distinct (map sum_correlation_id rs)
     \<and> set (map sum_correlation_id rs) = env_correlation_id ` set envs \<union> correlation_id ` set evs
     \<and> (\<forall>r \<in> set rs. r = ref_summary envs evs now (sum_correlation_id r))
     \<and> (\<forall>i. project_one envs evs now i =
           Some (if i \<in> env_correlation_id ` set envs \<union> correlation_id ` set evs then Some (ref_summary envs evs now i) else None))"
proof -
  have "sum_correlation_id (ref_summary envs evs now i) = i" for i by (simp add: ref_summary_def Let_def)
  then have ids: "map sum_correlation_id (map (ref_summary envs evs now) is) = is" for "is" by (simp add: comp_def)
  have one: "\<forall>i. project_one envs evs now i = Some (if i \<in> env_correlation_id ` set envs \<union> correlation_id ` set evs
      then Some (ref_summary envs evs now i) else None)" using project_one_ref [OF assms] by blast
  show ?thesis
    by (intro exI [of _ "map (ref_summary envs evs now) (summary_ids envs evs)"] conjI one)
      (simp_all only: project_summary_ids [OF assms] ids summary_ids_set summary_ids_distinct,
        auto simp: ref_summary_def Let_def)
qed

theorem summaries_match_reference_witness:
  "\<exists>r. project_one [] [Attempted ''a'' 5, Delivered ''a'' 9 ''d'', DeliveryFailed ''a'' 7 ''c''] 100 ''a'' = Some (Some r)
     \<and> sum_state r = SDelivered \<and> sum_attempts r = 1 \<and> sum_last_event r = Some KDelivered \<and> sum_first_delivered_at r = Some 9"
proof -
  let ?evs = "[Attempted ''a'' 5, Delivered ''a'' 9 ''d'', DeliveryFailed ''a'' 7 ''c'']"
  have hyps: "length ?evs < 2 ^ 32" "\<forall>e \<in> set ?evs. I64_MIN \<le> created_at e" by (simp_all add: I64_MIN_def)
  have "\<forall>i. project_one [] ?evs 100 i = Some (if i \<in> env_correlation_id ` set ([] :: Envelope list) \<union> correlation_id ` set ?evs
      then Some (ref_summary [] ?evs 100 i) else None)"
    using summaries_match_reference [OF hyps, of "[]" 100] by (elim exE conjE)
  then have "project_one [] ?evs 100 ''a'' = Some (Some (ref_summary [] ?evs 100 ''a''))" by simp
  then show ?thesis
    by (simp add: ref_summary_def ref_events_def has_delivered_def latest_def times_of_def min_opt_def Let_def)
qed

subsection \<open>Reading several hosts\<close>

text \<open>
  What a scoped read returns does not depend on the order in which the file system lists the
  remote hosts' directories: two listings of the same directories give the same rows in the same
  order, for every scope, and so the same answer to every query.
\<close>

theorem listing_order_irrelevant:
  assumes "mset dirs = mset dirs'" and "distinct (map fst dirs)"
  shows "read_scoped json_of (s\<lparr>remotes := Some dirs\<rparr>) scope archive = read_scoped json_of (s\<lparr>remotes := Some dirs'\<rparr>) scope archive"
proof -
  have "mset (map fst dirs) = mset (map fst dirs')" using assms(1) by simp
  then have hosts: "sort (map fst dirs) = sort (map fst dirs')" and d: "distinct (map fst dirs')"
    using assms(2) mset_eq_imp_distinct_iff [of "map fst dirs" "map fst dirs'"] by (simp_all add: properties_for_sort)
  have "map_of dirs = map_of dirs'" using assms d mset_eq_setD by (simp add: map_of_inject_set)
  then have "remote_files (s\<lparr>remotes := Some dirs\<rparr>) = remote_files (s\<lparr>remotes := Some dirs'\<rparr>)"
    by (simp add: fun_eq_iff remote_files_def)
  then show ?thesis using hosts by (cases scope) (simp_all add: read_scoped_def remote_hosts_def Let_def)
qed

theorem listing_order_irrelevant_witness:
  "let s = \<lparr>log_file = [], disp_file = [], log_archive = [], disp_archive = [], remotes = None\<rparr>
   in read_scoped sample_of (s\<lparr>remotes := Some [(''b'', [], []), (''a'', [], [])]\<rparr>) All True
      = read_scoped sample_of (s\<lparr>remotes := Some [(''a'', [], []), (''b'', [], [])]\<rparr>) All True"
  using listing_order_irrelevant [of "[(''b'', [], []), (''a'', [], [])]" "[(''a'', [], []), (''b'', [], [])]"] by simp

subsection \<open>Delivery is final\<close>

lemma parsed_event_wf: "e \<in> set (records (parse_dispositions json_of bs)) \<Longrightarrow> event_wf e"
proof -
  have "e \<in> set (records (parse_lines (parse_row json_of deserialize_event) ls)) \<Longrightarrow> event_wf e" for ls
    by (induction ls) (auto simp: Let_def parse_row_iff dest: deserialize_Inr(2) split: if_splits option.splits)
  then show "e \<in> set (records (parse_dispositions json_of bs)) \<Longrightarrow> event_wf e" by (simp add: parse_dispositions_def parse_jsonl_def)
qed

lemma torn_rows_short: "length (torn_rows json_of de file) \<le> 1"
  unfolding torn_rows_def parse_line_one by (simp split: option.splits)

text \<open>
  Delivery is final: once a delivered event for an id is readable, then after any further
  appends of any events, torn or not, and at any later time, the summary of the id says delivered,
  whatever its envelope says of expiry and whatever failures follow.
\<close>

theorem delivered_is_final:
  assumes "json_ok json_print json_of" and "list_all (\<lambda>(io, e). event_wf e) hist"
    and "has_delivered (events_in json_of s) i"
    and "length (events_in json_of s) + length hist + 1 < 2 ^ 32"
  shows "\<exists>r. query_summary json_of (append_events json_print hist s) Local False now (Some i) = Some [r]
     \<and> sum_correlation_id r = i \<and> sum_state r = SDelivered"
proof -
  let ?evs = "events_in json_of (append_events json_print hist s)"
  have h: "list_all (\<lambda>(io, e). row_ok json_print json_of serialize_event deserialize_event e) hist"
    using assms(1,2) parse_row_event by (auto simp: list_all_iff row_ok_def)
  have sub: "prefix (events_in json_of s) ?evs"
    "subseq ?evs (events_in json_of s @ torn_rows json_of deserialize_event (disp_file s) @ map snd hist)"
    using jsonl.history [OF h, of "disp_file s"]
    by (auto simp: append_events_file events_in_def read_local_events_def parse_dispositions_def intro: subseq_appendD1)
  have del: "has_delivered ?evs i" using sub(1) assms(3) by (auto simp: prefix_def has_delivered_def)
  then have mem: "i \<in> correlation_id ` set ?evs" by (auto simp: has_delivered_def list_ex_iff)
  have "length ?evs < 2 ^ 32"
    using list_emb_length [OF sub(2)] torn_rows_short [of json_of deserialize_event "disp_file s"] assms(4) by simp
  moreover have "\<forall>e \<in> set ?evs. I64_MIN \<le> created_at e"
    using parsed_event_wf by (auto simp: events_in_def read_local_events_def event_wf_def I64_MIN_def)
  ultimately have "project_one envs ?evs now i = Some (Some (ref_summary envs ?evs now i))" for envs
    using mem by (simp add: project_one_ref)
  then show ?thesis
    using del by (simp add: query_summary_def read_scoped_def accumulate_def events_in_def read_local_events_def ref_summary_def Let_def)
qed

theorem delivered_is_final_witness:
  "let s = \<lparr>log_file = [], disp_file = sample_print (serialize_event (Delivered ''a'' 2 ''d'')) @ [NL], log_archive = [],
            disp_archive = [], remotes = None\<rparr>
   in \<exists>r. query_summary sample_of (append_events sample_print [(AppendError 7, DeliveryFailed ''a'' 9 ''c'')] s) Local False 100 (Some ''a'') = Some [r]
     \<and> sum_correlation_id r = ''a'' \<and> sum_state r = SDelivered"
proof -
  let ?s = "\<lparr>log_file = [], disp_file = sample_print (serialize_event (Delivered ''a'' 2 ''d'')) @ [NL], log_archive = [],
            disp_archive = [], remotes = None\<rparr>"
  have s: "events_in sample_of ?s = [Delivered ''a'' 2 ''d'']" by code_simp
  show ?thesis
    using delivered_is_final [OF sample_json_ok, of "[(AppendError 7, DeliveryFailed ''a'' 9 ''c'')]" ?s "''a''" 100]
    by (simp add: s has_delivered_def event_wf_def Let_def)
qed

end
