(* ===== verification/Rust_Str.thy ===== *)
theory Rust_Str
  imports Prelude
begin

text \<open>
  The string operations of the Rust standard library that the routing components use. A string is its
  UTF-8 bytes. \<open>to_lowercase\<close> is a parameter of the definitions that use it, since the Unicode tables
  are not part of the program.
\<close>

subsection \<open>Splitting\<close>

definition rsplit_once :: "char \<Rightarrow> string \<Rightarrow> (string \<times> string) option" where
  "rsplit_once c s =
     (if c \<in> set s
      then Some (rev (tl (dropWhile (\<lambda>x. x \<noteq> c) (rev s))), rev (takeWhile (\<lambda>x. x \<noteq> c) (rev s)))
      else None)"

lemma rsplit_once_Some: "c \<notin> set b \<Longrightarrow> rsplit_once c (a @ c # b) = Some (a, b)"
proof -
  assume "c \<notin> set b"
  then have "takeWhile (\<lambda>x. x \<noteq> c) (rev b @ c # rev a) = rev b" "dropWhile (\<lambda>x. x \<noteq> c) (rev b @ c # rev a) = c # rev a"
    by (subst takeWhile_append2 dropWhile_append2; auto)+
  then show ?thesis by (simp add: rsplit_once_def)
qed

lemma rsplit_once_iff: "rsplit_once c s = Some (a, b) \<longleftrightarrow> s = a @ c # b \<and> c \<notin> set b"
proof
  assume "rsplit_once c s = Some (a, b)"
  then have c: "c \<in> set s" and a: "a = rev (tl (dropWhile (\<lambda>x. x \<noteq> c) (rev s)))" and b: "b = rev (takeWhile (\<lambda>x. x \<noteq> c) (rev s))"
    by (auto simp: rsplit_once_def split: if_splits)
  from c have ne: "dropWhile (\<lambda>x. x \<noteq> c) (rev s) \<noteq> []" by auto
  then have "dropWhile (\<lambda>x. x \<noteq> c) (rev s) = c # tl (dropWhile (\<lambda>x. x \<noteq> c) (rev s))"
    using hd_dropWhile [OF ne] by (metis list.collapse)
  then have "rev s = rev b @ c # rev a" using a b takeWhile_dropWhile_id [of "\<lambda>x. x \<noteq> c" "rev s"] by simp
  then have "s = a @ c # b" by (metis append.assoc append_Cons append_Nil rev_append rev_rev_ident rev.simps(2))
  moreover have "c \<notin> set b" using b by (auto dest: set_takeWhileD)
  ultimately show "s = a @ c # b \<and> c \<notin> set b" by blast
qed (auto intro: rsplit_once_Some)

lemma rsplit_once_None: "rsplit_once c s = None \<longleftrightarrow> c \<notin> set s"
  by (simp add: rsplit_once_def)

subsection \<open>Characters\<close>

definition continuation_byte :: "char \<Rightarrow> bool" where
  "continuation_byte c \<longleftrightarrow> of_char c \<ge> (0x80 :: nat) \<and> of_char c < (0xC0 :: nat)"

definition chars_count :: "string \<Rightarrow> nat" where
  "chars_count s = length (filter (\<lambda>c. \<not> continuation_byte c) s)"

function to_chars :: "string \<Rightarrow> string list" where
  "to_chars [] = []"
| "to_chars (c # cs) = (c # takeWhile continuation_byte cs) # to_chars (dropWhile continuation_byte cs)"
  by pat_completeness auto
termination
  by (relation "measure length") (auto simp: le_imp_less_Suc length_dropWhile_le)

definition is_digit :: "char \<Rightarrow> bool" where
  "is_digit c \<longleftrightarrow> of_char c \<ge> (48 :: nat) \<and> of_char c \<le> (57 :: nat)"

definition digit_val :: "char \<Rightarrow> int" where
  "digit_val c = int (of_char c) - 48"

text \<open>The number of bytes of the white space character at the head, 0 if there is none.\<close>

definition ws_head :: "string \<Rightarrow> nat" where
  "ws_head s =
     (case s of [] \<Rightarrow> 0
      | a # s1 \<Rightarrow>
        if of_char a \<in> {9 :: nat, 10, 11, 12, 13, 32} then 1
        else (case s1 of [] \<Rightarrow> 0
              | b # s2 \<Rightarrow>
                if a = CHR 0xC2 \<and> (b = CHR 0x85 \<or> b = CHR 0xA0) then 2
                else (case s2 of [] \<Rightarrow> 0
                      | c # _ \<Rightarrow>
                        if a = CHR 0xE1 \<and> b = CHR 0x9A \<and> c = CHR 0x80
                           \<or> a = CHR 0xE2 \<and> b = CHR 0x80 \<and> ((0x80 :: nat) \<le> of_char c \<and> of_char c \<le> (0x8A :: nat) \<or> c = CHR 0xA8 \<or> c = CHR 0xA9 \<or> c = CHR 0xAF)
                           \<or> a = CHR 0xE2 \<and> b = CHR 0x81 \<and> c = CHR 0x9F
                           \<or> a = CHR 0xE3 \<and> b = CHR 0x80 \<and> c = CHR 0x80
                        then 3 else 0)))"

lemma ws_head_pos: "ws_head s \<noteq> 0 \<Longrightarrow> s \<noteq> []"
  by (auto simp: ws_head_def)

lemma ws_head_ascii:
  assumes "of_char c < (128 :: nat)" "of_char c \<notin> {9 :: nat, 10, 11, 12, 13, 32}"
  shows "ws_head (c # s) = 0"
proof -
  have "c \<noteq> CHR 0xC2" using assms(1) by (rule contrapos_pn) (simp only:, simp)
  moreover have "c \<noteq> CHR 0xE1" using assms(1) by (rule contrapos_pn) (simp only:, simp)
  moreover have "c \<noteq> CHR 0xE2" using assms(1) by (rule contrapos_pn) (simp only:, simp)
  moreover have "c \<noteq> CHR 0xE3" using assms(1) by (rule contrapos_pn) (simp only:, simp)
  ultimately show ?thesis
    unfolding ws_head_def using assms(2) by (simp only: list.case if_False simp_thms) (simp only: list.case_eq_if if_cancel simp_thms)
qed

lemma ws_head_two: "ws_head (a # b # s) = 2 \<Longrightarrow> b = CHR 0x85 \<or> b = CHR 0xA0"
  unfolding ws_head_def by (simp only: list.case split: if_splits list.splits)

lemma ws_head_three: "ws_head (a # b # c # s) = 3 \<Longrightarrow> (0x80 :: nat) \<le> of_char c"
  unfolding ws_head_def by (simp only: list.case split: if_splits) auto

function trim_start :: "string \<Rightarrow> string" where
  "trim_start s = (if ws_head s = 0 then s else trim_start (drop (ws_head s) s))"
  by auto
termination
proof (relation "measure length", goal_cases)
  case (2 s)
  then have "0 < ws_head s" "s \<noteq> []" using ws_head_pos by auto
  then show ?case by (simp add: length_greater_0_conv [symmetric] del: length_greater_0_conv)
qed simp

declare trim_start.simps [simp del]

text \<open>The same at the end: the last character is the shortest suffix that starts with no continuation byte.\<close>

definition ws_last :: "string \<Rightarrow> nat" where
  "ws_last s =
     (if 1 \<le> length s \<and> ws_head (drop (length s - 1) s) = 1 then 1
      else if 2 \<le> length s \<and> ws_head (drop (length s - 2) s) = 2 then 2
      else if 3 \<le> length s \<and> ws_head (drop (length s - 3) s) = 3 then 3 else 0)"

lemma ws_last_le: "ws_last s \<le> length s"
  by (simp add: ws_last_def)

lemma ws_last_bracket: "ws_last (xs @ '']'') = 0"
proof -
  let ?s = "xs @ '']''"
  have "drop (length ?s - 1) ?s = '']''" by simp
  then have one: "ws_head (drop (length ?s - 1) ?s) = 0" by (simp only:) (simp add: ws_head_ascii)
  have two: "ws_head (drop (length ?s - 2) ?s) \<noteq> 2" if len: "2 \<le> length ?s"
  proof -
    obtain ys a where "xs = ys @ [a]" using len by (cases xs rule: rev_cases) auto
    then have d: "drop (length ?s - 2) ?s = [a, CHR '']'']" by simp
    show ?thesis unfolding d using ws_head_two [of a "CHR '']''" "[]"] by auto
  qed
  have three: "ws_head (drop (length ?s - 3) ?s) \<noteq> 3" if len: "3 \<le> length ?s"
  proof -
    obtain zs b where z: "xs = zs @ [b]" using len by (cases xs rule: rev_cases) auto
    obtain ys a where "zs = ys @ [a]" using len z by (cases zs rule: rev_cases) auto
    then have d: "drop (length ?s - 3) ?s = [a, b, CHR '']'']" using z by simp
    show ?thesis unfolding d using ws_head_three [of a b "CHR '']''" "[]"] by auto
  qed
  show ?thesis unfolding ws_last_def one using two three by (simp only: if_False simp_thms zero_neq_one split: if_splits) blast
qed

function trim_end :: "string \<Rightarrow> string" where
  "trim_end s = (if ws_last s = 0 then s else trim_end (take (length s - ws_last s) s))"
  by auto
termination
proof (relation "measure length", goal_cases)
  case (2 s)
  then show ?case using ws_last_le [of s] by simp
qed simp

declare trim_end.simps [simp del]

definition trim :: "string \<Rightarrow> string" where
  "trim s = trim_end (trim_start s)"

subsection \<open>Numbers\<close>

fun digits_val :: "int \<Rightarrow> string \<Rightarrow> int option" where
  "digits_val acc [] = Some acc"
| "digits_val acc (c # cs) = (if is_digit c then digits_val (acc * 10 + digit_val c) cs else None)"

text \<open>\<open>str::parse::<i64>\<close>: an optional sign and at least one digit, in range.\<close>

definition parse_i64 :: "string \<Rightarrow> int option" where
  "parse_i64 s =
     (let neg = (s \<noteq> [] \<and> hd s = CHR ''-''); ds = (if s \<noteq> [] \<and> (hd s = CHR ''-'' \<or> hd s = CHR ''+'') then tl s else s)
      in if ds = [] then None
         else case digits_val 0 ds of None \<Rightarrow> None
              | Some n \<Rightarrow> (let v = (if neg then - n else n) in if - (2 ^ 63) \<le> v \<and> v < 2 ^ 63 then Some v else None))"

end
