(* ===== verification/Time_Format.thy ===== *)
theory Time_Format
  imports Rust_Str
begin

text \<open>
  Timestamps (\<open>crates/quorum-core/src/timefmt.rs\<close>): civil dates from a day count and back, the ISO
  form that the stores write and its strict parser. The \<open>i64\<close> arithmetic is over \<open>int\<close>: a day count
  of an \<open>i64\<close> of milliseconds is below \<open>2 ^ 37\<close>, so no step overflows. Rust's \<open>/\<close> truncates; the
  code only divides non-negative numbers by it, after the adjustments that are written out here.
\<close>

subsection \<open>Civil dates\<close>

definition tdiv :: "int \<Rightarrow> int \<Rightarrow> int" where
  "tdiv a b = (if a \<ge> 0 then a div b else - ((- a) div b))"

definition civil_from_days :: "int \<Rightarrow> int \<times> int \<times> int" where
  "civil_from_days z0 =
     (let z = z0 + 719468;
          era = tdiv (if z \<ge> 0 then z else z - 146096) 146097;
          doe = z - era * 146097;
          yoe = tdiv (doe - tdiv doe 1460 + tdiv doe 36524 - tdiv doe 146096) 365;
          y = yoe + era * 400;
          doy = doe - (365 * yoe + tdiv yoe 4 - tdiv yoe 100);
          mp = tdiv (5 * doy + 2) 153;
          d = doy - tdiv (153 * mp + 2) 5 + 1;
          m = (if mp < 10 then mp + 3 else mp - 9)
      in (if m \<le> 2 then y + 1 else y, m, d))"

definition days_from_civil :: "int \<Rightarrow> int \<Rightarrow> int \<Rightarrow> int" where
  "days_from_civil y0 m d =
     (let y = (if m \<le> 2 then y0 - 1 else y0);
          era = tdiv (if y \<ge> 0 then y else y - 399) 400;
          yoe = y - era * 400;
          mp = (if m > 2 then m - 3 else m + 9);
          doy = tdiv (153 * mp + 2) 5 + d - 1;
          doe = yoe * 365 + tdiv yoe 4 - tdiv yoe 100 + doy
      in era * 146097 + doe - 719468)"

record Civil =
  c_year :: int
  c_month :: int
  c_day :: int
  c_hour :: int
  c_min :: int
  c_sec :: int
  c_milli :: int

definition civil_from_epoch_ms :: "int \<Rightarrow> Civil" where
  "civil_from_epoch_ms ms =
     (let total_secs = ms div 1000; milli = ms mod 1000;
          days = total_secs div 86400; secs_of_day = total_secs mod 86400;
          (y, mo, d) = civil_from_days days
      in \<lparr>c_year = y, c_month = mo, c_day = d, c_hour = tdiv secs_of_day 3600, c_min = tdiv (secs_of_day mod 3600) 60,
          c_sec = secs_of_day mod 60, c_milli = milli\<rparr>)"

subsection \<open>Text\<close>

definition digit_of :: "int \<Rightarrow> char" where
  "digit_of d = char_of (nat (48 + d))"

text \<open>Decimal digits, least significant last, and \<open>{:0w}\<close>: zeros up to the width, after a minus sign.\<close>

fun nat_digits :: "nat \<Rightarrow> string" where
  "nat_digits n = (if n < 10 then [digit_of (int n)] else nat_digits (n div 10) @ [digit_of (int (n mod 10))])"

declare nat_digits.simps [simp del]

definition pad :: "nat \<Rightarrow> int \<Rightarrow> string" where
  "pad w n =
     (let sign = (if n < 0 then ''-'' else []); ds = nat_digits (nat \<bar>n\<bar>)
      in sign @ replicate (w - length sign - length ds) (CHR ''0'') @ ds)"

definition epoch_ms_to_iso :: "int \<Rightarrow> string" where
  "epoch_ms_to_iso ms =
     (let c = civil_from_epoch_ms ms
      in pad 4 (c_year c) @ ''-'' @ pad 2 (c_month c) @ ''-'' @ pad 2 (c_day c) @ ''T'' @ pad 2 (c_hour c) @ '':''
         @ pad 2 (c_min c) @ '':'' @ pad 2 (c_sec c) @ ''.'' @ pad 3 (c_milli c) @ ''Z'')"

definition epoch_ms_to_amz_date :: "int \<Rightarrow> string" where
  "epoch_ms_to_amz_date ms =
     (let c = civil_from_epoch_ms ms
      in pad 4 (c_year c) @ pad 2 (c_month c) @ pad 2 (c_day c) @ ''T'' @ pad 2 (c_hour c) @ pad 2 (c_min c) @ pad 2 (c_sec c) @ ''Z'')"

definition epoch_ms_to_en_us_locale :: "int \<Rightarrow> string" where
  "epoch_ms_to_en_us_locale ms =
     (let c = civil_from_epoch_ms ms; h24 = c_hour c;
          (h12, ampm) = (if h24 = 0 then (12, ''AM'') else if 1 \<le> h24 \<and> h24 \<le> 11 then (h24, ''AM'')
                         else if h24 = 12 then (12, ''PM'') else (h24 - 12, ''PM''))
      in pad 0 (c_month c) @ ''/'' @ pad 0 (c_day c) @ ''/'' @ pad 0 (c_year c) @ '', '' @ pad 0 h12 @ '':'' @ pad 2 (c_min c)
         @ '':'' @ pad 2 (c_sec c) @ '' '' @ ampm)"

definition iso_field :: "string \<Rightarrow> nat \<Rightarrow> nat \<Rightarrow> int option" where
  "iso_field b lo hi = digits_val 0 (take (hi - lo) (drop lo b))"

definition iso_to_epoch_ms :: "string \<Rightarrow> int option" where
  "iso_to_epoch_ms b =
     (if length b \<noteq> 24 then None
      else if b ! 4 \<noteq> CHR ''-'' \<or> b ! 7 \<noteq> CHR ''-'' \<or> b ! 10 \<noteq> CHR ''T'' then None
      else if b ! 13 \<noteq> CHR '':'' \<or> b ! 16 \<noteq> CHR '':'' \<or> b ! 19 \<noteq> CHR ''.'' \<or> b ! 23 \<noteq> CHR ''Z'' then None
      else do {
        year \<leftarrow> iso_field b 0 4;
        month \<leftarrow> iso_field b 5 7;
        day \<leftarrow> iso_field b 8 10;
        hour \<leftarrow> iso_field b 11 13;
        min \<leftarrow> iso_field b 14 16;
        sec \<leftarrow> iso_field b 17 19;
        milli \<leftarrow> iso_field b 20 23;
        if \<not> (1 \<le> month \<and> month \<le> 12) \<or> \<not> (1 \<le> day \<and> day \<le> 31) then None
        else if hour > 23 \<or> min > 59 \<or> sec > 59 then None
        else let days = days_from_civil year month day
             in if civil_from_days days \<noteq> (year, month, day) then None
                else Some ((days * 86400 + hour * 3600 + min * 60 + sec) * 1000 + milli) })"

subsection \<open>The year of an era\<close>

text \<open>\<open>year_start y\<close> is the first day of year \<open>y\<close> of a 400 year era that begins in March.\<close>

definition year_start :: "int \<Rightarrow> int" where
  "year_start y = 365 * y + y div 4 - y div 100"

definition year_guess :: "int \<Rightarrow> int" where
  "year_guess d = (d - d div 1460 + d div 36524 - d div 146096) div 365"

lemma year_start_split:
  assumes "0 \<le> q" "q \<le> 24" "0 \<le> r" "r \<le> 3"
  shows "year_start (100 * c + 4 * q + r) = 36524 * c + 1461 * q + 365 * r"
proof -
  have "(100 * c + 4 * q + r) div 4 = 25 * c + q" "(100 * c + 4 * q + r) div 100 = c" using assms by linarith+
  then show ?thesis by (simp add: year_start_def)
qed

lemma year_guess_split:
  assumes c: "0 \<le> c" "c \<le> 3" and q: "0 \<le> q" "q \<le> 24" and r: "0 \<le> r" "r \<le> 3" and e: "0 \<le> e" "e \<le> 365" "e = 365 \<longrightarrow> r = 3"
    and d: "d = 36524 * c + 1461 * q + 365 * r + e" and last: "1461 * q + 365 * r + e < 36524"
  shows "year_guess d = 100 * c + 4 * q + r"
proof -
  have century: "d div 36524 = c" "d div 146096 = 0" using d last c q r e by linarith+
  define t where "t = 24 * c + q + 365 * r + e"
  have t: "d = 1460 * (25 * c + q) + t" "0 \<le> t" "t < 2 * 1460" using d c q r e by (simp_all add: t_def)
  show ?thesis
  proof (cases "t < 1460")
    case True
    then have "d div 1460 = 25 * c + q" using t by (intro int_div_pos_eq [where r = t]) auto
    moreover have "e < 365" using True c q e by (auto simp: t_def)
    ultimately show ?thesis using century d e by (simp add: year_guess_def)
  next
    case False
    then have "d div 1460 = 25 * c + q + 1" using t by (intro int_div_pos_eq [where r = "t - 1460"]) auto
    moreover have "e \<ge> 1" using False c q r by (simp add: t_def)
    ultimately show ?thesis using century d e by (simp add: year_guess_def)
  qed
qed

lemma year_of_era:
  assumes "0 \<le> d" "d \<le> 146096"
  shows "0 \<le> year_guess d" "year_guess d \<le> 399" "0 \<le> d - year_start (year_guess d)" "d - year_start (year_guess d) \<le> 365"
proof -
  have "\<exists>c q r e. 0 \<le> c \<and> c \<le> 3 \<and> 0 \<le> q \<and> q \<le> 24 \<and> 0 \<le> r \<and> r \<le> 3 \<and> 0 \<le> e \<and> e \<le> 365
      \<and> d = 36524 * c + 1461 * q + 365 * r + e \<and> year_guess d = 100 * c + 4 * q + r"
  proof (cases "d = 146096")
    case True
    then show ?thesis
      by (intro exI [of _ 3] exI [of _ 24] exI [of _ 3] exI [of _ 365]) (simp add: year_guess_def)
  next
    case False
    define c r1 where "c = d div 36524" and "r1 = d mod 36524"
    define q r2 where "q = r1 div 1461" and "r2 = r1 mod 1461"
    define r where "r = (if r2 < 1095 then r2 div 365 else 3)"
    define e where "e = r2 - 365 * r"
    have c: "0 \<le> c" "c \<le> 3" "d = 36524 * c + r1" "0 \<le> r1" "r1 < 36524" using assms False by (simp_all add: c_def r1_def)
    then have q: "0 \<le> q" "q \<le> 24" "r1 = 1461 * q + r2" "0 \<le> r2" "r2 < 1461" by (simp_all add: q_def r2_def)
    have r: "0 \<le> r" "r \<le> 3" "0 \<le> e" "e \<le> 365" "e = 365 \<longrightarrow> r = 3"
      using q(4,5) by (cases "r2 < 1095"; simp add: r_def e_def minus_mult_div_eq_mod; linarith)+
    have d: "d = 36524 * c + 1461 * q + 365 * r + e" "1461 * q + 365 * r + e < 36524" using c q by (simp_all add: e_def)
    from year_guess_split [OF c(1,2) q(1,2) r d] c q r d show ?thesis by blast
  qed
  then obtain c q r e where b: "0 \<le> c" "c \<le> 3" "0 \<le> q" "q \<le> 24" "0 \<le> r" "r \<le> 3" "0 \<le> e" "e \<le> 365"
    and d: "d = 36524 * c + 1461 * q + 365 * r + e" and y: "year_guess d = 100 * c + 4 * q + r" by blast
  show "0 \<le> year_guess d" "year_guess d \<le> 399" "0 \<le> d - year_start (year_guess d)" "d - year_start (year_guess d) \<le> 365"
    unfolding y year_start_split [OF b(3-6)] using b d by simp_all
qed

subsection \<open>Dates round trip\<close>

lemma month_of_year:
  fixes doy :: int
  assumes "0 \<le> doy" "doy \<le> 365"
  defines "mp \<equiv> (5 * doy + 2) div 153"
  shows "0 \<le> mp" "mp \<le> 11" "0 \<le> doy - (153 * mp + 2) div 5" "doy - (153 * mp + 2) div 5 \<le> 30"
proof -
  show mp: "0 \<le> mp" "mp \<le> 11" using assms by (simp_all add: mp_def)
  have "153 * mp \<le> 5 * doy + 2" "5 * doy + 2 < 153 * mp + 153" by (simp_all add: mp_def)
  then show "0 \<le> doy - (153 * mp + 2) div 5" "doy - (153 * mp + 2) div 5 \<le> 30" by linarith+
qed

lemma era_floor:
  fixes z :: int
  assumes "0 < k"
  shows "tdiv (if z \<ge> 0 then z else z - (k - 1)) k = z div k"
proof (cases "z \<ge> 0")
  case False
  then have "- ((- (z - (k - 1))) div k) = z div k"
  proof -
    obtain q r where z: "z = k * q + r" "0 \<le> r" "r < k" using assms by (metis mult_div_mod_eq pos_mod_bound pos_mod_sign)
    have "z div k = q" using z assms by (simp add: int_div_pos_eq)
    moreover have "(- (z - (k - 1))) div k = - q"
      using z assms by (intro int_div_pos_eq [where r = "k - 1 - r"]) (simp_all add: algebra_simps)
    ultimately show ?thesis by simp
  qed
  then show ?thesis using False assms by (simp add: tdiv_def)
qed (simp add: tdiv_def)

lemma tdiv_nonneg: "0 \<le> a \<Longrightarrow> tdiv a b = a div b"
  by (simp add: tdiv_def)

lemma civil_from_days_eq:
  fixes z0 :: int
  defines "z \<equiv> z0 + 719468"
  defines "doe \<equiv> z mod 146097"
  defines "yoe \<equiv> year_guess doe"
  defines "doy \<equiv> doe - year_start yoe"
  defines "mp \<equiv> (5 * doy + 2) div 153"
  defines "m \<equiv> (if mp < 10 then mp + 3 else mp - 9)"
  shows "civil_from_days z0 = (if m \<le> 2 then yoe + z div 146097 * 400 + 1 else yoe + z div 146097 * 400, m, doy - (153 * mp + 2) div 5 + 1)"
proof -
  have doe: "0 \<le> doe" "doe \<le> 146096" by (simp_all add: doe_def)
  note y = year_of_era [OF doe]
  have doy: "0 \<le> doy" "doy \<le> 365" using y by (simp_all add: doy_def yoe_def)
  have era: "tdiv (if z \<ge> 0 then z else z - 146096) 146097 = z div 146097"
    using era_floor [of 146097 z] by (simp cong: if_cong split del: if_split)
  have doe': "z - z div 146097 * 146097 = doe" by (simp add: doe_def minus_div_mult_eq_mod)
  have n: "0 \<le> doe - doe div 1460 + doe div 36524 - doe div 146096" using doe by linarith
  have yoe': "tdiv (doe - tdiv doe 1460 + tdiv doe 36524 - tdiv doe 146096) 365 = yoe"
    using doe n by (simp add: tdiv_nonneg yoe_def year_guess_def)
  have doy': "doe - (365 * yoe + tdiv yoe 4 - tdiv yoe 100) = doy"
    using y(1) by (simp add: doy_def year_start_def tdiv_nonneg yoe_def)
  have mp': "tdiv (5 * doy + 2) 153 = mp" using doy by (simp add: tdiv_nonneg mp_def)
  have k: "tdiv (153 * mp + 2) 5 = (153 * mp + 2) div 5" using month_of_year [OF doy] by (simp add: tdiv_nonneg mp_def)
  show ?thesis
    unfolding civil_from_days_def Let_def z_def [symmetric] era doe' yoe' doy' mp' k m_def by simp
qed

lemma civil_bounds:
  assumes "civil_from_days z = (y, m, d)"
  shows "1 \<le> m" "m \<le> 12" "1 \<le> d" "d \<le> 31"
proof -
  define doe where "doe = (z + 719468) mod 146097"
  define doy where "doy = doe - year_start (year_guess doe)"
  have "0 \<le> doe" "doe \<le> 146096" by (simp_all add: doe_def)
  from year_of_era [OF this] have "0 \<le> doy" "doy \<le> 365" by (simp_all add: doy_def)
  from month_of_year [OF this] assms show "1 \<le> m" "m \<le> 12" "1 \<le> d" "d \<le> 31"
    unfolding civil_from_days_eq doe_def [symmetric] doy_def [symmetric] by (auto split: if_splits)
qed

lemma days_civil_inverse:
  assumes "civil_from_days z = (y, m, d)"
  shows "days_from_civil y m d = z"
proof -
  define era doe where "era = (z + 719468) div 146097" and "doe = (z + 719468) mod 146097"
  define yoe where "yoe = year_guess doe"
  define doy where "doy = doe - year_start yoe"
  define mp where "mp = (5 * doy + 2) div 153"
  have "0 \<le> doe" "doe \<le> 146096" by (simp_all add: doe_def)
  note y = year_of_era [OF this, folded yoe_def]
  have doy: "0 \<le> doy" "doy \<le> 365" using y by (simp_all add: doy_def)
  note mb = month_of_year [OF doy, folded mp_def]
  have eq: "m = (if mp < 10 then mp + 3 else mp - 9)" "y = (if m \<le> 2 then yoe + era * 400 + 1 else yoe + era * 400)"
    "d = doy - (153 * mp + 2) div 5 + 1"
    using assms unfolding civil_from_days_eq doe_def [symmetric] yoe_def [symmetric] doy_def [symmetric] mp_def [symmetric]
      era_def [symmetric] by auto
  have y': "(if m \<le> 2 then y - 1 else y) = yoe + era * 400" using eq by simp
  have mp': "(if m > 2 then m - 3 else m + 9) = mp" using eq(1) mb by auto
  have "(yoe + era * 400) div 400 = era" using y by simp
  then have era': "tdiv (if yoe + era * 400 \<ge> 0 then yoe + era * 400 else yoe + era * 400 - 399) 400 = era"
    using era_floor [of 400 "yoe + era * 400"] by (simp cong: if_cong split del: if_split)
  have "tdiv (153 * mp + 2) 5 + d - 1 = doy" using mb eq(3) by (simp add: tdiv_nonneg)
  then show ?thesis
    unfolding days_from_civil_def Let_def y' mp' era'
    using y(1) by (simp add: tdiv_nonneg doy_def year_start_def era_def doe_def)
qed

subsection \<open>Digits\<close>

fun fixw :: "nat \<Rightarrow> int \<Rightarrow> string" where
  "fixw 0 n = []"
| "fixw (Suc w) n = fixw w (n div 10) @ [digit_of (n mod 10)]"

lemma digit_of_digit: "0 \<le> d \<Longrightarrow> d < 10 \<Longrightarrow> is_digit (digit_of d) \<and> digit_val (digit_of d) = d"
  by (auto simp: digit_of_def is_digit_def digit_val_def nat_less_iff le_nat_iff)

lemma digit_of_val: "is_digit c \<Longrightarrow> digit_of (digit_val c) = c \<and> 0 \<le> digit_val c \<and> digit_val c < 10"
  by (auto simp: digit_of_def is_digit_def digit_val_def)

lemma digits_val_append: "digits_val a (xs @ ys) = digits_val a xs \<bind> (\<lambda>b. digits_val b ys)"
  by (induction xs arbitrary: a) auto

lemma length_fixw [simp]: "length (fixw w n) = w"
  by (induction w arbitrary: n) auto

lemma digits_val_fixw: "0 \<le> n \<Longrightarrow> n < 10 ^ w \<Longrightarrow> digits_val 0 (fixw w n) = Some n"
proof (induction w arbitrary: n)
  case (Suc w)
  then have "digits_val 0 (fixw w (n div 10)) = Some (n div 10)" by (intro Suc.IH; unfold power_Suc; linarith)
  then show ?case using digit_of_digit [of "n mod 10"] by (simp add: digits_val_append)
qed simp

lemma fixw_digits_val: "digits_val 0 ds = Some n \<Longrightarrow> fixw (length ds) n = ds \<and> 0 \<le> n \<and> n < 10 ^ length ds"
proof (induction ds arbitrary: n rule: rev_induct)
  case (snoc c ds)
  then obtain b where b: "digits_val 0 ds = Some b" "is_digit c" "n = b * 10 + digit_val c"
    by (auto simp: digits_val_append Option.bind_eq_Some_conv split: if_splits)
  then show ?case using snoc.IH [of b] digit_of_val [of c] by auto
qed simp

lemma fixw_zero: "fixw w 0 = replicate w (CHR ''0'')"
proof (induction w)
  case (Suc w)
  have "digit_of 0 = CHR ''0''" by (simp add: digit_of_def) code_simp
  then show ?case using Suc by (simp add: replicate_append_same)
qed simp

lemma pad_fixw: "0 \<le> n \<Longrightarrow> n < 10 ^ w \<Longrightarrow> 0 < w \<Longrightarrow> pad w n = fixw w n"
proof (induction w arbitrary: n)
  case (Suc w)
  show ?case
  proof (cases "n < 10")
    case True
    then show ?thesis using Suc.prems by (simp add: pad_def nat_digits.simps [of "nat n"] nat_less_iff fixw_zero)
  next
    case False
    then have "0 < w" using Suc.prems by (cases w) auto
    moreover have "n div 10 < 10 ^ w" using Suc.prems(2) unfolding power_Suc by linarith
    ultimately have "pad w (n div 10) = fixw w (n div 10)" using Suc by (simp add: pos_imp_zdiv_nonneg_iff)
    moreover have "nat_digits (nat n) = nat_digits (nat (n div 10)) @ [digit_of (n mod 10)]"
      using False by (simp add: nat_digits.simps [of "nat n"] nat_less_iff nat_div_distrib zmod_int)
    ultimately show ?thesis using False by (simp add: pad_def pos_imp_zdiv_neg_iff Let_def)
  qed
qed simp

subsection \<open>The strict inverse\<close>

lemma clock_split:
  fixes s :: int
  assumes "0 \<le> s" "s < 86400"
  shows "0 \<le> s div 3600" "s div 3600 \<le> 23" "0 \<le> s mod 3600 div 60" "s mod 3600 div 60 \<le> 59" "0 \<le> s mod 60" "s mod 60 \<le> 59"
    "s div 3600 * 3600 + s mod 3600 div 60 * 60 + s mod 60 = s"
proof -
  have "s mod 3600 mod 60 = s mod 60" by (rule mod_mod_cancel) simp
  then have "s mod 3600 div 60 * 60 + s mod 60 = s mod 3600" using div_mult_mod_eq [of "s mod 3600" 60] by simp
  then show "s div 3600 * 3600 + s mod 3600 div 60 * 60 + s mod 60 = s" using div_mult_mod_eq [of s 3600] by linarith
  have "0 \<le> s mod 3600" "s mod 3600 < 3600" by simp_all
  then show "0 \<le> s mod 3600 div 60" "s mod 3600 div 60 \<le> 59" by linarith+
  show "0 \<le> s mod 60" "s mod 60 \<le> 59" by simp_all
  show "0 \<le> s div 3600" "s div 3600 \<le> 23" using assms by linarith+
qed

lemma clock_join:
  fixes h m s days milli :: int
  assumes "0 \<le> h" "h \<le> 23" "0 \<le> m" "m \<le> 59" "0 \<le> s" "s \<le> 59" "0 \<le> milli" "milli < 1000"
    and ms: "ms = (days * 86400 + h * 3600 + m * 60 + s) * 1000 + milli"
  shows "ms mod 1000 = milli" "ms div 1000 div 86400 = days" "ms div 1000 mod 86400 div 3600 = h"
    "ms div 1000 mod 86400 mod 3600 div 60 = m" "ms div 1000 mod 86400 mod 60 = s"
proof -
  define q where "q = days * 86400 + (h * 3600 + (m * 60 + s))"
  have ms': "ms = q * 1000 + milli" using ms by (simp add: q_def)
  have r: "(x * k + y) mod k = y \<and> (x * k + y) div k = x" if "0 \<le> y" "y < k" for x y k :: int
    using that by (simp add: mod_pos_pos_trivial)
  have hm: "0 \<le> h * 3600 + (m * 60 + s)" "h * 3600 + (m * 60 + s) < 86400" "0 \<le> m * 60 + s" "m * 60 + s < 3600"
    using assms by linarith+
  show "ms mod 1000 = milli" unfolding ms' using r [of milli 1000 q] assms by simp
  have secs: "ms div 1000 = q" unfolding ms' using r [of milli 1000 q] assms by simp
  show "ms div 1000 div 86400 = days" unfolding secs q_def using r [OF hm(1,2), of days] by simp
  have sod: "ms div 1000 mod 86400 = h * 3600 + (m * 60 + s)" unfolding secs q_def using r [OF hm(1,2), of days] by simp
  show "ms div 1000 mod 86400 div 3600 = h" unfolding sod using r [OF hm(3,4), of h] by simp
  have "(h * 3600 + (m * 60 + s)) mod 3600 = m * 60 + s" using r [OF hm(3,4), of h] by simp
  then show "ms div 1000 mod 86400 mod 3600 div 60 = m" unfolding sod using r [of s 60 m] assms by simp
  have hm60: "h * 3600 + (m * 60 + s) = (h * 60 + m) * 60 + s" by simp
  show "ms div 1000 mod 86400 mod 60 = s" unfolding sod hm60 using r [of s 60 "h * 60 + m"] assms(5,6) by linarith
qed

definition iso_text :: "int \<Rightarrow> int \<Rightarrow> int \<Rightarrow> int \<Rightarrow> int \<Rightarrow> int \<Rightarrow> int \<Rightarrow> string" where
  "iso_text y mo d h mi s ml = fixw 4 y @ CHR ''-'' # fixw 2 mo @ CHR ''-'' # fixw 2 d @ CHR ''T'' # fixw 2 h @ CHR '':''
     # fixw 2 mi @ CHR '':'' # fixw 2 s @ CHR ''.'' # fixw 3 ml @ ''Z''"

lemma iso_shape:
  assumes "length b = 24"
  shows "b = take 4 b @ b ! 4 # take 2 (drop 5 b) @ b ! 7 # take 2 (drop 8 b) @ b ! 10 # take 2 (drop 11 b) @ b ! 13
    # take 2 (drop 14 b) @ b ! 16 # take 2 (drop 17 b) @ b ! 19 # take 3 (drop 20 b) @ [b ! 23]"
  using assms by (auto simp: length_Suc_conv numeral_eq_Suc)

lemma iso_fields:
  "length (iso_text y mo d h mi s ml) = 24" "iso_text y mo d h mi s ml ! 4 = CHR ''-''" "iso_text y mo d h mi s ml ! 7 = CHR ''-''"
  "iso_text y mo d h mi s ml ! 10 = CHR ''T''" "iso_text y mo d h mi s ml ! 13 = CHR '':''" "iso_text y mo d h mi s ml ! 16 = CHR '':''"
  "iso_text y mo d h mi s ml ! 19 = CHR ''.''" "iso_text y mo d h mi s ml ! 23 = CHR ''Z''"
  "iso_field (iso_text y mo d h mi s ml) 0 4 = digits_val 0 (fixw 4 y)" "iso_field (iso_text y mo d h mi s ml) 5 7 = digits_val 0 (fixw 2 mo)"
  "iso_field (iso_text y mo d h mi s ml) 8 10 = digits_val 0 (fixw 2 d)" "iso_field (iso_text y mo d h mi s ml) 11 13 = digits_val 0 (fixw 2 h)"
  "iso_field (iso_text y mo d h mi s ml) 14 16 = digits_val 0 (fixw 2 mi)" "iso_field (iso_text y mo d h mi s ml) 17 19 = digits_val 0 (fixw 2 s)"
  "iso_field (iso_text y mo d h mi s ml) 20 23 = digits_val 0 (fixw 3 ml)"
  by (simp_all add: iso_text_def iso_field_def nth_append del: fixw.simps)

lemma civil_epoch_eq:
  assumes "civil_from_days (ms div 1000 div 86400) = (y, mo, d)"
  shows "civil_from_epoch_ms ms = \<lparr>c_year = y, c_month = mo, c_day = d, c_hour = ms div 1000 mod 86400 div 3600,
    c_min = ms div 1000 mod 86400 mod 3600 div 60, c_sec = ms div 1000 mod 86400 mod 60, c_milli = ms mod 1000\<rparr>"
  using assms by (simp add: civil_from_epoch_ms_def tdiv_nonneg Let_def)

lemma epoch_iso_eq:
  assumes civ: "civil_from_days (ms div 1000 div 86400) = (y, mo, d)" and y: "0 \<le> y" "y \<le> 9999"
  shows "epoch_ms_to_iso ms = iso_text y mo d (ms div 1000 mod 86400 div 3600) (ms div 1000 mod 86400 mod 3600 div 60)
    (ms div 1000 mod 86400 mod 60) (ms mod 1000)"
proof -
  note c = civil_bounds [OF civ]
  define sod where "sod = ms div 1000 mod 86400"
  have "0 \<le> sod" "sod < 86400" by (simp_all add: sod_def)
  note k = clock_split [OF this]
  have two: "pad 2 n = fixw 2 n" if "0 \<le> n" "n \<le> 99" for n using that by (intro pad_fixw) simp_all
  have "pad 4 y = fixw 4 y" using y by (intro pad_fixw) simp_all
  moreover have "pad 3 (ms mod 1000) = fixw 3 (ms mod 1000)" by (intro pad_fixw) simp_all
  moreover have "pad 2 mo = fixw 2 mo" "pad 2 d = fixw 2 d" using c by (simp_all add: two)
  moreover have "pad 2 (sod div 3600) = fixw 2 (sod div 3600)" by (rule two) (use k in linarith)+
  moreover have "pad 2 (sod mod 3600 div 60) = fixw 2 (sod mod 3600 div 60)" by (rule two) (use k in linarith)+
  moreover have "pad 2 (sod mod 60) = fixw 2 (sod mod 60)" by (rule two) (use k in linarith)+
  ultimately show ?thesis
    unfolding epoch_ms_to_iso_def civil_epoch_eq [OF civ] iso_text_def Let_def sod_def [symmetric]
    by (simp only: Civil.select_convs append.simps)
qed

lemma iso_SomeD:
  assumes "iso_to_epoch_ms b = Some ms"
  shows "length b = 24 \<and> b ! 4 = CHR ''-'' \<and> b ! 7 = CHR ''-'' \<and> b ! 10 = CHR ''T'' \<and> b ! 13 = CHR '':'' \<and> b ! 16 = CHR '':''
      \<and> b ! 19 = CHR ''.'' \<and> b ! 23 = CHR ''Z''"
    and "\<exists>y mo d h mi s ml. iso_field b 0 4 = Some y \<and> iso_field b 5 7 = Some mo \<and> iso_field b 8 10 = Some d
      \<and> iso_field b 11 13 = Some h \<and> iso_field b 14 16 = Some mi \<and> iso_field b 17 19 = Some s \<and> iso_field b 20 23 = Some ml
      \<and> h \<le> 23 \<and> mi \<le> 59 \<and> s \<le> 59 \<and> civil_from_days (days_from_civil y mo d) = (y, mo, d)
      \<and> ms = (days_from_civil y mo d * 86400 + h * 3600 + mi * 60 + s) * 1000 + ml"
proof -
  show shape: "length b = 24 \<and> b ! 4 = CHR ''-'' \<and> b ! 7 = CHR ''-'' \<and> b ! 10 = CHR ''T'' \<and> b ! 13 = CHR '':'' \<and> b ! 16 = CHR '':''
      \<and> b ! 19 = CHR ''.'' \<and> b ! 23 = CHR ''Z''"
    using assms unfolding iso_to_epoch_ms_def by (metis option.distinct(1))
  obtain y mo d h mi s ml where f: "iso_field b 0 4 = Some y" "iso_field b 5 7 = Some mo" "iso_field b 8 10 = Some d"
    "iso_field b 11 13 = Some h" "iso_field b 14 16 = Some mi" "iso_field b 17 19 = Some s" "iso_field b 20 23 = Some ml"
    and r: "(if \<not> (1 \<le> mo \<and> mo \<le> 12) \<or> \<not> (1 \<le> d \<and> d \<le> 31) then None
        else if h > 23 \<or> mi > 59 \<or> s > 59 then None
        else let days = days_from_civil y mo d
             in if civil_from_days days \<noteq> (y, mo, d) then None
                else Some ((days * 86400 + h * 3600 + mi * 60 + s) * 1000 + ml)) = Some ms"
    using assms shape unfolding iso_to_epoch_ms_def by (elim conjE) (simp only: if_False simp_thms Option.bind_eq_Some_conv, blast)
  from r have "h \<le> 23 \<and> mi \<le> 59 \<and> s \<le> 59 \<and> civil_from_days (days_from_civil y mo d) = (y, mo, d)
      \<and> ms = (days_from_civil y mo d * 86400 + h * 3600 + mi * 60 + s) * 1000 + ml"
    unfolding Let_def by (metis linorder_not_le option.distinct(1) option.inject)
  then show "\<exists>y mo d h mi s ml. iso_field b 0 4 = Some y \<and> iso_field b 5 7 = Some mo \<and> iso_field b 8 10 = Some d
      \<and> iso_field b 11 13 = Some h \<and> iso_field b 14 16 = Some mi \<and> iso_field b 17 19 = Some s \<and> iso_field b 20 23 = Some ml
      \<and> h \<le> 23 \<and> mi \<le> 59 \<and> s \<le> 59 \<and> civil_from_days (days_from_civil y mo d) = (y, mo, d)
      \<and> ms = (days_from_civil y mo d * 86400 + h * 3600 + mi * 60 + s) * 1000 + ml"
    using f by blast
qed

end
