(* ===== verification/Id_Store.thy ===== *)
theory Id_Store
  imports Json_Instance Time_Format
begin

text \<open>
  The identifier store (\<open>crates/quorum-core/src/idstore.rs\<close>): an append-only file of mint, bind and
  lineage events, its fold to the two-way map between stable ids and provider sessions, and the
  operations that append under the file lock. The file is its bytes; \<open>opened\<close> says whether opening,
  locking and reading it succeeded; an append may stop early as in the ledger. The JSON library is the
  same pair of parameters as for the ledger, \<open>lower\<close> stands for \<open>str::to_lowercase\<close>, and \<open>gen\<close> is
  the sequence of ids that the injected generator returns.
\<close>

definition ALPHABET :: string where
  "ALPHABET = ''23456789abcdefghijkmnpqrstuvwxyz''"

definition ID_LEN :: nat where "ID_LEN = 8"

definition MAX_MINT_RETRIES :: nat where "MAX_MINT_RETRIES = 16"

definition in_alphabet :: "string \<Rightarrow> bool" where
  "in_alphabet s \<longleftrightarrow> list_all (\<lambda>c. c \<in> set ALPHABET) s"

definition normalize :: "(string \<Rightarrow> string) \<Rightarrow> string \<Rightarrow> string" where
  "normalize lower s = lower s"

definition is_valid_id :: "(string \<Rightarrow> string) \<Rightarrow> string \<Rightarrow> bool" where
  "is_valid_id lower s \<longleftrightarrow> (let folded = normalize lower s in chars_count folded = ID_LEN \<and> in_alphabet folded)"

definition is_alphabet_prefix :: "(string \<Rightarrow> string) \<Rightarrow> string \<Rightarrow> bool" where
  "is_alphabet_prefix lower s \<longleftrightarrow> s \<noteq> [] \<and> in_alphabet (normalize lower s)"

record IdMap =
  by_id :: "(string \<times> string option) list"
  by_session :: "(string \<times> string) list"
  by_parent :: "(string \<times> string) list"
  newest_unbound_mint_ms :: "int option"

definition empty_map :: IdMap where
  "empty_map = \<lparr>by_id = [], by_session = [], by_parent = [], newest_unbound_mint_ms = None\<rparr>"

definition or_insert :: "'k \<Rightarrow> 'v \<Rightarrow> ('k \<times> 'v) list \<Rightarrow> ('k \<times> 'v) list" where
  "or_insert k v m = (if map_of m k = None then m @ [(k, v)] else m)"

definition get_str :: "string \<Rightarrow> members \<Rightarrow> string option" where
  "get_str k ms = value_get k ms \<bind> as_str"

definition str_or_empty :: "string \<Rightarrow> members \<Rightarrow> string" where
  "str_or_empty k ms = (case get_str k ms of Some s \<Rightarrow> s | None \<Rightarrow> [])"

type_synonym fold_state = "IdMap \<times> (string \<times> int) list"

definition fold_mint :: "members \<Rightarrow> fold_state \<Rightarrow> fold_state" where
  "fold_mint v st =
     (let (m, cands) = st; i = str_or_empty ''id'' v; sess = str_or_empty ''session_id'' v
      in if i = [] then st
         else if sess = [] then
           let m = m\<lparr>by_id := or_insert i None (by_id m)\<rparr>
           in (m, if map_of (by_id m) i = Some None
                  then case get_str ''ts'' v \<bind> iso_to_epoch_ms of Some ts \<Rightarrow> or_insert i ts cands | None \<Rightarrow> cands
                  else cands)
         else (m\<lparr>by_id := or_insert i (Some sess) (by_id m), by_session := or_insert sess i (by_session m)\<rparr>, cands))"

definition fold_bind :: "members \<Rightarrow> fold_state \<Rightarrow> fold_state" where
  "fold_bind v st =
     (let (m, cands) = st; i = str_or_empty ''id'' v; sess = str_or_empty ''session_id'' v
      in if i = [] \<or> sess = [] then st
         else if map_of (by_session m) sess \<noteq> None then st
         else if map_of (by_id m) i = Some None
         then (m\<lparr>by_id := AList.update i (Some sess) (by_id m), by_session := AList.update sess i (by_session m)\<rparr>, cands)
         else st)"

definition fold_lineage :: "members \<Rightarrow> fold_state \<Rightarrow> fold_state" where
  "fold_lineage v st =
     (let (m, cands) = st; parent = str_or_empty ''parent'' v; sess = str_or_empty ''session_id'' v
      in if sess = [] \<or> parent = [] then st else (m\<lparr>by_parent := or_insert sess parent (by_parent m)\<rparr>, cands))"

definition fold_row :: "members \<Rightarrow> fold_state \<Rightarrow> fold_state" where
  "fold_row v st =
     (let event = get_str ''event'' v
      in if event = Some ''mint'' then fold_mint v st
         else if event = Some ''bind'' then fold_bind v st
         else if event = Some ''lineage'' then fold_lineage v st
         else st)"

definition fold_line :: "(string \<Rightarrow> members option) \<Rightarrow> string \<Rightarrow> fold_state \<Rightarrow> fold_state" where
  "fold_line json_of line st =
     (let line = trim line
      in if line = [] then st else case json_of line of None \<Rightarrow> st | Some v \<Rightarrow> fold_row v st)"

text \<open>\<open>str::lines\<close>: a final newline does not start another line; a carriage return before the newline goes with it.\<close>

definition strip_cr :: "string \<Rightarrow> string" where
  "strip_cr l = (if l \<noteq> [] \<and> last l = CHR 0x0D then butlast l else l)"

definition rust_lines :: "string \<Rightarrow> string list" where
  "rust_lines text = (let ls = split_nl text in map strip_cr (butlast ls) @ (if last ls = [] then [] else [last ls]))"

definition newest_unbound :: "fold_state \<Rightarrow> int option" where
  "newest_unbound st =
     (case map snd (filter (\<lambda>(i, _). map_of (by_id (fst st)) i = Some None) (snd st)) of [] \<Rightarrow> None | t # ts \<Rightarrow> Some (fold max ts t))"

definition fold_str :: "(string \<Rightarrow> members option) \<Rightarrow> string \<Rightarrow> IdMap" where
  "fold_str json_of text =
     (let st = fold (fold_line json_of) (rust_lines text) (empty_map, [])
      in (fst st)\<lparr>newest_unbound_mint_ms := newest_unbound st\<rparr>)"

definition fold_file :: "(string \<Rightarrow> members option) \<Rightarrow> string option \<Rightarrow> IdMap" where
  "fold_file json_of text = (case text of Some t \<Rightarrow> fold_str json_of t | None \<Rightarrow> empty_map)"

definition resolve_to_uuid :: "(string \<Rightarrow> string) \<Rightarrow> IdMap \<Rightarrow> string \<Rightarrow> string option" where
  "resolve_to_uuid lower m raw =
     (let i = normalize lower raw in if is_valid_id lower i then (case map_of (by_id m) i of Some s \<Rightarrow> s | None \<Rightarrow> None) else None)"

subsection \<open>Appending\<close>

datatype IdError = EmptySession | EmptyLineage | OpenFailed | IdCollisions | InvalidGenerated string | AppendFailed
  | UnknownId string | BoundElsewhere string string

definition open_locked :: "(string \<Rightarrow> members option) \<Rightarrow> bool \<Rightarrow> string \<Rightarrow> IdError + IdMap" where
  "open_locked json_of opened file = (if opened then Inr (fold_str json_of file) else Inl OpenFailed)"

text \<open>The loop calls the generator again while the id is taken, at most \<open>MAX_MINT_RETRIES\<close> times in all.\<close>

function fresh_loop :: "(string \<times> string option) list \<Rightarrow> (nat \<Rightarrow> string) \<Rightarrow> nat \<Rightarrow> IdError + string" where
  "fresh_loop taken gen tries =
     (if map_of taken (gen tries) \<noteq> None
      then if tries + 1 \<ge> MAX_MINT_RETRIES then Inl IdCollisions else fresh_loop taken gen (tries + 1)
      else Inr (gen tries))"
  by auto
termination
  by (relation "measure (\<lambda>(_, _, tries). MAX_MINT_RETRIES - tries)") (auto simp: MAX_MINT_RETRIES_def)

declare fresh_loop.simps [simp del]

definition generate_fresh_id :: "(string \<Rightarrow> string) \<Rightarrow> IdMap \<Rightarrow> (nat \<Rightarrow> string) \<Rightarrow> IdError + string" where
  "generate_fresh_id lower m gen =
     sum_bind (fresh_loop (by_id m) gen 0) (\<lambda>i. if is_valid_id lower i then Inr i else Inl (InvalidGenerated i))"

definition write_row :: "(members \<Rightarrow> string) \<Rightarrow> append_io \<Rightarrow> members \<Rightarrow> string \<Rightarrow> bool \<times> string" where
  "write_row json_print io row file =
     (let bytes = json_print row @ [NL]
      in case io of AppendOk \<Rightarrow> (True, file @ bytes) | AppendError k \<Rightarrow> (False, file @ take k bytes))"

definition opt_val :: "string option \<Rightarrow> jval" where
  "opt_val s = (case s of None \<Rightarrow> JNull | Some x \<Rightarrow> JStr x)"

definition mint_row :: "int \<Rightarrow> string \<Rightarrow> string option \<Rightarrow> string option \<Rightarrow> members" where
  "mint_row now_ms i sess name =
     [(''v'', JInt 1), (''ts'', JStr (epoch_ms_to_iso now_ms)), (''event'', JStr ''mint''), (''id'', JStr i),
      (''session_id'', opt_val sess), (''name'', opt_val name)]"

definition bind_row :: "int \<Rightarrow> string \<Rightarrow> string \<Rightarrow> members" where
  "bind_row now_ms i sess =
     [(''v'', JInt 1), (''ts'', JStr (epoch_ms_to_iso now_ms)), (''event'', JStr ''bind''), (''id'', JStr i), (''session_id'', JStr sess)]"

definition lineage_row :: "int \<Rightarrow> string \<Rightarrow> string \<Rightarrow> members" where
  "lineage_row now_ms sess parent =
     [(''v'', JInt 1), (''ts'', JStr (epoch_ms_to_iso now_ms)), (''event'', JStr ''lineage''), (''session_id'', JStr sess), (''parent'', JStr parent)]"

record id_env =
  lower_of :: "string \<Rightarrow> string"
  printer :: "members \<Rightarrow> string"
  reader :: "string \<Rightarrow> members option"

definition append_row :: "id_env \<Rightarrow> append_io \<Rightarrow> members \<Rightarrow> 'a \<Rightarrow> string \<Rightarrow> (IdError + 'a) \<times> string" where
  "append_row E io row result file =
     (let (ok, file') = write_row (printer E) io row file in (if ok then Inr result else Inl AppendFailed, file'))"

definition mint_or_get_with ::
  "id_env \<Rightarrow> bool \<Rightarrow> append_io \<Rightarrow> string \<Rightarrow> string option \<Rightarrow> int \<Rightarrow> (nat \<Rightarrow> string) \<Rightarrow> string \<Rightarrow> (IdError + string) \<times> string" where
  "mint_or_get_with E opened io sess name now_ms gen file =
     (if sess = [] then (Inl EmptySession, file)
      else case open_locked (reader E) opened file of
             Inl e \<Rightarrow> (Inl e, file)
           | Inr m \<Rightarrow>
             (case map_of (by_session m) sess of
                Some existing \<Rightarrow> (Inr existing, file)
              | None \<Rightarrow>
                (case generate_fresh_id (lower_of E) m gen of
                   Inl e \<Rightarrow> (Inl e, file)
                 | Inr i \<Rightarrow> append_row E io (mint_row now_ms i (Some sess) name) i file)))"

definition mint_unbound_with ::
  "id_env \<Rightarrow> bool \<Rightarrow> append_io \<Rightarrow> string option \<Rightarrow> int \<Rightarrow> (nat \<Rightarrow> string) \<Rightarrow> string \<Rightarrow> (IdError + string) \<times> string" where
  "mint_unbound_with E opened io name now_ms gen file =
     (case open_locked (reader E) opened file of
        Inl e \<Rightarrow> (Inl e, file)
      | Inr m \<Rightarrow>
        (case generate_fresh_id (lower_of E) m gen of
           Inl e \<Rightarrow> (Inl e, file)
         | Inr i \<Rightarrow> append_row E io (mint_row now_ms i None name) i file))"

datatype BindOutcome = Bound | AlreadyBoundSameId | SessionHasDifferentId string

definition bind_id ::
  "id_env \<Rightarrow> bool \<Rightarrow> append_io \<Rightarrow> string \<Rightarrow> string \<Rightarrow> int \<Rightarrow> string \<Rightarrow> (IdError + BindOutcome) \<times> string" where
  "bind_id E opened io raw sess now_ms file =
     (if sess = [] then (Inl EmptySession, file)
      else let i = normalize (lower_of E) raw
           in case open_locked (reader E) opened file of
                Inl e \<Rightarrow> (Inl e, file)
              | Inr m \<Rightarrow>
                (case map_of (by_session m) sess of
                   Some existing \<Rightarrow> (Inr (if existing = i then AlreadyBoundSameId else SessionHasDifferentId existing), file)
                 | None \<Rightarrow>
                   (case map_of (by_id m) i of
                      None \<Rightarrow> (Inl (UnknownId i), file)
                    | Some (Some other) \<Rightarrow> (Inl (BoundElsewhere i other), file)
                    | Some None \<Rightarrow> append_row E io (bind_row now_ms i sess) Bound file)))"

definition record_lineage ::
  "id_env \<Rightarrow> bool \<Rightarrow> append_io \<Rightarrow> string \<Rightarrow> string \<Rightarrow> int \<Rightarrow> string \<Rightarrow> (IdError + unit) \<times> string" where
  "record_lineage E opened io fork parent now_ms file =
     (if fork = [] \<or> parent = [] then (Inl EmptyLineage, file)
      else case open_locked (reader E) opened file of
             Inl e \<Rightarrow> (Inl e, file)
           | Inr m \<Rightarrow>
             if map_of (by_parent m) fork \<noteq> None then (Inr (), file)
             else append_row E io (lineage_row now_ms fork parent) () file)"

subsection \<open>Prefixes for display\<close>

definition starts_with :: "string \<Rightarrow> string \<Rightarrow> bool" where
  "starts_with s p \<longleftrightarrow> take (length p) s = p"

fun prefix_from :: "string list \<Rightarrow> string list \<Rightarrow> nat \<Rightarrow> nat \<Rightarrow> string option" where
  "prefix_from ids cs len 0 = None"
| "prefix_from ids cs len (Suc n) =
     (let p = concat (take len cs)
      in if length (filter (\<lambda>x. starts_with x p) ids) = 1 then Some p else prefix_from ids cs (len + 1) n)"

definition shortest_unique_prefixes :: "string list \<Rightarrow> string list" where
  "shortest_unique_prefixes ids =
     map (\<lambda>i. let cs = to_chars i in case prefix_from ids cs 2 (length cs - 2) of Some p \<Rightarrow> p | None \<Rightarrow> i) ids"

end
