(* ===== verification/Lanes.thy ===== *)
theory Lanes
  imports Rust_Str
begin

text \<open>
  Lanes (\<open>crates/quorum-qw/src/lane.rs\<close>): which program (harness) runs in which topology (mode), the
  stable lane identifiers, the reading of a registry row and the choice of a lane at creation.
\<close>

datatype Harness = ClaudeCode | Codex | Pi | Opencode

datatype Mode = Pane | Daemon | Extension | AppServer | Acp

definition HARNESS_ALL :: "Harness list" where
  "HARNESS_ALL = [ClaudeCode, Codex, Pi, Opencode]"

fun provider_id :: "Harness \<Rightarrow> string" where
  "provider_id ClaudeCode = ''claude-code''"
| "provider_id Codex = ''codex''"
| "provider_id Pi = ''pi''"
| "provider_id Opencode = ''opencode''"

definition harness_and_pinned_mode :: "string \<Rightarrow> (Harness \<times> Mode option) option" where
  "harness_and_pinned_mode i =
     (if i = ''claude-code'' then Some (ClaudeCode, None)
      else if i = ''codex'' then Some (Codex, None)
      else if i = ''pi'' then Some (Pi, None)
      else if i = ''opencode'' then Some (Opencode, None)
      else if i = ''acp/claude-code'' then Some (ClaudeCode, Some Acp)
      else if i = ''acp/opencode'' then Some (Opencode, Some Acp)
      else None)"

definition from_provider_id :: "string \<Rightarrow> Harness option" where
  "from_provider_id i = map_option fst (harness_and_pinned_mode i)"

fun create_default_mode :: "Harness \<Rightarrow> Mode" where
  "create_default_mode ClaudeCode = Pane"
| "create_default_mode Codex = AppServer"
| "create_default_mode Pi = Extension"
| "create_default_mode Opencode = Acp"

fun row_default_mode :: "Harness \<Rightarrow> Mode" where
  "row_default_mode ClaudeCode = Pane"
| "row_default_mode Codex = Daemon"
| "row_default_mode Pi = Daemon"
| "row_default_mode Opencode = Acp"

fun cold_store_owner_mode :: "Harness \<Rightarrow> Mode" where
  "cold_store_owner_mode ClaudeCode = Pane"
| "cold_store_owner_mode Codex = Daemon"
| "cold_store_owner_mode Pi = Daemon"
| "cold_store_owner_mode Opencode = Acp"

definition supports :: "Harness \<Rightarrow> Mode \<Rightarrow> bool" where
  "supports h m \<longleftrightarrow>
     \<not> (h = ClaudeCode \<and> m \<in> {Daemon, Extension, AppServer}
        \<or> h = Opencode \<and> m \<in> {Pane, Daemon, Extension, AppServer}
        \<or> h = Codex \<and> m = Extension
        \<or> h = Pi \<and> m = AppServer
        \<or> h \<in> {Codex, Pi} \<and> m = Acp)"

fun hosting_token :: "Mode \<Rightarrow> string" where
  "hosting_token Pane = ''mux-pane''"
| "hosting_token Daemon = ''daemon''"
| "hosting_token Extension = ''extension''"
| "hosting_token AppServer = ''app-server''"
| "hosting_token Acp = ''acp''"

definition from_hosting_token :: "string \<Rightarrow> Mode option" where
  "from_hosting_token s =
     (if s = ''mux-pane'' then Some Pane else if s = ''daemon'' then Some Daemon
      else if s = ''extension'' then Some Extension else if s = ''app-server'' then Some AppServer
      else if s = ''acp'' then Some Acp else None)"

record Lane =
  harness :: Harness
  mode :: Mode

definition CLAUDE_PANE :: Lane where
  "CLAUDE_PANE = \<lparr>harness = ClaudeCode, mode = Pane\<rparr>"

definition LANE_ALL :: "Lane list" where
  "LANE_ALL = map (\<lambda>(h, m). \<lparr>harness = h, mode = m\<rparr>)
     [(ClaudeCode, Pane), (ClaudeCode, Acp), (Codex, Pane), (Codex, Daemon), (Codex, AppServer), (Pi, Pane), (Pi, Daemon),
      (Pi, Extension), (Opencode, Acp)]"

definition lane_new :: "Harness \<Rightarrow> Mode \<Rightarrow> Lane option" where
  "lane_new h m = (if supports h m then Some \<lparr>harness = h, mode = m\<rparr> else None)"

definition lane_id :: "Lane \<Rightarrow> string" where
  "lane_id l = provider_id (harness l) @ ''/'' @ hosting_token (mode l)"

definition from_id :: "string \<Rightarrow> Lane option" where
  "from_id s = do {
     (provider, hosting) \<leftarrow> rsplit_once (CHR ''/'') s;
     (h, pinned) \<leftarrow> harness_and_pinned_mode provider;
     case pinned of
       Some m \<Rightarrow> lane_new h m
     | None \<Rightarrow> do { m \<leftarrow> from_hosting_token hosting; lane_new h m } }"

definition is_pane :: "Lane \<Rightarrow> bool" where
  "is_pane l \<longleftrightarrow> mode l \<in> {Pane, Extension}"

definition is_daemon :: "Lane \<Rightarrow> bool" where
  "is_daemon l \<longleftrightarrow> mode l \<in> {Daemon, AppServer, Acp}"

definition is_app_server :: "Lane \<Rightarrow> bool" where
  "is_app_server l \<longleftrightarrow> mode l = AppServer"

definition has_viewer :: "Lane \<Rightarrow> bool" where
  "has_viewer l \<longleftrightarrow> (harness l, mode l) \<in> {(Codex, AppServer), (Opencode, Acp)}"

definition has_control_channel :: "Lane \<Rightarrow> bool" where
  "has_control_channel l \<longleftrightarrow> mode l = Extension"

definition captures_reply :: "Lane \<Rightarrow> bool" where
  "captures_reply l \<longleftrightarrow> l = CLAUDE_PANE"

datatype CreateTopology = TDefault | TInteractive | TExtension | TAppServer | TDaemon | TAcp

definition lane_for :: "string \<Rightarrow> string option \<Rightarrow> Lane option" where
  "lane_for provider hosting_field = do {
     (h, pinned) \<leftarrow> harness_and_pinned_mode provider;
     case pinned of
       Some m \<Rightarrow> lane_new h m
     | None \<Rightarrow>
         let recorded = (case hosting_field \<bind> from_hosting_token of Some m \<Rightarrow> if supports h m then Some m else None | None \<Rightarrow> None)
         in Some \<lparr>harness = h, mode = (case recorded of Some m \<Rightarrow> m | None \<Rightarrow> row_default_mode h)\<rparr> }"

definition row_is_acp :: "string \<Rightarrow> string option \<Rightarrow> bool" where
  "row_is_acp provider hosting_field = is_some_and (lane_for provider hosting_field) (\<lambda>l. mode l = Acp)"

definition parse_provider_arg :: "string \<Rightarrow> (Harness \<times> Mode option) option" where
  "parse_provider_arg arg =
     (case harness_and_pinned_mode arg of
        Some hit \<Rightarrow> Some hit
      | None \<Rightarrow> map_option (\<lambda>l. (harness l, Some (mode l))) (from_id arg))"

fun topology_mode :: "CreateTopology \<Rightarrow> Mode option" where
  "topology_mode TDefault = None"
| "topology_mode TInteractive = Some Pane"
| "topology_mode TExtension = Some Extension"
| "topology_mode TAppServer = Some AppServer"
| "topology_mode TDaemon = Some Daemon"
| "topology_mode TAcp = Some Acp"

definition for_create :: "string \<Rightarrow> CreateTopology \<Rightarrow> Lane option" where
  "for_create provider topology = do {
     (h, pinned) \<leftarrow> parse_provider_arg provider;
     case topology_mode topology of
       None \<Rightarrow> lane_new h (case pinned of Some m \<Rightarrow> m | None \<Rightarrow> create_default_mode h)
     | Some requested \<Rightarrow>
         if is_some_and pinned (\<lambda>p. p \<noteq> requested) then None else lane_new h requested }"

subsection \<open>Reading back\<close>

definition valid_lane :: "Lane \<Rightarrow> bool" where
  "valid_lane l \<longleftrightarrow> supports (harness l) (mode l)"

lemma hosting_token_no_slash: "CHR ''/'' \<notin> set (hosting_token m)"
  by (cases m) simp_all

lemma from_hosting_token_inverse [simp]: "from_hosting_token (hosting_token m) = Some m"
  by (cases m) (simp_all add: from_hosting_token_def)

lemma harness_of_provider_id [simp]: "harness_and_pinned_mode (provider_id h) = Some (h, None)"
  by (cases h) (simp_all add: harness_and_pinned_mode_def)

lemma pinned_acp: "harness_and_pinned_mode i = Some (h, Some m) \<Longrightarrow> m = Acp \<and> supports h Acp"
  by (auto simp: harness_and_pinned_mode_def supports_def split: if_splits)

lemma defaults_supported: "supports h (row_default_mode h)" "supports h (create_default_mode h)" "supports h (cold_store_owner_mode h)"
  by (cases h; simp add: supports_def)+

lemma lane_new_valid: "lane_new h m = Some l \<longleftrightarrow> supports h m \<and> l = \<lparr>harness = h, mode = m\<rparr>"
  by (auto simp: lane_new_def)

lemma rsplit_lane_id: "rsplit_once (CHR ''/'') (lane_id l) = Some (provider_id (harness l), hosting_token (mode l))"
  using rsplit_once_Some [OF hosting_token_no_slash] by (simp add: lane_id_def)

lemma from_id_lane_id: "valid_lane l \<Longrightarrow> from_id (lane_id l) = Some l"
  by (simp add: from_id_def rsplit_lane_id lane_new_def valid_lane_def)

lemma lane_id_not_provider: "harness_and_pinned_mode (lane_id l) = None"
  by (cases "harness l"; cases "mode l") (simp_all add: lane_id_def harness_and_pinned_mode_def)

lemma from_id_valid: "from_id s = Some l \<Longrightarrow> valid_lane l"
  by (auto simp: from_id_def valid_lane_def lane_new_valid Option.bind_eq_Some_conv split: option.splits)

lemma lane_for_valid: "lane_for p host = Some l \<Longrightarrow> valid_lane l"
  by (auto simp: lane_for_def valid_lane_def lane_new_valid Option.bind_eq_Some_conv defaults_supported Let_def
      split: option.splits if_splits)

lemma parse_provider_valid: "parse_provider_arg a = Some (h, Some m) \<Longrightarrow> supports h m"
  using from_id_valid pinned_acp by (fastforce simp: parse_provider_arg_def valid_lane_def split: option.splits)

lemma for_create_valid: "for_create a t = Some l \<Longrightarrow> valid_lane l"
  by (auto simp: for_create_def valid_lane_def lane_new_valid Option.bind_eq_Some_conv split: option.splits if_splits)

lemma for_create_flag: "for_create a t = Some l \<Longrightarrow> topology_mode t = Some m \<Longrightarrow> mode l = m"
  by (auto simp: for_create_def lane_new_valid Option.bind_eq_Some_conv split: if_splits)

lemma for_create_pinned: "for_create a t = Some l \<Longrightarrow> parse_provider_arg a = Some (h, Some m) \<Longrightarrow> l = \<lparr>harness = h, mode = m\<rparr>"
  by (auto simp: for_create_def lane_new_valid Option.bind_eq_Some_conv is_some_and_def split: option.splits if_splits)

lemma for_create_default: "harness_and_pinned_mode a = Some (h, p) \<Longrightarrow> for_create a TDefault \<noteq> None"
  using pinned_acp by (auto simp: for_create_def parse_provider_arg_def lane_new_def defaults_supported split: option.splits)

lemma lane_all_valid: "set LANE_ALL = {l. valid_lane l}" "distinct (map lane_id LANE_ALL)"
proof -
  have "l \<in> set LANE_ALL \<longleftrightarrow> valid_lane l" for l :: Lane
    by (cases l; cases "harness l"; cases "mode l") (simp_all add: LANE_ALL_def valid_lane_def supports_def)
  then show "set LANE_ALL = {l. valid_lane l}" by blast
  show "distinct (map lane_id LANE_ALL)" by (simp add: LANE_ALL_def lane_id_def)
qed

end
