(* ===== verification/Resolve.thy ===== *)
theory Resolve
  imports Id_Store Lanes
begin

text \<open>
  Resolving a query to a session (\<open>crates/dispatch/src/resolve.rs\<close>) over the joined session rows
  (\<open>crates/quorum-core/src/model.rs\<close>). The code returns references into the row slice and compares
  them by address; a reference is an index here. \<open>lower\<close> stands for \<open>str::to_lowercase\<close>.
\<close>

subsection \<open>Rows\<close>

datatype SessionStatus = Idle | Busy | Shell | Cold | Killed

fun status_str :: "SessionStatus \<Rightarrow> string" where
  "status_str Idle = ''idle''"
| "status_str Busy = ''busy''"
| "status_str Shell = ''shell''"
| "status_str Cold = ''cold''"
| "status_str Killed = ''killed''"

definition status_parse :: "string \<Rightarrow> SessionStatus option" where
  "status_parse s =
     (if s = ''idle'' then Some Idle else if s = ''busy'' then Some Busy else if s = ''shell'' then Some Shell
      else if s = ''cold'' then Some Cold else if s = ''killed'' then Some Killed else None)"

definition is_live_status :: "SessionStatus \<Rightarrow> bool" where
  "is_live_status st \<longleftrightarrow> st \<noteq> Cold \<and> st \<noteq> Killed"

text \<open>\<open>p as i32\<close> keeps the low 32 bits, as a signed number.\<close>

definition as_i32 :: "int \<Rightarrow> int" where
  "as_i32 p = (p + 2 ^ 31) mod 2 ^ 32 - 2 ^ 31"

definition is_live_with_pid :: "SessionStatus \<Rightarrow> int option \<Rightarrow> (int \<Rightarrow> bool) \<Rightarrow> bool" where
  "is_live_with_pid st pid pid_alive \<longleftrightarrow>
     is_live_status st \<and> (case pid of Some p \<Rightarrow> if p \<noteq> 0 then pid_alive (as_i32 p) else True | None \<Rightarrow> True)"

text \<open>A row, with the fields that resolution, routing and the joins read; counters and display fields are left out.\<close>

datatype SessionBranch = LiveRegistry | ColdJsonl | ZmxOnly | Tombstoned

record Session =
  s_name :: "string option"
  user_named :: "bool option"
  session_id :: string
  qd_id :: "string option"
  pid :: "int option"
  status :: SessionStatus
  zmx_name :: "string option"
  socket_dir :: "string option"
  relay_port :: "nat option"
  cwd :: "string option"
  provider :: string
  entrypoint :: "string option"
  lineage :: "string option"
  hosting :: "string option"
  which_branch :: SessionBranch

definition fill_qd_ids :: "IdMap \<Rightarrow> Session list \<Rightarrow> Session list" where
  "fill_qd_ids m ss = map (\<lambda>s. if qd_id s = None \<and> session_id s \<noteq> [] then s\<lparr>qd_id := map_of (by_session m) (session_id s)\<rparr> else s) ss"

definition fill_lineage :: "IdMap \<Rightarrow> Session list \<Rightarrow> Session list" where
  "fill_lineage m ss = map (\<lambda>s. if lineage s = None \<and> session_id s \<noteq> [] then s\<lparr>lineage := map_of (by_parent m) (session_id s)\<rparr> else s) ss"

subsection \<open>Resolution\<close>

datatype Resolution = One nat | Many "nat list" | NoMatch

definition matching :: "Session list \<Rightarrow> (Session \<Rightarrow> bool) \<Rightarrow> nat list" where
  "matching ss P = filter (\<lambda>i. P (ss ! i)) [0..<length ss]"

definition refine :: "Session list \<Rightarrow> (Session \<Rightarrow> bool) \<Rightarrow> nat list \<Rightarrow> Resolution option" where
  "refine ss is_alive matched =
     (let live = filter (\<lambda>i. is_alive (ss ! i)) matched
      in if length live = 1 then Some (One (live ! 0)) else if length live > 1 then Some (Many live) else None)"

definition row_acp :: "Session \<Rightarrow> bool" where
  "row_acp s = row_is_acp (provider s) (hosting s)"

definition acp_floor_original :: "Session list \<Rightarrow> nat list \<Rightarrow> nat option" where
  "acp_floor_original ss matched =
     (case filter (\<lambda>i. row_acp (ss ! i)) matched of
        [original] \<Rightarrow>
          if session_id (ss ! original) = [] then None
          else if list_all (\<lambda>i. session_id (ss ! i) = session_id (ss ! original)) matched then Some original else None
      | _ \<Rightarrow> None)"

definition parse_int_prefix :: "string \<Rightarrow> int option" where
  "parse_int_prefix s =
     (let t = trim_start s;
          sign = (if t \<noteq> [] \<and> (hd t = CHR ''+'' \<or> hd t = CHR ''-'') then [hd t] else []);
          digits = takeWhile is_digit (drop (length sign) t)
      in if digits = [] then None else parse_i64 (sign @ digits))"

text \<open>One row per tier: what it takes for a row to match the query there.\<close>

definition name_is :: "(string \<Rightarrow> string) \<Rightarrow> string \<Rightarrow> Session \<Rightarrow> bool" where
  "name_is lower q s \<longleftrightarrow> map_option lower (s_name s) = Some q"

definition id_tier :: "(string \<Rightarrow> string) \<Rightarrow> string \<Rightarrow> Session \<Rightarrow> bool" where
  "id_tier lower q s \<longleftrightarrow> is_valid_id lower q \<and> qd_id s = Some q"

definition pid_tier :: "string \<Rightarrow> Session \<Rightarrow> bool" where
  "pid_tier query s \<longleftrightarrow> (case parse_int_prefix query of Some n \<Rightarrow> n > 0 \<and> pid s = Some n | None \<Rightarrow> False)"

definition name_prefix_tier :: "(string \<Rightarrow> string) \<Rightarrow> string \<Rightarrow> Session \<Rightarrow> bool" where
  "name_prefix_tier lower q s \<longleftrightarrow> is_some_and (s_name s) (\<lambda>n. starts_with (lower n) q)"

definition id_prefix_tier :: "(string \<Rightarrow> string) \<Rightarrow> string \<Rightarrow> Session \<Rightarrow> bool" where
  "id_prefix_tier lower q s \<longleftrightarrow> 2 \<le> chars_count q \<and> is_alphabet_prefix lower q \<and> is_some_and (qd_id s) (\<lambda>i. starts_with i q)"

definition uuid_prefix_tier :: "(string \<Rightarrow> string) \<Rightarrow> string \<Rightarrow> Session \<Rightarrow> bool" where
  "uuid_prefix_tier lower q s \<longleftrightarrow> starts_with (lower (session_id s)) q"

definition zmx_tier :: "(string \<Rightarrow> string) \<Rightarrow> string \<Rightarrow> Session \<Rightarrow> bool" where
  "zmx_tier lower q s \<longleftrightarrow> is_some_and (zmx_name s) (\<lambda>z. lower z = q \<or> starts_with (lower z) q)"

text \<open>The common shapes of a tier: \<open>None\<close> falls through to the next one.\<close>

definition plain_tier :: "nat list \<Rightarrow> Resolution option" where
  "plain_tier ms = (if length ms = 1 then Some (One (ms ! 0)) else if length ms > 1 then Some (Many ms) else None)"

definition twin_tier :: "Session list \<Rightarrow> nat list \<Rightarrow> Resolution option" where
  "twin_tier ss ms =
     (if length ms = 1 then Some (One (ms ! 0))
      else if length ms > 1 then Some (case acp_floor_original ss ms of Some i \<Rightarrow> One i | None \<Rightarrow> Many ms)
      else None)"

definition exact_id_tier :: "(string \<Rightarrow> string) \<Rightarrow> string \<Rightarrow> (Session \<Rightarrow> bool) \<Rightarrow> Session list \<Rightarrow> Resolution option" where
  "exact_id_tier lower q is_alive ss =
     (let id_match = matching ss (id_tier lower q);
          name_shadow = filter (\<lambda>i. i \<notin> set id_match) (matching ss (name_is lower q))
      in if id_match \<noteq> [] \<and> name_shadow \<noteq> [] then Some (Many (id_match @ name_shadow))
         else if length id_match = 1 then Some (One (id_match ! 0))
         else if length id_match > 1 then
           Some (case acp_floor_original ss id_match of
                   Some i \<Rightarrow> One i
                 | None \<Rightarrow> (case refine ss is_alive id_match of Some r \<Rightarrow> r | None \<Rightarrow> Many id_match))
         else None)"

definition exact_name_tier :: "(string \<Rightarrow> string) \<Rightarrow> string \<Rightarrow> (Session \<Rightarrow> bool) \<Rightarrow> Session list \<Rightarrow> Resolution option" where
  "exact_name_tier lower q is_alive ss =
     (let ms = matching ss (name_is lower q)
      in if length ms = 1 then Some (One (ms ! 0)) else if length ms > 1 then refine ss is_alive ms else None)"

definition or_else :: "Resolution option \<Rightarrow> Resolution option \<Rightarrow> Resolution option" where
  "or_else a b = (case a of None \<Rightarrow> b | Some r \<Rightarrow> Some r)"

definition resolve_session_with_liveness ::
  "(string \<Rightarrow> string) \<Rightarrow> string \<Rightarrow> Session list \<Rightarrow> (Session \<Rightarrow> bool) \<Rightarrow> Resolution" where
  "resolve_session_with_liveness lower query ss is_alive =
     (let q = lower query;
          tiers = [exact_id_tier lower q is_alive ss, plain_tier (matching ss (pid_tier query)), exact_name_tier lower q is_alive ss,
                   twin_tier ss (matching ss (name_prefix_tier lower q)), twin_tier ss (matching ss (id_prefix_tier lower q)),
                   twin_tier ss (matching ss (uuid_prefix_tier lower q)), plain_tier (matching ss (zmx_tier lower q))]
      in case foldr or_else tiers None of Some r \<Rightarrow> r | None \<Rightarrow> NoMatch)"

definition resolve_session :: "(string \<Rightarrow> string) \<Rightarrow> string \<Rightarrow> Session list \<Rightarrow> Resolution" where
  "resolve_session lower query ss = resolve_session_with_liveness lower query ss (\<lambda>s. is_live_status (status s))"

end
