(* ===== verification/Resolve_Inv.thy ===== *)
theory Resolve_Inv
  imports Resolve
begin

text \<open>
  What each tier of the resolver decides: \<open>decided\<close> says that an answer of a tier is justified by its
  matches, and every tier meets it.
\<close>

text \<open>Row \<open>i\<close> may be preferred over row \<open>j\<close>: it is the live one of the two, or \<open>j\<close> is its plain twin.\<close>

definition outranks :: "Session list \<Rightarrow> (Session \<Rightarrow> bool) \<Rightarrow> nat \<Rightarrow> nat \<Rightarrow> bool" where
  "outranks ss is_alive i j \<longleftrightarrow>
     is_alive (ss ! i) \<and> \<not> is_alive (ss ! j)
     \<or> row_acp (ss ! i) \<and> \<not> row_acp (ss ! j) \<and> session_id (ss ! j) = session_id (ss ! i) \<and> session_id (ss ! i) \<noteq> []"

definition chosen :: "Session list \<Rightarrow> (Session \<Rightarrow> bool) \<Rightarrow> nat list \<Rightarrow> nat \<Rightarrow> bool" where
  "chosen ss is_alive ms i \<longleftrightarrow> i \<in> set ms \<and> (\<forall>j \<in> set ms. j \<noteq> i \<longrightarrow> outranks ss is_alive i j)"

definition decided :: "Session list \<Rightarrow> (Session \<Rightarrow> bool) \<Rightarrow> nat list \<Rightarrow> Resolution option \<Rightarrow> bool" where
  "decided ss is_alive ms r \<longleftrightarrow>
     (case r of
        None \<Rightarrow> \<forall>j \<in> set ms. \<not> is_alive (ss ! j)
      | Some (One i) \<Rightarrow> chosen ss is_alive ms i
      | Some (Many is) \<Rightarrow> 2 \<le> length is \<and> distinct is \<and> set is \<subseteq> set ms
      | Some NoMatch \<Rightarrow> False)"

lemma matching_set: "set (matching ss P) = {i. i < length ss \<and> P (ss ! i)}"
  by (auto simp: matching_def)

lemma matching_distinct: "distinct (matching ss P)"
  by (simp add: matching_def)

lemma singleton_list: "length ms = 1 \<Longrightarrow> ms = [ms ! 0]"
  by (cases ms) auto

lemma chosen_one [simp]: "chosen ss is_alive [a] a"
  by (simp add: chosen_def)

lemma chosen_single: "length ms = 1 \<Longrightarrow> chosen ss is_alive ms (ms ! 0)"
  by (subst (1) singleton_list) (auto simp: chosen_def dest: singleton_list)

lemma acp_original_chosen:
  assumes "acp_floor_original ss ms = Some i"
  shows "chosen ss is_alive ms i"
proof -
  obtain f: "filter (\<lambda>i. row_acp (ss ! i)) ms = [i]" and sid: "session_id (ss ! i) \<noteq> []"
    and all: "\<forall>j \<in> set ms. session_id (ss ! j) = session_id (ss ! i)"
    using assms by (auto simp: acp_floor_original_def list_all_iff split: list.splits if_splits)
  have acp: "j \<in> set ms \<and> row_acp (ss ! j) \<longleftrightarrow> j = i" for j
    using arg_cong [OF f, of set] by auto
  show ?thesis using acp sid all by (auto simp: chosen_def outranks_def)
qed

lemma refine_decided:
  assumes "distinct ms"
  shows "decided ss is_alive ms (refine ss is_alive ms)"
proof -
  define live where "live = filter (\<lambda>i. is_alive (ss ! i)) ms"
  have live: "set live = {i \<in> set ms. is_alive (ss ! i)}" "distinct live" using assms by (auto simp: live_def)
  consider "live = []" | i where "live = [i]" | "length live > 1" by (cases live; cases "tl live") auto
  then show ?thesis
  proof cases
    case 1
    then show ?thesis using live(1) by (auto simp: refine_def live_def [symmetric] decided_def)
  next
    case (2 i)
    then have "j \<in> set ms \<and> is_alive (ss ! j) \<longleftrightarrow> j = i" for j using live(1) by auto
    then show ?thesis using 2 by (auto simp: refine_def live_def [symmetric] decided_def chosen_def outranks_def)
  next
    case 3
    then show ?thesis using live by (auto simp: refine_def live_def [symmetric] decided_def)
  qed
qed

lemma plain_tier_decided: "distinct ms \<Longrightarrow> decided ss is_alive ms (plain_tier ms)"
  by (cases ms) (auto simp: plain_tier_def decided_def Suc_le_eq)

lemma twin_tier_decided: "distinct ms \<Longrightarrow> decided ss is_alive ms (twin_tier ss ms)"
  using acp_original_chosen [of ss ms]
  by (cases ms) (auto simp: twin_tier_def decided_def Suc_le_eq split: option.splits)

lemma exact_name_decided: "decided ss is_alive (matching ss (name_is lower q)) (exact_name_tier lower q is_alive ss)"
proof -
  let ?ms = "matching ss (name_is lower q)"
  consider "?ms = []" | "length ?ms = 1" | "length ?ms > 1" by (cases ?ms; cases "tl ?ms") auto
  then show ?thesis
  proof cases
    case 2
    then show ?thesis using chosen_single [OF 2] by (simp add: exact_name_tier_def decided_def)
  next
    case 3
    then show ?thesis using refine_decided [OF matching_distinct] by (simp add: exact_name_tier_def)
  qed (simp add: exact_name_tier_def decided_def)
qed

lemma exact_id_Many_mixed:
  assumes "r = exact_id_tier lower q is_alive ss" "idm = matching ss (id_tier lower q)" "nm = matching ss (name_is lower q)"
  shows "if idm \<noteq> [] \<and> \<not> set nm \<subseteq> set idm then \<exists>is. r = Some (Many is) \<and> 2 \<le> length is \<and> distinct is \<and> set is = set idm \<union> set nm
    else if idm = [] then r = None else r \<noteq> None \<and> decided ss is_alive idm r"
proof -
  define shadow where "shadow = filter (\<lambda>i. i \<notin> set idm) nm"
  have d: "distinct idm" "distinct shadow" "set shadow = set nm - set idm" "set idm \<inter> set shadow = {}"
    using assms by (auto simp: shadow_def matching_distinct)
  have empty: "shadow = [] \<longleftrightarrow> set nm \<subseteq> set idm" using d(3) by (metis Diff_eq_empty_iff set_empty)
  have r: "r = (if idm \<noteq> [] \<and> shadow \<noteq> [] then Some (Many (idm @ shadow)) else if length idm = 1 then Some (One (idm ! 0))
      else if length idm > 1 then Some (case acp_floor_original ss idm of Some i \<Rightarrow> One i
        | None \<Rightarrow> (case refine ss is_alive idm of Some r \<Rightarrow> r | None \<Rightarrow> Many idm)) else None)"
    unfolding assms(1) exact_id_tier_def Let_def shadow_def assms(2,3) by (rule refl)
  show ?thesis
  proof (cases "idm \<noteq> [] \<and> shadow \<noteq> []")
    case True
    then have "2 \<le> length (idm @ shadow)" by (cases idm; cases shadow) auto
    then show ?thesis using True d empty by (auto simp: r)
  next
    case False
    show ?thesis
    proof (cases "length idm = 1")
      case True
      then show ?thesis using False empty chosen_single [OF True] by (auto simp: r decided_def)
    next
      case not1: False
      have "decided ss is_alive idm r" if "length idm > 1"
        using False not1 that acp_original_chosen [of ss idm _ is_alive] refine_decided [OF d(1), of ss is_alive] d(1)
        by (auto simp: r decided_def split: option.splits)
      then show ?thesis using False not1 empty by (cases idm) (auto simp: r)
    qed
  qed
qed

subsection \<open>All tiers\<close>

definition tiers :: "(string \<Rightarrow> string) \<Rightarrow> string \<Rightarrow> (Session \<Rightarrow> bool) list" where
  "tiers lower query =
     [id_tier lower (lower query), pid_tier query, name_is lower (lower query), name_prefix_tier lower (lower query),
      id_prefix_tier lower (lower query), uuid_prefix_tier lower (lower query), zmx_tier lower (lower query)]"

definition tier_results :: "(string \<Rightarrow> string) \<Rightarrow> string \<Rightarrow> Session list \<Rightarrow> (Session \<Rightarrow> bool) \<Rightarrow> Resolution option list" where
  "tier_results lower query ss is_alive =
     (let q = lower query
      in [exact_id_tier lower q is_alive ss, plain_tier (matching ss (pid_tier query)), exact_name_tier lower q is_alive ss,
          twin_tier ss (matching ss (name_prefix_tier lower q)), twin_tier ss (matching ss (id_prefix_tier lower q)),
          twin_tier ss (matching ss (uuid_prefix_tier lower q)), plain_tier (matching ss (zmx_tier lower q))])"

lemma first_some:
  "foldr or_else rs None = Some r \<longleftrightarrow> (\<exists>k < length rs. rs ! k = Some r \<and> (\<forall>k' < k. rs ! k' = None))"
proof (induction rs)
  case (Cons x rs)
  show ?case
  proof (cases x)
    case None
    then show ?thesis using Cons by (auto simp: or_else_def nth_Cons All_less_Suc2 Ex_less_Suc2)
  next
    case (Some y)
    then show ?thesis by (auto simp: or_else_def nth_Cons Ex_less_Suc2 split: nat.splits)
  qed
qed simp

lemma all_none: "foldr or_else rs None = None \<longleftrightarrow> (\<forall>k < length rs. rs ! k = None)"
  by (induction rs) (auto simp: or_else_def nth_Cons All_less_Suc2 split: option.splits)

lemma tier_cases: "k < 7 \<Longrightarrow> k \<in> {0, 1, 2, 3, 4, 5, 6 :: nat}"
  by auto

lemma tier_none:
  assumes "k < 7" "tier_results lower query ss is_alive ! k = None" "j < length ss" "(tiers lower query ! k) (ss ! j)"
  shows "k = 2 \<and> \<not> is_alive (ss ! j)"
proof -
  have j: "j \<in> set (matching ss (tiers lower query ! k))" using assms by (simp add: matching_set)
  then have ne: "matching ss (tiers lower query ! k) \<noteq> []" by auto
  have plain: "plain_tier ms = None \<Longrightarrow> ms = []" for ms by (cases ms) (auto simp: plain_tier_def split: if_splits)
  have twin: "twin_tier ss ms = None \<Longrightarrow> ms = []" for ms by (cases ms) (auto simp: twin_tier_def split: if_splits)
  have exact: "exact_id_tier lower (lower query) is_alive ss = None \<Longrightarrow> matching ss (id_tier lower (lower query)) = []"
    using exact_id_Many_mixed [where lower = lower and q = "lower query" and is_alive = is_alive and ss = ss, OF refl refl refl] by (auto split: if_splits)
  show ?thesis
  proof (cases "k = 2")
    case True
    then show ?thesis
      using assms(2) j exact_name_decided [of ss is_alive lower "lower query"] by (simp add: tier_results_def tiers_def decided_def Let_def)
  next
    case False
    then have "k \<in> {0, 1, 3, 4, 5, 6}" using assms(1) by auto
    then show ?thesis using assms(2) ne plain twin exact by (auto simp: tier_results_def tiers_def Let_def)
  qed
qed

lemma tier_decided:
  assumes "k < 7" "k \<noteq> 0"
  shows "decided ss is_alive (matching ss (tiers lower query ! k)) (tier_results lower query ss is_alive ! k)"
proof -
  have "k \<in> {1, 2, 3, 4, 5, 6}" using assms by auto
  then show ?thesis
    using exact_name_decided [of ss is_alive lower "lower query"]
    by (auto simp: tiers_def tier_results_def Let_def plain_tier_decided twin_tier_decided matching_distinct)
qed

lemma resolve_eq:
  "resolve_session_with_liveness lower query ss is_alive
     = (case foldr or_else (tier_results lower query ss is_alive) None of Some r \<Rightarrow> r | None \<Rightarrow> NoMatch)"
  by (simp add: resolve_session_with_liveness_def tier_results_def Let_def)

lemma results_length: "length (tier_results lower query ss is_alive) = 7"
  by (simp add: tier_results_def Let_def)

lemma tier_not_NoMatch: "k < 7 \<Longrightarrow> tier_results lower query ss is_alive ! k \<noteq> Some NoMatch"
proof (cases "k = 0")
  case True
  then show ?thesis
    using exact_id_Many_mixed [where lower = lower and q = "lower query" and is_alive = is_alive and ss = ss, OF refl refl refl]
    by (auto simp: tier_results_def Let_def decided_def split: if_splits)
next
  case False
  then show "k < 7 \<Longrightarrow> ?thesis" using tier_decided [of k ss is_alive lower query] by (auto simp: decided_def)
qed

lemma resolve_decisive:
  assumes "resolve_session_with_liveness lower query ss is_alive = r" "r \<noteq> NoMatch"
  obtains k where "k < 7" "tier_results lower query ss is_alive ! k = Some r"
    "\<forall>k' < k. tier_results lower query ss is_alive ! k' = None"
  using assms first_some [of "tier_results lower query ss is_alive" r] that
  by (auto simp: resolve_eq results_length split: option.splits)

end
