(* ===== verification/Id_Store_Inv.thy ===== *)
theory Id_Store_Inv
  imports Id_Store Ledger_Log
begin

text \<open>
  The identifier store over histories of operations: a file written by whole rows folds row by row,
  the fold keeps ids and sessions in one-to-one correspondence, and a mapping once made stays.
\<close>

text \<open>What the store relies on of the JSON library, beside \<open>json_ok\<close>: no white space around an object.\<close>

definition json_tight :: "(members \<Rightarrow> string) \<Rightarrow> bool" where
  "json_tight json_print \<longleftrightarrow> (\<forall>ms. ws_head (json_print ms) = 0 \<and> ws_last (json_print ms) = 0)"

subsection \<open>Files of whole rows\<close>

definition rows_file :: "(members \<Rightarrow> string) \<Rightarrow> members list \<Rightarrow> string" where
  "rows_file json_print rows = concat (map (\<lambda>r. json_print r @ [NL]) rows)"

lemma rows_file_snoc: "rows_file json_print (rows @ [r]) = rows_file json_print rows @ json_print r @ [NL]"
  by (simp add: rows_file_def)

lemma split_rows_file:
  assumes "\<forall>ms. NL \<notin> set (json_print ms)"
  shows "split_nl (rows_file json_print rows) = map json_print rows @ [[]]"
proof (induction rows)
  case (Cons r rows)
  then show ?case
    using split_nl_append [of "json_print r" "rows_file json_print rows"] split_nl_line [of "json_print r"] assms
    by (simp add: rows_file_def)
qed (simp add: rows_file_def)

lemma trim_tight: "ws_head s = 0 \<Longrightarrow> ws_last s = 0 \<Longrightarrow> trim s = s"
  by (simp add: trim_def trim_start.simps trim_end.simps)

lemma strip_cr_tight:
  assumes "ws_last s = 0"
  shows "strip_cr s = s"
proof -
  have "drop (length s - 1) s = [last s]" if "s \<noteq> []" using that by (metis append_butlast_last_id append_eq_conv_conj length_butlast)
  then have "last s \<noteq> CHR 0x0D" if "s \<noteq> []" using assms that by (auto simp: ws_last_def ws_head_def Suc_le_eq split: if_splits)
  then show ?thesis by (auto simp: strip_cr_def)
qed

lemma rust_lines_rows:
  assumes "\<forall>ms. NL \<notin> set (json_print ms)" "json_tight json_print"
  shows "rust_lines (rows_file json_print rows) = map json_print rows"
proof -
  have "map (strip_cr \<circ> json_print) rows = map json_print rows"
    using assms(2) by (auto simp: json_tight_def intro: strip_cr_tight)
  then show ?thesis by (simp add: rust_lines_def split_rows_file [OF assms(1)])
qed

definition fold_rows :: "members list \<Rightarrow> fold_state" where
  "fold_rows rows = fold fold_row rows (empty_map, [])"

lemma fold_line_row:
  assumes "json_ok json_print json_of" "json_tight json_print"
  shows "fold_line json_of (json_print r) = fold_row r"
proof -
  have "\<not> list_all ascii_whitespace (json_print r)" using assms(1) by (simp add: json_ok_def)
  then have "json_print r \<noteq> []" by auto
  then show ?thesis
    using assms by (auto simp: fold_line_def fun_eq_iff json_tight_def trim_tight json_ok_def)
qed

lemma fold_str_rows:
  assumes "json_ok json_print json_of" "json_tight json_print"
  shows "fold_str json_of (rows_file json_print rows) = (fst (fold_rows rows))\<lparr>newest_unbound_mint_ms := newest_unbound (fold_rows rows)\<rparr>"
proof -
  have "\<forall>ms. NL \<notin> set (json_print ms)" using assms(1) by (simp add: json_ok_def)
  then show ?thesis
    by (simp add: fold_str_def rust_lines_rows assms(2) fold_map fold_line_row [OF assms] comp_def fold_rows_def Let_def)
qed

subsection \<open>One id, one session\<close>

definition one_to_one :: "IdMap \<Rightarrow> bool" where
  "one_to_one m \<longleftrightarrow> (\<forall>s i. map_of (by_session m) s = Some i \<longleftrightarrow> map_of (by_id m) i = Some (Some s))"

lemma map_of_or_insert: "map_of (or_insert k v m) k' = (if map_of m k' = None \<and> k' = k then Some v else map_of m k')"
  by (auto simp: or_insert_def map_add_def split: option.splits)

lemma get_rows:
  "get_str ''event'' (mint_row t i s n) = Some ''mint''" "str_or_empty ''id'' (mint_row t i s n) = i"
  "str_or_empty ''session_id'' (mint_row t i s n) = (case s of None \<Rightarrow> [] | Some x \<Rightarrow> x)"
  "get_str ''event'' (bind_row t i sess) = Some ''bind''" "str_or_empty ''id'' (bind_row t i sess) = i"
  "str_or_empty ''session_id'' (bind_row t i sess) = sess"
  "get_str ''event'' (lineage_row t sess p) = Some ''lineage''"
  by (simp_all add: mint_row_def bind_row_def lineage_row_def get_str_def str_or_empty_def value_get_def opt_val_def split: option.splits)

text \<open>What appending a row does to the map, for the rows that the operations append.\<close>

lemma fold_row_mint:
  assumes "i \<noteq> []" "sess \<noteq> []" "map_of (by_id m) i = None" "map_of (by_session m) sess = None" "one_to_one m"
  shows "one_to_one (fst (fold_row (mint_row t i (Some sess) n) (m, cs)))"
    and "map_of (by_session (fst (fold_row (mint_row t i (Some sess) n) (m, cs)))) = (map_of (by_session m))(sess \<mapsto> i)"
proof -
  have none: "map_of (by_id m) x \<noteq> Some (Some sess)" for x using assms(4,5) unfolding one_to_one_def by (metis option.distinct(1))
  have eqs: "map_of (by_session (fst (fold_row (mint_row t i (Some sess) n) (m, cs)))) = (map_of (by_session m))(sess \<mapsto> i)"
    "map_of (by_id (fst (fold_row (mint_row t i (Some sess) n) (m, cs)))) = (map_of (by_id m))(i \<mapsto> Some sess)"
    using assms(1-4) by (auto simp: fold_row_def fold_mint_def get_rows map_of_or_insert fun_eq_iff)
  then show "map_of (by_session (fst (fold_row (mint_row t i (Some sess) n) (m, cs)))) = (map_of (by_session m))(sess \<mapsto> i)" by blast
  have "map_of (by_session m) s \<noteq> Some i" for s using assms(3,5) by (simp add: one_to_one_def)
  then show "one_to_one (fst (fold_row (mint_row t i (Some sess) n) (m, cs)))"
    using assms(5) none unfolding one_to_one_def eqs by auto
qed

lemma fold_row_unbound:
  assumes "one_to_one m"
  shows "one_to_one (fst (fold_row (mint_row t i None n) (m, cs)))"
    and "by_session (fst (fold_row (mint_row t i None n) (m, cs))) = by_session m"
  using assms by (auto simp: fold_row_def fold_mint_def get_rows one_to_one_def map_of_or_insert Let_def)

lemma fold_row_bind:
  assumes "one_to_one m"
  shows "one_to_one (fst (fold_row (bind_row t i sess) (m, cs)))"
    and "map_of (by_session m) \<subseteq>\<^sub>m map_of (by_session (fst (fold_row (bind_row t i sess) (m, cs))))"
  using assms
  by (auto simp: fold_row_def fold_bind_def get_rows one_to_one_def update_conv' map_le_def Let_def split: if_splits)

lemma fold_row_lineage:
  "by_id (fst (fold_row (lineage_row t sess p) (m, cs))) = by_id m"
  "by_session (fst (fold_row (lineage_row t sess p) (m, cs))) = by_session m"
  by (simp_all add: fold_row_def fold_lineage_def get_rows Let_def)

subsection \<open>Histories\<close>

text \<open>An operation on the store that gets its lock and whose append, if it makes one, succeeds.\<close>

datatype id_op =
    MintOp string "string option" int "nat \<Rightarrow> string"
  | UnboundOp "string option" int "nat \<Rightarrow> string"
  | BindOp string string int
  | LineageOp string string int

fun apply_op :: "id_env \<Rightarrow> id_op \<Rightarrow> string \<Rightarrow> string" where
  "apply_op E (MintOp sess name now gen) file = snd (mint_or_get_with E True AppendOk sess name now gen file)"
| "apply_op E (UnboundOp name now gen) file = snd (mint_unbound_with E True AppendOk name now gen file)"
| "apply_op E (BindOp i sess now) file = snd (bind_id E True AppendOk i sess now file)"
| "apply_op E (LineageOp sess p now) file = snd (record_lineage E True AppendOk sess p now file)"

definition run_ops :: "id_env \<Rightarrow> id_op list \<Rightarrow> string \<Rightarrow> string" where
  "run_ops E ops file = fold (apply_op E) ops file"

definition id_env_ok :: "id_env \<Rightarrow> bool" where
  "id_env_ok E \<longleftrightarrow> json_ok (printer E) (reader E) \<and> json_tight (printer E) \<and> lower_of E [] = []"

lemma fresh_loop_fresh: "fresh_loop taken gen n = Inr i \<Longrightarrow> map_of taken i = None"
  by (induction taken gen n rule: fresh_loop.induct) (subst (asm) fresh_loop.simps, auto split: if_splits)

lemma generate_fresh:
  assumes "generate_fresh_id lower m gen = Inr i" "lower [] = []"
  shows "map_of (by_id m) i = None" "is_valid_id lower i" "i \<noteq> []"
proof -
  show "map_of (by_id m) i = None" "is_valid_id lower i"
    using assms(1) by (auto simp: generate_fresh_id_def sum_bind_def dest: fresh_loop_fresh split: sum.splits if_splits)
  then show "i \<noteq> []" using assms(2) by (auto simp: is_valid_id_def normalize_def chars_count_def ID_LEN_def Let_def)
qed

lemma fold_rows_snoc: "fold_rows (rows @ [r]) = fold_row r (fold_rows rows)"
  by (simp add: fold_rows_def)

lemma append_row_ok: "append_row E AppendOk r x (rows_file (printer E) rows) = (Inr x, rows_file (printer E) (rows @ [r]))"
  by (simp add: append_row_def write_row_def rows_file_snoc)

definition map_at :: "members list \<Rightarrow> IdMap" where
  "map_at rows = fst (fold_rows rows)"

lemma map_at_snoc: "map_at (rows @ [r]) = fst (fold_row r (map_at rows, snd (fold_rows rows)))"
  by (simp add: map_at_def fold_rows_snoc)

lemma open_rows:
  assumes "id_env_ok E"
  obtains m where "open_locked (reader E) True (rows_file (printer E) rows) = Inr m" "by_id m = by_id (map_at rows)"
    "by_session m = by_session (map_at rows)" "by_parent m = by_parent (map_at rows)"
  using assms that by (simp add: open_locked_def id_env_ok_def fold_str_rows map_at_def)

definition grows :: "id_env \<Rightarrow> members list \<Rightarrow> string \<Rightarrow> bool" where
  "grows E rows file \<longleftrightarrow> (\<exists>rows'. file = rows_file (printer E) rows' \<and> one_to_one (map_at rows')
     \<and> map_of (by_session (map_at rows)) \<subseteq>\<^sub>m map_of (by_session (map_at rows')))"

lemma grows_same: "one_to_one (map_at rows) \<Longrightarrow> grows E rows (rows_file (printer E) rows)"
  by (auto simp: grows_def)

lemma growsI: "one_to_one (map_at (rows @ [r])) \<Longrightarrow>
    map_of (by_session (map_at rows)) \<subseteq>\<^sub>m map_of (by_session (map_at (rows @ [r]))) \<Longrightarrow> grows E rows (rows_file (printer E) (rows @ [r]))"
  by (auto simp: grows_def)

lemma mint_op:
  assumes E: "id_env_ok E" and inv: "one_to_one (map_at rows)"
    and mint: "mint_or_get_with E True AppendOk sess name now gen (rows_file (printer E) rows) = (res, file)"
  shows "grows E rows file"
    and "res = Inr i \<Longrightarrow> \<exists>rows'. file = rows_file (printer E) rows' \<and> map_of (by_session (map_at rows')) sess = Some i"
proof -
  obtain m where m: "open_locked (reader E) True (rows_file (printer E) rows) = Inr m" "by_id m = by_id (map_at rows)"
    "by_session m = by_session (map_at rows)" using open_rows [OF E, of rows] by metis
  show "grows E rows file" "res = Inr i \<Longrightarrow> \<exists>rows'. file = rows_file (printer E) rows' \<and> map_of (by_session (map_at rows')) sess = Some i"
  proof (atomize (full), cases "sess = [] \<or> map_of (by_session m) sess \<noteq> None \<or> (\<exists>e. generate_fresh_id (lower_of E) m gen = Inl e)")
    case True
    then show "grows E rows file \<and> (res = Inr i \<longrightarrow> (\<exists>rows'. file = rows_file (printer E) rows' \<and> map_of (by_session (map_at rows')) sess = Some i))"
      using mint m grows_same [OF inv, of E] by (auto simp: mint_or_get_with_def split: if_splits option.splits)
  next
    case False
    then obtain j where j: "generate_fresh_id (lower_of E) m gen = Inr j" by (cases "generate_fresh_id (lower_of E) m gen") auto
    have lower: "lower_of E [] = []" using E by (simp add: id_env_ok_def)
    note fresh = generate_fresh [OF j lower]
    let ?r = "mint_row now j (Some sess) name"
    have res: "res = Inr j" "file = rows_file (printer E) (rows @ [?r])"
      using mint False j m by (auto simp: mint_or_get_with_def append_row_ok)
    have row: "one_to_one (map_at (rows @ [?r]))" "map_of (by_session (map_at (rows @ [?r]))) = (map_of (by_session (map_at rows)))(sess \<mapsto> j)"
      unfolding map_at_snoc using fold_row_mint [OF fresh(3) _ _ _ inv] fresh(1) False m by auto
    have "map_of (by_session (map_at rows)) \<subseteq>\<^sub>m map_of (by_session (map_at (rows @ [?r])))"
      using False m by (auto simp: row map_le_def)
    then show "grows E rows file \<and> (res = Inr i \<longrightarrow> (\<exists>rows'. file = rows_file (printer E) rows' \<and> map_of (by_session (map_at rows')) sess = Some i))"
      using growsI [OF row(1)] res row by auto
  qed
qed

lemma op_grows:
  assumes E: "id_env_ok E" and inv: "one_to_one (map_at rows)"
  shows "grows E rows (apply_op E op (rows_file (printer E) rows))"
proof -
  obtain m where m: "open_locked (reader E) True (rows_file (printer E) rows) = Inr m" "by_id m = by_id (map_at rows)"
    "by_session m = by_session (map_at rows)" using open_rows [OF E, of rows] by metis
  note same = grows_same [OF inv, of E]
  show ?thesis
  proof (cases op)
    case (MintOp sess name now gen)
    then show ?thesis using mint_op(1) [OF E inv] by (metis apply_op.simps(1) prod.collapse)
  next
    case (UnboundOp name now gen)
    show ?thesis
    proof (cases "generate_fresh_id (lower_of E) m gen")
      case (Inr i)
      have "grows E rows (rows_file (printer E) (rows @ [mint_row now i None name]))"
        by (rule growsI) (simp_all add: map_at_snoc fold_row_unbound inv)
      then show ?thesis using UnboundOp Inr m by (simp add: mint_unbound_with_def append_row_ok)
    qed (use UnboundOp m same in \<open>simp add: mint_unbound_with_def\<close>)
  next
    case (BindOp i sess now)
    have "grows E rows (rows_file (printer E) (rows @ [bind_row now (normalize (lower_of E) i) sess]))"
      by (rule growsI) (simp_all add: map_at_snoc fold_row_bind inv)
    then show ?thesis using BindOp m same by (auto simp: bind_id_def append_row_ok Let_def split: option.splits)
  next
    case (LineageOp sess p now)
    have "grows E rows (rows_file (printer E) (rows @ [lineage_row now sess p]))"
      using inv by (intro growsI) (simp_all add: map_at_snoc fold_row_lineage one_to_one_def)
    then show ?thesis using LineageOp m same by (auto simp: record_lineage_def append_row_ok)
  qed
qed

lemma ops_grow:
  assumes E: "id_env_ok E" and inv: "one_to_one (map_at rows)"
  shows "grows E rows (run_ops E ops (rows_file (printer E) rows))"
  using inv
proof (induction ops arbitrary: rows)
  case Nil
  then show ?case by (simp add: run_ops_def grows_same)
next
  case (Cons op ops)
  obtain rows1 where r1: "apply_op E op (rows_file (printer E) rows) = rows_file (printer E) rows1" "one_to_one (map_at rows1)"
    "map_of (by_session (map_at rows)) \<subseteq>\<^sub>m map_of (by_session (map_at rows1))"
    using op_grows [OF E Cons.prems, of op] by (auto simp: grows_def)
  then show ?case using Cons.IH [OF r1(2)] by (auto simp: grows_def run_ops_def intro: map_le_trans)
qed

lemma one_to_one_empty: "one_to_one (map_at [])" "rows_file p [] = []"
  by (simp_all add: one_to_one_def map_at_def fold_rows_def empty_map_def rows_file_def)

lemma fold_str_map_at:
  "id_env_ok E \<Longrightarrow> by_session (fold_str (reader E) (rows_file (printer E) rows)) = by_session (map_at rows)"
  "id_env_ok E \<Longrightarrow> by_id (fold_str (reader E) (rows_file (printer E) rows)) = by_id (map_at rows)"
  by (simp_all add: id_env_ok_def fold_str_rows map_at_def)

end
