(* ===== verification/Identity_Props.thy ===== *)
theory Identity_Props
  imports Resolve_Inv Id_Store_Inv
begin

text \<open>
  Properties of the components that name things: lanes, timestamps, the identifier store and the
  resolver.
\<close>

subsection \<open>Lanes\<close>

text \<open>
  C32. Lanes are what they are called. The nine listed lanes are exactly the supported ones and have
  distinct identifiers; for each of them the identifier, the pair of registry fields, the provider
  argument and the default creation from its identifier all read back as that lane. Nothing that is
  read from a row, an identifier or a creation request is an unsupported lane, and a creation request
  with a topology flag gets that topology or is refused.
\<close>

theorem lanes_read_back:
  "set LANE_ALL = {l. supports (harness l) (mode l)} \<and> distinct (map lane_id LANE_ALL)
   \<and> (\<forall>l \<in> set LANE_ALL. from_id (lane_id l) = Some l
        \<and> lane_for (provider_id (harness l)) (Some (hosting_token (mode l))) = Some l
        \<and> parse_provider_arg (lane_id l) = Some (harness l, Some (mode l))
        \<and> for_create (lane_id l) TDefault = Some l)
   \<and> (\<forall>a b c t l. from_id a = Some l \<or> lane_for b c = Some l \<or> for_create a t = Some l \<longrightarrow> l \<in> set LANE_ALL)
   \<and> (\<forall>a t m l. topology_mode t = Some m \<and> for_create a t = Some l \<longrightarrow> mode l = m)"
proof -
  have "from_id (lane_id l) = Some l \<and> lane_for (provider_id (harness l)) (Some (hosting_token (mode l))) = Some l
      \<and> parse_provider_arg (lane_id l) = Some (harness l, Some (mode l)) \<and> for_create (lane_id l) TDefault = Some l"
    if "l \<in> set LANE_ALL" for l
  proof -
    have v: "valid_lane l" using that by (simp add: lane_all_valid)
    then have p: "parse_provider_arg (lane_id l) = Some (harness l, Some (mode l))"
      by (simp add: parse_provider_arg_def lane_id_not_provider from_id_lane_id)
    show ?thesis using v p by (simp add: from_id_lane_id lane_for_def for_create_def lane_new_def valid_lane_def)
  qed
  moreover have "l \<in> set LANE_ALL" if "from_id a = Some l \<or> lane_for b c = Some l \<or> for_create a t = Some l" for a b c t l
    using that from_id_valid lane_for_valid for_create_valid by (auto simp: lane_all_valid)
  ultimately show ?thesis
    using lane_all_valid for_create_flag by (auto simp: valid_lane_def)
qed

theorem lanes_read_back_witness:
  "for_create ''codex/daemon'' TDefault = Some \<lparr>harness = Codex, mode = Daemon\<rparr> \<and> \<lparr>harness = Codex, mode = Daemon\<rparr> \<in> set LANE_ALL"
proof -
  have l: "\<lparr>harness = Codex, mode = Daemon\<rparr> \<in> set LANE_ALL" by (simp add: LANE_ALL_def)
  then have "for_create (lane_id \<lparr>harness = Codex, mode = Daemon\<rparr>) TDefault = Some \<lparr>harness = Codex, mode = Daemon\<rparr>"
    using lanes_read_back by blast
  then show ?thesis using l by (simp add: lane_id_def)
qed

subsection \<open>Timestamps\<close>

lemma iso_parse_text:
  assumes "0 \<le> y" "y \<le> 9999" "1 \<le> mo" "mo \<le> 12" "1 \<le> d" "d \<le> 31" "0 \<le> h" "h \<le> 23" "0 \<le> mi" "mi \<le> 59" "0 \<le> s" "s \<le> 59"
    "0 \<le> ml" "ml \<le> 999" "civil_from_days (days_from_civil y mo d) = (y, mo, d)"
  shows "iso_to_epoch_ms (iso_text y mo d h mi s ml) = Some ((days_from_civil y mo d * 86400 + h * 3600 + mi * 60 + s) * 1000 + ml)"
proof -
  have two: "digits_val 0 (fixw 2 n) = Some n" if "0 \<le> n" "n \<le> 99" for n using that by (intro digits_val_fixw) simp_all
  have "digits_val 0 (fixw 4 y) = Some y" using assms by (intro digits_val_fixw) simp_all
  moreover have "digits_val 0 (fixw 3 ml) = Some ml" using assms by (intro digits_val_fixw) simp_all
  moreover have "digits_val 0 (fixw 2 mo) = Some mo" "digits_val 0 (fixw 2 d) = Some d" "digits_val 0 (fixw 2 h) = Some h"
    "digits_val 0 (fixw 2 mi) = Some mi" "digits_val 0 (fixw 2 s) = Some s"
    by (rule two; use assms in linarith)+
  ultimately show ?thesis using assms unfolding iso_to_epoch_ms_def by (simp add: iso_fields Let_def)
qed

text \<open>
  C33. The timestamp parser is the strict inverse of the formatter, as its documentation says: a text
  is read as an instant if and only if it is exactly what formatting that instant gives and the
  instant's year has four digits. So every instant of the years 0 to 9999 survives the trip, negative
  ones included, and no other text, calendar-invalid dates included, is accepted.
\<close>

theorem iso_strict_inverse:
  "iso_to_epoch_ms b = Some ms \<longleftrightarrow>
     0 \<le> c_year (civil_from_epoch_ms ms) \<and> c_year (civil_from_epoch_ms ms) \<le> 9999 \<and> b = epoch_ms_to_iso ms"
proof
  assume iso: "iso_to_epoch_ms b = Some ms"
  note shape = iso_SomeD(1) [OF iso]
  then have len: "length b = 24" by (rule conjunct1)
  obtain y mo d h mi s ml where all: "iso_field b 0 4 = Some y \<and> iso_field b 5 7 = Some mo \<and> iso_field b 8 10 = Some d
      \<and> iso_field b 11 13 = Some h \<and> iso_field b 14 16 = Some mi \<and> iso_field b 17 19 = Some s \<and> iso_field b 20 23 = Some ml
      \<and> h \<le> 23 \<and> mi \<le> 59 \<and> s \<le> 59 \<and> civil_from_days (days_from_civil y mo d) = (y, mo, d)
      \<and> ms = (days_from_civil y mo d * 86400 + h * 3600 + mi * 60 + s) * 1000 + ml"
    using iso_SomeD(2) [OF iso] by (elim exE)
  then have f: "iso_field b 0 4 = Some y" "iso_field b 5 7 = Some mo" "iso_field b 8 10 = Some d" "iso_field b 11 13 = Some h"
      "iso_field b 14 16 = Some mi" "iso_field b 17 19 = Some s" "iso_field b 20 23 = Some ml"
    and r: "h \<le> 23" "mi \<le> 59" "s \<le> 59" "civil_from_days (days_from_civil y mo d) = (y, mo, d)"
    and ms: "ms = (days_from_civil y mo d * 86400 + h * 3600 + mi * 60 + s) * 1000 + ml"
    by satx+
  have w: "fixw 4 y = take 4 b \<and> 0 \<le> y \<and> y < 10 ^ 4" "fixw 2 mo = take 2 (drop 5 b)" "fixw 2 d = take 2 (drop 8 b)"
    "fixw 2 h = take 2 (drop 11 b) \<and> 0 \<le> h" "fixw 2 mi = take 2 (drop 14 b) \<and> 0 \<le> mi" "fixw 2 s = take 2 (drop 17 b) \<and> 0 \<le> s"
    "fixw 3 ml = take 3 (drop 20 b) \<and> 0 \<le> ml \<and> ml < 10 ^ 3"
    using f [unfolded iso_field_def, THEN fixw_digits_val] len by simp_all
  have nonneg: "0 \<le> h" "0 \<le> mi" "0 \<le> s" "0 \<le> ml" "ml < 1000" using w by auto
  note parts = clock_join [OF nonneg(1) r(1) nonneg(2) r(2) nonneg(3) r(3) nonneg(4,5) ms]
  have civ: "civil_from_days (ms div 1000 div 86400) = (y, mo, d)" unfolding parts(2) by (rule r(4))
  have y: "0 \<le> y" "y \<le> 9999" using w(1) by simp_all
  have "epoch_ms_to_iso ms = b"
    unfolding epoch_iso_eq [OF civ y] parts iso_text_def using w shape by (subst iso_shape [OF len]) (simp del: fixw.simps)
  then show "0 \<le> c_year (civil_from_epoch_ms ms) \<and> c_year (civil_from_epoch_ms ms) \<le> 9999 \<and> b = epoch_ms_to_iso ms"
    using y by (simp add: civil_epoch_eq [OF civ])
next
  assume R: "0 \<le> c_year (civil_from_epoch_ms ms) \<and> c_year (civil_from_epoch_ms ms) \<le> 9999 \<and> b = epoch_ms_to_iso ms"
  obtain y mo d where civ: "civil_from_days (ms div 1000 div 86400) = (y, mo, d)" by (metis prod_cases3)
  define sod where "sod = ms div 1000 mod 86400"
  have y: "0 \<le> y" "y \<le> 9999" using R by (simp_all add: civil_epoch_eq [OF civ])
  note c = civil_bounds [OF civ] and days = days_civil_inverse [OF civ]
  have k: "0 \<le> sod" "sod < 86400" by (simp_all add: sod_def)
  note k = clock_split [OF k]
  have b: "b = iso_text y mo d (sod div 3600) (sod mod 3600 div 60) (sod mod 60) (ms mod 1000)"
    using R epoch_iso_eq [OF civ y] by (simp add: sod_def)
  have total: "(ms div 1000 div 86400 * 86400 + sod div 3600 * 3600 + sod mod 3600 div 60 * 60 + sod mod 60) * 1000 + ms mod 1000 = ms"
  proof -
    have "ms div 1000 div 86400 * 86400 + sod div 3600 * 3600 + sod mod 3600 div 60 * 60 + sod mod 60 = ms div 1000 div 86400 * 86400 + sod"
      by (simp only: add.assoc k(7) [unfolded add.assoc])
    also have "\<dots> = ms div 1000" unfolding sod_def by (rule div_mult_mod_eq)
    finally show ?thesis by (simp only: div_mult_mod_eq)
  qed
  have "iso_to_epoch_ms b = Some ((days_from_civil y mo d * 86400 + sod div 3600 * 3600 + sod mod 3600 div 60 * 60 + sod mod 60) * 1000 + ms mod 1000)"
    unfolding b
  proof (rule iso_parse_text)
    show "0 \<le> ms mod 1000" "ms mod 1000 \<le> 999" by simp_all
    show "civil_from_days (days_from_civil y mo d) = (y, mo, d)" unfolding days by (rule civ)
  qed (fact y c k)+
  then show "iso_to_epoch_ms b = Some ms" unfolding days total .
qed

subsection \<open>Stable identifiers\<close>

lemma sample_tight: "json_tight sample_print"
proof -
  have hd: "ws_head (put_string s @ rest) = 0" for s rest by (cases s) (simp_all add: ws_head_ascii)
  have "ws_head (put_strings ss) = 0" for ss
    using hd by (cases ss) (simp_all add: put_strings_def ws_head_ascii)
  then show ?thesis by (simp add: json_tight_def sample_print_def put_strings_def ws_last_bracket)
qed

definition sample_env :: id_env where
  "sample_env = \<lparr>lower_of = (\<lambda>s. s), printer = sample_print, reader = sample_of\<rparr>"

lemma sample_env_ok: "id_env_ok sample_env"
  by (simp add: id_env_ok_def sample_env_def sample_json_ok sample_tight)

text \<open>
  C9. Stable ids are stable and unique, as long as every append is written whole. Take a store that
  starts empty and a sequence of mints, unbound mints, binds and lineage records, in any order and with
  any generator, clashing ones included, in which every operation gets the lock and every append
  succeeds. Then two sessions never have the same id, the map from ids to sessions and the map from
  sessions to ids are inverse to each other, a mapping that exists is not changed by any further such
  sequence, and a further mint of that kind that returns an id for a session has recorded exactly that
  mapping. After an append that was cut off this is false, as shown below.
\<close>

theorem ids_stable_and_unique:
  assumes "id_env_ok E"
  shows "(\<forall>s s' i. map_of (by_session (fold_str (reader E) (run_ops E ops []))) s = Some i
        \<and> map_of (by_session (fold_str (reader E) (run_ops E ops []))) s' = Some i \<longrightarrow> s = s')
    \<and> (\<forall>s i. map_of (by_session (fold_str (reader E) (run_ops E ops []))) s = Some i \<longleftrightarrow>
        map_of (by_id (fold_str (reader E) (run_ops E ops []))) i = Some (Some s))
    \<and> map_of (by_session (fold_str (reader E) (run_ops E ops []))) \<subseteq>\<^sub>m map_of (by_session (fold_str (reader E) (run_ops E (ops @ later) [])))
    \<and> (\<forall>sess name now gen i f. mint_or_get_with E True AppendOk sess name now gen (run_ops E ops []) = (Inr i, f) \<longrightarrow>
        map_of (by_session (fold_str (reader E) f)) sess = Some i)"
proof -
  obtain rows where r: "run_ops E ops [] = rows_file (printer E) rows" "one_to_one (map_at rows)"
    using ops_grow [OF assms one_to_one_empty(1), of ops] by (auto simp: grows_def one_to_one_empty)
  have maps: "by_session (fold_str (reader E) (run_ops E ops [])) = by_session (map_at rows)"
    "by_id (fold_str (reader E) (run_ops E ops [])) = by_id (map_at rows)"
    using fold_str_map_at [OF assms] r by simp_all
  have "run_ops E (ops @ later) [] = run_ops E later (rows_file (printer E) rows)" using r by (simp add: run_ops_def)
  then obtain rows' where r': "run_ops E (ops @ later) [] = rows_file (printer E) rows'"
    "map_of (by_session (map_at rows)) \<subseteq>\<^sub>m map_of (by_session (map_at rows'))"
    using ops_grow [OF assms r(2), of later] by (auto simp: grows_def)
  have mint: "map_of (by_session (fold_str (reader E) f)) sess = Some i"
    if "mint_or_get_with E True AppendOk sess name now gen (run_ops E ops []) = (Inr i, f)" for sess name now gen i f
    using mint_op(2) [OF assms r(2) that [unfolded r(1)] refl] fold_str_map_at(1) [OF assms] by auto
  show ?thesis
  proof (intro conjI)
    show "map_of (by_session (fold_str (reader E) (run_ops E ops []))) \<subseteq>\<^sub>m map_of (by_session (fold_str (reader E) (run_ops E (ops @ later) [])))"
      using r' by (simp add: maps fold_str_map_at(1) [OF assms])
    have one: "\<forall>s i. map_of (by_session (map_at rows)) s = Some i \<longleftrightarrow> map_of (by_id (map_at rows)) i = Some (Some s)"
      using r(2) by (simp add: one_to_one_def)
    then show "\<forall>s i. map_of (by_session (fold_str (reader E) (run_ops E ops []))) s = Some i \<longleftrightarrow>
        map_of (by_id (fold_str (reader E) (run_ops E ops []))) i = Some (Some s)" unfolding maps .
    show "\<forall>s s' i. map_of (by_session (fold_str (reader E) (run_ops E ops []))) s = Some i
        \<and> map_of (by_session (fold_str (reader E) (run_ops E ops []))) s' = Some i \<longrightarrow> s = s'"
      unfolding maps using one by (metis option.inject)
  qed (use mint in blast)
qed

theorem ids_stable_and_unique_witness:
  "map_of (by_session (fold_str sample_of (run_ops sample_env [MintOp ''s1'' None 0 (\<lambda>_. ''abcdefgh''), MintOp ''s2'' None 0 (\<lambda>n. if n = 0 then ''abcdefgh'' else ''22222222'')] []))) ''s1''
     = Some ''abcdefgh''"
proof -
  let ?ops = "[MintOp ''s1'' None 0 (\<lambda>_. ''abcdefgh'')]"
  have "map_of (by_session (fold_str sample_of (run_ops sample_env ?ops []))) ''s1'' = Some ''abcdefgh''"
    by code_simp
  moreover have "map_of (by_session (fold_str (reader sample_env) (run_ops sample_env ?ops [])))
      \<subseteq>\<^sub>m map_of (by_session (fold_str (reader sample_env) (run_ops sample_env (?ops @ [MintOp ''s2'' None 0 (\<lambda>n. if n = 0 then ''abcdefgh'' else ''22222222'')]) [])))"
    using ids_stable_and_unique [OF sample_env_ok, of ?ops "[MintOp ''s2'' None 0 (\<lambda>n. if n = 0 then ''abcdefgh'' else ''22222222'')]"] by blast
  ultimately show ?thesis by (auto simp: map_le_def sample_env_def dom_def)
qed

lemma mint_appended:
  assumes "mint_or_get_with E True AppendOk sess name now gen file = (Inr i, f)" "f \<noteq> file"
  shows "f = file @ printer E (mint_row now i (Some sess) name) @ [NL]"
  using assms
  by (auto simp: mint_or_get_with_def open_locked_def append_row_def write_row_def split: if_splits sum.splits option.splits)

lemma last_not_cr: "ws_last s = 0 \<Longrightarrow> s \<noteq> [] \<Longrightarrow> last s \<noteq> CHR 0x0D"
  using strip_cr_tight [of s] by (metis append_butlast_last_id append_self_conv not_Cons_self2 strip_cr_def)

text \<open>
  C34. The store's append is not self-delimiting: when an earlier append was torn after a proper part
  of its row, the next mint appends its row to the torn one, and the two bytes sequences become one
  line. The mint reports success with an id, yet the store folds to exactly what it was before both
  appends: the id is not recorded, and the next mint for the session gets another one. The only
  assumption on the JSON library is that the glued line is not an object. (The disposition ledger
  writes a newline before each row for this reason.)
\<close>

theorem torn_append_loses_next_mint:
  assumes E: "id_env_ok E"
    and torn: "torn = rows_file (printer E) rows @ take k (printer E row)"
    and mint: "mint_or_get_with E True AppendOk sess name now gen torn = (Inr i, f)" "f \<noteq> torn"
    and glued: "reader E (trim (take k (printer E row) @ printer E (mint_row now i (Some sess) name))) = None"
  shows "fold_str (reader E) f = fold_str (reader E) (rows_file (printer E) rows)"
proof -
  let ?p = "printer E (mint_row now i (Some sess) name)"
  define g where "g = take k (printer E row) @ ?p"
  have nl: "\<forall>ms. NL \<notin> set (printer E ms)" and tight: "json_tight (printer E)" and ok: "json_ok (printer E) (reader E)"
    using E by (simp_all add: id_env_ok_def json_ok_def)
  have "\<not> list_all ascii_whitespace ?p" using ok by (simp add: json_ok_def)
  then have ne: "?p \<noteq> []" by auto
  have g_nl: "NL \<notin> set g" using nl by (auto simp: g_def dest: in_set_takeD)
  have cr: "strip_cr g = g"
    using last_not_cr [OF _ ne] tight ne by (simp add: strip_cr_def g_def json_tight_def)
  have f: "f = rows_file (printer E) rows @ g @ [NL]" using mint_appended [OF mint] by (simp add: torn g_def)
  have "split_nl (rows_file (printer E) rows @ g @ [NL]) = map (printer E) rows @ [g, []]"
  proof (cases rows rule: rev_cases)
    case Nil
    then show ?thesis using split_nl_append [of g "[]"] split_nl_line [OF g_nl] by (simp add: rows_file_def)
  next
    case (snoc rs r)
    have "split_nl (rows_file (printer E) rs @ printer E r) = map (printer E) rows"
    proof -
      have "split_nl (rows_file (printer E) rows) = split_nl (rows_file (printer E) rs @ printer E r) @ [[]]"
        using split_nl_append [of "rows_file (printer E) rs @ printer E r" "[]"] snoc by (simp add: rows_file_def)
      then show ?thesis using split_rows_file [OF nl, of rows] by simp
    qed
    then show ?thesis
      using split_nl_append [of "rows_file (printer E) rs @ printer E r" "g @ [NL]"] split_nl_append [of g "[]"] split_nl_line [OF g_nl] snoc
      by (simp add: rows_file_def)
  qed
  then have lines: "rust_lines f = rust_lines (rows_file (printer E) rows) @ [g]"
    unfolding f rust_lines_def split_rows_file [OF nl] by (simp add: cr butlast_append)
  have "fold_line (reader E) g st = st" for st
    using glued by (simp add: fold_line_def g_def Let_def)
  then show ?thesis by (simp add: fold_str_def lines)
qed

theorem torn_append_loses_next_mint_witness:
  "let torn = rows_file sample_print [] @ take 9 (sample_print (mint_row 0 ''abcdefgh'' (Some ''s1'') None))
   in \<exists>f. mint_or_get_with sample_env True AppendOk ''s2'' None 0 (\<lambda>_. ''22222222'') torn = (Inr ''22222222'', f)
        \<and> map_of (by_session (fold_str sample_of f)) ''s2'' = None"
proof -
  let ?row = "mint_row 0 ''abcdefgh'' (Some ''s1'') None"
  let ?torn = "rows_file (printer sample_env) [] @ take 9 (printer sample_env ?row)"
  let ?f = "?torn @ printer sample_env (mint_row 0 ''22222222'' (Some ''s2'') None) @ [NL]"
  have mint: "mint_or_get_with sample_env True AppendOk ''s2'' None 0 (\<lambda>_. ''22222222'') ?torn = (Inr ''22222222'', ?f)" by code_simp
  have glued: "reader sample_env (trim (take 9 (printer sample_env ?row) @ printer sample_env (mint_row 0 ''22222222'' (Some ''s2'') None))) = None"
    by code_simp
  have "fold_str (reader sample_env) ?f = fold_str (reader sample_env) (rows_file (printer sample_env) [])"
    by (rule torn_append_loses_next_mint [OF sample_env_ok refl mint _ glued]) simp
  moreover have "by_session (fold_str sample_of []) = []" by code_simp
  ultimately show ?thesis using mint by (simp add: sample_env_def rows_file_def)
qed

subsection \<open>The resolver\<close>

text \<open>
  C35. The resolver never guesses. It answers with one session only if that session matches the query
  at some tier and outranks every other match there, by being the only live one or by being the ACP
  original of plain twins of the same conversation, while every earlier tier had no match at all, or,
  for exact names, only dead ones; at the exact-id tier no differently identified session has the
  query as its name. It answers with several only if there are at least two, each matching. It
  answers with none exactly if no session matches at any tier.
\<close>

theorem resolver_never_guesses:
  assumes "r = resolve_session_with_liveness lower query ss is_alive"
  shows "(\<forall>i. r = One i \<longrightarrow> i < length ss \<and> (\<exists>k < 7. (tiers lower query ! k) (ss ! i)
          \<and> (\<forall>j < length ss. j \<noteq> i \<and> (tiers lower query ! k) (ss ! j) \<longrightarrow> outranks ss is_alive i j)
          \<and> (\<forall>k' < k. \<forall>j < length ss. (tiers lower query ! k') (ss ! j) \<longrightarrow> k' = 2 \<and> \<not> is_alive (ss ! j))
          \<and> (k = 0 \<longrightarrow> (\<forall>j < length ss. name_is lower (lower query) (ss ! j) \<longrightarrow> id_tier lower (lower query) (ss ! j)))))
    \<and> (\<forall>is. r = Many is \<longrightarrow> 2 \<le> length is \<and> distinct is \<and> (\<forall>i \<in> set is. i < length ss \<and> (\<exists>k < 7. (tiers lower query ! k) (ss ! i))))
    \<and> (r = NoMatch \<longleftrightarrow> (\<forall>j < length ss. \<forall>k < 7. \<not> (tiers lower query ! k) (ss ! j)))"
proof -
  let ?rs = "tier_results lower query ss is_alive"
  note mixed = exact_id_Many_mixed [where lower = lower and q = "lower query" and is_alive = is_alive and ss = ss, OF refl refl refl]
  have r0: "?rs ! 0 = exact_id_tier lower (lower query) is_alive ss" by (simp add: tier_results_def Let_def)
  have t0: "tiers lower query ! 0 = id_tier lower (lower query)" "tiers lower query ! 2 = name_is lower (lower query)"
    by (simp_all add: tiers_def)
  have one: "i < length ss \<and> (\<exists>k < 7. (tiers lower query ! k) (ss ! i)
        \<and> (\<forall>j < length ss. j \<noteq> i \<and> (tiers lower query ! k) (ss ! j) \<longrightarrow> outranks ss is_alive i j)
        \<and> (\<forall>k' < k. \<forall>j < length ss. (tiers lower query ! k') (ss ! j) \<longrightarrow> k' = 2 \<and> \<not> is_alive (ss ! j))
        \<and> (k = 0 \<longrightarrow> (\<forall>j < length ss. name_is lower (lower query) (ss ! j) \<longrightarrow> id_tier lower (lower query) (ss ! j))))"
    if "r = One i" for i
  proof -
    obtain k where k: "k < 7" "?rs ! k = Some (One i)" "\<forall>k' < k. ?rs ! k' = None"
      using resolve_decisive [of lower query ss is_alive "One i"] assms \<open>r = One i\<close> by auto
    have exact: "decided ss is_alive (matching ss (id_tier lower (lower query))) (Some (One i))
        \<and> set (matching ss (name_is lower (lower query))) \<subseteq> set (matching ss (id_tier lower (lower query)))" if "k = 0"
    proof -
      have e: "exact_id_tier lower (lower query) is_alive ss = Some (One i)" using k(2) r0 \<open>k = 0\<close> by simp
      show ?thesis using mixed unfolding e by (auto split: if_splits)
    qed
    have dec: "decided ss is_alive (matching ss (tiers lower query ! k)) (?rs ! k)
        \<and> (k = 0 \<longrightarrow> set (matching ss (name_is lower (lower query))) \<subseteq> set (matching ss (id_tier lower (lower query))))"
      using tier_decided [OF k(1), of ss is_alive lower query] exact k(2) t0(1) by (cases "k = 0") simp_all
    then have "chosen ss is_alive (matching ss (tiers lower query ! k)) i" using k(2) by (simp add: decided_def)
    moreover have "\<forall>k' < k. \<forall>j < length ss. (tiers lower query ! k') (ss ! j) \<longrightarrow> k' = 2 \<and> \<not> is_alive (ss ! j)"
      using k(1,3) tier_none [of _ lower query ss is_alive] by (meson less_trans)
    ultimately show ?thesis using dec k(1) by (auto simp: chosen_def matching_set intro!: exI [of _ k])
  qed
  have many: "2 \<le> length is \<and> distinct is \<and> (\<forall>i \<in> set is. i < length ss \<and> (\<exists>k < 7. (tiers lower query ! k) (ss ! i)))"
    if "r = Many is" for "is"
  proof -
    obtain k where k: "k < 7" "?rs ! k = Some (Many is)"
      using resolve_decisive [of lower query ss is_alive "Many is"] assms \<open>r = Many is\<close> by auto
    have exact: "2 \<le> length is \<and> distinct is \<and> (set is \<subseteq> set (matching ss (id_tier lower (lower query)))
        \<or> set is = set (matching ss (id_tier lower (lower query))) \<union> set (matching ss (name_is lower (lower query))))" if "k = 0"
    proof -
      have e: "exact_id_tier lower (lower query) is_alive ss = Some (Many is)" using k(2) r0 \<open>k = 0\<close> by simp
      show ?thesis using mixed unfolding e by (auto simp: decided_def split: if_splits)
    qed
    have "2 \<le> length is \<and> distinct is \<and> (set is \<subseteq> set (matching ss (tiers lower query ! k))
        \<or> set is = set (matching ss (tiers lower query ! 0)) \<union> set (matching ss (tiers lower query ! 2)))"
      using tier_decided [OF k(1), of ss is_alive lower query] exact k(2) t0 by (cases "k = 0") (simp_all add: decided_def)
    moreover have "\<exists>k < 7. (tiers lower query ! k) x" if "(tiers lower query ! 0) x \<or> (tiers lower query ! 2) x" for x
    proof -
      have "(0 :: nat) < 7" "(2 :: nat) < 7" by simp_all
      then show ?thesis using that by blast
    qed
    ultimately show ?thesis using k(1) by (auto simp: matching_set dest!: subsetD)
  qed
  have pre: "name_prefix_tier lower (lower query) s" if "name_is lower (lower query) s" for s
    using that by (auto simp: name_is_def name_prefix_tier_def is_some_and_iff starts_with_def)
  have "r = NoMatch \<longleftrightarrow> (\<forall>k < 7. ?rs ! k = None)"
    using assms tier_not_NoMatch first_some [of ?rs NoMatch] all_none [of ?rs]
    by (auto simp: resolve_eq results_length split: option.splits)
  moreover have "(\<forall>k < 7. ?rs ! k = None) \<longrightarrow> (\<forall>j < length ss. \<forall>k < 7. \<not> (tiers lower query ! k) (ss ! j))"
  proof (intro impI allI notI)
    fix j k assume A: "\<forall>k < 7. ?rs ! k = None" "j < length ss" "k < 7" "(tiers lower query ! k) (ss ! j)"
    then have "k = 2" using tier_none by blast
    then have "(tiers lower query ! 3) (ss ! j)" using A(4) pre by (simp add: tiers_def)
    then show False using tier_none [of 3 lower query ss is_alive j] A by simp
  qed
  moreover have "r = NoMatch" if "\<forall>j < length ss. \<forall>k < 7. \<not> (tiers lower query ! k) (ss ! j)"
  proof (cases r)
    case (One i)
    then show ?thesis using one [of i] that by blast
  next
    case (Many ms)
    then obtain i where "i \<in> set ms" using many [of ms] by (cases ms) auto
    then show ?thesis using many [OF Many] that by blast
  qed
  ultimately show ?thesis using one many by blast
qed

theorem resolver_never_guesses_witness:
  "let row = \<lparr>s_name = Some ''base'', user_named = None, session_id = ''u1'', qd_id = None, pid = None, status = Idle, zmx_name = None,
              socket_dir = None, relay_port = None, cwd = None, provider = ''claude-code'', entrypoint = None, lineage = None,
              hosting = None, which_branch = LiveRegistry\<rparr>
   in resolve_session_with_liveness (\<lambda>s. s) ''base'' [row\<lparr>status := Cold\<rparr>, row] (\<lambda>s. is_live_status (status s)) = One 1
      \<and> outranks [row\<lparr>status := Cold\<rparr>, row] (\<lambda>s. is_live_status (status s)) 1 0"
proof -
  define row where "row = \<lparr>s_name = Some ''base'', user_named = None, session_id = ''u1'', qd_id = None, pid = None, status = Idle, zmx_name = None,
      socket_dir = None, relay_port = None, cwd = None, provider = ''claude-code'', entrypoint = None, lineage = None,
      hosting = None, which_branch = LiveRegistry\<rparr>"
  let ?ss = "[row\<lparr>status := Cold\<rparr>, row]" and ?alive = "\<lambda>s. is_live_status (status s)"
  have r: "resolve_session_with_liveness (\<lambda>s. s) ''base'' ?ss ?alive = One 1" unfolding row_def by code_simp
  have same: "(tiers (\<lambda>s. s) ''base'' ! k) (?ss ! 1) \<Longrightarrow> k < 7 \<Longrightarrow> (tiers (\<lambda>s. s) ''base'' ! k) (?ss ! 0)" for k
    using tier_cases [of k]
    by (auto simp: tiers_def row_def id_tier_def pid_tier_def name_is_def name_prefix_tier_def id_prefix_tier_def uuid_prefix_tier_def
        zmx_tier_def split: option.splits)
  have "\<exists>k < 7. (tiers (\<lambda>s. s) ''base'' ! k) (?ss ! 1) \<and> (\<forall>j < length ?ss. j \<noteq> 1 \<and> (tiers (\<lambda>s. s) ''base'' ! k) (?ss ! j) \<longrightarrow> outranks ?ss ?alive 1 j)"
    using resolver_never_guesses [OF r [symmetric]] by blast
  then have "outranks ?ss ?alive 1 0" using same by (metis length_Cons zero_less_Suc zero_neq_one)
  then show ?thesis using r unfolding row_def by (simp add: Let_def)
qed

end
