(* ===== verification/Origin_Send.thy ===== *)
theory Origin_Send
  imports Ledger Rust_Str "HOL-Library.Word"
begin

text \<open>
  The pure half of sending (\<open>crates/dispatch/src/origin_send.rs\<close>): the correlation identifier, the
  \<open>--expires\<close> window, the envelope and the refusal family. The random source and the digest are
  arguments. The error texts of \<open>parse_expires\<close> are the constructors of \<open>ExpiresError\<close>.
\<close>

unbundle bit_operations_syntax

subsection \<open>Correlation identifiers\<close>

definition CROCKFORD :: string where
  "CROCKFORD = ''0123456789ABCDEFGHJKMNPQRSTVWXYZ''"

definition assemble_128 :: "8 word list \<Rightarrow> 128 word" where
  "assemble_128 bytes = foldl (\<lambda>n b. push_bit 8 n OR ucast b) 0 bytes"

definition encode_crockford_128 :: "8 word list \<Rightarrow> string" where
  "encode_crockford_128 bytes =
     (let n = assemble_128 bytes
      in map (\<lambda>i. CROCKFORD ! unat (drop_bit (5 * (25 - i)) n AND 0x1F)) [0..<26])"

definition mint_ulid_with :: "int \<Rightarrow> 8 word list \<Rightarrow> string" where
  "mint_ulid_with now_ms r =
     (let ts = (word_of_int (max now_ms 0) :: 64 word) AND 0x0000FFFFFFFFFFFF
      in encode_crockford_128
           ([ucast (drop_bit 40 ts), ucast (drop_bit 32 ts), ucast (drop_bit 24 ts),
             ucast (drop_bit 16 ts), ucast (drop_bit 8 ts), ucast ts] @ r))"

subsection \<open>The expiry window\<close>

definition DEFAULT_EXPIRES_MS :: int where
  "DEFAULT_EXPIRES_MS = 12 * 60 * 60 * 1000"

definition in_i64 :: "int \<Rightarrow> bool" where
  "in_i64 n \<longleftrightarrow> - (2 ^ 63) \<le> n \<and> n < 2 ^ 63"

datatype ExpiresError = EmptyDuration | InvalidDuration | UnitWithoutNumber | NotAnInteger | NegativeDuration | DurationTooLarge

definition duration_unit :: "string \<Rightarrow> (string \<times> int) option" where
  "duration_unit s =
     (let c = last s; num = butlast s
      in if c = CHR ''s'' \<or> c = CHR ''S'' then Some (num, 1000)
         else if c = CHR ''m'' \<or> c = CHR ''M'' then Some (num, 60000)
         else if c = CHR ''h'' \<or> c = CHR ''H'' then Some (num, 3600000)
         else if c = CHR ''d'' \<or> c = CHR ''D'' then Some (num, 86400000)
         else if is_digit c then Some (s, 1000) else None)"

definition parse_expires :: "string \<Rightarrow> ExpiresError + int" where
  "parse_expires raw =
     (let s = trim raw
      in if s = [] then Inl EmptyDuration
         else case duration_unit s of
           None \<Rightarrow> Inl InvalidDuration
         | Some (num, unit_ms) \<Rightarrow>
             if num = [] then Inl UnitWithoutNumber
             else (case parse_i64 num of
                    None \<Rightarrow> Inl NotAnInteger
                  | Some magnitude \<Rightarrow>
                      if magnitude < 0 then Inl NegativeDuration
                      else if in_i64 (magnitude * unit_ms) then Inr (magnitude * unit_ms)
                      else Inl DurationTooLarge))"

subsection \<open>Envelopes and refusals\<close>

definition saturating_add_i64 :: "int \<Rightarrow> int \<Rightarrow> int" where
  "saturating_add_i64 a b = max (- (2 ^ 63)) (min (2 ^ 63 - 1) (a + b))"

definition build_envelope :: "string \<Rightarrow> int \<Rightarrow> int \<Rightarrow> string \<Rightarrow> string \<Rightarrow> string option \<Rightarrow> string \<Rightarrow> Envelope" where
  "build_envelope cid authored_at expires_ms target origin sender body =
     \<lparr>env_v = 1, env_correlation_id = cid, env_authored_at = authored_at,
      env_expires_at = saturating_add_i64 authored_at expires_ms, env_target = target, env_origin = origin,
      env_sender = sender, env_body = body\<rparr>"

definition caller_session_id :: "(string \<Rightarrow> string option) \<Rightarrow> string option" where
  "caller_session_id env = (case env ''QD_SESSION_ID'' of None \<Rightarrow> None | Some i \<Rightarrow> if i = [] then None else Some i)"

definition EXIT_REFUSED :: int where "EXIT_REFUSED = 12"

datatype Family = FamRefused | FamFailed | FamExpired

fun family_token :: "Family \<Rightarrow> string" where
  "family_token FamRefused = ''refused''"
| "family_token FamFailed = ''failed''"
| "family_token FamExpired = ''expired''"

record Refusal =
  family :: Family
  r_class :: string
  reason :: string

definition refused :: "string \<Rightarrow> string \<Rightarrow> Refusal" where
  "refused c r = \<lparr>family = FamRefused, r_class = c, reason = r\<rparr>"

definition failed :: "string \<Rightarrow> string \<Rightarrow> Refusal" where
  "failed c r = \<lparr>family = FamFailed, r_class = c, reason = r\<rparr>"

definition expired :: "string \<Rightarrow> string \<Rightarrow> Refusal" where
  "expired c r = \<lparr>family = FamExpired, r_class = c, reason = r\<rparr>"

definition stderr_line :: "Refusal \<Rightarrow> string" where
  "stderr_line r = ''qd send: '' @ family_token (family r) @ ''{'' @ r_class r @ ''}: '' @ reason r"

text \<open>Printing aside, emitting a refusal is its exit code.\<close>

definition emit_refusal :: "Refusal \<Rightarrow> int" where
  "emit_refusal r = EXIT_REFUSED"

end
