(* ===== verification/Door.thy ===== *)
theory Door
  imports Origin_Send Resolve Time_Format
begin

text \<open>
  The one door of \<open>qd send\<close> (\<open>crates/dispatch/src/bin/qd/verbs/send_unified.rs\<close> and \<open>carrier.rs\<close>): an
  originated message and a peer's envelope are addressed, fenced, claimed, checked against the ledger,
  attempted and stamped. Everything one invocation reads from outside (environment, registry rows,
  clock, locks, what the lane answers, whether a file can be read, how far an append got) is the
  record \<open>DoorIn\<close>; the lanes are trait objects. The state is the ledger's files together with the
  messages the lanes have accepted, which no part of the code reads: it is there to state what
  happened. Lines printed to the terminal are not modelled beyond the refusals that carry them, and
  the JSON library's own error text is left out of those.
\<close>

subsection \<open>The lane contract\<close>

datatype Confirmation = Yes | No | Unknown

datatype ReceivePath = Available | NoPath string | Undetermined string

datatype TerminalExpectation = TPending | Unavailable string

record Receipt =
  rc_message_id :: string
  accepted :: bool
  terminal :: TerminalExpectation
  woke :: Confirmation

datatype BootPhase = PidFile | BootIdle | BootRelay

datatype LaneError =
    NotSupported string string
  | NotImplemented string string
  | NotFound string
  | ColdLane string
  | Transport string
  | WakeFailed string int bool
  | LaneRefused string
  | StartFailed string int "BootPhase option"

datatype RenderMode = Inline | AltScreen

definition resolve_render_mode :: "RenderMode option \<Rightarrow> string option \<Rightarrow> RenderMode" where
  "resolve_render_mode flag config_value =
     (case flag of Some f \<Rightarrow> f
      | None \<Rightarrow> if config_value = Some ''alt-screen'' then AltScreen else Inline)"

record DeliverPolicy =
  wake_if_cold :: bool
  budget_ms :: nat
  render :: RenderMode

definition default_policy :: DeliverPolicy where
  "default_policy = \<lparr>wake_if_cold = True, budget_ms = 120000, render = Inline\<rparr>"

record Message =
  msg_id :: string
  msg_text :: string
  msg_from :: "string option"

record LaneOps =
  ops_receive_path :: "string \<Rightarrow> LaneError + ReceivePath"
  ops_deliver :: "string \<Rightarrow> Message \<Rightarrow> DeliverPolicy \<Rightarrow> LaneError + Receipt"

datatype Attempt = LaneAttempt LaneOps string DeliverPolicy string string | Unwakeable string

fun run_attempt :: "Attempt \<Rightarrow> LaneError + Receipt" where
  "run_attempt (LaneAttempt ops sid policy message send_id) =
     ops_deliver ops sid \<lparr>msg_id = send_id, msg_text = message, msg_from = None\<rparr> policy"
| "run_attempt (Unwakeable p) = Inl (WakeFailed (''provider \"'' @ p @ ''\" cannot be woken headlessly'') 12 False)"

datatype Carrier = Pty | CRelay

subsection \<open>What an invocation reads, and the state it changes\<close>

record Libs =
  lib_print :: "members \<Rightarrow> string"
  lib_json :: "string \<Rightarrow> members option"
  lib_digest :: "string \<Rightarrow> string"
  lib_lower :: "string \<Rightarrow> string"

datatype MirrorRead = MirrorOk "members list" | MirrorAbsent | MirrorTorn string

text \<open>
  The clock and the append outcomes are indexed by the place that reads them, in program order:
  the first reading or the envelope append, the minting of an identifier, then the stamps \<open>refused\<close>, \<open>attempted\<close>, \<open>queued\<close>, outcome.
\<close>

datatype stamp_site = AtEntry | AtMint | AtRefused | AtAttempted | AtQueued | AtOutcome

record DoorIn =
  d_env :: "string \<Rightarrow> string option"
  d_home_error :: "int option"
  d_sessions :: "Session list option"
  d_pid_alive :: "int \<Rightarrow> bool"
  d_ids :: "string option"
  d_mirror :: "string \<Rightarrow> MirrorRead"
  d_claim_ok :: bool
  d_log_readable :: bool
  d_disp_readable :: bool
  d_clock :: "stamp_site \<Rightarrow> int"
  d_io :: "stamp_site \<Rightarrow> append_io"
  d_rand :: "8 word list"
  d_open :: "Lane \<Rightarrow> LaneOps"
  d_send_id :: string
  d_collision :: "int option"
  d_refresh :: "(Session \<times> bool) option"
  d_render_default :: "string option"
  d_read :: "string \<Rightarrow> string option"
  d_carrier :: "Carrier \<Rightarrow> string \<Rightarrow> int \<times> bool"

text \<open>
  What was accepted outside: \<open>handed\<close> by the lanes, with the correlation identifier, and \<open>wired\<close> by a
  wire pinned with \<open>--carrier\<close> or \<open>--wait\<close>, which is given the message and no identifier.
\<close>

record World =
  store :: Store
  handed :: "(string \<times> string) list"
  wired :: "(Carrier \<times> string) list"

text \<open>\<open>read_bytes_or_empty\<close>: a file that cannot be read is the empty file.\<close>

definition as_read :: "DoorIn \<Rightarrow> World \<Rightarrow> Store" where
  "as_read d w = (store w)\<lparr>log_file := (if d_log_readable d then log_file (store w) else []),
     disp_file := (if d_disp_readable d then disp_file (store w) else [])\<rparr>"

subsection \<open>Addressing\<close>

definition is_live :: "Session \<Rightarrow> bool" where
  "is_live s \<longleftrightarrow> status s = Idle \<or> status s = Busy \<or> status s = Shell"

definition parse_address :: "string \<Rightarrow> string \<times> string option" where
  "parse_address raw = (case rsplit_once (CHR ''@'') raw of Some (name, host) \<Rightarrow> (name, Some host) | None \<Rightarrow> (raw, None))"

definition DASH :: string where "DASH = [CHR '' '', CHR 0xE2, CHR 0x80, CHR 0x94, CHR '' '']"

definition quoted :: "string \<Rightarrow> string" where "quoted s = CHR 0x22 # s @ [CHR 0x22]"

definition int_text :: "int \<Rightarrow> string" where
  "int_text n = (if n < 0 then CHR ''-'' # nat_digits (nat (- n)) else nat_digits (nat n))"

definition row_alive :: "DoorIn \<Rightarrow> Session \<Rightarrow> bool" where
  "row_alive d s \<longleftrightarrow> is_live_status (status s)
     \<and> (case pid s of Some p \<Rightarrow> if p \<noteq> 0 then d_pid_alive d (as_i32 p) else True | None \<Rightarrow> True)"

text \<open>The resolver's answer as a row or a refusal.\<close>

definition refusal_of_resolution :: "string \<Rightarrow> Session list \<Rightarrow> Resolution \<Rightarrow> Refusal + Session" where
  "refusal_of_resolution name ss r =
     (case r of
        One i \<Rightarrow> Inr (ss ! i)
      | NoMatch \<Rightarrow> Inl (refused ''unknown'' (''no session matching '' @ quoted name))
      | Many v \<Rightarrow> Inl (refused ''ambiguous''
          (quoted name @ '' matches '' @ nat_digits (length v) @ '' sessions'' @ DASH @ ''refusing to guess'')))"

definition resolve_target :: "Libs \<Rightarrow> DoorIn \<Rightarrow> string \<Rightarrow> string option \<Rightarrow> Refusal + Session" where
  "resolve_target L d name host =
     (if host = Some [] then
        Inl (refused ''host'' (''address '' @ quoted (name @ ''@'') @ '' has an empty host'' @ DASH @ ''drop the trailing @ for a local send''))
      else if is_some_and host (\<lambda>h. h \<noteq> local_host (d_env d)) then
        Inl (refused ''no-fleet-state'' (''host-qualified address for host '' @ quoted (the host)
               @ '' but no fleet state for it on this host''))
      else if name = [] then Inl (refused ''address'' (''address has an empty name'' @ DASH @ ''nothing to resolve''))
      else case d_sessions d of
             None \<Rightarrow> Inl (refused ''unknown'' (''could not resolve target '' @ quoted name @ '' (session store unavailable)''))
           | Some ss \<Rightarrow> refusal_of_resolution name ss (resolve_session_with_liveness (lib_lower L) name ss (row_alive d)))"

datatype MirrorResolve = MOne | MNone | MMany

definition row_field :: "members \<Rightarrow> string \<Rightarrow> string option" where
  "row_field row key = value_get key row \<bind> as_str"

definition resolve_name_in_mirror :: "members list \<Rightarrow> string \<Rightarrow> MirrorResolve" where
  "resolve_name_in_mirror rows name =
     (let exact = length (filter (\<lambda>r. row_field r ''name'' = Some name \<or> row_field r ''sessionId'' = Some name
                                     \<or> row_field r ''qdId'' = Some name) rows)
      in if exact = 1 then MOne
         else if exact > 1 then MMany
         else let pre = length (filter (\<lambda>r. is_some_and (row_field r ''name'') (\<lambda>n. starts_with n name)
                                     \<or> is_some_and (row_field r ''qdId'') (\<lambda>q. starts_with q name)) rows)
              in if pre = 0 then MNone else if pre = 1 then MOne else MMany)"

definition resolve_remote_target :: "DoorIn \<Rightarrow> string \<Rightarrow> string \<Rightarrow> Refusal option" where
  "resolve_remote_target d name host =
     (if name = [] then Some (refused ''address'' (''address has an empty name'' @ DASH @ ''nothing to resolve''))
      else if d_home_error d \<noteq> None then
        Some (refused ''no-fleet-state'' (''host-qualified address for host '' @ quoted host @ '' but the session store is unavailable''))
      else case d_mirror d host of
             MirrorAbsent \<Rightarrow> Some (refused ''no-fleet-state'' (''host-qualified address for host '' @ quoted host
               @ '' but no fleet state for it on this host''))
           | MirrorTorn why \<Rightarrow> Some (refused ''torn-mirror'' (''mirror for host '' @ quoted host @ '' is unreadable: '' @ why))
           | MirrorOk rows \<Rightarrow>
               (case resolve_name_in_mirror rows name of
                  MOne \<Rightarrow> None
                | MNone \<Rightarrow> Some (refused ''unknown'' (''no session matching '' @ quoted name @ '' on host '' @ quoted host))
                | MMany \<Rightarrow> Some (refused ''ambiguous'' (quoted name @ '' matches more than one session on host '' @ quoted host
                    @ DASH @ ''refusing to guess''))))"

definition resolve_self_session_id :: "Libs \<Rightarrow> DoorIn \<Rightarrow> int + string option" where
  "resolve_self_session_id L d =
     (case caller_session_id (d_env d) of
        None \<Rightarrow> Inr None
      | Some raw \<Rightarrow> (case d_home_error d of Some code \<Rightarrow> Inl code
          | None \<Rightarrow> Inr (resolve_to_uuid (lib_lower L) (fold_file (lib_json L) (d_ids d)) raw)))"

datatype SendRefusal = Bare | NoLiveReceivePath | UnknownProvider string

definition report_refusal :: "SendRefusal \<Rightarrow> bool \<Rightarrow> int" where
  "report_refusal r undetermined =
     (if r = NoLiveReceivePath \<and> undetermined then EXIT_REFUSED else 1)"

subsection \<open>Stamps and the outcome\<close>

definition stamp_event :: "Libs \<Rightarrow> append_io \<Rightarrow> DispositionEvent \<Rightarrow> World \<Rightarrow> World" where
  "stamp_event L io ev w = w\<lparr>store := snd (append_event (lib_print L) io ev (store w))\<rparr>"

definition a_wake_happened :: "LaneError + Receipt \<Rightarrow> bool" where
  "a_wake_happened out = (case out of Inr r \<Rightarrow> woke r \<noteq> No | Inl (WakeFailed _ _ _) \<Rightarrow> True | Inl _ \<Rightarrow> False)"

definition record_handed :: "string \<Rightarrow> string \<Rightarrow> LaneError + Receipt \<Rightarrow> World \<Rightarrow> World" where
  "record_handed cid message out w =
     (case out of Inr r \<Rightarrow> if accepted r then w\<lparr>handed := handed w @ [(cid, message)]\<rparr> else w | Inl _ \<Rightarrow> w)"

definition deliver_then_stamp :: "Libs \<Rightarrow> DoorIn \<Rightarrow> Attempt \<Rightarrow> string \<Rightarrow> string \<Rightarrow> World \<Rightarrow> int \<times> World" where
  "deliver_then_stamp L d att message cid w =
     (let out = run_attempt att;
          w = record_handed cid message out w;
          w = (if a_wake_happened out
               then stamp_event L (d_io d AtQueued) (Queued cid (d_clock d AtQueued)) w else w);
          t = d_clock d AtOutcome;
          stamp = stamp_event L (d_io d AtOutcome)
      in case out of
           Inr r \<Rightarrow> if accepted r then (0, stamp (Delivered cid t (lib_digest L message)) w)
                    else (1, stamp (DeliveryFailed cid t ''delivery'') w)
         | Inl (WakeFailed detail _ _) \<Rightarrow> (emit_refusal (failed ''wake'' detail), stamp (DeliveryFailed cid t ''wake'') w)
         | Inl _ \<Rightarrow> (1, stamp (DeliveryFailed cid t ''delivery'') w))"

subsection \<open>Originating\<close>

definition mint_or_supplied :: "DoorIn \<Rightarrow> string option \<Rightarrow> string" where
  "mint_or_supplied d supplied = (case supplied of Some i \<Rightarrow> i | None \<Rightarrow> mint_ulid_with (d_clock d AtMint) (d_rand d))"

definition body_mismatch_logged :: "string \<Rightarrow> Refusal" where
  "body_mismatch_logged cid = refused ''body-mismatch''
     (cid @ '' is already in the log with a different body'' @ DASH @ ''refusing to re-submit a conflicting body under the same id'')"

definition door_envelope :: "DoorIn \<Rightarrow> string \<Rightarrow> int \<Rightarrow> string \<Rightarrow> string \<Rightarrow> Envelope" where
  "door_envelope d cid expires_ms raw_target message =
     build_envelope cid (d_clock d AtEntry) expires_ms raw_target (local_host (d_env d)) (caller_session_id (d_env d)) message"

text \<open>\<open>recorded_delivered_digest\<close> returns \<open>Ok\<close> whatever the read did, so its error arms are dead.\<close>

definition origin_remote_send ::
  "Libs \<Rightarrow> DoorIn \<Rightarrow> string \<Rightarrow> string \<Rightarrow> int \<Rightarrow> string option \<Rightarrow> World \<Rightarrow> int \<times> World" where
  "origin_remote_send L d raw_target message expires_ms supplied w =
     (let cid = mint_or_supplied d supplied
      in if \<not> d_claim_ok d then (1, w)
         else case logged_envelope (lib_json L) (as_read d w) cid of
           Some prior \<Rightarrow>
             if lib_digest L (env_body prior) \<noteq> lib_digest L message then (emit_refusal (body_mismatch_logged cid), w)
             else (case recorded_delivered_digest (lib_json L) (as_read d w) cid of Some _ \<Rightarrow> (0, w) | None \<Rightarrow> (0, w))
         | None \<Rightarrow>
             (let (ok, st) = append_envelope (lib_print L) (d_io d AtEntry) (door_envelope d cid expires_ms raw_target message) (store w)
              in (if ok then 0 else 1, w\<lparr>store := st\<rparr>)))"

definition attempt_and_stamp :: "Libs \<Rightarrow> DoorIn \<Rightarrow> Attempt \<Rightarrow> string \<Rightarrow> string \<Rightarrow> World \<Rightarrow> int \<times> World" where
  "attempt_and_stamp L d att message cid w =
     deliver_then_stamp L d att message cid
       (stamp_event L (d_io d AtAttempted) (Attempted cid (d_clock d AtAttempted)) w)"

definition deliver_with_durability ::
  "Libs \<Rightarrow> DoorIn \<Rightarrow> Attempt \<Rightarrow> string \<Rightarrow> string \<Rightarrow> int \<Rightarrow> string option \<Rightarrow> World \<Rightarrow> int \<times> World" where
  "deliver_with_durability L d att raw_target message expires_ms supplied w =
     (let cid = mint_or_supplied d supplied
      in if \<not> d_claim_ok d then (1, w)
         else case logged_envelope (lib_json L) (as_read d w) cid of
           Some prior \<Rightarrow>
             if lib_digest L (env_body prior) \<noteq> lib_digest L message then (emit_refusal (body_mismatch_logged cid), w)
             else (case recorded_delivered_digest (lib_json L) (as_read d w) cid of
                     Some _ \<Rightarrow> (0, w)
                   | None \<Rightarrow> attempt_and_stamp L d att message cid w)
         | None \<Rightarrow>
             (let (ok, st) = append_envelope (lib_print L) (d_io d AtEntry) (door_envelope d cid expires_ms raw_target message) (store w);
                  w = w\<lparr>store := st\<rparr>
              in if ok then attempt_and_stamp L d att message cid w else (1, w)))"

subsection \<open>Admitting a peer's envelope\<close>

definition stamp_refused :: "Libs \<Rightarrow> DoorIn \<Rightarrow> string \<Rightarrow> Refusal \<Rightarrow> string \<Rightarrow> World \<Rightarrow> int \<times> World" where
  "stamp_refused L d cid refusal cls w =
     (emit_refusal refusal, stamp_event L (d_io d AtRefused) (Refused cid (d_clock d AtRefused) cls) w)"

definition past_expiry :: "Envelope \<Rightarrow> int \<Rightarrow> Refusal" where
  "past_expiry e now = expired ''past-expiry''
     (''envelope '' @ env_correlation_id e @ '' expired at '' @ int_text (env_expires_at e) @ '' (now '' @ int_text now @ '')'')"

definition body_mismatch_delivered :: "string \<Rightarrow> Refusal" where
  "body_mismatch_delivered cid = refused ''body-mismatch''
     (cid @ '' was already delivered with a different body'' @ DASH @ ''refusing to deliver a conflicting body under the same id'')"

definition no_live_receive_path :: "string \<Rightarrow> Refusal" where
  "no_live_receive_path label = refused ''no-live-receive-path'' (quoted label @ '' has no live receive path'' @ DASH @ ''not sendable'')"

definition wake_policy :: "DoorIn \<Rightarrow> DeliverPolicy" where
  "wake_policy d = default_policy\<lparr>wake_if_cold := True, render := resolve_render_mode None (d_render_default d)\<rparr>"

definition live_policy :: DeliverPolicy where
  "live_policy = default_policy\<lparr>wake_if_cold := False, render := Inline\<rparr>"

definition lane_attempt :: "DoorIn \<Rightarrow> Session \<Rightarrow> string \<Rightarrow> DeliverPolicy \<Rightarrow> Lane \<Rightarrow> Attempt" where
  "lane_attempt d target message policy l = LaneAttempt (d_open d l) (session_id target) policy message (d_send_id d)"

definition cold_attempt :: "DoorIn \<Rightarrow> Session \<Rightarrow> string \<Rightarrow> Attempt" where
  "cold_attempt d target message =
     (case lane_for (provider target) (hosting target) of
        Some l \<Rightarrow> lane_attempt d target message (wake_policy d) l
      | None \<Rightarrow> Unwakeable (provider target))"

text \<open>Step 6 of the door: the routes of an admitted envelope.\<close>

definition admit :: "Libs \<Rightarrow> DoorIn \<Rightarrow> Envelope \<Rightarrow> Session \<Rightarrow> World \<Rightarrow> int \<times> World" where
  "admit L d e target w =
     (let cid = env_correlation_id e;
          refuse = stamp_refused L d cid
            (no_live_receive_path (case s_name target of Some n \<Rightarrow> n | None \<Rightarrow> env_target e)) ''no-live-receive-path'' w
      in if is_live target then
           (case lane_for (provider target) (hosting target) of
              None \<Rightarrow> refuse
            | Some l \<Rightarrow>
                if ops_receive_path (d_open d l) (session_id target) = Inr Available
                then attempt_and_stamp L d (lane_attempt d target (env_body e) live_policy l) (env_body e) cid w
                else refuse)
         else attempt_and_stamp L d (cold_attempt d target (env_body e)) (env_body e) cid w)"

definition run_inbound :: "Libs \<Rightarrow> DoorIn \<Rightarrow> string option \<Rightarrow> World \<Rightarrow> int \<times> World" where
  "run_inbound L d bytes w =
     (case bytes of None \<Rightarrow> (1, w)
      | Some b \<Rightarrow>
     (case lib_json L b of None \<Rightarrow> (emit_refusal (refused ''malformed'' ''inbound envelope is not a valid v1 envelope''), w)
      | Some ms \<Rightarrow>
     (case deserialize_envelope ms of Inl _ \<Rightarrow> (emit_refusal (refused ''malformed'' ''inbound envelope is not a valid v1 envelope''), w)
      | Inr e \<Rightarrow>
        if env_v e \<noteq> 1 then (emit_refusal (refused ''malformed'' (''unsupported envelope version '' @ nat_digits (env_v e) @ '' (this qd speaks v1)'')), w)
        else case d_home_error d of Some code \<Rightarrow> (code, w)
        | None \<Rightarrow>
          if env_expires_at e < d_clock d AtEntry
          then stamp_refused L d (env_correlation_id e) (past_expiry e (d_clock d AtEntry)) ''past-expiry'' w
          else (let (name, host) = parse_address (env_target e) in
            case resolve_target L d name host of
              Inl r \<Rightarrow> stamp_refused L d (env_correlation_id e) r (r_class r) w
            | Inr target \<Rightarrow>
                if \<not> d_claim_ok d then (1, w)
                else case recorded_delivered_digest (lib_json L) (as_read d w) (env_correlation_id e) of
                       Some recorded \<Rightarrow>
                         if recorded = lib_digest L (env_body e) then (0, w)
                         else stamp_refused L d (env_correlation_id e) (body_mismatch_delivered (env_correlation_id e)) ''body-mismatch'' w
                     | None \<Rightarrow> admit L d e target w))))"

subsection \<open>A pinned wire\<close>

fun carrier_token :: "Carrier \<Rightarrow> string" where
  "carrier_token Pty = ''pty''"
| "carrier_token CRelay = ''relay''"

definition carrier_parse :: "string \<Rightarrow> Carrier option" where
  "carrier_parse raw = (if raw = ''pty'' then Some Pty else if raw = ''relay'' then Some CRelay else None)"

record Args =
  a_inbound :: "string option"
  a_session :: "string option"
  a_message :: "string option"
  a_expires :: "string option"
  a_host :: "string option"
  a_correlation_id :: "string option"
  a_carrier :: "string option"
  a_wait :: bool
  a_raw :: bool
  a_full :: bool
  a_timeout :: "string option"

record Request =
  rq_carrier :: "Carrier option"
  rq_wait :: bool
  rq_raw :: bool
  rq_full :: bool
  rq_timeout :: string

definition from_send_matches :: "Args \<Rightarrow> Request option" where
  "from_send_matches a =
     (let c = a_carrier a \<bind> carrier_parse
      in if c = None \<and> \<not> a_wait a then None
         else Some \<lparr>rq_carrier = c, rq_wait = a_wait a, rq_raw = a_raw a, rq_full = a_full a,
                    rq_timeout = (case a_timeout a of None \<Rightarrow> ''120'' | Some t \<Rightarrow> t)\<rparr>)"

definition inbound_conflict :: "Args \<Rightarrow> string option" where
  "inbound_conflict a =
     (if a_carrier a \<noteq> None then Some ''--carrier'' else if a_wait a then Some ''--wait'' else if a_raw a then Some ''--raw''
      else if a_full a then Some ''--full'' else if a_timeout a \<noteq> None then Some ''--timeout'' else None)"

text \<open>
  Which wire is used, or the class of the refusal. The body of a wire is a parameter, \<open>d_carrier\<close>: it is
  given the message and answers with its exit code and whether the wire took the message. It is reached
  without an envelope, a claim or a stamp, and the identifier of the invocation is not passed to it.
\<close>

definition run_from_unified :: "Session \<Rightarrow> Lane option \<Rightarrow> bool \<Rightarrow> Request \<Rightarrow> string + Carrier" where
  "run_from_unified s lane live req =
     (case lane of None \<Rightarrow> Inl ''carrier''
      | Some l \<Rightarrow>
        if \<not> live then Inl ''carrier''
        else if rq_wait req \<and> \<not> captures_reply l then Inl ''wait-unsupported''
        else let c = (case rq_carrier req of Some c \<Rightarrow> c | None \<Rightarrow> if relay_port s \<noteq> None then CRelay else Pty)
             in if c = Pty \<and> \<not> is_pane l then Inl ''carrier''
                else if c = CRelay \<and> (rq_raw req \<or> rq_full req) then Inl ''carrier''
                else Inr c)"

definition run_carrier :: "DoorIn \<Rightarrow> string + Carrier \<Rightarrow> string \<Rightarrow> World \<Rightarrow> int \<times> World" where
  "run_carrier d choice message w =
     (case choice of Inl _ \<Rightarrow> (EXIT_REFUSED, w)
      | Inr c \<Rightarrow> (let (code, took) = d_carrier d c message
                  in (code, if took then w\<lparr>wired := wired w @ [(c, message)]\<rparr> else w)))"

subsection \<open>The verb\<close>

definition inbound_args :: "Args \<Rightarrow> Refusal option" where
  "inbound_args a =
     (if a_session a \<noteq> None \<or> a_message a \<noteq> None then
        Some (refused ''args'' ''--inbound-envelope takes the address + body from the envelope; do not also pass <target> <message>'')
      else if a_expires a \<noteq> None then
        Some (refused ''args'' ''--expires is origin-mode only; an inbound envelope carries its own expires_at'')
      else if a_host a \<noteq> None then
        Some (refused ''args'' ''--host is origin-mode only; an inbound envelope carries its own target address'')
      else if a_correlation_id a \<noteq> None then
        Some (refused ''args'' ''--correlation-id is origin-mode only; an inbound envelope carries its own correlation_id'')
      else map_option (\<lambda>flag. refused ''args'' (flag @ '' is origin-mode only; an inbound envelope is admitted and delivered through the target's own receive path, with no wire to pin and nothing to block on''))
             (inbound_conflict a))"

definition effective_host :: "string \<Rightarrow> string option \<Rightarrow> string option \<Rightarrow> Refusal + string option" where
  "effective_host query addr_host flag_host =
     (case (addr_host, flag_host) of
        (Some h, Some f) \<Rightarrow>
          if h \<noteq> f then Inl (refused ''host'' (''address '' @ quoted query @ '' says @'' @ h @ '' but --host says '' @ f @ DASH @ ''the host qualifiers disagree''))
          else Inr (Some f)
      | (None, Some f) \<Rightarrow> Inr (Some f)
      | (Some h, None) \<Rightarrow> Inr (Some h)
      | (None, None) \<Rightarrow> Inr None)"

text \<open>The refreshed row is routed: a pinned wire, a live row, or a row to wake.\<close>

definition route_current ::
  "Libs \<Rightarrow> DoorIn \<Rightarrow> Args \<Rightarrow> string \<Rightarrow> string \<Rightarrow> int \<Rightarrow> string option \<Rightarrow> Session \<Rightarrow> bool \<Rightarrow> World \<Rightarrow> int \<times> World" where
  "route_current L d a query message expires_ms supplied current undetermined w =
     (let lane = lane_for (provider current) (hosting current)
      in case from_send_matches a of
           Some req \<Rightarrow> run_carrier d (run_from_unified current lane (is_live current) req) message w
         | None \<Rightarrow>
             if is_live current then
               (case lane of
                  None \<Rightarrow> (report_refusal (UnknownProvider (provider current)) undetermined, w)
                | Some l \<Rightarrow>
                    if ops_receive_path (d_open d l) (session_id current) = Inr Available
                    then deliver_with_durability L d (lane_attempt d current message live_policy l) query message expires_ms supplied w
                    else (report_refusal NoLiveReceivePath undetermined, w))
             else deliver_with_durability L d (cold_attempt d current message) query message expires_ms supplied w)"

definition self_send :: "Session \<Rightarrow> string \<Rightarrow> Refusal" where
  "self_send target query = refused ''self-send''
     (quoted (case s_name target of Some n \<Rightarrow> n | None \<Rightarrow> query) @ DASH @ ''QD_SESSION_ID resolves to the target session'')"

text \<open>Past addressing: the fences on the resolved row, then the refresh by its full identifier.\<close>

definition origin_local ::
  "Libs \<Rightarrow> DoorIn \<Rightarrow> Args \<Rightarrow> string \<Rightarrow> string \<Rightarrow> int \<Rightarrow> string option \<Rightarrow> Session \<Rightarrow> World \<Rightarrow> int \<times> World" where
  "origin_local L d a query message expires_ms supplied target w =
     (case resolve_self_session_id L d of Inl code \<Rightarrow> (code, w)
      | Inr self \<Rightarrow>
        if self = Some (session_id target) then (emit_refusal (self_send target query), w)
        else if session_id target = [] then (report_refusal Bare False, w)
        else case d_home_error d of Some code \<Rightarrow> (code, w)
        | None \<Rightarrow>
          (case d_collision d of Some code \<Rightarrow> (code, w)
           | None \<Rightarrow>
             (case d_refresh d of None \<Rightarrow> (1, w)
              | Some (current, undetermined) \<Rightarrow>
                  if session_id current = session_id target
                  then route_current L d a query message expires_ms supplied current undetermined w
                  else (1, w))))"

definition origin_addressed ::
  "Libs \<Rightarrow> DoorIn \<Rightarrow> Args \<Rightarrow> string \<Rightarrow> string \<Rightarrow> int \<Rightarrow> string option \<Rightarrow> World \<Rightarrow> int \<times> World" where
  "origin_addressed L d a query message expires_ms supplied w =
     (let (name, addr_host) = parse_address query
      in case effective_host query addr_host (a_host a) of
           Inl r \<Rightarrow> (emit_refusal r, w)
         | Inr host \<Rightarrow>
             if is_some_and host (\<lambda>h. h \<noteq> [] \<and> h \<noteq> local_host (d_env d))
             then (case resolve_remote_target d name (the host) of
                     Some r \<Rightarrow> (emit_refusal r, w)
                   | None \<Rightarrow> (case d_home_error d of Some code \<Rightarrow> (code, w)
                       | None \<Rightarrow> origin_remote_send L d query message expires_ms supplied w))
             else (case resolve_target L d name host of
                     Inl r \<Rightarrow> (emit_refusal r, w)
                   | Inr target \<Rightarrow> origin_local L d a query message expires_ms supplied target w))"

definition expires_window :: "string option \<Rightarrow> ExpiresError + int" where
  "expires_window arg = (case arg of Some raw \<Rightarrow> parse_expires raw | None \<Rightarrow> Inr DEFAULT_EXPIRES_MS)"

definition run_send_unified :: "Libs \<Rightarrow> DoorIn \<Rightarrow> Args \<Rightarrow> World \<Rightarrow> int \<times> World" where
  "run_send_unified L d a w =
     (case a_inbound a of
        Some path \<Rightarrow> (case inbound_args a of Some r \<Rightarrow> (emit_refusal r, w) | None \<Rightarrow> run_inbound L d (d_read d path) w)
      | None \<Rightarrow>
        (case (a_session a, a_message a) of
           (Some query, Some message) \<Rightarrow>
             (case expires_window (a_expires a) of
                Inl _ \<Rightarrow> (EXIT_REFUSED, w)
              | Inr expires_ms \<Rightarrow>
                  if a_correlation_id a = Some [] then
                    (emit_refusal (refused ''correlation-id'' ''--correlation-id is empty; pass the caller's non-empty id or omit it to mint one''), w)
                  else origin_addressed L d a query message expires_ms (a_correlation_id a) w)
         | _ \<Rightarrow> (emit_refusal (refused ''args'' ''origin send requires <target> <message> (or use --inbound-envelope <path> to admit a peer's envelope)''), w)))"

end
