(* ===== verification/Door_Inv.thy ===== *)
theory Door_Inv
  imports Door Ledger_Log
begin

text \<open>
  What the steps of the door do to the readable ledger: a stamp extends the events, an envelope append
  extends the log, and an attempt hands the message over once and records it.
\<close>

abbreviation lib_ok :: "Libs \<Rightarrow> bool" where
  "lib_ok L \<equiv> json_ok (lib_print L) (lib_json L)"

definition events_of :: "Libs \<Rightarrow> World \<Rightarrow> DispositionEvent list" where
  "events_of L w = records (read_local_events (lib_json L) (store w))"

definition envelopes_of :: "Libs \<Rightarrow> World \<Rightarrow> Envelope list" where
  "envelopes_of L w = records (read_local_log (lib_json L) (store w))"

definition torn_events :: "Libs \<Rightarrow> World \<Rightarrow> DispositionEvent list" where
  "torn_events L w = torn_rows (lib_json L) deserialize_event (disp_file (store w))"

definition delivered_digest :: "Libs \<Rightarrow> World \<Rightarrow> string \<Rightarrow> string option" where
  "delivered_digest L w i = recorded_delivered_digest (lib_json L) (store w) i"

definition in_log :: "Libs \<Rightarrow> World \<Rightarrow> string \<Rightarrow> bool" where
  "in_log L w i \<longleftrightarrow> logged_envelope (lib_json L) (store w) i \<noteq> None"

lemma as_read_all: "d_log_readable d \<Longrightarrow> d_disp_readable d \<Longrightarrow> as_read d w = store w"
  by (simp add: as_read_def)

subsection \<open>One append to a record log\<close>

context record_log
begin

lemma put_extends:
  assumes "good r"
  shows "prefix (readable s) (readable (put io r s))"
    and "set (tail (put io r s)) \<subseteq> insert r (set (tail s))"
    and "set (readable (put io r s)) \<subseteq> insert r (set (readable s) \<union> set (tail s))"
proof -
  have "\<exists>x. readable (put io r s) = readable s @ x \<and> set x \<subseteq> insert r (set (tail s)) \<and> set (tail (put io r s)) \<subseteq> insert r (set (tail s))"
  proof (cases io)
    case AppendOk
    then show ?thesis using put_ok [OF assms, of s] by auto
  next
    case (AppendError k)
    then show ?thesis using put_error [OF assms, of k s] by auto
  qed
  then show "prefix (readable s) (readable (put io r s))" "set (tail (put io r s)) \<subseteq> insert r (set (tail s))"
    "set (readable (put io r s)) \<subseteq> insert r (set (readable s) \<union> set (tail s))" by auto
qed

end

subsection \<open>Reading\<close>

lemma body_digest_of_None: "body_digest_of e = None \<longleftrightarrow> kind e \<noteq> KDelivered"
  by (cases e) simp_all

lemma delivered_digest_events:
  "delivered_digest L w i = List.find (\<lambda>e. kind e = KDelivered \<and> correlation_id e = i) (events_of L w) \<bind> body_digest_of"
  by (simp add: delivered_digest_def recorded_delivered_digest_def events_of_def)

lemma find_append: "List.find P (xs @ ys) = (case List.find P xs of None \<Rightarrow> List.find P ys | Some x \<Rightarrow> Some x)"
  by (induction xs) auto

lemma delivered_digest_None: "delivered_digest L w i = None \<longleftrightarrow> \<not> has_delivered (events_of L w) i"
proof -
  have "List.find P xs \<bind> body_digest_of = None \<longleftrightarrow> \<not> list_ex P xs"
    if "\<And>e. P e \<Longrightarrow> kind e = KDelivered" for P :: "DispositionEvent \<Rightarrow> bool" and xs
    using that by (induction xs) (auto simp: body_digest_of_None)
  from this [of "\<lambda>e. kind e = KDelivered \<and> correlation_id e = i" "events_of L w"]
  show ?thesis by (simp add: delivered_digest_events has_delivered_def)
qed

lemma delivered_digest_prefix:
  assumes "prefix (events_of L w) (events_of L w')" "delivered_digest L w i = Some x"
  shows "delivered_digest L w' i = Some x"
  using assms by (auto simp: delivered_digest_events find_append Option.bind_eq_Some_conv elim!: prefixE)

lemma in_log_iff: "in_log L w i \<longleftrightarrow> (\<exists>e \<in> set (envelopes_of L w). env_correlation_id e = i)"
  by (auto simp: in_log_def logged_envelope_def envelopes_of_def find_None_iff)

subsection \<open>Stamps\<close>

lemma stamp_other [simp]:
  "handed (stamp_event L io ev w) = handed w" "log_file (store (stamp_event L io ev w)) = log_file (store w)"
  by (simp_all add: stamp_event_def append_event_def split: prod.splits)

lemma stamp_file: "disp_file (store (stamp_event L io ev w)) = file_put (lib_print L) serialize_event io ev (disp_file (store w))"
  by (simp add: stamp_event_def append_event_def file_put_def split: prod.splits)

lemma stamp_log [simp]: "envelopes_of L (stamp_event L io ev w) = envelopes_of L w" "in_log L (stamp_event L io ev w) = in_log L w"
  by (simp_all add: envelopes_of_def read_local_log_def fun_eq_iff in_log_def logged_envelope_def)

lemma event_row_ok: "lib_ok L \<Longrightarrow> event_wf ev \<Longrightarrow> row_ok (lib_print L) (lib_json L) serialize_event deserialize_event ev"
  by (simp add: row_ok_def parse_row_event)

lemma events_of_file: "events_of L w = records (parse_jsonl (lib_json L) deserialize_event (disp_file (store w)))"
  by (simp add: events_of_def read_local_events_def parse_dispositions_def)

lemma stamp_ok:
  assumes "lib_ok L" "event_wf ev"
  shows "events_of L (stamp_event L AppendOk ev w) = events_of L w @ torn_events L w @ [ev]"
    and "torn_events L (stamp_event L AppendOk ev w) = []"
  using jsonl.put_ok [OF event_row_ok [OF assms], of "disp_file (store w)"]
  by (simp_all add: events_of_file torn_events_def stamp_file)

lemma stamp_any:
  assumes "lib_ok L" "event_wf ev"
  shows "prefix (events_of L w) (events_of L (stamp_event L io ev w))"
    and "set (torn_events L (stamp_event L io ev w)) \<subseteq> insert ev (set (torn_events L w))"
    and "set (events_of L (stamp_event L io ev w)) \<subseteq> insert ev (set (events_of L w) \<union> set (torn_events L w))"
  using jsonl.put_extends [OF event_row_ok [OF assms], where s = "disp_file (store w)" and io = io]
  by (simp_all add: events_of_file torn_events_def stamp_file)

subsection \<open>Envelopes\<close>

definition log_envelope :: "Libs \<Rightarrow> append_io \<Rightarrow> Envelope \<Rightarrow> World \<Rightarrow> World" where
  "log_envelope L io e w = w\<lparr>store := snd (append_envelope (lib_print L) io e (store w))\<rparr>"

lemma append_envelope_fst: "fst (append_envelope jp io e s) \<longleftrightarrow> io = AppendOk"
  by (cases io) (simp_all add: append_envelope_def append_line_def)

lemma log_other [simp]:
  "handed (log_envelope L io e w) = handed w" "disp_file (store (log_envelope L io e w)) = disp_file (store w)"
  by (simp_all add: log_envelope_def append_envelope_def split: prod.splits)

lemma log_events [simp]:
  "events_of L (log_envelope L io e w) = events_of L w" "torn_events L (log_envelope L io e w) = torn_events L w"
  "delivered_digest L (log_envelope L io e w) = delivered_digest L w"
  by (simp_all add: events_of_file torn_events_def fun_eq_iff delivered_digest_events)

lemma envelope_row_ok:
  "lib_ok L \<Longrightarrow> envelope_wf e \<Longrightarrow> row_ok (lib_print L) (lib_json L) serialize_envelope deserialize_envelope e"
  by (simp add: row_ok_def parse_row_envelope)

lemma log_envelopes:
  assumes "lib_ok L" "envelope_wf e"
  shows "prefix (envelopes_of L w) (envelopes_of L (log_envelope L io e w))"
    and "io = AppendOk \<Longrightarrow> e \<in> set (envelopes_of L (log_envelope L io e w))"
proof -
  have "log_file (store (log_envelope L io e w)) = file_put (lib_print L) serialize_envelope io e (log_file (store w))"
    by (simp add: log_envelope_def append_envelope_def file_put_def split: prod.splits)
  then show "prefix (envelopes_of L w) (envelopes_of L (log_envelope L io e w))"
    "io = AppendOk \<Longrightarrow> e \<in> set (envelopes_of L (log_envelope L io e w))"
    using jsonl.put_ok [OF envelope_row_ok [OF assms], of "log_file (store w)"]
      jsonl.put_extends(1) [OF envelope_row_ok [OF assms], where s = "log_file (store w)" and io = io]
    by (simp_all add: envelopes_of_def read_local_log_def parse_log_def)
qed

subsection \<open>The invariant of the door\<close>

text \<open>
  Every message handed to a lane is recorded as delivered with the digest of its body, no identifier
  was handed over twice, and the delivered identifiers among \<open>ids\<close> (those originated here) are in the
  log. No delivered row hangs unterminated at the end of the file.
\<close>

definition door_inv :: "Libs \<Rightarrow> string set \<Rightarrow> World \<Rightarrow> bool" where
  "door_inv L ids w \<longleftrightarrow> list_all (\<lambda>e. kind e \<noteq> KDelivered) (torn_events L w) \<and> distinct (map fst (handed w))
     \<and> list_all (\<lambda>(i, b). delivered_digest L w i = Some (lib_digest L b) \<and> (i \<in> ids \<longrightarrow> in_log L w i)) (handed w)
     \<and> (\<forall>i \<in> ids. delivered_digest L w i \<noteq> None \<longrightarrow> in_log L w i)"

text \<open>What is asked of the outside in one invocation: the files can be read, the clock is an \<open>i64\<close>, the outcome is recorded.\<close>

definition door_ok :: "DoorIn \<Rightarrow> bool" where
  "door_ok d \<longleftrightarrow> d_log_readable d \<and> d_disp_readable d \<and> (\<forall>s. in_i64 (d_clock d s)) \<and> d_io d AtOutcome = AppendOk"

lemma door_okD: "door_ok d \<Longrightarrow> as_read d w = store w" "door_ok d \<Longrightarrow> d_io d AtOutcome = AppendOk"
  by (simp_all add: door_ok_def as_read_all)

lemma event_wf_clock [simp]:
  assumes "door_ok d"
  shows "event_wf (Attempted i (d_clock d s))" "event_wf (Queued i (d_clock d s))" "event_wf (Delivered i (d_clock d s) x)"
    "event_wf (DeliveryFailed i (d_clock d s) x)" "event_wf (Refused i (d_clock d s) x)"
  using assms by (simp_all add: door_ok_def event_wf_def in_i64_def)

lemma not_handed: "door_inv L ids w \<Longrightarrow> delivered_digest L w i = None \<Longrightarrow> i \<notin> fst ` set (handed w)"
  by (auto simp: door_inv_def list_all_iff)

lemma handed_digest: "door_inv L ids w \<Longrightarrow> (i, b) \<in> set (handed w) \<Longrightarrow> delivered_digest L w i = Some (lib_digest L b)"
  by (auto simp: door_inv_def list_all_iff)

lemma stamp_keeps_digest:
  "lib_ok L \<Longrightarrow> event_wf ev \<Longrightarrow> delivered_digest L w i = Some x \<Longrightarrow> delivered_digest L (stamp_event L io ev w) i = Some x"
  by (rule delivered_digest_prefix [OF stamp_any(1)])

lemma stamp_keeps_undelivered:
  assumes "lib_ok L" "event_wf ev" "kind ev \<noteq> KDelivered \<or> correlation_id ev \<noteq> i"
    "list_all (\<lambda>e. kind e \<noteq> KDelivered) (torn_events L w)" "delivered_digest L w i = None"
  shows "delivered_digest L (stamp_event L io ev w) i = None"
  using assms stamp_any(3) [OF assms(1,2), of io w]
  by (fastforce simp: delivered_digest_None has_delivered_def list_ex_iff list_all_iff)

lemma inv_stamp:
  assumes "lib_ok L" "event_wf ev" "kind ev \<noteq> KDelivered" "door_inv L ids w"
  shows "door_inv L ids (stamp_event L io ev w)"
proof -
  have "delivered_digest L w i = None \<Longrightarrow> delivered_digest L (stamp_event L io ev w) i = None" for i
    using stamp_keeps_undelivered [OF assms(1,2)] assms(3,4) by (simp add: door_inv_def)
  then show ?thesis
    using assms stamp_any(2) [OF assms(1,2), of io w] stamp_keeps_digest [OF assms(1,2)]
    by (fastforce simp: door_inv_def list_all_iff)
qed

lemma inv_log:
  assumes "lib_ok L" "envelope_wf e" "door_inv L ids w"
  shows "door_inv L ids (log_envelope L io e w)"
proof -
  have "in_log L (log_envelope L io e w) i" if "in_log L w i" for i
    using that set_mono_prefix [OF log_envelopes(1) [OF assms(1,2)]] by (force simp: in_log_iff)
  then show ?thesis using assms(3) by (auto simp: door_inv_def list_all_iff)
qed

lemma digest_after_delivered:
  assumes "lib_ok L" "event_wf (Delivered i t x)" "list_all (\<lambda>e. kind e \<noteq> KDelivered) (torn_events L w)" "delivered_digest L w i = None"
  shows "delivered_digest L (stamp_event L AppendOk (Delivered i t x) w) i = Some x"
proof -
  have "List.find (\<lambda>e. kind e = KDelivered \<and> correlation_id e = i) (events_of L w) = None"
    using assms(4) by (simp add: delivered_digest_None has_delivered_def find_None_iff list_ex_iff)
  moreover have "List.find (\<lambda>e. kind e = KDelivered \<and> correlation_id e = i) (torn_events L w) = None"
    using assms(3) by (auto simp: find_None_iff list_all_iff)
  ultimately show ?thesis by (simp add: delivered_digest_events stamp_ok [OF assms(1,2)] find_append)
qed

text \<open>Handing a message over and recording it, at an identifier that was not handed over yet.\<close>

lemma inv_delivered:
  assumes L: "lib_ok L" and wf: "event_wf (Delivered i t (lib_digest L m))" and inv: "door_inv L ids w"
    and fresh: "i \<notin> fst ` set (handed w)" "delivered_digest L w i = None" and log: "i \<in> ids \<Longrightarrow> in_log L w i"
  shows "door_inv L ids (stamp_event L AppendOk (Delivered i t (lib_digest L m)) (w\<lparr>handed := handed w @ [(i, m)]\<rparr>))"
proof -
  let ?w = "w\<lparr>handed := handed w @ [(i, m)]\<rparr>"
  have same: "torn_events L ?w = torn_events L w" "delivered_digest L ?w = delivered_digest L w" "in_log L ?w = in_log L w"
    by (simp_all add: torn_events_def delivered_digest_def in_log_def fun_eq_iff)
  have torn: "list_all (\<lambda>e. kind e \<noteq> KDelivered) (torn_events L ?w)" using inv by (simp add: same door_inv_def)
  have keep: "delivered_digest L (stamp_event L AppendOk (Delivered i t (lib_digest L m)) ?w) j = None"
    if "j \<noteq> i" "delivered_digest L w j = None" for j
    using stamp_keeps_undelivered [OF L wf _ torn] that by (simp add: same)
  have "in_log L w j" if "j \<in> ids" "delivered_digest L (stamp_event L AppendOk (Delivered i t (lib_digest L m)) ?w) j \<noteq> None" for j
    using keep [of j] that log inv by (cases "j = i") (auto simp: door_inv_def)
  then show ?thesis
    using inv fresh log digest_after_delivered [OF L wf torn] stamp_ok(2) [OF L wf, of ?w] stamp_keeps_digest [OF L wf, of ?w]
    by (auto simp: door_inv_def same list_all_iff)
qed

lemma not_in_log: "door_inv L ids w \<Longrightarrow> i \<in> ids \<Longrightarrow> \<not> in_log L w i \<Longrightarrow> delivered_digest L w i = None"
  by (auto simp: door_inv_def)

end
