(* ===== verification/Door_Run.thy ===== *)
theory Door_Run
  imports Door_Inv
begin

text \<open>
  The operations of the door against its invariant: one attempt, an originated message, an admitted
  envelope, the whole verb, and any sequence of invocations.
\<close>

subsection \<open>One attempt\<close>

definition after_wake :: "Libs \<Rightarrow> DoorIn \<Rightarrow> Attempt \<Rightarrow> string \<Rightarrow> World \<Rightarrow> World" where
  "after_wake L d att cid w =
     (if a_wake_happened (run_attempt att) then stamp_event L (d_io d AtQueued) (Queued cid (d_clock d AtQueued)) w else w)"

definition accepts :: "Attempt \<Rightarrow> bool" where
  "accepts att = (case run_attempt att of Inr r \<Rightarrow> accepted r | Inl _ \<Rightarrow> False)"

lemma stamp_handed: "stamp_event L io ev (w\<lparr>handed := h\<rparr>) = (stamp_event L io ev w)\<lparr>handed := h\<rparr>"
  by (simp add: stamp_event_def)

lemma deliver_accepted:
  assumes "accepts att"
  shows "deliver_then_stamp L d att m cid w =
    (0, stamp_event L (d_io d AtOutcome) (Delivered cid (d_clock d AtOutcome) (lib_digest L m))
          (let w1 = after_wake L d att cid w in w1\<lparr>handed := handed w1 @ [(cid, m)]\<rparr>))"
  using assms
  by (auto simp: deliver_then_stamp_def accepts_def after_wake_def record_handed_def stamp_handed Let_def split: sum.splits)

lemma deliver_failed:
  assumes "\<not> accepts att"
  shows "\<exists>code cls. code \<noteq> 0 \<and> deliver_then_stamp L d att m cid w =
    (code, stamp_event L (d_io d AtOutcome) (DeliveryFailed cid (d_clock d AtOutcome) cls) (after_wake L d att cid w))"
proof (cases "run_attempt att")
  case (Inl err)
  then show ?thesis
    by (cases err) (force simp: deliver_then_stamp_def after_wake_def record_handed_def Let_def emit_refusal_def EXIT_REFUSED_def)+
next
  case (Inr r)
  then show ?thesis
    using assms by (force simp: deliver_then_stamp_def accepts_def after_wake_def record_handed_def Let_def)
qed

lemma after_wake_facts:
  assumes "lib_ok L" "door_ok d"
  shows "door_inv L ids w \<Longrightarrow> door_inv L ids (after_wake L d att cid w)"
    and "handed (after_wake L d att cid w) = handed w" and "in_log L (after_wake L d att cid w) = in_log L w"
    and "door_inv L ids w \<Longrightarrow> delivered_digest L w i = None \<Longrightarrow> delivered_digest L (after_wake L d att cid w) i = None"
  using assms inv_stamp stamp_keeps_undelivered by (auto simp: after_wake_def door_inv_def)

lemma attempt_inv:
  assumes L: "lib_ok L" and d: "door_ok d" and inv: "door_inv L ids w"
    and fresh: "delivered_digest L w cid = None" and log: "cid \<in> ids \<Longrightarrow> in_log L w cid"
  shows "door_inv L ids (snd (deliver_then_stamp L d att m cid w))"
    and "fst (deliver_then_stamp L d att m cid w) = 0 \<longleftrightarrow> accepts att"
    and "accepts att \<Longrightarrow> delivered_digest L (snd (deliver_then_stamp L d att m cid w)) cid = Some (lib_digest L m)"
    and "handed (snd (deliver_then_stamp L d att m cid w)) = handed w @ (if accepts att then [(cid, m)] else [])"
proof -
  let ?w1 = "after_wake L d att cid w"
  note w1 = after_wake_facts [OF L d, where w = w and att = att and cid = cid]
  have nh: "cid \<notin> fst ` set (handed ?w1)" using not_handed [OF inv fresh] w1(2) by simp
  show "door_inv L ids (snd (deliver_then_stamp L d att m cid w))"
  proof (cases "accepts att")
    case True
    then show ?thesis
      using inv_delivered [OF L _ w1(1) [OF inv] nh w1(4) [OF inv fresh]] log w1(3) d
      by (simp add: deliver_accepted Let_def door_okD)
  next
    case False
    then obtain code cls where "deliver_then_stamp L d att m cid w =
        (code, stamp_event L (d_io d AtOutcome) (DeliveryFailed cid (d_clock d AtOutcome) cls) ?w1)" using deliver_failed by blast
    then show ?thesis using inv_stamp [OF L _ _ w1(1) [OF inv]] d by simp
  qed
  show "fst (deliver_then_stamp L d att m cid w) = 0 \<longleftrightarrow> accepts att"
    using deliver_failed [of att L d m cid w] by (cases "accepts att") (auto simp: deliver_accepted)
  show "handed (snd (deliver_then_stamp L d att m cid w)) = handed w @ (if accepts att then [(cid, m)] else [])"
    using deliver_failed [of att L d m cid w] by (cases "accepts att") (auto simp: deliver_accepted Let_def w1(2))
  assume acc: "accepts att"
  have same: "torn_events L (?w1\<lparr>handed := h\<rparr>) = torn_events L ?w1" "delivered_digest L (?w1\<lparr>handed := h\<rparr>) = delivered_digest L ?w1" for h
    by (simp_all add: torn_events_def delivered_digest_def fun_eq_iff)
  have "list_all (\<lambda>e. kind e \<noteq> KDelivered) (torn_events L ?w1)" using w1(1) [OF inv] by (simp add: door_inv_def)
  then show "delivered_digest L (snd (deliver_then_stamp L d att m cid w)) cid = Some (lib_digest L m)"
    using acc digest_after_delivered [OF L, where w = "?w1\<lparr>handed := handed ?w1 @ [(cid, m)]\<rparr>"] w1(4) [OF inv fresh] d
    by (simp add: deliver_accepted Let_def door_okD same)
qed

lemma attempted_inv:
  assumes L: "lib_ok L" and d: "door_ok d" and inv: "door_inv L ids w"
    and fresh: "delivered_digest L w cid = None" and log: "cid \<in> ids \<Longrightarrow> in_log L w cid"
  shows "door_inv L ids (snd (attempt_and_stamp L d att m cid w))"
    and "fst (attempt_and_stamp L d att m cid w) = 0 \<longleftrightarrow> accepts att"
    and "accepts att \<Longrightarrow> delivered_digest L (snd (attempt_and_stamp L d att m cid w)) cid = Some (lib_digest L m)"
    and "handed (snd (attempt_and_stamp L d att m cid w)) = handed w @ (if accepts att then [(cid, m)] else [])"
proof -
  let ?w = "stamp_event L (d_io d AtAttempted) (Attempted cid (d_clock d AtAttempted)) w"
  have inv1: "door_inv L ids ?w" using inv_stamp [OF L _ _ inv] d by simp
  have fresh1: "delivered_digest L ?w cid = None"
    using stamp_keeps_undelivered [OF L _ _ _ fresh] inv d by (simp add: door_inv_def)
  have log1: "cid \<in> ids \<Longrightarrow> in_log L ?w cid" using log by simp
  note A = attempt_inv [OF L d inv1 fresh1 log1, of att m]
  show "door_inv L ids (snd (attempt_and_stamp L d att m cid w))" "fst (attempt_and_stamp L d att m cid w) = 0 \<longleftrightarrow> accepts att"
    "handed (snd (attempt_and_stamp L d att m cid w)) = handed w @ (if accepts att then [(cid, m)] else [])"
    using A by (simp_all add: attempt_and_stamp_def)
  show "accepts att \<Longrightarrow> delivered_digest L (snd (attempt_and_stamp L d att m cid w)) cid = Some (lib_digest L m)"
    using A(3) by (simp add: attempt_and_stamp_def)
qed

lemma attempted_failed:
  assumes L: "lib_ok L" and d: "door_ok d" and inv: "door_inv L ids w" and fresh: "delivered_digest L w i = None"
    and fails: "\<not> accepts att"
  shows "delivered_digest L (snd (attempt_and_stamp L d att m cid w)) i = None"
proof -
  let ?w0 = "stamp_event L (d_io d AtAttempted) (Attempted cid (d_clock d AtAttempted)) w"
  let ?w1 = "after_wake L d att cid ?w0"
  have inv0: "door_inv L ids ?w0" using inv_stamp [OF L _ _ inv] d by simp
  have "delivered_digest L ?w0 i = None" using stamp_keeps_undelivered [OF L _ _ _ fresh] inv d by (simp add: door_inv_def)
  then have f1: "delivered_digest L ?w1 i = None" and inv1: "door_inv L ids ?w1" using after_wake_facts(1,4) [OF L d] inv0 by blast+
  obtain code cls where "attempt_and_stamp L d att m cid w =
      (code, stamp_event L (d_io d AtOutcome) (DeliveryFailed cid (d_clock d AtOutcome) cls) ?w1)"
    using deliver_failed [OF fails] unfolding attempt_and_stamp_def by blast
  then show ?thesis using stamp_keeps_undelivered [OF L _ _ _ f1] inv1 d by (simp add: door_inv_def)
qed

subsection \<open>Originating\<close>

lemma door_envelope_facts:
  "door_ok d \<Longrightarrow> envelope_wf (door_envelope d cid x t m)" "env_correlation_id (door_envelope d cid x t m) = cid"
  by (simp_all add: door_envelope_def build_envelope_def envelope_wf_def door_ok_def in_i64_def saturating_add_i64_def)

lemma durability_cases:
  fixes L d att raw m x supplied w
  defines "cid \<equiv> mint_or_supplied d supplied"
    and "res \<equiv> deliver_with_durability L d att raw m x supplied w"
  assumes d: "door_ok d"
  obtains (same) "snd res = w"
  | (retry) "in_log L w cid" "delivered_digest L w cid = None" "res = attempt_and_stamp L d att m cid w"
  | (first) "\<not> in_log L w cid" "d_io d AtEntry = AppendOk"
      "res = attempt_and_stamp L d att m cid (log_envelope L AppendOk (door_envelope d cid x raw m) w)"
  | (unlogged) "\<not> in_log L w cid" "d_io d AtEntry \<noteq> AppendOk" "fst res = 1"
      "snd res = log_envelope L (d_io d AtEntry) (door_envelope d cid x raw m) w"
proof (cases "logged_envelope (lib_json L) (store w) cid")
  case None
  then have nl: "\<not> in_log L w cid" by (simp add: in_log_def)
  consider "\<not> d_claim_ok d" | "d_claim_ok d" "d_io d AtEntry = AppendOk" | "d_claim_ok d" "d_io d AtEntry \<noteq> AppendOk" by blast
  then show thesis
  proof cases
    case 1
    then have "snd res = w" by (simp add: res_def deliver_with_durability_def Let_def)
    then show thesis by (rule same)
  next
    case 2
    then have "res = attempt_and_stamp L d att m cid (log_envelope L AppendOk (door_envelope d cid x raw m) w)"
      using None d
      by (simp add: res_def deliver_with_durability_def cid_def [symmetric] Let_def door_okD log_envelope_def case_prod_beta append_envelope_fst)
    then show thesis using nl 2 by (intro first)
  next
    case 3
    then have "res = (1, log_envelope L (d_io d AtEntry) (door_envelope d cid x raw m) w)"
      using None d
      by (simp add: res_def deliver_with_durability_def cid_def [symmetric] Let_def door_okD log_envelope_def case_prod_beta append_envelope_fst)
    then show thesis using nl 3 by (intro unlogged) simp_all
  qed
next
  case (Some prior)
  then have il: "in_log L w cid" by (simp add: in_log_def)
  show thesis
  proof (cases "d_claim_ok d \<and> lib_digest L (env_body prior) = lib_digest L m \<and> delivered_digest L w cid = None")
    case True
    then show thesis
      using Some d il retry
      by (simp add: res_def cid_def deliver_with_durability_def Let_def door_okD delivered_digest_def)
  next
    case False
    then show thesis
      using Some d same
      by (auto simp: res_def cid_def deliver_with_durability_def Let_def door_okD delivered_digest_def split: option.splits if_splits)
  qed
qed

lemma durability_inv:
  assumes L: "lib_ok L" and d: "door_ok d" and inv: "door_inv L ids w" and cid: "mint_or_supplied d supplied \<in> ids"
  shows "door_inv L ids (snd (deliver_with_durability L d att raw m x supplied w))"
  using d
proof (cases rule: durability_cases [where L = L and att = att and raw = raw and m = m and x = x and supplied = supplied and w = w])
  case same
  then show ?thesis using inv by simp
next
  case retry
  then show ?thesis using attempted_inv(1) [OF L d inv] by simp
next
  case first
  let ?c = "mint_or_supplied d supplied"
  let ?e = "door_envelope d ?c x raw m"
  have "in_log L (log_envelope L AppendOk ?e w) ?c"
    using log_envelopes(2) [OF L door_envelope_facts(1) [OF d]] door_envelope_facts(2) by (force simp: in_log_iff)
  then show ?thesis
    using attempted_inv(1) [OF L d inv_log [OF L door_envelope_facts(1) [OF d] inv]] not_in_log [OF inv cid] first by simp
next
  case unlogged
  then show ?thesis using inv_log [OF L door_envelope_facts(1) [OF d] inv] by simp
qed

lemma remote_inv:
  assumes L: "lib_ok L" and d: "door_ok d" and inv: "door_inv L ids w"
  shows "door_inv L ids (snd (origin_remote_send L d raw m x supplied w))"
proof -
  have eq: "w\<lparr>store := snd (append_envelope (lib_print L) io e (store w))\<rparr> = log_envelope L io e w" for io e
    by (simp add: log_envelope_def)
  show ?thesis
    using inv inv_log [OF L door_envelope_facts(1) [OF d] inv]
    by (simp add: origin_remote_send_def Let_def case_prod_beta eq split: option.splits)
qed

subsection \<open>Admitting\<close>

lemma stamp_refused_inv:
  "lib_ok L \<Longrightarrow> door_ok d \<Longrightarrow> door_inv L ids w \<Longrightarrow> door_inv L ids (snd (stamp_refused L d cid r cls w))"
  by (simp add: stamp_refused_def inv_stamp)

lemma stamp_refused_result [simp]:
  "fst (stamp_refused L d cid r cls w) = 12" "handed (snd (stamp_refused L d cid r cls w)) = handed w"
  by (simp_all add: stamp_refused_def emit_refusal_def EXIT_REFUSED_def)

lemma admit_cases:
  "(\<exists>r. admit L d e target w = stamp_refused L d (env_correlation_id e) r ''no-live-receive-path'' w)
   \<or> (\<exists>att. admit L d e target w = attempt_and_stamp L d att (env_body e) (env_correlation_id e) w)"
  unfolding admit_def Let_def
  by (cases "is_live target"; cases "lane_for (provider target) (hosting target)"; simp del: stamp_refused_result; blast)

text \<open>The envelope an inbound invocation admits, once the checks before the claim have passed.\<close>

definition inbound_envelope :: "Libs \<Rightarrow> string option \<Rightarrow> Envelope option" where
  "inbound_envelope L bytes = do {
     b \<leftarrow> bytes; ms \<leftarrow> lib_json L b;
     case deserialize_envelope ms of Inl _ \<Rightarrow> None | Inr e \<Rightarrow> if env_v e = 1 then Some e else None }"

lemma run_inbound_steps:
  "run_inbound L d bytes w =
     (case inbound_envelope L bytes of
        None \<Rightarrow> (if bytes = None then 1 else 12, w)
      | Some e \<Rightarrow>
        (case d_home_error d of Some code \<Rightarrow> (code, w)
         | None \<Rightarrow>
           if env_expires_at e < d_clock d AtEntry
           then stamp_refused L d (env_correlation_id e) (past_expiry e (d_clock d AtEntry)) ''past-expiry'' w
           else case resolve_target L d (fst (parse_address (env_target e))) (snd (parse_address (env_target e))) of
                  Inl r \<Rightarrow> stamp_refused L d (env_correlation_id e) r (r_class r) w
                | Inr target \<Rightarrow>
                    if \<not> d_claim_ok d then (1, w)
                    else case recorded_delivered_digest (lib_json L) (as_read d w) (env_correlation_id e) of
                           Some recorded \<Rightarrow>
                             if recorded = lib_digest L (env_body e) then (0, w)
                             else stamp_refused L d (env_correlation_id e) (body_mismatch_delivered (env_correlation_id e)) ''body-mismatch'' w
                         | None \<Rightarrow> admit L d e target w))"
  by (simp add: run_inbound_def inbound_envelope_def case_prod_beta emit_refusal_def EXIT_REFUSED_def split: option.split sum.split)

lemma inbound_cases:
  assumes "door_ok d"
  shows "(snd (run_inbound L d bytes w) = w
       \<and> (fst (run_inbound L d bytes w) \<in> {1, 12} \<or> d_home_error d = Some (fst (run_inbound L d bytes w))))
     \<or> (\<exists>cid r cls. run_inbound L d bytes w = stamp_refused L d cid r cls w)
     \<or> (\<exists>e. inbound_envelope L bytes = Some e \<and> delivered_digest L w (env_correlation_id e) = Some (lib_digest L (env_body e))
          \<and> run_inbound L d bytes w = (0, w))
     \<or> (\<exists>e target. inbound_envelope L bytes = Some e \<and> delivered_digest L w (env_correlation_id e) = None
          \<and> run_inbound L d bytes w = admit L d e target w)"
proof (cases "inbound_envelope L bytes")
  case None
  then show ?thesis by (simp add: run_inbound_steps)
next
  case (Some e)
  note steps = run_inbound_steps [of L d bytes w, unfolded Some option.case]
  show ?thesis
  proof (cases "d_home_error d")
    case home: None
    show ?thesis
    proof (cases "env_expires_at e < d_clock d AtEntry")
      case True
      then show ?thesis using steps home by auto
    next
      case False
      show ?thesis
      proof (cases "resolve_target L d (fst (parse_address (env_target e))) (snd (parse_address (env_target e)))")
        case (Inl r)
        then show ?thesis using steps home False by auto
      next
        case (Inr target)
        then show ?thesis
          using steps home False Some assms
          by (cases "d_claim_ok d"; cases "delivered_digest L w (env_correlation_id e)")
            (auto simp: door_okD delivered_digest_def)
      qed
    qed
  qed (use steps in simp)
qed

lemma inbound_inv:
  assumes L: "lib_ok L" and d: "door_ok d" and inv: "door_inv L ids w"
    and foreign: "\<And>e. inbound_envelope L bytes = Some e \<Longrightarrow> env_correlation_id e \<notin> ids"
  shows "door_inv L ids (snd (run_inbound L d bytes w))"
  using inbound_cases [OF d, of L bytes w]
proof (elim disjE exE conjE, goal_cases)
  case (3 cid r cls)
  then show ?case using stamp_refused_inv [OF L d inv] by simp
next
  case (5 e target)
  then show ?case
    using admit_cases [of L d e target w] stamp_refused_inv [OF L d inv] attempted_inv(1) [OF L d inv] foreign by fastforce
qed (use inv in simp_all)

subsection \<open>The verb\<close>

definition call_ok :: "Libs \<Rightarrow> string set \<Rightarrow> DoorIn \<times> Args \<Rightarrow> bool" where
  "call_ok L ids c = (case c of (d, a) \<Rightarrow> door_ok d \<and> from_send_matches a = None
     \<and> (case a_inbound a of
          Some path \<Rightarrow> (case inbound_envelope L (d_read d path) of None \<Rightarrow> True | Some e \<Rightarrow> env_correlation_id e \<notin> ids)
        | None \<Rightarrow> mint_or_supplied d (a_correlation_id a) \<in> ids))"

lemma origin_addressed_cases:
  "from_send_matches a = None \<Longrightarrow> snd (origin_addressed L d a query m x supplied w) = w
   \<or> (\<exists>raw. origin_addressed L d a query m x supplied w = origin_remote_send L d raw m x supplied w)
   \<or> (\<exists>att raw. origin_addressed L d a query m x supplied w = deliver_with_durability L d att raw m x supplied w)"
  by (auto simp: origin_addressed_def origin_local_def route_current_def Let_def case_prod_beta split: option.split sum.split prod.split)

lemma verb_inv:
  assumes L: "lib_ok L" and c: "call_ok L ids (d, a)" and inv: "door_inv L ids w"
  shows "door_inv L ids (snd (run_send_unified L d a w))"
proof -
  have d: "door_ok d" and plain: "from_send_matches a = None" using c by (simp_all add: call_ok_def)
  show ?thesis
  proof (cases "a_inbound a")
    case None
    then have cid: "mint_or_supplied d (a_correlation_id a) \<in> ids" using c by (simp add: call_ok_def)
    have "door_inv L ids (snd (origin_addressed L d a query m x (a_correlation_id a) w))" for query m x
      using origin_addressed_cases [OF plain, of L d query m x "a_correlation_id a" w] inv remote_inv [OF L d inv] durability_inv [OF L d inv cid]
      by fastforce
    then show ?thesis using None inv by (simp add: run_send_unified_def split: option.split sum.split)
  next
    case (Some path)
    then have "inbound_envelope L (d_read d path) = Some e \<Longrightarrow> env_correlation_id e \<notin> ids" for e
      using c by (simp add: call_ok_def)
    from inbound_inv [OF L d inv this] Some inv show ?thesis by (simp add: run_send_unified_def split: option.split)
  qed
qed

definition run_calls :: "Libs \<Rightarrow> (DoorIn \<times> Args) list \<Rightarrow> World \<Rightarrow> World" where
  "run_calls L calls w = fold (\<lambda>(d, a) w. snd (run_send_unified L d a w)) calls w"

lemma run_calls_inv: "lib_ok L \<Longrightarrow> list_all (call_ok L ids) calls \<Longrightarrow> door_inv L ids w \<Longrightarrow> door_inv L ids (run_calls L calls w)"
  by (induction calls arbitrary: w) (auto simp: run_calls_def verb_inv)

subsection \<open>Steps only add\<close>

text \<open>An operation keeps what is recorded, and hands over nothing but an unrecorded identifier.\<close>

definition adds_only :: "Libs \<Rightarrow> World \<Rightarrow> World \<Rightarrow> bool" where
  "adds_only L w w' \<longleftrightarrow> prefix (events_of L w) (events_of L w')
     \<and> (handed w' = handed w \<or> (\<exists>i m. handed w' = handed w @ [(i, m)] \<and> delivered_digest L w i = None))"

lemma adds_only_refl [simp]: "adds_only L w w"
  by (simp add: adds_only_def)

lemma adds_only_stamp: "lib_ok L \<Longrightarrow> event_wf ev \<Longrightarrow> adds_only L w (stamp_event L io ev w)"
  by (simp add: adds_only_def stamp_any(1))

lemma events_of_handed: "events_of L (w\<lparr>handed := h\<rparr>) = events_of L w"
  by (simp add: events_of_def)

lemma adds_only_attempt:
  assumes L: "lib_ok L" and d: "door_ok d" and fresh: "delivered_digest L w cid = None"
  shows "adds_only L w (snd (attempt_and_stamp L d att m cid w))"
proof -
  let ?w0 = "stamp_event L (d_io d AtAttempted) (Attempted cid (d_clock d AtAttempted)) w"
  let ?w1 = "after_wake L d att cid ?w0"
  have e0: "prefix (events_of L w) (events_of L ?w0)" using stamp_any(1) [OF L] d by simp
  have e1: "prefix (events_of L ?w0) (events_of L ?w1)" using stamp_any(1) [OF L] d by (simp add: after_wake_def)
  have h: "handed ?w1 = handed w" by (simp add: after_wake_def)
  have step: "prefix (events_of L w) (events_of L (stamp_event L io ev (?w1\<lparr>handed := g\<rparr>)))" if "event_wf ev" for io ev g
    using prefix_order.trans [OF prefix_order.trans [OF e0 e1] stamp_any(1) [OF L that, of "?w1\<lparr>handed := g\<rparr>" io, unfolded events_of_handed]] .
  have plain: "prefix (events_of L w) (events_of L (stamp_event L io ev ?w1))" if "event_wf ev" for io ev
    using prefix_order.trans [OF prefix_order.trans [OF e0 e1] stamp_any(1) [OF L that, of ?w1 io]] .
  show ?thesis
  proof (cases "accepts att")
    case True
    then show ?thesis using step d h fresh by (auto simp: adds_only_def attempt_and_stamp_def deliver_accepted Let_def)
  next
    case False
    from deliver_failed [OF this, of L d m cid ?w0] show ?thesis
      using plain d h by (auto simp: adds_only_def attempt_and_stamp_def)
  qed
qed

lemma adds_only_log: "adds_only L (log_envelope L io e w) w' \<Longrightarrow> adds_only L w w'"
  by (simp add: adds_only_def)

lemma adds_only_logged [simp]: "adds_only L w (log_envelope L io e w)"
  by (simp add: adds_only_def)

lemma durability_adds:
  assumes L: "lib_ok L" and d: "door_ok d" and inv: "door_inv L ids w" and cid: "mint_or_supplied d supplied \<in> ids"
  shows "adds_only L w (snd (deliver_with_durability L d att raw m x supplied w))"
  using d
proof (cases rule: durability_cases [where L = L and att = att and raw = raw and m = m and x = x and supplied = supplied and w = w])
  case first
  have "adds_only L (log_envelope L AppendOk (door_envelope d (mint_or_supplied d supplied) x raw m) w)
      (snd (deliver_with_durability L d att raw m x supplied w))"
    unfolding first(3) using adds_only_attempt [OF L d] not_in_log [OF inv cid first(1)] by simp
  then show ?thesis by (rule adds_only_log)
qed (use adds_only_attempt [OF L d] in simp_all)

lemma remote_adds: "adds_only L w (snd (origin_remote_send L d raw m x supplied w))"
proof -
  have "adds_only L w (w\<lparr>store := snd (append_envelope (lib_print L) io e (store w))\<rparr>)" for io e
    using adds_only_logged [of L w io e] by (simp add: log_envelope_def)
  then show ?thesis by (simp add: origin_remote_send_def Let_def case_prod_beta split: option.split)
qed

lemma inbound_adds:
  assumes L: "lib_ok L" and d: "door_ok d"
  shows "adds_only L w (snd (run_inbound L d bytes w))"
proof -
  have ref: "adds_only L w (snd (stamp_refused L d cid r cls w))" for cid r cls
    using adds_only_stamp [OF L] d by (simp add: stamp_refused_def)
  show ?thesis
    using inbound_cases [OF d, of L bytes w]
  proof (elim disjE exE conjE, goal_cases)
    case (5 e target)
    then show ?case using admit_cases [of L d e target w] ref adds_only_attempt [OF L d 5(2)] by fastforce
  qed (use ref in simp_all)
qed

lemma verb_adds:
  assumes L: "lib_ok L" and c: "call_ok L ids (d, a)" and inv: "door_inv L ids w"
  shows "adds_only L w (snd (run_send_unified L d a w))"
proof -
  have d: "door_ok d" and plain: "from_send_matches a = None" using c by (simp_all add: call_ok_def)
  show ?thesis
  proof (cases "a_inbound a")
    case None
    then have cid: "mint_or_supplied d (a_correlation_id a) \<in> ids" using c by (simp add: call_ok_def)
    have "adds_only L w (snd (origin_addressed L d a query m x (a_correlation_id a) w))" for query m x
      using origin_addressed_cases [OF plain, of L d query m x "a_correlation_id a" w] remote_adds durability_adds [OF L d inv cid] adds_only_refl
      by metis
    then show ?thesis using None by (simp add: run_send_unified_def split: option.split sum.split)
  next
    case (Some path)
    then show ?thesis using inbound_adds [OF L d] by (simp add: run_send_unified_def split: option.split)
  qed
qed

text \<open>
  With a pinned wire nothing is handed to a lane and the event file is not touched, and what goes over
  the wire has no envelope.
\<close>

lemma verb_pinned:
  fixes L d a and w :: World
  defines "w' \<equiv> snd (run_send_unified L d a w)"
  assumes "from_send_matches a \<noteq> None" "a_inbound a = None"
  shows "handed w' = handed w \<and> disp_file (store w') = disp_file (store w)
     \<and> (wired w' = wired w \<or> store w' = store w \<and> (\<exists>c m. a_message a = Some m \<and> wired w' = wired w @ [(c, m)]))"
proof -
  define P where "P m w' \<longleftrightarrow> handed w' = handed w \<and> disp_file (store w') = disp_file (store w)
     \<and> (wired w' = wired w \<or> store w' = store w \<and> (\<exists>c. wired w' = wired w @ [(c, m)]))" for m and w' :: World
  have same: "P m w" for m by (simp add: P_def)
  have "P m (snd (run_carrier d choice m w))" for choice m
    by (simp add: run_carrier_def P_def case_prod_beta split: sum.split)
  then have "P m (snd (route_current L d a query m x s current u w))" for query m x s current u
    using assms(2) by (auto simp: route_current_def Let_def)
  then have "P m (snd (origin_local L d a query m x s target w))" for query m x s target
    by (simp add: origin_local_def same split: sum.split option.split)
  moreover have "P m (snd (origin_remote_send L d query m x s w))" for query m x s
    by (auto simp: P_def origin_remote_send_def append_envelope_def Let_def case_prod_beta split: option.split)
  ultimately have "P m (snd (origin_addressed L d a query m x s w))" for query m x s
    by (simp add: origin_addressed_def same case_prod_beta split: sum.split option.split)
  then have "w' = w \<or> (\<exists>m. a_message a = Some m \<and> P m w')"
    using assms(3) by (simp add: w'_def run_send_unified_def split: option.split sum.split)
  then show ?thesis by (auto simp: P_def)
qed

text \<open>Only a pinned wire adds to \<open>wired\<close>.\<close>

lemma wired_stamps [simp]:
  "wired (stamp_event L io ev w) = wired w" "wired (snd (deliver_then_stamp L d att m cid w)) = wired w"
  "wired (snd (attempt_and_stamp L d att m cid w)) = wired w" "wired (snd (stamp_refused L d cid r cls w)) = wired w"
proof -
  show s: "wired (stamp_event L io ev w) = wired w" for io ev w by (simp add: stamp_event_def)
  show "wired (snd (stamp_refused L d cid r cls w)) = wired w" by (simp add: stamp_refused_def s)
  show d: "wired (snd (deliver_then_stamp L d att m cid w)) = wired w" for w
    using deliver_failed [of att L d m cid w] by (cases "accepts att") (auto simp: deliver_accepted after_wake_def Let_def s)
  show "wired (snd (attempt_and_stamp L d att m cid w)) = wired w" by (simp add: attempt_and_stamp_def d s)
qed

lemma wired_deliver [simp]: "wired (snd (deliver_with_durability L d att raw m x supplied w)) = wired w"
  by (auto simp: deliver_with_durability_def Let_def case_prod_beta split: option.split)

lemma wired_verb:
  assumes "from_send_matches a = None"
  shows "wired (snd (run_send_unified L d a w)) = wired w"
proof -
  have "wired (snd (origin_addressed L d a query m x supplied w)) = wired w" for query m x supplied
    using origin_addressed_cases [OF assms, of L d query m x supplied w]
    by (auto simp: origin_remote_send_def append_envelope_def Let_def case_prod_beta split: option.split)
  moreover have "wired (snd (run_inbound L d bytes w)) = wired w" for bytes
    using admit_cases [of L d _ _ w] by (auto simp: run_inbound_steps split: option.split sum.split) (metis wired_stamps(3,4))+
  ultimately show ?thesis by (simp add: run_send_unified_def split: option.split sum.split)
qed

lemma wired_calls: "list_all (call_ok L ids) calls \<Longrightarrow> wired (run_calls L calls w) = wired w"
  by (induction calls arbitrary: w) (auto simp: run_calls_def call_ok_def wired_verb)

text \<open>What is recorded as delivered and was not handed over in this history never is.\<close>

lemma recorded_never_handed:
  assumes "lib_ok L" "list_all (call_ok L ids) calls" "door_inv L ids w"
    and "delivered_digest L w i \<noteq> None" "i \<notin> fst ` set (handed w)"
  shows "i \<notin> fst ` set (handed (run_calls L calls w))"
  using assms
proof (induction calls arbitrary: w)
  case Nil
  then show ?case by (simp add: run_calls_def)
next
  case (Cons c calls)
  obtain d a where c: "c = (d, a)" by force
  let ?w = "snd (run_send_unified L d a w)"
  have ok: "call_ok L ids (d, a)" using Cons.prems(2) c by simp
  have step: "adds_only L w ?w" by (rule verb_adds [OF Cons.prems(1) ok Cons.prems(3)])
  then have "delivered_digest L ?w i \<noteq> None" using Cons.prems(4) delivered_digest_prefix by (fastforce simp: adds_only_def)
  moreover have "i \<notin> fst ` set (handed ?w)" using step Cons.prems(4,5) by (force simp: adds_only_def)
  ultimately have "i \<notin> fst ` set (handed (run_calls L calls ?w))"
    using Cons.IH [OF Cons.prems(1) _ verb_inv [OF Cons.prems(1) ok Cons.prems(3)]] Cons.prems(2) by simp
  then show ?case by (simp add: run_calls_def c)
qed

end
