(* ===== verification/Origin_Ulid.thy ===== *)
theory Origin_Ulid
  imports Origin_Send
begin

text \<open>
  Correlation identifiers as numbers: the bytes are the digits of a number to the base 256, the symbols
  its digits to the base 32, and the order of the texts is the order of the numbers.
\<close>

unbundle bit_operations_syntax

subsection \<open>From bytes to a number\<close>

definition bytes_val :: "8 word list \<Rightarrow> nat" where
  "bytes_val bs = foldl (\<lambda>n b. 256 * n + unat b) 0 bs"

lemma unat_byte: "unat (b :: 8 word) < 256"
  using unsigned_less [of b, where ?'a = nat] by simp

lemma bytes_val_snoc: "bytes_val (bs @ [b]) = 256 * bytes_val bs + unat b"
  by (simp add: bytes_val_def)

lemma foldl_bytes: "foldl (\<lambda>n b. 256 * n + unat b) k bs = k * 256 ^ length bs + bytes_val bs"
proof (induction bs rule: rev_induct)
  case Nil
  then show ?case by (simp add: bytes_val_def)
next
  case (snoc b bs)
  then show ?case unfolding bytes_val_snoc by simp
qed

lemma bytes_val_append: "bytes_val (as @ bs) = bytes_val as * 256 ^ length bs + bytes_val bs"
  using foldl_bytes [of "bytes_val as" bs] by (simp add: bytes_val_def)

lemma bytes_val_bound: "bytes_val bs < 256 ^ length bs"
proof (induction bs rule: rev_induct)
  case Nil
  then show ?case by (simp add: bytes_val_def)
next
  case (snoc b bs)
  then show ?case using unat_byte [of b] by (simp add: bytes_val_snoc)
qed

lemma byte_split: "256 * a + x = 256 * b + y \<Longrightarrow> x < 256 \<Longrightarrow> y < 256 \<Longrightarrow> a = b \<and> x = (y :: nat)"
proof -
  assume eq: "256 * a + x = 256 * b + y" and "x < 256" "y < 256"
  then have "a = b" using arg_cong [OF eq, of "\<lambda>n. n div 256"] by simp
  then show ?thesis using eq by simp
qed

lemma bytes_val_inj: "length as = length bs \<Longrightarrow> bytes_val as = bytes_val bs \<Longrightarrow> as = bs"
proof (induction as arbitrary: bs rule: rev_induct)
  case Nil
  then show ?case by simp
next
  case (snoc a as)
  then obtain b cs where bs: "bs = cs @ [b]" by (cases bs rule: rev_cases) auto
  have "256 * bytes_val as + unat a = 256 * bytes_val cs + unat b" using snoc.prems bs by (simp add: bytes_val_snoc)
  then have "bytes_val as = bytes_val cs" "unat a = unat b" using byte_split unat_byte by blast+
  then show ?case using snoc bs by (simp add: word_unat_eq_iff)
qed

lemma unat_shift_or:
  assumes "unat (n :: 128 word) < 2 ^ 120"
  shows "unat (push_bit 8 n OR ucast (b :: 8 word)) = 256 * unat n + unat b"
proof -
  have "push_bit 8 n AND (ucast b :: 128 word) = 0"
    by (rule bit_eqI) (auto simp: bit_simps dest: bit_imp_le_length)
  then have "push_bit 8 n OR (ucast b :: 128 word) = n * 256 + ucast b"
    by (simp add: disjunctive_add_eq_or [symmetric] push_bit_eq_mult)
  moreover have "unat (n * 256 + ucast b) = 256 * unat n + unat b"
    using assms unat_byte [of b] by (simp add: unat_word_ariths unsigned_ucast_eq take_bit_eq_mod)
  ultimately show ?thesis by simp
qed

lemma assemble_val:
  assumes "length bs \<le> 16"
  shows "unat (assemble_128 bs) = bytes_val bs"
  using assms
proof (induction bs rule: rev_induct)
  case Nil
  then show ?case by (simp add: assemble_128_def bytes_val_def)
next
  case (snoc b bs)
  have "bytes_val bs < 256 ^ length bs" by (rule bytes_val_bound)
  also have "(256 :: nat) ^ length bs \<le> 256 ^ 15" using snoc.prems by (intro power_increasing) simp_all
  finally have "unat (assemble_128 bs) < 2 ^ 120" using snoc by simp
  then show ?case using unat_shift_or [of "assemble_128 bs" b] snoc by (simp add: assemble_128_def bytes_val_snoc)
qed

subsection \<open>From a number to symbols\<close>

fun base32 :: "nat \<Rightarrow> nat \<Rightarrow> nat list" where
  "base32 0 n = []"
| "base32 (Suc k) n = (n div 32 ^ k mod 32) # base32 k n"

lemma unat_symbol: "unat (drop_bit k (n :: 128 word) AND 0x1F) = unat n div 2 ^ k mod 32"
proof -
  have "drop_bit k n AND 0x1F = take_bit 5 (drop_bit k n)" by (simp add: take_bit_eq_mask mask_eq_exp_minus_1)
  then have "unat (drop_bit k n AND 0x1F) = take_bit 5 (drop_bit k (take_bit 128 (unat n)))"
    by (simp only: unsigned_take_bit_eq unsigned_drop_bit_eq) simp
  also have "\<dots> = unat n div 2 ^ k mod 32" using unsigned_less [of n, where ?'a = nat] by (simp add: take_bit_eq_mod drop_bit_eq_div)
  finally show ?thesis .
qed

lemma base32_map: "base32 k n = map (\<lambda>i. n div 32 ^ (k - 1 - i) mod 32) [0..<k]"
proof (induction k)
  case (Suc k)
  have "map (\<lambda>i. n div 32 ^ (Suc k - 1 - i) mod 32) [0..<Suc k]
      = (n div 32 ^ k mod 32) # map (\<lambda>i. n div 32 ^ (Suc k - 1 - Suc i) mod 32) [0..<k]"
    by (simp add: upt_conv_Cons map_Suc_upt [symmetric] del: upt_Suc)
  then show ?case using Suc by simp
qed simp

lemma base32_mod: "base32 k (n mod 32 ^ k) = base32 k n"
proof -
  have "n mod 32 ^ k div 32 ^ j mod 32 = n div 32 ^ j mod 32" if "j < k" for j
  proof -
    have eq: "(32 :: nat) ^ k = 32 ^ j * 32 ^ (k - j)" using that by (simp add: power_add [symmetric])
    have "n mod 32 ^ k div 32 ^ j = n div 32 ^ j mod 32 ^ (k - j)"
      unfolding eq by (simp add: mod_mult2_eq)
    moreover have "(32 :: nat) dvd 32 ^ (k - j)" using that by simp
    ultimately show ?thesis by (simp add: mod_mod_cancel)
  qed
  then have "base32 j (n mod 32 ^ k) = base32 j n" if "j \<le> k" for j using that by (induction j) simp_all
  then show ?thesis by simp
qed

lemma base32_less:
  assumes "m < n" "n < 32 ^ k"
  shows "base32 k m < base32 k n"
  using assms
proof (induction k arbitrary: m n)
  case (Suc k)
  have d: "m div 32 ^ k < 32" "n div 32 ^ k < 32" using Suc.prems by (simp_all add: less_mult_imp_div_less)
  have le: "m div 32 ^ k \<le> n div 32 ^ k" using Suc.prems by (simp add: div_le_mono)
  show ?case
  proof (cases "m div 32 ^ k = n div 32 ^ k")
    case True
    then have "m mod 32 ^ k < n mod 32 ^ k"
      using Suc.prems(1) div_mult_mod_eq [of m "32 ^ k"] div_mult_mod_eq [of n "32 ^ k"] by (metis nat_add_left_cancel_less)
    from Suc.IH [OF this] show ?thesis by (simp add: base32_mod True)
  next
    case False
    then show ?thesis using d le by simp
  qed
qed simp

subsection \<open>Symbols\<close>

lemma CROCKFORD_length: "length CROCKFORD = 32"
  by (simp add: CROCKFORD_def)

lemma CROCKFORD_increasing: "i < j \<Longrightarrow> j < 32 \<Longrightarrow> CROCKFORD ! i < CROCKFORD ! j"
proof -
  have "sorted_wrt (<) CROCKFORD" by code_simp
  then show "i < j \<Longrightarrow> j < 32 \<Longrightarrow> CROCKFORD ! i < CROCKFORD ! j" by (simp add: sorted_wrt_nth_less CROCKFORD_length)
qed

lemma map_symbols_less:
  assumes "xs < ys" "length xs = length ys" "set xs \<subseteq> {..<32}" "set ys \<subseteq> {..<32}"
  shows "map ((!) CROCKFORD) xs < map ((!) CROCKFORD) ys"
  using assms
proof (induction xs arbitrary: ys)
  case (Cons x xs)
  then obtain y zs where "ys = y # zs" by (cases ys) auto
  then show ?case using Cons CROCKFORD_increasing [of x y] by auto
qed simp

lemma base32_digits: "set (base32 k n) \<subseteq> {..<32}" "length (base32 k n) = k"
  by (induction k) auto

lemma encode_symbols: "length bs = 16 \<Longrightarrow> encode_crockford_128 bs = map ((!) CROCKFORD) (base32 26 (bytes_val bs))"
  by (simp add: encode_crockford_128_def unat_symbol assemble_val base32_map power_mult Let_def)

lemma encode_less:
  assumes "length as = 16" "length bs = 16" "bytes_val as < bytes_val bs"
  shows "encode_crockford_128 as < encode_crockford_128 bs"
proof -
  have "bytes_val bs < 32 ^ 26" using bytes_val_bound [of bs] assms(2) by simp
  then show ?thesis
    using map_symbols_less [OF base32_less [OF assms(3)]] by (simp add: encode_symbols assms base32_digits)
qed

subsection \<open>The timestamp\<close>

definition ts_bytes :: "int \<Rightarrow> 8 word list" where
  "ts_bytes now_ms = (let ts = (word_of_int (max now_ms 0) :: 64 word) AND 0x0000FFFFFFFFFFFF
     in [ucast (drop_bit 40 ts), ucast (drop_bit 32 ts), ucast (drop_bit 24 ts), ucast (drop_bit 16 ts), ucast (drop_bit 8 ts), ucast ts])"

lemma unat_ucast_drop: "unat (ucast (drop_bit k (t :: 64 word)) :: 8 word) = unat t div 2 ^ k mod 256"
proof -
  have "unat (ucast (drop_bit k t) :: 8 word) = take_bit 8 (drop_bit k (take_bit 64 (unat t)))"
    by (simp only: unsigned_ucast_eq unsigned_drop_bit_eq) simp
  also have "\<dots> = unat t div 2 ^ k mod 256" using unsigned_less [of t, where ?'a = nat] by (simp add: take_bit_eq_mod drop_bit_eq_div)
  finally show ?thesis .
qed

lemma next_byte: "a = n div 256 \<Longrightarrow> a * 256 + n mod 256 = (n :: nat)"
  by simp

lemma six_bytes:
  fixes t :: nat
  assumes "t < 2 ^ 48"
  shows "((((t div 2 ^ 40 mod 256 * 256 + t div 2 ^ 32 mod 256) * 256 + t div 2 ^ 24 mod 256) * 256 + t div 2 ^ 16 mod 256) * 256
      + t div 2 ^ 8 mod 256) * 256 + t mod 256 = t"
proof -
  have q: "t div (2 ^ k * 256) = t div 2 ^ k div 256" for k by (simp add: div_mult2_eq)
  have top: "t div 2 ^ 40 mod 256 = t div 2 ^ 40" using assms by (simp add: less_mult_imp_div_less)
  have 4: "t div 2 ^ 40 * 256 + t div 2 ^ 32 mod 256 = t div 2 ^ 32" by (rule next_byte) (use q [of 32] in simp)
  have 3: "t div 2 ^ 32 * 256 + t div 2 ^ 24 mod 256 = t div 2 ^ 24" by (rule next_byte) (use q [of 24] in simp)
  have 2: "t div 2 ^ 24 * 256 + t div 2 ^ 16 mod 256 = t div 2 ^ 16" by (rule next_byte) (use q [of 16] in simp)
  have 1: "t div 2 ^ 16 * 256 + t div 2 ^ 8 mod 256 = t div 2 ^ 8" by (rule next_byte) (use q [of 8] in simp)
  have 0: "t div 2 ^ 8 * 256 + t mod 256 = t" by (rule next_byte) simp
  show ?thesis unfolding top 4 3 2 1 0 by (rule refl)
qed

lemma ts_bytes_val:
  assumes "0 \<le> t" "t < 2 ^ 48"
  shows "bytes_val (ts_bytes t) = nat t" "length (ts_bytes t) = 6"
proof -
  have "unat ((word_of_int t :: 64 word) AND 0x0000FFFFFFFFFFFF) = nat t"
  proof -
    have "(word_of_int t :: 64 word) AND 0x0000FFFFFFFFFFFF = take_bit 48 (word_of_int t)"
      by (simp add: take_bit_eq_mask mask_eq_exp_minus_1)
    moreover have "unat (word_of_int t :: 64 word) = nat t" using assms by (simp add: unat_eq_nat_uint uint_word_of_int)
    ultimately show ?thesis using assms by (simp only: unsigned_take_bit_eq) (simp add: take_bit_eq_mod nat_less_iff)
  qed
  then have val: "unat (ucast (drop_bit k ((word_of_int t :: 64 word) AND 0x0000FFFFFFFFFFFF)) :: 8 word) = nat t div 2 ^ k mod 256" for k
    by (simp only: unat_ucast_drop)
  have "max t 0 = t" "nat t < 2 ^ 48" using assms by simp_all
  then show "bytes_val (ts_bytes t) = nat t"
    using six_bytes [of "nat t"] val [of 0] TrueI
    by (simp only: ts_bytes_def bytes_val_def Let_def foldl.simps val mult.commute [of 256] drop_bit_0 power_0 div_by_1 mult_0 add_0 id_apply simp_thms)
  show "length (ts_bytes t) = 6" by (simp add: ts_bytes_def Let_def)
qed

lemma mint_encode: "mint_ulid_with t r = encode_crockford_128 (ts_bytes t @ r)"
  by (simp only: mint_ulid_with_def ts_bytes_def Let_def)

lemma mint_val: "0 \<le> t \<Longrightarrow> t < 2 ^ 48 \<Longrightarrow> length r = 10 \<Longrightarrow> bytes_val (ts_bytes t @ r) = nat t * 2 ^ 80 + bytes_val r"
  by (simp add: bytes_val_append ts_bytes_val)

lemma encode_inj:
  assumes "length as = 16" "length bs = 16" "encode_crockford_128 as = encode_crockford_128 bs"
  shows "as = bs"
  using encode_less [OF assms(1,2)] encode_less [OF assms(2,1)] assms bytes_val_inj [of as bs]
  by (cases "bytes_val as" "bytes_val bs" rule: linorder_cases) auto

end
