(* ===== verification/Door_Props.thy ===== *)
theory Door_Props
  imports Door_Run Origin_Ulid
begin

text \<open>
  Properties of sending: no identifier is handed over twice, an exit code of zero tells the truth,
  a message is durable before it is attempted, failures never block a retry, and what goes wrong when
  the ledger cannot be read.
\<close>

subsection \<open>A concrete door\<close>

definition sample_libs :: Libs where
  "sample_libs = \<lparr>lib_print = sample_print, lib_json = sample_of, lib_digest = (\<lambda>b. b), lib_lower = (\<lambda>s. s)\<rparr>"

definition sample_row :: Session where
  "sample_row = \<lparr>s_name = Some ''wk'', user_named = None, session_id = ''u1'', qd_id = None, pid = None, status = Idle,
     zmx_name = None, socket_dir = None, relay_port = None, cwd = None, provider = ''claude-code'', entrypoint = None,
     lineage = None, hosting = None, which_branch = LiveRegistry\<rparr>"

definition sample_lane :: "bool \<Rightarrow> LaneOps" where
  "sample_lane acc = \<lparr>ops_receive_path = (\<lambda>_. Inr Available),
     ops_deliver = (\<lambda>_ m _. Inr \<lparr>rc_message_id = msg_id m, accepted = acc, terminal = TPending, woke = No\<rparr>)\<rparr>"

definition sample_letter :: Envelope where
  "sample_letter = \<lparr>env_v = 1, env_correlation_id = ''k'', env_authored_at = 1, env_expires_at = 9, env_target = ''wk'',
     env_origin = ''peer'', env_sender = None, env_body = ''hi''\<rparr>"

definition sample_door :: "bool \<Rightarrow> bool \<Rightarrow> DoorIn" where
  "sample_door acc readable = \<lparr>d_env = (\<lambda>_. None), d_home_error = None, d_sessions = Some [sample_row], d_pid_alive = (\<lambda>_. True),
     d_ids = None, d_mirror = (\<lambda>_. MirrorAbsent), d_claim_ok = True, d_log_readable = True, d_disp_readable = readable,
     d_clock = (\<lambda>_. 2), d_io = (\<lambda>_. AppendOk), d_rand = replicate 10 0, d_open = (\<lambda>_. sample_lane acc), d_send_id = ''s'',
     d_collision = None, d_refresh = Some (sample_row, False), d_render_default = None,
     d_read = (\<lambda>_. Some (sample_print (serialize_envelope sample_letter))), d_carrier = (\<lambda>_ _. (1, False))\<rparr>"

definition sample_args :: "string option \<Rightarrow> string option \<Rightarrow> string option \<Rightarrow> string option \<Rightarrow> Args" where
  "sample_args inbound session message cid = \<lparr>a_inbound = inbound, a_session = session, a_message = message, a_expires = None,
     a_host = None, a_correlation_id = cid, a_carrier = None, a_wait = False, a_raw = False, a_full = False, a_timeout = None\<rparr>"

definition empty_world :: World where
  "empty_world = \<lparr>store = \<lparr>log_file = [], disp_file = [], log_archive = [], disp_archive = [], remotes = None\<rparr>, handed = [], wired = []\<rparr>"

lemma sample_lib_ok: "lib_ok sample_libs"
  by (simp add: sample_libs_def sample_json_ok)

lemma sample_digest: "lib_digest sample_libs b = b"
  by (simp add: sample_libs_def)

lemma sample_door_ok: "door_ok (sample_door acc True)"
  by (simp add: sample_door_def door_ok_def in_i64_def)

lemma sample_envelope: "inbound_envelope sample_libs (d_read (sample_door acc r) p) = Some sample_letter"
  using envelope_round_trip_aux [of sample_letter]
  by (simp add: inbound_envelope_def sample_libs_def sample_door_def sample_round_trip envelope_wf_def sample_letter_def)

lemma empty_world_facts:
  "events_of L empty_world = []" "torn_events L empty_world = []" "delivered_digest L empty_world i = None" "handed empty_world = []"
  by (simp_all add: events_of_file delivered_digest_events empty_world_def parse_jsonl_def terminated_lines_def torn_events_def
      torn_rows_def torn_tail_def)

lemma empty_world_inv: "door_inv L ids empty_world"
  by (simp add: door_inv_def empty_world_facts)

lemma sample_resolves: "resolve_target sample_libs (sample_door acc r) ''wk'' None = Inr sample_row"
  by code_simp

lemma sample_lane_for: "lane_for (provider sample_row) (hosting sample_row) = Some CLAUDE_PANE"
  by code_simp

subsection \<open>The door on the way through\<close>

lemma inbound_admits:
  assumes "inbound_envelope L bytes = Some e" "d_home_error d = None" "d_clock d AtEntry \<le> env_expires_at e" "d_claim_ok d"
    and "resolve_target L d (fst (parse_address (env_target e))) (snd (parse_address (env_target e))) = Inr target"
  shows "recorded_delivered_digest (lib_json L) (as_read d w) (env_correlation_id e) = None \<Longrightarrow> run_inbound L d bytes w = admit L d e target w"
    and "recorded_delivered_digest (lib_json L) (as_read d w) (env_correlation_id e) = Some (lib_digest L (env_body e)) \<Longrightarrow>
      run_inbound L d bytes w = (0, w)"
  using assms by (simp_all add: run_inbound_steps)

definition routed :: "DoorIn \<Rightarrow> Envelope \<Rightarrow> Session \<Rightarrow> Attempt option" where
  "routed d e target =
     (if is_live target then
        (case lane_for (provider target) (hosting target) of
           None \<Rightarrow> None
         | Some l \<Rightarrow> if ops_receive_path (d_open d l) (session_id target) = Inr Available
                     then Some (lane_attempt d target (env_body e) live_policy l) else None)
      else Some (cold_attempt d target (env_body e)))"

lemma admit_routed: "routed d e target = Some att \<Longrightarrow> admit L d e target w = attempt_and_stamp L d att (env_body e) (env_correlation_id e) w"
  by (auto simp: routed_def admit_def Let_def split: if_splits option.splits)

lemma accepted_attempt:
  assumes "accepts att"
  shows "fst (attempt_and_stamp L d att m cid w) = 0" "handed (snd (attempt_and_stamp L d att m cid w)) = handed w @ [(cid, m)]"
  using assms by (simp_all add: attempt_and_stamp_def deliver_accepted after_wake_def Let_def)

lemma sample_address: "parse_address (env_target sample_letter) = (''wk'', None)"
  by code_simp

lemma sample_routed: "routed (sample_door acc r) sample_letter sample_row =
    Some (lane_attempt (sample_door acc r) sample_row ''hi'' live_policy CLAUDE_PANE)"
proof -
  have "is_live sample_row" by (simp add: is_live_def sample_row_def)
  then show ?thesis unfolding routed_def sample_lane_for by (simp add: sample_door_def sample_lane_def sample_letter_def lane_attempt_def)
qed

lemma sample_accepts: "accepts (lane_attempt (sample_door acc r) sample_row m p l) = acc"
  by (simp add: accepts_def lane_attempt_def sample_door_def sample_lane_def)

lemma sample_inbound:
  fixes p acc
  defines "bytes \<equiv> d_read (sample_door acc True) p"
  shows "delivered_digest sample_libs w ''k'' = None \<Longrightarrow> run_inbound sample_libs (sample_door acc True) bytes w
      = attempt_and_stamp sample_libs (sample_door acc True) (lane_attempt (sample_door acc True) sample_row ''hi'' live_policy CLAUDE_PANE) ''hi'' ''k'' w"
    and "delivered_digest sample_libs w ''k'' = Some ''hi'' \<Longrightarrow> run_inbound sample_libs (sample_door acc True) bytes w = (0, w)"
proof -
  have pre: "d_home_error (sample_door acc True) = None" "d_claim_ok (sample_door acc True)"
    "d_clock (sample_door acc True) AtEntry \<le> env_expires_at sample_letter" "as_read (sample_door acc True) w = store w"
    by (simp_all add: sample_door_def sample_letter_def as_read_def)
  have e: "env_correlation_id sample_letter = ''k''" "env_body sample_letter = ''hi''" "lib_digest sample_libs ''hi'' = ''hi''"
    by (simp_all add: sample_letter_def sample_libs_def)
  have res: "resolve_target sample_libs (sample_door acc True) (fst (parse_address (env_target sample_letter))) (snd (parse_address (env_target sample_letter)))
      = Inr sample_row" by (simp add: sample_address sample_resolves)
  note A = inbound_admits [OF sample_envelope [of acc True p] pre(1,3,2) res, where w = w, unfolded e pre(4), folded delivered_digest_def]
  show "delivered_digest sample_libs w ''k'' = None \<Longrightarrow> run_inbound sample_libs (sample_door acc True) bytes w
      = attempt_and_stamp sample_libs (sample_door acc True) (lane_attempt (sample_door acc True) sample_row ''hi'' live_policy CLAUDE_PANE) ''hi'' ''k'' w"
    using A(1) admit_routed [OF sample_routed, of sample_libs acc True w] by (simp add: bytes_def e)
  show "delivered_digest sample_libs w ''k'' = Some ''hi'' \<Longrightarrow> run_inbound sample_libs (sample_door acc True) bytes w = (0, w)"
    using A(2) by (simp add: bytes_def)
qed

text \<open>After one presentation that the lane did not accept.\<close>

definition sample_failed :: World where
  "sample_failed = snd (run_inbound sample_libs (sample_door False True) (d_read (sample_door False True) ''f'') empty_world)"

lemma sample_failed_facts:
  "door_inv sample_libs {} sample_failed" "handed sample_failed = []" "delivered_digest sample_libs sample_failed ''k'' = None"
proof -
  let ?att = "lane_attempt (sample_door False True) sample_row ''hi'' live_policy CLAUDE_PANE"
  show "door_inv sample_libs {} sample_failed" "handed sample_failed = []" "delivered_digest sample_libs sample_failed ''k'' = None"
    using attempted_inv(1,4) [OF sample_lib_ok sample_door_ok [of False] empty_world_inv empty_world_facts(3), where att = ?att and m = "''hi''" and ids = "{}"]
      attempted_failed [OF sample_lib_ok sample_door_ok [of False] empty_world_inv empty_world_facts(3), of ?att]
    by (simp_all add: sample_failed_def sample_inbound empty_world_facts sample_accepts)
qed

subsection \<open>At most once\<close>

text \<open>
  C1. Under the conditions named here, no message is handed over twice. Take a sequence of invocations
  of the verb, originating and inbound in any order, with any targets, lanes and failed attempts. The
  conditions on each of them: both ledger files can be read; clock readings are in the range of an
  \<open>i64\<close>; the stamp of the outcome (\<open>delivered\<close> or \<open>delivery-failed\<close>) is written, while the other stamps
  and the append of the envelope may fail or be cut off; no wire is pinned with \<open>--carrier\<close> or \<open>--wait\<close>;
  and no identifier is used both by an originating invocation and by an inbound envelope (\<open>ids\<close> are
  those of the originating ones). The condition on the start, \<open>door_inv\<close>: nothing was handed over twice,
  what was handed over is recorded as delivered with its digest, what is recorded as delivered among
  \<open>ids\<close> has an envelope in the log, and no \<open>delivered\<close> row hangs unterminated at the end of the file.
  Then no correlation identifier is accepted by a lane more than once, whatever bodies it is presented
  with; each accepted message is recorded as delivered with the digest of its own body; an identifier
  already recorded as delivered at the start is never handed over again; and no message goes over a
  pinned wire. Without the condition on the identifiers it is false, see
  \<open>inbound_id_originated_again\<close>.
\<close>

theorem handed_at_most_once:
  assumes "lib_ok L" and "door_inv L ids w" and "list_all (call_ok L ids) calls"
  shows "distinct (map fst (handed (run_calls L calls w)))
     \<and> list_all (\<lambda>(i, b). delivered_digest L (run_calls L calls w) i = Some (lib_digest L b)) (handed (run_calls L calls w))
     \<and> fst ` set (handed (run_calls L calls w)) \<inter> {i. delivered_digest L w i \<noteq> None} \<subseteq> fst ` set (handed w)
     \<and> wired (run_calls L calls w) = wired w"
proof (intro conjI)
  have inv: "door_inv L ids (run_calls L calls w)" by (rule run_calls_inv [OF assms(1,3,2)])
  then show "distinct (map fst (handed (run_calls L calls w)))" by (simp add: door_inv_def)
  from inv show "list_all (\<lambda>(i, b). delivered_digest L (run_calls L calls w) i = Some (lib_digest L b)) (handed (run_calls L calls w))"
    by (auto simp: door_inv_def list_all_iff)
  show "fst ` set (handed (run_calls L calls w)) \<inter> {i. delivered_digest L w i \<noteq> None} \<subseteq> fst ` set (handed w)"
    using recorded_never_handed [OF assms(1,3,2)] by blast
  show "wired (run_calls L calls w) = wired w" by (rule wired_calls [OF assms(3)])
qed

text \<open>A failed attempt, then an accepted one, then two replays: the message is handed over once.\<close>

theorem handed_at_most_once_witness:
  "let calls = [(sample_door False True, sample_args (Some ''f'') None None None), (sample_door True True, sample_args (Some ''f'') None None None),
                (sample_door True True, sample_args (Some ''f'') None None None)]
   in distinct (map fst (handed (run_calls sample_libs calls empty_world)))
      \<and> list_all (\<lambda>(i, b). delivered_digest sample_libs (run_calls sample_libs calls empty_world) i = Some b)
          (handed (run_calls sample_libs calls empty_world))
      \<and> handed (run_calls sample_libs calls empty_world) = [(''k'', ''hi'')]"
proof -
  let ?calls = "[(sample_door False True, sample_args (Some ''f'') None None None), (sample_door True True, sample_args (Some ''f'') None None None),
                (sample_door True True, sample_args (Some ''f'') None None None)]"
  have ok: "list_all (call_ok sample_libs {}) ?calls"
    by (simp add: call_ok_def sample_door_ok sample_args_def from_send_matches_def split: option.split)
  let ?go = "\<lambda>acc w. snd (run_inbound sample_libs (sample_door acc True) (d_read (sample_door acc True) ''f'') w)"
  have run: "run_calls sample_libs ?calls empty_world = ?go True (?go True sample_failed)"
    by (simp add: sample_failed_def run_calls_def run_send_unified_def sample_args_def inbound_args_def inbound_conflict_def)
  note 1 = sample_failed_facts
  have 2: "handed (?go True sample_failed) = [(''k'', ''hi'')]" "delivered_digest sample_libs (?go True sample_failed) ''k'' = Some ''hi''"
    using attempted_inv(3,4) [OF sample_lib_ok sample_door_ok [of True] 1(1,3), where m = "''hi''"
        and att = "lane_attempt (sample_door True True) sample_row ''hi'' live_policy CLAUDE_PANE"] 1(2)
    by (simp_all add: sample_inbound(1) [OF 1(3)] sample_accepts sample_digest)
  then have "handed (run_calls sample_libs ?calls empty_world) = [(''k'', ''hi'')]"
    unfolding run by (simp add: sample_inbound(2) [OF 2(2)])
  then show ?thesis
    using handed_at_most_once [OF sample_lib_ok empty_world_inv ok] by (simp add: sample_digest Let_def)
qed

subsection \<open>Exit codes\<close>

text \<open>
  An exit code of zero tells the truth. When an inbound presentation exits with zero, the bytes
  held a valid envelope, and afterwards its identifier is recorded as delivered with the digest of
  exactly the body that was presented: either it was recorded so before, and then nothing changed, or
  it was not recorded and this invocation handed that body over, once.
\<close>

theorem inbound_exit_zero:
  assumes "lib_ok L" and "door_ok d" and "door_inv L {} w" and "d_home_error d \<noteq> Some 0"
    and "fst (run_inbound L d bytes w) = 0"
  shows "\<exists>e. inbound_envelope L bytes = Some e
     \<and> delivered_digest L (snd (run_inbound L d bytes w)) (env_correlation_id e) = Some (lib_digest L (env_body e))
     \<and> (if delivered_digest L w (env_correlation_id e) = None
        then handed (snd (run_inbound L d bytes w)) = handed w @ [(env_correlation_id e, env_body e)]
        else snd (run_inbound L d bytes w) = w)"
  using inbound_cases [OF assms(2), of L bytes w]
proof (elim disjE exE conjE, goal_cases)
  case (4 e)
  then show ?case by auto
next
  case (5 e target)
  then obtain att where res: "run_inbound L d bytes w = attempt_and_stamp L d att (env_body e) (env_correlation_id e) w"
    using admit_cases [of L d e target w] assms(5) by auto
  note A = attempted_inv [OF assms(1,2,3) 5(2), of att "env_body e"]
  have "accepts att" using A(2) assms(5) res by simp
  then show ?case using A(3,4) 5 res by auto
qed (use assms in simp_all)

theorem inbound_exit_zero_witness:
  "\<exists>e. inbound_envelope sample_libs (d_read (sample_door True True) ''f'') = Some e
     \<and> delivered_digest sample_libs (snd (run_inbound sample_libs (sample_door True True) (d_read (sample_door True True) ''f'') empty_world)) (env_correlation_id e)
         = Some (env_body e)
     \<and> handed (snd (run_inbound sample_libs (sample_door True True) (d_read (sample_door True True) ''f'') empty_world))
         = [(env_correlation_id e, env_body e)]"
proof -
  let ?d = "sample_door True True"
  have run: "run_inbound sample_libs ?d (d_read ?d ''f'') empty_world
      = attempt_and_stamp sample_libs ?d (lane_attempt ?d sample_row ''hi'' live_policy CLAUDE_PANE) ''hi'' ''k'' empty_world"
    by (rule sample_inbound(1) [OF empty_world_facts(3)])
  have "fst (run_inbound sample_libs ?d (d_read ?d ''f'') empty_world) = 0"
    unfolding run using attempted_inv(2) [OF sample_lib_ok sample_door_ok empty_world_inv empty_world_facts(3), where ids = "{}"]
    by (simp add: sample_accepts)
  moreover have "d_home_error ?d \<noteq> Some 0" by (simp add: sample_door_def)
  ultimately show ?thesis
    using inbound_exit_zero [OF sample_lib_ok sample_door_ok empty_world_inv, of True "d_read ?d ''f''"]
    by (auto simp: empty_world_facts sample_digest)
qed

subsection \<open>Retries\<close>

text \<open>
  C27. Failure never blocks delivery. Whatever failed and refused attempts the ledger records for an
  identifier, as long as none was delivered, the next presentation of its envelope is handed over, if
  it is in time, both ledger files can be read, the claim lock of the identifier is obtained, the target
  resolves to a row with a route and the lane accepts: the exit code is zero and the message is accepted
  exactly once more. If moreover the clock is in the range of an \<open>i64\<close>, the stamp of the outcome can be
  written and the world satisfies \<open>door_inv\<close> (what was handed over so far is recorded, and no
  \<open>delivered\<close> row hangs unterminated at the end of the file), it is recorded as delivered with the digest
  of its body. When that stamp cannot be written the message is handed over but not recorded.
\<close>

theorem retry_delivers:
  assumes "d_log_readable d" and "d_disp_readable d"
    and "inbound_envelope L bytes = Some e" and "d_home_error d = None" and "d_clock d AtEntry \<le> env_expires_at e" and "d_claim_ok d"
    and "resolve_target L d (fst (parse_address (env_target e))) (snd (parse_address (env_target e))) = Inr target"
    and "routed d e target = Some att" and "accepts att"
    and "delivered_digest L w (env_correlation_id e) = None"
  shows "fst (run_inbound L d bytes w) = 0
     \<and> handed (snd (run_inbound L d bytes w)) = handed w @ [(env_correlation_id e, env_body e)]
     \<and> (lib_ok L \<longrightarrow> door_ok d \<longrightarrow> door_inv L {} w \<longrightarrow>
          delivered_digest L (snd (run_inbound L d bytes w)) (env_correlation_id e) = Some (lib_digest L (env_body e)))"
proof -
  have "as_read d w = store w" using assms(1,2) by (simp add: as_read_all)
  then have "run_inbound L d bytes w = admit L d e target w"
    using inbound_admits(1) [OF assms(3-7), where w = w] assms(10) by (simp add: delivered_digest_def)
  then have run: "run_inbound L d bytes w = attempt_and_stamp L d att (env_body e) (env_correlation_id e) w"
    by (simp add: admit_routed [OF assms(8)])
  have "delivered_digest L (snd (run_inbound L d bytes w)) (env_correlation_id e) = Some (lib_digest L (env_body e))"
    if "lib_ok L" "door_ok d" "door_inv L {} w"
    using attempted_inv(3) [OF that assms(10), of att "env_body e"] assms(9) run by simp
  then show ?thesis using accepted_attempt [OF assms(9)] run by simp
qed

theorem retry_delivers_witness:
  "handed sample_failed = []
   \<and> handed (snd (run_inbound sample_libs (sample_door True True) (d_read (sample_door True True) ''f'') sample_failed)) = [(''k'', ''hi'')]
   \<and> delivered_digest sample_libs (snd (run_inbound sample_libs (sample_door True True) (d_read (sample_door True True) ''f'') sample_failed)) ''k''
       = Some ''hi''"
proof -
  let ?att = "\<lambda>acc. lane_attempt (sample_door acc True) sample_row ''hi'' live_policy CLAUDE_PANE"
  have rd: "d_log_readable (sample_door True True)" "d_disp_readable (sample_door True True)" by (simp_all add: sample_door_def)
  have pre: "d_home_error (sample_door True True) = None" "d_clock (sample_door True True) AtEntry \<le> env_expires_at sample_letter"
    "d_claim_ok (sample_door True True)" by (simp_all add: sample_door_def sample_letter_def)
  have e: "env_correlation_id sample_letter = ''k''" "env_body sample_letter = ''hi''" by (simp_all add: sample_letter_def)
  have res: "resolve_target sample_libs (sample_door True True) (fst (parse_address (env_target sample_letter))) (snd (parse_address (env_target sample_letter)))
      = Inr sample_row" by (simp add: sample_address sample_resolves)
  have acc: "accepts (?att True)" by (simp add: sample_accepts)
  have "delivered_digest sample_libs sample_failed (env_correlation_id sample_letter) = None" using sample_failed_facts(3) e(1) by simp
  from retry_delivers [OF rd sample_envelope [of True True "''f''"] pre res sample_routed acc this]
  show ?thesis using sample_failed_facts(1,2) sample_lib_ok sample_door_ok by (simp add: e sample_digest)
qed

subsection \<open>Write, then deliver\<close>

lemma attempt_log: "log_file (store (snd (attempt_and_stamp L d att m cid w))) = log_file (store w)"
proof (cases "accepts att")
  case True
  then show ?thesis by (simp add: attempt_and_stamp_def deliver_accepted after_wake_def Let_def)
next
  case False
  from deliver_failed [OF this, of L d m cid "stamp_event L (d_io d AtAttempted) (Attempted cid (d_clock d AtAttempted)) w"]
  show ?thesis by (auto simp: attempt_and_stamp_def after_wake_def)
qed

lemma attempt_in_log: "in_log L (snd (attempt_and_stamp L d att m cid w)) i = in_log L w i"
  by (simp add: in_log_def logged_envelope_def read_local_log_def attempt_log)

lemma durability_logs:
  assumes "lib_ok L" "door_ok d"
  shows "in_log L (snd (deliver_with_durability L d att raw m x supplied w)) (mint_or_supplied d supplied)
     \<or> handed (snd (deliver_with_durability L d att raw m x supplied w)) = handed w
       \<and> disp_file (store (snd (deliver_with_durability L d att raw m x supplied w))) = disp_file (store w)"
  using assms(2)
proof (cases rule: durability_cases [where L = L and att = att and raw = raw and m = m and x = x and supplied = supplied and w = w])
  case first
  have "in_log L (log_envelope L AppendOk (door_envelope d (mint_or_supplied d supplied) x raw m) w) (mint_or_supplied d supplied)"
    using log_envelopes(2) [OF assms(1) door_envelope_facts(1) [OF assms(2)]] door_envelope_facts(2) by (force simp: in_log_iff)
  then show ?thesis by (simp add: first(3) attempt_in_log)
qed (simp_all add: attempt_in_log)

text \<open>
  C26. A message is durable before it is attempted. Take an originating invocation without a pinned wire
  (no \<open>--carrier\<close> and no \<open>--wait\<close>), with both ledger files readable, clock readings in the range of an
  \<open>i64\<close> and the stamp of the outcome written; the append of the envelope and the other stamps may fail
  halfway. Afterwards either the log holds an envelope with the invocation's correlation identifier, or
  nothing was handed to a lane and not a byte of the event file changed; and nothing went over a wire
  outside the lanes. So a delivery, a failure and a wake that could not succeed always have an envelope
  to join on. With a pinned wire nothing is handed to a lane and the event file is not touched: either
  nothing goes over a wire, or exactly this message does, and then without an envelope, since not a byte
  of the log changes.
\<close>

theorem write_then_deliver:
  assumes "lib_ok L" and "door_ok d" and "a_inbound a = None"
  shows "(from_send_matches a = None \<longrightarrow>
       (in_log L (snd (run_send_unified L d a w)) (mint_or_supplied d (a_correlation_id a))
        \<or> handed (snd (run_send_unified L d a w)) = handed w \<and> disp_file (store (snd (run_send_unified L d a w))) = disp_file (store w))
       \<and> wired (snd (run_send_unified L d a w)) = wired w)
     \<and> (from_send_matches a \<noteq> None \<longrightarrow>
       handed (snd (run_send_unified L d a w)) = handed w \<and> disp_file (store (snd (run_send_unified L d a w))) = disp_file (store w)
       \<and> (wired (snd (run_send_unified L d a w)) = wired w
          \<or> store (snd (run_send_unified L d a w)) = store w
            \<and> (\<exists>c m. a_message a = Some m \<and> wired (snd (run_send_unified L d a w)) = wired w @ [(c, m)])))"
proof (intro conjI impI)
  assume plain: "from_send_matches a = None"
  show "wired (snd (run_send_unified L d a w)) = wired w" by (rule wired_verb [OF plain])
  have remote: "handed (snd (origin_remote_send L d raw m x s w)) = handed w
      \<and> disp_file (store (snd (origin_remote_send L d raw m x s w))) = disp_file (store w)" for raw m x s
    by (auto simp: origin_remote_send_def append_envelope_def Let_def case_prod_beta split: option.split)
  have "in_log L (snd (origin_addressed L d a query m x (a_correlation_id a) w)) (mint_or_supplied d (a_correlation_id a))
      \<or> handed (snd (origin_addressed L d a query m x (a_correlation_id a) w)) = handed w
        \<and> disp_file (store (snd (origin_addressed L d a query m x (a_correlation_id a) w))) = disp_file (store w)" for query m x
    using origin_addressed_cases [OF plain, of L d query m x "a_correlation_id a" w]
  proof (elim disjE exE)
    fix att raw
    assume eq: "origin_addressed L d a query m x (a_correlation_id a) w = deliver_with_durability L d att raw m x (a_correlation_id a) w"
    show ?thesis unfolding eq by (rule durability_logs [OF assms(1,2)])
  qed (use remote in simp_all)
  then show "in_log L (snd (run_send_unified L d a w)) (mint_or_supplied d (a_correlation_id a))
      \<or> handed (snd (run_send_unified L d a w)) = handed w \<and> disp_file (store (snd (run_send_unified L d a w))) = disp_file (store w)"
    using assms(3) by (auto simp: run_send_unified_def split: option.split sum.split)
next
  assume "from_send_matches a \<noteq> None"
  note pinned = verb_pinned [OF this assms(3), of L d w]
  show "handed (snd (run_send_unified L d a w)) = handed w" "disp_file (store (snd (run_send_unified L d a w))) = disp_file (store w)"
    using pinned by auto
  show "wired (snd (run_send_unified L d a w)) = wired w
      \<or> store (snd (run_send_unified L d a w)) = store w
        \<and> (\<exists>c m. a_message a = Some m \<and> wired (snd (run_send_unified L d a w)) = wired w @ [(c, m)])"
    using pinned by auto
qed

lemma sample_origin:
  "run_send_unified sample_libs (sample_door True True) (sample_args None (Some ''wk'') (Some ''m'') (Some ''k'')) w
     = deliver_with_durability sample_libs (sample_door True True)
         (lane_attempt (sample_door True True) sample_row ''m'' live_policy CLAUDE_PANE) ''wk'' ''m'' DEFAULT_EXPIRES_MS (Some ''k'') w"
proof -
  let ?d = "sample_door True True" and ?a = "sample_args None (Some ''wk'') (Some ''m'') (Some ''k'')"
  have addr: "parse_address ''wk'' = (''wk'', None)" by code_simp
  have args: "a_inbound ?a = None" "a_session ?a = Some ''wk''" "a_message ?a = Some ''m''" "a_expires ?a = None" "a_host ?a = None"
    "a_correlation_id ?a = Some ''k''" "from_send_matches ?a = None"
    by (simp_all add: sample_args_def from_send_matches_def)
  have door: "d_home_error ?d = None" "d_collision ?d = None" "d_refresh ?d = Some (sample_row, False)" "resolve_self_session_id sample_libs ?d = Inr None"
    "ops_receive_path (d_open ?d l) i = Inr Available" for l i
    by (simp_all add: sample_door_def resolve_self_session_id_def caller_session_id_def sample_lane_def)
  have row: "is_live sample_row" "session_id sample_row \<noteq> []" by (simp_all add: is_live_def sample_row_def)
  show ?thesis
    unfolding run_send_unified_def args origin_addressed_def origin_local_def route_current_def
    by (simp add: expires_window_def effective_host_def addr sample_resolves door row args sample_lane_for)
qed

theorem write_then_deliver_witness:
  "from_send_matches (sample_args None (Some ''wk'') (Some ''m'') (Some ''k'')) = None
   \<and> in_log sample_libs (snd (run_send_unified sample_libs (sample_door True True) (sample_args None (Some ''wk'') (Some ''m'') (Some ''k'')) empty_world)) ''k''"
proof -
  let ?a = "sample_args None (Some ''wk'') (Some ''m'') (Some ''k'')" and ?d = "sample_door True True"
  have "a_inbound ?a = None" "from_send_matches ?a = None" "mint_or_supplied ?d (a_correlation_id ?a) = ''k''"
    by (simp_all add: sample_args_def from_send_matches_def mint_or_supplied_def)
  moreover have "logged_envelope sample_of (store empty_world) ''k'' = None"
    by (simp add: logged_envelope_def read_local_log_def parse_log_def parse_jsonl_def terminated_lines_def empty_world_def)
  then have "handed (snd (run_send_unified sample_libs ?d ?a empty_world)) = [(''k'', ''m'')]"
    unfolding sample_origin deliver_with_durability_def
    by (simp add: sample_door_def mint_or_supplied_def as_read_def sample_libs_def case_prod_beta append_envelope_fst attempt_and_stamp_def
        deliver_accepted after_wake_def accepts_def lane_attempt_def sample_lane_def Let_def empty_world_def)
  ultimately show ?thesis using write_then_deliver [OF sample_lib_ok sample_door_ok, of ?a True empty_world] by (simp add: empty_world_facts)
qed

text \<open>
  Why the identifiers of originating and inbound messages are kept apart above. An identifier admitted
  from a peer, handed over and recorded as delivered has no envelope in the log of this host; an
  originating invocation that is given the same identifier looks at the log before it looks at the
  recorded deliveries, and hands over again, here with another body.
\<close>

theorem inbound_id_originated_again:
  "let w = snd (run_inbound sample_libs (sample_door True True) (d_read (sample_door True True) ''f'') empty_world);
       again = run_send_unified sample_libs (sample_door True True) (sample_args None (Some ''wk'') (Some ''m'') (Some ''k'')) w
   in delivered_digest sample_libs w ''k'' = Some ''hi''
      \<and> fst again = 0 \<and> handed (snd again) = [(''k'', ''hi''), (''k'', ''m'')]"
proof -
  let ?d = "sample_door True True"
  define att where "att = lane_attempt ?d sample_row ''hi'' live_policy CLAUDE_PANE"
  define w where "w = snd (run_inbound sample_libs ?d (d_read ?d ''f'') empty_world)"
  have w: "w = snd (attempt_and_stamp sample_libs ?d att ''hi'' ''k'' empty_world)"
    by (simp add: w_def att_def sample_inbound(1) [OF empty_world_facts(3)])
  have acc: "accepts att" by (simp add: att_def sample_accepts)
  have dd: "delivered_digest sample_libs w ''k'' = Some ''hi''"
    using attempted_inv(3) [OF sample_lib_ok sample_door_ok empty_world_inv empty_world_facts(3) _ acc, where ids = "{}"]
    by (simp add: w sample_digest)
  have h: "handed w = [(''k'', ''hi'')]" by (simp add: w accepted_attempt [OF acc] empty_world_facts)
  have nl: "\<not> in_log sample_libs w ''k''"
    unfolding w attempt_in_log
    by (simp add: in_log_def logged_envelope_def read_local_log_def parse_log_def parse_jsonl_def terminated_lines_def empty_world_def)
  let ?att = "lane_attempt ?d sample_row ''m'' live_policy CLAUDE_PANE"
  have "fst (deliver_with_durability sample_libs ?d ?att ''wk'' ''m'' DEFAULT_EXPIRES_MS (Some ''k'') w) = 0
      \<and> handed (snd (deliver_with_durability sample_libs ?d ?att ''wk'' ''m'' DEFAULT_EXPIRES_MS (Some ''k'') w)) = handed w @ [(''k'', ''m'')]"
    using nl accepted_attempt [of ?att] sample_accepts [of True True]
    by (simp add: deliver_with_durability_def Let_def case_prod_beta mint_or_supplied_def sample_door_def as_read_def append_envelope_fst
        in_log_def lane_attempt_def)
  then show ?thesis using dd h by (simp add: sample_origin w_def [symmetric] Let_def)
qed

subsection \<open>A ledger that cannot be read\<close>

text \<open>
  C40. A read error is taken for an empty ledger. When the event file cannot be read, an inbound
  envelope that was already delivered, even recorded as delivered, is handed over again by every
  presentation: after two of them the lane has accepted the message twice more, both with exit code
  zero.
\<close>

theorem unreadable_ledger_redelivers:
  assumes "\<not> d_disp_readable d"
    and "inbound_envelope L bytes = Some e" and "d_home_error d = None" and "d_clock d AtEntry \<le> env_expires_at e" and "d_claim_ok d"
    and "resolve_target L d (fst (parse_address (env_target e))) (snd (parse_address (env_target e))) = Inr target"
    and "routed d e target = Some att" and "accepts att"
  shows "fst (run_inbound L d bytes w) = 0
     \<and> fst (run_inbound L d bytes (snd (run_inbound L d bytes w))) = 0
     \<and> handed (snd (run_inbound L d bytes (snd (run_inbound L d bytes w))))
         = handed w @ [(env_correlation_id e, env_body e), (env_correlation_id e, env_body e)]"
proof -
  have "recorded_delivered_digest (lib_json L) (as_read d w) i = None" for w i
    using assms(1) by (simp add: recorded_delivered_digest_def read_local_events_def parse_dispositions_def as_read_def parse_jsonl_def terminated_lines_def)
  then have run: "run_inbound L d bytes w = attempt_and_stamp L d att (env_body e) (env_correlation_id e) w" for w
    using inbound_admits(1) [OF assms(2-6), where w = w] by (simp add: admit_routed [OF assms(7)])
  show ?thesis by (simp add: run accepted_attempt [OF assms(8)])
qed

theorem unreadable_ledger_redelivers_witness:
  "handed (snd (run_inbound sample_libs (sample_door True False) (d_read (sample_door True False) ''f'')
     (snd (run_inbound sample_libs (sample_door True False) (d_read (sample_door True False) ''f'') empty_world)))) = [(''k'', ''hi''), (''k'', ''hi'')]"
proof -
  let ?d = "sample_door True False"
  have pre: "\<not> d_disp_readable ?d" "d_home_error ?d = None" "d_clock ?d AtEntry \<le> env_expires_at sample_letter" "d_claim_ok ?d"
    by (simp_all add: sample_door_def sample_letter_def)
  have res: "resolve_target sample_libs ?d (fst (parse_address (env_target sample_letter))) (snd (parse_address (env_target sample_letter))) = Inr sample_row"
    by (simp add: sample_address sample_resolves)
  have acc: "accepts (lane_attempt ?d sample_row ''hi'' live_policy CLAUDE_PANE)" by (simp add: sample_accepts)
  from unreadable_ledger_redelivers [OF pre(1) sample_envelope [of True False "''f''"] pre(2-4) res sample_routed acc, of empty_world]
  show ?thesis by (simp add: empty_world_facts sample_letter_def)
qed

subsection \<open>Correlation identifiers\<close>

text \<open>
  Minted identifiers sort by time and do not collide. For clock readings in the 48 bits of the
  format and ten random bytes, an identifier is 26 symbols of the Crockford alphabet, one minted at a
  later millisecond is larger as a text whatever the random bytes are, and two identifiers are equal
  only if the time and all random bytes are.
\<close>

theorem ulid_sortable:
  assumes "0 \<le> t" "t < 2 ^ 48" "0 \<le> t'" "t' < 2 ^ 48" "length r = 10" "length r' = 10"
  shows "length (mint_ulid_with t r) = 26 \<and> set (mint_ulid_with t r) \<subseteq> set CROCKFORD
     \<and> (t < t' \<longrightarrow> mint_ulid_with t r < mint_ulid_with t' r')
     \<and> (mint_ulid_with t r = mint_ulid_with t' r' \<longleftrightarrow> t = t' \<and> r = r')"
proof (intro conjI impI iffI)
  have len: "length (ts_bytes t @ r) = 16" "length (ts_bytes t' @ r') = 16" using assms by (simp_all add: ts_bytes_val)
  show "length (mint_ulid_with t r) = 26" by (simp add: mint_encode encode_symbols [OF len(1)] base32_digits)
  show "set (mint_ulid_with t r) \<subseteq> set CROCKFORD"
    using base32_digits(1) [of 26 "bytes_val (ts_bytes t @ r)"] by (auto simp: mint_encode encode_symbols [OF len(1)] CROCKFORD_length)
  show "mint_ulid_with t r < mint_ulid_with t' r'" if "t < t'"
  proof -
    have "bytes_val r < 2 ^ 80" using bytes_val_bound [of r] assms(5) by simp
    moreover have "Suc (nat t) \<le> nat t'" using that assms(1) by simp
    then have "Suc (nat t) * 2 ^ 80 \<le> nat t' * 2 ^ 80" by (rule mult_right_mono) simp
    ultimately show ?thesis
      unfolding mint_encode using assms by (intro encode_less [OF len]) (simp add: mint_val)
  qed
  assume eq: "mint_ulid_with t r = mint_ulid_with t' r'"
  then have same: "ts_bytes t @ r = ts_bytes t' @ r'" using encode_inj [OF len] by (simp add: mint_encode)
  then have "ts_bytes t = ts_bytes t'" "r = r'" using assms by (simp_all add: ts_bytes_val)
  then show "t = t'" "r = r'" using ts_bytes_val(1) [OF assms(1,2)] ts_bytes_val(1) [OF assms(3,4)] assms by simp_all
qed simp_all

theorem ulid_sortable_witness:
  "mint_ulid_with 1717495200000 (replicate 10 0xFF) < mint_ulid_with 1717495200001 (replicate 10 0)"
  using ulid_sortable [of 1717495200000 1717495200001 "replicate 10 0xFF" "replicate 10 0"] by simp

end
