(* ===== verification/Submit.thy ===== *)
theory Submit
  imports Id_Store
begin

text \<open>
  The submit discipline (\<open>crates/quorum-submit-discipline/src/lib.rs\<close>): a prompt is written to a
  terminal in chunks, submitted with a carriage return of its own, and, when the session does not go
  busy, with at most one more carriage return that is sent only while the composer still shows the
  text. The traits of effects are records of functions on a world \<open>'w\<close>: every effect takes the world
  and returns the world after it, so a screen or a status may be different each time it is read. A
  loop that polls the clock is a partial function: \<open>None\<close> is a loop that never ends. Times are
  mathematical integers (milliseconds; no clock reaches the bounds of \<open>i64\<close>).
\<close>

subsection \<open>Substrings\<close>

fun contains :: "string \<Rightarrow> string \<Rightarrow> bool" where
  "contains [] p = (p = [])"
| "contains (c # cs) p = (starts_with (c # cs) p \<or> contains cs p)"

text \<open>The suffix that starts at the last occurrence.\<close>

fun rfind_from :: "string \<Rightarrow> string \<Rightarrow> string option" where
  "rfind_from [] p = None"
| "rfind_from (c # cs) p =
     (case rfind_from cs p of Some s \<Rightarrow> Some s | None \<Rightarrow> if starts_with (c # cs) p then Some (c # cs) else None)"

lemma starts_with_iff: "starts_with s p \<longleftrightarrow> (\<exists>t. s = p @ t)"
  unfolding starts_with_def by (metis append_eq_conv_conj append_take_drop_id)

lemma contains_iff: "contains s p \<longleftrightarrow> (\<exists>a b. s = a @ p @ b)"
proof (induction s)
  case (Cons c cs)
  show ?case
  proof
    assume "contains (c # cs) p"
    then consider "starts_with (c # cs) p" | "contains cs p" by auto
    then show "\<exists>a b. c # cs = a @ p @ b"
    proof cases
      case 1
      then obtain t where "c # cs = p @ t" unfolding starts_with_iff by blast
      then have "c # cs = [] @ p @ t" by simp
      then show ?thesis by blast
    next
      case 2
      then obtain a b where "cs = a @ p @ b" using Cons.IH by blast
      then have "c # cs = (c # a) @ p @ b" by simp
      then show ?thesis by blast
    qed
  next
    assume "\<exists>a b. c # cs = a @ p @ b"
    then obtain a b where ab: "c # cs = a @ p @ b" by blast
    show "contains (c # cs) p"
    proof (cases a)
      case Nil
      then have "starts_with (c # cs) p" using ab by (auto simp: starts_with_iff)
      then show ?thesis by simp
    next
      case (Cons x xs)
      then show ?thesis using ab Cons.IH by auto
    qed
  qed
qed auto

subsection \<open>The session as it is observed\<close>

definition BUSY :: string where "BUSY = ''busy''"

record 'w SubmitDeps =
  read_status :: "'w \<Rightarrow> string option \<times> 'w"
  send_cr :: "'w \<Rightarrow> 'w"
  sleep :: "nat \<Rightarrow> 'w \<Rightarrow> 'w"
  now_ms :: "'w \<Rightarrow> int \<times> 'w"

record 'w IdleDeliverDeps = "'w SubmitDeps" +
  send_text :: "string \<Rightarrow> 'w \<Rightarrow> 'w"
  read_screen :: "'w \<Rightarrow> string \<times> 'w"

record SubmitOptions =
  settle_ms :: nat
  post_cr_ms :: nat
  poll_ms :: nat

definition default_submit_options :: SubmitOptions where
  "default_submit_options = \<lparr>settle_ms = 2500, post_cr_ms = 13000, poll_ms = 250\<rparr>"

record SubmitOutcome =
  accepted :: bool
  crs_fired :: nat
  suppressed_busy_cr :: bool

subsection \<open>Verify, then carriage return\<close>

partial_function (option) busy_loop :: "('w, 'z) SubmitDeps_scheme \<Rightarrow> int \<Rightarrow> nat \<Rightarrow> 'w \<Rightarrow> (bool \<times> 'w) option" where
  "busy_loop d deadline poll w =
     (case read_status d w of (s, w1) \<Rightarrow>
        if s = Some BUSY then Some (True, w1)
        else case now_ms d w1 of (t, w2) \<Rightarrow>
          if deadline \<le> t then Some (False, w2)
          else case now_ms d w2 of (t', w3) \<Rightarrow>
            busy_loop d deadline poll (sleep d (min poll (nat (max 0 (deadline - t')))) w3))"

definition wait_for_busy :: "('w, 'z) SubmitDeps_scheme \<Rightarrow> nat \<Rightarrow> nat \<Rightarrow> 'w \<Rightarrow> (bool \<times> 'w) option" where
  "wait_for_busy d window poll w = (case now_ms d w of (t, w1) \<Rightarrow> busy_loop d (t + int window) poll w1)"

definition verify_accepted_then_cr :: "('w, 'z) SubmitDeps_scheme \<Rightarrow> SubmitOptions \<Rightarrow> 'w \<Rightarrow> (SubmitOutcome \<times> 'w) option" where
  "verify_accepted_then_cr d opts w = do {
     (busy, w1) \<leftarrow> wait_for_busy d (settle_ms opts) (poll_ms opts) w;
     if busy then Some (\<lparr>accepted = True, crs_fired = 0, suppressed_busy_cr = False\<rparr>, w1)
     else case read_status d w1 of (s, w2) \<Rightarrow>
       if s = Some BUSY then Some (\<lparr>accepted = True, crs_fired = 0, suppressed_busy_cr = True\<rparr>, w2)
       else do {
         (ok, w3) \<leftarrow> wait_for_busy d (post_cr_ms opts) (poll_ms opts) (send_cr d w2);
         Some (\<lparr>accepted = ok, crs_fired = 1, suppressed_busy_cr = False\<rparr>, w3)
       }
   }"

subsection \<open>Chunks\<close>

definition TWO_WRITE_SETTLE_MS :: nat where "TWO_WRITE_SETTLE_MS = 200"
definition CHUNK_SETTLE_MS :: nat where "CHUNK_SETTLE_MS = 150"
definition CHUNK_BYTES :: nat where "CHUNK_BYTES = 1024"

record ChunkSendOptions =
  chunk_bytes :: nat
  chunk_settle_ms :: nat

definition default_chunk_options :: ChunkSendOptions where
  "default_chunk_options = \<lparr>chunk_bytes = CHUNK_BYTES, chunk_settle_ms = CHUNK_SETTLE_MS\<rparr>"

fun char_indices :: "nat \<Rightarrow> string list \<Rightarrow> (nat \<times> string) list" where
  "char_indices i [] = []"
| "char_indices i (ch # chs) = (i, ch) # char_indices (i + length ch) chs"

definition slice :: "string \<Rightarrow> nat \<Rightarrow> nat \<Rightarrow> string" where
  "slice s a b = take (b - a) (drop a s)"

text \<open>The loop keeps the finished chunks, where the current one began, and its bytes so far.\<close>

definition chunk_step :: "nat \<Rightarrow> string \<Rightarrow> nat \<times> string \<Rightarrow> string list \<times> nat \<times> nat \<Rightarrow> string list \<times> nat \<times> nat" where
  "chunk_step mx message = (\<lambda>(idx, ch) (chunks, start, cur).
     if cur \<noteq> 0 \<and> mx < cur + length ch then (chunks @ [slice message start idx], idx, length ch)
     else (chunks, start, cur + length ch))"

definition chunk_text :: "string \<Rightarrow> nat \<Rightarrow> string list" where
  "chunk_text message bytes =
     (case fold (chunk_step (max bytes 1) message) (char_indices 0 (to_chars message)) ([], 0, 0) of
        (chunks, start, cur) \<Rightarrow> if start < length message then chunks @ [drop start message] else chunks)"

fun send_chunks :: "(string \<Rightarrow> 'w \<Rightarrow> 'w) \<Rightarrow> (nat \<Rightarrow> 'w \<Rightarrow> 'w) \<Rightarrow> nat \<Rightarrow> nat \<Rightarrow> string list \<Rightarrow> 'w \<Rightarrow> 'w" where
  "send_chunks send slp ms i [] w = w"
| "send_chunks send slp ms i (chunk # chunks) w =
     send_chunks send slp ms (i + 1) chunks (send chunk (if 0 < i then slp ms w else w))"

definition send_text_chunked :: "(string \<Rightarrow> 'w \<Rightarrow> 'w) \<Rightarrow> (nat \<Rightarrow> 'w \<Rightarrow> 'w) \<Rightarrow> string \<Rightarrow> ChunkSendOptions \<Rightarrow> 'w \<Rightarrow> 'w" where
  "send_text_chunked send slp message opts w =
     send_chunks send slp (chunk_settle_ms opts) 0 (chunk_text message (chunk_bytes opts)) w"

subsection \<open>What the composer shows\<close>

text \<open>A character is given by its UTF-8 bytes.\<close>

definition PROMPT_GLYPH :: string where "PROMPT_GLYPH = [CHR 0xE2, CHR 0x9D, CHR 0xAF]"

datatype ComposerRegion = GlyphAnchor string | BetweenLastTwo string

definition MIN_RULE_RUN :: nat where "MIN_RULE_RUN = 3"

definition is_whitespace :: "string \<Rightarrow> bool" where
  "is_whitespace ch \<longleftrightarrow> ws_head ch = length ch \<and> ch \<noteq> []"

fun rule_count :: "string \<Rightarrow> nat \<Rightarrow> string list \<Rightarrow> nat option" where
  "rule_count rule n [] = Some n"
| "rule_count rule n (ch # chs) =
     (if ch = rule then rule_count rule (n + 1) chs
      else if is_whitespace ch then rule_count rule n chs else None)"

definition is_rule_line :: "string \<Rightarrow> string \<Rightarrow> bool" where
  "is_rule_line line rule = (case rule_count rule 0 (to_chars line) of None \<Rightarrow> False | Some n \<Rightarrow> MIN_RULE_RUN \<le> n)"

fun rule_spans :: "string \<Rightarrow> nat \<Rightarrow> string list \<Rightarrow> (nat \<times> nat) list" where
  "rule_spans rule pos [] = []"
| "rule_spans rule pos (line # lines) =
     (if is_rule_line line rule then [(pos, pos + length line)] else []) @ rule_spans rule (pos + length line + 1) lines"

definition between_last_two_rules :: "string \<Rightarrow> string \<Rightarrow> string option" where
  "between_last_two_rules clean rule =
     (let rules = rule_spans rule 0 (split_nl clean)
      in if length rules < 2 then None
         else let top = rules ! (length rules - 2); bottom = rules ! (length rules - 1);
                  a = min (snd top) (length clean); b = min (fst bottom) (length clean)
              in if a \<le> b then Some (slice clean a b) else None)"

fun region_of :: "string \<Rightarrow> ComposerRegion \<Rightarrow> string option" where
  "region_of clean (GlyphAnchor g) = Some (case rfind_from clean g of Some s \<Rightarrow> s | None \<Rightarrow> clean)"
| "region_of clean (BetweenLastTwo rule) = between_last_two_rules clean rule"

fun norm_loop :: "string \<Rightarrow> bool \<Rightarrow> string list \<Rightarrow> string" where
  "norm_loop out in_ws [] = out"
| "norm_loop out in_ws (ch # chs) =
     (if is_whitespace ch then norm_loop out True chs
      else norm_loop (out @ (if in_ws \<and> out \<noteq> [] then '' '' else []) @ ch) False chs)"

definition normalize_ws :: "string \<Rightarrow> string" where
  "normalize_ws s = norm_loop [] False (to_chars s)"

subsection \<open>Stripping terminal sequences\<close>

definition ESC :: char where "ESC = CHR 0x1B"

definition csi_final :: "char \<Rightarrow> bool" where
  "csi_final c \<longleftrightarrow> (0x40 :: nat) \<le> of_char c \<and> of_char c \<le> (0x7E :: nat)"

fun osc_rest :: "string \<Rightarrow> string" where
  "osc_rest [] = []"
| "osc_rest (c # cs) =
     (if c = CHR 0x07 then cs
      else if c = ESC \<and> cs \<noteq> [] \<and> hd cs = CHR 0x5C then tl cs
      else osc_rest cs)"

definition floor_to_char_boundary :: "string \<Rightarrow> string" where
  "floor_to_char_boundary rest = dropWhile continuation_byte rest"

text \<open>What is left of \<open>ESC next rest\<close> after the sequence.\<close>

definition escape_rest :: "char \<Rightarrow> string \<Rightarrow> string" where
  "escape_rest nxt rest =
     (if nxt = CHR ''['' then drop 1 (dropWhile (\<lambda>c. \<not> csi_final c) rest)
      else if nxt = CHR '']'' then osc_rest rest
      else if nxt \<in> {CHR ''('', CHR '')'', CHR ''*'', CHR ''+''} then drop 1 rest
      else rest)"

lemma length_osc_rest: "length (osc_rest s) \<le> length s"
  by (induction s rule: osc_rest.induct) auto

lemma length_escape_rest: "length (floor_to_char_boundary (escape_rest c s)) \<le> length s"
proof -
  have "length (escape_rest c s) \<le> length s"
    using length_osc_rest [of s] length_dropWhile_le [of "\<lambda>c. \<not> csi_final c" s] by (auto simp: escape_rest_def)
  then show ?thesis using length_dropWhile_le [of continuation_byte "escape_rest c s"]
    by (simp add: floor_to_char_boundary_def)
qed

definition kept_control :: "char \<Rightarrow> bool" where
  "kept_control c \<longleftrightarrow> c = CHR 0x0A \<or> c = CHR 0x09"

definition dropped_control :: "char \<Rightarrow> bool" where
  "dropped_control c \<longleftrightarrow> of_char c < (0x20 :: nat) \<or> of_char c = (0x7F :: nat)"

function strip_ansi :: "string \<Rightarrow> string" where
  "strip_ansi [] = []"
| "strip_ansi (b # cs) =
     (if b = ESC then (case cs of [] \<Rightarrow> [] | nxt # rest \<Rightarrow> strip_ansi (floor_to_char_boundary (escape_rest nxt rest)))
      else if kept_control b then b # strip_ansi cs
      else if dropped_control b then strip_ansi cs
      else (b # takeWhile continuation_byte cs) @ strip_ansi (dropWhile continuation_byte cs))"
  by pat_completeness auto
termination
proof (relation "measure length", goal_cases)
  case (2 b cs nxt rest)
  then show ?case using length_escape_rest [of nxt rest] by simp
next
  case (5 b cs)
  then show ?case using length_dropWhile_le [of continuation_byte cs] by simp
qed auto

definition composer_holds_message_in :: "string \<Rightarrow> string \<Rightarrow> ComposerRegion \<Rightarrow> bool" where
  "composer_holds_message_in screen_text message region =
     (let needle = normalize_ws (strip_ansi message)
      in if needle = [] then False
         else case region_of (strip_ansi screen_text) region of None \<Rightarrow> False | Some r \<Rightarrow> contains (normalize_ws r) needle)"

definition composer_holds_message :: "string \<Rightarrow> string \<Rightarrow> bool" where
  "composer_holds_message screen_text message = composer_holds_message_in screen_text message (GlyphAnchor PROMPT_GLYPH)"

subsection \<open>Delivery\<close>

text \<open>\<open>ContentVerifiedSubmit\<close>: the same effects, with a carriage return that looks first.\<close>

definition content_verified :: "('w, 'z) IdleDeliverDeps_scheme \<Rightarrow> string \<Rightarrow> ComposerRegion \<Rightarrow> 'w SubmitDeps" where
  "content_verified d message region =
     \<lparr>read_status = read_status d,
      send_cr = (\<lambda>w. case read_screen d w of (s, w1) \<Rightarrow>
                   if composer_holds_message_in s message region then send_cr d w1 else w1),
      sleep = sleep d, now_ms = now_ms d\<rparr>"

definition deliver_idle_two_write_with_region ::
  "('w, 'z) IdleDeliverDeps_scheme \<Rightarrow> string \<Rightarrow> SubmitOptions \<Rightarrow> ChunkSendOptions \<Rightarrow> ComposerRegion \<Rightarrow> 'w \<Rightarrow> (SubmitOutcome \<times> 'w) option"
where
  "deliver_idle_two_write_with_region d message opts chunk_opts region w =
     (let w1 = send_text_chunked (send_text d) (sleep d) message chunk_opts w;
          w2 = send_cr d (sleep d TWO_WRITE_SETTLE_MS w1)
      in verify_accepted_then_cr (content_verified d message region) opts w2)"

definition deliver_idle_two_write_in_region ::
  "('w, 'z) IdleDeliverDeps_scheme \<Rightarrow> string \<Rightarrow> SubmitOptions \<Rightarrow> ComposerRegion \<Rightarrow> 'w \<Rightarrow> (SubmitOutcome \<times> 'w) option"
where
  "deliver_idle_two_write_in_region d message opts region w =
     deliver_idle_two_write_with_region d message opts default_chunk_options region w"

definition deliver_idle_two_write_with ::
  "('w, 'z) IdleDeliverDeps_scheme \<Rightarrow> string \<Rightarrow> SubmitOptions \<Rightarrow> ChunkSendOptions \<Rightarrow> 'w \<Rightarrow> (SubmitOutcome \<times> 'w) option"
where
  "deliver_idle_two_write_with d message opts chunk_opts w =
     deliver_idle_two_write_with_region d message opts chunk_opts (GlyphAnchor PROMPT_GLYPH) w"

definition deliver_idle_two_write ::
  "('w, 'z) IdleDeliverDeps_scheme \<Rightarrow> string \<Rightarrow> SubmitOptions \<Rightarrow> 'w \<Rightarrow> (SubmitOutcome \<times> 'w) option"
where
  "deliver_idle_two_write d message opts w = deliver_idle_two_write_with d message opts default_chunk_options w"

datatype DeliverOutcome = Accepted | Stalled | PidFileMissing

record 'w DeliverDeps =
  send_message :: "string \<Rightarrow> 'w \<Rightarrow> 'w"
  find_pid_file :: "'w \<Rightarrow> string option \<times> 'w"
  submit_deps :: "string \<Rightarrow> string \<Rightarrow> 'w SubmitDeps"

fun prompt_rounds :: "('w, 'z) SubmitDeps_scheme \<Rightarrow> SubmitOptions \<Rightarrow> nat \<Rightarrow> SubmitOutcome \<times> 'w \<Rightarrow> (SubmitOutcome \<times> 'w) option" where
  "prompt_rounds d opts 0 ow = Some ow"
| "prompt_rounds d opts (Suc n) (oc, w) =
     (if accepted oc then Some (oc, w) else verify_accepted_then_cr d opts w \<bind> prompt_rounds d opts n)"

definition per_round_ms :: "nat \<Rightarrow> nat" where
  "per_round_ms timeout_s = max (timeout_s * 1000 - 2500) 8000"

definition deliver_prompt :: "'w DeliverDeps \<Rightarrow> string \<Rightarrow> nat \<Rightarrow> 'w \<Rightarrow> (DeliverOutcome \<times> 'w) option" where
  "deliver_prompt deps message timeout_s w =
     (case find_pid_file deps (send_message deps message w) of
        (None, w1) \<Rightarrow> Some (PidFileMissing, w1)
      | (Some pid_file, w1) \<Rightarrow> do {
          ow \<leftarrow> verify_accepted_then_cr (submit_deps deps pid_file message)
                 \<lparr>settle_ms = 2500, post_cr_ms = per_round_ms timeout_s, poll_ms = poll_ms default_submit_options\<rparr> w1;
          (oc, w2) \<leftarrow> prompt_rounds (submit_deps deps pid_file message)
                 \<lparr>settle_ms = 0, post_cr_ms = per_round_ms timeout_s, poll_ms = poll_ms default_submit_options\<rparr> 3 ow;
          Some (if accepted oc then Accepted else Stalled, w2)
        })"

end
