(* ===== verification/Json_Value.thy ===== *)
theory Json_Value
  imports Id_Store_Inv
begin

text \<open>
  JSON documents with arrays and nested objects, as the transcripts and the delivery events have them
  (\<open>serde_json::Value\<close> with the feature that keeps the order of keys). The printer and the parser are
  parameters; what the code relies on of them is \<open>value_ok\<close>, and a small concrete pair has it.
\<close>

datatype Value =
    VNull
  | VBool bool
  | VNum int
  | VReal string
  | VStr string
  | VArr "Value list"
  | VObj "(string \<times> Value) list"

fun obj_get :: "string \<Rightarrow> Value \<Rightarrow> Value option" where
  "obj_get k (VObj ms) = map_of (rev ms) k"
| "obj_get k _ = None"

fun val_str :: "Value \<Rightarrow> string option" where
  "val_str (VStr s) = Some s"
| "val_str _ = None"

fun val_arr :: "Value \<Rightarrow> Value list option" where
  "val_arr (VArr vs) = Some vs"
| "val_arr _ = None"

definition get_str :: "string \<Rightarrow> Value \<Rightarrow> string option" where
  "get_str k v = obj_get k v \<bind> val_str"

fun wf_value :: "Value \<Rightarrow> bool" where
  "wf_value (VArr vs) = list_all wf_value vs"
| "wf_value (VObj ms) = (distinct (map fst ms) \<and> list_all (\<lambda>m. wf_value (snd m)) ms)"
| "wf_value _ = True"

text \<open>
  An object is printed on one line with no white space around it, and reads back as the same object.
\<close>

definition value_ok :: "(Value \<Rightarrow> string) \<Rightarrow> (string \<Rightarrow> Value option) \<Rightarrow> bool" where
  "value_ok print parse \<longleftrightarrow>
     (\<forall>ms. wf_value (VObj ms) \<longrightarrow>
        parse (print (VObj ms)) = Some (VObj ms) \<and> NL \<notin> set (print (VObj ms)) \<and> print (VObj ms) \<noteq> []
        \<and> ws_head (print (VObj ms)) = 0 \<and> ws_last (print (VObj ms)) = 0)"

subsection \<open>A concrete printer and parser\<close>

fun take_string :: "string \<Rightarrow> string \<Rightarrow> (string \<times> string) option" where
  "take_string cur [] = None"
| "take_string cur (t # rest) =
     (if t = CHR ''.'' then Some (rev cur, rest)
      else if t = CHR ''n'' then take_string (NL # cur) rest
      else if t = CHR ''c'' then (case rest of [] \<Rightarrow> None | c # rest' \<Rightarrow> take_string (c # cur) rest')
      else None)"

lemma take_put_string: "take_string cur (put_string s @ rest) = Some (rev cur @ s, rest)"
  by (induction s arbitrary: cur) auto

definition num_string :: "int \<Rightarrow> string" where
  "num_string n = (if 0 \<le> n then replicate (nat n) (CHR ''P'') else replicate (nat (- n)) (CHR ''M''))"

definition string_num :: "string \<Rightarrow> int" where
  "string_num s = (if s \<noteq> [] \<and> hd s = CHR ''M'' then - int (length s) else int (length s))"

lemma string_num_inverse [simp]: "string_num (num_string n) = n"
  by (auto simp: string_num_def num_string_def)

fun enc :: "Value \<Rightarrow> string" where
  "enc VNull = ''N''"
| "enc (VBool b) = (if b then ''T'' else ''F'')"
| "enc (VNum n) = CHR ''I'' # put_string (num_string n)"
| "enc (VReal s) = CHR ''R'' # put_string s"
| "enc (VStr s) = CHR ''S'' # put_string s"
| "enc (VArr vs) = CHR ''A'' # concat (map (\<lambda>v. CHR '','' # enc v) vs) @ '']''"
| "enc (VObj ms) = CHR ''O'' # concat (map (\<lambda>m. CHR '','' # put_string (fst m) @ enc (snd m)) ms) @ '']''"

fun dec :: "nat \<Rightarrow> string \<Rightarrow> (Value \<times> string) option"
  and decs :: "nat \<Rightarrow> string \<Rightarrow> (Value list \<times> string) option"
  and decm :: "nat \<Rightarrow> string \<Rightarrow> ((string \<times> Value) list \<times> string) option"
where
  "dec 0 s = None"
| "dec (Suc n) s =
     (case s of [] \<Rightarrow> None
      | t # r \<Rightarrow>
        if t = CHR ''N'' then Some (VNull, r)
        else if t = CHR ''T'' then Some (VBool True, r)
        else if t = CHR ''F'' then Some (VBool False, r)
        else if t = CHR ''I'' then map_option (\<lambda>(x, r). (VNum (string_num x), r)) (take_string [] r)
        else if t = CHR ''R'' then map_option (\<lambda>(x, r). (VReal x, r)) (take_string [] r)
        else if t = CHR ''S'' then map_option (\<lambda>(x, r). (VStr x, r)) (take_string [] r)
        else if t = CHR ''A'' then map_option (\<lambda>(x, r). (VArr x, r)) (decs n r)
        else if t = CHR ''O'' then map_option (\<lambda>(x, r). (VObj x, r)) (decm n r)
        else None)"
| "decs 0 s = None"
| "decs (Suc n) s =
     (case s of [] \<Rightarrow> None
      | t # r \<Rightarrow>
        if t = CHR '']'' then Some ([], r)
        else if t = CHR '','' then do { (v, r) \<leftarrow> dec n r; (vs, r) \<leftarrow> decs n r; Some (v # vs, r) }
        else None)"
| "decm 0 s = None"
| "decm (Suc n) s =
     (case s of [] \<Rightarrow> None
      | t # r \<Rightarrow>
        if t = CHR '']'' then Some ([], r)
        else if t = CHR '','' then do { (k, r) \<leftarrow> take_string [] r; (v, r) \<leftarrow> dec n r; (ms, r) \<leftarrow> decm n r; Some ((k, v) # ms, r) }
        else None)"

definition sample_to_string :: "Value \<Rightarrow> string" where
  "sample_to_string v = enc v"

definition sample_from_str :: "string \<Rightarrow> Value option" where
  "sample_from_str s = (case dec (length s) s of Some (v, []) \<Rightarrow> Some v | _ \<Rightarrow> None)"

lemma decs_enc:
  assumes "\<And>v n rest. v \<in> set vs \<Longrightarrow> length (enc v) \<le> n \<Longrightarrow> dec n (enc v @ rest) = Some (v, rest)"
  shows "length (concat (map (\<lambda>v. CHR '','' # enc v) vs)) < n \<Longrightarrow>
    decs n (concat (map (\<lambda>v. CHR '','' # enc v) vs) @ CHR '']'' # rest) = Some (vs, rest)"
  using assms
proof (induction vs arbitrary: n)
  case Nil
  then show ?case by (cases n) simp_all
next
  case (Cons v vs)
  then obtain n' where n: "n = Suc n'" by (cases n) auto
  have "dec n' (enc v @ x) = Some (v, x)" for x using Cons.prems n by simp
  moreover have "decs n' (concat (map (\<lambda>v. CHR '','' # enc v) vs) @ CHR '']'' # rest) = Some (vs, rest)"
    using Cons.prems n by (intro Cons.IH) auto
  ultimately show ?case by (simp add: n)
qed

lemma decm_enc:
  assumes "\<And>m n rest. m \<in> set ms \<Longrightarrow> length (enc (snd m)) \<le> n \<Longrightarrow> dec n (enc (snd m) @ rest) = Some (snd m, rest)"
  shows "length (concat (map (\<lambda>m. CHR '','' # put_string (fst m) @ enc (snd m)) ms)) < n \<Longrightarrow>
    decm n (concat (map (\<lambda>m. CHR '','' # put_string (fst m) @ enc (snd m)) ms) @ CHR '']'' # rest) = Some (ms, rest)"
  using assms
proof (induction ms arbitrary: n)
  case Nil
  then show ?case by (cases n) simp_all
next
  case (Cons m ms)
  then obtain n' where n: "n = Suc n'" by (cases n) auto
  have "dec n' (enc (snd m) @ x) = Some (snd m, x)" for x using Cons.prems n by simp
  moreover have "decm n' (concat (map (\<lambda>m. CHR '','' # put_string (fst m) @ enc (snd m)) ms) @ CHR '']'' # rest) = Some (ms, rest)"
    using Cons.prems n by (intro Cons.IH) auto
  ultimately show ?case by (simp add: n take_put_string)
qed

lemma dec_enc: "length (enc v) \<le> n \<Longrightarrow> dec n (enc v @ rest) = Some (v, rest)"
proof (induction v arbitrary: n rest)
  case (VArr vs)
  then obtain n' where n: "n = Suc n'" by (cases n) auto
  have "decs n' (concat (map (\<lambda>v. CHR '','' # enc v) vs) @ CHR '']'' # rest) = Some (vs, rest)"
    using VArr n by (intro decs_enc) auto
  then show ?case by (simp add: n)
next
  case (VObj ms)
  then obtain n' where n: "n = Suc n'" by (cases n) auto
  have "decm n' (concat (map (\<lambda>m. CHR '','' # put_string (fst m) @ enc (snd m)) ms) @ CHR '']'' # rest) = Some (ms, rest)"
    using VObj n by (intro decm_enc) (auto simp: snds.simps)
  then show ?case by (simp add: n)
next
  case VNull
  then show ?case by (cases n) simp_all
next
  case (VBool b)
  then show ?case by (cases n; cases b) simp_all
next
  case (VNum k)
  then show ?case by (cases n) (simp_all add: take_put_string)
next
  case (VReal s)
  then show ?case by (cases n) (simp_all add: take_put_string)
next
  case (VStr s)
  then show ?case by (cases n) (simp_all add: take_put_string)
qed

lemma enc_no_nl: "NL \<notin> set (enc v)"
  by (induction v) (auto simp: put_string_no_nl NL_def snds.simps dest: put_string_no_nl [unfolded NL_def, THEN notE])

lemma sample_value_ok: "value_ok sample_to_string sample_from_str"
proof -
  have parse: "sample_from_str (enc v) = Some v" for v
    using dec_enc [of v "length (enc v)" "[]"] by (simp add: sample_from_str_def)
  have head: "ws_head (enc (VObj ms)) = 0" for ms
    by (simp add: ws_head_ascii)
  have tail: "ws_last (enc (VObj ms)) = 0" for ms
    using ws_last_bracket [of "CHR ''O'' # concat (map (\<lambda>m. CHR '','' # put_string (fst m) @ enc (snd m)) ms)"] by simp
  have "enc (VObj ms) \<noteq> []" for ms by simp
  then show ?thesis unfolding value_ok_def sample_to_string_def using parse head tail enc_no_nl by blast
qed

end
