(* ===== verification/Attended.thy ===== *)
theory Attended
  imports Prelude
begin

text \<open>
  The pure core of attended delivery (\<open>crates/qrmux/src/attended/mod.rs\<close>): the journal of what a human
  has typed since the last submit, the lock that holds back typing while a message is put into the
  composer, the decision when a held message fires, and the verdict on a message found in the spool
  after a restart.
\<close>

subsection \<open>Configuration\<close>

record AttendedConfig =
  countdown_ceiling_ms :: int
  priority_ceiling_ms :: int
  quiet_window_ms :: int
  paste_threshold :: nat

definition default_attended_config :: AttendedConfig where
  "default_attended_config =
     \<lparr>countdown_ceiling_ms = 60000, priority_ceiling_ms = 10000, quiet_window_ms = 3000, paste_threshold = 8\<rparr>"

definition ceiling_for :: "AttendedConfig \<Rightarrow> bool \<Rightarrow> int" where
  "ceiling_for cfg priority =
     (if priority then min (priority_ceiling_ms cfg) (countdown_ceiling_ms cfg) else countdown_ceiling_ms cfg)"

subsection \<open>The journal\<close>

definition CR :: char where "CR = CHR 0x0D"

definition LF :: char where "LF = CHR 0x0A"

record Journal =
  draft :: string
  last_keystroke_ms :: "int option"

definition new_journal :: Journal where
  "new_journal = \<lparr>draft = [], last_keystroke_ms = None\<rparr>"

definition journal_byte :: "bool \<Rightarrow> char \<Rightarrow> string \<times> bool \<Rightarrow> string \<times> bool" where
  "journal_byte is_paste b = (\<lambda>(d, rolled).
     if b = CR then (if is_paste then (d @ [LF], rolled) else if d = [] then (d, rolled) else ([], True))
     else (d @ [b], rolled))"

definition on_human_input :: "string \<Rightarrow> int \<Rightarrow> nat \<Rightarrow> Journal \<Rightarrow> bool \<times> Journal" where
  "on_human_input bytes now threshold j =
     (case fold (journal_byte (threshold \<le> length bytes)) bytes (draft j, False) of
        (d, rolled) \<Rightarrow> (rolled, j\<lparr>draft := d, last_keystroke_ms := Some now\<rparr>))"

definition journal_is_empty :: "Journal \<Rightarrow> bool" where
  "journal_is_empty j \<longleftrightarrow> draft j = []"

definition quiet_satisfied :: "int option \<Rightarrow> int \<Rightarrow> int \<Rightarrow> bool" where
  "quiet_satisfied lastk now window = (case lastk of None \<Rightarrow> True | Some t \<Rightarrow> window \<le> now - t)"

subsection \<open>The input lock\<close>

record InputLock =
  locked :: bool
  buffer :: string

definition new_lock :: InputLock where
  "new_lock = \<lparr>locked = False, buffer = []\<rparr>"

datatype Admit = Passthrough string | Buffered

definition lock_input :: "InputLock \<Rightarrow> InputLock" where
  "lock_input l = l\<lparr>locked := True\<rparr>"

definition admit :: "string \<Rightarrow> InputLock \<Rightarrow> Admit \<times> InputLock" where
  "admit bytes l = (if locked l then (Buffered, l\<lparr>buffer := buffer l @ bytes\<rparr>) else (Passthrough bytes, l))"

definition unlock_and_drain :: "InputLock \<Rightarrow> string \<times> InputLock" where
  "unlock_and_drain l = (buffer l, l\<lparr>locked := False, buffer := []\<rparr>)"

subsection \<open>When a held message fires\<close>

datatype FireDecision = Immediate | Countdown int

definition evaluate :: "Journal \<Rightarrow> int \<Rightarrow> int \<Rightarrow> AttendedConfig \<Rightarrow> bool \<Rightarrow> FireDecision" where
  "evaluate j accepted_at now cfg priority =
     (let ceiling_deadline = accepted_at + ceiling_for cfg priority
      in if ceiling_deadline \<le> now then Immediate
         else if journal_is_empty j \<and> quiet_satisfied (last_keystroke_ms j) now (quiet_window_ms cfg) then Immediate
         else if quiet_satisfied (last_keystroke_ms j) now (quiet_window_ms cfg) then Immediate
         else let quiet_deadline = (case last_keystroke_ms j of None \<Rightarrow> now | Some t \<Rightarrow> t + quiet_window_ms cfg)
              in Countdown (min quiet_deadline ceiling_deadline))"

subsection \<open>After a restart\<close>

datatype FirePhase = PhAccepted | PhCountdown | FireStarted | FireCompleted

datatype LandingResult = Landed | Mismatched | Unconfirmed

datatype ReconcileVerdict =
    AlreadyTerminal | LateMessageSeen | LateMismatch | SeenFailedRecipientGone | PendingAbandonedUnknown | ResurfaceDraft

definition reconcile :: "FirePhase \<Rightarrow> LandingResult \<Rightarrow> bool \<Rightarrow> bool \<Rightarrow> ReconcileVerdict" where
  "reconcile phase landing session_alive already_terminal =
     (if already_terminal then AlreadyTerminal
      else case phase of
        PhAccepted \<Rightarrow> if session_alive then ResurfaceDraft else SeenFailedRecipientGone
      | PhCountdown \<Rightarrow> if session_alive then ResurfaceDraft else SeenFailedRecipientGone
      | FireCompleted \<Rightarrow> (case landing of Landed \<Rightarrow> LateMessageSeen | Mismatched \<Rightarrow> LateMismatch | Unconfirmed \<Rightarrow> PendingAbandonedUnknown)
      | FireStarted \<Rightarrow> (case landing of Landed \<Rightarrow> LateMessageSeen | Mismatched \<Rightarrow> LateMismatch | Unconfirmed \<Rightarrow> PendingAbandonedUnknown))"

subsection \<open>Laws\<close>

lemma evaluate_ceiling: "accepted_at + ceiling_for cfg priority \<le> now \<Longrightarrow> evaluate j accepted_at now cfg priority = Immediate"
  by (simp add: evaluate_def)

text \<open>
  A message is held exactly while somebody typed within the quiet window and the ceiling has not been
  reached, and then until the earlier of the two.
\<close>

lemma evaluate_Countdown:
  "evaluate j accepted_at now cfg priority = Countdown d \<longleftrightarrow>
     (\<exists>t. last_keystroke_ms j = Some t \<and> now < t + quiet_window_ms cfg \<and> now < accepted_at + ceiling_for cfg priority
        \<and> d = min (t + quiet_window_ms cfg) (accepted_at + ceiling_for cfg priority))"
  by (cases "last_keystroke_ms j") (auto simp: evaluate_def quiet_satisfied_def Let_def)

lemma evaluate_cases: "evaluate j accepted_at now cfg priority = Immediate \<or> (\<exists>d. evaluate j accepted_at now cfg priority = Countdown d)"
  by (cases "evaluate j accepted_at now cfg priority") auto

text \<open>If nothing more is typed, the message fires at its deadline.\<close>

lemma evaluate_at_deadline:
  assumes "evaluate j accepted_at now cfg priority = Countdown d" "d \<le> later"
  shows "evaluate j accepted_at later cfg priority = Immediate"
proof (rule ccontr)
  assume "evaluate j accepted_at later cfg priority \<noteq> Immediate"
  then obtain d' where "evaluate j accepted_at later cfg priority = Countdown d'" using evaluate_cases by blast
  then show False using assms unfolding evaluate_Countdown by auto
qed

lemma evaluate_deadline:
  "evaluate j accepted_at now cfg priority = Countdown d \<Longrightarrow> now < d \<and> d \<le> accepted_at + ceiling_for cfg priority"
  unfolding evaluate_Countdown by auto

lemma priority_ceiling: "ceiling_for cfg True \<le> ceiling_for cfg False"
  by (simp add: ceiling_for_def)

lemma reconcile_success: "reconcile phase landing alive already = LateMessageSeen \<Longrightarrow> landing = Landed \<and> phase \<in> {FireStarted, FireCompleted}"
  by (auto simp: reconcile_def split: if_splits FirePhase.splits LandingResult.splits)

lemma reconcile_failed: "reconcile phase landing alive already = SeenFailedRecipientGone \<Longrightarrow> phase \<in> {PhAccepted, PhCountdown} \<and> \<not> alive"
  by (auto simp: reconcile_def split: if_splits FirePhase.splits LandingResult.splits)

end
