(* ===== verification/Spool.thy ===== *)
theory Spool
  imports Json_Value Attended
begin

text \<open>
  The durable store of pending sends (\<open>crates/qrmux/src/attended/spool.rs\<close>): one file per send, written
  to a scratch name and renamed. A directory is the list of its files in the order in which it is
  enumerated. \<open>spool_io\<close> says where a write stops, by an error or by a crash of the process: it never
  leaves a part of a record under the name that is read.
\<close>

subsection \<open>Base 64\<close>

definition ALPHABET :: string where
  "ALPHABET = ''ABCDEFGHIJKLMNOPQRSTUVWXYZabcdefghijklmnopqrstuvwxyz0123456789+/''"

definition byte :: "char \<Rightarrow> nat" where "byte c = of_char c"

definition unbyte :: "nat \<Rightarrow> char" where "unbyte n = char_of (n mod 256)"

text \<open>The bits of the three bytes do not overlap, so the disjunctions are sums.\<close>

definition six :: "nat \<Rightarrow> nat \<Rightarrow> nat" where
  "six n shift = n div 2 ^ shift mod 64"

definition sextet :: "nat \<Rightarrow> nat \<Rightarrow> char" where
  "sextet n shift = ALPHABET ! six n shift"

fun b64_encode :: "string \<Rightarrow> string" where
  "b64_encode [] = []"
| "b64_encode [a] = (let n = byte a * 65536 in [sextet n 18, sextet n 12, CHR ''='', CHR ''=''])"
| "b64_encode [a, b] = (let n = byte a * 65536 + byte b * 256 in [sextet n 18, sextet n 12, sextet n 6, CHR ''=''])"
| "b64_encode (a # b # c # rest) =
     (let n = byte a * 65536 + byte b * 256 + byte c in [sextet n 18, sextet n 12, sextet n 6, sextet n 0]) @ b64_encode rest"

definition b64_val :: "char \<Rightarrow> nat option" where
  "b64_val c =
     (let k = byte c
      in if 65 \<le> k \<and> k \<le> 90 then Some (k - 65)
         else if 97 \<le> k \<and> k \<le> 122 then Some (k - 97 + 26)
         else if 48 \<le> k \<and> k \<le> 57 then Some (k - 48 + 52)
         else if c = CHR ''+'' then Some 62
         else if c = CHR ''/'' then Some 63
         else None)"

definition b64_pad_val :: "char \<Rightarrow> nat option" where
  "b64_pad_val c = (if c = CHR ''='' then Some 0 else b64_val c)"

fun b64_decode :: "string \<Rightarrow> string option" where
  "b64_decode [] = Some []"
| "b64_decode (c0 # c1 # c2 # c3 # rest) = do {
     let pad = length (filter (\<lambda>c. c = CHR ''='') [c0, c1, c2, c3]);
     v0 \<leftarrow> b64_val c0; v1 \<leftarrow> b64_val c1; v2 \<leftarrow> b64_pad_val c2; v3 \<leftarrow> b64_pad_val c3;
     let n = v0 * 262144 + v1 * 4096 + v2 * 64 + v3;
     tail \<leftarrow> b64_decode rest;
     Some ([unbyte (n div 65536)] @ (if pad < 2 then [unbyte (n div 256)] else []) @ (if pad < 1 then [unbyte n] else []) @ tail)
   }"
| "b64_decode _ = None"

lemma byte_lt: "byte c < 256"
  by (simp add: byte_def)

lemma unbyte_byte: "k mod 256 = byte c \<Longrightarrow> unbyte k = c"
  by (simp add: unbyte_def byte_def)

lemma alphabet_vals: "map b64_val ALPHABET = map Some [0..<64]"
  by (simp add: ALPHABET_def b64_val_def byte_def upt_rec)

lemma alphabet_no_pad: "CHR ''='' \<notin> set ALPHABET"
  by (simp add: ALPHABET_def)

lemma six_lt: "six n s < 64"
  by (simp add: six_def)

lemma b64_val_sextet [simp]: "b64_val (sextet n s) = Some (six n s)" "sextet n s \<noteq> CHR ''=''"
proof -
  have len: "length ALPHABET = 64" using arg_cong [OF alphabet_vals, of length] by simp
  have "map b64_val ALPHABET ! six n s = Some (six n s)" using six_lt [of n s] by (simp add: alphabet_vals)
  then show "b64_val (sextet n s) = Some (six n s)" using six_lt [of n s] len by (simp add: sextet_def)
  have "sextet n s \<in> set ALPHABET" using six_lt [of n s] len by (simp add: sextet_def)
  then show "sextet n s \<noteq> CHR ''=''" using alphabet_no_pad by metis
qed

lemma b64_pad_sextet [simp]: "b64_pad_val (sextet n s) = Some (six n s)" "b64_pad_val (CHR ''='') = Some 0"
  by (simp_all add: b64_pad_val_def)

lemma six_sum:
  assumes "n < 16777216"
  shows "six n 18 * 262144 + six n 12 * 4096 + six n 6 * 64 + six n 0 = n"
proof -
  have a: "n div 64 = n div 64 div 64 * 64 + n div 64 mod 64" and b: "n = n div 64 * 64 + n mod 64"
    and c: "n div 64 div 64 = n div 64 div 64 div 64 * 64 + n div 64 div 64 mod 64" by simp_all
  have d: "n div 64 div 64 div 64 mod 64 = n div 64 div 64 div 64"
    using assms by (simp add: div_mult2_eq [symmetric] less_mult_imp_div_less)
  have p: "six n 18 = n div 64 div 64 div 64" "six n 12 = n div 64 div 64 mod 64" "six n 6 = n div 64 mod 64" "six n 0 = n mod 64"
    using d by (simp_all add: six_def div_mult2_eq [symmetric])
  show ?thesis unfolding p using a b c by linarith
qed

lemma six_low: "six (k * 65536) 6 = 0" "six (k * 65536) 0 = 0" "six (k * 65536 + j * 256) 0 = 0"
proof -
  have *: "(x * 64) mod 64 = (0 :: nat)" for x by simp
  have "k * 65536 div 64 = k * 16 * 64" by simp
  then show "six (k * 65536) 6 = 0" by (simp only: six_def power_numeral) (simp add: *)
  show "six (k * 65536) 0 = 0" using * [of "k * 1024"] by (simp add: six_def)
  show "six (k * 65536 + j * 256) 0 = 0" using * [of "k * 1024 + j * 4"] by (simp add: six_def)
qed

lemma bytes_of:
  assumes "n = byte a * 65536 + byte b * 256 + byte c"
  shows "n < 16777216" "unbyte (n div 65536) = a" "unbyte (n div 256) = b" "unbyte n = c"
proof -
  have lt: "byte a < 256" "byte b < 256" "byte c < 256" by (rule byte_lt)+
  show "n < 16777216" using assms lt by linarith
  have split: "(y + 256 * x) mod 256 = y \<and> (y + 256 * x) div 256 = x" if "y < 256" for x y :: nat
    using that by (simp only: mod_mult_self2 div_mult_self2 mod_less div_less zero_neq_numeral) simp
  have n: "n = byte c + 256 * (byte b + 256 * byte a)" using assms by simp
  have 1: "n mod 256 = byte c" and 2: "n div 256 = byte b + 256 * byte a" unfolding n using split [OF lt(3)] by blast+
  have "n div 65536 = n div 256 div 256" by (simp add: div_mult2_eq [symmetric])
  then have 3: "n div 65536 = byte a" unfolding 2 using split [OF lt(2)] by simp
  show "unbyte n = c" using 1 by (rule unbyte_byte)
  show "unbyte (n div 256) = b" unfolding 2 using split [OF lt(2)] by (intro unbyte_byte) blast
  show "unbyte (n div 65536) = a" using 3 lt by (intro unbyte_byte) simp
qed

lemma b64_round_trip: "b64_decode (b64_encode bs) = Some bs"
proof (induction bs rule: b64_encode.induct)
  case (2 a)
  have n: "byte a * 65536 = byte a * 65536 + byte (CHR 0x00) * 256 + byte (CHR 0x00)" by (simp add: byte_def)
  have "six (byte a * 65536) 18 * 262144 + six (byte a * 65536) 12 * 4096 = byte a * 65536"
    using six_sum [OF bytes_of(1) [OF n]] by (simp add: six_low)
  then show ?case using bytes_of(2) [OF n] by (simp add: Let_def)
next
  case (3 a b)
  have n: "byte a * 65536 + byte b * 256 = byte a * 65536 + byte b * 256 + byte (CHR 0x00)" by (simp add: byte_def)
  let ?n = "byte a * 65536 + byte b * 256"
  have "six ?n 18 * 262144 + six ?n 12 * 4096 + six ?n 6 * 64 = ?n"
    using six_sum [OF bytes_of(1) [OF n]] by (simp add: six_low)
  then show ?case using bytes_of(2,3) [OF n] by (simp add: Let_def)
next
  case (4 a b c rest)
  let ?n = "byte a * 65536 + byte b * 256 + byte c"
  have "six ?n 18 * 262144 + six ?n 12 * 4096 + six ?n 6 * 64 + six ?n 0 = ?n"
    by (rule six_sum [OF bytes_of(1) [OF refl]])
  then show ?case using bytes_of(2-4) [OF refl, of a b c] 4 by (simp add: Let_def)
qed simp

subsection \<open>Records\<close>

record PendingRecord =
  send_id :: string
  content_sha256 :: string
  content_len :: nat
  session :: "string option"
  pr_name :: "string option"
  verb :: string
  transcript :: "string option"
  transcript_offset :: "nat option"
  priority :: bool
  accepted_at_ms :: int
  phase :: FirePhase
  pr_draft :: string
  fire_started :: bool
  fire_completed :: bool

definition accepted_record ::
  "string \<Rightarrow> string \<Rightarrow> nat \<Rightarrow> string option \<Rightarrow> string option \<Rightarrow> string \<Rightarrow> bool \<Rightarrow> int \<Rightarrow> PendingRecord"
where
  "accepted_record i sha len sess nm vb prio at =
     \<lparr>send_id = i, content_sha256 = sha, content_len = len, session = sess, pr_name = nm, verb = vb,
      transcript = None, transcript_offset = None, priority = prio, accepted_at_ms = at,
      phase = PhAccepted, pr_draft = [], fire_started = False, fire_completed = False\<rparr>"

fun phase_str :: "FirePhase \<Rightarrow> string" where
  "phase_str PhAccepted = ''Accepted''"
| "phase_str PhCountdown = ''Countdown''"
| "phase_str FireStarted = ''FireStarted''"
| "phase_str FireCompleted = ''FireCompleted''"

definition opt_value :: "('a \<Rightarrow> Value) \<Rightarrow> 'a option \<Rightarrow> Value" where
  "opt_value f v = (case v of None \<Rightarrow> VNull | Some x \<Rightarrow> f x)"

definition record_members :: "PendingRecord \<Rightarrow> (string \<times> Value) list" where
  "record_members r =
     [(''send_id'', VStr (send_id r)), (''content_sha256'', VStr (content_sha256 r)), (''content_len'', VNum (int (content_len r))),
      (''session'', opt_value VStr (session r)), (''name'', opt_value VStr (pr_name r)), (''verb'', VStr (verb r)),
      (''transcript'', opt_value VStr (transcript r)), (''transcript_offset'', opt_value (\<lambda>n. VNum (int n)) (transcript_offset r)),
      (''priority'', VBool (priority r)), (''accepted_at_ms'', VNum (accepted_at_ms r)), (''phase'', VStr (phase_str (phase r))),
      (''draft'', VStr (b64_encode (pr_draft r))), (''fire_started'', VBool (fire_started r)), (''fire_completed'', VBool (fire_completed r))]"

text \<open>Reading a member: it must occur once; an optional one may be missing or \<open>null\<close>.\<close>

definition once :: "string \<Rightarrow> (string \<times> Value) list \<Rightarrow> Value option option" where
  "once k ms = (case filter (\<lambda>m. fst m = k) ms of [] \<Rightarrow> Some None | [m] \<Rightarrow> Some (Some (snd m)) | _ \<Rightarrow> None)"

definition need :: "string \<Rightarrow> (Value \<Rightarrow> 'a option) \<Rightarrow> (string \<times> Value) list \<Rightarrow> 'a option" where
  "need k f ms = do { v \<leftarrow> once k ms; x \<leftarrow> v; f x }"

definition maybe :: "string \<Rightarrow> (Value \<Rightarrow> 'a option) \<Rightarrow> (string \<times> Value) list \<Rightarrow> 'a option option" where
  "maybe k f ms = do {
     v \<leftarrow> once k ms;
     case v of None \<Rightarrow> Some None | Some VNull \<Rightarrow> Some None | Some x \<Rightarrow> map_option Some (f x)
   }"

fun val_u64 :: "Value \<Rightarrow> nat option" where
  "val_u64 (VNum n) = (if 0 \<le> n \<and> n < 2 ^ 64 then Some (nat n) else None)"
| "val_u64 _ = None"

fun val_i64 :: "Value \<Rightarrow> int option" where
  "val_i64 (VNum n) = (if - (2 ^ 63) \<le> n \<and> n < 2 ^ 63 then Some n else None)"
| "val_i64 _ = None"

fun val_bool :: "Value \<Rightarrow> bool option" where
  "val_bool (VBool b) = Some b"
| "val_bool _ = None"

text \<open>The derived reader of an enum without payloads takes the name, or an object that maps the name to \<open>null\<close>.\<close>

definition phase_of_str :: "string \<Rightarrow> FirePhase option" where
  "phase_of_str s = find (\<lambda>p. phase_str p = s) [PhAccepted, PhCountdown, FireStarted, FireCompleted]"

fun val_phase :: "Value \<Rightarrow> FirePhase option" where
  "val_phase (VStr s) = phase_of_str s"
| "val_phase (VObj [(s, VNull)]) = phase_of_str s"
| "val_phase _ = None"

text \<open>The fields of a record: from an object by name, and from an array by position.\<close>

definition record_fields :: "string list" where
  "record_fields = [''send_id'', ''content_sha256'', ''content_len'', ''session'', ''name'', ''verb'', ''transcript'',
     ''transcript_offset'', ''priority'', ''accepted_at_ms'', ''phase'', ''draft'', ''fire_started'', ''fire_completed'']"

definition read_fields :: "(string \<times> Value) list \<Rightarrow> PendingRecord option" where
  "read_fields ms = do {
     i \<leftarrow> need ''send_id'' val_str ms;
     sha \<leftarrow> need ''content_sha256'' val_str ms;
     len \<leftarrow> need ''content_len'' val_u64 ms;
     sess \<leftarrow> maybe ''session'' val_str ms;
     nm \<leftarrow> maybe ''name'' val_str ms;
     vb \<leftarrow> need ''verb'' val_str ms;
     tr \<leftarrow> maybe ''transcript'' val_str ms;
     off \<leftarrow> maybe ''transcript_offset'' val_u64 ms;
     prio \<leftarrow> need ''priority'' val_bool ms;
     at \<leftarrow> need ''accepted_at_ms'' val_i64 ms;
     ph \<leftarrow> need ''phase'' val_phase ms;
     dr \<leftarrow> need ''draft'' (\<lambda>v. val_str v \<bind> b64_decode) ms;
     fs \<leftarrow> need ''fire_started'' val_bool ms;
     fc \<leftarrow> need ''fire_completed'' val_bool ms;
     Some \<lparr>send_id = i, content_sha256 = sha, content_len = len, session = sess, pr_name = nm, verb = vb,
           transcript = tr, transcript_offset = off, priority = prio, accepted_at_ms = at,
           phase = ph, pr_draft = dr, fire_started = fs, fire_completed = fc\<rparr>
   }"

fun read_record :: "Value \<Rightarrow> PendingRecord option" where
  "read_record (VObj ms) = read_fields ms"
| "read_record (VArr vs) = (if length vs = length record_fields then read_fields (zip record_fields vs) else None)"
| "read_record _ = None"

text \<open>The integers of a record fit their Rust types.\<close>

definition record_wf :: "PendingRecord \<Rightarrow> bool" where
  "record_wf r \<longleftrightarrow> content_len r < 2 ^ 64 \<and> (case transcript_offset r of None \<Rightarrow> True | Some n \<Rightarrow> n < 2 ^ 64)
     \<and> - (2 ^ 63) \<le> accepted_at_ms r \<and> accepted_at_ms r < 2 ^ 63"

subsection \<open>The directory\<close>

type_synonym dir = "(string \<times> string) list"

definition put_file :: "string \<Rightarrow> string \<Rightarrow> dir \<Rightarrow> dir" where
  "put_file name bytes d =
     (if name \<in> set (map fst d) then map (\<lambda>f. if fst f = name then (name, bytes) else f) d else d @ [(name, bytes)])"

definition del_file :: "string \<Rightarrow> dir \<Rightarrow> dir" where
  "del_file name d = filter (\<lambda>f. fst f \<noteq> name) d"

definition record_path :: "string \<Rightarrow> string" where
  "record_path i = i @ ''.json''"

definition tmp_path :: "string \<Rightarrow> string" where
  "tmp_path i = ''.'' @ i @ ''.json.tmp''"

datatype spool_io = SpoolOk | CreateStops | BodyStops nat | RenameStops

definition spool_write :: "(Value \<Rightarrow> string) \<Rightarrow> spool_io \<Rightarrow> PendingRecord \<Rightarrow> dir \<Rightarrow> bool \<times> dir" where
  "spool_write to_string io r d =
     (let body = to_string (VObj (record_members r)); tmp = tmp_path (send_id r)
      in case io of
           CreateStops \<Rightarrow> (False, d)
         | BodyStops k \<Rightarrow> (False, put_file tmp (take k body) d)
         | RenameStops \<Rightarrow> (False, put_file tmp body d)
         | SpoolOk \<Rightarrow> (True, put_file (record_path (send_id r)) body (del_file tmp (put_file tmp body d))))"

text \<open>\<open>readable\<close> says which files can be read.\<close>

definition spool_load :: "(string \<Rightarrow> Value option) \<Rightarrow> (string \<Rightarrow> bool) \<Rightarrow> string \<Rightarrow> dir \<Rightarrow> unit + PendingRecord option" where
  "spool_load from_str readable i d =
     (case map_of d (record_path i) of
        None \<Rightarrow> Inr None
      | Some bytes \<Rightarrow>
          if readable (record_path i)
          then (case from_str bytes \<bind> read_record of None \<Rightarrow> Inl () | Some r \<Rightarrow> Inr (Some r))
          else Inl ())"

definition extension :: "string \<Rightarrow> string option" where
  "extension name = (case rsplit_once (CHR ''.'') name of Some (stem, ext) \<Rightarrow> if stem = [] then None else Some ext | None \<Rightarrow> None)"

definition authoritative :: "string \<Rightarrow> bool" where
  "authoritative name \<longleftrightarrow> extension name = Some ''json'' \<and> \<not> starts_with name ''.''"

definition spool_load_all :: "(string \<Rightarrow> Value option) \<Rightarrow> (string \<Rightarrow> bool) \<Rightarrow> dir \<Rightarrow> PendingRecord list" where
  "spool_load_all from_str readable d =
     List.map_filter (\<lambda>(name, bytes). if authoritative name \<and> readable name then from_str bytes \<bind> read_record else None) d"

definition spool_remove :: "string \<Rightarrow> dir \<Rightarrow> dir" where
  "spool_remove i d = del_file (record_path i) d"

subsection \<open>A record reads back\<close>

lemma phase_of_str [simp]: "phase_of_str (phase_str p) = Some p"
  by (cases p) (simp_all add: phase_of_str_def)

lemma record_wf_members: "wf_value (VObj (record_members r))"
  by (simp add: record_members_def opt_value_def split: option.split)

lemma maybe_str: "maybe k val_str ms = Some v" if "once k ms = Some (Some (opt_value VStr v))"
  using that by (cases v) (simp_all add: maybe_def opt_value_def)

lemma maybe_num: "maybe k val_u64 ms = Some v"
  if "once k ms = Some (Some (opt_value (\<lambda>n. VNum (int n)) v))" "\<forall>n. v = Some n \<longrightarrow> n < 2 ^ 64"
  using that by (cases v) (simp_all add: maybe_def opt_value_def)

lemma once_members:
  "once ''send_id'' (record_members r) = Some (Some (VStr (send_id r)))"
  "once ''content_sha256'' (record_members r) = Some (Some (VStr (content_sha256 r)))"
  "once ''content_len'' (record_members r) = Some (Some (VNum (int (content_len r))))"
  "once ''session'' (record_members r) = Some (Some (opt_value VStr (session r)))"
  "once ''name'' (record_members r) = Some (Some (opt_value VStr (pr_name r)))"
  "once ''verb'' (record_members r) = Some (Some (VStr (verb r)))"
  "once ''transcript'' (record_members r) = Some (Some (opt_value VStr (transcript r)))"
  "once ''transcript_offset'' (record_members r) = Some (Some (opt_value (\<lambda>n. VNum (int n)) (transcript_offset r)))"
  "once ''priority'' (record_members r) = Some (Some (VBool (priority r)))"
  "once ''accepted_at_ms'' (record_members r) = Some (Some (VNum (accepted_at_ms r)))"
  "once ''phase'' (record_members r) = Some (Some (VStr (phase_str (phase r))))"
  "once ''draft'' (record_members r) = Some (Some (VStr (b64_encode (pr_draft r))))"
  "once ''fire_started'' (record_members r) = Some (Some (VBool (fire_started r)))"
  "once ''fire_completed'' (record_members r) = Some (Some (VBool (fire_completed r)))"
  by (simp_all add: once_def record_members_def)

lemma read_record_members:
  assumes "record_wf r"
  shows "read_record (VObj (record_members r)) = Some r"
proof -
  have len: "int (content_len r) < 2 ^ 64" using assms by (simp add: record_wf_def)
  have off: "\<forall>n. transcript_offset r = Some n \<longrightarrow> n < 2 ^ 64" using assms by (auto simp: record_wf_def)
  have at: "- (2 ^ 63) \<le> accepted_at_ms r" "accepted_at_ms r < 2 ^ 63" using assms by (simp_all add: record_wf_def)
  show ?thesis
    unfolding read_record.simps read_fields_def maybe_str [OF once_members(4)] maybe_str [OF once_members(5)] maybe_str [OF once_members(7)]
      maybe_num [OF once_members(8) off]
    using len at by (simp add: need_def once_members b64_round_trip)
qed

subsection \<open>Writes are atomic\<close>

text \<open>What the directory means: the record of each send.\<close>

definition spooled :: "(string \<Rightarrow> Value option) \<Rightarrow> dir \<Rightarrow> string \<rightharpoonup> PendingRecord" where
  "spooled from_str d i = map_of d (record_path i) \<bind> (\<lambda>bytes. from_str bytes \<bind> read_record)"

lemma map_of_put_file: "map_of (put_file name bytes d) = (map_of d)(name \<mapsto> bytes)"
proof
  fix x
  have map: "map_of (map (\<lambda>f. if fst f = name then (name, bytes) else f) d) x = (if x = name \<and> map_of d name \<noteq> None then Some bytes else map_of d x)"
    by (induction d) auto
  have mem: "name \<in> set (map fst d) \<longleftrightarrow> map_of d name \<noteq> None" by (simp add: map_of_eq_None_iff)
  show "map_of (put_file name bytes d) x = ((map_of d)(name \<mapsto> bytes)) x"
    unfolding put_file_def mem using map by (auto simp: map_add_def split: option.split if_splits)
qed

lemma map_of_del_file: "map_of (del_file name d) x = (if x = name then None else map_of d x)"
  by (induction d) (auto simp: del_file_def)

lemma last_paths: "last (record_path i) = CHR ''n''" "last (tmp_path i) = CHR ''p''"
  by (simp_all add: record_path_def tmp_path_def)

lemma record_path_not_tmp [simp]: "record_path i \<noteq> tmp_path j" "tmp_path j \<noteq> record_path i"
proof -
  have "CHR ''n'' \<noteq> CHR ''p''" by simp
  then show "record_path i \<noteq> tmp_path j" "tmp_path j \<noteq> record_path i" using last_paths by metis+
qed

lemma record_path_inj [simp]: "record_path i = record_path j \<longleftrightarrow> i = j"
  by (simp add: record_path_def)

lemma spooled_write:
  assumes "value_ok to_string from_str" "record_wf r"
  shows "spooled from_str (snd (spool_write to_string io r d))
    = (if fst (spool_write to_string io r d) then (spooled from_str d)(send_id r \<mapsto> r) else spooled from_str d)"
proof -
  let ?b = "to_string (VObj (record_members r))"
  have "from_str ?b = Some (VObj (record_members r))"
    using assms(1) record_wf_members [of r] unfolding value_ok_def by blast
  then have b: "from_str ?b \<bind> read_record = Some r" by (simp add: read_record_members [OF assms(2)] del: read_record.simps)
  show ?thesis
    by (cases io) (auto simp: spool_write_def Let_def spooled_def fun_eq_iff map_of_put_file map_of_del_file b)
qed

lemma spooled_remove: "spooled from_str (spool_remove i d) = (spooled from_str d)(i := None)"
  by (auto simp: spooled_def spool_remove_def map_of_del_file fun_eq_iff)

lemma spooled_removed:
  assumes "r \<in> set rs"
  shows "spooled from_str (fold (\<lambda>r. spool_remove (send_id r)) rs d) (send_id r) = None"
proof -
  have keep: "spooled from_str d i = None \<Longrightarrow> spooled from_str (fold (\<lambda>r. spool_remove (send_id r)) rs d) i = None" for d i rs
    by (induction rs arbitrary: d) (simp_all add: spooled_remove)
  from assms show ?thesis by (induction rs arbitrary: d) (auto simp: keep spooled_remove)
qed

lemma spool_load_spooled:
  assumes "readable (record_path i)" "spooled from_str d i = Some r"
  shows "spool_load from_str readable i d = Inr (Some r)"
  using assms by (auto simp: spool_load_def spooled_def bind_eq_Some_conv)

end
