(* ===== verification/Delivery_Events.thy ===== *)
theory Delivery_Events
  imports Json_Value Time_Format
begin

text \<open>
  The shared vocabulary of delivery events (\<open>crates/quorum-delivery-events/src/lib.rs\<close>), the
  multiplexer's writer of terminal records (\<open>crates/qrmux/src/attended/emitter.rs\<close>) and the scan of a
  ledger for a terminal (\<open>sweep.rs\<close>). An object is built by inserting keys in the order of the wire;
  no key is inserted twice, so the object is the list of its members. The digest is a parameter.
\<close>

definition TERMINAL_EVENTS :: "string list" where
  "TERMINAL_EVENTS =
     [''turn-anchored'', ''turn-anchored-mismatch'', ''anchor-timeout'', ''pending-abandoned'', ''message-seen'', ''seen-failed'', ''send-failed'']"

definition is_terminal :: "string \<Rightarrow> bool" where
  "is_terminal event \<longleftrightarrow> event \<in> set TERMINAL_EVENTS"

definition is_success_terminal :: "string \<Rightarrow> bool" where
  "is_success_terminal event \<longleftrightarrow> event = ''message-seen''"

definition CHUNK_SHA_CAP :: nat where "CHUNK_SHA_CAP = 48"

record EventEnvelope =
  ee_v :: nat
  ee_ts :: string
  ee_pid :: nat
  ee_seq :: nat
  ee_session :: "string option"
  ee_name :: "string option"
  ee_start_ms :: "int option"

record Anchor =
  an_transcript :: string
  an_start_offset :: nat
  an_line_index :: nat

datatype Payload =
    SendInitiated string string string string nat nat "string list" bool "string option" "nat option" "string option"
  | ChunksDelivered string nat string
  | TurnAnchored string string Anchor bool "string option"
  | TurnAnchoredMismatch string string string nat nat bool "string option"
  | AnchorTimeout string nat
  | PendingAbandoned string string "bool option" "string option"
  | ComposerCleared string
  | PrimingReadinessTimeout nat string
  | StatusTransition string string
  | EventsTruncated
  | RelayDelivered string string
  | TurnAccepted string string
  | MessageSeen string string
  | SeenFailed string string
  | SendFailed "string option" string string
  | RungEntered string string
  | RungSucceeded string string
  | RungTimeout string string nat
  | RecoveryCrit string nat

fun event_name :: "Payload \<Rightarrow> string" where
  "event_name (SendInitiated _ _ _ _ _ _ _ _ _ _ _) = ''send-initiated''"
| "event_name (ChunksDelivered _ _ _) = ''chunks-delivered''"
| "event_name (TurnAnchored _ _ _ _ _) = ''turn-anchored''"
| "event_name (TurnAnchoredMismatch _ _ _ _ _ _ _) = ''turn-anchored-mismatch''"
| "event_name (AnchorTimeout _ _) = ''anchor-timeout''"
| "event_name (PendingAbandoned _ _ _ _) = ''pending-abandoned''"
| "event_name (ComposerCleared _) = ''composer-cleared''"
| "event_name (PrimingReadinessTimeout _ _) = ''priming-readiness-timeout''"
| "event_name (StatusTransition _ _) = ''status-transition''"
| "event_name EventsTruncated = ''events-truncated''"
| "event_name (RelayDelivered _ _) = ''relay-delivered''"
| "event_name (TurnAccepted _ _) = ''turn-accepted''"
| "event_name (MessageSeen _ _) = ''message-seen''"
| "event_name (SeenFailed _ _) = ''seen-failed''"
| "event_name (SendFailed _ _ _) = ''send-failed''"
| "event_name (RungEntered _ _) = ''rung-entered''"
| "event_name (RungSucceeded _ _) = ''rung-succeeded''"
| "event_name (RungTimeout _ _ _) = ''rung-timeout''"
| "event_name (RecoveryCrit _ _) = ''recovery-crit''"

definition is_terminal_class :: "Payload \<Rightarrow> bool" where
  "is_terminal_class p \<longleftrightarrow> is_terminal (event_name p) \<or> (case p of PrimingReadinessTimeout _ _ \<Rightarrow> True | EventsTruncated \<Rightarrow> True | _ \<Rightarrow> False)"

definition insert_opt_str :: "string \<Rightarrow> string option \<Rightarrow> (string \<times> Value) list" where
  "insert_opt_str key v = (case v of None \<Rightarrow> [] | Some s \<Rightarrow> if s = [] then [] else [(key, VStr s)])"

definition anchor_value :: "Anchor \<Rightarrow> Value" where
  "anchor_value a =
     VObj [(''transcript'', VStr (an_transcript a)), (''start_offset'', VNum (int (an_start_offset a))), (''line_index'', VNum (int (an_line_index a)))]"

definition flag :: "string \<Rightarrow> bool \<Rightarrow> (string \<times> Value) list" where
  "flag key b = (if b then [(key, VBool True)] else [])"

fun insert_fields :: "Payload \<Rightarrow> nat \<Rightarrow> (string \<times> Value) list" where
  "insert_fields (SendInitiated send_id verb send_path sha len chunks shas capped transcript offset preview) sha_cap =
     (let kept = min (length shas) sha_cap
      in [(''send_id'', VStr send_id), (''verb'', VStr verb), (''send_path'', VStr send_path), (''content_sha256'', VStr sha),
          (''content_len'', VNum (int len)), (''chunks'', VNum (int chunks)), (''chunk_sha256s'', VArr (map VStr (take kept shas)))]
         @ flag ''chunk_sha256s_capped'' (capped \<or> kept < length shas)
         @ insert_opt_str ''transcript'' transcript
         @ (case offset of None \<Rightarrow> [] | Some n \<Rightarrow> [(''transcript_offset'', VNum (int n))])
         @ insert_opt_str ''content_preview'' preview)"
| "insert_fields (ChunksDelivered send_id acked src) _ =
     [(''send_id'', VStr send_id), (''chunks_acked'', VNum (int acked)), (''ack_source'', VStr src)]"
| "insert_fields (TurnAnchored send_id sha anchor recovered attribution) _ =
     [(''send_id'', VStr send_id), (''content_sha256'', VStr sha), (''anchor'', anchor_value anchor)]
     @ flag ''recovered'' recovered @ insert_opt_str ''attribution'' attribution"
| "insert_fields (TurnAnchoredMismatch send_id esha asha elen alen recovered attribution) _ =
     [(''send_id'', VStr send_id), (''expected_sha'', VStr esha), (''actual_sha'', VStr asha),
      (''expected_len'', VNum (int elen)), (''actual_len'', VNum (int alen))]
     @ flag ''recovered'' recovered @ insert_opt_str ''attribution'' attribution"
| "insert_fields (AnchorTimeout send_id waited) _ = [(''send_id'', VStr send_id), (''waited_ms'', VNum (int waited))]"
| "insert_fields (PendingAbandoned send_id reason recovered attribution) _ =
     [(''send_id'', VStr send_id), (''reason'', VStr reason)]
     @ flag ''recovered'' (recovered = Some True) @ insert_opt_str ''attribution'' attribution"
| "insert_fields (ComposerCleared send_id) _ = [(''send_id'', VStr send_id)]"
| "insert_fields (PrimingReadinessTimeout waited phase) _ = [(''waited_ms'', VNum (int waited)), (''phase'', VStr phase)]"
| "insert_fields (StatusTransition status source) _ = [(''status'', VStr status), (''source'', VStr source)]"
| "insert_fields EventsTruncated _ = []"
| "insert_fields (RelayDelivered send_id sha) _ = [(''send_id'', VStr send_id), (''content_sha256'', VStr sha)]"
| "insert_fields (TurnAccepted send_id sha) _ = [(''send_id'', VStr send_id), (''content_sha256'', VStr sha)]"
| "insert_fields (MessageSeen send_id sha) _ = [(''send_id'', VStr send_id), (''content_sha256'', VStr sha)]"
| "insert_fields (SeenFailed send_id reason) _ = [(''send_id'', VStr send_id), (''reason'', VStr reason)]"
| "insert_fields (SendFailed send_id sha reason) _ =
     insert_opt_str ''send_id'' send_id @ [(''content_sha256'', VStr sha), (''reason'', VStr reason)]"
| "insert_fields (RungEntered sid rung) _ = [(''session_id'', VStr sid), (''rung'', VStr rung)]"
| "insert_fields (RungSucceeded sid rung) _ = [(''session_id'', VStr sid), (''rung'', VStr rung)]"
| "insert_fields (RungTimeout sid rung waited) _ =
     [(''session_id'', VStr sid), (''rung'', VStr rung), (''waited_ms'', VNum (int waited))]"
| "insert_fields (RecoveryCrit sid fails) _ = [(''session_id'', VStr sid), (''consecutive_failures'', VNum (int fails))]"

definition envelope_fields :: "EventEnvelope \<Rightarrow> (string \<times> Value) list" where
  "envelope_fields env =
     [(''v'', VNum (int (ee_v env))), (''ts'', VStr (ee_ts env)), (''pid'', VNum (int (ee_pid env))), (''seq'', VNum (int (ee_seq env)))]
     @ (case ee_start_ms env of None \<Rightarrow> [] | Some sm \<Rightarrow> [(''start_ms'', VNum sm)])
     @ insert_opt_str ''session'' (ee_session env) @ insert_opt_str ''name'' (ee_name env)"

definition record_object :: "EventEnvelope \<Rightarrow> Payload \<Rightarrow> nat \<Rightarrow> Value" where
  "record_object env payload sha_cap =
     VObj (envelope_fields env @ [(''event'', VStr (event_name payload))] @ insert_fields payload sha_cap)"

definition build_record_line :: "(Value \<Rightarrow> string) \<Rightarrow> EventEnvelope \<Rightarrow> Payload \<Rightarrow> nat \<Rightarrow> string" where
  "build_record_line to_string env payload sha_cap = to_string (record_object env payload sha_cap)"

subsection \<open>The multiplexer's writer\<close>

record MuxEmitter =
  em_session :: "string option"
  em_name :: "string option"
  em_seq :: nat
  em_start_ms :: "int option"

definition mux_emitter_new :: "string option \<Rightarrow> string option \<Rightarrow> int option \<Rightarrow> MuxEmitter" where
  "mux_emitter_new session name start_ms = \<lparr>em_session = session, em_name = name, em_seq = 0, em_start_ms = start_ms\<rparr>"

definition mux_envelope :: "nat \<Rightarrow> int \<Rightarrow> MuxEmitter \<Rightarrow> EventEnvelope \<times> MuxEmitter" where
  "mux_envelope pid now em =
     (\<lparr>ee_v = 1, ee_ts = epoch_ms_to_iso now, ee_pid = pid, ee_seq = em_seq em,
       ee_session = em_session em, ee_name = em_name em, ee_start_ms = em_start_ms em\<rparr>, em\<lparr>em_seq := em_seq em + 1\<rparr>)"

definition build_line :: "(Value \<Rightarrow> string) \<Rightarrow> EventEnvelope \<Rightarrow> Payload \<Rightarrow> string" where
  "build_line to_string env payload = build_record_line to_string env payload CHUNK_SHA_CAP"

text \<open>An append that fails may have written some of the bytes.\<close>

definition append_record :: "append_io \<Rightarrow> string \<Rightarrow> string \<Rightarrow> bool \<times> string" where
  "append_record io line file =
     (case io of AppendOk \<Rightarrow> (True, file @ line @ [NL]) | AppendError k \<Rightarrow> (False, file @ take k (line @ [NL])))"

definition mux_emit :: "(Value \<Rightarrow> string) \<Rightarrow> nat \<Rightarrow> int \<Rightarrow> append_io \<Rightarrow> Payload \<Rightarrow> MuxEmitter \<Rightarrow> string \<Rightarrow> bool \<times> MuxEmitter \<times> string" where
  "mux_emit to_string pid now io payload em file =
     (case mux_envelope pid now em of (env, em') \<Rightarrow>
        case append_record io (build_line to_string env payload) file of (done', file') \<Rightarrow> (done', em', file'))"

subsection \<open>Is there a terminal already\<close>

definition terminal_line :: "(string \<Rightarrow> Value option) \<Rightarrow> string \<Rightarrow> string \<Rightarrow> bool" where
  "terminal_line from_str send_id line =
     (let line = trim line
      in if line = [] then False
         else case from_str line of None \<Rightarrow> False
              | Some v \<Rightarrow> get_str ''send_id'' v = Some send_id
                  \<and> (case get_str ''event'' v of None \<Rightarrow> False | Some e \<Rightarrow> is_terminal e))"

text \<open>\<open>None\<close> is a file that cannot be read.\<close>

definition ledger_has_terminal :: "(string \<Rightarrow> Value option) \<Rightarrow> string option \<Rightarrow> string \<Rightarrow> bool" where
  "ledger_has_terminal from_str body send_id =
     (case body of None \<Rightarrow> False | Some b \<Rightarrow> list_ex (terminal_line from_str send_id) (rust_lines b))"

subsection \<open>A record on the wire\<close>

lemma keys_opt_str: "map fst (insert_opt_str k v) = (if v = None \<or> v = Some [] then [] else [k])"
  by (auto simp: insert_opt_str_def split: option.splits)

text \<open>No record has two members of one name.\<close>

definition envelope_keys :: "string list" where
  "envelope_keys = [''v'', ''ts'', ''pid'', ''seq'', ''start_ms'', ''session'', ''name'']"

lemma insert_fields_distinct: "distinct (map fst (insert_fields p n))"
  by (cases p) (simp_all add: keys_opt_str flag_def Let_def split: option.split)

lemma insert_fields_fresh: "list_all (\<lambda>k. k \<notin> set (''event'' # envelope_keys)) (map fst (insert_fields p n))"
  by (cases p) (simp_all add: keys_opt_str flag_def Let_def envelope_keys_def split: option.split)

lemma envelope_fields_distinct: "distinct (map fst (envelope_fields env))"
  by (simp add: envelope_fields_def keys_opt_str split: option.split)

lemma envelope_fields_keys: "list_all (\<lambda>k. k \<in> set envelope_keys) (map fst (envelope_fields env))"
  by (simp add: envelope_fields_def envelope_keys_def keys_opt_str split: option.split)

lemma distinct_around:
  assumes "distinct a" "distinct b" "list_all (\<lambda>x. x \<in> set ks) a" "list_all (\<lambda>x. x \<notin> set (e # ks)) b" "e \<notin> set ks"
  shows "distinct (a @ [e] @ b)"
  using assms by (auto simp: list_all_iff)

lemma record_keys_distinct: "distinct (map fst (envelope_fields env @ [(''event'', VStr (event_name p))] @ insert_fields p n))"
proof -
  have "''event'' \<notin> set envelope_keys" by (simp add: envelope_keys_def)
  from distinct_around [OF envelope_fields_distinct insert_fields_distinct envelope_fields_keys insert_fields_fresh this]
  show ?thesis by simp
qed

lemma wf_opt_str: "list_all (\<lambda>m. wf_value (snd m)) (insert_opt_str k v)"
  by (simp add: insert_opt_str_def split: option.split)

lemma wf_flag: "list_all (\<lambda>m. wf_value (snd m)) (flag k b)"
  by (simp add: flag_def)

lemma wf_strings: "list_all wf_value (map VStr ss)"
  by (induction ss) simp_all

lemma wf_insert_fields: "list_all (\<lambda>m. wf_value (snd m)) (insert_fields p n)"
  by (cases p) (simp_all add: wf_opt_str wf_flag wf_strings Let_def anchor_value_def split: option.split)

lemma wf_record_object: "wf_value (record_object env p n)"
proof -
  have "list_all (\<lambda>m. wf_value (snd m)) (envelope_fields env)"
    by (simp add: envelope_fields_def wf_opt_str split: option.split)
  then show ?thesis using record_keys_distinct [of env p n] by (simp add: record_object_def wf_insert_fields)
qed

fun payload_send_id :: "Payload \<Rightarrow> string option" where
  "payload_send_id (SendInitiated i _ _ _ _ _ _ _ _ _ _) = Some i"
| "payload_send_id (ChunksDelivered i _ _) = Some i"
| "payload_send_id (TurnAnchored i _ _ _ _) = Some i"
| "payload_send_id (TurnAnchoredMismatch i _ _ _ _ _ _) = Some i"
| "payload_send_id (AnchorTimeout i _) = Some i"
| "payload_send_id (PendingAbandoned i _ _ _) = Some i"
| "payload_send_id (ComposerCleared i) = Some i"
| "payload_send_id (RelayDelivered i _) = Some i"
| "payload_send_id (TurnAccepted i _) = Some i"
| "payload_send_id (MessageSeen i _) = Some i"
| "payload_send_id (SeenFailed i _) = Some i"
| "payload_send_id (SendFailed i _ _) = (if i = Some [] then None else i)"
| "payload_send_id _ = None"

lemma map_of_rev: "distinct (map fst ms) \<Longrightarrow> map_of (rev ms) k = map_of ms k"
proof -
  assume d: "distinct (map fst ms)"
  then have "distinct (map fst (rev ms))" by (metis distinct_rev rev_map)
  then have "map_of (rev ms) k = Some v \<longleftrightarrow> map_of ms k = Some v" for v using d by (simp add: map_of_eq_Some_iff)
  then show ?thesis by (metis option.exhaust)
qed

lemma get_record:
  "get_str k (record_object env p n) = map_of (envelope_fields env @ [(''event'', VStr (event_name p))] @ insert_fields p n) k \<bind> val_str"
  by (simp only: get_str_def record_object_def obj_get.simps map_of_rev [OF record_keys_distinct])

lemma map_of_fresh: "list_all (\<lambda>x. x \<in> set ks) (map fst ms) \<Longrightarrow> k \<notin> set ks \<Longrightarrow> map_of ms k = None"
  by (auto simp: map_of_eq_None_iff list_all_iff)

lemma get_event: "get_str ''event'' (record_object env p n) = Some (event_name p)"
proof -
  have "''event'' \<notin> set envelope_keys" by (simp add: envelope_keys_def)
  then have "map_of (envelope_fields env) ''event'' = None" by (rule map_of_fresh [OF envelope_fields_keys])
  then show ?thesis by (simp add: get_record map_add_def)
qed

lemma map_of_opt_str: "map_of (insert_opt_str k v) x = (if x = k \<and> v \<noteq> None \<and> v \<noteq> Some [] then map_option VStr v else None)"
  by (auto simp: insert_opt_str_def split: option.splits)

lemma get_send_id: "get_str ''send_id'' (record_object env p n) = payload_send_id p"
proof -
  have "''send_id'' \<notin> set envelope_keys" by (simp add: envelope_keys_def)
  then have "map_of (envelope_fields env) ''send_id'' = None" by (rule map_of_fresh [OF envelope_fields_keys])
  then have "get_str ''send_id'' (record_object env p n) = map_of (insert_fields p n) ''send_id'' \<bind> val_str"
    by (simp add: get_record map_add_def split: option.split)
  also have "\<dots> = payload_send_id p"
    by (cases p) (simp_all add: map_of_opt_str map_add_def Let_def split: option.split)
  finally show ?thesis .
qed

text \<open>A record line is read back, and is a terminal for the send it names exactly if its kind is terminal.\<close>

lemma record_line_tight:
  assumes "value_ok to_string from_str"
  shows "NL \<notin> set (build_record_line to_string env p n)" "trim (build_record_line to_string env p n) = build_record_line to_string env p n"
    "strip_cr (build_record_line to_string env p n) = build_record_line to_string env p n"
    "build_record_line to_string env p n \<noteq> []"
    "from_str (build_record_line to_string env p n) = Some (record_object env p n)"
  using assms wf_record_object [of env p n]
  by (auto simp: value_ok_def build_record_line_def record_object_def intro: trim_tight strip_cr_tight)

lemma terminal_record_line:
  assumes "value_ok to_string from_str"
  shows "terminal_line from_str send_id (build_record_line to_string env p n)
    \<longleftrightarrow> payload_send_id p = Some send_id \<and> is_terminal (event_name p)"
  using record_line_tight(2,4,5) [OF assms] by (simp add: terminal_line_def get_event get_send_id)

subsection \<open>Whole lines\<close>

definition whole_lines :: "string \<Rightarrow> bool" where
  "whole_lines file \<longleftrightarrow> file = [] \<or> last file = NL"

lemma rust_lines_append_line:
  assumes "whole_lines file" "NL \<notin> set line" "strip_cr line = line"
  shows "rust_lines (file @ line @ [NL]) = rust_lines file @ [line]"
proof (cases "file" rule: rev_cases)
  case Nil
  then show ?thesis using assms split_nl_append [of line "[]"] split_nl_line [of line] by (simp add: rust_lines_def)
next
  case (snoc a c)
  then have c: "c = NL" using assms(1) by (simp add: whole_lines_def)
  have "split_nl (file @ line @ [NL]) = split_nl a @ [line] @ [[]]"
    using split_nl_append [of a "line @ [NL]"] split_nl_append [of line "[]"] split_nl_line [OF assms(2)] snoc c by simp
  moreover have "split_nl file = split_nl a @ [[]]" using split_nl_append [of a "[]"] snoc c by simp
  ultimately show ?thesis using assms(3) by (simp add: rust_lines_def butlast_append)
qed

lemma has_terminal_append:
  assumes ok: "value_ok to_string from_str" and whole: "whole_lines file"
  shows "ledger_has_terminal from_str (Some (file @ build_record_line to_string env p n @ [NL])) send_id
    \<longleftrightarrow> ledger_has_terminal from_str (Some file) send_id \<or> payload_send_id p = Some send_id \<and> is_terminal (event_name p)"
  using rust_lines_append_line [OF whole record_line_tight(1,3) [OF ok]] terminal_record_line [OF ok]
  by (simp add: ledger_has_terminal_def)

end
