(* ===== verification/Fire.thy ===== *)
theory Fire
  imports Submit Spool Delivery_Events
begin

text \<open>
  The fire sequence (\<open>crates/qrmux/src/attended/fire.rs\<close>) and the human's side of it
  (\<open>journal_admit_passthrough\<close> of \<open>driver.rs\<close>). The two run on different threads and share the input
  lock and the journal; each critical section is atomic. The world carries a schedule of human bursts:
  before each effect of the fire the next bursts of the schedule are admitted, so that a statement
  for every schedule is a statement for every interleaving. What lies outside the program (the
  terminal, the hosted harness, the clock, the files) is the environment: its answer to each effect is
  a parameter. The log of the world records what was written to the terminal, by whom and for which
  purpose, what reached the spool and when the lock was taken and released; no code reads it.
\<close>

subsection \<open>Facts about a harness\<close>

datatype AcceptanceSignal = BusyTransition | Landing

record ClearStrategy =
  chord :: string
  presses :: nat
  clear_settle_ms :: nat
  reverify_plain :: bool

definition clear_once :: "string \<Rightarrow> ClearStrategy" where
  "clear_once c = \<lparr>chord = c, presses = 1, clear_settle_ms = 0, reverify_plain = False\<rparr>"

record HarnessFacts =
  composer_is_plain :: "string \<Rightarrow> bool option"
  acceptance_signal :: AcceptanceSignal
  composer_region :: ComposerRegion
  clear_strategy :: ClearStrategy

definition modal_screen_is_denied :: "string \<Rightarrow> string list \<Rightarrow> bool" where
  "modal_screen_is_denied screen_text sigs \<longleftrightarrow> list_ex (contains screen_text) sigs"

definition SAFE_CLEAR_CHORD :: string where "SAFE_CLEAR_CHORD = [CHR 0x15]"

definition CLAUDE_MODAL_SIGS :: "string list" where
  "CLAUDE_MODAL_SIGS = [''Select model'', ''Switch between Claude models.'', ''Enter to set as default'']"

definition default_is_plain :: "string \<Rightarrow> bool option" where
  "default_is_plain screen_text =
     (if modal_screen_is_denied screen_text CLAUDE_MODAL_SIGS then Some False
      else if contains screen_text PROMPT_GLYPH then Some True else None)"

definition safe_default_facts :: HarnessFacts where
  "safe_default_facts =
     \<lparr>composer_is_plain = default_is_plain, acceptance_signal = BusyTransition,
      composer_region = GlyphAnchor PROMPT_GLYPH, clear_strategy = clear_once SAFE_CLEAR_CHORD\<rparr>"

definition CODEX_PROMPT_GLYPH :: string where "CODEX_PROMPT_GLYPH = [CHR 0xE2, CHR 0x80, CHR 0xBA]"

definition CODEX_MODAL_SIGS :: "string list" where
  "CODEX_MODAL_SIGS = [''Select Model and Effort'', ''Press enter to confirm or esc to go back'', ''q to quit'']"

definition codex_is_plain :: "string \<Rightarrow> bool option" where
  "codex_is_plain screen_text =
     (if modal_screen_is_denied screen_text CODEX_MODAL_SIGS then Some False
      else if list_ex (\<lambda>l. contains l ('' '' @ [CHR 0xC2, CHR 0xB7] @ '' '')) (rust_lines screen_text) \<and> contains screen_text CODEX_PROMPT_GLYPH
      then Some True else None)"

definition codex_facts :: HarnessFacts where
  "codex_facts =
     \<lparr>composer_is_plain = codex_is_plain, acceptance_signal = Landing,
      composer_region = GlyphAnchor CODEX_PROMPT_GLYPH,
      clear_strategy = \<lparr>chord = [CHR 0x15], presses = 12, clear_settle_ms = 40, reverify_plain = True\<rparr>\<rparr>"

definition PI_RULE :: string where "PI_RULE = [CHR 0xE2, CHR 0x94, CHR 0x80]"

definition pi_is_plain :: "string \<Rightarrow> bool option" where
  "pi_is_plain screen_text =
     (if contains screen_text [CHR 0xE2, CHR 0x86, CHR 0x92] then Some False
      else if 2 \<le> length (filter (\<lambda>l. case rule_count PI_RULE 0 (to_chars l) of None \<Rightarrow> False | Some n \<Rightarrow> 3 \<le> n) (rust_lines screen_text))
      then Some True else None)"

definition pi_facts :: HarnessFacts where
  "pi_facts =
     \<lparr>composer_is_plain = pi_is_plain, acceptance_signal = Landing,
      composer_region = BetweenLastTwo PI_RULE,
      clear_strategy = \<lparr>chord = [CHR 0x03], presses = 1, clear_settle_ms = 60, reverify_plain = True\<rparr>\<rparr>"

subsection \<open>The landing probe\<close>

datatype LandingScan = ScanLanded | ScanMismatch string nat | ScanUnconfirmed

fun to_result :: "LandingScan \<Rightarrow> LandingResult" where
  "to_result ScanLanded = Landed"
| "to_result (ScanMismatch _ _) = Mismatched"
| "to_result ScanUnconfirmed = Unconfirmed"

definition text_parts :: "string \<Rightarrow> Value list \<Rightarrow> string" where
  "text_parts ty parts =
     concat (map (\<lambda>part. if get_str ''type'' part = Some ty then (case get_str ''text'' part of None \<Rightarrow> [] | Some t \<Rightarrow> t) else []) parts)"

definition extract_message_text :: "Value option \<Rightarrow> string option" where
  "extract_message_text message = do {
     m \<leftarrow> message;
     content \<leftarrow> obj_get ''content'' m;
     case val_str content of
       Some s \<Rightarrow> Some s
     | None \<Rightarrow> (case val_arr content of
                 Some arr \<Rightarrow> let buf = text_parts ''text'' arr in if buf = [] then None else Some buf
               | None \<Rightarrow> None)
   }"

definition extract_input_text :: "Value option \<Rightarrow> string option" where
  "extract_input_text content = do {
     c \<leftarrow> content;
     arr \<leftarrow> val_arr c;
     let buf = text_parts ''input_text'' arr;
     if buf = [] then None else Some buf
   }"

definition user_text :: "Value \<Rightarrow> string option" where
  "user_text v =
     (let ty = get_str ''type'' v
      in if ty = Some ''user'' \<or> ty = Some ''message'' \<and> (obj_get ''message'' v \<bind> get_str ''role'') = Some ''user''
         then extract_message_text (obj_get ''message'' v) else None)"

definition codex_user_text :: "Value \<Rightarrow> string option" where
  "codex_user_text v =
     (if get_str ''type'' v \<noteq> Some ''response_item'' then None
      else case obj_get ''payload'' v of None \<Rightarrow> None
           | Some payload \<Rightarrow>
               if get_str ''type'' payload \<noteq> Some ''message'' \<or> get_str ''role'' payload \<noteq> Some ''user'' then None
               else extract_input_text (obj_get ''content'' payload))"

text \<open>The texts of the lines of a transcript; lines that are blank or not JSON are passed over.\<close>

definition body_texts :: "(string \<Rightarrow> Value option) \<Rightarrow> (Value \<Rightarrow> string option) \<Rightarrow> string \<Rightarrow> string list" where
  "body_texts from_str text_of body =
     List.map_filter (\<lambda>line. let line = trim line in if line = [] then None else from_str line \<bind> text_of) (rust_lines body)"

definition from_offset :: "nat \<Rightarrow> string \<Rightarrow> string" where
  "from_offset offset bytes = (if 0 < offset then drop (min offset (length bytes)) bytes else bytes)"

text \<open>
  A probe knows which record of a transcript is a user's text; \<open>utf8\<close> is the check that
  \<open>read_to_string\<close> makes of what it read, \<open>sha256\<close> the digest of the library.
\<close>

record LandingProbe =
  from_str :: "string \<Rightarrow> Value option"
  text_of :: "Value \<Rightarrow> string option"
  utf8 :: "string \<Rightarrow> bool"
  sha256 :: "string \<Rightarrow> string"

definition texts_from :: "LandingProbe \<Rightarrow> string option \<Rightarrow> nat \<Rightarrow> string list option" where
  "texts_from probe contents offset =
     (case contents of None \<Rightarrow> None
      | Some bytes \<Rightarrow> let body = from_offset offset bytes in if utf8 probe body then Some (body_texts (from_str probe) (text_of probe) body) else None)"

definition classify_landing :: "(string \<Rightarrow> string) \<Rightarrow> string list \<Rightarrow> string \<Rightarrow> LandingScan" where
  "classify_landing sha texts message =
     (if message \<in> set texts then ScanLanded
      else case filter (\<lambda>t. length t < length message \<and> starts_with message t \<and> t \<noteq> []) texts of
             [] \<Rightarrow> ScanUnconfirmed
           | t # ts \<Rightarrow> let best = fold (\<lambda>t best. if length best \<le> length t then t else best) ts t
                      in ScanMismatch (sha best) (length best))"

definition probe_scan :: "LandingProbe \<Rightarrow> string option \<Rightarrow> nat option \<Rightarrow> string \<Rightarrow> LandingScan" where
  "probe_scan probe contents offset message =
     (case texts_from probe contents (case offset of None \<Rightarrow> 0 | Some n \<Rightarrow> n) of
        None \<Rightarrow> ScanUnconfirmed | Some texts \<Rightarrow> classify_landing (sha256 probe) texts message)"

definition probe_scan_sha :: "LandingProbe \<Rightarrow> string option \<Rightarrow> nat option \<Rightarrow> string \<Rightarrow> LandingScan" where
  "probe_scan_sha probe contents offset sha =
     (case texts_from probe contents (case offset of None \<Rightarrow> 0 | Some n \<Rightarrow> n) of
        None \<Rightarrow> ScanUnconfirmed
      | Some texts \<Rightarrow> if list_ex (\<lambda>t. sha256 probe t = sha) texts then ScanLanded else ScanUnconfirmed)"

subsection \<open>The world\<close>

datatype Purpose = Human | Clear | Text | Return | Replay | Flush

datatype Ev =
    Burst string
  | Wrote Purpose string bool
  | Spooled PendingRecord bool
  | Armed
  | Unlocked

record 'e Env =
  e_write :: "string \<Rightarrow> 'e \<Rightarrow> bool \<times> 'e"
  e_screen :: "'e \<Rightarrow> string \<times> 'e"
  e_status :: "'e \<Rightarrow> string option \<times> 'e"
  e_sleep :: "nat \<Rightarrow> 'e \<Rightarrow> 'e"
  e_now :: "'e \<Rightarrow> int \<times> 'e"
  e_spool :: "'e \<Rightarrow> bool \<times> 'e"
  e_file :: "string \<Rightarrow> 'e \<Rightarrow> string option \<times> 'e"

record 'e World =
  inlock :: InputLock
  journal :: Journal
  spool :: "string \<rightharpoonup> PendingRecord"
  log :: "Ev list"
  env :: 'e
  sched :: "(string \<times> int) list list"

definition note_ev :: "Ev \<Rightarrow> 'e World \<Rightarrow> 'e World" where
  "note_ev ev w = w\<lparr>log := log w @ [ev]\<rparr>"

definition write_pty :: "'e Env \<Rightarrow> Purpose \<Rightarrow> string \<Rightarrow> 'e World \<Rightarrow> bool \<times> 'e World" where
  "write_pty E p bytes w = (case e_write E bytes (env w) of (ok, e) \<Rightarrow> (ok, note_ev (Wrote p bytes ok) (w\<lparr>env := e\<rparr>)))"

definition journal_admit_passthrough :: "'e Env \<Rightarrow> nat \<Rightarrow> string \<Rightarrow> int \<Rightarrow> 'e World \<Rightarrow> bool \<times> 'e World" where
  "journal_admit_passthrough E threshold bytes now w =
     (let w1 = note_ev (Burst bytes) (w\<lparr>journal := snd (on_human_input bytes now threshold (journal w))\<rparr>)
      in case admit bytes (inlock w1) of
           (Passthrough b, l) \<Rightarrow> write_pty E Human b (w1\<lparr>inlock := l\<rparr>)
         | (Buffered, l) \<Rightarrow> (True, w1\<lparr>inlock := l\<rparr>))"

definition human_turn :: "'e Env \<Rightarrow> nat \<Rightarrow> string \<times> int \<Rightarrow> 'e World \<Rightarrow> 'e World" where
  "human_turn E threshold = (\<lambda>(bytes, now) w. snd (journal_admit_passthrough E threshold bytes now w))"

definition interleave :: "'e Env \<Rightarrow> nat \<Rightarrow> 'e World \<Rightarrow> 'e World" where
  "interleave E threshold w = (case sched w of [] \<Rightarrow> w | bs # rest \<Rightarrow> fold (human_turn E threshold) bs (w\<lparr>sched := rest\<rparr>))"

record 'w FireEffects = "'w IdleDeliverDeps" +
  write_raw :: "Purpose \<Rightarrow> string \<Rightarrow> 'w \<Rightarrow> bool \<times> 'w"
  acceptance_confirmable :: bool

text \<open>Where a status can be read (\<open>StatusSource\<close>): some harnesses publish none.\<close>

record StatusSource =
  has_status :: bool
  confirmable_acceptance :: bool

definition claude_default :: StatusSource where
  "claude_default = \<lparr>has_status = True, confirmable_acceptance = True\<rparr>"

definition none_source :: StatusSource where
  "none_source = \<lparr>has_status = False, confirmable_acceptance = False\<rparr>"

definition lift_env :: "'e World \<Rightarrow> 'a \<times> 'e \<Rightarrow> 'a \<times> 'e World" where
  "lift_env w = (\<lambda>(x, e). (x, w\<lparr>env := e\<rparr>))"

definition live_effects :: "'e Env \<Rightarrow> nat \<Rightarrow> StatusSource \<Rightarrow> 'e World FireEffects" where
  "live_effects E th src =
     \<lparr>read_status = (\<lambda>w. let w = interleave E th w in if has_status src then lift_env w (e_status E (env w)) else (None, w)),
      send_cr = (\<lambda>w. snd (write_pty E Return [CR] (interleave E th w))),
      sleep = (\<lambda>ms w. let w = interleave E th w in w\<lparr>env := e_sleep E ms (env w)\<rparr>),
      now_ms = (\<lambda>w. let w = interleave E th w in lift_env w (e_now E (env w))),
      send_text = (\<lambda>t w. snd (write_pty E Text t (interleave E th w))),
      read_screen = (\<lambda>w. let w = interleave E th w in lift_env w (e_screen E (env w))),
      write_raw = (\<lambda>p bytes w. write_pty E p bytes (interleave E th w)),
      acceptance_confirmable = confirmable_acceptance src\<rparr>"

definition lock_and_snapshot :: "'e Env \<Rightarrow> nat \<Rightarrow> 'e World \<Rightarrow> string \<times> 'e World" where
  "lock_and_snapshot E th w =
     (let w = interleave E th w in (draft (journal w), note_ev Armed (w\<lparr>inlock := lock_input (inlock w)\<rparr>)))"

definition unlock_input :: "'e Env \<Rightarrow> nat \<Rightarrow> 'e World \<Rightarrow> string \<times> 'e World" where
  "unlock_input E th w =
     (let w = interleave E th w
      in case unlock_and_drain (inlock w) of (b, l) \<Rightarrow> (b, note_ev Unlocked (w\<lparr>inlock := l\<rparr>)))"

definition spool_record :: "'e Env \<Rightarrow> nat \<Rightarrow> PendingRecord \<Rightarrow> 'e World \<Rightarrow> bool \<times> 'e World" where
  "spool_record E th r w =
     (let w = interleave E th w
      in case e_spool E (env w) of (ok, e) \<Rightarrow>
           (ok, note_ev (Spooled r ok) (w\<lparr>env := e, spool := (if ok then (spool w)(send_id r \<mapsto> r) else spool w)\<rparr>)))"

definition scan :: "'e Env \<Rightarrow> nat \<Rightarrow> LandingProbe \<Rightarrow> PendingRecord \<Rightarrow> string \<Rightarrow> 'e World \<Rightarrow> LandingScan \<times> 'e World" where
  "scan E th probe r message w =
     (let w = interleave E th w
      in case transcript r of
           None \<Rightarrow> (ScanUnconfirmed, w)
         | Some path \<Rightarrow> (case lift_env w (e_file E path (env w)) of (contents, w) \<Rightarrow> (probe_scan probe contents (transcript_offset r) message, w)))"

subsection \<open>The steps\<close>

record FireConfig =
  verify_attempts :: nat
  verify_retry_ms :: nat
  landing_window_ms :: int
  landing_poll_ms :: nat
  submit :: SubmitOptions

definition default_fire_config :: FireConfig where
  "default_fire_config =
     \<lparr>verify_attempts = 3, verify_retry_ms = 200, landing_window_ms = 8000, landing_poll_ms = 250, submit = default_submit_options\<rparr>"

datatype FireOutcome = Terminal Payload | FirePending

fun verify_attempt :: "'w FireEffects \<Rightarrow> HarnessFacts \<Rightarrow> nat \<Rightarrow> nat \<Rightarrow> 'w \<Rightarrow> bool \<times> 'w" where
  "verify_attempt fx facts retry 0 w = (False, w)"
| "verify_attempt fx facts retry (Suc left) w =
     (case read_screen fx w of (s, w1) \<Rightarrow>
        if composer_is_plain facts s = Some True then (True, w1)
        else verify_attempt fx facts retry left (if 0 < left then sleep fx retry w1 else w1))"

definition verify_plain_composer :: "'w FireEffects \<Rightarrow> HarnessFacts \<Rightarrow> FireConfig \<Rightarrow> 'w \<Rightarrow> bool \<times> 'w" where
  "verify_plain_composer fx facts cfg w = verify_attempt fx facts (verify_retry_ms cfg) (max (verify_attempts cfg) 1) w"

datatype ClearOutcome = Cleared | WriteFailed | NotPlain

fun press_chord :: "'w FireEffects \<Rightarrow> ClearStrategy \<Rightarrow> nat \<Rightarrow> 'w \<Rightarrow> bool \<times> 'w" where
  "press_chord fx strat 0 w = (True, w)"
| "press_chord fx strat (Suc n) w =
     (case write_raw fx Clear (chord strat) w of (ok, w1) \<Rightarrow>
        if ok then press_chord fx strat n (if 0 < clear_settle_ms strat then sleep fx (clear_settle_ms strat) w1 else w1)
        else (False, w1))"

definition clear_composer :: "'w FireEffects \<Rightarrow> HarnessFacts \<Rightarrow> 'w \<Rightarrow> ClearOutcome \<times> 'w" where
  "clear_composer fx facts w =
     (let strat = clear_strategy facts
      in case press_chord fx strat (max (presses strat) 1) w of (ok, w1) \<Rightarrow>
           if \<not> ok then (WriteFailed, w1)
           else if reverify_plain strat
           then (case read_screen fx w1 of (s, w2) \<Rightarrow> (if composer_is_plain facts s \<noteq> Some True then NotPlain else Cleared, w2))
           else (Cleared, w1))"

definition send_failed :: "PendingRecord \<Rightarrow> string \<Rightarrow> FireOutcome" where
  "send_failed r reason = Terminal (SendFailed (Some (send_id r)) (content_sha256 r) reason)"

definition write_unless_empty :: "'w FireEffects \<Rightarrow> Purpose \<Rightarrow> string \<Rightarrow> 'w \<Rightarrow> 'w" where
  "write_unless_empty fx p bytes w = (if bytes \<noteq> [] then snd (write_raw fx p bytes w) else w)"

definition unlock_and_flush :: "'e Env \<Rightarrow> nat \<Rightarrow> 'e World FireEffects \<Rightarrow> 'e World \<Rightarrow> 'e World" where
  "unlock_and_flush E th fx w = (case unlock_input E th w of (buffered, w1) \<Rightarrow> write_unless_empty fx Flush buffered w1)"

definition finish_failure ::
  "'e Env \<Rightarrow> nat \<Rightarrow> 'e World FireEffects \<Rightarrow> string \<Rightarrow> bool \<Rightarrow> PendingRecord \<Rightarrow> string \<Rightarrow> 'e World \<Rightarrow> FireOutcome \<times> 'e World"
where
  "finish_failure E th fx dr cleared r reason w =
     (send_failed r reason, unlock_and_flush E th fx (if cleared then write_unless_empty fx Replay dr w else w))"

partial_function (option) landing_loop ::
  "'e Env \<Rightarrow> nat \<Rightarrow> 'e World FireEffects \<Rightarrow> LandingProbe \<Rightarrow> PendingRecord \<Rightarrow> string \<Rightarrow> nat \<Rightarrow> AcceptanceSignal \<Rightarrow> int \<Rightarrow> 'e World \<Rightarrow> (FireOutcome \<times> 'e World) option"
where
  "landing_loop E th fx probe r message poll signal deadline w =
     (case scan E th probe r message w of
        (ScanLanded, w1) \<Rightarrow> Some (Terminal (MessageSeen (send_id r) (content_sha256 r)), w1)
      | (ScanMismatch sha len, w1) \<Rightarrow>
          Some (Terminal (TurnAnchoredMismatch (send_id r) (content_sha256 r) sha (content_len r) len False None), w1)
      | (ScanUnconfirmed, w1) \<Rightarrow>
          (case (if signal = BusyTransition then read_status fx w1 else (Some [], w1)) of (s, w2) \<Rightarrow>
             if s = None then Some (Terminal (SeenFailed (send_id r) ''recipient-gone''), w2)
             else case now_ms fx w2 of (t, w3) \<Rightarrow>
               if deadline \<le> t then Some (FirePending, w3)
               else landing_loop E th fx probe r message poll signal deadline (sleep fx poll w3)))"

definition landing_terminal ::
  "'e Env \<Rightarrow> nat \<Rightarrow> 'e World FireEffects \<Rightarrow> LandingProbe \<Rightarrow> PendingRecord \<Rightarrow> string \<Rightarrow> FireConfig \<Rightarrow> AcceptanceSignal \<Rightarrow> 'e World \<Rightarrow> (FireOutcome \<times> 'e World) option"
where
  "landing_terminal E th fx probe r message cfg signal w =
     (case now_ms fx w of (t, w1) \<Rightarrow>
        landing_loop E th fx probe r message (landing_poll_ms cfg) signal (t + landing_window_ms cfg) w1)"

definition inject :: "'w FireEffects \<Rightarrow> HarnessFacts \<Rightarrow> string \<Rightarrow> FireConfig \<Rightarrow> 'w \<Rightarrow> (bool \<times> 'w) option" where
  "inject fx facts message cfg w =
     (case acceptance_signal facts of
        BusyTransition \<Rightarrow>
          map_option (\<lambda>(oc, w1). (accepted oc, w1)) (deliver_idle_two_write_in_region fx message (submit cfg) (composer_region facts) w)
      | Landing \<Rightarrow>
          Some (True, send_cr fx (sleep fx TWO_WRITE_SETTLE_MS (send_text_chunked (send_text fx) (sleep fx) message default_chunk_options w))))"

definition start_record :: "string \<Rightarrow> PendingRecord \<Rightarrow> PendingRecord" where
  "start_record dr r = r\<lparr>phase := FireStarted, fire_started := True, pr_draft := dr\<rparr>"

definition complete_record :: "PendingRecord \<Rightarrow> PendingRecord" where
  "complete_record r = r\<lparr>phase := FireCompleted, fire_completed := True\<rparr>"

text \<open>
  The whole sequence, in four parts: the gate and the lock, the check of the composer and the durable
  start, the clearing, and the submission with what follows it. \<open>None\<close> is a fire that never ends.
\<close>

definition fire_submit ::
  "'e Env \<Rightarrow> nat \<Rightarrow> 'e World FireEffects \<Rightarrow> HarnessFacts \<Rightarrow> LandingProbe \<Rightarrow> string \<Rightarrow> PendingRecord \<Rightarrow> string \<Rightarrow> FireConfig \<Rightarrow> 'e World \<Rightarrow> (FireOutcome \<times> 'e World) option"
where
  "fire_submit E th fx facts probe dr r1 message cfg w4 = do {
     (acc, w5) \<leftarrow> inject fx facts message cfg w4;
     if \<not> acc then Some (finish_failure E th fx dr True r1 ''not-accepted'' w5)
     else let r2 = complete_record r1;
              w6 = snd (spool_record E th r2 w5);
              w7 = write_unless_empty fx Replay dr w6;
              w8 = unlock_and_flush E th fx w7
          in landing_terminal E th fx probe r2 message cfg (acceptance_signal facts) w8
   }"

definition fire_clear ::
  "'e Env \<Rightarrow> nat \<Rightarrow> 'e World FireEffects \<Rightarrow> HarnessFacts \<Rightarrow> LandingProbe \<Rightarrow> string \<Rightarrow> PendingRecord \<Rightarrow> string \<Rightarrow> FireConfig \<Rightarrow> 'e World \<Rightarrow> (FireOutcome \<times> 'e World) option"
where
  "fire_clear E th fx facts probe dr r1 message cfg w3 =
     (case clear_composer fx facts w3 of
        (WriteFailed, w4) \<Rightarrow> Some (finish_failure E th fx dr True r1 ''inject-failed'' w4)
      | (NotPlain, w4) \<Rightarrow> Some (finish_failure E th fx dr True r1 ''verify-blocked'' w4)
      | (Cleared, w4) \<Rightarrow> fire_submit E th fx facts probe dr r1 message cfg w4)"

definition fire_locked ::
  "'e Env \<Rightarrow> nat \<Rightarrow> 'e World FireEffects \<Rightarrow> HarnessFacts \<Rightarrow> LandingProbe \<Rightarrow> string \<Rightarrow> PendingRecord \<Rightarrow> string \<Rightarrow> FireConfig \<Rightarrow> 'e World \<Rightarrow> (FireOutcome \<times> 'e World) option"
where
  "fire_locked E th fx facts probe dr rec0 message cfg w1 =
     (case verify_plain_composer fx facts cfg w1 of (plain, w2) \<Rightarrow>
        if \<not> plain then Some (finish_failure E th fx dr False rec0 ''verify-blocked'' w2)
        else let r1 = start_record dr rec0 in
          case spool_record E th r1 w2 of (ok, w3) \<Rightarrow>
            if \<not> ok then Some (finish_failure E th fx dr False r1 ''inject-failed'' w3)
            else fire_clear E th fx facts probe dr r1 message cfg w3)"

definition fire ::
  "'e Env \<Rightarrow> nat \<Rightarrow> StatusSource \<Rightarrow> HarnessFacts \<Rightarrow> LandingProbe \<Rightarrow> PendingRecord \<Rightarrow> string \<Rightarrow> FireConfig \<Rightarrow> 'e World \<Rightarrow> (FireOutcome \<times> 'e World) option"
where
  "fire E th src facts probe rec0 message cfg w0 =
     (let fx = live_effects E th src
      in if \<not> acceptance_confirmable fx \<and> acceptance_signal facts \<noteq> Landing
         then Some (send_failed rec0 ''acceptance-unconfirmable'', w0)
         else case lock_and_snapshot E th w0 of (dr, w1) \<Rightarrow> fire_locked E th fx facts probe dr rec0 message cfg w1)"

end
