(* ===== verification/Submit_Inv.thy ===== *)
theory Submit_Inv
  imports Submit
begin

text \<open>
  Laws of the submit discipline. The chunks of a message are its characters in order, grouped within
  the byte budget. What a poll loop needs of a session is a clock that does not run backwards and
  that a sleep moves forward; over any such session every wait ends, and one round of verification
  sends at most one carriage return, and none after it has read the status as busy.
\<close>

subsection \<open>Characters\<close>

lemma concat_to_chars [simp]: "concat (to_chars s) = s"
  by (induction s rule: to_chars.induct) auto

lemma concat_map_to_chars: "concat (concat (map to_chars ss)) = concat ss"
  by (induction ss) auto

lemma to_chars_nonempty: "ch \<in> set (to_chars s) \<Longrightarrow> ch \<noteq> []"
  by (induction s rule: to_chars.induct) auto

lemma stop_at_head: "l = [] \<or> \<not> P (hd l) \<Longrightarrow> takeWhile P l = [] \<and> dropWhile P l = l"
  by (cases l) simp_all

lemma to_chars_prefix: "to_chars s = a @ b \<Longrightarrow> to_chars (concat a) = a"
proof (induction a arbitrary: s)
  case (Cons x a)
  then obtain c cs where s: "s = c # cs" and x: "x = c # takeWhile continuation_byte cs"
    and ab: "to_chars (dropWhile continuation_byte cs) = a @ b"
    by (cases s) auto
  have all: "concat a @ concat b = dropWhile continuation_byte cs"
    using arg_cong [OF ab, of concat] by simp
  have hd: "concat a = [] \<or> \<not> continuation_byte (hd (concat a))"
  proof (cases "concat a")
    case (Cons y ys)
    then have "dropWhile continuation_byte cs = y # ys @ concat b" using all by simp
    then show ?thesis using Cons by (metis hd_dropWhile list.distinct(1) list.sel(1))
  qed simp
  have tw: "\<And>y. y \<in> set (takeWhile continuation_byte cs) \<Longrightarrow> continuation_byte y" by (rule set_takeWhileD [THEN conjunct2])
  have ends: "takeWhile continuation_byte (concat a) = [] \<and> dropWhile continuation_byte (concat a) = concat a"
    using hd stop_at_head by blast
  have "takeWhile continuation_byte (takeWhile continuation_byte cs @ concat a) = takeWhile continuation_byte cs"
    using takeWhile_append2 [of "takeWhile continuation_byte cs" continuation_byte "concat a", OF tw] ends by simp
  moreover have "dropWhile continuation_byte (takeWhile continuation_byte cs @ concat a) = concat a"
    using dropWhile_append2 [of "takeWhile continuation_byte cs" continuation_byte "concat a", OF tw] ends by simp
  ultimately show ?case using Cons.IH [OF ab] x by simp
qed simp

lemma to_chars_suffix: "to_chars s = a @ b \<Longrightarrow> to_chars (concat b) = b"
proof (induction a arbitrary: s)
  case Nil
  then show ?case by (metis append_Nil concat_to_chars)
next
  case (Cons x a)
  then obtain c cs where "s = c # cs" "to_chars (dropWhile continuation_byte cs) = a @ b"
    by (cases s) auto
  then show ?case using Cons.IH by blast
qed

lemma to_chars_group: "to_chars s = concat gs \<Longrightarrow> g \<in> set gs \<Longrightarrow> to_chars (concat g) = g"
proof -
  assume "to_chars s = concat gs" and "g \<in> set gs"
  then obtain l r where "to_chars s = concat l @ g @ concat r" by (metis concat.simps(2) concat_append split_list)
  then have "to_chars (concat (g @ concat r)) = g @ concat r" by (rule to_chars_suffix)
  then show ?thesis by (rule to_chars_prefix)
qed

subsection \<open>Chunks\<close>

definition group_ok :: "nat \<Rightarrow> string list \<Rightarrow> bool" where
  "group_ok mx g \<longleftrightarrow> g \<noteq> [] \<and> (length (concat g) \<le> mx \<or> length g = 1)"

definition chunk_inv :: "nat \<Rightarrow> string list \<Rightarrow> string list \<times> nat \<times> nat \<Rightarrow> bool" where
  "chunk_inv mx pre st \<longleftrightarrow>
     (\<exists>gs cc. pre = concat gs @ cc \<and> st = (map concat gs, length (concat (concat gs)), length (concat cc))
        \<and> (\<forall>g\<in>set gs. group_ok mx g) \<and> (cc = [] \<or> group_ok mx cc))"

lemma chunk_step_inv:
  assumes inv: "chunk_inv mx pre st" and ch: "ch \<noteq> []" "\<forall>c\<in>set pre. c \<noteq> []"
    and m: "message = concat (pre @ ch # post)"
  shows "chunk_inv mx (pre @ [ch]) (chunk_step mx message (length (concat pre), ch) st)"
proof -
  obtain gs cc where pre: "pre = concat gs @ cc" and st: "st = (map concat gs, length (concat (concat gs)), length (concat cc))"
    and gs: "\<forall>g\<in>set gs. group_ok mx g" and cc: "cc = [] \<or> group_ok mx cc"
    using inv unfolding chunk_inv_def by blast
  show ?thesis
  proof (cases "length (concat cc) \<noteq> 0 \<and> mx < length (concat cc) + length ch")
    case True
    then have "cc \<noteq> []" by auto
    moreover have "slice message (length (concat (concat gs))) (length (concat pre)) = concat cc"
      by (simp add: slice_def m pre)
    ultimately have "chunk_step mx message (length (concat pre), ch) st
        = (map concat (gs @ [cc]), length (concat (concat (gs @ [cc]))), length (concat [ch]))"
      using True by (simp add: chunk_step_def st pre)
    moreover have "\<forall>g\<in>set (gs @ [cc]). group_ok mx g" using gs cc \<open>cc \<noteq> []\<close> by auto
    moreover have "group_ok mx [ch]" by (simp add: group_ok_def)
    ultimately show ?thesis unfolding chunk_inv_def
      by (intro exI [of _ "gs @ [cc]"] exI [of _ "[ch]"]) (simp add: pre)
  next
    case False
    then have "group_ok mx (cc @ [ch])" using ch pre by (cases cc) (auto simp: group_ok_def)
    moreover have "chunk_step mx message (length (concat pre), ch) st
        = (map concat gs, length (concat (concat gs)), length (concat (cc @ [ch])))"
      using False by (simp add: chunk_step_def st)
    ultimately show ?thesis unfolding chunk_inv_def using gs
      by (intro exI [of _ gs] exI [of _ "cc @ [ch]"]) (simp add: pre)
  qed
qed

lemma chunk_fold_inv:
  assumes "chunk_inv mx pre st" "\<forall>c\<in>set (pre @ post). c \<noteq> []" "message = concat (pre @ post)"
  shows "chunk_inv mx (pre @ post) (fold (chunk_step mx message) (char_indices (length (concat pre)) post) st)"
  using assms
proof (induction post arbitrary: pre st)
  case (Cons ch post)
  have "chunk_inv mx (pre @ [ch]) (chunk_step mx message (length (concat pre), ch) st)"
    using Cons.prems by (intro chunk_step_inv [where post = post]) auto
  from Cons.IH [OF this] Cons.prems(2,3) show ?case by simp
qed simp

lemma chunk_text_groups:
  "\<exists>gs. chunk_text message bytes = map concat gs \<and> concat gs = to_chars message \<and> (\<forall>g\<in>set gs. group_ok (max bytes 1) g)"
proof -
  let ?cs = "to_chars message"
  have "chunk_inv (max bytes 1) [] ([], 0, 0)" by (simp add: chunk_inv_def exI [of _ "[]"])
  then have "chunk_inv (max bytes 1) ?cs (fold (chunk_step (max bytes 1) message) (char_indices 0 ?cs) ([], 0, 0))"
    using chunk_fold_inv [of "max bytes 1" "[]" "([], 0, 0)" ?cs message] to_chars_nonempty by auto
  then obtain gs cc where cs: "?cs = concat gs @ cc"
    and f: "fold (chunk_step (max bytes 1) message) (char_indices 0 ?cs) ([], 0, 0)
            = (map concat gs, length (concat (concat gs)), length (concat cc))"
    and gs: "\<forall>g\<in>set gs. group_ok (max bytes 1) g" and cc: "cc = [] \<or> group_ok (max bytes 1) cc"
    unfolding chunk_inv_def by blast
  have m: "message = concat (concat gs) @ concat cc" using arg_cong [OF cs, of concat] by simp
  have drop: "drop (length (concat (concat gs))) message = concat cc" by (subst m) simp
  show ?thesis
  proof (cases "cc = []")
    case True
    then have "message = concat (concat gs)" using m by simp
    then have "chunk_text message bytes = map concat gs" using f by (simp add: chunk_text_def)
    then show ?thesis using cs gs True by auto
  next
    case False
    then have "concat cc \<noteq> []" using to_chars_nonempty cs by (metis Un_iff concat_eq_Nil_conv last_in_set set_append)
    then have "length (concat (concat gs)) < length message" by (subst m) simp
    then have "chunk_text message bytes = map concat (gs @ [cc])" using f drop by (simp add: chunk_text_def)
    then show ?thesis using cs gs cc False by (intro exI [of _ "gs @ [cc]"]) auto
  qed
qed

lemma chunk_text_chars: "concat (map to_chars (chunk_text message bytes)) = to_chars message"
proof -
  obtain gs where gs: "chunk_text message bytes = map concat gs" "concat gs = to_chars message"
    using chunk_text_groups by blast
  then have "map (to_chars \<circ> concat) gs = gs" by (intro map_idI) (simp add: to_chars_group [of message gs])
  then show ?thesis using gs by simp
qed

lemma chunk_text_bound:
  assumes "c \<in> set (chunk_text message bytes)"
  shows "c \<noteq> [] \<and> (length c \<le> max bytes 1 \<or> length (to_chars c) = 1)"
proof -
  obtain gs where gs: "chunk_text message bytes = map concat gs" "concat gs = to_chars message" "\<forall>g\<in>set gs. group_ok (max bytes 1) g"
    using chunk_text_groups by blast
  then obtain g where g: "g \<in> set gs" "c = concat g" using assms by auto
  then have tc: "to_chars c = g" using to_chars_group [of message gs g] gs(2) by simp
  have ok: "group_ok (max bytes 1) g" using gs(3) g(1) by blast
  then have "c \<noteq> []" using tc by (auto simp: group_ok_def)
  then show ?thesis using ok g(2) tc by (simp add: group_ok_def)
qed

lemma concat_chunk_text [simp]: "concat (chunk_text message bytes) = message"
proof -
  have "concat (chunk_text message bytes) = concat (concat (map to_chars (chunk_text message bytes)))"
    by (simp only: concat_map_to_chars)
  then show ?thesis by (simp add: chunk_text_chars)
qed

subsection \<open>Every wait ends\<close>

locale clocked_session =
  fixes d :: "('w, 'z) SubmitDeps_scheme" and clock :: "'w \<Rightarrow> int"
  assumes status_clock: "clock w \<le> clock (snd (read_status d w))"
    and now_clock: "clock w \<le> fst (now_ms d w) \<and> fst (now_ms d w) \<le> clock (snd (now_ms d w))"
    and cr_clock: "clock w \<le> clock (send_cr d w)"
    and sleep_clock: "clock w + int ms \<le> clock (sleep d ms w)"
begin

lemma busy_loop_ends: "0 < poll \<Longrightarrow> \<exists>b w'. busy_loop d deadline poll w = Some (b, w') \<and> clock w \<le> clock w'"
proof (induction "nat (deadline - clock w)" arbitrary: w rule: less_induct)
  case less
  obtain s w1 where s: "read_status d w = (s, w1)" by fastforce
  obtain t w2 where t: "now_ms d w1 = (t, w2)" by fastforce
  obtain t' w3 where t': "now_ms d w2 = (t', w3)" by fastforce
  have c: "clock w \<le> clock w1" "clock w1 \<le> t" "t \<le> clock w2" "clock w2 \<le> t'" "t' \<le> clock w3"
    using status_clock [of w] now_clock [of w1] now_clock [of w2] s t t' by simp_all
  let ?w = "sleep d (min poll (nat (max 0 (deadline - t')))) w3"
  have sl: "clock w3 + int (min poll (nat (max 0 (deadline - t')))) \<le> clock ?w" by (rule sleep_clock)
  show ?case
  proof (cases "s = Some BUSY \<or> deadline \<le> t")
    case True
    then show ?thesis using s t c by (subst busy_loop.simps) auto
  next
    case False
    then have step: "busy_loop d deadline poll w = busy_loop d deadline poll ?w"
      by (subst busy_loop.simps) (simp add: s t t')
    have "nat (deadline - clock ?w) < nat (deadline - clock w)"
      using False c sl \<open>0 < poll\<close> by (simp add: min_def max_def nat_less_eq_zless split: if_splits)
    then obtain b w' where "busy_loop d deadline poll ?w = Some (b, w')" "clock ?w \<le> clock w'"
      using less by blast
    then show ?thesis using step c sl by auto
  qed
qed

lemma wait_for_busy_ends: "0 < poll \<Longrightarrow> \<exists>b w'. wait_for_busy d window poll w = Some (b, w') \<and> clock w \<le> clock w'"
proof -
  assume p: "0 < poll"
  obtain t w1 where t: "now_ms d w = (t, w1)" by fastforce
  from busy_loop_ends [OF p, of "t + int window" w1] obtain b w' where
    "busy_loop d (t + int window) poll w1 = Some (b, w')" "clock w1 \<le> clock w'" by blast
  then show ?thesis using now_clock [of w] t by (auto simp: wait_for_busy_def)
qed

lemma verify_ends:
  assumes "0 < poll_ms opts"
  shows "\<exists>oc w'. verify_accepted_then_cr d opts w = Some (oc, w') \<and> clock w \<le> clock w'"
proof -
  obtain b w1 where 1: "wait_for_busy d (settle_ms opts) (poll_ms opts) w = Some (b, w1)" "clock w \<le> clock w1"
    using wait_for_busy_ends [OF assms] by blast
  obtain s w2 where 2: "read_status d w1 = (s, w2)" by fastforce
  obtain b' w3 where 3: "wait_for_busy d (post_cr_ms opts) (poll_ms opts) (send_cr d w2) = Some (b', w3)" "clock (send_cr d w2) \<le> clock w3"
    using wait_for_busy_ends [OF assms] by blast
  have "clock w1 \<le> clock w2" using status_clock [of w1] 2 by simp
  then show ?thesis using 1 2 3 cr_clock [of w2] by (auto simp: verify_accepted_then_cr_def)
qed

lemma rounds_end:
  assumes "0 < poll_ms opts"
  shows "\<exists>oc' w'. prompt_rounds d opts n (oc, w) = Some (oc', w') \<and> clock w \<le> clock w'"
proof (induction n arbitrary: oc w)
  case (Suc n)
  obtain oc1 w1 where 1: "verify_accepted_then_cr d opts w = Some (oc1, w1)" "clock w \<le> clock w1"
    using verify_ends [OF assms] by blast
  obtain oc2 w2 where "prompt_rounds d opts n (oc1, w1) = Some (oc2, w2)" "clock w1 \<le> clock w2"
    using Suc.IH [of oc1 w1] by blast
  then show ?case using 1 by auto
qed simp

end

subsection \<open>One carriage return at most, and never a blind one\<close>

text \<open>
  \<open>R\<close> relates a world to the worlds that reading the status, reading the clock and sleeping can lead
  to.
\<close>

locale observed_session =
  fixes d :: "('w, 'z) SubmitDeps_scheme" and R :: "'w \<Rightarrow> 'w \<Rightarrow> bool"
  assumes R_refl: "R w w" and R_trans: "R u v \<Longrightarrow> R v w \<Longrightarrow> R u w"
    and R_status: "R w (snd (read_status d w))"
    and R_now: "R w (snd (now_ms d w))"
    and R_sleep: "R w (sleep d ms w)"
begin

lemma busy_loop_R':
  "busy_loop d' deadline poll w = Some y \<Longrightarrow> d' = d \<Longrightarrow> R w (snd y) \<and> (fst y \<longrightarrow> (\<exists>v. R w v \<and> read_status d v = (Some BUSY, snd y)))"
proof (induction rule: busy_loop.raw_induct [rotated, consumes 1, case_names step])
  case (step loop d' deadline poll w y)
  obtain s w1 where s: "read_status d w = (s, w1)" by fastforce
  obtain t w2 where t: "now_ms d w1 = (t, w2)" by fastforce
  obtain t' w3 where t': "now_ms d w2 = (t', w3)" by fastforce
  let ?w = "sleep d (min poll (nat (max 0 (deadline - t')))) w3"
  have R1: "R w w1" and R2: "R w w2"
    using R_status [of w] R_now [of w1] s t R_trans by auto
  have "R w w3" using R_now [of w2] t' R2 R_trans by auto
  then have R4: "R w ?w" using R_sleep R_trans by blast
  show ?case
  proof (cases "s = Some BUSY \<or> deadline \<le> t")
    case True
    then show ?thesis using step(2,3) s t R1 R2 R_refl by (auto split: if_splits intro!: exI [of _ w])
  next
    case False
    then have "loop d deadline poll ?w = Some y" using step(2,3) s t t' by simp
    from step(1) [OF this refl] show ?thesis using R4 R_trans by blast
  qed
qed

lemmas busy_loop_R = busy_loop_R' [OF _ refl]

lemma wait_for_busy_R:
  assumes "wait_for_busy d window poll w = Some (b, w')"
  shows "R w w' \<and> (b \<longrightarrow> (\<exists>v. R w v \<and> read_status d v = (Some BUSY, w')))"
proof -
  obtain t w1 where t: "now_ms d w = (t, w1)" by fastforce
  then have "busy_loop d (t + int window) poll w1 = Some (b, w')" using assms by (simp add: wait_for_busy_def)
  from busy_loop_R [OF this] R_now [of w] t R_trans show ?thesis by fastforce
qed

text \<open>
  One round: either nothing was sent and a busy status was read, or exactly one carriage return was
  sent, right after the status was read as something else.
\<close>

lemma verify_R:
  assumes "verify_accepted_then_cr d opts w = Some (oc, w')"
  shows "crs_fired oc = 0 \<and> accepted oc \<and> R w w'
    \<or> crs_fired oc = 1 \<and> (\<exists>v s v'. R w v \<and> read_status d v = (s, v') \<and> s \<noteq> Some BUSY \<and> R (send_cr d v') w')"
proof -
  obtain b w1 where 1: "wait_for_busy d (settle_ms opts) (poll_ms opts) w = Some (b, w1)"
    using assms by (auto simp: verify_accepted_then_cr_def bind_eq_Some_conv)
  obtain s w2 where 2: "read_status d w1 = (s, w2)" by fastforce
  have R1: "R w w1" using wait_for_busy_R [OF 1] by simp
  then have R2: "R w w2" using R_status [of w1] 2 R_trans by fastforce
  show ?thesis
  proof (cases "b \<or> s = Some BUSY")
    case True
    then have "crs_fired oc = 0 \<and> accepted oc \<and> R w w'"
      using assms 1 2 R1 R2 by (auto simp: verify_accepted_then_cr_def split: if_splits)
    then show ?thesis by simp
  next
    case False
    then obtain ok where 3: "wait_for_busy d (post_cr_ms opts) (poll_ms opts) (send_cr d w2) = Some (ok, w')" and "crs_fired oc = 1"
      using assms 1 2 by (auto simp: verify_accepted_then_cr_def bind_eq_Some_conv)
    then show ?thesis using wait_for_busy_R [OF 3] R1 2 False by blast
  qed
qed

text \<open>A round that reports acceptance has read a busy status.\<close>

lemma verify_accepted_busy:
  assumes "verify_accepted_then_cr d opts w = Some (oc, w')" "accepted oc"
  shows "\<exists>v. read_status d v = (Some BUSY, w')"
  using assms wait_for_busy_R
  by (fastforce simp: verify_accepted_then_cr_def bind_eq_Some_conv split: if_splits prod.splits)

end

end
