(* ===== verification/Fire_Inv.thy ===== *)
theory Fire_Inv
  imports Fire Submit_Inv
begin

text \<open>
  What a fire leaves in the log, for every schedule of human bursts. While the lock is armed the
  events are bursts, which go to the buffer, and the fire's own writes; each step of the fire is
  described by the list of its writes (\<open>armed_run\<close>), and these compose.
\<close>

subsection \<open>Reading the log\<close>

fun offered :: "Ev list \<Rightarrow> string" where
  "offered [] = []"
| "offered (Burst b # es) = b @ offered es"
| "offered (_ # es) = offered es"

fun writes :: "Ev list \<Rightarrow> (Purpose \<times> string \<times> bool) list" where
  "writes [] = []"
| "writes (Wrote p b ok # es) = (p, b, ok) # writes es"
| "writes (_ # es) = writes es"

lemma offered_append [simp]: "offered (a @ b) = offered a @ offered b"
  by (induction a rule: offered.induct) auto

lemma writes_append [simp]: "writes (a @ b) = writes a @ writes b"
  by (induction a rule: writes.induct) auto

fun io_event :: "Ev \<Rightarrow> bool" where
  "io_event (Burst _) = True"
| "io_event (Wrote _ _ _) = True"
| "io_event _ = False"

subsection \<open>The human\<close>

definition armed_run :: "(Purpose \<times> string \<times> bool) list \<Rightarrow> 'e World \<Rightarrow> 'e World \<Rightarrow> bool" where
  "armed_run ws w w' \<longleftrightarrow>
     locked (inlock w) \<and> locked (inlock w') \<and> spool w' = spool w
     \<and> (\<exists>es. log w' = log w @ es \<and> buffer (inlock w') = buffer (inlock w) @ offered es \<and> writes es = ws \<and> list_all io_event es)"

lemma armed_run_refl: "locked (inlock w) \<Longrightarrow> armed_run [] w w"
  unfolding armed_run_def by (auto intro: exI [of _ "[]"])

lemma armed_run_trans: "armed_run ws w w1 \<Longrightarrow> armed_run ws' w1 w2 \<Longrightarrow> armed_run (ws @ ws') w w2"
  unfolding armed_run_def by (elim conjE exE, intro conjI; (assumption | simp)?)

lemma armed_run_trans' [trans]: "armed_run ws w w1 \<Longrightarrow> armed_run [] w1 w2 \<Longrightarrow> armed_run ws w w2"
  using armed_run_trans by force

lemma armed_run_env: "armed_run ws w w' \<Longrightarrow> armed_run ws w (w'\<lparr>env := e\<rparr>)"
  by (simp add: armed_run_def)

lemma armed_run_write: "armed_run ws w w' \<Longrightarrow> armed_run (ws @ [(p, b, ok)]) w (note_ev (Wrote p b ok) (w'\<lparr>env := e\<rparr>))"
  unfolding armed_run_def note_ev_def
  by (elim conjE exE, intro conjI; (assumption | simp)?)

lemma armed_locked: "armed_run ws w w' \<Longrightarrow> locked (inlock w) \<and> locked (inlock w')"
  by (simp add: armed_run_def)

lemma human_turn_armed: "locked (inlock w) \<Longrightarrow> armed_run [] w (human_turn E th bt w)"
  by (cases bt) (auto simp: human_turn_def journal_admit_passthrough_def admit_def note_ev_def armed_run_def)

lemma fold_human_armed: "locked (inlock w) \<Longrightarrow> armed_run [] w (fold (human_turn E th) bts w)"
proof (induction bts arbitrary: w)
  case (Cons bt bts)
  from human_turn_armed [OF Cons.prems] have 1: "armed_run [] w (human_turn E th bt w)" .
  then have "armed_run [] (human_turn E th bt w) (fold (human_turn E th) bts (human_turn E th bt w))"
    using Cons.IH armed_locked by blast
  from armed_run_trans [OF 1 this] show ?case by simp
qed (simp add: armed_run_refl)

lemma interleave_armed: "locked (inlock w) \<Longrightarrow> armed_run [] w (interleave E th w)"
  using fold_human_armed [of "w\<lparr>sched := tl (sched w)\<rparr>" E th "hd (sched w)"] armed_run_refl [of w]
  by (cases "sched w") (auto simp: interleave_def armed_run_def)

text \<open>While the lock is free, what is typed goes straight to the terminal.\<close>

fun typed :: "(string \<times> bool) list \<Rightarrow> Ev list" where
  "typed [] = []"
| "typed ((b, ok) # bs) = Burst b # Wrote Human b ok # typed bs"

lemma typed_append: "typed (a @ b) = typed a @ typed b"
  by (induction a rule: typed.induct) auto

definition burst_draft :: "nat \<Rightarrow> string \<Rightarrow> string \<Rightarrow> string" where
  "burst_draft th b d = fst (fold (journal_byte (th \<le> length b)) b (d, False))"

definition draft_after :: "nat \<Rightarrow> string list \<Rightarrow> string \<Rightarrow> string" where
  "draft_after th bs d = fold (burst_draft th) bs d"

definition free_run :: "nat \<Rightarrow> 'e World \<Rightarrow> 'e World \<Rightarrow> bool" where
  "free_run th w w' \<longleftrightarrow>
     \<not> locked (inlock w) \<and> inlock w' = inlock w \<and> spool w' = spool w
     \<and> (\<exists>bs. log w' = log w @ typed bs \<and> draft (journal w') = draft_after th (map fst bs) (draft (journal w)))"

lemma free_run_refl: "\<not> locked (inlock w) \<Longrightarrow> free_run th w w"
  unfolding free_run_def by (auto simp: draft_after_def intro: exI [of _ "[]"])

lemma free_run_trans [trans]: "free_run th w w1 \<Longrightarrow> free_run th w1 w2 \<Longrightarrow> free_run th w w2"
  unfolding free_run_def
proof (elim conjE exE, intro conjI)
  fix bs bs'
  assume "log w1 = log w @ typed bs" "draft (journal w1) = draft_after th (map fst bs) (draft (journal w))"
    "log w2 = log w1 @ typed bs'" "draft (journal w2) = draft_after th (map fst bs') (draft (journal w1))"
  then have "log w2 = log w @ typed (bs @ bs') \<and> draft (journal w2) = draft_after th (map fst (bs @ bs')) (draft (journal w))"
    by (simp add: typed_append draft_after_def)
  then show "\<exists>bs. log w2 = log w @ typed bs \<and> draft (journal w2) = draft_after th (map fst bs) (draft (journal w))" by blast
qed simp_all

lemma free_run_env: "free_run th w w' \<Longrightarrow> free_run th w (w'\<lparr>env := e\<rparr>)"
  by (simp add: free_run_def)

lemma free_unlocked: "free_run th w w' \<Longrightarrow> \<not> locked (inlock w')"
  by (simp add: free_run_def)

lemma human_turn_free: "\<not> locked (inlock w) \<Longrightarrow> free_run th w (human_turn E th bt w)"
proof -
  assume f: "\<not> locked (inlock w)"
  obtain b t where bt: "bt = (b, t)" by fastforce
  obtain ok e where e: "e_write E b (env w) = (ok, e)" by fastforce
  have "log (human_turn E th bt w) = log w @ typed [(b, ok)]" and "inlock (human_turn E th bt w) = inlock w"
    and "spool (human_turn E th bt w) = spool w" and "draft (journal (human_turn E th bt w)) = burst_draft th b (draft (journal w))"
    using f e by (simp_all add: bt human_turn_def journal_admit_passthrough_def admit_def note_ev_def write_pty_def
        on_human_input_def burst_draft_def split_beta)
  then show ?thesis using f unfolding free_run_def draft_after_def
    by (intro conjI exI [of _ "[(b, ok)]"]) simp_all
qed

lemma fold_human_free: "\<not> locked (inlock w) \<Longrightarrow> free_run th w (fold (human_turn E th) bts w)"
proof (induction bts arbitrary: w)
  case (Cons bt bts)
  from human_turn_free [OF Cons.prems] have 1: "free_run th w (human_turn E th bt w)" .
  from free_run_trans [OF 1 Cons.IH [OF free_unlocked [OF 1]]] show ?case by simp
qed (simp add: free_run_refl)

lemma interleave_free: "\<not> locked (inlock w) \<Longrightarrow> free_run th w (interleave E th w)"
  using fold_human_free [of "w\<lparr>sched := tl (sched w)\<rparr>" th E "hd (sched w)"] free_run_refl [of w th]
  by (cases "sched w") (auto simp: interleave_def free_run_def)

subsection \<open>The effects\<close>

lemma write_pty_armed:
  "armed_run ws w w1 \<Longrightarrow> armed_run (ws @ [(p, b, fst (write_pty E p b w1))]) w (snd (write_pty E p b w1))"
  by (cases "e_write E b (env w1)") (simp add: write_pty_def armed_run_write)

lemma live_sel:
  "read_status (live_effects E th src) = (\<lambda>w. let w = interleave E th w in if has_status src then lift_env w (e_status E (env w)) else (None, w))"
  "send_cr (live_effects E th src) = (\<lambda>w. snd (write_pty E Return [CR] (interleave E th w)))"
  "sleep (live_effects E th src) = (\<lambda>ms w. let w = interleave E th w in w\<lparr>env := e_sleep E ms (env w)\<rparr>)"
  "now_ms (live_effects E th src) = (\<lambda>w. let w = interleave E th w in lift_env w (e_now E (env w)))"
  "send_text (live_effects E th src) = (\<lambda>t w. snd (write_pty E Text t (interleave E th w)))"
  "read_screen (live_effects E th src) = (\<lambda>w. let w = interleave E th w in lift_env w (e_screen E (env w)))"
  "write_raw (live_effects E th src) = (\<lambda>p bytes w. write_pty E p bytes (interleave E th w))"
  "acceptance_confirmable (live_effects E th src) = confirmable_acceptance src"
  by (simp_all add: live_effects_def)

lemma lift_env_snd: "snd (lift_env w xe) = w\<lparr>env := snd xe\<rparr>"
  by (simp add: lift_env_def split_beta)

lemma lift_env_fst: "fst (lift_env w xe) = fst xe"
  by (simp add: lift_env_def split_beta)

lemma effects_armed:
  assumes "locked (inlock w)"
  shows "armed_run [] w (snd (read_status (live_effects E th src) w))"
    "armed_run [] w (sleep (live_effects E th src) ms w)"
    "armed_run [] w (snd (now_ms (live_effects E th src) w))"
    "armed_run [] w (snd (read_screen (live_effects E th src) w))"
    "armed_run [(p, b, fst (write_raw (live_effects E th src) p b w))] w (snd (write_raw (live_effects E th src) p b w))"
    "\<exists>ok. armed_run [(Return, [CR], ok)] w (send_cr (live_effects E th src) w)"
    "\<exists>ok. armed_run [(Text, t, ok)] w (send_text (live_effects E th src) t w)"
  using interleave_armed [OF assms, of E th] write_pty_armed [OF interleave_armed [OF assms, of E th], of p b E]
    write_pty_armed [OF interleave_armed [OF assms, of E th], of Return "[CR]" E]
    write_pty_armed [OF interleave_armed [OF assms, of E th], of Text t E]
  by (auto simp: live_sel Let_def lift_env_snd armed_run_env)

lemma effects_free:
  assumes "\<not> locked (inlock w)"
  shows "free_run th w (snd (read_status (live_effects E th src) w))"
    "free_run th w (sleep (live_effects E th src) ms w)"
    "free_run th w (snd (now_ms (live_effects E th src) w))"
    "free_run th w (snd (scan E th probe r message w))"
  using interleave_free [OF assms, of th E]
  by (auto simp: live_sel Let_def lift_env_snd free_run_env scan_def split_beta split: option.split)

subsection \<open>The steps of a fire\<close>

abbreviation what :: "(Purpose \<times> string \<times> bool) list \<Rightarrow> (Purpose \<times> string) list" where
  "what ws \<equiv> map (\<lambda>(p, b, ok). (p, b)) ws"

lemma sleep_if_armed:
  "locked (inlock w) \<Longrightarrow> armed_run [] w (if c then sleep (live_effects E th src) ms w else w)"
  using effects_armed(2) armed_run_refl by auto

lemma verify_attempt_armed:
  "locked (inlock w) \<Longrightarrow> armed_run [] w (snd (verify_attempt (live_effects E th src) facts retry n w))"
proof (induction n arbitrary: w)
  case (Suc n)
  let ?fx = "live_effects E th src"
  obtain s w1 where s: "read_screen ?fx w = (s, w1)" by fastforce
  have 1: "armed_run [] w w1" using effects_armed(4) [OF Suc.prems, of E th src] s by simp
  let ?w2 = "if 0 < n then sleep ?fx retry w1 else w1"
  have "armed_run [] w1 ?w2" using armed_locked [OF 1] sleep_if_armed by blast
  with 1 have 2: "armed_run [] w ?w2" by (rule armed_run_trans')
  then have "armed_run [] ?w2 (snd (verify_attempt ?fx facts retry n ?w2))" using Suc.IH armed_locked by blast
  with 2 have "armed_run [] w (snd (verify_attempt ?fx facts retry n ?w2))" by (rule armed_run_trans')
  then show ?case using s 1 by simp
qed (simp add: armed_run_refl)

lemma press_chord_armed:
  "locked (inlock w) \<Longrightarrow>
   \<exists>ws. armed_run ws w (snd (press_chord (live_effects E th src) strat n w)) \<and> set (what ws) \<subseteq> {(Clear, chord strat)} \<and> (0 < n \<longrightarrow> ws \<noteq> [])"
proof (induction n arbitrary: w)
  case (Suc n)
  let ?fx = "live_effects E th src"
  obtain ok w1 where wr: "write_raw ?fx Clear (chord strat) w = (ok, w1)" by fastforce
  have 1: "armed_run [(Clear, chord strat, ok)] w w1"
    using effects_armed(5) [OF Suc.prems, of Clear "chord strat" E th src] wr by simp
  let ?w2 = "if 0 < clear_settle_ms strat then sleep ?fx (clear_settle_ms strat) w1 else w1"
  have "armed_run [] w1 ?w2" using armed_locked [OF 1] sleep_if_armed by blast
  with 1 have 2: "armed_run [(Clear, chord strat, ok)] w ?w2" by (rule armed_run_trans')
  then obtain ws where "armed_run ws ?w2 (snd (press_chord ?fx strat n ?w2))" "set (what ws) \<subseteq> {(Clear, chord strat)}"
    using Suc.IH armed_locked by blast
  with armed_run_trans [OF 2] have 3: "armed_run ((Clear, chord strat, ok) # ws) w (snd (press_chord ?fx strat n ?w2))" by force
  show ?case
  proof (cases ok)
    case True
    have "snd (press_chord ?fx strat (Suc n) w) = snd (press_chord ?fx strat n ?w2)" using wr True by simp
    then show ?thesis using 3 \<open>set (what ws) \<subseteq> _\<close> by (intro exI [of _ "(Clear, chord strat, ok) # ws"]) auto
  next
    case False
    have "snd (press_chord ?fx strat (Suc n) w) = w1" using wr False by simp
    then show ?thesis using 1 by (intro exI [of _ "[(Clear, chord strat, ok)]"]) auto
  qed
qed (auto simp: armed_run_refl intro: exI [of _ "[]"])

lemma clear_composer_armed:
  assumes "locked (inlock w)"
  shows "\<exists>ws. armed_run ws w (snd (clear_composer (live_effects E th src) facts w))
    \<and> set (what ws) = {(Clear, chord (clear_strategy facts))}"
proof -
  let ?fx = "live_effects E th src" and ?st = "clear_strategy facts"
  obtain ok w1 where pc: "press_chord ?fx ?st (max (presses ?st) 1) w = (ok, w1)" by fastforce
  obtain s w2 where rs: "read_screen ?fx w1 = (s, w2)" by fastforce
  obtain ws where 1: "armed_run ws w w1" and ws: "set (what ws) \<subseteq> {(Clear, chord ?st)}" "ws \<noteq> []"
    using press_chord_armed [OF assms, of E th src ?st "max (presses ?st) 1"] pc by auto
  have "armed_run [] w1 w2" using effects_armed(4) armed_locked [OF 1] rs by (metis snd_conv)
  with 1 have 2: "armed_run ws w w2" by (rule armed_run_trans')
  have eq: "set (what ws) = {(Clear, chord ?st)}" using ws by (cases ws) auto
  have "snd (clear_composer ?fx facts w) \<in> {w1, w2}"
    using pc rs by (simp add: clear_composer_def Let_def)
  then show ?thesis using 1 2 eq by auto
qed

lemma send_chunks_armed:
  "locked (inlock w) \<Longrightarrow>
   \<exists>ws. armed_run ws w (send_chunks (send_text (live_effects E th src)) (sleep (live_effects E th src)) ms i chunks w)
     \<and> what ws = map (Pair Text) chunks"
proof (induction chunks arbitrary: w i)
  case (Cons c cs)
  let ?fx = "live_effects E th src"
  let ?w1 = "if 0 < i then sleep ?fx ms w else w"
  have 1: "armed_run [] w ?w1" using Cons.prems by (rule sleep_if_armed)
  then obtain ok where "armed_run [(Text, c, ok)] ?w1 (send_text ?fx c ?w1)" using effects_armed(7) armed_locked by blast
  with armed_run_trans [OF 1] have 2: "armed_run [(Text, c, ok)] w (send_text ?fx c ?w1)" by force
  then obtain ws where ws: "armed_run ws (send_text ?fx c ?w1) (send_chunks (send_text ?fx) (sleep ?fx) ms (i + 1) cs (send_text ?fx c ?w1))"
    "what ws = map (Pair Text) cs"
    using Cons.IH armed_locked by blast
  from armed_run_trans [OF 2 ws(1)] ws(2) show ?case
    by (intro exI [of _ "(Text, c, ok) # ws"]) simp
qed (auto simp: armed_run_refl)

lemma send_text_chunked_armed:
  assumes "locked (inlock w)"
  shows "\<exists>ws. armed_run ws w (send_text_chunked (send_text (live_effects E th src)) (sleep (live_effects E th src)) message opts w)
     \<and> what ws = map (Pair Text) (chunk_text message (chunk_bytes opts))"
  unfolding send_text_chunked_def by (rule send_chunks_armed [OF assms])

subsection \<open>The submit discipline on the live terminal\<close>

definition stays_armed :: "'e World \<Rightarrow> 'e World \<Rightarrow> bool" where
  "stays_armed w w' \<longleftrightarrow> (locked (inlock w) \<longrightarrow> armed_run [] w w')"

lemma stays_armed_trans: "stays_armed u v \<Longrightarrow> stays_armed v w \<Longrightarrow> stays_armed u w"
  unfolding stays_armed_def using armed_run_trans' armed_locked by blast

interpretation live: observed_session "content_verified (live_effects E th src) message region" stays_armed
  for E th src message region
proof
  fix u v w :: "'a World" and ms
  show "stays_armed w w" by (simp add: stays_armed_def armed_run_refl)
  show "stays_armed u v \<Longrightarrow> stays_armed v w \<Longrightarrow> stays_armed u w" by (rule stays_armed_trans)
  show "stays_armed w (snd (read_status (content_verified (live_effects E th src) message region) w))"
    "stays_armed w (snd (now_ms (content_verified (live_effects E th src) message region) w))"
    "stays_armed w (sleep (content_verified (live_effects E th src) message region) ms w)"
    by (simp_all add: content_verified_def stays_armed_def effects_armed)
qed

text \<open>
  The remediation: at most one carriage return, and only if the screen read right before it shows the
  message in the composer.
\<close>

lemma content_cr_armed:
  assumes "locked (inlock w)"
  shows "armed_run [] w (send_cr (content_verified (live_effects E th src) message region) w)
    \<or> (\<exists>v ok. armed_run [] w v \<and> composer_holds_message_in (fst (read_screen (live_effects E th src) w)) message region
         \<and> armed_run [(Return, [CR], ok)] w (send_cr (content_verified (live_effects E th src) message region) w))"
proof -
  let ?fx = "live_effects E th src"
  obtain s w1 where rs: "read_screen ?fx w = (s, w1)" by fastforce
  have 1: "armed_run [] w w1" using effects_armed(4) [OF assms, of E th src] rs by simp
  then obtain ok where "armed_run [(Return, [CR], ok)] w1 (send_cr ?fx w1)" using effects_armed(6) armed_locked by blast
  with armed_run_trans [OF 1] have 2: "armed_run [(Return, [CR], ok)] w (send_cr ?fx w1)" by force
  show ?thesis using 1 2 rs by (auto simp: content_verified_def)
qed

lemma verify_armed:
  assumes "locked (inlock w)" "verify_accepted_then_cr (content_verified (live_effects E th src) message region) opts w = Some (oc, w')"
  shows "armed_run [] w w'
    \<or> (\<exists>v v' ok. armed_run [] w v \<and> fst (read_status (live_effects E th src) v) \<noteq> Some BUSY \<and> armed_run [] w v'
         \<and> composer_holds_message_in (fst (read_screen (live_effects E th src) v')) message region \<and> armed_run [(Return, [CR], ok)] w w')"
proof -
  let ?fx = "live_effects E th src"
  let ?d = "content_verified ?fx message region"
  consider "stays_armed w w'"
    | v s v' where "stays_armed w v" "read_status ?d v = (s, v')" "s \<noteq> Some BUSY" "stays_armed (send_cr ?d v') w'"
    using live.verify_R [OF assms(2)] by blast
  then show ?thesis
  proof cases
    case 1
    then show ?thesis using assms(1) by (simp add: stays_armed_def)
  next
    case 2
    have v: "armed_run [] w v" using 2(1) assms(1) by (simp add: stays_armed_def)
    have st: "read_status ?fx v = (s, v')" using 2(2) by (simp add: content_verified_def)
    then have "armed_run [] v v'" using effects_armed(1) armed_locked [OF v] by (metis snd_conv)
    with v have v': "armed_run [] w v'" by (rule armed_run_trans')
    from content_cr_armed [of v' E th src message region] armed_locked [OF v']
    consider "armed_run [] v' (send_cr ?d v')"
      | ok where "composer_holds_message_in (fst (read_screen ?fx v')) message region" "armed_run [(Return, [CR], ok)] v' (send_cr ?d v')"
      by blast
    then show ?thesis
    proof cases
      case 1
      then have "armed_run [] (send_cr ?d v') w'" using 2(4) armed_locked unfolding stays_armed_def by blast
      then show ?thesis using v' 1 armed_run_trans' by blast
    next
      case cr: 2
      then have "armed_run [] (send_cr ?d v') w'" using 2(4) armed_locked unfolding stays_armed_def by blast
      with cr(2) have "armed_run [(Return, [CR], ok)] v' w'" by (rule armed_run_trans')
      with armed_run_trans [OF v'] have "armed_run [(Return, [CR], ok)] w w'" by force
      then show ?thesis using v v' st 2(3) cr(1) by (metis fst_conv)
    qed
  qed
qed

text \<open>What the injection writes: the message in chunks, a carriage return, and at most one more.\<close>

lemma inject_armed:
  assumes "locked (inlock w)" "inject (live_effects E th src) facts message cfg w = Some (acc, w')"
  shows "\<exists>ws. armed_run ws w w' \<and>
    (what ws = map (Pair Text) (chunk_text message CHUNK_BYTES) @ [(Return, [CR])]
     \<or> acceptance_signal facts = BusyTransition
       \<and> what ws = map (Pair Text) (chunk_text message CHUNK_BYTES) @ [(Return, [CR]), (Return, [CR])])"
proof -
  let ?fx = "live_effects E th src"
  let ?w1 = "send_text_chunked (send_text ?fx) (sleep ?fx) message default_chunk_options w"
  let ?w2 = "send_cr ?fx (sleep ?fx TWO_WRITE_SETTLE_MS ?w1)"
  obtain ws where 1: "armed_run ws w ?w1" and ws: "what ws = map (Pair Text) (chunk_text message CHUNK_BYTES)"
    using send_text_chunked_armed [OF assms(1), of E th src message default_chunk_options] by (auto simp: default_chunk_options_def)
  have "armed_run [] ?w1 (sleep ?fx TWO_WRITE_SETTLE_MS ?w1)" using effects_armed(2) armed_locked [OF 1] by blast
  with 1 have 2: "armed_run ws w (sleep ?fx TWO_WRITE_SETTLE_MS ?w1)" by (rule armed_run_trans')
  then obtain ok where "armed_run [(Return, [CR], ok)] (sleep ?fx TWO_WRITE_SETTLE_MS ?w1) ?w2" using effects_armed(6) armed_locked by blast
  from armed_run_trans [OF 2 this] have 3: "armed_run (ws @ [(Return, [CR], ok)]) w ?w2" .
  show ?thesis
  proof (cases "acceptance_signal facts")
    case Landing
    then have "w' = ?w2" using assms(2) by (simp add: inject_def)
    then show ?thesis using 3 ws by (intro exI [of _ "ws @ [(Return, [CR], ok)]"]) simp
  next
    case BusyTransition
    then obtain oc where v: "verify_accepted_then_cr (content_verified ?fx message (composer_region facts)) (submit cfg) ?w2 = Some (oc, w')"
      using assms(2) by (auto simp: inject_def deliver_idle_two_write_in_region_def deliver_idle_two_write_with_region_def Let_def)
    have l: "locked (inlock ?w2)" using armed_locked [OF 3] by simp
    from verify_armed [OF l v] consider "armed_run [] ?w2 w'" | ok' where "armed_run [(Return, [CR], ok')] ?w2 w'" by blast
    then show ?thesis
    proof cases
      case 1
      with 3 have "armed_run (ws @ [(Return, [CR], ok)]) w w'" by (rule armed_run_trans')
      then show ?thesis using ws by (intro exI [of _ "ws @ [(Return, [CR], ok)]"]) simp
    next
      case 2
      from armed_run_trans [OF 3 this] have "armed_run (ws @ [(Return, [CR], ok), (Return, [CR], ok')]) w w'" by simp
      then show ?thesis using ws BusyTransition by (intro exI [of _ "ws @ [(Return, [CR], ok), (Return, [CR], ok')]"]) simp
    qed
  qed
qed

lemma inject_Landing: "acceptance_signal facts = Landing \<Longrightarrow> inject fx facts message cfg w = Some (a, w') \<Longrightarrow> a"
  by (simp add: inject_def)

subsection \<open>The end of a fire\<close>

definition armed_seg :: "Ev list \<Rightarrow> 'e World \<Rightarrow> 'e World \<Rightarrow> bool" where
  "armed_seg es w w' \<longleftrightarrow>
     locked (inlock w) \<and> locked (inlock w') \<and> log w' = log w @ es \<and> buffer (inlock w') = buffer (inlock w) @ offered es"

lemma armed_run_seg: "armed_run ws w w' \<Longrightarrow> \<exists>es. armed_seg es w w' \<and> writes es = ws \<and> list_all io_event es"
  by (auto simp: armed_run_def armed_seg_def)

lemma armed_seg_trans: "armed_seg es w w1 \<Longrightarrow> armed_seg es' w1 w2 \<Longrightarrow> armed_seg (es @ es') w w2"
  by (auto simp: armed_seg_def)

lemma spool_record_seg:
  assumes "locked (inlock w)" "spool_record E th r w = (ok, w')"
  shows "\<exists>es. armed_seg (es @ [Spooled r ok]) w w' \<and> writes es = [] \<and> list_all io_event es"
proof -
  obtain es where "armed_seg es w (interleave E th w)" "writes es = []" "list_all io_event es"
    using armed_run_seg [OF interleave_armed [OF assms(1), of E th]] by blast
  then show ?thesis using assms(2)
    by (intro exI [of _ es]) (auto simp: spool_record_def Let_def armed_seg_def note_ev_def split: prod.splits)
qed

lemma write_unless_empty_armed:
  assumes "locked (inlock w)"
  shows "\<exists>ws. armed_run ws w (write_unless_empty (live_effects E th src) p b w) \<and> what ws = (if b = [] then [] else [(p, b)])"
proof (cases "b = []")
  case True
  then show ?thesis using armed_run_refl [OF assms] by (auto simp: write_unless_empty_def)
next
  case False
  then show ?thesis using effects_armed(5) [OF assms, of p b E th src]
    by (intro exI [of _ "[(p, b, fst (write_raw (live_effects E th src) p b w))]"]) (auto simp: write_unless_empty_def)
qed

text \<open>
  Unlocking and flushing: the held bytes are written in one piece, after whatever was typed between
  the two.
\<close>

definition flush_events :: "string \<Rightarrow> (string \<times> bool) list \<Rightarrow> bool \<Rightarrow> Ev list" where
  "flush_events held bs ok = (if held = [] then [] else typed bs @ [Wrote Flush held ok])"

lemma unlock_and_drain: "unlock_and_drain l = (buffer l, new_lock)"
  by (cases l) (simp add: unlock_and_drain_def new_lock_def)

lemma unlock_and_flush_log:
  assumes "locked (inlock w)"
  shows "\<exists>es bs ok. list_all io_event es \<and> writes es = []
    \<and> log (unlock_and_flush E th (live_effects E th src) w)
       = log w @ es @ [Unlocked] @ flush_events (buffer (inlock w) @ offered es) bs ok
    \<and> inlock (unlock_and_flush E th (live_effects E th src) w) = new_lock"
proof -
  let ?fx = "live_effects E th src"
  let ?wi = "interleave E th w"
  obtain es where es: "armed_seg es w ?wi" "writes es = []" "list_all io_event es"
    using armed_run_seg [OF interleave_armed [OF assms, of E th]] by blast
  let ?held = "buffer (inlock w) @ offered es"
  let ?w1 = "note_ev Unlocked (?wi\<lparr>inlock := new_lock\<rparr>)"
  have un: "unlock_input E th w = (?held, ?w1)"
    using es(1) by (simp add: unlock_input_def unlock_and_drain armed_seg_def Let_def)
  have l1: "log ?w1 = log w @ es @ [Unlocked]" "inlock ?w1 = new_lock" using es(1) by (simp_all add: note_ev_def armed_seg_def)
  have "\<not> locked (inlock ?w1)" using l1(2) by (simp add: new_lock_def)
  then have "free_run th ?w1 (interleave E th ?w1)" by (rule interleave_free)
  then obtain bs where bs: "log (interleave E th ?w1) = log ?w1 @ typed bs" "inlock (interleave E th ?w1) = new_lock"
    using l1(2) by (auto simp: free_run_def)
  obtain ok e where e: "e_write E ?held (env (interleave E th ?w1)) = (ok, e)" by fastforce
  have "log (unlock_and_flush E th ?fx w) = log w @ es @ [Unlocked] @ flush_events ?held bs ok
      \<and> inlock (unlock_and_flush E th ?fx w) = new_lock"
    using l1 bs e by (simp add: unlock_and_flush_def un write_unless_empty_def live_sel write_pty_def flush_events_def)
      (simp add: note_ev_def)
  then show ?thesis using es(2,3) by blast
qed

text \<open>
  The landing poll only reads. It reports the message as seen only on a scan that found it, and a
  recipient as gone only if its status could not be read; that scan or that read is the last thing it does.
\<close>

definition landing_outcome ::
  "'e Env \<Rightarrow> nat \<Rightarrow> 'e World FireEffects \<Rightarrow> LandingProbe \<Rightarrow> PendingRecord \<Rightarrow> string \<Rightarrow> AcceptanceSignal \<Rightarrow> FireOutcome \<Rightarrow> 'e World \<Rightarrow> bool"
where
  "landing_outcome E th fx probe r message signal oc w' \<longleftrightarrow>
     oc = FirePending
     \<or> oc = Terminal (MessageSeen (send_id r) (content_sha256 r)) \<and> (\<exists>v. scan E th probe r message v = (ScanLanded, w'))
     \<or> (\<exists>sha len. oc = Terminal (TurnAnchoredMismatch (send_id r) (content_sha256 r) sha (content_len r) len False None)
          \<and> (\<exists>v. scan E th probe r message v = (ScanMismatch sha len, w')))
     \<or> oc = Terminal (SeenFailed (send_id r) ''recipient-gone'') \<and> signal = BusyTransition \<and> (\<exists>v. read_status fx v = (None, w'))"

lemma landing_loop_run':
  "landing_loop E' th' fx probe r message poll signal deadline w = Some y \<Longrightarrow> E' = E \<and> th' = th \<and> fx = live_effects E th src \<Longrightarrow>
   \<not> locked (inlock w) \<Longrightarrow> free_run th w (snd y) \<and> landing_outcome E th fx probe r message signal (fst y) (snd y)"
proof (induction rule: landing_loop.raw_induct [rotated, consumes 1, case_names step])
  case (step loop E' th' fx probe r message poll signal deadline w y)
  then have fx: "E' = E" "th' = th" "fx = live_effects E th src" and free: "\<not> locked (inlock w)" by auto
  obtain sc w1 where sc: "scan E th probe r message w = (sc, w1)" by fastforce
  obtain s w2 where s: "(if signal = BusyTransition then read_status fx w1 else (Some [], w1)) = (s, w2)" by fastforce
  obtain t w3 where t: "now_ms fx w2 = (t, w3)" by fastforce
  have 1: "free_run th w w1" using effects_free(4) [OF free, of th E probe r message] sc by simp
  have "free_run th w1 w2"
    using s effects_free(1) [OF free_unlocked [OF 1], of th E src] free_run_refl [OF free_unlocked [OF 1]] fx(3) by (auto split: if_splits)
  with 1 have 2: "free_run th w w2" by (rule free_run_trans)
  have "free_run th w2 w3" using t effects_free(3) [OF free_unlocked [OF 2], of th E src] fx(3) by simp
  with 2 have 3: "free_run th w w3" by (rule free_run_trans)
  have "free_run th w3 (sleep fx poll w3)" using effects_free(2) [OF free_unlocked [OF 3]] fx(3) by simp
  with 3 have 4: "free_run th w (sleep fx poll w3)" by (rule free_run_trans)
  show ?case
  proof (cases sc)
    case ScanLanded
    then have "y = (Terminal (MessageSeen (send_id r) (content_sha256 r)), w1)" using step(2) sc fx by simp
    then show ?thesis using 1 sc ScanLanded unfolding landing_outcome_def by (metis fst_conv snd_conv)
  next
    case (ScanMismatch sha len)
    then have "y = (Terminal (TurnAnchoredMismatch (send_id r) (content_sha256 r) sha (content_len r) len False None), w1)"
      using step(2) sc fx by simp
    then show ?thesis using 1 sc ScanMismatch unfolding landing_outcome_def by (metis fst_conv snd_conv)
  next
    case ScanUnconfirmed
    then have y: "(if s = None then Some (Terminal (SeenFailed (send_id r) ''recipient-gone''), w2)
        else if deadline \<le> t then Some (FirePending, w3) else loop E th fx probe r message poll signal deadline (sleep fx poll w3)) = Some y"
      using step(2) sc s t fx(1,2) by (cases s) (simp_all split: if_splits)
    consider "s = None" | "s \<noteq> None" "deadline \<le> t" | "s \<noteq> None" "\<not> deadline \<le> t" by blast
    then show ?thesis
    proof cases
      case 1
      then have "signal = BusyTransition" "read_status fx w1 = (None, w2)" using s by (auto split: if_splits)
      then show ?thesis using 1 2 y unfolding landing_outcome_def by auto
    next
      case 2
      then show ?thesis using 3 y by (auto simp: landing_outcome_def)
    next
      case 3
      then have "loop E th fx probe r message poll signal deadline (sleep fx poll w3) = Some y" using y by auto
      from step(1) [OF this] fx free_unlocked [OF 4] 4 show ?thesis using free_run_trans by blast
    qed
  qed
qed

lemma landing_terminal_run:
  assumes "landing_terminal E th (live_effects E th src) probe r message cfg signal w = Some (oc, w')" "\<not> locked (inlock w)"
  shows "free_run th w w'" "landing_outcome E th (live_effects E th src) probe r message signal oc w'"
proof -
  obtain t w1 where t: "now_ms (live_effects E th src) w = (t, w1)" by fastforce
  have 1: "free_run th w w1" using effects_free(3) [OF assms(2), of th E src] t by simp
  have "landing_loop E th (live_effects E th src) probe r message (landing_poll_ms cfg) signal (t + landing_window_ms cfg) w1 = Some (oc, w')"
    using assms(1) t by (simp add: landing_terminal_def)
  from landing_loop_run' [OF this] free_unlocked [OF 1] have "free_run th w1 w'" and oc: "landing_outcome E th (live_effects E th src) probe r message signal oc w'"
    by auto
  with 1 show "free_run th w w'" by (blast intro: free_run_trans)
  show "landing_outcome E th (live_effects E th src) probe r message signal oc w'" by (rule oc)
qed

end
