(* ===== verification/Fire_Log.thy ===== *)
theory Fire_Log
  imports Fire_Inv
begin

text \<open>
  The log of one whole fire: what was typed before the lock, the armed segment with the fire's own
  writes and spool writes in order, the release, the flush, and what was typed afterwards.
\<close>

definition quiet_events :: "Ev list \<Rightarrow> bool" where
  "quiet_events es \<longleftrightarrow> list_all io_event es \<and> writes es = []"

lemma quiet_append [simp]: "quiet_events (a @ b) \<longleftrightarrow> quiet_events a \<and> quiet_events b"
  by (auto simp: quiet_events_def)

definition replayed :: "string \<Rightarrow> (Purpose \<times> string) list" where
  "replayed dr = (if dr = [] then [] else [(Replay, dr)])"

definition injected :: "HarnessFacts \<Rightarrow> string \<Rightarrow> (Purpose \<times> string) list \<Rightarrow> bool" where
  "injected facts message txts \<longleftrightarrow>
     txts = map (Pair Text) (chunk_text message CHUNK_BYTES) @ [(Return, [CR])]
     \<or> acceptance_signal facts = BusyTransition \<and> txts = map (Pair Text) (chunk_text message CHUNK_BYTES) @ [(Return, [CR]), (Return, [CR])]"

text \<open>The four ways in which the armed segment goes.\<close>

definition blocked_segment :: "PendingRecord \<Rightarrow> Ev list \<Rightarrow> FireOutcome \<Rightarrow> bool" where
  "blocked_segment r0 es oc \<longleftrightarrow> quiet_events es \<and> oc = send_failed r0 ''verify-blocked''"

definition unspooled_segment :: "PendingRecord \<Rightarrow> string \<Rightarrow> Ev list \<Rightarrow> FireOutcome \<Rightarrow> bool" where
  "unspooled_segment r0 dr es oc \<longleftrightarrow>
     (\<exists>a b. es = a @ [Spooled (start_record dr r0) False] @ b \<and> quiet_events a \<and> quiet_events b) \<and> oc = send_failed r0 ''inject-failed''"

definition failed_segment :: "PendingRecord \<Rightarrow> string \<Rightarrow> string \<Rightarrow> HarnessFacts \<Rightarrow> Ev list \<Rightarrow> FireOutcome \<Rightarrow> bool" where
  "failed_segment r0 dr message facts es oc \<longleftrightarrow>
     (\<exists>a b cl txts. es = a @ [Spooled (start_record dr r0) True] @ b \<and> quiet_events a \<and> list_all io_event b
        \<and> what (writes b) = cl @ txts @ replayed dr \<and> set cl = {(Clear, chord (clear_strategy facts))}
        \<and> (txts = [] \<or> injected facts message txts \<and> acceptance_signal facts = BusyTransition \<and> oc = send_failed r0 ''not-accepted''))
     \<and> (\<exists>reason. oc = send_failed r0 reason)"

definition completed_segment ::
  "PendingRecord \<Rightarrow> string \<Rightarrow> string \<Rightarrow> HarnessFacts \<Rightarrow> Ev list \<Rightarrow> bool"
where
  "completed_segment r0 dr message facts es \<longleftrightarrow>
     (\<exists>a b c cl txts ok. es = a @ [Spooled (start_record dr r0) True] @ b @ [Spooled (complete_record (start_record dr r0)) ok] @ c
        \<and> quiet_events a \<and> list_all io_event b \<and> list_all io_event c
        \<and> what (writes b) = cl @ txts \<and> set cl = {(Clear, chord (clear_strategy facts))} \<and> injected facts message txts
        \<and> what (writes c) = replayed dr)"

definition fire_segment ::
  "'e Env \<Rightarrow> nat \<Rightarrow> StatusSource \<Rightarrow> HarnessFacts \<Rightarrow> LandingProbe \<Rightarrow> PendingRecord \<Rightarrow> string \<Rightarrow> string \<Rightarrow> Ev list \<Rightarrow> FireOutcome \<Rightarrow> 'e World \<Rightarrow> bool"
where
  "fire_segment E th src facts probe r0 dr message es oc w' \<longleftrightarrow>
     blocked_segment r0 es oc \<or> unspooled_segment r0 dr es oc \<or> failed_segment r0 dr message facts es oc
     \<or> completed_segment r0 dr message facts es
       \<and> landing_outcome E th (live_effects E th src) probe (complete_record (start_record dr r0)) message (acceptance_signal facts) oc w'"

definition fire_log ::
  "'e Env \<Rightarrow> nat \<Rightarrow> StatusSource \<Rightarrow> HarnessFacts \<Rightarrow> LandingProbe \<Rightarrow> PendingRecord \<Rightarrow> string \<Rightarrow> 'e World \<Rightarrow> FireOutcome \<Rightarrow> 'e World \<Rightarrow> bool"
where
  "fire_log E th src facts probe r0 message w0 oc w' \<longleftrightarrow>
     (\<exists>before es gap ok after.
        log w' = log w0 @ typed before @ [Armed] @ es @ [Unlocked] @ flush_events (offered es) gap ok @ typed after
        \<and> fire_segment E th src facts probe r0 (draft_after th (map fst before) (draft (journal w0))) message es oc w'
        \<and> inlock w' = new_lock)"

lemma send_failed_start [simp]: "send_failed (start_record dr r) reason = send_failed r reason"
  by (simp add: send_failed_def start_record_def)

lemma finish_log:
  assumes "armed_seg es w1 w" "buffer (inlock w1) = []"
  shows "\<exists>q gap ok. quiet_events q
    \<and> log (unlock_and_flush E th (live_effects E th src) w) = log w1 @ (es @ q) @ [Unlocked] @ flush_events (offered (es @ q)) gap ok
    \<and> inlock (unlock_and_flush E th (live_effects E th src) w) = new_lock"
proof -
  have w: "locked (inlock w)" "log w = log w1 @ es" "buffer (inlock w) = offered es" using assms by (simp_all add: armed_seg_def)
  from unlock_and_flush_log [OF w(1), of E th src] obtain q gap ok where
    "list_all io_event q" "writes q = []"
    "log (unlock_and_flush E th (live_effects E th src) w) = log w @ q @ [Unlocked] @ flush_events (buffer (inlock w) @ offered q) gap ok"
    "inlock (unlock_and_flush E th (live_effects E th src) w) = new_lock" by blast
  then show ?thesis using w(2,3) by (intro exI [of _ q] exI [of _ gap] exI [of _ ok]) (simp add: quiet_events_def)
qed

lemma finish_failure_log:
  assumes "armed_seg es w1 w" "buffer (inlock w1) = []" "finish_failure E th (live_effects E th src) dr cleared r reason w = (oc, w')"
  shows "\<exists>q gap ok. list_all io_event q \<and> what (writes q) = (if cleared then replayed dr else [])
    \<and> log w' = log w1 @ (es @ q) @ [Unlocked] @ flush_events (offered (es @ q)) gap ok \<and> inlock w' = new_lock \<and> oc = send_failed r reason"
proof -
  let ?fx = "live_effects E th src"
  let ?w = "if cleared then write_unless_empty ?fx Replay dr w else w"
  have l: "locked (inlock w)" using assms(1) by (simp add: armed_seg_def)
  have "\<exists>ws. armed_run ws w ?w \<and> what ws = (if cleared then replayed dr else [])"
    using write_unless_empty_armed [OF l, of E th src Replay dr] armed_run_refl [OF l]
    by (cases cleared) (auto simp: replayed_def)
  then obtain ws where ws: "armed_run ws w ?w" "what ws = (if cleared then replayed dr else [])" by blast
  from armed_run_seg [OF ws(1)] obtain q1 where q1: "armed_seg q1 w ?w" "writes q1 = ws" "list_all io_event q1" by blast
  from finish_log [OF armed_seg_trans [OF assms(1) q1(1)] assms(2), of E th src] obtain q gap ok where
    q: "quiet_events q" "log (unlock_and_flush E th ?fx ?w) = log w1 @ ((es @ q1) @ q) @ [Unlocked] @ flush_events (offered ((es @ q1) @ q)) gap ok"
    "inlock (unlock_and_flush E th ?fx ?w) = new_lock" by blast
  have w': "w' = unlock_and_flush E th ?fx ?w" "oc = send_failed r reason"
    using assms(3) by (simp_all add: finish_failure_def)
  show ?thesis
    using q q1 ws(2) unfolding w' by (intro exI [of _ "q1 @ q"] exI [of _ gap] exI [of _ ok]) (simp add: quiet_events_def)
qed

subsection \<open>From the lock to the release\<close>

text \<open>\<open>armed_end\<close>: the events between a world with an empty buffer and the end of the fire.\<close>

definition armed_end :: "Ev list \<Rightarrow> 'e World \<Rightarrow> 'e World \<Rightarrow> bool" where
  "armed_end es w1 w' \<longleftrightarrow>
     (\<exists>gap ok after. log w' = log w1 @ es @ [Unlocked] @ flush_events (offered es) gap ok @ typed after) \<and> inlock w' = new_lock"

lemma finish_failure_end:
  assumes "armed_seg es w1 w" "buffer (inlock w1) = []" "finish_failure E th (live_effects E th src) dr cleared r reason w = (oc, w')"
  shows "\<exists>q. list_all io_event q \<and> what (writes q) = (if cleared then replayed dr else []) \<and> armed_end (es @ q) w1 w' \<and> oc = send_failed r reason"
proof -
  from finish_failure_log [OF assms] obtain q gap ok where
    q: "list_all io_event q" "what (writes q) = (if cleared then replayed dr else [])"
    "log w' = log w1 @ (es @ q) @ [Unlocked] @ flush_events (offered (es @ q)) gap ok" "inlock w' = new_lock" "oc = send_failed r reason"
    by blast
  have "log w' = log w1 @ (es @ q) @ [Unlocked] @ flush_events (offered (es @ q)) gap ok @ typed []" using q(3) by simp
  then have "armed_end (es @ q) w1 w'" unfolding armed_end_def using q(4) by blast
  then show ?thesis using q by blast
qed

text \<open>After the injection: the message was not accepted, or the rest of the fire is run.\<close>

lemma not_accepted_end:
  assumes seg: "armed_seg (a @ [Spooled (start_record dr r0) True] @ b @ i) w1 w5" "buffer (inlock w1) = []"
    and ev: "quiet_events a" "list_all io_event b" "list_all io_event i"
    and wr: "set (what (writes b)) = {(Clear, chord (clear_strategy facts))}" "injected facts message (what (writes i))"
    and sig: "acceptance_signal facts = BusyTransition"
    and fire: "finish_failure E th (live_effects E th src) dr True (start_record dr r0) ''not-accepted'' w5 = (oc, w')"
  shows "\<exists>es'. armed_end es' w1 w' \<and> fire_segment E th src facts probe r0 dr message es' oc w'"
proof -
  from finish_failure_end [OF seg fire] obtain q where
    q: "list_all io_event q" "what (writes q) = replayed dr" "armed_end (a @ [Spooled (start_record dr r0) True] @ (b @ i @ q)) w1 w'"
    "oc = send_failed r0 ''not-accepted''" by auto
  have "list_all io_event (b @ i @ q)" "what (writes (b @ i @ q)) = what (writes b) @ what (writes i) @ replayed dr" using ev q by simp_all
  then have "failed_segment r0 dr message facts (a @ [Spooled (start_record dr r0) True] @ (b @ i @ q)) oc"
    unfolding failed_segment_def using ev(1) wr sig q(4) by blast
  then show ?thesis using q(3) unfolding fire_segment_def by blast
qed

lemma accepted_end:
  assumes seg: "armed_seg es w1 w5" "buffer (inlock w1) = []"
    and es: "es = a @ [Spooled (start_record dr r0) True] @ b @ i" "quiet_events a" "list_all io_event b" "list_all io_event i"
    and wr: "set (what (writes b)) = {(Clear, chord (clear_strategy facts))}" "injected facts message (what (writes i))"
    and fire: "landing_terminal E th (live_effects E th src) probe (complete_record (start_record dr r0)) message cfg (acceptance_signal facts)
        (unlock_and_flush E th (live_effects E th src) (write_unless_empty (live_effects E th src) Replay dr
          (snd (spool_record E th (complete_record (start_record dr r0)) w5)))) = Some (oc, w')"
  shows "\<exists>es'. armed_end es' w1 w' \<and> fire_segment E th src facts probe r0 dr message es' oc w'"
proof -
  let ?fx = "live_effects E th src" and ?r2 = "complete_record (start_record dr r0)"
  obtain ok2 w6 where w6: "spool_record E th ?r2 w5 = (ok2, w6)" by fastforce
  from spool_record_seg [OF _ w6] seg(1) obtain s where s: "armed_seg (s @ [Spooled ?r2 ok2]) w5 w6" "writes s = []" "list_all io_event s"
    by (auto simp: armed_seg_def)
  have seg6: "armed_seg (es @ s @ [Spooled ?r2 ok2]) w1 w6" by (rule armed_seg_trans [OF seg(1) s(1)])
  let ?w7 = "write_unless_empty ?fx Replay dr w6" and ?w8 = "unlock_and_flush E th ?fx (write_unless_empty ?fx Replay dr w6)"
  have "locked (inlock w6)" using seg6 by (simp add: armed_seg_def)
  from write_unless_empty_armed [OF this, of E th src Replay dr] obtain rs where rs: "armed_run rs w6 ?w7" "what rs = replayed dr"
    by (auto simp: replayed_def)
  from armed_run_seg [OF rs(1)] obtain c where c: "armed_seg c w6 ?w7" "writes c = rs" "list_all io_event c" by blast
  from finish_log [OF armed_seg_trans [OF seg6 c(1)] seg(2), of E th src] obtain q gap ok where
    q: "quiet_events q" "log ?w8 = log w1 @ (((es @ s @ [Spooled ?r2 ok2]) @ c) @ q) @ [Unlocked]
          @ flush_events (offered (((es @ s @ [Spooled ?r2 ok2]) @ c) @ q)) gap ok" "inlock ?w8 = new_lock" by blast
  let ?es = "((es @ s @ [Spooled ?r2 ok2]) @ c) @ q"
  have lt: "landing_terminal E th ?fx probe ?r2 message cfg (acceptance_signal facts) ?w8 = Some (oc, w')" using fire w6 by simp
  have free: "\<not> locked (inlock ?w8)" using q(3) by (simp add: new_lock_def)
  note run = landing_terminal_run [OF lt free]
  from run(1) obtain after where "log w' = log ?w8 @ typed after" "inlock w' = new_lock" using q(3) by (auto simp: free_run_def)
  then have "armed_end ?es w1 w'" using q(2) unfolding armed_end_def by (metis append.assoc)
  moreover have "completed_segment r0 dr message facts ?es"
    unfolding completed_segment_def
    by (rule exI [of _ a], rule exI [of _ "b @ i @ s"], rule exI [of _ "c @ q"], rule exI [of _ "what (writes b)"], rule exI [of _ "what (writes i)"], rule exI [of _ ok2])
      (use es s c q(1) rs(2) wr in \<open>simp add: quiet_events_def\<close>)
  ultimately show ?thesis using run(2) unfolding fire_segment_def by blast
qed

lemma fire_submit_end:
  assumes seg: "armed_seg es w1 w4" "buffer (inlock w1) = []"
    and es: "es = a @ [Spooled (start_record dr r0) True] @ b" "quiet_events a" "list_all io_event b"
    and cl: "set (what (writes b)) = {(Clear, chord (clear_strategy facts))}"
    and fire: "fire_submit E th (live_effects E th src) facts probe dr (start_record dr r0) message cfg w4 = Some (oc, w')"
  shows "\<exists>es'. armed_end es' w1 w' \<and> fire_segment E th src facts probe r0 dr message es' oc w'"
proof -
  let ?fx = "live_effects E th src"
  have l4: "locked (inlock w4)" using seg(1) by (simp add: armed_seg_def)
  from fire obtain acc w5 where inj: "inject ?fx facts message cfg w4 = Some (acc, w5)"
    by (auto simp: fire_submit_def bind_eq_Some_conv)
  from inject_armed [OF l4 inj] obtain ws where ws: "armed_run ws w4 w5" "injected facts message (what ws)"
    by (auto simp: injected_def)
  from armed_run_seg [OF ws(1)] obtain i where i: "armed_seg i w4 w5" "writes i = ws" "list_all io_event i" by blast
  have seg5: "armed_seg (a @ [Spooled (start_record dr r0) True] @ b @ i) w1 w5" using armed_seg_trans [OF seg(1) i(1)] es(1) by simp
  have wr: "injected facts message (what (writes i))" using ws(2) i(2) by simp
  show ?thesis
  proof (cases acc)
    case False
    then have "finish_failure E th ?fx dr True (start_record dr r0) ''not-accepted'' w5 = (oc, w')"
      using fire inj by (simp add: fire_submit_def)
    moreover have "acceptance_signal facts = BusyTransition" using inject_Landing [OF _ inj] False by (cases "acceptance_signal facts") auto
    ultimately show ?thesis using not_accepted_end [OF seg5 seg(2) es(2,3) i(3) cl wr] by blast
  next
    case True
    show ?thesis
      by (rule accepted_end [OF seg5 seg(2) refl es(2,3) i(3) cl wr]) (use fire inj True in \<open>simp add: fire_submit_def Let_def\<close>)
  qed
qed

lemma fire_clear_end:
  assumes seg: "armed_seg (a @ [Spooled (start_record dr r0) True]) w1 w3" "buffer (inlock w1) = []" "quiet_events a"
    and fire: "fire_clear E th (live_effects E th src) facts probe dr (start_record dr r0) message cfg w3 = Some (oc, w')"
  shows "\<exists>es. armed_end es w1 w' \<and> fire_segment E th src facts probe r0 dr message es oc w'"
proof -
  let ?fx = "live_effects E th src" and ?s = "[Spooled (start_record dr r0) True]"
  obtain co w4 where co: "clear_composer ?fx facts w3 = (co, w4)" by fastforce
  have "locked (inlock w3)" using seg(1) by (simp add: armed_seg_def)
  from clear_composer_armed [OF this, of E th src facts] co obtain ws where
    ws: "armed_run ws w3 w4" "set (what ws) = {(Clear, chord (clear_strategy facts))}" by auto
  from armed_run_seg [OF ws(1)] obtain b where b: "armed_seg b w3 w4" "writes b = ws" "list_all io_event b" by blast
  have seg4: "armed_seg ((a @ ?s) @ b) w1 w4" by (rule armed_seg_trans [OF seg(1) b(1)])
  have fail: ?thesis if "finish_failure E th ?fx dr True (start_record dr r0) reason w4 = (oc, w')" for reason
  proof -
    from finish_failure_end [OF seg4 seg(2) that] obtain q where
      q: "list_all io_event q" "what (writes q) = replayed dr" "armed_end (((a @ ?s) @ b) @ q) w1 w'" "oc = send_failed r0 reason" by auto
    have "((a @ ?s) @ b) @ q = a @ ?s @ (b @ q)" "list_all io_event (b @ q)" "what (writes (b @ q)) = what ws @ [] @ replayed dr"
      using b q by simp_all
    then have "failed_segment r0 dr message facts (((a @ ?s) @ b) @ q) oc"
      unfolding failed_segment_def using seg(3) ws(2) q(4) by blast
    then show ?thesis using q(3) unfolding fire_segment_def by blast
  qed
  show ?thesis
  proof (cases co)
    case Cleared
    have "(a @ ?s) @ b = a @ ?s @ b" by simp
    from fire_submit_end [OF seg4 seg(2) this seg(3) b(3)] ws(2) b(2) Cleared co fire show ?thesis by (simp add: fire_clear_def)
  qed (use fail fire co in \<open>simp_all add: fire_clear_def\<close>)
qed

lemma fire_locked_end:
  assumes "locked (inlock w1)" "buffer (inlock w1) = []"
    and fire: "fire_locked E th (live_effects E th src) facts probe dr r0 message cfg w1 = Some (oc, w')"
  shows "\<exists>es. armed_end es w1 w' \<and> fire_segment E th src facts probe r0 dr message es oc w'"
proof -
  let ?fx = "live_effects E th src" and ?r1 = "start_record dr r0"
  obtain plain w2 where vp: "verify_plain_composer ?fx facts cfg w1 = (plain, w2)" by fastforce
  have "armed_run [] w1 w2" using verify_attempt_armed [OF assms(1)] vp unfolding verify_plain_composer_def by (metis snd_conv)
  then obtain a where a: "armed_seg a w1 w2" "quiet_events a" using armed_run_seg quiet_events_def by blast
  obtain ok w3 where sr: "spool_record E th ?r1 w2 = (ok, w3)" by fastforce
  from spool_record_seg [OF _ sr] a(1) obtain b where b: "armed_seg (b @ [Spooled ?r1 ok]) w2 w3" "quiet_events b"
    by (auto simp: armed_seg_def quiet_events_def)
  have seg3: "armed_seg ((a @ b) @ [Spooled ?r1 ok]) w1 w3" using armed_seg_trans [OF a(1) b(1)] by simp
  consider "\<not> plain" | "plain" "\<not> ok" | "plain" "ok" by blast
  then show ?thesis
  proof cases
    case 1
    then have "finish_failure E th ?fx dr False r0 ''verify-blocked'' w2 = (oc, w')" using fire vp by (simp add: fire_locked_def)
    from finish_failure_end [OF a(1) assms(2) this] obtain q where
      "list_all io_event q" "writes q = []" "armed_end (a @ q) w1 w'" "oc = send_failed r0 ''verify-blocked''" by auto
    then show ?thesis using a(2) unfolding fire_segment_def blocked_segment_def
      by (intro exI [of _ "a @ q"]) (simp add: quiet_events_def)
  next
    case 2
    then have "finish_failure E th ?fx dr False ?r1 ''inject-failed'' w3 = (oc, w')" using fire vp sr by (simp add: fire_locked_def Let_def)
    from finish_failure_end [OF seg3 assms(2) this] obtain q where
      q: "quiet_events q" "armed_end (((a @ b) @ [Spooled ?r1 ok]) @ q) w1 w'" "oc = send_failed r0 ''inject-failed''"
      by (auto simp: quiet_events_def)
    have "((a @ b) @ [Spooled ?r1 ok]) @ q = (a @ b) @ [Spooled ?r1 False] @ q" using 2 by simp
    then have "unspooled_segment r0 dr (((a @ b) @ [Spooled ?r1 ok]) @ q) oc"
      unfolding unspooled_segment_def using a(2) b(2) q by (metis quiet_append)
    then show ?thesis using q(2) unfolding fire_segment_def by blast
  next
    case 3
    then have "fire_clear E th ?fx facts probe dr ?r1 message cfg w3 = Some (oc, w')" using fire vp sr by (simp add: fire_locked_def Let_def)
    moreover have "armed_seg ((a @ b) @ [Spooled ?r1 True]) w1 w3" using seg3 3 by simp
    ultimately show ?thesis using fire_clear_end assms(2) a(2) b(2) quiet_append by blast
  qed
qed

subsection \<open>The whole fire\<close>

definition gated :: "StatusSource \<Rightarrow> HarnessFacts \<Rightarrow> bool" where
  "gated src facts \<longleftrightarrow> \<not> confirmable_acceptance src \<and> acceptance_signal facts \<noteq> Landing"

lemma fire_gated: "gated src facts \<Longrightarrow> fire E th src facts probe r0 message cfg w0 = Some (send_failed r0 ''acceptance-unconfirmable'', w0)"
  by (simp add: fire_def gated_def live_sel Let_def)

lemma fire_run:
  assumes "fire E th src facts probe r0 message cfg w0 = Some (oc, w')" "inlock w0 = new_lock" "\<not> gated src facts"
  shows "fire_log E th src facts probe r0 message w0 oc w'"
proof -
  have free: "\<not> locked (inlock w0)" using assms(2) by (simp add: new_lock_def)
  let ?wi = "interleave E th w0"
  let ?w1 = "note_ev Armed (?wi\<lparr>inlock := lock_input (inlock ?wi)\<rparr>)"
  from interleave_free [OF free, of th E] obtain before where
    bf: "log ?wi = log w0 @ typed before" "draft (journal ?wi) = draft_after th (map fst before) (draft (journal w0))" "inlock ?wi = new_lock"
    using assms(2) by (auto simp: free_run_def)
  have w1: "locked (inlock ?w1)" "buffer (inlock ?w1) = []" "log ?w1 = log w0 @ typed before @ [Armed]"
    using bf by (simp_all add: note_ev_def lock_input_def new_lock_def)
  have "fire_locked E th (live_effects E th src) facts probe (draft (journal ?wi)) r0 message cfg ?w1 = Some (oc, w')"
    using assms(1,3) by (auto simp: fire_def gated_def live_sel lock_and_snapshot_def Let_def)
  from fire_locked_end [OF w1(1,2) this] obtain es where
    es: "armed_end es ?w1 w'" "fire_segment E th src facts probe r0 (draft (journal ?wi)) message es oc w'" by blast
  from es(1) obtain gap ok after where
    "log w' = log ?w1 @ es @ [Unlocked] @ flush_events (offered es) gap ok @ typed after" "inlock w' = new_lock"
    unfolding armed_end_def by blast
  then show ?thesis using w1(3) bf(2) es(2) unfolding fire_log_def
    by (intro exI [of _ before] exI [of _ es] exI [of _ gap] exI [of _ ok] exI [of _ after]) simp
qed

end
