(* ===== verification/Fire_Run.thy ===== *)
theory Fire_Run
  imports Fire_Log
begin

text \<open>
  Consequences of the shape of the log: the human and the fire never write at the same time, every
  keystroke is given to one write, nothing is typed into the composer before the start of the fire
  is durable, and a fire ends if the clock moves.
\<close>

subsection \<open>Who writes when\<close>

fun exclusive :: "bool \<Rightarrow> Ev list \<Rightarrow> bool" where
  "exclusive armed [] = True"
| "exclusive armed (Armed # es) = exclusive True es"
| "exclusive armed (Unlocked # es) = exclusive False es"
| "exclusive armed (Wrote p b ok # es) = ((if p \<in> {Human, Flush} then \<not> armed else armed) \<and> exclusive armed es)"
| "exclusive armed (_ # es) = exclusive armed es"

text \<open>
  Of the bytes that were typed: those given to a write on the human's behalf, at once or by the flush
  (\<open>passed_on\<close>), divided into those whose write succeeded (\<open>reached\<close>) and those whose write reported an
  error (\<open>lost\<close>; the code drops the error of a flush). The replay of the draft is a write of the fire.
\<close>

fun passed_on :: "Ev list \<Rightarrow> string" where
  "passed_on [] = []"
| "passed_on (Wrote p b ok # es) = (if p \<in> {Human, Flush} then b else []) @ passed_on es"
| "passed_on (_ # es) = passed_on es"

fun reached :: "Ev list \<Rightarrow> string" where
  "reached [] = []"
| "reached (Wrote p b ok # es) = (if p \<in> {Human, Flush} \<and> ok then b else []) @ reached es"
| "reached (_ # es) = reached es"

fun lost :: "Ev list \<Rightarrow> string" where
  "lost [] = []"
| "lost (Wrote p b ok # es) = (if p \<in> {Human, Flush} \<and> \<not> ok then b else []) @ lost es"
| "lost (_ # es) = lost es"

lemma reached_or_lost: "mset (passed_on es) = mset (reached es) + mset (lost es)"
  by (induction es rule: passed_on.induct) auto

lemma none_lost: "lost es = [] \<Longrightarrow> reached es = passed_on es"
  by (induction es rule: passed_on.induct) (auto split: if_splits)

definition disturbs :: "Purpose \<Rightarrow> bool" where
  "disturbs p \<longleftrightarrow> p \<notin> {Human, Flush}"

lemma passed_on_append [simp]: "passed_on (a @ b) = passed_on a @ passed_on b"
  by (induction a rule: passed_on.induct) auto

lemma passed_on_writes: "passed_on es = concat (map (\<lambda>(p, b, ok). if p \<in> {Human, Flush} then b else []) (writes es))"
  by (induction es rule: passed_on.induct) auto

lemma exclusive_quietly:
  assumes "\<forall>x\<in>set (writes es). disturbs (fst x)" "Armed \<notin> set es" "Unlocked \<notin> set es"
  shows "exclusive True (es @ es') \<longleftrightarrow> exclusive True es'"
  using assms by (induction es rule: passed_on.induct) (auto simp: disturbs_def)

lemma exclusive_typed [simp]: "exclusive False (typed bs @ es) \<longleftrightarrow> exclusive False es"
  by (induction bs rule: typed.induct) auto

lemma typed_read [simp]: "offered (typed bs) = concat (map fst bs)" "passed_on (typed bs) = concat (map fst bs)"
  by (induction bs rule: typed.induct) auto

lemma flush_read [simp]:
  "offered (flush_events held gap ok) = (if held = [] then [] else concat (map fst gap))"
  "passed_on (flush_events held gap ok) = (if held = [] then [] else concat (map fst gap) @ held)"
  by (simp_all add: flush_events_def)

lemma purposes_what: "fst ` set (what ws) = fst ` set ws"
  by (force simp: image_image case_prod_beta)

lemma injected_purposes: "injected facts message txts \<Longrightarrow> fst ` set txts \<subseteq> {Text, Return}"
  unfolding injected_def by (elim disjE conjE; simp add: image_image image_subset_iff)

lemma replayed_purposes: "fst ` set (replayed dr) \<subseteq> {Replay}"
  by (simp add: replayed_def)

lemma io_no_lock: "list_all io_event es \<Longrightarrow> Armed \<notin> set es \<and> Unlocked \<notin> set es"
  by (induction es rule: offered.induct) auto

text \<open>All writes of the armed segment are the fire's own, and it contains no lock event.\<close>

lemma segment_writes:
  assumes "fire_segment E th src facts probe r0 dr message es oc w'"
  shows "\<forall>x\<in>set (writes es). disturbs (fst x)" "Armed \<notin> set es" "Unlocked \<notin> set es"
proof -
  have own: "x \<in> set ws \<Longrightarrow> what ws = cl @ inj' @ rep \<Longrightarrow> set cl = {(Clear, c)} \<Longrightarrow> inj' = [] \<or> injected facts message inj' \<Longrightarrow>
      rep = [] \<or> rep = replayed dr \<Longrightarrow> disturbs (fst x)" for x ws cl inj' rep c
  proof -
    assume x: "x \<in> set ws" and ws: "what ws = cl @ inj' @ rep" and parts: "set cl = {(Clear, c)}" "inj' = [] \<or> injected facts message inj'"
      "rep = [] \<or> rep = replayed dr"
    have "fst x \<in> fst ` set (what ws)" using x by (simp only: purposes_what) simp
    then have "fst x \<in> fst ` set cl \<union> fst ` set inj' \<union> fst ` set rep" unfolding ws by (simp add: image_Un Un_assoc)
    moreover have "fst ` set inj' \<subseteq> {Text, Return}" using parts(2) injected_purposes by fastforce
    moreover have "fst ` set rep \<subseteq> {Replay}" using parts(3) replayed_purposes by fastforce
    ultimately have "fst x \<in> {Clear, Text, Return, Replay}" using parts(1) by auto
    then show ?thesis by (auto simp: disturbs_def)
  qed
  have goal: "(\<forall>x\<in>set (writes es). disturbs (fst x)) \<and> Armed \<notin> set es \<and> Unlocked \<notin> set es"
    using assms unfolding fire_segment_def
  proof (elim disjE conjE)
    assume "blocked_segment r0 es oc"
    then show ?thesis by (auto simp: blocked_segment_def quiet_events_def dest: io_no_lock)
  next
    assume "unspooled_segment r0 dr es oc"
    then show ?thesis by (auto simp: unspooled_segment_def quiet_events_def dest: io_no_lock)
  next
    assume "failed_segment r0 dr message facts es oc"
    then obtain a b cl i where s: "es = a @ [Spooled (start_record dr r0) True] @ b" "quiet_events a" "list_all io_event b"
      "what (writes b) = cl @ i @ replayed dr" "set cl = {(Clear, chord (clear_strategy facts))}" "i = [] \<or> injected facts message i"
      unfolding failed_segment_def by blast
    have "disturbs (fst x)" if "x \<in> set (writes b)" for x by (rule own [OF that s(4,5,6)]) simp
    then show ?thesis using s(1,2) io_no_lock [OF s(3)] io_no_lock [of a] by (simp add: quiet_events_def)
  next
    assume "completed_segment r0 dr message facts es"
    then obtain a b c cl i ok where s: "es = a @ [Spooled (start_record dr r0) True] @ b @ [Spooled (complete_record (start_record dr r0)) ok] @ c"
      "quiet_events a" "list_all io_event b" "list_all io_event c" "what (writes b) = cl @ i"
      "set cl = {(Clear, chord (clear_strategy facts))}" "injected facts message i" "what (writes c) = replayed dr"
      unfolding completed_segment_def by (elim exE conjE) (rule that)
    have "disturbs (fst x)" if "x \<in> set (writes b)" for x
      using that s(7) by (intro own [where cl = cl and inj' = i and rep = "[]", OF that _ s(6)]) (simp_all only: s(5) append_Nil2 simp_thms)
    moreover have "disturbs (fst x)" if "x \<in> set (writes c)" for x
    proof -
      have "fst x \<in> fst ` set (what (writes c))" using that by (simp only: purposes_what) simp
      then show ?thesis unfolding s(8) by (auto simp: replayed_def disturbs_def split: if_splits)
    qed
    ultimately show ?thesis using s(1,2) io_no_lock [OF s(3)] io_no_lock [OF s(4)] io_no_lock [of a] by (auto simp: quiet_events_def)
  qed
  then show "\<forall>x\<in>set (writes es). disturbs (fst x)" "Armed \<notin> set es" "Unlocked \<notin> set es" by blast+
qed

lemma segment_passed_on: "fire_segment E th src facts probe r0 dr message es oc w' \<Longrightarrow> passed_on es = []"
  using segment_writes(1) by (fastforce simp: passed_on_writes disturbs_def)

lemma fire_log_exclusive:
  assumes "fire_log E th src facts probe r0 message w0 oc w'"
  shows "\<exists>es. log w' = log w0 @ es \<and> exclusive False es \<and> mset (passed_on es) = mset (offered es)"
proof -
  from assms obtain before es gap ok after where
    l: "log w' = log w0 @ typed before @ [Armed] @ es @ [Unlocked] @ flush_events (offered es) gap ok @ typed after"
    and s: "fire_segment E th src facts probe r0 (draft_after th (map fst before) (draft (journal w0))) message es oc w'"
    unfolding fire_log_def by blast
  let ?es = "typed before @ [Armed] @ es @ [Unlocked] @ flush_events (offered es) gap ok @ typed after"
  have "exclusive False (flush_events (offered es) gap ok @ typed after)"
    using exclusive_typed [of after "[]"] by (simp add: flush_events_def)
  then have "exclusive False ?es" using exclusive_quietly [OF segment_writes [OF s]] by simp
  moreover have "mset (passed_on ?es) = mset (offered ?es)" using segment_passed_on [OF s] by simp
  ultimately show ?thesis using l by blast
qed

text \<open>In order, unless something was typed between the release and the flush.\<close>

fun raced :: "bool \<Rightarrow> bool \<Rightarrow> Ev list \<Rightarrow> bool" where
  "raced released typed_since [] = False"
| "raced released typed_since (Unlocked # es) = raced True False es"
| "raced released typed_since (Burst b # es) = raced released (typed_since \<or> released \<and> b \<noteq> []) es"
| "raced released typed_since (Wrote p b ok # es) = (p = Flush \<and> typed_since \<or> raced released typed_since es)"
| "raced released typed_since (_ # es) = raced released typed_since es"

lemma raced_typed [simp]: "raced rel ts (typed bs @ es) \<longleftrightarrow> raced rel (ts \<or> rel \<and> concat (map fst bs) \<noteq> []) es"
proof (induction bs arbitrary: ts rule: typed.induct)
  case (2 b ok bs)
  have "(ts \<or> rel \<and> b \<noteq> []) \<or> rel \<and> concat (map fst bs) \<noteq> [] \<longleftrightarrow> ts \<or> rel \<and> concat (map fst ((b, ok) # bs)) \<noteq> []" by auto
  then show ?case using 2 by simp
qed simp

lemma raced_quietly:
  assumes "\<forall>x\<in>set (writes es). disturbs (fst x)" "Unlocked \<notin> set es"
  shows "raced False ts (es @ es') \<longleftrightarrow> raced False ts es'"
  using assms by (induction es arbitrary: ts rule: passed_on.induct) (auto simp: disturbs_def)

lemma fire_log_in_order:
  assumes "fire_log E th src facts probe r0 message w0 oc w'" "log w' = log w0 @ es'" "\<not> raced False False es'"
  shows "passed_on es' = offered es'"
proof -
  from assms(1) obtain before es gap ok after where
    l: "log w' = log w0 @ typed before @ [Armed] @ es @ [Unlocked] @ flush_events (offered es) gap ok @ typed after"
    and s: "fire_segment E th src facts probe r0 (draft_after th (map fst before) (draft (journal w0))) message es oc w'"
    unfolding fire_log_def by blast
  have es': "es' = typed before @ [Armed] @ es @ [Unlocked] @ flush_events (offered es) gap ok @ typed after" using l assms(2) by simp
  have "raced False False es' \<longleftrightarrow> raced True False (flush_events (offered es) gap ok @ typed after)"
    unfolding es' using raced_quietly [OF segment_writes(1,3) [OF s]] by simp
  then have "offered es = [] \<or> concat (map fst gap) = []"
    using assms(3) by (cases "offered es = []") (simp_all add: flush_events_def del: concat_eq_Nil_conv)
  then show ?thesis unfolding es' using segment_passed_on [OF s] by (elim disjE) (simp_all del: concat_eq_Nil_conv)
qed

subsection \<open>What the fire writes\<close>

definition own :: "Ev list \<Rightarrow> (Purpose \<times> string) list" where
  "own es = filter (\<lambda>x. disturbs (fst x)) (what (writes es))"

lemma own_append [simp]: "own (a @ b) = own a @ own b"
  by (simp add: own_def)

lemma own_simps [simp]: "own [] = []" "own (Armed # es) = own es" "own (Unlocked # es) = own es" "own (Burst b # es) = own es"
  "own (Spooled r ok # es) = own es"
  by (simp_all add: own_def)

lemma own_typed [simp]: "own (typed bs) = []"
  by (induction bs rule: typed.induct) (simp_all add: own_def disturbs_def)

lemma own_flush [simp]: "own (flush_events held gap ok) = []"
  by (simp add: flush_events_def) (simp add: own_def disturbs_def)

lemma own_all: "\<forall>x\<in>set (writes es). disturbs (fst x) \<Longrightarrow> own es = what (writes es)"
  unfolding own_def by (rule filter_True) auto

lemma own_quiet: "quiet_events es \<Longrightarrow> own es = []"
  by (simp add: quiet_events_def own_def)

text \<open>
  What \<open>own\<close> lists was attempted: \<open>send_text\<close> and \<open>send_cr\<close> drop the error of the write. \<open>put_in\<close> is what
  of the text went through.
\<close>

definition put_in :: "Ev list \<Rightarrow> string" where
  "put_in es = concat (map (\<lambda>(p, b, ok). if p = Text \<and> ok then b else []) (writes es))"

definition attempted_text :: "Ev list \<Rightarrow> string" where
  "attempted_text es = concat (map snd (filter (\<lambda>x. fst x = Text) (own es)))"

lemma attempted_writes: "attempted_text es = concat (map (\<lambda>(p, b, ok). if p = Text then b else []) (writes es))"
proof -
  have "concat (map snd (filter (\<lambda>x. fst x = Text) (filter (\<lambda>x. disturbs (fst x)) (what ws))))
      = concat (map (\<lambda>(p, b, ok). if p = Text then b else []) ws)" for ws
    by (induction ws) (auto simp: disturbs_def)
  then show ?thesis by (simp add: attempted_text_def own_def)
qed

lemma put_in_part: "subseq (put_in es) (attempted_text es)"
proof -
  have "subseq (concat (map (\<lambda>(p, b, ok). if p = Text \<and> ok then b else []) ws)) (concat (map (\<lambda>(p, b, ok). if p = Text then b else []) ws))" for ws
    by (induction ws) (auto intro: list_emb_append_mono subseq_drop_many)
  then show ?thesis by (simp add: put_in_def attempted_writes)
qed

lemma put_in_all: "\<forall>b. (Text, b, False) \<notin> set (writes es) \<Longrightarrow> put_in es = attempted_text es"
  unfolding put_in_def attempted_writes by (rule arg_cong [where f = concat]) (force intro: map_cong)

text \<open>The shape of what a fire writes on its own account.\<close>

definition fire_writes :: "HarnessFacts \<Rightarrow> string \<Rightarrow> string \<Rightarrow> (Purpose \<times> string) list \<Rightarrow> bool" where
  "fire_writes facts message dr ws \<longleftrightarrow>
     ws = [] \<or> (\<exists>cl txts. ws = cl @ txts @ replayed dr \<and> set cl = {(Clear, chord (clear_strategy facts))}
                   \<and> (txts = [] \<or> injected facts message txts))"

lemma segment_own:
  assumes "fire_segment E th src facts probe r0 dr message es oc w'"
  shows "fire_writes facts message dr (own es)"
proof -
  have own: "own es = what (writes es)" by (rule own_all [OF segment_writes(1) [OF assms]])
  from assms show ?thesis unfolding fire_segment_def own
  proof (elim disjE conjE)
    assume "failed_segment r0 dr message facts es oc"
    then obtain a b cl i where "es = a @ [Spooled (start_record dr r0) True] @ b" "quiet_events a"
      "what (writes b) = cl @ i @ replayed dr" "set cl = {(Clear, chord (clear_strategy facts))}" "i = [] \<or> injected facts message i"
      unfolding failed_segment_def by blast
    then show "fire_writes facts message dr (what (writes es))" unfolding fire_writes_def
      by (intro disjI2 exI [of _ cl] exI [of _ i]) (simp add: quiet_events_def)
  next
    assume "completed_segment r0 dr message facts es"
    then obtain a b c cl i ok where "es = a @ [Spooled (start_record dr r0) True] @ b @ [Spooled (complete_record (start_record dr r0)) ok] @ c"
      "quiet_events a" "what (writes b) = cl @ i" "set cl = {(Clear, chord (clear_strategy facts))}" "injected facts message i"
      "what (writes c) = replayed dr"
      unfolding completed_segment_def by (elim exE conjE) (rule that)
    then show "fire_writes facts message dr (what (writes es))" unfolding fire_writes_def
      by (intro disjI2 exI [of _ cl] exI [of _ i]) (simp add: quiet_events_def)
  qed (auto simp: fire_writes_def blocked_segment_def unspooled_segment_def quiet_events_def)
qed

text \<open>A fire that did not report a failure to send has written the whole message.\<close>

lemma segment_injected:
  assumes "fire_segment E th src facts probe r0 dr message es oc w'" "\<forall>reason. oc \<noteq> send_failed r0 reason"
  shows "\<exists>cl txts. own es = cl @ txts @ replayed dr \<and> set cl = {(Clear, chord (clear_strategy facts))} \<and> injected facts message txts"
proof -
  have "completed_segment r0 dr message facts es"
    using assms unfolding fire_segment_def blocked_segment_def unspooled_segment_def failed_segment_def by blast
  then obtain a b c cl i ok where "es = a @ [Spooled (start_record dr r0) True] @ b @ [Spooled (complete_record (start_record dr r0)) ok] @ c"
    "quiet_events a" "what (writes b) = cl @ i" "set cl = {(Clear, chord (clear_strategy facts))}" "injected facts message i"
    "what (writes c) = replayed dr"
    unfolding completed_segment_def by (elim exE conjE) (rule that)
  then show ?thesis using own_all [OF segment_writes(1) [OF assms(1)]]
    by (intro exI [of _ cl] exI [of _ i]) (simp add: quiet_events_def)
qed

text \<open>The draft at the lock is what the bursts before it have left.\<close>

definition bursts :: "Ev list \<Rightarrow> string list" where
  "bursts es = List.map_filter (\<lambda>e. case e of Burst b \<Rightarrow> Some b | _ \<Rightarrow> None) es"

definition draft_at_lock :: "nat \<Rightarrow> Ev list \<Rightarrow> string \<Rightarrow> string" where
  "draft_at_lock th es d = draft_after th (bursts (takeWhile (\<lambda>e. e \<noteq> Armed) es)) d"

lemma draft_at_lock_typed: "draft_at_lock th (typed bs @ Armed # es) d = draft_after th (map fst bs) d"
proof -
  have "takeWhile (\<lambda>e. e \<noteq> Armed) (typed bs @ Armed # es) = typed bs"
    by (induction bs rule: typed.induct) auto
  moreover have "bursts (typed bs) = map fst bs"
    by (induction bs rule: typed.induct) (auto simp: bursts_def List.map_filter_simps)
  ultimately show ?thesis by (simp add: draft_at_lock_def)
qed

lemma fire_log_own:
  assumes "fire_log E th src facts probe r0 message w0 oc w'"
  shows "\<exists>es. log w' = log w0 @ es
    \<and> (let dr = draft_at_lock th es (draft (journal w0))
       in fire_writes facts message dr (own es)
          \<and> ((\<forall>reason. oc \<noteq> send_failed r0 reason) \<longrightarrow>
               (\<exists>cl txts. own es = cl @ txts @ replayed dr \<and> set cl = {(Clear, chord (clear_strategy facts))} \<and> injected facts message txts)))"
proof -
  from assms obtain before es gap ok after where
    l: "log w' = log w0 @ typed before @ [Armed] @ es @ [Unlocked] @ flush_events (offered es) gap ok @ typed after"
    and s: "fire_segment E th src facts probe r0 (draft_after th (map fst before) (draft (journal w0))) message es oc w'"
    unfolding fire_log_def by blast
  let ?es = "typed before @ Armed # es @ [Unlocked] @ flush_events (offered es) gap ok @ typed after"
  have "own ?es = own es" by simp
  then show ?thesis using l segment_own [OF s] segment_injected [OF s] draft_at_lock_typed
    by (intro exI [of _ ?es]) (simp add: Let_def)
qed

text \<open>A failure other than a message that was not accepted has typed nothing of it.\<close>

lemma segment_failed:
  assumes "fire_segment E th src facts probe r0 dr message es (send_failed r0 reason) w'" "reason \<noteq> ''not-accepted''"
  shows "\<forall>x\<in>set (own es). fst x \<in> {Clear, Replay}"
proof -
  have own: "own es = what (writes es)" by (rule own_all [OF segment_writes(1) [OF assms(1)]])
  from assms(1) show ?thesis unfolding fire_segment_def own
  proof (elim disjE conjE)
    assume "failed_segment r0 dr message facts es (send_failed r0 reason)"
    then obtain a b cl where s: "es = a @ [Spooled (start_record dr r0) True] @ b" "quiet_events a"
      "what (writes b) = cl @ replayed dr" "set cl = {(Clear, chord (clear_strategy facts))}"
      using assms(2) unfolding failed_segment_def by (auto simp: send_failed_def)
    have "what (writes es) = cl @ replayed dr" using s by (simp add: quiet_events_def)
    then show "\<forall>x\<in>set (what (writes es)). fst x \<in> {Clear, Replay}" using s(4) by (simp add: replayed_def)
  next
    assume "landing_outcome E th (live_effects E th src) probe (complete_record (start_record dr r0)) message (acceptance_signal facts) (send_failed r0 reason) w'"
    then show "\<forall>x\<in>set (what (writes es)). fst x \<in> {Clear, Replay}" by (auto simp: landing_outcome_def send_failed_def)
  qed (auto simp: blocked_segment_def unspooled_segment_def quiet_events_def)
qed

subsection \<open>What a crash leaves\<close>

fun durable :: "FirePhase \<Rightarrow> Ev list \<Rightarrow> FirePhase" where
  "durable ph [] = ph"
| "durable ph (Spooled r ok # es) = durable (if ok then phase r else ph) es"
| "durable ph (_ # es) = durable ph es"

definition started :: "FirePhase \<Rightarrow> bool" where
  "started ph \<longleftrightarrow> ph = FireStarted \<or> ph = FireCompleted"

fun guarded :: "FirePhase \<Rightarrow> Ev list \<Rightarrow> bool" where
  "guarded ph [] = True"
| "guarded ph (Spooled r ok # es) = ((ok \<longrightarrow> started (phase r)) \<and> guarded (if ok then phase r else ph) es)"
| "guarded ph (Wrote p b ok # es) = ((disturbs p \<longrightarrow> started ph) \<and> guarded ph es)"
| "guarded ph (_ # es) = guarded ph es"

lemma guarded_append: "guarded ph (a @ b) \<longleftrightarrow> guarded ph a \<and> guarded (durable ph a) b"
  by (induction ph a rule: guarded.induct) auto

lemma durable_started: "guarded ph es \<Longrightarrow> started ph \<Longrightarrow> started (durable ph es)"
  by (induction ph es rule: guarded.induct) auto

lemma durable_append: "durable ph (a @ b) = durable (durable ph a) b"
  by (induction ph a rule: durable.induct) auto

text \<open>Whatever prefix of the log a crash leaves: if the durable phase says the fire has not started, the composer is untouched.\<close>

lemma guarded_crash:
  assumes "guarded ph es" "\<not> started (durable ph (take n es))"
  shows "own (take n es) = []"
proof -
  have g: "guarded ph (take n es)" using assms(1) guarded_append [of ph "take n es" "drop n es"] by simp
  have "guarded ph es' \<Longrightarrow> \<not> started (durable ph es') \<Longrightarrow> own es' = []" for es'
  proof (induction ph es' rule: guarded.induct)
    case (2 ph r ok es)
    then show ?case using durable_started by (cases ok) auto
  next
    case (3 ph p b ok es)
    then have "\<not> disturbs p" using durable_started by auto
    then show ?case using 3 by (simp add: own_def)
  qed simp_all
  then show ?thesis using g assms(2) by blast
qed

lemma guarded_io: "list_all io_event es \<Longrightarrow> (\<forall>x\<in>set (writes es). disturbs (fst x) \<longrightarrow> started ph) \<Longrightarrow> guarded ph es \<and> durable ph es = ph"
  by (induction ph es rule: guarded.induct) auto

lemma guarded_segment:
  assumes "fire_segment E th src facts probe r0 dr message es oc w'"
  shows "guarded ph es"
proof -
  have q: "guarded ph' a \<and> durable ph' a = ph'" if "quiet_events a" for a ph'
    using that guarded_io [of a ph'] by (simp add: quiet_events_def)
  have i: "guarded ph' a \<and> durable ph' a = ph'" if "list_all io_event a" "started ph'" for a ph' using that by (intro guarded_io) auto
  have st: "started FireStarted" "started FireCompleted" by (simp_all add: started_def)
  have ph: "phase (start_record dr r0) = FireStarted" "phase (complete_record (start_record dr r0)) = FireCompleted"
    by (simp_all add: start_record_def complete_record_def)
  from assms show ?thesis unfolding fire_segment_def
  proof (elim disjE conjE)
    assume "failed_segment r0 dr message facts es oc"
    then obtain a b where "es = a @ [Spooled (start_record dr r0) True] @ b" "quiet_events a" "list_all io_event b"
      unfolding failed_segment_def by blast
    then show ?thesis using q i [of b FireStarted] st ph by (simp add: guarded_append)
  next
    assume "completed_segment r0 dr message facts es"
    then obtain a b c ok where "es = a @ [Spooled (start_record dr r0) True] @ b @ [Spooled (complete_record (start_record dr r0)) ok] @ c"
      "quiet_events a" "list_all io_event b" "list_all io_event c"
      unfolding completed_segment_def by (elim exE conjE) (rule that)
    then show ?thesis using q i [of b FireStarted] i [of c FireStarted] i [of c FireCompleted] st ph
      by (cases ok) (simp_all add: guarded_append)
  qed (auto simp: blocked_segment_def unspooled_segment_def guarded_append q)
qed

lemma guarded_free: "guarded ph (typed bs)" "durable ph (typed bs) = ph" "guarded ph (flush_events held gap ok)"
proof -
  show t: "guarded ph (typed bs)" "durable ph (typed bs) = ph" for bs
    by (induction bs rule: typed.induct) (auto simp: disturbs_def)
  show "guarded ph (flush_events held gap ok)" using t by (simp add: flush_events_def guarded_append disturbs_def)
qed

lemma fire_log_guarded:
  assumes "fire_log E th src facts probe r0 message w0 oc w'" "log w' = log w0 @ es'"
  shows "guarded ph es'"
proof -
  from assms(1) obtain before es gap ok after where
    l: "log w' = log w0 @ typed before @ [Armed] @ es @ [Unlocked] @ flush_events (offered es) gap ok @ typed after"
    and s: "fire_segment E th src facts probe r0 (draft_after th (map fst before) (draft (journal w0))) message es oc w'"
    unfolding fire_log_def by blast
  have "es' = typed before @ [Armed] @ es @ [Unlocked] @ flush_events (offered es) gap ok @ typed after" using l assms(2) by simp
  then show ?thesis by (simp add: guarded_append guarded_free guarded_segment [OF s])
qed

subsection \<open>What a reported sighting rests on\<close>

lemma scan_landed:
  assumes "scan E th probe r message v = (ScanLanded, w')"
  shows "\<exists>path e bytes texts. transcript r = Some path \<and> e_file E path e = (Some bytes, env w')
    \<and> texts_from probe (Some bytes) (case transcript_offset r of None \<Rightarrow> 0 | Some n \<Rightarrow> n) = Some texts \<and> message \<in> set texts"
proof -
  obtain path contents e' where p: "transcript r = Some path" "e_file E path (env (interleave E th v)) = (contents, e')"
    "env w' = e'" "probe_scan probe contents (transcript_offset r) message = ScanLanded"
    using assms by (cases "transcript r") (auto simp: scan_def Let_def lift_env_def split: prod.splits)
  obtain bytes where b: "contents = Some bytes" using p(4) by (cases contents) (auto simp: probe_scan_def texts_from_def)
  then obtain texts where "texts_from probe (Some bytes) (case transcript_offset r of None \<Rightarrow> 0 | Some n \<Rightarrow> n) = Some texts" "message \<in> set texts"
    using p(4) by (auto simp: probe_scan_def classify_landing_def Let_def split: option.splits if_splits list.splits)
  then show ?thesis using p b by blast
qed

lemma fire_log_seen:
  assumes "fire_log E th src facts probe r0 message w0 (Terminal (MessageSeen i h)) w'"
  shows "i = send_id r0 \<and> h = content_sha256 r0
    \<and> (\<exists>path e bytes texts. transcript r0 = Some path \<and> e_file E path e = (Some bytes, env w')
         \<and> texts_from probe (Some bytes) (case transcript_offset r0 of None \<Rightarrow> 0 | Some n \<Rightarrow> n) = Some texts \<and> message \<in> set texts)"
proof -
  from assms obtain dr es where s: "fire_segment E th src facts probe r0 dr message es (Terminal (MessageSeen i h)) w'"
    unfolding fire_log_def by blast
  let ?r = "complete_record (start_record dr r0)"
  have r: "send_id ?r = send_id r0" "content_sha256 ?r = content_sha256 r0" "transcript ?r = transcript r0" "transcript_offset ?r = transcript_offset r0"
    by (simp_all add: complete_record_def start_record_def)
  have "landing_outcome E th (live_effects E th src) probe ?r message (acceptance_signal facts) (Terminal (MessageSeen i h)) w'"
    using s unfolding fire_segment_def blocked_segment_def unspooled_segment_def failed_segment_def by (auto simp: send_failed_def)
  then obtain v where "i = send_id r0" "h = content_sha256 r0" "scan E th probe ?r message v = (ScanLanded, w')"
    unfolding landing_outcome_def by (auto simp: r)
  then show ?thesis using scan_landed [of E th probe ?r message v w'] r by simp
qed

end
