(* ===== verification/Composer.thy ===== *)
theory Composer
  imports Attended
begin

text \<open>
  The composer of the stand-in harness (\<open>crates/fakerepl/src/main.rs\<close>), which reproduces how the real
  one treats a burst of input: a burst of at least the threshold is a paste, whose carriage returns
  are newlines; a carriage return of its own submits what has been collected; Ctrl-U empties the line.
  The failure injections (dropped, eaten, stalled or absorbed input) are off, as they are by default,
  and the composer mode is on, as it is when the multiplexer drives it. \<open>convo\<close> are the records of
  its conversation file in the order written: a user record for each submitted text (taken to be valid
  UTF-8), and an assistant record when the turn is over.
\<close>

definition CTRL_U :: char where "CTRL_U = CHR 0x15"

datatype Convo = UserSaid string | AssistantDone nat

record Repl =
  composer :: string
  convo :: "Convo list"
  busy :: bool

definition turns_of :: "Convo list \<Rightarrow> string list" where
  "turns_of cs = List.map_filter (\<lambda>c. case c of UserSaid t \<Rightarrow> Some t | AssistantDone _ \<Rightarrow> None) cs"

definition new_repl :: Repl where
  "new_repl = \<lparr>composer = [], convo = [], busy = False\<rparr>"

definition repl_submit :: "Repl \<Rightarrow> Repl" where
  "repl_submit r = \<lparr>composer = [], convo = convo r @ [UserSaid (composer r)], busy = True\<rparr>"

definition handle_cr :: "bool \<Rightarrow> Repl \<Rightarrow> Repl" where
  "handle_cr is_paste r =
     (if busy r then r\<lparr>composer := composer r @ [LF]\<rparr>
      else if is_paste then r\<lparr>composer := composer r @ [LF]\<rparr>
      else if composer r = [] then r
      else repl_submit r)"

definition burst_byte :: "bool \<Rightarrow> char \<Rightarrow> Repl \<Rightarrow> Repl" where
  "burst_byte is_paste b r =
     (if b = CTRL_U then r\<lparr>composer := []\<rparr>
      else if b = CR then handle_cr is_paste r
      else r\<lparr>composer := composer r @ [b]\<rparr>)"

definition process_burst :: "nat \<Rightarrow> string \<Rightarrow> Repl \<Rightarrow> Repl" where
  "process_burst threshold burst r = fold (burst_byte (threshold \<le> length burst)) burst r"

text \<open>When the time of the turn has passed: idle again, and the assistant's record with the number of the turn.\<close>

definition maybe_end_busy :: "bool \<Rightarrow> Repl \<Rightarrow> Repl" where
  "maybe_end_busy elapsed r =
     (if busy r \<and> elapsed then r\<lparr>busy := False, convo := convo r @ [AssistantDone (length (turns_of (convo r)))]\<rparr> else r)"

subsection \<open>The journal follows the composer\<close>

text \<open>
  While the session is idle, a burst that is a paste or has no carriage return, and no control byte,
  leaves the composer with what the journal's draft becomes, and submits nothing.
\<close>

definition tracks :: "Repl \<Rightarrow> string \<Rightarrow> bool" where
  "tracks r d \<longleftrightarrow> composer r = d \<and> \<not> busy r"

lemma byte_tracks:
  assumes "tracks r d" "b \<noteq> CTRL_U" "paste \<or> b \<noteq> CR"
  shows "tracks (burst_byte paste b r) (fst (journal_byte paste b (d, rl)))"
    "convo (burst_byte paste b r) = convo r" "snd (journal_byte paste b (d, rl)) = rl"
  using assms by (cases "b = CR"; simp add: tracks_def burst_byte_def journal_byte_def handle_cr_def)+

lemma burst_tracks:
  assumes "tracks r d" "CTRL_U \<notin> set bs" "paste \<or> CR \<notin> set bs"
  shows "tracks (fold (burst_byte paste) bs r) (fst (fold (journal_byte paste) bs (d, rl)))
    \<and> convo (fold (burst_byte paste) bs r) = convo r \<and> snd (fold (journal_byte paste) bs (d, rl)) = rl"
  using assms
proof (induction bs arbitrary: r d)
  case (Cons b bs)
  then have b: "tracks r d" "b \<noteq> CTRL_U" "paste \<or> b \<noteq> CR" and bs: "CTRL_U \<notin> set bs" "paste \<or> CR \<notin> set bs"
    by auto
  obtain d' where j: "journal_byte paste b (d, rl) = (d', rl)" using byte_tracks(3) [OF b, of rl] by (cases "journal_byte paste b (d, rl)") simp
  have "tracks (burst_byte paste b r) d'" using byte_tracks(1) [OF b, of rl] j by simp
  from Cons.IH [OF this bs] byte_tracks(2) [OF b] j show ?case by simp
qed simp

end
