(* ===== verification/Fire_Ends.thy ===== *)
theory Fire_Ends
  imports Fire_Run Composer
begin

text \<open>
  A fire ends: every loop of it waits for a deadline, so it is enough that the clock does not run
  backwards and that sleeping moves it. The stand-in harness is such an environment.
\<close>

locale clocked_env =
  fixes E :: "'e Env" and clk :: "'e \<Rightarrow> int"
  assumes write_clk: "clk e \<le> clk (snd (e_write E b e))"
    and screen_clk: "clk e \<le> clk (snd (e_screen E e))"
    and status_clk: "clk e \<le> clk (snd (e_status E e))"
    and spool_clk: "clk e \<le> clk (snd (e_spool E e))"
    and file_clk: "clk e \<le> clk (snd (e_file E path e))"
    and now_clk: "clk e \<le> fst (e_now E e) \<and> fst (e_now E e) \<le> clk (snd (e_now E e))"
    and sleep_clk: "clk e + int ms \<le> clk (e_sleep E ms e)"
begin

lemma write_pty_clk: "clk (env w) \<le> clk (env (snd (write_pty E p b w)))"
  using write_clk [of "env w" b] by (simp add: write_pty_def note_ev_def split_beta)

lemma human_turn_clk: "clk (env w) \<le> clk (env (human_turn E th bt w))"
proof (cases "locked (inlock w)")
  case True
  then show ?thesis
    by (simp add: human_turn_def journal_admit_passthrough_def admit_def note_ev_def split_beta)
next
  case False
  let ?w = "note_ev (Burst (fst bt)) (w\<lparr>journal := snd (on_human_input (fst bt) (snd bt) th (journal w))\<rparr>)"
  have "human_turn E th bt w = snd (write_pty E Human (fst bt) ?w)"
    using False by (simp add: human_turn_def journal_admit_passthrough_def admit_def note_ev_def split_beta)
  then show ?thesis using write_pty_clk [of ?w Human "fst bt"] by (simp add: note_ev_def)
qed

lemma fold_human_clk: "clk (env w) \<le> clk (env (fold (human_turn E th) bts w))"
  by (induction bts arbitrary: w) (auto intro: order_trans [OF human_turn_clk])

lemma interleave_clk: "clk (env w) \<le> clk (env (interleave E th w))"
proof (cases "sched w")
  case (Cons bs rest)
  then show ?thesis using fold_human_clk [of "w\<lparr>sched := rest\<rparr>" th bs] by (simp add: interleave_def)
qed (simp add: interleave_def)

lemma live_clk:
  "clk (env w) \<le> clk (env (snd (read_status (live_effects E th src) w)))"
  "clk (env w) \<le> clk (env (send_cr (live_effects E th src) w))"
  "clk (env w) + int ms \<le> clk (env (sleep (live_effects E th src) ms w))"
  "clk (env w) \<le> fst (now_ms (live_effects E th src) w) \<and> fst (now_ms (live_effects E th src) w) \<le> clk (env (snd (now_ms (live_effects E th src) w)))"
  "clk (env w) \<le> clk (env (snd (read_screen (live_effects E th src) w)))"
  "clk (env w) \<le> clk (env (snd (scan E th probe r message w)))"
proof -
  let ?w = "interleave E th w"
  show "clk (env w) \<le> clk (env (snd (read_status (live_effects E th src) w)))"
    using status_clk [of "env ?w"] interleave_clk [of w th] by (auto simp: live_sel Let_def lift_env_snd)
  show "clk (env w) \<le> clk (env (send_cr (live_effects E th src) w))"
    using write_pty_clk [of ?w Return "[CR]"] interleave_clk [of w th] by (simp add: live_sel)
  show "clk (env w) + int ms \<le> clk (env (sleep (live_effects E th src) ms w))"
    using sleep_clk [of "env ?w" ms] interleave_clk [of w th] by (simp add: live_sel Let_def)
  show "clk (env w) \<le> fst (now_ms (live_effects E th src) w) \<and> fst (now_ms (live_effects E th src) w) \<le> clk (env (snd (now_ms (live_effects E th src) w)))"
    using now_clk [of "env ?w"] interleave_clk [of w th] by (simp add: live_sel Let_def lift_env_snd lift_env_fst)
  show "clk (env w) \<le> clk (env (snd (read_screen (live_effects E th src) w)))"
    using screen_clk [of "env ?w"] interleave_clk [of w th] by (simp add: live_sel Let_def lift_env_snd)
  show "clk (env w) \<le> clk (env (snd (scan E th probe r message w)))"
    using file_clk [of "env ?w"] interleave_clk [of w th]
    by (auto simp: scan_def Let_def lift_env_def split_beta split: option.split intro: order_trans)
qed

end

sublocale clocked_env \<subseteq> live: clocked_session "content_verified (live_effects E th src) message region" "\<lambda>w. clk (env w)"
  for th src message region
proof
  fix w :: "'e World" and ms
  let ?fx = "live_effects E th src"
  show "clk (env w) \<le> clk (env (snd (read_status (content_verified ?fx message region) w)))"
    using live_clk(1) by (simp add: content_verified_def)
  show "clk (env w) \<le> fst (now_ms (content_verified ?fx message region) w)
      \<and> fst (now_ms (content_verified ?fx message region) w) \<le> clk (env (snd (now_ms (content_verified ?fx message region) w)))"
    using live_clk(4) by (simp add: content_verified_def)
  show "clk (env w) + int ms \<le> clk (env (sleep (content_verified ?fx message region) ms w))"
    using live_clk(3) by (simp add: content_verified_def)
  have "clk (env w) \<le> clk (env (snd (read_screen ?fx w)))" by (rule live_clk(5))
  moreover have "clk (env (snd (read_screen ?fx w))) \<le> clk (env (send_cr ?fx (snd (read_screen ?fx w))))" by (rule live_clk(2))
  ultimately show "clk (env w) \<le> clk (env (send_cr (content_verified ?fx message region) w))"
    by (auto simp: content_verified_def split_beta)
qed

context clocked_env
begin

lemma inject_ends:
  assumes "0 < poll_ms (submit cfg)"
  shows "\<exists>acc w'. inject (live_effects E th src) facts message cfg w = Some (acc, w')"
proof (cases "acceptance_signal facts")
  case BusyTransition
  let ?fx = "live_effects E th src"
  let ?w2 = "send_cr ?fx (sleep ?fx TWO_WRITE_SETTLE_MS (send_text_chunked (send_text ?fx) (sleep ?fx) message default_chunk_options w))"
  obtain oc w' where "verify_accepted_then_cr (content_verified ?fx message (composer_region facts)) (submit cfg) ?w2 = Some (oc, w')"
    using live.verify_ends [OF assms] by blast
  then show ?thesis using BusyTransition
    by (simp add: inject_def deliver_idle_two_write_in_region_def deliver_idle_two_write_with_region_def)
qed (auto simp: inject_def)

lemma landing_loop_ends:
  "0 < poll \<Longrightarrow> \<exists>oc w'. landing_loop E th (live_effects E th src) probe r message poll signal deadline w = Some (oc, w')"
proof (induction "nat (deadline - clk (env w))" arbitrary: w rule: less_induct)
  case less
  let ?fx = "live_effects E th src"
  obtain sc w1 where sc: "scan E th probe r message w = (sc, w1)" by fastforce
  obtain s w2 where s: "(if signal = BusyTransition then read_status ?fx w1 else (Some [], w1)) = (s, w2)" by fastforce
  obtain t w3 where t: "now_ms ?fx w2 = (t, w3)" by fastforce
  have c: "clk (env w) \<le> clk (env w1)" "clk (env w1) \<le> clk (env w2)" "clk (env w2) \<le> t" "t \<le> clk (env w3)"
    using live_clk(6) [of w th probe r message] sc live_clk(1) [of w1 th src] s live_clk(4) [of w2 th src] t
    by (auto split: if_splits)
  have sl: "clk (env w3) + int poll \<le> clk (env (sleep ?fx poll w3))" by (rule live_clk(3))
  note unfold = landing_loop.simps [of E th ?fx probe r message poll signal deadline w]
  show ?case
  proof (cases "sc = ScanUnconfirmed \<and> s \<noteq> None \<and> t < deadline")
    case False
    then show ?thesis unfolding unfold using sc s t by (cases sc; cases "s = None") (auto simp: not_less)
  next
    case True
    then have "nat (deadline - clk (env (sleep ?fx poll w3))) < nat (deadline - clk (env w))" using c sl less.prems by linarith
    then obtain oc w' where "landing_loop E th ?fx probe r message poll signal deadline (sleep ?fx poll w3) = Some (oc, w')"
      using less by blast
    then show ?thesis unfolding unfold using sc s t True by auto
  qed
qed

lemma fire_ends:
  assumes "0 < poll_ms (submit cfg)" "0 < landing_poll_ms cfg"
  shows "\<exists>oc w'. fire E th src facts probe r0 message cfg w0 = Some (oc, w')"
proof -
  let ?fx = "live_effects E th src"
  have land: "\<exists>oc w'. landing_terminal E th ?fx probe r message cfg signal w = Some (oc, w')" for r signal w
    using landing_loop_ends [OF assms(2)] by (simp add: landing_terminal_def split_beta)
  have sub: "\<exists>oc w'. fire_submit E th ?fx facts probe dr r1 message cfg w = Some (oc, w')" for dr r1 w
  proof -
    obtain acc w5 where "inject ?fx facts message cfg w = Some (acc, w5)" using inject_ends [OF assms(1)] by blast
    then show ?thesis using land by (cases acc) (auto simp: fire_submit_def Let_def finish_failure_def)
  qed
  have clear: "\<exists>oc w'. fire_clear E th ?fx facts probe dr r1 message cfg w = Some (oc, w')" for dr r1 w
    using sub by (cases "clear_composer ?fx facts w"; cases "fst (clear_composer ?fx facts w)") (auto simp: fire_clear_def finish_failure_def)
  have "\<exists>oc w'. fire_locked E th ?fx facts probe dr r0 message cfg w = Some (oc, w')" for dr w
    using clear by (auto simp: fire_locked_def Let_def finish_failure_def split_beta)
  then show ?thesis by (auto simp: fire_def Let_def split_beta)
qed

end

subsection \<open>The stand-in harness as an environment\<close>

text \<open>
  The harness with a clock: what is written is a burst for its composer, its screen is the prompt and
  the composer, its status says whether a turn runs, its transcript has the records of the
  conversation, and a sleep of at least a second ends the turn. The spool and the terminal do not fail.
\<close>

fun convo_record :: "Convo \<Rightarrow> Value" where
  "convo_record (UserSaid t) = VObj [(''type'', VStr ''user''), (''message'', VObj [(''content'', VStr t)])]"
| "convo_record (AssistantDone n) =
     VObj [(''type'', VStr ''assistant''),
       (''message'', VObj [(''stop_reason'', VStr ''end_turn''),
         (''content'', VArr [VObj [(''type'', VStr ''text''), (''text'', VStr (''fakerepl reply '' @ nat_digits n))]])])]"

definition repl_env :: "nat \<Rightarrow> (Repl \<times> int) Env" where
  "repl_env th =
     \<lparr>e_write = (\<lambda>b (r, t). (True, (process_burst th b r, t))),
      e_screen = (\<lambda>(r, t). (PROMPT_GLYPH @ '' '' @ composer r, (r, t))),
      e_status = (\<lambda>(r, t). (Some (if busy r then ''busy'' else ''idle''), (r, t))),
      e_sleep = (\<lambda>ms (r, t). (maybe_end_busy (1000 \<le> ms) r, t + int ms)),
      e_now = (\<lambda>(r, t). (t, (r, t))),
      e_spool = (\<lambda>e. (True, e)),
      e_file = (\<lambda>path (r, t). (Some (concat (map (\<lambda>x. sample_to_string (convo_record x) @ [NL]) (convo r))), (r, t)))\<rparr>"

interpretation repl: clocked_env "repl_env th" snd for th
  by unfold_locales (auto simp: repl_env_def split: prod.split)

end
