(* ===== verification/Deliver.thy ===== *)
theory Deliver
  imports Fire_Ends
begin

text \<open>
  A fire against the stand-in harness, with nobody typing: the message becomes a turn of its own, the
  draft is back in the composer, and the outcome is the sighting of the message.
\<close>

definition repl_probe :: "(string \<Rightarrow> string) \<Rightarrow> LandingProbe" where
  "repl_probe sha = \<lparr>from_str = sample_from_str, text_of = user_text, utf8 = (\<lambda>_. True), sha256 = sha\<rparr>"

definition repl_transcript :: "Convo list \<Rightarrow> string" where
  "repl_transcript ts = concat (map (\<lambda>x. sample_to_string (convo_record x) @ [NL]) ts)"

subsection \<open>The transcript reads back\<close>

lemma turn_line:
  "NL \<notin> set (sample_to_string (convo_record x))" "strip_cr (sample_to_string (convo_record x)) = sample_to_string (convo_record x)"
  "trim (sample_to_string (convo_record x)) = sample_to_string (convo_record x)" "sample_to_string (convo_record x) \<noteq> []"
  "sample_from_str (sample_to_string (convo_record x)) = Some (convo_record x)"
  using sample_value_ok by (cases x; auto simp: value_ok_def intro: trim_tight strip_cr_tight)+

lemma turn_text: "user_text (convo_record x) = (case x of UserSaid t \<Rightarrow> Some t | AssistantDone n \<Rightarrow> None)"
  by (cases x) (simp_all add: user_text_def get_str_def extract_message_text_def)

lemma whole_transcript: "whole_lines (repl_transcript ts)"
  by (cases ts rule: rev_cases) (simp_all add: repl_transcript_def whole_lines_def)

lemma transcript_lines: "rust_lines (repl_transcript ts) = map (\<lambda>x. sample_to_string (convo_record x)) ts"
proof (induction ts rule: rev_induct)
  case Nil
  then show ?case by (simp add: repl_transcript_def rust_lines_def)
next
  case (snoc x ts)
  have "repl_transcript (ts @ [x]) = repl_transcript ts @ sample_to_string (convo_record x) @ [NL]" by (simp add: repl_transcript_def)
  then show ?case using snoc rust_lines_append_line [OF whole_transcript turn_line(1,2)] by simp
qed

lemma transcript_texts: "body_texts sample_from_str user_text (repl_transcript ts) = turns_of ts"
  unfolding body_texts_def transcript_lines turns_of_def
  by (induction ts) (simp_all add: turn_line turn_text Let_def List.map_filter_simps split: Convo.split)

lemma scan_new_turn:
  "probe_scan (repl_probe sha) (Some (repl_transcript (ts @ [UserSaid message]))) (Some (length (repl_transcript ts))) message = ScanLanded"
proof -
  have "from_offset (length (repl_transcript ts)) (repl_transcript (ts @ [UserSaid message])) = repl_transcript [UserSaid message]"
    by (simp add: from_offset_def repl_transcript_def)
  then show ?thesis using transcript_texts [of "[UserSaid message]"]
    by (simp add: probe_scan_def texts_from_def repl_probe_def Let_def classify_landing_def turns_of_def List.map_filter_simps)
qed

subsection \<open>Effects with an empty schedule\<close>

definition rests :: "(Repl \<times> int) World \<Rightarrow> Repl \<Rightarrow> bool" where
  "rests w r \<longleftrightarrow> sched w = [] \<and> buffer (inlock w) = [] \<and> fst (env w) = r"

lemma rests_interleave: "rests w r \<Longrightarrow> interleave E th w = w"
  by (simp add: rests_def interleave_def)

lemma effects_rest:
  assumes "rests w r"
  shows "fst (read_screen (live_effects (repl_env th) th' src) w) = PROMPT_GLYPH @ '' '' @ composer r"
    "rests (snd (read_screen (live_effects (repl_env th) th' src) w)) r"
    "rests (send_cr (live_effects (repl_env th) th' src) w) (process_burst th [CR] r)"
    "rests (send_text (live_effects (repl_env th) th' src) b w) (process_burst th b r)"
    "fst (write_raw (live_effects (repl_env th) th' src) p b w)"
    "rests (snd (write_raw (live_effects (repl_env th) th' src) p b w)) (process_burst th b r)"
    "ms < 1000 \<Longrightarrow> rests (sleep (live_effects (repl_env th) th' src) ms w) r"
    "rests (snd (now_ms (live_effects (repl_env th) th' src) w)) r"
    "has_status src \<Longrightarrow> fst (read_status (live_effects (repl_env th) th' src) w) = Some (if busy r then ''busy'' else ''idle'')"
    "rests (snd (read_status (live_effects (repl_env th) th' src) w)) r"
    "fst (spool_record (repl_env th) th' x w)"
    "rests (snd (spool_record (repl_env th) th' x w)) r"
    "fst (unlock_input (repl_env th) th' w) = []"
    "rests (snd (unlock_input (repl_env th) th' w)) r"
    "fst (lock_and_snapshot (repl_env th) th' w) = draft (journal w)"
    "rests (snd (lock_and_snapshot (repl_env th) th' w)) r"
  using assms rests_interleave [OF assms, of _ th']
  by (auto simp: live_sel Let_def rests_def repl_env_def lift_env_def write_pty_def note_ev_def spool_record_def unlock_input_def
      unlock_and_drain_def lock_and_snapshot_def lock_input_def maybe_end_busy_def split: prod.split)

lemma typed_burst:
  assumes "CR \<notin> set b" "CTRL_U \<notin> set b"
  shows "process_burst th b r = r\<lparr>composer := composer r @ b\<rparr>"
proof -
  have "fold (burst_byte paste) b r = r\<lparr>composer := composer r @ b\<rparr>" for paste
    using assms by (induction b arbitrary: r) (auto simp: burst_byte_def)
  then show ?thesis by (simp add: process_burst_def)
qed

lemma chunks_rest:
  assumes "rests w r" "\<forall>c\<in>set cs. CR \<notin> set c \<and> CTRL_U \<notin> set c" "ms < 1000"
  shows "rests (send_chunks (send_text (live_effects (repl_env th) th' src)) (sleep (live_effects (repl_env th) th' src)) ms i cs w)
    (r\<lparr>composer := composer r @ concat cs\<rparr>)"
  using assms
proof (induction cs arbitrary: i w r)
  case (Cons c cs)
  let ?fx = "live_effects (repl_env th) th' src"
  let ?w = "if 0 < i then sleep ?fx ms w else w"
  have "rests ?w r" using Cons.prems(1,3) effects_rest(7) by simp
  from effects_rest(4) [OF this, of th th' src c]
  have "rests (send_text ?fx c ?w) (r\<lparr>composer := composer r @ c\<rparr>)" using Cons.prems(2) by (simp add: typed_burst)
  from Cons.IH [OF this, of "i + 1"] Cons.prems(2,3) show ?case by simp
qed simp

subsection \<open>The steps of the fire\<close>

lemma chunk_subset: "c \<in> set (chunk_text message n) \<Longrightarrow> set c \<subseteq> set message"
proof -
  assume "c \<in> set (chunk_text message n)"
  then have "set c \<subseteq> set (concat (chunk_text message n))" by (auto simp del: concat_chunk_text)
  then show ?thesis by (simp only: concat_chunk_text)
qed

lemma inject_rest:
  assumes "rests w (r\<lparr>composer := [], busy := False\<rparr>)" "message \<noteq> []" "CR \<notin> set message" "CTRL_U \<notin> set message" "1 < th"
  shows "\<exists>w'. inject (live_effects (repl_env th) th' claude_default) safe_default_facts message cfg w = Some (True, w')
    \<and> rests w' \<lparr>composer = [], convo = convo r @ [UserSaid message], busy = True\<rparr>"
proof -
  let ?fx = "live_effects (repl_env th) th' claude_default" and ?r = "\<lparr>composer = [], convo = convo r @ [UserSaid message], busy = True\<rparr>"
  let ?w1 = "send_text_chunked (send_text ?fx) (sleep ?fx) message default_chunk_options w"
  let ?w2 = "send_cr ?fx (sleep ?fx TWO_WRITE_SETTLE_MS ?w1)"
  have "\<forall>c\<in>set (chunk_text message CHUNK_BYTES). CR \<notin> set c \<and> CTRL_U \<notin> set c"
    using assms(3,4) chunk_subset by blast
  from chunks_rest [OF assms(1) this, of CHUNK_SETTLE_MS th th' claude_default 0]
  have "rests ?w1 (r\<lparr>busy := False, composer := message\<rparr>)"
    by (simp add: send_text_chunked_def default_chunk_options_def CHUNK_SETTLE_MS_def)
  then have "rests (sleep ?fx TWO_WRITE_SETTLE_MS ?w1) (r\<lparr>busy := False, composer := message\<rparr>)"
    using effects_rest(7) by (simp add: TWO_WRITE_SETTLE_MS_def)
  from effects_rest(3) [OF this, of th th' claude_default] have w2: "rests ?w2 ?r"
    using assms(2,5) by (simp add: process_burst_def burst_byte_def handle_cr_def repl_submit_def CTRL_U_def CR_def)
  let ?cv = "content_verified ?fx message (composer_region safe_default_facts)"
  obtain t w3 where t: "now_ms ?fx ?w2 = (t, w3)" by fastforce
  have w3: "rests w3 ?r" using effects_rest(8) [OF w2, of th th' claude_default] t by simp
  have "fst (read_status ?fx w3) = Some BUSY"
    using effects_rest(9) [OF w3, of claude_default th th'] by (simp add: claude_default_def BUSY_def)
  then have "busy_loop ?cv deadline poll w3 = Some (True, snd (read_status ?fx w3))" for deadline poll
    by (subst busy_loop.simps) (simp add: content_verified_def split_beta)
  then have "verify_accepted_then_cr ?cv (submit cfg) ?w2
      = Some (\<lparr>accepted = True, crs_fired = 0, suppressed_busy_cr = False\<rparr>, snd (read_status ?fx w3))"
    using t by (simp add: verify_accepted_then_cr_def wait_for_busy_def content_verified_def)
  then show ?thesis using effects_rest(10) [OF w3]
    by (simp add: inject_def safe_default_facts_def deliver_idle_two_write_in_region_def deliver_idle_two_write_with_region_def)
qed

lemma landing_rest:
  assumes "rests w r" "convo r = ts @ [UserSaid message]" "transcript x = Some path" "transcript_offset x = Some (length (repl_transcript ts))"
  shows "\<exists>w'. landing_terminal (repl_env th) th' (live_effects (repl_env th) th' src) (repl_probe sha) x message cfg signal w
      = Some (Terminal (MessageSeen (send_id x) (content_sha256 x)), w') \<and> rests w' r"
proof -
  let ?fx = "live_effects (repl_env th) th' src"
  obtain t w1 where t: "now_ms ?fx w = (t, w1)" by fastforce
  have w1: "rests w1 r" using effects_rest(8) [OF assms(1), of th th' src] t by simp
  obtain rp t1 where e: "env w1 = (rp, t1)" "rp = r" using w1 by (cases "env w1") (auto simp: rests_def)
  have "scan (repl_env th) th' (repl_probe sha) x message w1 = (ScanLanded, w1)"
    using assms(2,3,4) e scan_new_turn [of sha ts message]
    by (simp add: scan_def rests_interleave [OF w1] lift_env_def repl_env_def repl_transcript_def)
  then show ?thesis using t w1 by (simp add: landing_terminal_def landing_loop.simps)
qed

lemma unless_empty_rest:
  assumes "rests w r" "CR \<notin> set b" "CTRL_U \<notin> set b"
  shows "rests (write_unless_empty (live_effects (repl_env th) th' src) p b w) (r\<lparr>composer := composer r @ b\<rparr>)"
  using assms effects_rest(6) [OF assms(1), of th th' src p b] by (simp add: write_unless_empty_def typed_burst)

lemma unlock_rest:
  assumes "rests w r"
  shows "rests (unlock_and_flush (repl_env th) th' (live_effects (repl_env th) th' src) w) r"
  using effects_rest(13,14) [OF assms, of th th'] by (simp add: unlock_and_flush_def write_unless_empty_def split_beta)

lemma fire_submit_rest:
  assumes w4: "rests w4 (r\<lparr>composer := [], busy := False\<rparr>)" and dr: "CR \<notin> set dr" "CTRL_U \<notin> set dr"
    and message: "message \<noteq> []" "CR \<notin> set message" "CTRL_U \<notin> set message" and th: "1 < th"
    and x: "transcript x = Some path" "transcript_offset x = Some (length (repl_transcript (convo r)))"
  shows "\<exists>w'. fire_submit (repl_env th) th (live_effects (repl_env th) th claude_default) safe_default_facts (repl_probe sha) dr x message cfg w4
      = Some (Terminal (MessageSeen (send_id x) (content_sha256 x)), w')
    \<and> rests w' \<lparr>composer = dr, convo = convo r @ [UserSaid message], busy = True\<rparr>"
proof -
  let ?fx = "live_effects (repl_env th) th claude_default" and ?r = "\<lparr>composer = dr, convo = convo r @ [UserSaid message], busy = True\<rparr>"
  from inject_rest [OF w4 message th, of th cfg] obtain w5 where
    w5: "inject ?fx safe_default_facts message cfg w4 = Some (True, w5)" "rests w5 \<lparr>composer = [], convo = convo r @ [UserSaid message], busy = True\<rparr>"
    by blast
  let ?x2 = "complete_record x"
  let ?w6 = "snd (spool_record (repl_env th) th ?x2 w5)"
  let ?w8 = "unlock_and_flush (repl_env th) th ?fx (write_unless_empty ?fx Replay dr ?w6)"
  have "rests ?w6 \<lparr>composer = [], convo = convo r @ [UserSaid message], busy = True\<rparr>" by (rule effects_rest(12) [OF w5(2)])
  from unlock_rest [OF unless_empty_rest [OF this dr]] have w8: "rests ?w8 ?r" by simp
  have "transcript ?x2 = Some path" "transcript_offset ?x2 = Some (length (repl_transcript (convo r)))"
    "send_id ?x2 = send_id x" "content_sha256 ?x2 = content_sha256 x"
    using x by (simp_all add: complete_record_def)
  with landing_rest [OF w8, of "convo r" message ?x2 path th th claude_default sha cfg "acceptance_signal safe_default_facts"]
  show ?thesis using w5(1) by (auto simp: fire_submit_def Let_def)
qed

lemma fire_delivers_lemma:
  assumes start: "inlock w = new_lock" "sched w = []" "env w = (r, t)" "\<not> busy r" "draft (journal w) = composer r"
    and dr: "CR \<notin> set (composer r)" "CTRL_U \<notin> set (composer r)"
      "\<not> modal_screen_is_denied (PROMPT_GLYPH @ '' '' @ composer r) CLAUDE_MODAL_SIGS"
    and message: "message \<noteq> []" "CR \<notin> set message" "CTRL_U \<notin> set message" and th: "1 < th"
    and x: "transcript x = Some path" "transcript_offset x = Some (length (repl_transcript (convo r)))"
  shows "\<exists>w'. fire (repl_env th) th claude_default safe_default_facts (repl_probe sha) x message cfg w
      = Some (Terminal (MessageSeen (send_id x) (content_sha256 x)), w')
    \<and> rests w' \<lparr>composer = composer r, convo = convo r @ [UserSaid message], busy = True\<rparr>"
proof -
  let ?fx = "live_effects (repl_env th) th claude_default" and ?x1 = "start_record (composer r) x"
  let ?r = "\<lparr>composer = composer r, convo = convo r @ [UserSaid message], busy = True\<rparr>"
  have w: "rests w r" using start by (simp add: rests_def new_lock_def)
  obtain w1 where w1: "lock_and_snapshot (repl_env th) th w = (composer r, w1)" "rests w1 r"
    using effects_rest(15,16) [OF w, of th th] start(5) by (metis prod.collapse)
  have "contains (PROMPT_GLYPH @ '' '' @ composer r) PROMPT_GLYPH" unfolding contains_iff by (rule exI [of _ "[]"]) auto
  then have plain: "composer_is_plain safe_default_facts (PROMPT_GLYPH @ '' '' @ composer r) = Some True"
    using dr(3) by (simp add: safe_default_facts_def default_is_plain_def)
  obtain w2 where w2: "verify_plain_composer ?fx safe_default_facts cfg w1 = (True, w2)" "rests w2 r"
  proof
    obtain n where n: "max (verify_attempts cfg) 1 = Suc n" by (metis max.cobounded2 Suc_le_D One_nat_def)
    show "verify_plain_composer ?fx safe_default_facts cfg w1 = (True, snd (read_screen ?fx w1))"
      unfolding verify_plain_composer_def n using effects_rest(1) [OF w1(2), of th th claude_default] plain by (simp add: split_beta)
    show "rests (snd (read_screen ?fx w1)) r" by (rule effects_rest(2) [OF w1(2)])
  qed
  obtain w3 where w3: "spool_record (repl_env th) th ?x1 w2 = (True, w3)" "rests w3 r"
    using effects_rest(11,12) [OF w2(2), of th th ?x1] by (metis (full_types) prod.collapse)
  let ?w4 = "snd (write_raw ?fx Clear SAFE_CLEAR_CHORD w3)"
  have cl: "clear_composer ?fx safe_default_facts w3 = (Cleared, ?w4)"
    using effects_rest(5) [OF w3(2), of th th claude_default Clear SAFE_CLEAR_CHORD]
    by (simp add: clear_composer_def safe_default_facts_def clear_once_def split_beta Let_def)
  have "r\<lparr>composer := []\<rparr> = r\<lparr>composer := [], busy := False\<rparr>" using start(4) by (cases r) simp
  then have "rests ?w4 (r\<lparr>composer := [], busy := False\<rparr>)"
    using effects_rest(6) [OF w3(2), of th th claude_default Clear SAFE_CLEAR_CHORD]
    by (simp add: process_burst_def burst_byte_def SAFE_CLEAR_CHORD_def CTRL_U_def)
  from fire_submit_rest [OF this dr(1,2) message th, of ?x1 path sha cfg] x obtain w' where
    w': "fire_submit (repl_env th) th ?fx safe_default_facts (repl_probe sha) (composer r) ?x1 message cfg ?w4
      = Some (Terminal (MessageSeen (send_id x) (content_sha256 x)), w')" "rests w' ?r"
    by (auto simp: start_record_def)
  then have "fire_locked (repl_env th) th ?fx safe_default_facts (repl_probe sha) (composer r) x message cfg w1
      = Some (Terminal (MessageSeen (send_id x) (content_sha256 x)), w')"
    using w2(1) w3(1) cl w'(1) by (simp add: fire_locked_def fire_clear_def Let_def)
  then show ?thesis using w1(1) w'(2) by (simp add: fire_def live_sel claude_default_def)
qed

end
