(* ===== verification/Driver.thy ===== *)
theory Driver
  imports Fire
begin

text \<open>
  The driver of attended delivery (\<open>crates/qrmux/src/attended/driver.rs\<close>): which harness a session
  hosts, which held send fires and when, and the steps of the task that owns the held sends. The
  banner (\<open>banner.rs\<close>) is modelled as far as the driver computes it.
\<close>

subsection \<open>The harness\<close>

fun split_char :: "char \<Rightarrow> string \<Rightarrow> string list" where
  "split_char x [] = [[]]"
| "split_char x (c # cs) = (if c = x then [] # split_char x cs else case split_char x cs of [] \<Rightarrow> [[c]] | l # ls \<Rightarrow> (c # l) # ls)"

definition basename :: "string \<Rightarrow> string" where
  "basename p = rev (takeWhile (\<lambda>c. c \<noteq> CHR ''/'' \<and> c \<noteq> CHR 0x5C) (rev p))"

definition strip_exe :: "string \<Rightarrow> string" where
  "strip_exe s = (if 4 \<le> length s \<and> drop (length s - 4) s = ''.exe'' then take (length s - 4) s else s)"

datatype Harness = Codex | Pi | DefaultHarness

definition from_argv0 :: "string option \<Rightarrow> Harness" where
  "from_argv0 argv0 =
     (let base = strip_exe (case argv0 of None \<Rightarrow> [] | Some p \<Rightarrow> basename p)
      in if base = ''codex'' then Codex else if base = ''pi'' then Pi else DefaultHarness)"

definition strip_prefix :: "string \<Rightarrow> string \<Rightarrow> string option" where
  "strip_prefix s p = (if starts_with s p then Some (drop (length p) s) else None)"

definition QUOTE :: char where "QUOTE = CHR 0x27"

fun first_bin :: "string list \<Rightarrow> string option" where
  "first_bin [] = None"
| "first_bin (seg # segs) =
     (case strip_prefix (trim_start seg) (''command '' @ [QUOTE]) of
        None \<Rightarrow> first_bin segs
      | Some rest \<Rightarrow> let bin = hd (split_char QUOTE rest) in if bin \<noteq> [] then Some bin else first_bin segs)"

definition login_shell_launched_bin :: "string list \<Rightarrow> string option" where
  "login_shell_launched_bin argv =
     (if length argv \<noteq> 3 \<or> argv ! 1 \<noteq> ''-lc'' then None else first_bin (split_char (CHR '';'') (argv ! 2)))"

definition from_command :: "string list \<Rightarrow> Harness" where
  "from_command argv =
     (let prog0 = (case argv of [] \<Rightarrow> None | p # _ \<Rightarrow> Some p);
          is_login_shell = (case prog0 of None \<Rightarrow> False | Some p \<Rightarrow> basename p = ''bash'' \<or> basename p = ''sh'')
      in case (if is_login_shell then login_shell_launched_bin argv else None) of
           Some bin \<Rightarrow> from_argv0 (Some bin)
         | None \<Rightarrow> from_argv0 prog0)"

fun harness_facts :: "Harness \<Rightarrow> HarnessFacts" where
  "harness_facts Codex = codex_facts"
| "harness_facts Pi = pi_facts"
| "harness_facts DefaultHarness = safe_default_facts"

fun probe_text :: "Harness \<Rightarrow> Value \<Rightarrow> string option" where
  "probe_text Codex = codex_user_text"
| "probe_text Pi = user_text"
| "probe_text DefaultHarness = user_text"

fun status_source :: "Harness \<Rightarrow> StatusSource" where
  "status_source Codex = none_source"
| "status_source Pi = none_source"
| "status_source DefaultHarness = claude_default"

definition ledger_path :: "string \<Rightarrow> string option \<Rightarrow> string \<Rightarrow> string" where
  "ledger_path state_dir sess name =
     (let key = (case sess of Some sid \<Rightarrow> if sid \<noteq> [] then sid else ''byname-'' @ name | None \<Rightarrow> ''byname-'' @ name)
      in state_dir @ ''/sessions/'' @ key @ ''.events.jsonl'')"

subsection \<open>The scheduler\<close>

record InFlight =
  if_record :: PendingRecord
  if_message :: string
  forced :: bool

abbreviation if_id :: "InFlight \<Rightarrow> string" where
  "if_id s \<equiv> send_id (if_record s)"

datatype SchedAction = FireSend string | SleepMs nat | IdleWait

definition sched_add :: "PendingRecord \<Rightarrow> string \<Rightarrow> InFlight list \<Rightarrow> InFlight list" where
  "sched_add r message sends = sends @ [\<lparr>if_record = r, if_message = message, forced = False\<rparr>]"

definition sched_take :: "string \<Rightarrow> InFlight list \<Rightarrow> (InFlight \<times> InFlight list) option" where
  "sched_take i sends = position (\<lambda>s. if_id s = i) sends \<bind> vremove sends"

definition sched_force :: "string option \<Rightarrow> InFlight list \<Rightarrow> InFlight list" where
  "sched_force target sends =
     (case target of
        Some i \<Rightarrow> (case position (\<lambda>s. if_id s = i) sends of None \<Rightarrow> sends | Some k \<Rightarrow> sends[k := (sends ! k)\<lparr>forced := True\<rparr>])
      | None \<Rightarrow> (case sends of [] \<Rightarrow> [] | s # rest \<Rightarrow> s\<lparr>forced := True\<rparr> # rest))"

definition decide :: "Journal \<Rightarrow> AttendedConfig \<Rightarrow> int \<Rightarrow> InFlight \<Rightarrow> FireDecision" where
  "decide j cfg now s = evaluate j (accepted_at_ms (if_record s)) now cfg (priority (if_record s))"

fun pick :: "Journal \<Rightarrow> AttendedConfig \<Rightarrow> int \<Rightarrow> int option \<Rightarrow> InFlight list \<Rightarrow> SchedAction" where
  "pick j cfg now min_deadline [] = (case min_deadline of Some d \<Rightarrow> SleepMs (nat (max (d - now) 0)) | None \<Rightarrow> IdleWait)"
| "pick j cfg now min_deadline (s # rest) =
     (case decide j cfg now s of
        Immediate \<Rightarrow> FireSend (if_id s)
      | Countdown d \<Rightarrow> pick j cfg now (Some (case min_deadline of None \<Rightarrow> d | Some m \<Rightarrow> min m d)) rest)"

definition next_action :: "InFlight list \<Rightarrow> Journal \<Rightarrow> AttendedConfig \<Rightarrow> int \<Rightarrow> SchedAction" where
  "next_action sends j cfg now =
     (case find forced sends of Some s \<Rightarrow> FireSend (if_id s) | None \<Rightarrow> pick j cfg now None sends)"

record CountdownView =
  deadline_ms :: int
  cd_priority :: bool

definition better :: "Journal \<Rightarrow> AttendedConfig \<Rightarrow> int \<Rightarrow> InFlight \<Rightarrow> CountdownView option \<Rightarrow> CountdownView option" where
  "better j cfg now s best =
     (case decide j cfg now s of
        Immediate \<Rightarrow> best
      | Countdown d \<Rightarrow> if (case best of None \<Rightarrow> True | Some b \<Rightarrow> d < deadline_ms b)
                       then Some \<lparr>deadline_ms = d, cd_priority = priority (if_record s)\<rparr> else best)"

definition banner_countdown :: "InFlight list \<Rightarrow> Journal \<Rightarrow> AttendedConfig \<Rightarrow> int \<Rightarrow> CountdownView option" where
  "banner_countdown sends j cfg now = (if list_ex forced sends then None else fold (better j cfg now) sends None)"

definition snapshot_one :: "Journal \<Rightarrow> AttendedConfig \<Rightarrow> int \<Rightarrow> InFlight \<Rightarrow> InFlight \<times> PendingRecord list" where
  "snapshot_one j cfg now s =
     (if phase (if_record s) \<noteq> PhAccepted then (s, [])
      else case decide j cfg now s of
             Immediate \<Rightarrow> (s, [])
           | Countdown d \<Rightarrow> let r = (if_record s)\<lparr>phase := PhCountdown, pr_draft := draft j\<rparr> in (s\<lparr>if_record := r\<rparr>, [r]))"

definition countdown_start_snapshots :: "Journal \<Rightarrow> AttendedConfig \<Rightarrow> int \<Rightarrow> InFlight list \<Rightarrow> InFlight list \<times> PendingRecord list" where
  "countdown_start_snapshots j cfg now sends =
     (if list_ex forced sends then (sends, [])
      else (map (\<lambda>s. fst (snapshot_one j cfg now s)) sends, concat (map (\<lambda>s. snd (snapshot_one j cfg now s)) sends)))"

subsection \<open>The banner\<close>

datatype ToastKind = ToastDelivered | ToastFailed string

record ToastView =
  toast_kind :: ToastKind
  shown_at_ms :: int

definition DELIVERED_TOAST_MS :: int where "DELIVERED_TOAST_MS = 2500"
definition FAILED_TOAST_MS :: int where "FAILED_TOAST_MS = 10000"

fun toast_window_ms :: "ToastKind \<Rightarrow> int" where
  "toast_window_ms ToastDelivered = DELIVERED_TOAST_MS"
| "toast_window_ms (ToastFailed _) = FAILED_TOAST_MS"

definition toast_kind_for :: "string \<Rightarrow> ToastKind option" where
  "toast_kind_for event =
     (if \<not> is_terminal event then None else if is_success_terminal event then Some ToastDelivered else Some (ToastFailed event))"

record BannerSnapshot =
  countdown :: "CountdownView option"
  toast :: "ToastView option"

definition banner_is_active :: "BannerSnapshot \<Rightarrow> int \<Rightarrow> bool" where
  "banner_is_active snap now \<longleftrightarrow>
     countdown snap \<noteq> None \<or> (case toast snap of None \<Rightarrow> False | Some t \<Rightarrow> now - shown_at_ms t < toast_window_ms (toast_kind t))"

subsection \<open>The task\<close>

datatype Cmd = Accept PendingRecord string | DeliverNow "string option" | Keystroke

text \<open>
  The state of the task: the sends it holds, the spool, the banner it last published with the toast it
  keeps, and the commands that wait in its channel, oldest first. For the statements only: the ids
  accepted, the ids taken out to be fired, in order, and the ids of accepted sends that the channel did
  not take because the task is gone.
\<close>

record Runner =
  sends :: "InFlight list"
  r_spool :: "string \<rightharpoonup> PendingRecord"
  r_toast :: "ToastView option"
  banner :: BannerSnapshot
  queue :: "Cmd list"
  accepted_ids :: "string list"
  fired_ids :: "string list"
  unsent_ids :: "string list"

definition publish_banner :: "CountdownView option \<Rightarrow> int \<Rightarrow> Runner \<Rightarrow> Runner" where
  "publish_banner cd now r =
     (let t = (case r_toast r of None \<Rightarrow> None
               | Some t \<Rightarrow> if toast_window_ms (toast_kind t) \<le> now - shown_at_ms t then None else Some t)
      in r\<lparr>r_toast := t, banner := \<lparr>countdown = cd, toast = t\<rparr>\<rparr>)"

definition handle_cmd :: "Cmd \<Rightarrow> Runner \<Rightarrow> Runner" where
  "handle_cmd cmd r =
     (case cmd of
        Accept rec message \<Rightarrow> r\<lparr>sends := sched_add rec message (sends r)\<rparr>
      | DeliverNow target \<Rightarrow> r\<lparr>sends := sched_force target (sends r)\<rparr>
      | Keystroke \<Rightarrow> (case r_toast r of
                       Some t \<Rightarrow> (case toast_kind t of ToastFailed _ \<Rightarrow> r\<lparr>r_toast := None\<rparr> | ToastDelivered \<Rightarrow> r)
                     | None \<Rightarrow> r))"

text \<open>The top of the loop: decide, publish, and make the snapshots durable; \<open>ok\<close> says which writes succeed.\<close>

definition loop_top :: "Journal \<Rightarrow> AttendedConfig \<Rightarrow> int \<Rightarrow> (PendingRecord \<Rightarrow> bool) \<Rightarrow> Runner \<Rightarrow> SchedAction \<times> Runner" where
  "loop_top j cfg now ok r =
     (let action = next_action (sends r) j cfg now;
          r1 = publish_banner (banner_countdown (sends r) j cfg now) now r
      in case countdown_start_snapshots j cfg now (sends r1) of
           (ss, snaps) \<Rightarrow>
             (action, r1\<lparr>sends := ss, r_spool := fold (\<lambda>s m. if ok s then m(send_id s \<mapsto> s) else m) snaps (r_spool r1)\<rparr>))"

text \<open>What the task does with the outcome of a fire (\<open>None\<close>: the blocking task died).\<close>

definition after_fire :: "Journal \<Rightarrow> AttendedConfig \<Rightarrow> int \<Rightarrow> InFlight \<Rightarrow> FireOutcome option \<Rightarrow> Runner \<Rightarrow> Payload option \<times> Runner" where
  "after_fire j cfg now s outcome r =
     (case outcome of
        Some (Terminal payload) \<Rightarrow>
          (let r1 = r\<lparr>r_spool := (r_spool r)(if_id s := None)\<rparr>
           in (Some payload,
               case toast_kind_for (event_name payload) of
                 None \<Rightarrow> r1
               | Some k \<Rightarrow> publish_banner (banner_countdown (sends r1) j cfg now) now (r1\<lparr>r_toast := Some \<lparr>toast_kind = k, shown_at_ms = now\<rparr>\<rparr>)))
      | Some FirePending \<Rightarrow> (None, r)
      | None \<Rightarrow> (None, r))"

text \<open>
  A send is accepted by writing it to the spool; only then is it put into the channel of the task, at
  best effort: \<open>ok\<close> is the result of the write, \<open>opened\<close> says whether the task still has its end of the
  channel. The receipt does not depend on the channel. The task takes a command out later.
\<close>

definition accept :: "bool \<Rightarrow> bool \<Rightarrow> PendingRecord \<Rightarrow> string \<Rightarrow> Runner \<Rightarrow> bool \<times> Runner" where
  "accept ok opened rec message r =
     (if \<not> ok then (False, r)
      else let r1 = r\<lparr>r_spool := (r_spool r)(send_id rec \<mapsto> rec), accepted_ids := accepted_ids r @ [send_id rec]\<rparr>
           in (True, if opened then r1\<lparr>queue := queue r1 @ [Accept rec message]\<rparr>
                     else r1\<lparr>unsent_ids := unsent_ids r1 @ [send_id rec]\<rparr>))"

definition recv_cmd :: "Runner \<Rightarrow> Runner" where
  "recv_cmd r = (case queue r of [] \<Rightarrow> r | cmd # q \<Rightarrow> handle_cmd cmd (r\<lparr>queue := q\<rparr>))"

end
