(* ===== verification/Driver_Inv.thy ===== *)
theory Driver_Inv
  imports Driver
begin

text \<open>
  The scheduler fires within the ceiling and wakes in time; the task fires every accepted send at
  most once, loses none, and keeps each held one durable.
\<close>

subsection \<open>Decisions\<close>

text \<open>Without a forced send, the first one that is due in the order of acceptance fires.\<close>

lemma pick_fire:
  "pick j cfg now m ss = FireSend i \<Longrightarrow>
     \<exists>a s b. ss = a @ s # b \<and> if_id s = i \<and> decide j cfg now s = Immediate \<and> (\<forall>x\<in>set a. decide j cfg now x \<noteq> Immediate)"
proof (induction ss arbitrary: m)
  case (Cons s ss)
  show ?case
  proof (cases "decide j cfg now s")
    case Immediate
    then show ?thesis using Cons.prems by (intro exI [of _ "[]"] exI [of _ s] exI [of _ ss]) simp
  next
    case (Countdown d)
    then obtain a x b where "ss = a @ x # b" "if_id x = i" "decide j cfg now x = Immediate" "\<forall>y\<in>set a. decide j cfg now y \<noteq> Immediate"
      using Cons by fastforce
    then show ?thesis using Countdown by (intro exI [of _ "s # a"] exI [of _ x] exI [of _ b]) simp
  qed
qed (simp split: option.splits)

lemma pick_wait:
  "(\<forall>i. pick j cfg now m ss \<noteq> FireSend i) \<longleftrightarrow> (\<forall>s\<in>set ss. decide j cfg now s \<noteq> Immediate)"
proof (induction ss arbitrary: m)
  case (Cons s ss)
  then show ?case by (cases "decide j cfg now s") simp_all
qed (simp split: option.split)

lemma pick_sleep:
  assumes "pick j cfg now m ss = SleepMs ms" "\<forall>d. m = Some d \<longrightarrow> now \<le> d"
  shows "(\<forall>s\<in>set ss. \<exists>d. decide j cfg now s = Countdown d \<and> now + int ms \<le> d)
    \<and> (\<forall>d. m = Some d \<longrightarrow> now + int ms \<le> d)
    \<and> (m = Some (now + int ms) \<or> (\<exists>s\<in>set ss. decide j cfg now s = Countdown (now + int ms)))"
  using assms
proof (induction ss arbitrary: m)
  case Nil
  then show ?case by (auto split: option.splits)
next
  case (Cons s ss)
  then obtain d where d: "decide j cfg now s = Countdown d" by (cases "decide j cfg now s") simp_all
  then have "now < d" using evaluate_deadline unfolding decide_def by blast
  let ?m = "Some (case m of None \<Rightarrow> d | Some m \<Rightarrow> min m d)"
  have "pick j cfg now ?m ss = SleepMs ms" using Cons.prems(1) d by simp
  moreover have "\<forall>x. ?m = Some x \<longrightarrow> now \<le> x" using Cons.prems(2) \<open>now < d\<close> by (auto split: option.splits)
  ultimately have IH: "(\<forall>s\<in>set ss. \<exists>d. decide j cfg now s = Countdown d \<and> now + int ms \<le> d)"
      "(\<forall>d. ?m = Some d \<longrightarrow> now + int ms \<le> d)"
      "?m = Some (now + int ms) \<or> (\<exists>s\<in>set ss. decide j cfg now s = Countdown (now + int ms))"
    using Cons.IH by blast+
  show ?case
  proof (cases m)
    case None
    then show ?thesis using IH d by auto
  next
    case (Some x)
    then show ?thesis using IH d by (auto simp: min_def split: if_splits)
  qed
qed

lemma next_action_idle: "next_action ss j cfg now = IdleWait \<longleftrightarrow> ss = []"
proof -
  have "pick j cfg now (Some d) xs \<noteq> IdleWait" for d xs
    by (induction xs arbitrary: d) (auto split: FireDecision.split)
  then show ?thesis by (cases ss) (auto simp: next_action_def split: option.splits FireDecision.splits)
qed

lemma forced_none: "find forced ss = None \<longleftrightarrow> (\<forall>s\<in>set ss. \<not> forced s)"
  by (auto simp: find_None_iff)

lemma next_action_due:
  assumes "s \<in> set ss" "forced s \<or> decide j cfg now s = Immediate"
  shows "\<exists>i. next_action ss j cfg now = FireSend i"
proof (cases "find forced ss")
  case None
  then have "decide j cfg now s = Immediate" using assms forced_none by blast
  then have "\<not> (\<forall>i. pick j cfg now None ss \<noteq> FireSend i)" using assms(1) unfolding pick_wait by blast
  then show ?thesis using None by (auto simp: next_action_def)
qed (simp add: next_action_def)

lemma decide_ceiling: "accepted_at_ms (if_record s) + ceiling_for cfg (priority (if_record s)) \<le> now \<Longrightarrow> decide j cfg now s = Immediate"
  by (simp add: decide_def evaluate_ceiling)

lemma next_action_in:
  assumes "next_action ss j cfg now = FireSend i"
  shows "\<exists>s\<in>set ss. if_id s = i \<and> (forced s \<or> decide j cfg now s = Immediate)"
proof (cases "find forced ss")
  case None
  then show ?thesis using assms pick_fire [of j cfg now None ss i] by (auto simp: next_action_def)
next
  case (Some s)
  then have "s \<in> set ss \<and> forced s" by (metis find_Some_iff nth_mem)
  then show ?thesis using assms Some by (auto simp: next_action_def)
qed

lemma sleep_wakes:
  assumes "next_action ss j cfg now = SleepMs ms"
  shows "(\<exists>i. next_action ss j cfg (now + int ms) = FireSend i)
    \<and> (\<forall>s\<in>set ss. now + int ms \<le> accepted_at_ms (if_record s) + ceiling_for cfg (priority (if_record s)))"
proof -
  have pk: "pick j cfg now None ss = SleepMs ms" using assms by (simp add: next_action_def split: option.splits)
  from pick_sleep [OF this] obtain s where s: "s \<in> set ss" "decide j cfg now s = Countdown (now + int ms)"
    and all: "\<forall>s\<in>set ss. \<exists>d. decide j cfg now s = Countdown d \<and> now + int ms \<le> d" by auto
  have "decide j cfg (now + int ms) s = Immediate" using s(2) evaluate_at_deadline unfolding decide_def by blast
  moreover have "now + int ms \<le> accepted_at_ms (if_record x) + ceiling_for cfg (priority (if_record x))" if x: "x \<in> set ss" for x
  proof -
    from all x obtain d where "decide j cfg now x = Countdown d" "now + int ms \<le> d" by blast
    then show ?thesis using evaluate_deadline [of j _ now cfg _ d] unfolding decide_def by force
  qed
  ultimately show ?thesis using next_action_due [OF s(1)] by blast
qed

lemma sleep_not_due:
  assumes "next_action ss j cfg now = SleepMs ms" "s \<in> set ss" "now \<le> t" "t < now + int ms"
  shows "decide j cfg t s \<noteq> Immediate"
proof -
  have pk: "pick j cfg now None ss = SleepMs ms" using assms(1) by (simp add: next_action_def split: option.splits)
  from pick_sleep [OF this] assms(2) obtain d where d: "decide j cfg now s = Countdown d" "now + int ms \<le> d" by auto
  then have "\<exists>d'. decide j cfg t s = Countdown d'" using assms(4) unfolding decide_def evaluate_Countdown by auto
  then show ?thesis by auto
qed

subsection \<open>Taking a send\<close>

lemma sched_take_split:
  assumes "sched_take i ss = Some (s, rest)"
  shows "\<exists>a b. ss = a @ s # b \<and> rest = a @ b \<and> if_id s = i"
proof -
  obtain k where k: "position (\<lambda>s. if_id s = i) ss = Some k" "vremove ss k = Some (s, rest)"
    using assms by (auto simp: sched_take_def bind_eq_Some_conv)
  from position_SomeD [OF k(1)] have "k < length ss" "if_id (ss ! k) = i" by blast+
  then show ?thesis using k(2) id_take_nth_drop [of k ss]
    by (intro exI [of _ "take k ss"] exI [of _ "drop (Suc k) ss"]) (auto simp: vremove_def)
qed

lemma sched_take_exists:
  assumes "s \<in> set ss" "if_id s = i"
  shows "\<exists>s' rest. sched_take i ss = Some (s', rest)"
proof -
  obtain k where k: "position (\<lambda>s. if_id s = i) ss = Some k"
    using assms position_None_iff [of "\<lambda>s. if_id s = i" ss] by (cases "position (\<lambda>s. if_id s = i) ss") auto
  then show ?thesis using position_SomeD [OF k] by (simp add: sched_take_def vremove_def)
qed

subsection \<open>Everything due is fired\<close>

text \<open>Turns of the loop, one fire after the other, with the clock and the journal as they are.\<close>

fun drain :: "nat \<Rightarrow> Journal \<Rightarrow> AttendedConfig \<Rightarrow> int \<Rightarrow> InFlight list \<Rightarrow> string list" where
  "drain 0 j cfg now ss = []"
| "drain (Suc n) j cfg now ss =
     (case next_action ss j cfg now of
        FireSend i \<Rightarrow> (case sched_take i ss of Some (s, rest) \<Rightarrow> i # drain n j cfg now rest | None \<Rightarrow> [])
      | _ \<Rightarrow> [])"

lemma drain_all:
  "\<forall>s\<in>set ss. forced s \<or> decide j cfg now s = Immediate \<Longrightarrow> mset (drain (length ss) j cfg now ss) = mset (map if_id ss)"
proof (induction "length ss" arbitrary: ss)
  case (Suc n)
  then obtain x where x: "x \<in> set ss" by (cases ss) auto
  then obtain i where i: "next_action ss j cfg now = FireSend i" using next_action_due Suc.prems by blast
  then obtain s where s: "s \<in> set ss" "if_id s = i" using next_action_in by blast
  then obtain s' rest where t: "sched_take i ss = Some (s', rest)" using sched_take_exists by blast
  then obtain a b where ab: "ss = a @ s' # b" "rest = a @ b" "if_id s' = i" using sched_take_split by blast
  have "mset (drain (length rest) j cfg now rest) = mset (map if_id rest)" using Suc ab by (intro Suc.hyps) auto
  moreover have "length rest = n" using Suc.hyps(2) ab by simp
  ultimately show ?case using i t ab Suc.hyps(2) by (simp flip: Suc.hyps(2))
qed simp

lemma drain_fifo:
  "\<forall>s\<in>set ss. \<not> forced s \<and> decide j cfg now s = Immediate \<Longrightarrow> drain (length ss) j cfg now ss = map if_id ss"
proof (induction ss)
  case (Cons s ss)
  have "find forced (s # ss) = None" using Cons.prems by (simp add: find_None_iff)
  then have "next_action (s # ss) j cfg now = FireSend (if_id s)" using Cons.prems by (simp add: next_action_def)
  moreover have "sched_take (if_id s) (s # ss) = Some (s, ss)" by (simp add: sched_take_def vremove_def)
  ultimately show ?case using Cons by simp
qed simp

subsection \<open>The runs of the task\<close>

text \<open>
  One step: a send is accepted (the callers mint their ids), another command is put into the channel, the
  task takes a command out, the loop turns and waits, or it fires. The fire may rewrite the record of its own send, and may end in any way.
\<close>

inductive driver_step :: "AttendedConfig \<Rightarrow> Runner \<Rightarrow> Runner \<Rightarrow> bool" for cfg where
  step_accept: "send_id rec \<notin> set (accepted_ids r) \<Longrightarrow> driver_step cfg r (snd (accept ok opened rec message r))"
| step_command: "cmd = Keystroke \<or> cmd = DeliverNow target \<Longrightarrow> driver_step cfg r (r\<lparr>queue := queue r @ [cmd]\<rparr>)"
| step_receive: "driver_step cfg r (recv_cmd r)"
| step_wait: "loop_top j cfg now ok r = (action, r') \<Longrightarrow> (\<forall>i. action \<noteq> FireSend i) \<Longrightarrow> driver_step cfg r r'"
| step_fire: "loop_top j cfg now ok r = (FireSend i, r1) \<Longrightarrow> sched_take i (sends r1) = Some (s, rest) \<Longrightarrow>
    (\<forall>x. x \<noteq> i \<longrightarrow> sp x = r_spool r1 x) \<Longrightarrow>
    driver_step cfg r (snd (after_fire j' cfg now' s outcome (r1\<lparr>sends := rest, r_spool := sp, fired_ids := fired_ids r1 @ [i]\<rparr>)))"

inductive driver_reach :: "AttendedConfig \<Rightarrow> Runner \<Rightarrow> bool" for cfg where
  reach_new: "driver_reach cfg \<lparr>sends = [], r_spool = Map.empty, r_toast = None, banner = \<lparr>countdown = None, toast = None\<rparr>, queue = [], accepted_ids = [], fired_ids = [], unsent_ids = []\<rparr>"
| reach_step: "driver_reach cfg r \<Longrightarrow> driver_step cfg r r' \<Longrightarrow> driver_reach cfg r'"

fun queued_ids :: "Cmd list \<Rightarrow> string list" where
  "queued_ids [] = []"
| "queued_ids (Accept rec m # q) = send_id rec # queued_ids q"
| "queued_ids (_ # q) = queued_ids q"

lemma queued_ids_append [simp]: "queued_ids (q @ q') = queued_ids q @ queued_ids q'"
  by (induction q rule: queued_ids.induct) simp_all

definition runner_inv :: "Runner \<Rightarrow> bool" where
  "runner_inv r \<longleftrightarrow>
     distinct (accepted_ids r) \<and> mset (accepted_ids r) = mset (fired_ids r @ map if_id (sends r) @ queued_ids (queue r) @ unsent_ids r)
     \<and> (\<forall>i\<in>set (map if_id (sends r) @ queued_ids (queue r) @ unsent_ids r). r_spool r i \<noteq> None)"

lemma map_if_id_force: "map if_id (sched_force target ss) = map if_id ss"
proof -
  have upd: "map if_id (ss[k := (ss ! k)\<lparr>forced := True\<rparr>]) = map if_id ss" if "k < length ss" for k
    using that by (simp add: map_update list_update_same_conv)
  show ?thesis
  proof (cases target)
    case None
    then show ?thesis by (cases ss) (simp_all add: sched_force_def)
  next
    case (Some i)
    then show ?thesis using upd position_SomeD [of "\<lambda>s. if_id s = i" ss]
      by (cases "position (\<lambda>s. if_id s = i) ss") (simp_all add: sched_force_def)
  qed
qed

lemma map_if_id_snapshots: "map if_id (fst (countdown_start_snapshots j cfg now ss)) = map if_id ss"
  by (auto simp: countdown_start_snapshots_def snapshot_one_def Let_def split: FireDecision.split)

lemma spool_fold_keeps: "m x \<noteq> None \<Longrightarrow> fold (\<lambda>s m. if ok s then m(send_id s \<mapsto> s) else m) snaps m x \<noteq> None"
  by (induction snaps arbitrary: m) auto

lemma inv_ids:
  assumes "runner_inv r" "map if_id (sends r') = map if_id (sends r)" "accepted_ids r' = accepted_ids r" "fired_ids r' = fired_ids r"
    "queued_ids (queue r') = queued_ids (queue r)" "unsent_ids r' = unsent_ids r"
    "\<forall>x. r_spool r x \<noteq> None \<longrightarrow> r_spool r' x \<noteq> None"
  shows "runner_inv r'"
  using assms unfolding runner_inv_def by metis

lemma loop_top_keeps:
  assumes "loop_top j cfg now ok r = (action, r1)"
  shows "map if_id (sends r1) = map if_id (sends r)" "accepted_ids r1 = accepted_ids r" "fired_ids r1 = fired_ids r"
    "queued_ids (queue r1) = queued_ids (queue r)" "unsent_ids r1 = unsent_ids r"
    "\<forall>x. r_spool r x \<noteq> None \<longrightarrow> r_spool r1 x \<noteq> None" "action = next_action (sends r) j cfg now"
proof -
  obtain ss snaps where sn: "countdown_start_snapshots j cfg now (sends r) = (ss, snaps)" by fastforce
  let ?sp = "fold (\<lambda>s m. if ok s then m(send_id s \<mapsto> s) else m) snaps (r_spool r)"
  let ?p = "publish_banner (banner_countdown (sends r) j cfg now) now r"
  have r1: "r1 = ?p\<lparr>sends := ss, r_spool := ?sp\<rparr>" "action = next_action (sends r) j cfg now"
    using assms sn by (simp_all add: loop_top_def publish_banner_def Let_def)
  show "map if_id (sends r1) = map if_id (sends r)" using map_if_id_snapshots [of j cfg now "sends r"] sn r1 by simp
  show "accepted_ids r1 = accepted_ids r" "fired_ids r1 = fired_ids r" "queued_ids (queue r1) = queued_ids (queue r)" "unsent_ids r1 = unsent_ids r"
    using r1 by (simp_all add: publish_banner_def Let_def)
  have "r_spool r x \<noteq> None \<Longrightarrow> ?sp x \<noteq> None" for x by (rule spool_fold_keeps)
  then show "\<forall>x. r_spool r x \<noteq> None \<longrightarrow> r_spool r1 x \<noteq> None" using r1(1) by simp
  show "action = next_action (sends r) j cfg now" by (rule r1(2))
qed

lemma recv_cmd_inv:
  assumes "runner_inv r"
  shows "runner_inv (recv_cmd r)"
proof (cases "queue r")
  case (Cons cmd q)
  show ?thesis
  proof (cases cmd)
    case (Accept rec message)
    then show ?thesis using assms Cons unfolding runner_inv_def by (simp add: recv_cmd_def handle_cmd_def sched_add_def)
  next
    case (DeliverNow target)
    then show ?thesis using Cons by (intro inv_ids [OF assms]) (simp_all add: recv_cmd_def handle_cmd_def map_if_id_force)
  next
    case Keystroke
    then show ?thesis using Cons
      by (intro inv_ids [OF assms]) (auto simp: recv_cmd_def handle_cmd_def split: option.split ToastKind.split)
  qed
qed (use assms in \<open>simp add: recv_cmd_def\<close>)

lemma driver_step_inv: "driver_step cfg r r' \<Longrightarrow> runner_inv r \<Longrightarrow> runner_inv r'"
proof (induction rule: driver_step.induct)
  case (step_accept rec r ok opened message)
  then show ?case by (cases ok; cases opened) (simp_all add: accept_def runner_inv_def Let_def)
next
  case (step_command cmd target r)
  then show ?case by (intro inv_ids [OF step_command(2)]) auto
next
  case (step_receive r)
  then show ?case by (rule recv_cmd_inv)
next
  case (step_wait j now ok r action r')
  then show ?case using loop_top_keeps [OF step_wait(1)] by (intro inv_ids [of r r'])
next
  case (step_fire j now ok r i r1 s rest sp j' now' outcome)
  have r1: "runner_inv r1" using loop_top_keeps [OF step_fire(1)] step_fire(4) by (intro inv_ids [of r r1])
  obtain a b where ab: "sends r1 = a @ s # b" "rest = a @ b" "if_id s = i" using sched_take_split [OF step_fire(2)] by blast
  let ?r2 = "r1\<lparr>sends := rest, r_spool := sp, fired_ids := fired_ids r1 @ [i]\<rparr>"
  let ?r3 = "snd (after_fire j' cfg now' s outcome ?r2)"
  have fields: "sends ?r3 = rest" "accepted_ids ?r3 = accepted_ids r1" "fired_ids ?r3 = fired_ids r1 @ [i]"
    "queue ?r3 = queue r1" "unsent_ids ?r3 = unsent_ids r1"
    "\<forall>x. x \<noteq> i \<longrightarrow> r_spool ?r3 x = r_spool r1 x"
    using ab(3) step_fire(3) by (auto simp: after_fire_def publish_banner_def Let_def split: option.split FireOutcome.split)
  let ?left = "\<lambda>ss. map if_id ss @ queued_ids (queue r1) @ unsent_ids r1"
  have d: "distinct (accepted_ids r1)" "mset (accepted_ids r1) = mset (fired_ids r1 @ ?left (sends r1))"
    using r1 by (simp_all add: runner_inv_def)
  then have "distinct (fired_ids r1 @ ?left (sends r1))" by (metis mset_eq_imp_distinct_iff)
  then have "i \<notin> set (?left rest)" using ab by auto
  then have "r_spool ?r3 x \<noteq> None" if "x \<in> set (?left rest)" for x
    using that r1 fields(6) ab unfolding runner_inv_def by (cases "x = i") auto
  then show ?case using d ab unfolding runner_inv_def fields by simp
qed

lemma driver_reach_inv: "driver_reach cfg r \<Longrightarrow> runner_inv r"
proof (induction rule: driver_reach.induct)
  case reach_new
  then show ?case by (simp add: runner_inv_def)
next
  case (reach_step r r')
  then show ?case using driver_step_inv by blast
qed

end
