(* ===== verification/Sweep.thy ===== *)
theory Sweep
  imports Fire
begin

text \<open>
  The reconciliation of the spool when the multiplexer starts (\<open>crates/qrmux/src/attended/sweep.rs\<close>).
  What the sweep meets outside (locks, unreadable files, appends that stop early, a removal that
  fails, the transcripts, the clock) is the record \<open>SweepIo\<close>. The ledgers are files by path; a lock is
  held from the check for a terminal to the append, so each record is one atomic step. The directory of
  the spool is taken to be listed without an error.
\<close>

record SweepIo =
  sw_lock :: "PendingRecord \<Rightarrow> bool"
  sw_read :: "PendingRecord \<Rightarrow> bool"
  sw_append :: "PendingRecord \<Rightarrow> append_io"
  sw_remove :: "PendingRecord \<Rightarrow> bool"
  sw_transcript :: "string \<Rightarrow> string option"
  sw_now :: int
  sw_pid :: nat
  sw_start :: "int option"

record Sweep =
  ledgers :: "string \<Rightarrow> string"
  pending :: dir
  emitters :: "(string \<times> MuxEmitter) list"
  verdicts :: "(string \<times> ReconcileVerdict) list"

fun verdict_payload :: "ReconcileVerdict \<Rightarrow> PendingRecord \<Rightarrow> Payload option" where
  "verdict_payload AlreadyTerminal r = None"
| "verdict_payload ResurfaceDraft r = None"
| "verdict_payload LateMessageSeen r = Some (MessageSeen (send_id r) (content_sha256 r))"
| "verdict_payload SeenFailedRecipientGone r = Some (SeenFailed (send_id r) ''recipient-gone'')"
| "verdict_payload PendingAbandonedUnknown r = Some (PendingAbandoned (send_id r) ''unknown-inject-outcome'' None None)"
| "verdict_payload LateMismatch r = Some (PendingAbandoned (send_id r) ''unknown-inject-outcome'' None None)"

definition emitter_for :: "SweepIo \<Rightarrow> PendingRecord \<Rightarrow> string \<Rightarrow> (string \<times> MuxEmitter) list \<Rightarrow> MuxEmitter" where
  "emitter_for io r path ems =
     (case map_of ems path of Some em \<Rightarrow> em | None \<Rightarrow> mux_emitter_new (session r) (pr_name r) (sw_start io))"

definition sweep_landing :: "LandingProbe \<Rightarrow> SweepIo \<Rightarrow> PendingRecord \<Rightarrow> LandingResult" where
  "sweep_landing probe io r =
     to_result (probe_scan_sha probe (transcript r \<bind> sw_transcript io) (transcript_offset r) (content_sha256 r))"

definition sweep_verdict :: "LandingProbe \<Rightarrow> bool \<Rightarrow> SweepIo \<Rightarrow> PendingRecord \<Rightarrow> string \<Rightarrow> ReconcileVerdict" where
  "sweep_verdict probe alive io r ledger =
     reconcile (phase r) (sweep_landing probe io r) alive
       (ledger_has_terminal (from_str probe) (if sw_read io r then Some ledger else None) (send_id r))"

text \<open>One record; \<open>None\<close> is the error of a lock that cannot be taken.\<close>

definition sweep_one ::
  "(Value \<Rightarrow> string) \<Rightarrow> LandingProbe \<Rightarrow> bool \<Rightarrow> (PendingRecord \<Rightarrow> string) \<Rightarrow> SweepIo \<Rightarrow> PendingRecord \<Rightarrow> Sweep \<Rightarrow> Sweep option"
where
  "sweep_one to_string probe alive ledger_for io r st =
     (if \<not> sw_lock io r then None
      else let path = ledger_for r;
               verdict = sweep_verdict probe alive io r (ledgers st path);
               st1 = (case verdict_payload verdict r of
                        None \<Rightarrow> st
                      | Some payload \<Rightarrow>
                          (case mux_emit to_string (sw_pid io) (sw_now io) (sw_append io r) payload (emitter_for io r path (emitters st)) (ledgers st path) of
                             (_, em, f) \<Rightarrow> st\<lparr>ledgers := (ledgers st)(path := f), emitters := (path, em) # emitters st\<rparr>));
               st2 = (if verdict \<noteq> ResurfaceDraft \<and> sw_remove io r then st1\<lparr>pending := spool_remove (send_id r) (pending st1)\<rparr> else st1)
           in Some (st2\<lparr>verdicts := verdicts st2 @ [(send_id r, verdict)]\<rparr>))"

definition reconcile_spool ::
  "(Value \<Rightarrow> string) \<Rightarrow> LandingProbe \<Rightarrow> bool \<Rightarrow> (PendingRecord \<Rightarrow> string) \<Rightarrow> SweepIo \<Rightarrow> (string \<Rightarrow> bool) \<Rightarrow> Sweep \<Rightarrow> Sweep option"
where
  "reconcile_spool to_string probe alive ledger_for io readable st =
     foldM (sweep_one to_string probe alive ledger_for io) (spool_load_all (from_str probe) readable (pending st)) st"

subsection \<open>Terminals in a ledger\<close>

definition terminals :: "(string \<Rightarrow> Value option) \<Rightarrow> string \<Rightarrow> string \<Rightarrow> nat" where
  "terminals parse ledger i = length (filter (terminal_line parse i) (rust_lines ledger))"

lemma has_terminal_iff: "ledger_has_terminal parse (Some b) i \<longleftrightarrow> 0 < terminals parse b i"
  by (auto simp: ledger_has_terminal_def terminals_def list_ex_iff filter_empty_conv)

lemma verdict_payload_terminal:
  "verdict_payload v r = Some p \<Longrightarrow> payload_send_id p = Some (send_id r) \<and> is_terminal (event_name p)"
  by (cases v) (auto simp: is_terminal_def TERMINAL_EVENTS_def)

lemma terminals_append:
  assumes "value_ok to_string parse" "whole_lines ledger"
  shows "terminals parse (ledger @ build_line to_string en p @ [NL]) i
    = terminals parse ledger i + (if payload_send_id p = Some i \<and> is_terminal (event_name p) then 1 else 0)"
  unfolding terminals_def build_line_def
  using rust_lines_append_line [OF assms(2) record_line_tight(1,3) [OF assms(1)]] terminal_record_line [OF assms(1)]
  by simp

lemma mux_emit_ok:
  "\<exists>en em'. mux_emit to_string pid now AppendOk p em file = (True, em', file @ build_line to_string en p @ [NL])"
  by (auto simp: mux_emit_def mux_envelope_def append_record_def)

subsection \<open>One step\<close>

definition faultless :: "SweepIo \<Rightarrow> bool" where
  "faultless io \<longleftrightarrow> (\<forall>r. sw_lock io r \<and> sw_read io r \<and> sw_append io r = AppendOk \<and> sw_remove io r)"

lemma sweep_one_terminals:
  assumes ok: "value_ok to_string (from_str probe)" and io: "faultless io" and whole: "\<forall>p. whole_lines (ledgers st p)"
  shows "\<exists>st'. sweep_one to_string probe False ledger_for io r st = Some st'
    \<and> (\<forall>p. whole_lines (ledgers st' p))
    \<and> (\<forall>p i. terminals (from_str probe) (ledgers st' p) i
         = terminals (from_str probe) (ledgers st p) i
           + (if p = ledger_for r \<and> i = send_id r \<and> terminals (from_str probe) (ledgers st p) i = 0 then 1 else 0))
    \<and> pending st' = spool_remove (send_id r) (pending st)"
proof -
  let ?p = "ledger_for r"
  let ?v = "sweep_verdict probe False io r (ledgers st ?p)"
  have v: "?v \<noteq> ResurfaceDraft" "?v = AlreadyTerminal \<longleftrightarrow> 0 < terminals (from_str probe) (ledgers st ?p) (send_id r)"
    using io has_terminal_iff [of "from_str probe" "ledgers st ?p" "send_id r"]
    by (auto simp: sweep_verdict_def reconcile_def faultless_def split: FirePhase.split LandingResult.split)
  show ?thesis
  proof (cases "verdict_payload ?v r")
    case None
    then have a: "?v = AlreadyTerminal" using v(1) by (cases ?v) auto
    then show ?thesis using io v(2) whole None
      by (auto simp: sweep_one_def Let_def faultless_def)
  next
    case (Some p)
    then have z: "terminals (from_str probe) (ledgers st ?p) (send_id r) = 0" using v(2) by auto
    obtain en em' where em: "mux_emit to_string (sw_pid io) (sw_now io) AppendOk p (emitter_for io r ?p (emitters st)) (ledgers st ?p)
        = (True, em', ledgers st ?p @ build_line to_string en p @ [NL])"
      using mux_emit_ok by blast
    let ?f = "ledgers st ?p @ build_line to_string en p @ [NL]"
    have f: "terminals (from_str probe) ?f i = terminals (from_str probe) (ledgers st ?p) i + (if i = send_id r then 1 else 0)" for i
      using terminals_append [OF ok, of "ledgers st ?p" en p i] whole verdict_payload_terminal [OF Some] by auto
    have w: "whole_lines ?f" by (simp add: whole_lines_def)
    have io': "sw_lock io r" "sw_append io r = AppendOk" "sw_remove io r" using io by (auto simp: faultless_def)
    show ?thesis
      using io' v(1) Some em f w whole z by (auto simp: sweep_one_def Let_def)
  qed
qed

subsection \<open>The whole sweep\<close>

lemma sweep_all:
  assumes ok: "value_ok to_string (from_str probe)" and io: "faultless io" and whole: "\<forall>p. whole_lines (ledgers st p)"
  shows "\<exists>st'. foldM (sweep_one to_string probe False ledger_for io) rs st = Some st'
    \<and> (\<forall>p. whole_lines (ledgers st' p))
    \<and> (\<forall>p i. terminals (from_str probe) (ledgers st' p) i
         = terminals (from_str probe) (ledgers st p) i
           + (if terminals (from_str probe) (ledgers st p) i = 0 \<and> (\<exists>r\<in>set rs. p = ledger_for r \<and> i = send_id r) then 1 else 0))
    \<and> pending st' = fold (\<lambda>r. spool_remove (send_id r)) rs (pending st)"
  using whole
proof (induction rs arbitrary: st)
  case (Cons r rs)
  from sweep_one_terminals [OF ok io Cons.prems, of ledger_for r] obtain st1 where
    1: "sweep_one to_string probe False ledger_for io r st = Some st1" "\<forall>p. whole_lines (ledgers st1 p)"
    "\<forall>p i. terminals (from_str probe) (ledgers st1 p) i = terminals (from_str probe) (ledgers st p) i
       + (if p = ledger_for r \<and> i = send_id r \<and> terminals (from_str probe) (ledgers st p) i = 0 then 1 else 0)"
    "pending st1 = spool_remove (send_id r) (pending st)" by blast
  from Cons.IH [OF 1(2)] obtain st' where
    2: "foldM (sweep_one to_string probe False ledger_for io) rs st1 = Some st'" "\<forall>p. whole_lines (ledgers st' p)"
    "\<forall>p i. terminals (from_str probe) (ledgers st' p) i = terminals (from_str probe) (ledgers st1 p) i
       + (if terminals (from_str probe) (ledgers st1 p) i = 0 \<and> (\<exists>r\<in>set rs. p = ledger_for r \<and> i = send_id r) then 1 else 0)"
    "pending st' = fold (\<lambda>r. spool_remove (send_id r)) rs (pending st1)" by blast
  show ?case using 1 2 by (intro exI [of _ st']) auto
qed simp

end
