(* ===== verification/Attended_Props.thy ===== *)
theory Attended_Props
  imports Deliver Driver_Inv Sweep
begin

text \<open>
  The properties of attended delivery, with their witnesses on the stand-in harness, and the
  statements behind the findings in it.
\<close>

subsection \<open>A concrete run\<close>

definition demo_record :: PendingRecord where
  "demo_record = (accepted_record ''s1'' ''h'' 2 (Some ''sid'') None ''send'' False 0)\<lparr>transcript := Some ''t'', transcript_offset := Some 0\<rparr>"

definition demo_world :: "(string \<times> int) list list \<Rightarrow> (Repl \<times> int) World" where
  "demo_world sc =
     \<lparr>inlock = new_lock, journal = \<lparr>draft = ''hi'', last_keystroke_ms = Some 0\<rparr>, spool = [''s1'' \<mapsto> demo_record],
      log = [], env = (new_repl\<lparr>composer := ''hi''\<rparr>, 0), sched = sc\<rparr>"

definition demo_fire :: "(string \<times> int) list list \<Rightarrow> (FireOutcome \<times> (Repl \<times> int) World) option" where
  "demo_fire sc = fire (repl_env 8) 8 claude_default safe_default_facts (repl_probe (\<lambda>s. s)) demo_record ''go'' default_fire_config (demo_world sc)"

lemma demo_plain: "\<not> modal_screen_is_denied (PROMPT_GLYPH @ '' '' @ ''hi'') CLAUDE_MODAL_SIGS"
  by code_simp

lemma demo_start: "inlock (demo_world sc) = new_lock" "log (demo_world sc) = []" "phase demo_record = PhAccepted"
  by (simp_all add: demo_world_def demo_record_def accepted_record_def)

lemma demo_ends: "\<exists>oc w'. demo_fire sc = Some (oc, w')"
  unfolding demo_fire_def by (rule repl.fire_ends) (simp_all add: default_fire_config_def default_submit_options_def)

lemma seen_not_failed: "\<forall>reason. Terminal (MessageSeen i h) \<noteq> send_failed r reason"
  by (simp add: send_failed_def)

lemma demo_seen:
  "\<exists>w'. demo_fire [] = Some (Terminal (MessageSeen ''s1'' ''h''), w') \<and> rests w' \<lparr>composer = ''hi'', convo = [UserSaid ''go''], busy = True\<rparr>"
proof -
  have "send_id demo_record = ''s1''" "content_sha256 demo_record = ''h''" by (simp_all add: demo_record_def accepted_record_def)
  moreover have "repl_transcript [] = []" by (simp add: repl_transcript_def)
  ultimately show ?thesis
    using fire_delivers_lemma [of "demo_world []" "new_repl\<lparr>composer := ''hi''\<rparr>" 0 "''go''" 8 demo_record "''t''" "\<lambda>s. s" default_fire_config] demo_plain
    by (simp add: demo_fire_def demo_world_def new_repl_def demo_record_def accepted_record_def CR_def CTRL_U_def)
qed

subsection \<open>The fire and the human\<close>

lemma fire_cases:
  assumes "fire E th src facts probe r0 message cfg w0 = Some (oc, w')" "inlock w0 = new_lock"
  obtains "w' = w0" "oc = send_failed r0 ''acceptance-unconfirmable''" | "fire_log E th src facts probe r0 message w0 oc w'"
  using assms fire_run fire_gated [of src facts E th probe r0 message cfg w0] by fastforce

text \<open>C4. For every harness, every answer of the environment and every interleaving with a human's typing:
  while a fire holds the input lock only the fire writes to the terminal (the clear chord, the message,
  and the replay of the draft, which repeats bytes typed before the lock), and outside of that only the
  human's bytes are written. Every byte typed in that time is given to exactly one write on the human's
  behalf, at once or by the flush after the release: the bytes whose write succeeded and the bytes whose
  write reported an error are together exactly the bytes typed. If none of these writes failed, every
  byte typed has reached the terminal, once, and in the order typed unless something was typed between
  the release of the lock and the flush. A write of the flush that fails loses the bytes, and no outcome
  tells of it. The lock ends released and empty.\<close>

theorem fire_exclusive:
  assumes "fire E th src facts probe r0 message cfg w0 = Some (oc, w')" "inlock w0 = new_lock"
  shows "\<exists>es. log w' = log w0 @ es \<and> exclusive False es
    \<and> mset (passed_on es) = mset (offered es) \<and> (\<not> raced False False es \<longrightarrow> passed_on es = offered es)
    \<and> mset (reached es) + mset (lost es) = mset (offered es)
    \<and> (lost es = [] \<longrightarrow> mset (reached es) = mset (offered es) \<and> (\<not> raced False False es \<longrightarrow> reached es = offered es))
    \<and> inlock w' = new_lock"
  using assms
proof (cases rule: fire_cases)
  case 1
  then show ?thesis using assms(2) by (intro exI [of _ "[]"]) simp
next
  case 2
  from fire_log_exclusive [OF 2] obtain es where es: "log w' = log w0 @ es" "exclusive False es" "mset (passed_on es) = mset (offered es)" by blast
  moreover have "inlock w' = new_lock" using 2 unfolding fire_log_def by blast
  ultimately show ?thesis using fire_log_in_order [OF 2 es(1)] reached_or_lost [of es] none_lost [of es]
    by (intro exI [of _ es]) simp
qed

theorem fire_exclusive_witness:
  "\<exists>oc w'. demo_fire [[(''x'', 1)], [(''y'', 2)], [(''zz'', 3)]] = Some (oc, w') \<and> exclusive False (log w')
     \<and> mset (reached (log w')) + mset (lost (log w')) = mset (offered (log w'))"
proof -
  obtain oc w' where d: "demo_fire [[(''x'', 1)], [(''y'', 2)], [(''zz'', 3)]] = Some (oc, w')" using demo_ends by blast
  show ?thesis using d fire_exclusive [OF d [unfolded demo_fire_def] demo_start(1)] by (simp add: demo_start)
qed

text \<open>C21. What a fire attempts to write of its own: nothing at all, or the clear chord of the harness, then
  nothing or the whole message in its chunks with its carriage returns, then the draft as the journal had
  it when the lock was taken. If the fire does not report a failure to send, the writes of the whole
  message were attempted, in order and once; what of them went through is a part of the message in order,
  and it is the whole message if none of these writes reported an error. (The code drops such an error:
  a harness that confirms by landing then ends as pending.)\<close>

theorem fire_types_message:
  assumes "fire E th src facts probe r0 message cfg w0 = Some (oc, w')" "inlock w0 = new_lock"
  shows "\<exists>es. log w' = log w0 @ es
    \<and> (let dr = draft_at_lock th es (draft (journal w0))
       in fire_writes facts message dr (own es)
          \<and> ((\<forall>reason. oc \<noteq> send_failed r0 reason) \<longrightarrow>
               (\<exists>cl txts. own es = cl @ txts @ replayed dr \<and> set cl = {(Clear, chord (clear_strategy facts))} \<and> injected facts message txts
                  \<and> attempted_text es = message \<and> subseq (put_in es) message
                  \<and> ((\<forall>b. (Text, b, False) \<notin> set (writes es)) \<longrightarrow> put_in es = message))))"
  using assms
proof (cases rule: fire_cases)
  case 1
  then show ?thesis by (intro exI [of _ "[]"]) (auto simp: Let_def fire_writes_def)
next
  case 2
  have texts: "concat (map snd (filter (\<lambda>x. fst x = Text) (cl @ txts @ replayed dr))) = message"
    if "set cl = {(Clear, c)}" "injected facts message txts" for cl txts dr c
  proof -
    have "filter (\<lambda>x. fst x = Text) cl = []" "filter (\<lambda>x. fst x = Text) (replayed dr) = []"
      using that(1) by (auto simp: filter_empty_conv replayed_def)
    moreover have "concat (map snd (filter (\<lambda>x. fst x = Text) txts)) = message"
      using that(2) by (auto simp: injected_def filter_map comp_def)
    ultimately show ?thesis by simp
  qed
  from fire_log_own [OF 2] obtain es where es: "log w' = log w0 @ es"
    "fire_writes facts message (draft_at_lock th es (draft (journal w0))) (own es)"
    "(\<forall>reason. oc \<noteq> send_failed r0 reason) \<Longrightarrow> \<exists>cl txts. own es = cl @ txts @ replayed (draft_at_lock th es (draft (journal w0)))
       \<and> set cl = {(Clear, chord (clear_strategy facts))} \<and> injected facts message txts"
    unfolding Let_def by blast
  have "\<exists>cl txts. own es = cl @ txts @ replayed (draft_at_lock th es (draft (journal w0))) \<and> set cl = {(Clear, chord (clear_strategy facts))}
      \<and> injected facts message txts \<and> attempted_text es = message \<and> subseq (put_in es) message
      \<and> ((\<forall>b. (Text, b, False) \<notin> set (writes es)) \<longrightarrow> put_in es = message)" if ok: "\<forall>reason. oc \<noteq> send_failed r0 reason"
  proof -
    from es(3) [OF ok] obtain cl txts where o: "own es = cl @ txts @ replayed (draft_at_lock th es (draft (journal w0)))"
      "set cl = {(Clear, chord (clear_strategy facts))}" "injected facts message txts" by blast
    then have a: "attempted_text es = message" using texts by (simp add: attempted_text_def)
    then show ?thesis using o put_in_part [of es] put_in_all [of es] by blast
  qed
  then show ?thesis using es(1,2) unfolding Let_def by blast
qed

theorem fire_types_message_witness:
  "\<exists>w'. demo_fire [] = Some (Terminal (MessageSeen ''s1'' ''h''), w')
    \<and> attempted_text (log w') = ''go''"
proof -
  obtain w' where d: "demo_fire [] = Some (Terminal (MessageSeen ''s1'' ''h''), w')" using demo_seen by blast
  from fire_types_message [OF d [unfolded demo_fire_def] demo_start(1)] seen_not_failed
  have "attempted_text (log w') = ''go''" unfolding Let_def demo_start append_Nil by blast
  then show ?thesis using d by blast
qed

text \<open>C5. If the process dies at any point of a fire that has put anything into the composer, the sweep after
  the restart, which only has the last durable record, does not report the send as failed and does not
  offer it again: the verdict is what the transcript says, and an unknown outcome if it says nothing.\<close>

theorem crash_is_honest:
  assumes "fire E th src facts probe r0 message cfg w0 = Some (oc, w')" "inlock w0 = new_lock" "log w' = log w0 @ es"
    and "own (take n es) \<noteq> []"
  shows "reconcile (durable (phase r0) (take n es)) landing alive already
    = (if already then AlreadyTerminal
       else case landing of Landed \<Rightarrow> LateMessageSeen | Mismatched \<Rightarrow> LateMismatch | Unconfirmed \<Rightarrow> PendingAbandonedUnknown)"
  using assms(1,2)
proof (cases rule: fire_cases)
  case 1
  then show ?thesis using assms(3,4) by simp
next
  case 2
  have "started (durable (phase r0) (take n es))" using guarded_crash [OF fire_log_guarded [OF 2 assms(3)]] assms(4) by blast
  then show ?thesis by (auto simp: started_def reconcile_def)
qed

theorem crash_is_honest_witness:
  "\<exists>oc w'. demo_fire [] = Some (oc, w') \<and> reconcile (durable PhAccepted (log w')) Unconfirmed False False = PendingAbandonedUnknown"
proof -
  obtain w' where d: "demo_fire [] = Some (Terminal (MessageSeen ''s1'' ''h''), w')" using demo_seen by blast
  from d have l: "fire_log (repl_env 8) 8 claude_default safe_default_facts (repl_probe (\<lambda>s. s)) demo_record ''go'' (demo_world []) (Terminal (MessageSeen ''s1'' ''h'')) w'"
    unfolding demo_fire_def by (rule fire_run) (simp_all add: demo_start gated_def claude_default_def)
  have "own (log w') \<noteq> []"
  proof -
    from fire_log_own [OF l] seen_not_failed obtain cl txts dr where
      "own (log w') = cl @ txts @ replayed dr" "set cl = {(Clear, chord (clear_strategy safe_default_facts))}"
      unfolding Let_def demo_start append_Nil by blast
    then show ?thesis by (cases cl) simp_all
  qed
  then show ?thesis
    using d crash_is_honest [OF d [unfolded demo_fire_def] demo_start(1), of "log w'" "length (log w')" Unconfirmed False False]
    by (simp add: demo_start)
qed

text \<open>C10. A fire reports a message as seen only if the last thing it did was to read the recipient's transcript
  and the message was there, from the recorded offset on, as the text of one user record.\<close>

theorem message_seen_truthful:
  assumes "fire E th src facts probe r0 message cfg w0 = Some (Terminal (MessageSeen i h), w')" "inlock w0 = new_lock"
  shows "i = send_id r0 \<and> h = content_sha256 r0
    \<and> (\<exists>path e bytes texts. transcript r0 = Some path \<and> e_file E path e = (Some bytes, env w')
         \<and> texts_from probe (Some bytes) (case transcript_offset r0 of None \<Rightarrow> 0 | Some n \<Rightarrow> n) = Some texts \<and> message \<in> set texts)"
  using assms
proof (cases rule: fire_cases)
  case 1
  then show ?thesis by (simp add: send_failed_def)
next
  case 2
  then show ?thesis by (rule fire_log_seen)
qed

theorem message_seen_truthful_witness:
  "\<exists>w' e bytes texts. demo_fire [] = Some (Terminal (MessageSeen ''s1'' ''h''), w')
    \<and> e_file (repl_env 8) ''t'' e = (Some bytes, env w') \<and> texts_from (repl_probe (\<lambda>s. s)) (Some bytes) 0 = Some texts \<and> ''go'' \<in> set texts"
proof -
  obtain w' where d: "demo_fire [] = Some (Terminal (MessageSeen ''s1'' ''h''), w')" using demo_seen by blast
  have r: "transcript demo_record = Some ''t''" "transcript_offset demo_record = Some 0" by (simp_all add: demo_record_def)
  from message_seen_truthful [OF d [unfolded demo_fire_def] demo_start(1)] obtain path e bytes texts where
    "transcript demo_record = Some path" "e_file (repl_env 8) path e = (Some bytes, env w')"
    "texts_from (repl_probe (\<lambda>s. s)) (Some bytes) (case transcript_offset demo_record of None \<Rightarrow> 0 | Some n \<Rightarrow> n) = Some texts" "''go'' \<in> set texts"
    by (elim conjE exE) (rule that)
  then show ?thesis using d r by (intro exI [of _ w'] exI [of _ e] exI [of _ bytes] exI [of _ texts]) simp
qed

text \<open>C11. A fire delivers against the stand-in harness, under these conditions: the harness is idle, the journal
  holds what is in its composer, the input lock is free and nobody types during the fire; the text in the
  composer has no carriage return and no Ctrl-U and matches no signature of a modal screen; the message is
  not empty and has no carriage return and no Ctrl-U; the paste threshold is above one; and the record
  names the transcript with its length at that moment as the offset. Then the message becomes the next
  turn, whole and alone, the draft is back in the composer, and the outcome is that the message was seen.
  (A message with a carriage return and below the paste threshold would be submitted in parts.)\<close>

theorem fire_delivers:
  assumes "inlock w = new_lock" "sched w = []" "env w = (r, t)" "\<not> busy r" "draft (journal w) = composer r"
    and "CR \<notin> set (composer r)" "CTRL_U \<notin> set (composer r)"
      "\<not> modal_screen_is_denied (PROMPT_GLYPH @ '' '' @ composer r) CLAUDE_MODAL_SIGS"
    and "message \<noteq> []" "CR \<notin> set message" "CTRL_U \<notin> set message" "1 < th"
    and "transcript x = Some path" "transcript_offset x = Some (length (repl_transcript (convo r)))"
  shows "\<exists>w'. fire (repl_env th) th claude_default safe_default_facts (repl_probe sha) x message cfg w
      = Some (Terminal (MessageSeen (send_id x) (content_sha256 x)), w')
    \<and> fst (env w') = \<lparr>composer = composer r, convo = convo r @ [UserSaid message], busy = True\<rparr>"
  using fire_delivers_lemma [OF assms, of sha cfg] by (auto simp: rests_def)

theorem fire_delivers_witness:
  "\<exists>w'. demo_fire [] = Some (Terminal (MessageSeen ''s1'' ''h''), w') \<and> fst (env w') = \<lparr>composer = ''hi'', convo = [UserSaid ''go''], busy = True\<rparr>"
  using fire_delivers [of "demo_world []" "new_repl\<lparr>composer := ''hi''\<rparr>" 0 "''go''" 8 demo_record "''t''" "\<lambda>s. s" default_fire_config] demo_plain
  by (simp add: demo_fire_def demo_world_def new_repl_def demo_record_def accepted_record_def CR_def CTRL_U_def repl_transcript_def)

text \<open>C15. A fire always returns, whatever the terminal, the screen, the status, the files and the human do, if the
  clock does not run backwards, a sleep moves it, and the two poll intervals are not zero.\<close>

theorem fire_terminates:
  assumes "clocked_env E clk" "0 < poll_ms (submit cfg)" "0 < landing_poll_ms cfg"
  shows "\<exists>oc w'. fire E th src facts probe r0 message cfg w0 = Some (oc, w')"
  using clocked_env.fire_ends [OF assms] .

theorem fire_terminates_witness: "\<exists>oc w'. demo_fire [[], [(''x'', 1)], [(''y'', 2), (''z'', 3)]] = Some (oc, w')"
  unfolding demo_fire_def
  using fire_terminates [OF repl.clocked_env_axioms, of default_fire_config] by (simp add: default_fire_config_def default_submit_options_def)

text \<open>C38. A key typed between the release of the lock and the flush reaches the terminal before the keys that were
  typed earlier and held back: the order in which a human typed is not kept.\<close>

theorem flush_overtaken:
  assumes "locked (inlock w)" "buffer (inlock w) \<noteq> []" "sched w = [] # [(b, now)] # rest"
  shows "\<exists>ok ok'. log (unlock_and_flush E th (live_effects E th src) w)
    = log w @ [Unlocked, Burst b, Wrote Human b ok, Wrote Flush (buffer (inlock w)) ok']"
  using assms
  by (auto simp: unlock_and_flush_def unlock_input_def interleave_def Let_def unlock_and_drain_def write_unless_empty_def live_sel
      human_turn_def journal_admit_passthrough_def admit_def note_ev_def write_pty_def split: prod.split)

theorem flush_overtaken_witness:
  "\<exists>ok ok'. log (unlock_and_flush (repl_env 8) 8 (live_effects (repl_env 8) 8 claude_default)
      ((demo_world [[], [(''b'', 2)]])\<lparr>inlock := \<lparr>locked = True, buffer = ''a''\<rparr>\<rparr>))
    = [Unlocked, Burst ''b'', Wrote Human ''b'' ok, Wrote Flush ''a'' ok']"
  using flush_overtaken [of "(demo_world [[], [(''b'', 2)]])\<lparr>inlock := \<lparr>locked = True, buffer = ''a''\<rparr>\<rparr>" "''b''" 2 "[]" "repl_env 8" 8 claude_default]
  by (simp add: demo_world_def)

text \<open>Held back keys are written in one piece: a return that was a key of its own, and that the journal took as a
  submit, is then part of a paste, and the composer takes it as a new line.\<close>

theorem held_return_not_submitted:
  assumes "length b < th" "th \<le> length b + 1" "1 < th" "CR \<notin> set b" "CTRL_U \<notin> set b" "draft j = composer r" "\<not> busy r"
  shows "draft (snd (on_human_input [CR] t' th (snd (on_human_input b t th j)))) = []
    \<and> process_burst th (b @ [CR]) r = r\<lparr>composer := composer r @ b @ [LF]\<rparr>"
proof -
  have jb: "fold (journal_byte p) b (d, rl) = (d @ b, rl)" for p d rl
    using assms(4) by (induction b arbitrary: d) (auto simp: journal_byte_def)
  have rb: "fold (burst_byte p) b r = r\<lparr>composer := composer r @ b\<rparr>" for p
    using typed_burst [OF assms(4,5), of "if p then 0 else Suc (length b)" r] by (cases p) (simp_all add: process_burst_def)
  have "CR \<noteq> CTRL_U" by (simp add: CR_def CTRL_U_def)
  then show ?thesis using assms(1,2,3,7)
    by (auto simp: on_human_input_def jb rb process_burst_def journal_byte_def burst_byte_def handle_cr_def)
qed

subsection \<open>The driver\<close>

definition new_runner :: Runner where
  "new_runner = \<lparr>sends = [], r_spool = Map.empty, r_toast = None, banner = \<lparr>countdown = None, toast = None\<rparr>, queue = [], accepted_ids = [], fired_ids = [], unsent_ids = []\<rparr>"

text \<open>C16. In every run of the task that owns the held sends (accepting, forcing, keystrokes, sleeping, firing with
  any outcome; commands reach the task through a channel): no send is taken out to be fired twice; every
  accepted send is in exactly one place, taken out to be fired, held, waiting in the channel, or not taken
  by the channel because the task was gone; and whatever was not taken out has its record in the spool.
  When the channel is empty and the task was there, every accepted send was taken out or is held. The ids
  of accepted sends are different, as their callers mint them.\<close>

theorem driver_fires_once:
  assumes "driver_reach cfg r"
  shows "distinct (fired_ids r @ map if_id (sends r) @ queued_ids (queue r) @ unsent_ids r)
    \<and> set (accepted_ids r) = set (fired_ids r @ map if_id (sends r) @ queued_ids (queue r) @ unsent_ids r)
    \<and> (\<forall>i\<in>set (map if_id (sends r) @ queued_ids (queue r) @ unsent_ids r). r_spool r i \<noteq> None)
    \<and> (queue r = [] \<and> unsent_ids r = [] \<longrightarrow> set (accepted_ids r) = set (fired_ids r) \<union> if_id ` set (sends r))"
proof -
  let ?all = "fired_ids r @ map if_id (sends r) @ queued_ids (queue r) @ unsent_ids r"
  have inv: "distinct (accepted_ids r)" "mset (accepted_ids r) = mset ?all"
    "\<forall>i\<in>set (map if_id (sends r) @ queued_ids (queue r) @ unsent_ids r). r_spool r i \<noteq> None"
    using driver_reach_inv [OF assms] by (simp_all add: runner_inv_def)
  have "distinct ?all" using mset_eq_imp_distinct_iff [OF inv(2)] inv(1) by blast
  moreover have "set (accepted_ids r) = set ?all" using mset_eq_setD [OF inv(2)] .
  ultimately show ?thesis using inv(3) by simp
qed

theorem driver_fires_once_witness:
  "let r = recv_cmd (snd (accept True True demo_record ''go'' new_runner))
   in distinct (fired_ids r @ map if_id (sends r)) \<and> set (accepted_ids r) = {''s1''} \<and> if_id ` set (sends r) = {''s1''}"
proof -
  let ?a = "snd (accept True True demo_record ''go'' new_runner)"
  have "driver_reach default_attended_config new_runner" unfolding new_runner_def by (rule reach_new)
  moreover have "driver_step default_attended_config new_runner ?a" by (rule step_accept) (simp add: new_runner_def)
  ultimately have "driver_reach default_attended_config ?a" by (rule reach_step)
  from reach_step [OF this step_receive] have "driver_reach default_attended_config (recv_cmd ?a)" .
  from driver_fires_once [OF this] show ?thesis
    by (simp add: accept_def recv_cmd_def handle_cmd_def sched_add_def new_runner_def demo_record_def accepted_record_def Let_def)
qed

text \<open>C22. The task sleeps exactly until something is due: if it decides to sleep, then nothing is due before, something
  is due when it wakes if nobody types, and it wakes no later than the ceiling of any held send. Once the
  ceilings have passed, the following turns fire every held send, whatever the human types, in the order
  of acceptance if none was forced.\<close>

theorem scheduler_on_time:
  "(next_action ss j cfg now = SleepMs ms \<longrightarrow>
      (\<exists>i. next_action ss j cfg (now + int ms) = FireSend i)
      \<and> (\<forall>s\<in>set ss. now + int ms \<le> accepted_at_ms (if_record s) + ceiling_for cfg (priority (if_record s)))
      \<and> (\<forall>s\<in>set ss. \<forall>t. now \<le> t \<and> t < now + int ms \<longrightarrow> decide j cfg t s \<noteq> Immediate))
   \<and> ((\<forall>s\<in>set ss. accepted_at_ms (if_record s) + ceiling_for cfg (priority (if_record s)) \<le> later) \<longrightarrow>
      mset (drain (length ss) j' cfg later ss) = mset (map if_id ss)
      \<and> (list_all (\<lambda>s. \<not> forced s) ss \<longrightarrow> drain (length ss) j' cfg later ss = map if_id ss))"
proof (intro conjI impI)
  assume s: "next_action ss j cfg now = SleepMs ms"
  show "\<exists>i. next_action ss j cfg (now + int ms) = FireSend i" using sleep_wakes [OF s] by blast
  show "\<forall>s\<in>set ss. now + int ms \<le> accepted_at_ms (if_record s) + ceiling_for cfg (priority (if_record s))" using sleep_wakes [OF s] by blast
  show "\<forall>s\<in>set ss. \<forall>t. now \<le> t \<and> t < now + int ms \<longrightarrow> decide j cfg t s \<noteq> Immediate" using sleep_not_due [OF s] by blast
next
  assume "\<forall>s\<in>set ss. accepted_at_ms (if_record s) + ceiling_for cfg (priority (if_record s)) \<le> later"
  then have due: "\<forall>s\<in>set ss. decide j' cfg later s = Immediate" using decide_ceiling by blast
  show "mset (drain (length ss) j' cfg later ss) = mset (map if_id ss)" using drain_all due by blast
  assume "list_all (\<lambda>s. \<not> forced s) ss"
  then show "drain (length ss) j' cfg later ss = map if_id ss" using drain_fifo due by (metis list.pred_set)
qed

theorem scheduler_on_time_witness:
  "drain 2 \<lparr>draft = ''x'', last_keystroke_ms = Some 59999\<rparr> default_attended_config 60000
     (sched_add (demo_record\<lparr>send_id := ''s2''\<rparr>) ''b'' (sched_add demo_record ''a'' [])) = [''s1'', ''s2'']
   \<and> next_action (sched_add demo_record ''a'' []) \<lparr>draft = ''x'', last_keystroke_ms = Some 100\<rparr> default_attended_config 1000 = SleepMs 2100
   \<and> (\<exists>i. next_action (sched_add demo_record ''a'' []) \<lparr>draft = ''x'', last_keystroke_ms = Some 100\<rparr> default_attended_config 3100 = FireSend i)"
proof -
  let ?j = "\<lparr>draft = ''x'', last_keystroke_ms = Some 100\<rparr>" and ?j' = "\<lparr>draft = ''x'', last_keystroke_ms = Some 59999\<rparr>"
  let ?ss = "sched_add (demo_record\<lparr>send_id := ''s2''\<rparr>) ''b'' (sched_add demo_record ''a'' [])" and ?one = "sched_add demo_record ''a'' []"
  have s: "next_action ?one ?j default_attended_config 1000 = SleepMs 2100" by code_simp
  have "list_all (\<lambda>s. accepted_at_ms (if_record s) + ceiling_for default_attended_config (priority (if_record s)) \<le> 60000) ?ss" by code_simp
  then have "\<forall>s\<in>set ?ss. accepted_at_ms (if_record s) + ceiling_for default_attended_config (priority (if_record s)) \<le> 60000" by (simp only: list.pred_set)
  moreover have "list_all (\<lambda>s. \<not> forced s) ?ss" "length ?ss = 2" "map if_id ?ss = [''s1'', ''s2'']" by code_simp+
  ultimately have "drain 2 ?j' default_attended_config 60000 ?ss = [''s1'', ''s2'']"
    using scheduler_on_time [of ?ss ?j default_attended_config 0 0 60000 ?j'] by metis
  moreover have "\<exists>i. next_action ?one ?j default_attended_config 3100 = FireSend i"
    using scheduler_on_time [of ?one ?j default_attended_config 1000 2100 60000 ?j'] s by simp
  ultimately show ?thesis using s by blast
qed

subsection \<open>The spool\<close>

text \<open>C14. The spool of files implements a map from ids to records: a write that stops anywhere, by an error or by the
  end of the process, leaves the map as it was, a write that succeeds sets exactly its record, a removal
  removes exactly its record, and a record that was written is read back as it was.\<close>

theorem spool_refines_map:
  assumes "value_ok to_string parse" "record_wf r"
  shows "spooled parse (snd (spool_write to_string io r d))
      = (if fst (spool_write to_string io r d) then (spooled parse d)(send_id r \<mapsto> r) else spooled parse d)
    \<and> (fst (spool_write to_string io r d) \<longleftrightarrow> io = SpoolOk)
    \<and> spooled parse (spool_remove i d) = (spooled parse d)(i := None)
    \<and> spool_load parse (\<lambda>_. True) (send_id r) (snd (spool_write to_string SpoolOk r d)) = Inr (Some r)"
proof (intro conjI)
  show ok: "fst (spool_write to_string io r d) \<longleftrightarrow> io = SpoolOk" for io by (cases io) (simp_all add: spool_write_def Let_def)
  show w: "spooled parse (snd (spool_write to_string io r d))
      = (if fst (spool_write to_string io r d) then (spooled parse d)(send_id r \<mapsto> r) else spooled parse d)" for io
    by (rule spooled_write [OF assms])
  show "spooled parse (spool_remove i d) = (spooled parse d)(i := None)" by (rule spooled_remove)
  show "spool_load parse (\<lambda>_. True) (send_id r) (snd (spool_write to_string SpoolOk r d)) = Inr (Some r)"
    using w [of SpoolOk] ok [of SpoolOk] by (intro spool_load_spooled) simp_all
qed

theorem spool_refines_map_witness:
  "spooled sample_from_str (snd (spool_write sample_to_string (BodyStops 3) demo_record [])) = spooled sample_from_str []
   \<and> spool_load sample_from_str (\<lambda>_. True) ''s1'' (snd (spool_write sample_to_string SpoolOk demo_record [])) = Inr (Some demo_record)"
proof -
  have "record_wf demo_record" "send_id demo_record = ''s1''" by (simp_all add: record_wf_def demo_record_def accepted_record_def)
  then show ?thesis using spool_refines_map [OF sample_value_ok, of demo_record "BodyStops 3" "[]" "''s1''"] by simp
qed

subsection \<open>The sweep\<close>

text \<open>C13. Take a sweep of a dead session over ledgers that all end with a complete line, in which every lock is taken,
  every read and removal works and every append is written whole. It ends every send that can be read from
  the spool with a terminal in its ledger: exactly one if it had none, none more if it had one; no other
  send of any ledger gets one; the swept records are gone; and sweeping again, which is what a crash before
  the removal leads to, adds nothing. Behind a torn last line it fails, see
  \<open>terminal_glued_to_torn_line\<close>.\<close>

theorem sweep_one_terminal_each:
  assumes "value_ok to_string (from_str probe)" "faultless io" "\<forall>p. whole_lines (ledgers st p)"
  shows "\<exists>st'. reconcile_spool to_string probe False ledger_for io readable st = Some st'
    \<and> (\<forall>p i. terminals (from_str probe) (ledgers st' p) i
         = (if \<exists>r\<in>set (spool_load_all (from_str probe) readable (pending st)). p = ledger_for r \<and> i = send_id r
            then max 1 (terminals (from_str probe) (ledgers st p) i) else terminals (from_str probe) (ledgers st p) i))
    \<and> (\<forall>r\<in>set (spool_load_all (from_str probe) readable (pending st)). spooled (from_str probe) (pending st') (send_id r) = None)
    \<and> (\<exists>st''. reconcile_spool to_string probe False ledger_for io readable (st'\<lparr>pending := pending st\<rparr>) = Some st''
         \<and> (\<forall>p i. terminals (from_str probe) (ledgers st'' p) i = terminals (from_str probe) (ledgers st' p) i))"
proof -
  let ?rs = "spool_load_all (from_str probe) readable (pending st)"
  from sweep_all [OF assms, of ledger_for ?rs] obtain st' where
    1: "reconcile_spool to_string probe False ledger_for io readable st = Some st'" "\<forall>p. whole_lines (ledgers st' p)"
    and t1: "\<forall>p i. terminals (from_str probe) (ledgers st' p) i
         = terminals (from_str probe) (ledgers st p) i
           + (if terminals (from_str probe) (ledgers st p) i = 0 \<and> (\<exists>r\<in>set ?rs. p = ledger_for r \<and> i = send_id r) then 1 else 0)"
    and gone: "pending st' = fold (\<lambda>r. spool_remove (send_id r)) ?rs (pending st)"
    unfolding reconcile_spool_def by blast
  let ?st = "st'\<lparr>pending := pending st\<rparr>"
  have "\<forall>p. whole_lines (ledgers ?st p)" using 1(2) by simp
  from sweep_all [OF assms(1,2) this, of ledger_for ?rs] obtain st'' where
    2: "reconcile_spool to_string probe False ledger_for io readable ?st = Some st''"
    and t2: "\<forall>p i. terminals (from_str probe) (ledgers st'' p) i
         = terminals (from_str probe) (ledgers st' p) i
           + (if terminals (from_str probe) (ledgers st' p) i = 0 \<and> (\<exists>r\<in>set ?rs. p = ledger_for r \<and> i = send_id r) then 1 else 0)"
    unfolding reconcile_spool_def by auto
  have "terminals (from_str probe) (ledgers st' p) i
         = (if \<exists>r\<in>set ?rs. p = ledger_for r \<and> i = send_id r
            then max 1 (terminals (from_str probe) (ledgers st p) i) else terminals (from_str probe) (ledgers st p) i)" for p i
    using t1 by simp
  moreover have "terminals (from_str probe) (ledgers st'' p) i = terminals (from_str probe) (ledgers st' p) i" for p i
    using t1 t2 by auto
  moreover have "spooled (from_str probe) (pending st') (send_id r) = None" if "r \<in> set ?rs" for r
    unfolding gone using that by (rule spooled_removed)
  ultimately show ?thesis using 1(1) 2 by blast
qed

definition quiet_io :: SweepIo where
  "quiet_io = \<lparr>sw_lock = (\<lambda>_. True), sw_read = (\<lambda>_. True), sw_append = (\<lambda>_. AppendOk), sw_remove = (\<lambda>_. True),
     sw_transcript = (\<lambda>_. None), sw_now = 0, sw_pid = 7, sw_start = None\<rparr>"

definition demo_sweep :: Sweep where
  "demo_sweep = \<lparr>ledgers = (\<lambda>_. []), pending = snd (spool_write sample_to_string SpoolOk demo_record []), emitters = [], verdicts = []\<rparr>"

lemma demo_load: "spool_load_all sample_from_str (\<lambda>_. True) (pending demo_sweep) = [demo_record]"
proof -
  let ?b = "sample_to_string (VObj (record_members demo_record))"
  have "pending demo_sweep = [(''s1.json'', ?b)]"
    by (simp add: demo_sweep_def spool_write_def Let_def put_file_def del_file_def demo_record_def accepted_record_def record_path_def tmp_path_def)
  moreover have "sample_from_str ?b = Some (VObj (record_members demo_record))"
    using sample_value_ok record_wf_members [of demo_record] unfolding value_ok_def by blast
  moreover have "read_record (VObj (record_members demo_record)) = Some demo_record"
    by (rule read_record_members) (simp add: record_wf_def demo_record_def accepted_record_def)
  moreover have "authoritative ''s1.json''" by code_simp
  ultimately show ?thesis by (simp add: spool_load_all_def List.map_filter_simps del: read_record.simps)
qed

theorem sweep_one_terminal_each_witness:
  "\<exists>st'. reconcile_spool sample_to_string (repl_probe (\<lambda>s. s)) False (\<lambda>_. ''l'') quiet_io (\<lambda>_. True) demo_sweep = Some st'
    \<and> terminals sample_from_str (ledgers st' ''l'') ''s1'' = 1 \<and> spooled sample_from_str (pending st') ''s1'' = None"
proof -
  have "value_ok sample_to_string (from_str (repl_probe (\<lambda>s. s)))" using sample_value_ok by (simp add: repl_probe_def)
  moreover have "faultless quiet_io" by (simp add: faultless_def quiet_io_def)
  moreover have "\<forall>p. whole_lines (ledgers demo_sweep p)" by (simp add: demo_sweep_def whole_lines_def)
  ultimately obtain st' where st': "reconcile_spool sample_to_string (repl_probe (\<lambda>s. s)) False (\<lambda>_. ''l'') quiet_io (\<lambda>_. True) demo_sweep = Some st'"
    "\<forall>p i. terminals (from_str (repl_probe (\<lambda>s. s))) (ledgers st' p) i
       = (if \<exists>r\<in>set (spool_load_all (from_str (repl_probe (\<lambda>s. s))) (\<lambda>_. True) (pending demo_sweep)). p = ''l'' \<and> i = send_id r
          then max 1 (terminals (from_str (repl_probe (\<lambda>s. s))) (ledgers demo_sweep p) i)
          else terminals (from_str (repl_probe (\<lambda>s. s))) (ledgers demo_sweep p) i)"
    "\<forall>r\<in>set (spool_load_all (from_str (repl_probe (\<lambda>s. s))) (\<lambda>_. True) (pending demo_sweep)).
       spooled (from_str (repl_probe (\<lambda>s. s))) (pending st') (send_id r) = None"
    using sweep_one_terminal_each [of sample_to_string "repl_probe (\<lambda>s. s)" quiet_io demo_sweep "\<lambda>_. ''l''" "\<lambda>_. True"] by blast
  have p: "from_str (repl_probe (\<lambda>s. s)) = sample_from_str" "send_id demo_record = ''s1''" "terminals sample_from_str (ledgers demo_sweep ''l'') ''s1'' = 0"
    by (simp_all add: repl_probe_def demo_record_def accepted_record_def demo_sweep_def terminals_def rust_lines_def)
  show ?thesis using st'(1,3) st'(2) [rule_format, of "''l''" "''s1''"] unfolding p(1) demo_load by (auto simp: p)
qed

text \<open>C39. If the terminal cannot be appended, the sweep removes the record all the same: the send then has no terminal
  in its ledger and nothing is left from which one could be written.\<close>

theorem sweep_drops_unwritten_terminal:
  assumes "sw_lock io r" "sw_read io r" "sw_append io r = AppendError 0" "sw_remove io r"
    and "terminals (from_str probe) (ledgers st (ledger_for r)) (send_id r) = 0"
  shows "\<exists>st'. sweep_one to_string probe False ledger_for io r st = Some st' \<and> ledgers st' = ledgers st
    \<and> terminals (from_str probe) (ledgers st' (ledger_for r)) (send_id r) = 0
    \<and> spooled (from_str probe) (pending st') (send_id r) = None"
proof -
  let ?v = "sweep_verdict probe False io r (ledgers st (ledger_for r))"
  have v: "?v \<noteq> ResurfaceDraft" "?v \<noteq> AlreadyTerminal"
    using assms(2,5) has_terminal_iff [of "from_str probe" "ledgers st (ledger_for r)" "send_id r"]
    by (auto simp: sweep_verdict_def reconcile_def split: FirePhase.split LandingResult.split)
  obtain p where p: "verdict_payload ?v r = Some p" using v by (cases ?v) auto
  obtain em where em: "mux_emit to_string (sw_pid io) (sw_now io) (AppendError 0) p (emitter_for io r (ledger_for r) (emitters st)) (ledgers st (ledger_for r))
      = (False, em, ledgers st (ledger_for r))"
    by (auto simp: mux_emit_def mux_envelope_def append_record_def)
  show ?thesis using assms v(1) p em by (simp add: sweep_one_def Let_def spooled_remove)
qed

theorem sweep_drops_unwritten_terminal_witness:
  "\<exists>st'. sweep_one sample_to_string (repl_probe (\<lambda>s. s)) False (\<lambda>_. ''l'') (quiet_io\<lparr>sw_append := (\<lambda>_. AppendError 0)\<rparr>) demo_record demo_sweep = Some st'
    \<and> terminals sample_from_str (ledgers st' ''l'') ''s1'' = 0 \<and> spooled sample_from_str (pending st') ''s1'' = None"
proof -
  have p: "from_str (repl_probe (\<lambda>s. s)) = sample_from_str" "send_id demo_record = ''s1''" "terminals sample_from_str (ledgers demo_sweep ''l'') ''s1'' = 0"
    by (simp_all add: repl_probe_def demo_record_def accepted_record_def demo_sweep_def terminals_def rust_lines_def)
  show ?thesis
    using sweep_drops_unwritten_terminal [of "quiet_io\<lparr>sw_append := (\<lambda>_. AppendError 0)\<rparr>" demo_record "repl_probe (\<lambda>s. s)" demo_sweep "\<lambda>_. ''l''" sample_to_string]
    by (auto simp: quiet_io_def p)
qed

text \<open>A terminal that is appended behind a line whose end was lost is glued to it and is not read as a terminal.\<close>

theorem terminal_glued_to_torn_line:
  "\<exists>ledger. fst (mux_emit sample_to_string 7 0 AppendOk (SeenFailed ''s1'' ''recipient-gone'') (mux_emitter_new None None None) ledger)
     \<and> terminals sample_from_str (snd (snd (mux_emit sample_to_string 7 0 AppendOk (SeenFailed ''s1'' ''recipient-gone'') (mux_emitter_new None None None) ledger))) ''s1'' = 0"
  by (rule exI [of _ "''O''"]) code_simp

subsection \<open>Chunks\<close>

text \<open>A message is cut into chunks between characters only: the chunks are not empty, together they are the message,
  the characters of the chunks are the characters of the message, and each chunk has at most the given
  number of bytes unless it is one character that alone has more.\<close>

theorem chunk_text_whole:
  "concat (chunk_text message bytes) = message \<and> concat (map to_chars (chunk_text message bytes)) = to_chars message
   \<and> (\<forall>c\<in>set (chunk_text message bytes). c \<noteq> [] \<and> (length c \<le> max bytes 1 \<or> length (to_chars c) = 1))"
  using chunk_text_bound by (simp add: chunk_text_chars)

theorem chunk_text_whole_witness:
  "chunk_text ''abc'' 2 = [''ab'', ''c''] \<and> concat (chunk_text ''abc'' 2) = ''abc''"
  using chunk_text_whole [of "''abc''" 2] by code_simp

end
