(* ===== verification/Liveness.thy ===== *)
theory Liveness
  imports Resolve
begin

text \<open>
  Liveness (\<open>crates/quorum-qw/src/liveness.rs\<close>, \<open>livelock.rs\<close>) and health (\<open>crates/dispatch/src/health.rs\<close>):
  what a reading of the process table says of a recorded process, what the stream of a session adds to
  it, and the gates that listings and the recovery ladder apply. The readings are arguments.
\<close>

subsection \<open>The life of a process\<close>

datatype LifecycleState =
  AliveSilentValid | AliveWorking | ExitedClean | ExitedSignal | Gone | NotOurs | AliveReady | AliveWaiting | Stuck

definition lc_is_alive :: "LifecycleState \<Rightarrow> bool" where
  "lc_is_alive s \<longleftrightarrow> s \<in> {AliveSilentValid, AliveWorking, AliveReady, AliveWaiting, Stuck}"

definition lc_is_dead :: "LifecycleState \<Rightarrow> bool" where
  "lc_is_dead s \<longleftrightarrow> s \<in> {ExitedClean, ExitedSignal, Gone}"

definition is_diagnostic_stuck :: "LifecycleState \<Rightarrow> bool" where
  "is_diagnostic_stuck s \<longleftrightarrow> s = Stuck"

definition START_TIME_SLACK_MS :: int where "START_TIME_SLACK_MS = 120000"

datatype ProcLiveness = RunningOrDisk | Sleeping | Zombie | ProcGone | ProcUnknown

text \<open>A probe gives the start time of a process, if it can be read, and its state.\<close>

record ProcProbe =
  pp_start_ms :: "int \<Rightarrow> int option"
  pp_liveness :: "int \<Rightarrow> ProcLiveness"

type_synonym ProcKey = "int \<times> int"

definition classify_inner :: "ProcProbe \<Rightarrow> ProcKey \<Rightarrow> LifecycleState" where
  "classify_inner P key =
     (case pp_liveness P (fst key) of
        ProcGone \<Rightarrow> Gone
      | ProcUnknown \<Rightarrow> AliveSilentValid
      | lv \<Rightarrow>
          if (case pp_start_ms P (fst key) of Some now_start \<Rightarrow> START_TIME_SLACK_MS < \<bar>now_start - snd key\<bar> | None \<Rightarrow> False) then NotOurs
          else (case lv of RunningOrDisk \<Rightarrow> AliveWorking | Sleeping \<Rightarrow> AliveSilentValid | _ \<Rightarrow> ExitedSignal))"

record StreamObs =
  first_output_seen :: bool
  turn_in_flight :: bool
  since_turn_start_ms :: "int option"
  waiting_on_ledger :: bool

definition STUCK_THRESHOLD_MS :: int where "STUCK_THRESHOLD_MS = 300000"

definition classify_obs :: "ProcProbe \<Rightarrow> int \<Rightarrow> ProcKey \<Rightarrow> StreamObs \<Rightarrow> LifecycleState" where
  "classify_obs P stuck_threshold_ms key obs =
     (let base = classify_inner P key in
      if \<not> lc_is_alive base then base
      else if waiting_on_ledger obs then AliveWaiting
      else if turn_in_flight obs
      then (if (case since_turn_start_ms obs of Some ms \<Rightarrow> stuck_threshold_ms < ms | None \<Rightarrow> False) then Stuck else AliveWorking)
      else if first_output_seen obs then AliveReady
      else base)"

definition classify_reaped :: "int option \<Rightarrow> LifecycleState" where
  "classify_reaped signal = (if signal \<noteq> None then ExitedSignal else ExitedClean)"

definition confirmed_dead :: "LifecycleState list \<Rightarrow> bool" where
  "confirmed_dead sq \<longleftrightarrow> sq \<noteq> [] \<and> list_all lc_is_dead sq"

subsection \<open>The liveness lock\<close>

text \<open>What the lock file of a session answers: it is not there, cannot be opened, is free, held, or locking fails.\<close>

datatype LockProbe = LockAbsent | LockUnreadable | LockFree | LockHeld | LockFault

fun probe_dead :: "LockProbe \<Rightarrow> bool" where
  "probe_dead LockAbsent = False"
| "probe_dead LockUnreadable = False"
| "probe_dead LockFree = True"
| "probe_dead LockHeld = False"
| "probe_dead LockFault = False"

subsection \<open>The gates of a listing\<close>

definition shown_live :: "SessionStatus \<Rightarrow> bool" where
  "shown_live st \<longleftrightarrow> st \<in> {Idle, Busy, Shell}"

definition gated_ls_status :: "ProcProbe \<Rightarrow> SessionStatus \<Rightarrow> int option \<Rightarrow> int option \<Rightarrow> SessionStatus" where
  "gated_ls_status P st npid recorded_start_ms =
     (if \<not> shown_live st then st
      else case (npid, recorded_start_ms) of
        (Some p, Some start) \<Rightarrow> if lc_is_alive (classify_inner P (as_i32 p, start)) then st else Cold
      | _ \<Rightarrow> st)"

datatype DaemonLiveness = DaemonUp | DaemonDown

datatype connect_answer = ConnectOk | ConnectRefused | ConnectNotFound | ConnectOther

text \<open>The socket probe; no directory to probe in means that nothing is downgraded.\<close>

definition daemon_liveness :: "string option \<Rightarrow> (string \<Rightarrow> connect_answer) \<Rightarrow> string \<Rightarrow> DaemonLiveness" where
  "daemon_liveness qrmux_dir connect name =
     (case qrmux_dir of
        None \<Rightarrow> DaemonUp
      | Some dir \<Rightarrow>
          (case connect (dir @ ''/'' @ name @ ''.sock'') of
             ConnectRefused \<Rightarrow> DaemonDown | ConnectNotFound \<Rightarrow> DaemonDown | _ \<Rightarrow> DaemonUp))"

definition gated_ls_status_headless ::
  "ProcProbe \<Rightarrow> (string \<Rightarrow> DaemonLiveness) \<Rightarrow> SessionStatus \<Rightarrow> string option \<Rightarrow> string option \<Rightarrow> int option \<Rightarrow> int option \<Rightarrow> SessionStatus"
where
  "gated_ls_status_headless P daemon_src st ep nm npid recorded_start_ms =
     (if \<not> shown_live st then st else gated_ls_status P st npid recorded_start_ms)"

text \<open>The lock is probed where a session id is known, and its answer is not used.\<close>

definition is_session_live_reconciled :: "ProcProbe \<Rightarrow> (string \<Rightarrow> LockProbe) \<Rightarrow> string option \<Rightarrow> int \<Rightarrow> int \<Rightarrow> bool" where
  "is_session_live_reconciled P probe sid npid start =
     (let candidate_dead = map_option (\<lambda>i. probe_dead (probe i)) sid
      in lc_is_alive (classify_inner P (as_i32 npid, start)))"

definition reconciled_read_status ::
  "ProcProbe \<Rightarrow> (string \<Rightarrow> LockProbe) \<Rightarrow> SessionStatus \<Rightarrow> string option \<Rightarrow> int option \<Rightarrow> int option \<Rightarrow> SessionStatus"
where
  "reconciled_read_status P probe st sid npid recorded_start_ms =
     (if \<not> shown_live st then st
      else case (npid, recorded_start_ms) of
        (Some p, Some start) \<Rightarrow> if is_session_live_reconciled P probe sid p start then st else Cold
      | _ \<Rightarrow> st)"

datatype Readiness = Ready | Silent | StuckFacet

definition readiness_facet :: "LifecycleState \<Rightarrow> Readiness option" where
  "readiness_facet s =
     (if s = AliveReady then Some Ready
      else if is_diagnostic_stuck s then Some StuckFacet
      else if lc_is_alive s then Some Silent
      else None)"

subsection \<open>Health\<close>

datatype Health = HealthDead | HealthIdle | HealthBusy | Wedged

definition authorizes_recovery :: "Health \<Rightarrow> bool" where
  "authorizes_recovery h \<longleftrightarrow> h = Wedged"

definition classify_health :: "LifecycleState \<Rightarrow> SessionStatus \<Rightarrow> bool \<Rightarrow> bool \<Rightarrow> DaemonLiveness \<Rightarrow> bool \<Rightarrow> int \<Rightarrow> Health" where
  "classify_health live st signal_a_stuck signal_b_stale daemon is_headless now_ms =
     (if lc_is_dead live then HealthDead
      else if \<not> lc_is_alive live then HealthIdle
      else if is_headless \<and> daemon = DaemonDown then (if st = Busy then HealthBusy else HealthIdle)
      else if st \<noteq> Busy then HealthIdle
      else if signal_a_stuck \<and> signal_b_stale then Wedged else HealthBusy)"

subsection \<open>What the verdicts mean\<close>

text \<open>
  A recorded process is convicted only by what was read: a positive absence, a zombie that is not known
  to be another process, or another start time.
\<close>

lemma classify_inner_convicts:
  "\<not> lc_is_alive (classify_inner P (p, start)) \<longleftrightarrow>
   pp_liveness P p = ProcGone
   \<or> pp_liveness P p \<notin> {ProcGone, ProcUnknown}
     \<and> (pp_liveness P p = Zombie \<or> (\<exists>t. pp_start_ms P p = Some t \<and> START_TIME_SLACK_MS < \<bar>t - start\<bar>))"
  by (auto simp: classify_inner_def lc_is_alive_def split: ProcLiveness.split option.split)

text \<open>The stream never brings a process back and never convicts one.\<close>

lemma classify_obs_alive: "lc_is_alive (classify_obs P th key obs) \<longleftrightarrow> lc_is_alive (classify_inner P key)"
  by (auto simp: classify_obs_def Let_def lc_is_alive_def)

lemma wedged_iff:
  "classify_health live st a b daemon headless t = Wedged \<longleftrightarrow>
   lc_is_alive live \<and> st = Busy \<and> a \<and> b \<and> \<not> (headless \<and> daemon = DaemonDown)"
  by (cases live) (auto simp: classify_health_def lc_is_alive_def lc_is_dead_def)

text \<open>Neither the daemon nor the lock has a say in what a listing shows.\<close>

lemma reconciled_no_stronger: "reconciled_read_status P probe st sid p start = gated_ls_status P st p start"
  by (simp add: reconciled_read_status_def gated_ls_status_def is_session_live_reconciled_def split: option.split)

lemma gate_no_daemon: "gated_ls_status_headless P src st ep nm p start = gated_ls_status P st p start"
  by (simp add: gated_ls_status_headless_def gated_ls_status_def)

end
