(* ===== verification/Recovery.thy ===== *)
theory Recovery
  imports Liveness
begin

text \<open>
  The recovery ladder (\<open>crates/dispatch/src/recovery.rs\<close>) and the guarded tombstone
  (\<open>crates/quorum-qw/src/registry.rs\<close>). The destructive rung runs against an
  environment that answers every system call; the log of its world records what it did, and no code
  reads it. A recovery row is written by rename, so a write either takes effect or does not.
\<close>

subsection \<open>Rungs\<close>

datatype Rung = PidfdSignal | ControlWake | PtyInject | Respawn

fun level :: "Rung \<Rightarrow> nat" where
  "level PidfdSignal = 1"
| "level ControlWake = 2"
| "level PtyInject = 3"
| "level Respawn = 4"

text \<open>The derived order of the enumeration.\<close>

lemma level_inject [simp]: "level a = level b \<longleftrightarrow> a = b"
  by (cases a; cases b) simp_all

instantiation Rung :: linorder
begin

definition less_eq_Rung :: "Rung \<Rightarrow> Rung \<Rightarrow> bool" where
  "less_eq_Rung a b \<longleftrightarrow> level a \<le> level b"

definition less_Rung :: "Rung \<Rightarrow> Rung \<Rightarrow> bool" where
  "less_Rung a b \<longleftrightarrow> level a < level b"

instance
  by standard (auto simp: less_eq_Rung_def less_Rung_def)

end

fun rung_deadline_ms :: "Rung \<Rightarrow> int" where
  "rung_deadline_ms PidfdSignal = 5000"
| "rung_deadline_ms ControlWake = 10000"
| "rung_deadline_ms PtyInject = 15000"
| "rung_deadline_ms Respawn = 96000"

definition is_destructive :: "Rung \<Rightarrow> bool" where
  "is_destructive r \<longleftrightarrow> r = Respawn"

fun escalate :: "Rung \<Rightarrow> Rung option" where
  "escalate PidfdSignal = Some ControlWake"
| "escalate ControlWake = Some PtyInject"
| "escalate PtyInject = Some Respawn"
| "escalate Respawn = None"

datatype LadderState = LadderIdle | Running Rung | Crit

definition CRIT_CONSECUTIVE_FAILURES :: nat where "CRIT_CONSECUTIVE_FAILURES = 3"

subsection \<open>Triggers and the cap\<close>

datatype Trigger = NoTrigger | TriggerArm | EnterAtRespawn

definition ladder_trigger :: "Health \<Rightarrow> bool option \<Rightarrow> bool \<Rightarrow> bool \<Rightarrow> Trigger" where
  "ladder_trigger health connect_ok is_dead_dangling should_be_running =
     (if is_dead_dangling then EnterAtRespawn
      else if authorizes_recovery health then TriggerArm
      else if should_be_running \<and> connect_ok = Some False then TriggerArm
      else NoTrigger)"

definition ladder_ceiling :: "bool \<Rightarrow> Rung" where
  "ladder_ceiling signal_b_harness_live = (if signal_b_harness_live then Respawn else PtyInject)"

definition destructive_authorized :: "bool \<Rightarrow> bool" where
  "destructive_authorized signal_b_harness_live \<longleftrightarrow> ladder_ceiling signal_b_harness_live = Respawn"

definition cap_rung :: "Rung \<Rightarrow> bool \<Rightarrow> Rung" where
  "cap_rung desired signal_b_harness_live = min desired (ladder_ceiling signal_b_harness_live)"

subsection \<open>Admission of a respawn\<close>

definition RESPAWN_SEMAPHORE_MAX :: nat where "RESPAWN_SEMAPHORE_MAX = 1"

text \<open>Load averages are floating point numbers; \<open>exceeds load ceiling ncpu\<close> is the comparison of the code.\<close>

record 'f HostLoad =
  loadavg_1m :: 'f
  avail_mem_bytes :: nat
  ncpu :: nat
  respawns_in_flight :: nat

datatype RespawnAdmission = RespawnAdmit | SuspendConcurrency | SuspendLowMem | SuspendHighLoad

definition respawn_admission :: "('f \<Rightarrow> 'f \<Rightarrow> nat \<Rightarrow> bool) \<Rightarrow> 'f HostLoad \<Rightarrow> nat \<Rightarrow> 'f \<Rightarrow> RespawnAdmission" where
  "respawn_admission exceeds ld min_avail_bytes load_per_cpu_ceiling =
     (if RESPAWN_SEMAPHORE_MAX \<le> respawns_in_flight ld then SuspendConcurrency
      else if avail_mem_bytes ld < min_avail_bytes then SuspendLowMem
      else if 0 < ncpu ld \<and> exceeds (loadavg_1m ld) load_per_cpu_ceiling (ncpu ld) then SuspendHighLoad
      else RespawnAdmit)"

definition d_state_blocks_respawn :: "char \<Rightarrow> bool" where
  "d_state_blocks_respawn proc_state \<longleftrightarrow> proc_state = CHR ''D''"

subsection \<open>The recovery row\<close>

record ProcIdentity =
  id_pid :: int
  id_start_ms :: int
  id_incarnation :: nat

datatype Phase = PhaseIdle | Killing | Tombstoned | Spawning | Confirming

record LadderOwner =
  coordinator_incarnation :: nat
  expiry_ms :: int

definition owner_new :: "nat \<Rightarrow> int \<Rightarrow> int \<Rightarrow> LadderOwner" where
  "owner_new inc now grace = \<lparr>coordinator_incarnation = inc, expiry_ms = now + rung_deadline_ms Respawn + grace\<rparr>"

definition is_expired :: "LadderOwner \<Rightarrow> int \<Rightarrow> bool" where
  "is_expired o' now \<longleftrightarrow> expiry_ms o' \<le> now"

definition can_acquire_lease :: "LadderOwner option \<Rightarrow> nat \<Rightarrow> int \<Rightarrow> bool" where
  "can_acquire_lease current mine now =
     (case current of None \<Rightarrow> True | Some o' \<Rightarrow> is_expired o' now \<or> coordinator_incarnation o' = mine)"

definition RECOVERY_ROW_VERSION :: nat where "RECOVERY_ROW_VERSION = 1"

record RecoveryRow =
  rr_version :: nat
  rr_session_id :: string
  ladder_owner :: "LadderOwner option"
  ladder_state :: LadderState
  rr_phase :: Phase
  old_identity :: "ProcIdentity option"
  new_session_id :: "string option"
  consecutive_failures :: nat
  last_attempt_ms :: "int option"
  daemon_up_ms :: "int option"
  tau_override_ms :: "int option"

definition cold_row :: "string \<Rightarrow> RecoveryRow" where
  "cold_row i =
     \<lparr>rr_version = RECOVERY_ROW_VERSION, rr_session_id = i, ladder_owner = None, ladder_state = LadderIdle, rr_phase = PhaseIdle,
      old_identity = None, new_session_id = None, consecutive_failures = 0, last_attempt_ms = None, daemon_up_ms = None, tau_override_ms = None\<rparr>"

subsection \<open>After a crash of the coordinator\<close>

datatype ResumeAction =
  ResumeCold | ReArm Rung | ReverifySuccessor string | ResumeKill "ProcIdentity option" | SuccessorHealthy

definition resume_action :: "RecoveryRow \<Rightarrow> bool \<Rightarrow> ResumeAction" where
  "resume_action row successor_healthy =
     (case rr_phase row of
        PhaseIdle \<Rightarrow> (case ladder_state row of Running rung \<Rightarrow> if \<not> is_destructive rung then ReArm rung else ResumeCold | _ \<Rightarrow> ResumeCold)
      | Killing \<Rightarrow> ResumeKill (old_identity row)
      | Tombstoned \<Rightarrow> ResumeKill (old_identity row)
      | _ \<Rightarrow> if successor_healthy then SuccessorHealthy
             else (case new_session_id row of Some i \<Rightarrow> ReverifySuccessor i | None \<Rightarrow> ResumeKill (old_identity row)))"

datatype RecoveryOutcome = Recovered | ConfirmedFailure | Indeterminate

text \<open>The counter is a \<open>u32\<close> that saturates.\<close>

definition apply_outcome :: "nat \<Rightarrow> RecoveryOutcome \<Rightarrow> nat \<times> bool" where
  "apply_outcome failures outcome =
     (let next' = (case outcome of Recovered \<Rightarrow> 0 | ConfirmedFailure \<Rightarrow> min (failures + 1) (2 ^ 32 - 1) | Indeterminate \<Rightarrow> failures)
      in (next', CRIT_CONSECUTIVE_FAILURES \<le> next'))"

subsection \<open>The destructive rung\<close>

datatype KillResult = KillOk | KillEsrch | KillError

datatype REv =
    RowWritten RecoveryRow bool
  | Fenced int "int option"
  | KilledPid int KillResult
  | Renamed int bool
  | Minted "string option"
  | SpawnedAs string "int option"

record 'e REnv =
  rv_write :: "'e \<Rightarrow> bool \<times> 'e"
  rv_start_ms :: "int \<Rightarrow> 'e \<Rightarrow> int option \<times> 'e"
  rv_kill :: "int \<Rightarrow> 'e \<Rightarrow> KillResult \<times> 'e"
  rv_entry :: "int \<Rightarrow> 'e \<Rightarrow> int option option \<times> 'e"
  rv_rename :: "int \<Rightarrow> 'e \<Rightarrow> bool \<times> 'e"
  rv_mint :: "'e \<Rightarrow> string option \<times> 'e"
  rv_spawn :: "string \<Rightarrow> 'e \<Rightarrow> int option \<times> 'e"
  rv_confirm :: "int \<Rightarrow> string \<Rightarrow> 'e \<Rightarrow> bool \<times> 'e"
  rv_now :: "'e \<Rightarrow> int \<times> 'e"
  rv_sleep :: "nat \<Rightarrow> 'e \<Rightarrow> 'e"

record 'e RWorld =
  rw_log :: "REv list"
  rw_env :: 'e

definition rw_note :: "REv \<Rightarrow> 'e \<Rightarrow> 'e RWorld \<Rightarrow> 'e RWorld" where
  "rw_note ev e w = \<lparr>rw_log = rw_log w @ [ev], rw_env = e\<rparr>"

definition write_recovery_row :: "'e REnv \<Rightarrow> RecoveryRow \<Rightarrow> 'e RWorld \<Rightarrow> bool \<times> 'e RWorld" where
  "write_recovery_row V row w = (case rv_write V (rw_env w) of (ok, e) \<Rightarrow> (ok, rw_note (RowWritten row ok) e w))"

datatype TombstoneOutcome = TombstonedRow | AbsentRow | RefusedRow "int option"

text \<open>The row (its start time, if it has one) is read and, unless it shows another start than expected, renamed.\<close>

definition tombstone_guarded :: "'e REnv \<Rightarrow> int \<Rightarrow> int option \<Rightarrow> 'e RWorld \<Rightarrow> TombstoneOutcome \<times> 'e RWorld" where
  "tombstone_guarded V npid expected w =
     (case rv_entry V npid (rw_env w) of (entry, e) \<Rightarrow>
        let w1 = w\<lparr>rw_env := e\<rparr> in
        if (case (expected, entry) of (Some ex, Some (Some disk)) \<Rightarrow> disk \<noteq> ex | _ \<Rightarrow> False) then (RefusedRow (the entry), w1)
        else case rv_rename V npid (rw_env w1) of (ok, e2) \<Rightarrow> (if ok then TombstonedRow else AbsentRow, rw_note (Renamed npid ok) e2 w1))"

datatype Rung4Outcome =
    Rung4Recovered string int
  | AbortedIdentityMismatch
  | AbortedReusedPidRow "int option"
  | SpawnFailed string
  | SuccessorUnconfirmed string int
  | Rung4Error

partial_function (option) confirm_loop ::
  "'e REnv \<Rightarrow> RecoveryRow \<Rightarrow> string \<Rightarrow> int \<Rightarrow> int \<Rightarrow> nat \<Rightarrow> 'e RWorld \<Rightarrow> (Rung4Outcome \<times> 'e RWorld) option"
where
  "confirm_loop V row sid npid deadline poll w =
     (case rv_confirm V npid sid (rw_env w) of (ready, e) \<Rightarrow>
        let w1 = w\<lparr>rw_env := e\<rparr> in
        if ready
        then (case write_recovery_row V (row\<lparr>rr_phase := PhaseIdle, ladder_state := LadderIdle, consecutive_failures := 0\<rparr>) w1 of
                (ok, w2) \<Rightarrow> Some (if ok then Rung4Recovered sid npid else Rung4Error, w2))
        else (case rv_now V (rw_env w1) of (t, e2) \<Rightarrow>
                let w2 = w1\<lparr>rw_env := e2\<rparr> in
                if deadline \<le> t then Some (SuccessorUnconfirmed sid npid, w2)
                else confirm_loop V row sid npid deadline poll (w2\<lparr>rw_env := rv_sleep V poll (rw_env w2)\<rparr>)))"

definition rung4_confirm :: "'e REnv \<Rightarrow> RecoveryRow \<Rightarrow> string \<Rightarrow> int \<Rightarrow> nat \<Rightarrow> nat \<Rightarrow> 'e RWorld \<Rightarrow> (Rung4Outcome \<times> 'e RWorld) option" where
  "rung4_confirm V row sid npid budget poll w =
     (case write_recovery_row V (row\<lparr>rr_phase := Confirming\<rparr>) w of (ok, w1) \<Rightarrow>
        if \<not> ok then Some (Rung4Error, w1)
        else case rv_now V (rw_env w1) of (t, e) \<Rightarrow>
          confirm_loop V (row\<lparr>rr_phase := Confirming\<rparr>) sid npid (t + int budget) poll (w1\<lparr>rw_env := e\<rparr>))"

definition rung4_spawn :: "'e REnv \<Rightarrow> RecoveryRow \<Rightarrow> nat \<Rightarrow> nat \<Rightarrow> 'e RWorld \<Rightarrow> (Rung4Outcome \<times> 'e RWorld) option" where
  "rung4_spawn V row budget poll w =
     (case rv_mint V (rw_env w) of
        (None, e) \<Rightarrow> Some (Rung4Error, rw_note (Minted None) e w)
      | (Some sid, e) \<Rightarrow>
          let row = row\<lparr>new_session_id := Some sid, rr_phase := Spawning\<rparr> in
          case write_recovery_row V row (rw_note (Minted (Some sid)) e w) of (ok, w1) \<Rightarrow>
            if \<not> ok then Some (Rung4Error, w1)
            else case rv_spawn V sid (rw_env w1) of (npid, e2) \<Rightarrow>
              let w2 = rw_note (SpawnedAs sid npid) e2 w1 in
              case npid of None \<Rightarrow> Some (SpawnFailed sid, w2) | Some p \<Rightarrow> rung4_confirm V row sid p budget poll w2)"

definition rung4_abort :: "'e REnv \<Rightarrow> RecoveryRow \<Rightarrow> Rung4Outcome \<Rightarrow> 'e RWorld \<Rightarrow> (Rung4Outcome \<times> 'e RWorld) option" where
  "rung4_abort V row oc w =
     (case write_recovery_row V (row\<lparr>rr_phase := PhaseIdle, ladder_state := LadderIdle\<rparr>) w of (ok, w1) \<Rightarrow> Some (if ok then oc else Rung4Error, w1))"

definition rung4_kill ::
  "'e REnv \<Rightarrow> RecoveryRow \<Rightarrow> int \<Rightarrow> int option \<Rightarrow> nat \<Rightarrow> nat \<Rightarrow> 'e RWorld \<Rightarrow> (Rung4Outcome \<times> 'e RWorld) option"
where
  "rung4_kill V row npid started_at budget poll w =
     (case rv_kill V npid (rw_env w) of (res, e) \<Rightarrow>
        let w1 = rw_note (KilledPid npid res) e w in
        if res = KillError then Some (Rung4Error, w1)
        else case tombstone_guarded V npid started_at w1 of
          (RefusedRow disk, w2) \<Rightarrow> rung4_abort V row (AbortedReusedPidRow disk) w2
        | (_, w2) \<Rightarrow>
            let row = row\<lparr>rr_phase := Tombstoned\<rparr> in
            case write_recovery_row V row w2 of (ok, w3) \<Rightarrow>
              if \<not> ok then Some (Rung4Error, w3) else rung4_spawn V row budget poll w3)"

definition execute_rung4 ::
  "'e REnv \<Rightarrow> RecoveryRow \<Rightarrow> ProcIdentity \<Rightarrow> int option \<Rightarrow> nat \<Rightarrow> nat \<Rightarrow> 'e RWorld \<Rightarrow> (Rung4Outcome \<times> 'e RWorld) option"
where
  "execute_rung4 V row0 old started_at budget poll w0 =
     (let row = row0\<lparr>ladder_state := Running Respawn, rr_phase := Killing, old_identity := Some old\<rparr> in
      case write_recovery_row V row w0 of (ok, w1) \<Rightarrow>
        if \<not> ok then Some (Rung4Error, w1)
        else case rv_start_ms V (id_pid old) (rw_env w1) of (cur, e) \<Rightarrow>
          let w2 = rw_note (Fenced (id_pid old) cur) e w1 in
          if (case cur of None \<Rightarrow> False | Some c \<Rightarrow> START_TIME_SLACK_MS < \<bar>c - id_start_ms old\<bar>)
          then rung4_abort V row AbortedIdentityMismatch w2
          else rung4_kill V row (id_pid old) started_at budget poll w2)"

subsection \<open>One session\<close>

record SessionObs =
  ob_live :: LifecycleState
  ob_status :: SessionStatus
  signal_a_stuck :: bool
  signal_b_stale :: bool
  signal_b_harness_live :: bool
  daemon_state :: DaemonLiveness
  is_headless :: bool
  connect_ok :: "bool option"
  is_dead_dangling :: bool
  should_be_running :: bool
  obs_now_ms :: int

datatype LadderDecision = NoAction | ArmLadder Rung Rung

definition evaluate_session :: "SessionObs \<Rightarrow> LadderDecision" where
  "evaluate_session obs =
     (let health = classify_health (ob_live obs) (ob_status obs) (signal_a_stuck obs) (signal_b_stale obs) (daemon_state obs) (is_headless obs)
            (obs_now_ms obs);
          ceil = ladder_ceiling (signal_b_harness_live obs)
      in case ladder_trigger health (connect_ok obs) (is_dead_dangling obs) (should_be_running obs) of
           NoTrigger \<Rightarrow> NoAction
         | TriggerArm \<Rightarrow> ArmLadder PidfdSignal ceil
         | EnterAtRespawn \<Rightarrow> ArmLadder (cap_rung Respawn (signal_b_harness_live obs)) ceil)"

subsection \<open>A pass of the coordinator\<close>

record PassReport =
  heartbeat :: nat
  rows_seen :: nat
  leases_stolen :: nat
  fenced_out :: nat
  successors_cleared :: nat
  resumed :: nat
  crit_rows :: nat
  corrupt_skipped :: nat

definition pass_report_new :: "nat \<Rightarrow> PassReport" where
  "pass_report_new hb =
     \<lparr>heartbeat = hb, rows_seen = 0, leases_stolen = 0, fenced_out = 0, successors_cleared = 0, resumed = 0, crit_rows = 0, corrupt_skipped = 0\<rparr>"

text \<open>
  The directory of rows by session id; \<open>Some None\<close> is a file that does not parse. \<open>ok\<close> says which writes
  succeed, \<open>probe\<close> answers for the liveness locks. A row is written under the id it carries. The last
  part of the state is the \<open>recovery-crit\<close> events emitted, with the count of failures.
\<close>

type_synonym rowdir = "string \<rightharpoonup> RecoveryRow option"

type_synonym pass_state = "rowdir \<times> PassReport \<times> (string \<times> nat) list"

definition read_recovery_row :: "rowdir \<Rightarrow> string \<Rightarrow> RecoveryRow option" where
  "read_recovery_row m i = (case m i of Some (Some row) \<Rightarrow> Some row | _ \<Rightarrow> None)"

definition put_row :: "(string \<Rightarrow> bool) \<Rightarrow> RecoveryRow \<Rightarrow> rowdir \<Rightarrow> rowdir" where
  "put_row ok row m = (if ok (rr_session_id row) then m(rr_session_id row \<mapsto> Some row) else m)"

definition coordinator_row ::
  "nat \<Rightarrow> int \<Rightarrow> (string \<Rightarrow> LockProbe) \<Rightarrow> (string \<Rightarrow> bool) \<Rightarrow> string \<Rightarrow> pass_state \<Rightarrow> pass_state"
where
  "coordinator_row mine now probe ok i st =
     (case st of (m, rep, evs) \<Rightarrow>
      case read_recovery_row m i of
        None \<Rightarrow> (m, rep\<lparr>corrupt_skipped := corrupt_skipped rep + 1\<rparr>, evs)
      | Some row \<Rightarrow>
          let rep = rep\<lparr>rows_seen := rows_seen rep + 1\<rparr> in
          if \<not> can_acquire_lease (ladder_owner row) mine now then (m, rep\<lparr>fenced_out := fenced_out rep + 1\<rparr>, evs)
          else
            let rep = (case ladder_owner row of
                         Some o' \<Rightarrow> if is_expired o' now \<and> coordinator_incarnation o' \<noteq> mine then rep\<lparr>leases_stolen := leases_stolen rep + 1\<rparr> else rep
                       | None \<Rightarrow> rep) in
            if CRIT_CONSECUTIVE_FAILURES \<le> consecutive_failures row
            then let rep = rep\<lparr>crit_rows := crit_rows rep + 1\<rparr> in
                 if ladder_state row \<noteq> Crit
                 then (put_row ok (row\<lparr>ladder_state := Crit\<rparr>) m, rep, evs @ [(i, consecutive_failures row)])
                 else (m, rep, evs)
            else let successor_healthy = (case new_session_id row of Some n \<Rightarrow> \<not> probe_dead (probe n) | None \<Rightarrow> False) in
                 case resume_action row successor_healthy of
                   SuccessorHealthy \<Rightarrow>
                     (put_row ok (row\<lparr>ladder_state := LadderIdle, rr_phase := PhaseIdle, ladder_owner := None\<rparr>) m,
                      rep\<lparr>successors_cleared := successors_cleared rep + 1\<rparr>, evs)
                 | ResumeCold \<Rightarrow> (m, rep, evs)
                 | _ \<Rightarrow> (m, rep\<lparr>resumed := resumed rep + 1\<rparr>, evs))"

text \<open>Which names of the directory are rows; temporary files start with a dot.\<close>

definition row_session :: "string \<Rightarrow> string option" where
  "row_session name =
     (if drop (length name - 5) name = ''.json''
      then let i = take (length name - 5) name in
           if i \<noteq> [] \<and> hd i = CHR ''.'' \<or> i = ''coordinator.heartbeat'' then None else Some i
      else None)"

fun coordinator_rows ::
  "nat \<Rightarrow> int \<Rightarrow> (string \<Rightarrow> LockProbe) \<Rightarrow> (string \<Rightarrow> bool) \<Rightarrow> string list \<Rightarrow> pass_state \<Rightarrow> pass_state"
where
  "coordinator_rows mine now probe ok [] st = st"
| "coordinator_rows mine now probe ok (name # names) st =
     (case row_session name of
        None \<Rightarrow> coordinator_rows mine now probe ok names st
      | Some i \<Rightarrow> coordinator_rows mine now probe ok names (coordinator_row mine now probe ok i st))"

text \<open>The counter is a \<open>u64\<close> that saturates; a heartbeat that cannot be written ends the pass at once.\<close>

definition coordinator_pass ::
  "nat \<Rightarrow> nat \<Rightarrow> int \<Rightarrow> bool \<Rightarrow> (string \<Rightarrow> LockProbe) \<Rightarrow> (string \<Rightarrow> bool) \<Rightarrow> string list \<Rightarrow> rowdir \<Rightarrow> pass_state option"
where
  "coordinator_pass mine prev_heartbeat now beat_ok probe ok names m =
     (if beat_ok
      then Some (coordinator_rows mine now probe ok names (m, pass_report_new (min (prev_heartbeat + 1) (2 ^ 64 - 1)), []))
      else None)"

end
