(* ===== verification/Recovery_Inv.thy ===== *)
theory Recovery_Inv
  imports Recovery
begin

text \<open>
  What the destructive rung does at most, what a coordinator that restarts makes of any point at
  which it was interrupted, and what a pass of the coordinator changes.
\<close>

subsection \<open>The discipline of a log\<close>

fun durable_row :: "RecoveryRow \<Rightarrow> REv list \<Rightarrow> RecoveryRow" where
  "durable_row r [] = r"
| "durable_row r (RowWritten x ok # es) = durable_row (if ok then x else r) es"
| "durable_row r (_ # es) = durable_row r es"

fun spawned_id :: "string option \<Rightarrow> REv list \<Rightarrow> string option" where
  "spawned_id sp [] = sp"
| "spawned_id sp (SpawnedAs i p # es) = spawned_id (Some i) es"
| "spawned_id sp (_ # es) = spawned_id sp es"

text \<open>
  Whether a kill is still to come: the identity is unchecked; it was not refuted, since the start time
  that was read agrees or none could be read; or it was refuted, or used.
\<close>

datatype fence = Unchecked | Unrefuted | Spent

definition check_fence :: "ProcIdentity \<Rightarrow> int option \<Rightarrow> fence" where
  "check_fence old cur =
     (case cur of None \<Rightarrow> Unrefuted | Some c \<Rightarrow> if START_TIME_SLACK_MS < \<bar>c - id_start_ms old\<bar> then Spent else Unrefuted)"

fun fence_after :: "ProcIdentity \<Rightarrow> fence \<Rightarrow> REv list \<Rightarrow> fence" where
  "fence_after old fc [] = fc"
| "fence_after old fc (Fenced p cur # es) = fence_after old (check_fence old cur) es"
| "fence_after old fc (KilledPid p r # es) = fence_after old Spent es"
| "fence_after old fc (_ # es) = fence_after old fc es"

definition row_after_spawn :: "string \<Rightarrow> RecoveryRow \<Rightarrow> bool" where
  "row_after_spawn i row \<longleftrightarrow>
     new_session_id row = Some i \<and> (rr_phase row \<in> {Spawning, Confirming} \<or> rr_phase row = PhaseIdle \<and> ladder_state row = LadderIdle)"

text \<open>
  Walked with the durable row \<open>d\<close>, the spawned successor \<open>sp\<close> and the state of the fence: a kill needs an
  identity that was not refuted and the durable intent for it, a spawn the durable id of the successor, and after
  a spawn every row keeps that id and goes forward.
\<close>

fun disciplined :: "ProcIdentity \<Rightarrow> fence \<Rightarrow> string option \<Rightarrow> RecoveryRow \<Rightarrow> REv list \<Rightarrow> bool" where
  "disciplined old fc sp d [] = True"
| "disciplined old fc sp d (RowWritten row ok # es) =
     ((case sp of None \<Rightarrow> True | Some i \<Rightarrow> row_after_spawn i row) \<and> disciplined old fc sp (if ok then row else d) es)"
| "disciplined old fc sp d (Fenced p cur # es) =
     (fc = Unchecked \<and> p = id_pid old \<and> disciplined old (check_fence old cur) sp d es)"
| "disciplined old fc sp d (KilledPid p r # es) =
     (fc = Unrefuted \<and> sp = None \<and> p = id_pid old \<and> rr_phase d = Killing \<and> old_identity d = Some old \<and> disciplined old Spent sp d es)"
| "disciplined old fc sp d (Renamed p ok # es) = (fc = Spent \<and> p = id_pid old \<and> sp = None \<and> disciplined old fc sp d es)"
| "disciplined old fc sp d (Minted m # es) = (fc = Spent \<and> sp = None \<and> disciplined old fc sp d es)"
| "disciplined old fc sp d (SpawnedAs i p # es) =
     (fc = Spent \<and> sp = None \<and> rr_phase d = Spawning \<and> new_session_id d = Some i \<and> disciplined old fc (Some i) d es)"

lemma disciplined_append:
  "disciplined old fc sp d (a @ b) \<longleftrightarrow>
     disciplined old fc sp d a \<and> disciplined old (fence_after old fc a) (spawned_id sp a) (durable_row d a) b"
  by (induction old fc sp d a rule: disciplined.induct) auto

lemma disciplined_take: "disciplined old fc sp d es \<Longrightarrow> disciplined old fc sp d (take n es)"
  using disciplined_append [of old fc sp d "take n es" "drop n es"] by simp

lemma durable_after_spawn:
  assumes "disciplined old fc sp d es" "\<forall>j. sp = Some j \<longrightarrow> row_after_spawn j d" "spawned_id sp es = Some i"
  shows "row_after_spawn i (durable_row d es)"
  using assms
  by (induction old fc sp d es rule: disciplined.induct) (auto simp: row_after_spawn_def split: option.splits)

definition kills :: "REv list \<Rightarrow> int list" where
  "kills es = List.map_filter (\<lambda>e. case e of KilledPid p r \<Rightarrow> Some p | _ \<Rightarrow> None) es"

lemma kills_at_most_one:
  "disciplined old fc sp d es \<Longrightarrow> kills es = [] \<or> fc \<noteq> Spent \<and> kills es = [id_pid old]"
proof (induction old fc sp d es rule: disciplined.induct)
  case (3 old fc sp d p cur es)
  then show ?case by (auto simp: kills_def List.map_filter_simps)
qed (auto simp: kills_def List.map_filter_simps)

lemma resume_after_spawn:
  assumes "row_after_spawn i row"
  shows "resume_action row healthy \<in> {if healthy then SuccessorHealthy else ReverifySuccessor i, ResumeCold}"
  using assms by (auto simp: row_after_spawn_def resume_action_def)

subsection \<open>The destructive rung keeps it\<close>

lemma write_row: "write_recovery_row V row w = (ok, w1) \<Longrightarrow> rw_log w1 = rw_log w @ [RowWritten row ok]"
  by (auto simp: write_recovery_row_def rw_note_def split: prod.splits)

abbreviation confirmed_row :: "RecoveryRow \<Rightarrow> RecoveryRow" where
  "confirmed_row row \<equiv> row\<lparr>rr_phase := PhaseIdle, ladder_state := LadderIdle, consecutive_failures := 0\<rparr>"

lemma confirm_loop_result:
  "confirm_loop V row sid np deadline poll w = Some y \<Longrightarrow>
   fst y = SuccessorUnconfirmed sid np \<and> rw_log (snd y) = rw_log w
   \<or> (\<exists>ok. fst y = (if ok then Rung4Recovered sid np else Rung4Error) \<and> rw_log (snd y) = rw_log w @ [RowWritten (confirmed_row row) ok])"
proof (induction rule: confirm_loop.raw_induct [rotated, consumes 1, case_names step])
  case (step loop V row sid np deadline poll w y)
  obtain ready e where c: "rv_confirm V np sid (rw_env w) = (ready, e)" by fastforce
  obtain t e2 where t: "rv_now V e = (t, e2)" by fastforce
  obtain ok w2 where wr: "write_recovery_row V (confirmed_row row) (w\<lparr>rw_env := e\<rparr>) = (ok, w2)" by fastforce
  consider "ready" | "\<not> ready" "deadline \<le> t" | "\<not> ready" "\<not> deadline \<le> t" by blast
  then show ?case
  proof cases
    case 1
    then have "y = (if ok then Rung4Recovered sid np else Rung4Error, w2)" using step(2) c wr by simp
    then show ?thesis using write_row [OF wr] by (intro disjI2 exI [of _ ok]) simp
  next
    case 2
    then have "y = (SuccessorUnconfirmed sid np, w\<lparr>rw_env := e2\<rparr>)" using step(2) c t by simp
    then show ?thesis by simp
  next
    case 3
    then have "loop V row sid np deadline poll (w\<lparr>rw_env := rv_sleep V poll e2\<rparr>) = Some y" using step(2) c t by simp
    from step(1) [OF this] show ?thesis by simp
  qed
qed

text \<open>What \<open>rung4_confirm\<close> adds: the row that says so, and perhaps the row that ends the rung.\<close>

lemma confirm_result:
  assumes "rung4_confirm V row sid np budget poll w = Some (oc, w')"
  obtains "oc = Rung4Error" "rw_log w' = rw_log w @ [RowWritten (row\<lparr>rr_phase := Confirming\<rparr>) False]"
  | "oc = SuccessorUnconfirmed sid np" "rw_log w' = rw_log w @ [RowWritten (row\<lparr>rr_phase := Confirming\<rparr>) True]"
  | ok where "oc = (if ok then Rung4Recovered sid np else Rung4Error)"
    "rw_log w' = rw_log w @ [RowWritten (row\<lparr>rr_phase := Confirming\<rparr>) True, RowWritten (confirmed_row row) ok]"
proof -
  let ?row = "row\<lparr>rr_phase := Confirming\<rparr>"
  obtain ok w1 where wr: "write_recovery_row V ?row w = (ok, w1)" by fastforce
  obtain t e where t: "rv_now V (rw_env w1) = (t, e)" by fastforce
  show thesis
  proof (cases ok)
    case False
    then show ?thesis using that(1) assms wr write_row [OF wr] by (simp add: rung4_confirm_def)
  next
    case True
    then have "confirm_loop V ?row sid np (t + int budget) poll (w1\<lparr>rw_env := e\<rparr>) = Some (oc, w')"
      using assms wr t by (simp add: rung4_confirm_def)
    from confirm_loop_result [OF this] show ?thesis
    proof
      assume "fst (oc, w') = SuccessorUnconfirmed sid np \<and> rw_log (snd (oc, w')) = rw_log (w1\<lparr>rw_env := e\<rparr>)"
      then show ?thesis using that(2) write_row [OF wr] True by simp
    next
      assume "\<exists>ok. fst (oc, w') = (if ok then Rung4Recovered sid np else Rung4Error)
        \<and> rw_log (snd (oc, w')) = rw_log (w1\<lparr>rw_env := e\<rparr>) @ [RowWritten (confirmed_row ?row) ok]"
      then obtain ok' where "oc = (if ok' then Rung4Recovered sid np else Rung4Error)"
        "rw_log w' = rw_log w1 @ [RowWritten (confirmed_row ?row) ok']" by auto
      then show ?thesis using that(3) write_row [OF wr] True by simp
    qed
  qed
qed

text \<open>What one part of the rung adds to the log, from a state that \<open>disciplined\<close> describes.\<close>

definition adds :: "ProcIdentity \<Rightarrow> fence \<Rightarrow> string option \<Rightarrow> RecoveryRow \<Rightarrow> 'e RWorld \<Rightarrow> 'e RWorld \<Rightarrow> bool" where
  "adds old fc sp d w w' \<longleftrightarrow> (\<exists>es. rw_log w' = rw_log w @ es \<and> disciplined old fc sp d es)"

lemma adds_refl: "rw_log w' = rw_log w \<Longrightarrow> adds old fc sp d w w'"
  unfolding adds_def by (rule exI [of _ "[]"]) simp

lemma adds_many: "rw_log w' = rw_log w @ es \<Longrightarrow> disciplined old fc sp d es \<Longrightarrow> adds old fc sp d w w'"
  unfolding adds_def by blast

lemma adds_one: "rw_log w' = rw_log w @ [ev] \<Longrightarrow> disciplined old fc sp d [ev] \<Longrightarrow> adds old fc sp d w w'"
  unfolding adds_def by blast

lemma adds_cons:
  assumes "rw_log w1 = rw_log w @ [ev]" "disciplined old fc sp d [ev]"
    "adds old (fence_after old fc [ev]) (spawned_id sp [ev]) (durable_row d [ev]) w1 w'"
  shows "adds old fc sp d w w'"
proof -
  from assms(3) obtain es where "rw_log w' = rw_log w1 @ es"
    "disciplined old (fence_after old fc [ev]) (spawned_id sp [ev]) (durable_row d [ev]) es" unfolding adds_def by blast
  then have "rw_log w' = rw_log w @ ([ev] @ es)" "disciplined old fc sp d ([ev] @ es)"
    using assms(1,2) by (simp_all only: disciplined_append append.assoc)
  then show ?thesis unfolding adds_def by blast
qed

lemma adds_from: "rw_log w1 = rw_log w \<Longrightarrow> adds old fc sp d w1 w' \<Longrightarrow> adds old fc sp d w w'"
  by (simp add: adds_def)

lemma confirm_adds:
  assumes "rung4_confirm V row sid np budget poll w = Some (oc, w')" "new_session_id row = Some sid"
  shows "adds old Spent (Some sid) d w w'"
  using assms(1)
proof (rule confirm_result)
  assume "rw_log w' = rw_log w @ [RowWritten (row\<lparr>rr_phase := Confirming\<rparr>) False]"
  then show ?thesis by (rule adds_many) (simp add: row_after_spawn_def assms(2))
next
  assume "rw_log w' = rw_log w @ [RowWritten (row\<lparr>rr_phase := Confirming\<rparr>) True]"
  then show ?thesis by (rule adds_many) (simp add: row_after_spawn_def assms(2))
next
  fix ok assume "rw_log w' = rw_log w @ [RowWritten (row\<lparr>rr_phase := Confirming\<rparr>) True, RowWritten (confirmed_row row) ok]"
  then show ?thesis by (rule adds_many) (simp add: row_after_spawn_def assms(2))
qed

lemma spawn_adds:
  assumes "rung4_spawn V row budget poll w = Some (oc, w')"
  shows "adds old Spent None d w w'"
proof -
  obtain m e where m: "rv_mint V (rw_env w) = (m, e)" by fastforce
  show ?thesis
  proof (cases m)
    case None
    then show ?thesis using assms m by (auto simp: rung4_spawn_def rw_note_def intro: adds_one [of _ _ "Minted None"])
  next
    case (Some sid)
    let ?row = "row\<lparr>new_session_id := Some sid, rr_phase := Spawning\<rparr>"
    let ?w0 = "rw_note (Minted (Some sid)) e w"
    obtain ok w1 where wr: "write_recovery_row V ?row ?w0 = (ok, w1)" by fastforce
    have log0: "rw_log ?w0 = rw_log w @ [Minted (Some sid)]" by (simp add: rw_note_def)
    have log1: "rw_log w1 = rw_log ?w0 @ [RowWritten ?row ok]" by (rule write_row [OF wr])
    obtain np e2 where sp: "rv_spawn V sid (rw_env w1) = (np, e2)" by fastforce
    let ?w2 = "rw_note (SpawnedAs sid np) e2 w1"
    have "adds old Spent None ?row w1 w'" if ok
    proof (rule adds_cons [of ?w2])
      show "rw_log ?w2 = rw_log w1 @ [SpawnedAs sid np]" by (simp add: rw_note_def)
      show "disciplined old Spent None ?row [SpawnedAs sid np]" by simp
      have "(case np of None \<Rightarrow> Some (SpawnFailed sid, ?w2) | Some p \<Rightarrow> rung4_confirm V ?row sid p budget poll ?w2) = Some (oc, w')"
        using assms m Some wr sp that by (simp add: rung4_spawn_def Let_def)
      then show "adds old (fence_after old Spent [SpawnedAs sid np]) (spawned_id None [SpawnedAs sid np]) (durable_row ?row [SpawnedAs sid np]) ?w2 w'"
        by (cases np) (auto intro: adds_refl confirm_adds)
    qed
    then have "adds old Spent None d ?w0 w'"
      using assms m Some wr adds_one [OF log1] adds_cons [OF log1, of old Spent None d w']
      by (cases ok) (simp_all add: rung4_spawn_def Let_def)
    then show ?thesis by (intro adds_cons [OF log0]) simp_all
  qed
qed

lemma abort_adds:
  assumes "rung4_abort V row oc' w = Some (oc, w')"
  shows "adds old fc None d w w'"
proof -
  obtain ok w1 where wr: "write_recovery_row V (row\<lparr>rr_phase := PhaseIdle, ladder_state := LadderIdle\<rparr>) w = (ok, w1)" by fastforce
  then show ?thesis using assms adds_one [OF write_row [OF wr]] by (simp add: rung4_abort_def)
qed

lemma tombstone_log:
  assumes "tombstone_guarded V np ex w = (x, w1)"
  shows "(\<exists>disk. x = RefusedRow disk) \<and> rw_log w1 = rw_log w \<or> (\<forall>disk. x \<noteq> RefusedRow disk) \<and> (\<exists>ok. rw_log w1 = rw_log w @ [Renamed np ok])"
  using assms by (auto simp: tombstone_guarded_def Let_def rw_note_def split: prod.splits if_splits)

lemma kill_adds:
  assumes "rung4_kill V row (id_pid old) started_at budget poll w = Some (oc, w')" "rr_phase row = Killing" "old_identity row = Some old"
  shows "adds old Unrefuted None row w w'"
proof -
  obtain res e where k: "rv_kill V (id_pid old) (rw_env w) = (res, e)" by fastforce
  let ?w1 = "rw_note (KilledPid (id_pid old) res) e w"
  have log1: "rw_log ?w1 = rw_log w @ [KilledPid (id_pid old) res]" by (simp add: rw_note_def)
  obtain x w2 where tg: "tombstone_guarded V (id_pid old) started_at ?w1 = (x, w2)" by fastforce
  let ?row = "row\<lparr>rr_phase := Tombstoned\<rparr>"
  obtain ok w3 where wr: "write_recovery_row V ?row w2 = (ok, w3)" by fastforce
  have "adds old Spent None row ?w1 w'"
  proof (cases "res = KillError")
    case True
    then show ?thesis using assms(1) k by (auto simp: rung4_kill_def Let_def intro: adds_refl)
  next
    case False
    from tombstone_log [OF tg] consider disk where "x = RefusedRow disk" "rw_log w2 = rw_log ?w1"
      | ok' where "\<forall>disk. x \<noteq> RefusedRow disk" "rw_log w2 = rw_log ?w1 @ [Renamed (id_pid old) ok']" by blast
    then show ?thesis
    proof cases
      case 1
      then have "rung4_abort V row (AbortedReusedPidRow disk) w2 = Some (oc, w')" using assms(1) k tg False by (simp add: rung4_kill_def Let_def)
      then show ?thesis using abort_adds adds_from [OF 1(2)] by blast
    next
      case 2
      then have rest: "(if \<not> ok then Some (Rung4Error, w3) else rung4_spawn V ?row budget poll w3) = Some (oc, w')"
        using assms(1) k tg wr False by (cases x) (simp_all add: rung4_kill_def Let_def)
      have "adds old Spent None row w2 w'"
        using rest spawn_adds [of V ?row budget poll w3 oc w' old ?row] adds_one [OF write_row [OF wr]]
          adds_cons [OF write_row [OF wr], of old Spent None row w']
        by (cases ok) simp_all
      then show ?thesis by (intro adds_cons [OF 2(2)]) simp_all
    qed
  qed
  then show ?thesis using assms(2,3) by (intro adds_cons [OF log1]) simp_all
qed

lemma rung4_adds:
  assumes "execute_rung4 V row0 old started_at budget poll w0 = Some (oc, w')"
  shows "adds old Unchecked None row0 w0 w'"
proof -
  let ?row = "row0\<lparr>ladder_state := Running Respawn, rr_phase := Killing, old_identity := Some old\<rparr>"
  obtain ok w1 where wr: "write_recovery_row V ?row w0 = (ok, w1)" by fastforce
  obtain cur e where f: "rv_start_ms V (id_pid old) (rw_env w1) = (cur, e)" by fastforce
  let ?w2 = "rw_note (Fenced (id_pid old) cur) e w1"
  let ?bad = "case cur of None \<Rightarrow> False | Some c \<Rightarrow> START_TIME_SLACK_MS < \<bar>c - id_start_ms old\<bar>"
  have log2: "rw_log ?w2 = rw_log w1 @ [Fenced (id_pid old) cur]" by (simp add: rw_note_def)
  have "adds old Unchecked None ?row w1 w'" if ok
  proof (rule adds_cons [OF log2])
    have rest: "(if ?bad then rung4_abort V ?row AbortedIdentityMismatch ?w2 else rung4_kill V ?row (id_pid old) started_at budget poll ?w2) = Some (oc, w')"
      using assms wr f that by (simp add: execute_rung4_def Let_def)
    show "adds old (fence_after old Unchecked [Fenced (id_pid old) cur]) (spawned_id None [Fenced (id_pid old) cur]) (durable_row ?row [Fenced (id_pid old) cur]) ?w2 w'"
    proof (cases ?bad)
      case True
      then have "check_fence old cur = Spent" by (cases cur) (simp_all add: check_fence_def)
      then show ?thesis using rest True abort_adds [of V ?row _ ?w2 oc w' old Spent ?row] by simp
    next
      case False
      then have "check_fence old cur = Unrefuted" by (cases cur) (simp_all add: check_fence_def)
      then show ?thesis using rest False kill_adds [of V ?row old] by simp
    qed
  qed simp
  then show ?thesis using assms wr adds_one [OF write_row [OF wr]] adds_cons [OF write_row [OF wr], of old Unchecked None row0 w']
    by (cases ok) (simp_all add: execute_rung4_def Let_def)
qed

text \<open>Where the identity was not refuted the start time was asked for, and it agreed if there was one.\<close>

lemma fence_unrefuted:
  assumes "disciplined old fc sp d es" "fence_after old fc es = Unrefuted" "fc \<noteq> Unrefuted"
  shows "\<exists>cur. Fenced (id_pid old) cur \<in> set es \<and> (\<forall>t. cur = Some t \<longrightarrow> \<bar>t - id_start_ms old\<bar> \<le> START_TIME_SLACK_MS)"
  using assms
proof (induction old fc sp d es rule: disciplined.induct)
  case (3 old fc sp d p cur es)
  show ?case
  proof (cases "check_fence old cur = Unrefuted")
    case True
    then have "\<forall>t. cur = Some t \<longrightarrow> \<bar>t - id_start_ms old\<bar> \<le> START_TIME_SLACK_MS" by (cases cur) (simp_all add: check_fence_def split: if_splits)
    then show ?thesis using 3(2) by auto
  next
    case False
    then show ?thesis using 3 by auto
  qed
qed auto

lemma kill_guard:
  assumes "disciplined old Unchecked None d (a @ KilledPid p r # b)"
  shows "p = id_pid old" "rr_phase (durable_row d a) = Killing" "old_identity (durable_row d a) = Some old"
    "\<exists>cur. Fenced (id_pid old) cur \<in> set a \<and> (\<forall>t. cur = Some t \<longrightarrow> \<bar>t - id_start_ms old\<bar> \<le> START_TIME_SLACK_MS)"
  using assms fence_unrefuted [of old Unchecked None d a] by (simp_all add: disciplined_append)

subsection \<open>What an outcome says\<close>

text \<open>
  The log of a whole run, for each outcome. Each rule is one way through the rung; an error is the outcome
  of the run whose last call failed, and then all calls before it went well.
\<close>

definition killing_row :: "RecoveryRow \<Rightarrow> ProcIdentity \<Rightarrow> RecoveryRow" where
  "killing_row row0 old = row0\<lparr>ladder_state := Running Respawn, rr_phase := Killing, old_identity := Some old\<rparr>"

definition idle_row :: "RecoveryRow \<Rightarrow> RecoveryRow" where
  "idle_row row = row\<lparr>rr_phase := PhaseIdle, ladder_state := LadderIdle\<rparr>"

definition spawning_row :: "string \<Rightarrow> RecoveryRow \<Rightarrow> RecoveryRow" where
  "spawning_row sid row = row\<lparr>new_session_id := Some sid, rr_phase := Spawning\<rparr>"

definition refutes :: "ProcIdentity \<Rightarrow> int option \<Rightarrow> bool" where
  "refutes old cur = (case cur of None \<Rightarrow> False | Some c \<Rightarrow> START_TIME_SLACK_MS < \<bar>c - id_start_ms old\<bar>)"

inductive spawn_run :: "RecoveryRow \<Rightarrow> Rung4Outcome \<Rightarrow> REv list \<Rightarrow> bool" for row where
  mint_failed: "spawn_run row Rung4Error [Minted None]"
| spawning_unwritten: "spawn_run row Rung4Error [Minted (Some sid), RowWritten (spawning_row sid row) False]"
| spawn_failed: "spawn_run row (SpawnFailed sid) [Minted (Some sid), RowWritten (spawning_row sid row) True, SpawnedAs sid None]"
| confirming_unwritten: "spawn_run row Rung4Error
    [Minted (Some sid), RowWritten (spawning_row sid row) True, SpawnedAs sid (Some p),
     RowWritten ((spawning_row sid row)\<lparr>rr_phase := Confirming\<rparr>) False]"
| unconfirmed: "spawn_run row (SuccessorUnconfirmed sid p)
    [Minted (Some sid), RowWritten (spawning_row sid row) True, SpawnedAs sid (Some p),
     RowWritten ((spawning_row sid row)\<lparr>rr_phase := Confirming\<rparr>) True]"
| confirmed: "spawn_run row (if ok then Rung4Recovered sid p else Rung4Error)
    [Minted (Some sid), RowWritten (spawning_row sid row) True, SpawnedAs sid (Some p),
     RowWritten ((spawning_row sid row)\<lparr>rr_phase := Confirming\<rparr>) True, RowWritten (confirmed_row (spawning_row sid row)) ok]"

inductive kill_run :: "RecoveryRow \<Rightarrow> int \<Rightarrow> int option \<Rightarrow> Rung4Outcome \<Rightarrow> REv list \<Rightarrow> bool" for row p started_at where
  kill_failed: "kill_run row p started_at Rung4Error [KilledPid p KillError]"
| row_reused: "res \<noteq> KillError \<Longrightarrow> started_at = Some ex \<Longrightarrow> d \<noteq> ex \<Longrightarrow>
    kill_run row p started_at (if ok then AbortedReusedPidRow (Some d) else Rung4Error) [KilledPid p res, RowWritten (idle_row row) ok]"
| tombstone_unwritten: "res \<noteq> KillError \<Longrightarrow>
    kill_run row p started_at Rung4Error [KilledPid p res, Renamed p b, RowWritten (row\<lparr>rr_phase := Tombstoned\<rparr>) False]"
| killed: "res \<noteq> KillError \<Longrightarrow> spawn_run (row\<lparr>rr_phase := Tombstoned\<rparr>) oc es \<Longrightarrow>
    kill_run row p started_at oc ([KilledPid p res, Renamed p b, RowWritten (row\<lparr>rr_phase := Tombstoned\<rparr>) True] @ es)"

inductive rung4_run :: "RecoveryRow \<Rightarrow> ProcIdentity \<Rightarrow> int option \<Rightarrow> Rung4Outcome \<Rightarrow> REv list \<Rightarrow> bool" for row0 old started_at where
  intent_unwritten: "rung4_run row0 old started_at Rung4Error [RowWritten (killing_row row0 old) False]"
| mismatch: "refutes old cur \<Longrightarrow>
    rung4_run row0 old started_at (if ok then AbortedIdentityMismatch else Rung4Error)
      [RowWritten (killing_row row0 old) True, Fenced (id_pid old) cur, RowWritten (idle_row (killing_row row0 old)) ok]"
| unrefuted: "\<not> refutes old cur \<Longrightarrow> kill_run (killing_row row0 old) (id_pid old) started_at oc es \<Longrightarrow>
    rung4_run row0 old started_at oc ([RowWritten (killing_row row0 old) True, Fenced (id_pid old) cur] @ es)"

lemma spawn_log:
  assumes "rung4_spawn V row budget poll w = Some (oc, w')"
  shows "\<exists>es. rw_log w' = rw_log w @ es \<and> spawn_run row oc es"
proof -
  obtain m e where m: "rv_mint V (rw_env w) = (m, e)" by fastforce
  show ?thesis
  proof (cases m)
    case None
    then show ?thesis using assms m by (auto simp: rung4_spawn_def rw_note_def intro: mint_failed)
  next
    case (Some sid)
    let ?row = "spawning_row sid row" and ?w0 = "rw_note (Minted (Some sid)) e w"
    obtain ok w1 where wr: "write_recovery_row V ?row ?w0 = (ok, w1)" by fastforce
    have log1: "rw_log w1 = rw_log w @ [Minted (Some sid), RowWritten ?row ok]" using write_row [OF wr] by (simp add: rw_note_def)
    obtain np e2 where sp: "rv_spawn V sid (rw_env w1) = (np, e2)" by fastforce
    let ?w2 = "rw_note (SpawnedAs sid np) e2 w1"
    have log2: "rw_log ?w2 = rw_log w1 @ [SpawnedAs sid np]" by (simp add: rw_note_def)
    have run: "(if \<not> ok then Some (Rung4Error, w1)
        else case np of None \<Rightarrow> Some (SpawnFailed sid, ?w2) | Some p \<Rightarrow> rung4_confirm V ?row sid p budget poll ?w2) = Some (oc, w')"
      using assms m Some wr sp by (cases ok; cases np) (simp_all add: rung4_spawn_def spawning_row_def Let_def)
    consider "\<not> ok" | "ok" "np = None" | p where "ok" "np = Some p" by (cases np) blast+
    then show ?thesis
    proof cases
      case 3
      then have "rung4_confirm V ?row sid p budget poll ?w2 = Some (oc, w')" using run by simp
      then show ?thesis
        by (rule confirm_result) (use log1 log2 3 in \<open>auto intro: confirming_unwritten unconfirmed confirmed [of row True, simplified] confirmed [of row False, simplified] split: if_splits\<close>)
    qed (use run log1 log2 in \<open>auto intro: spawning_unwritten spawn_failed\<close>)
  qed
qed

lemma abort_log:
  assumes "rung4_abort V row oc' w = Some (oc, w')"
  obtains ok where "oc = (if ok then oc' else Rung4Error)" "rw_log w' = rw_log w @ [RowWritten (idle_row row) ok]"
proof -
  obtain ok w1 where wr: "write_recovery_row V (idle_row row) w = (ok, w1)" by fastforce
  then show thesis using assms write_row [OF wr] by (intro that [of ok]) (simp_all add: rung4_abort_def idle_row_def)
qed

lemma tombstone_refused:
  "tombstone_guarded V p started_at w = (RefusedRow disk, w1) \<Longrightarrow>
     rw_log w1 = rw_log w \<and> (\<exists>ex d. started_at = Some ex \<and> disk = Some d \<and> d \<noteq> ex)"
  by (auto simp: tombstone_guarded_def Let_def split: prod.splits if_splits option.splits)

lemma kill_log:
  assumes "rung4_kill V row p started_at budget poll w = Some (oc, w')"
  shows "\<exists>es. rw_log w' = rw_log w @ es \<and> kill_run row p started_at oc es"
proof -
  obtain res e where k: "rv_kill V p (rw_env w) = (res, e)" by fastforce
  let ?w1 = "rw_note (KilledPid p res) e w"
  have log1: "rw_log ?w1 = rw_log w @ [KilledPid p res]" by (simp add: rw_note_def)
  obtain x w2 where tg: "tombstone_guarded V p started_at ?w1 = (x, w2)" by fastforce
  let ?row = "row\<lparr>rr_phase := Tombstoned\<rparr>"
  obtain ok w3 where wr: "write_recovery_row V ?row w2 = (ok, w3)" by fastforce
  show ?thesis
  proof (cases "res = KillError")
    case True
    then show ?thesis using assms k log1 by (auto simp: rung4_kill_def Let_def intro: kill_failed)
  next
    case False
    from tombstone_log [OF tg] consider disk where "x = RefusedRow disk" "rw_log w2 = rw_log ?w1"
      | b where "\<forall>disk. x \<noteq> RefusedRow disk" "rw_log w2 = rw_log ?w1 @ [Renamed p b]" by blast
    then show ?thesis
    proof cases
      case 1
      then have ab: "rung4_abort V row (AbortedReusedPidRow disk) w2 = Some (oc, w')" using assms k tg False by (simp add: rung4_kill_def Let_def)
      obtain ex d where "started_at = Some ex" "disk = Some d" "d \<noteq> ex" using tombstone_refused [OF tg [unfolded 1(1)]] by blast
      moreover from ab obtain ok where "oc = (if ok then AbortedReusedPidRow disk else Rung4Error)" "rw_log w' = rw_log w2 @ [RowWritten (idle_row row) ok]"
        by (rule abort_log)
      ultimately show ?thesis using row_reused [OF False, of started_at ex d row p ok] 1(2) log1 by auto
    next
      case 2
      then have rest: "(if \<not> ok then Some (Rung4Error, w3) else rung4_spawn V ?row budget poll w3) = Some (oc, w')"
        using assms k tg wr False by (cases x) (simp_all add: rung4_kill_def Let_def)
      have log3: "rw_log w3 = rw_log w @ [KilledPid p res, Renamed p b, RowWritten ?row ok]" using write_row [OF wr] 2(2) log1 by simp
      show ?thesis
      proof (cases ok)
        case True
        then obtain es where "rw_log w' = rw_log w3 @ es" "spawn_run ?row oc es" using rest spawn_log [of V ?row budget poll w3 oc w'] by auto
        then show ?thesis using killed [OF False, of row oc es p started_at b] log3 True by auto
      next
        case False
        then show ?thesis using rest log3 tombstone_unwritten [OF \<open>res \<noteq> KillError\<close>, of row p started_at b] by auto
      qed
    qed
  qed
qed

lemma rung4_log:
  assumes "execute_rung4 V row0 old started_at budget poll w0 = Some (oc, w')"
  shows "\<exists>es. rw_log w' = rw_log w0 @ es \<and> rung4_run row0 old started_at oc es"
proof -
  let ?row = "killing_row row0 old"
  obtain ok w1 where wr: "write_recovery_row V ?row w0 = (ok, w1)" by fastforce
  obtain cur e where f: "rv_start_ms V (id_pid old) (rw_env w1) = (cur, e)" by fastforce
  let ?w2 = "rw_note (Fenced (id_pid old) cur) e w1"
  have log2: "rw_log ?w2 = rw_log w1 @ [Fenced (id_pid old) cur]" by (simp add: rw_note_def)
  have run: "(if \<not> ok then Some (Rung4Error, w1)
      else if refutes old cur then rung4_abort V ?row AbortedIdentityMismatch ?w2
      else rung4_kill V ?row (id_pid old) started_at budget poll ?w2) = Some (oc, w')"
    using assms wr f by (cases ok; cases "refutes old cur") (simp_all add: execute_rung4_def killing_row_def refutes_def Let_def)
  consider "\<not> ok" | "ok" "refutes old cur" | "ok" "\<not> refutes old cur" by blast
  then show ?thesis
  proof cases
    case 1
    then show ?thesis using run write_row [OF wr] by (auto intro: intent_unwritten)
  next
    case 2
    then have "rung4_abort V ?row AbortedIdentityMismatch ?w2 = Some (oc, w')" using run by simp
    then obtain b where "oc = (if b then AbortedIdentityMismatch else Rung4Error)" "rw_log w' = rw_log ?w2 @ [RowWritten (idle_row ?row) b]"
      by (rule abort_log)
    then show ?thesis using mismatch [OF 2(2), of row0 started_at b] write_row [OF wr] log2 2 by auto
  next
    case 3
    then obtain es where "rw_log w' = rw_log ?w2 @ es" "kill_run ?row (id_pid old) started_at oc es" using run kill_log by fastforce
    then show ?thesis using unrefuted [OF 3(2), of row0 started_at oc es] write_row [OF wr] log2 3 by auto
  qed
qed

text \<open>The row the rung leaves behind, for each outcome.\<close>

fun outcome_row :: "RecoveryRow \<Rightarrow> ProcIdentity \<Rightarrow> Rung4Outcome \<Rightarrow> RecoveryRow \<Rightarrow> bool" where
  "outcome_row row0 old (Rung4Recovered sid p) d \<longleftrightarrow> d = confirmed_row (spawning_row sid (killing_row row0 old))"
| "outcome_row row0 old (SpawnFailed sid) d \<longleftrightarrow> d = spawning_row sid (killing_row row0 old)"
| "outcome_row row0 old (SuccessorUnconfirmed sid p) d \<longleftrightarrow> d = (spawning_row sid (killing_row row0 old))\<lparr>rr_phase := Confirming\<rparr>"
| "outcome_row row0 old Rung4Error d \<longleftrightarrow>
     d = row0 \<or> d = killing_row row0 old \<or> d = (killing_row row0 old)\<lparr>rr_phase := Tombstoned\<rparr>
     \<or> (\<exists>sid. d = spawning_row sid (killing_row row0 old) \<or> d = (spawning_row sid (killing_row row0 old))\<lparr>rr_phase := Confirming\<rparr>)"
| "outcome_row row0 old _ d \<longleftrightarrow> d = idle_row (killing_row row0 old)"

lemma spawn_run_row:
  "spawn_run (row\<lparr>rr_phase := Tombstoned\<rparr>) oc es \<Longrightarrow> row = killing_row row0 old \<Longrightarrow> outcome_row row0 old oc (durable_row (row\<lparr>rr_phase := Tombstoned\<rparr>) es)"
  by (induction rule: spawn_run.induct) (auto simp: spawning_row_def)

lemma rung4_run_row: "rung4_run row0 old started_at oc es \<Longrightarrow> outcome_row row0 old oc (durable_row row0 es)"
proof (induction rule: rung4_run.induct)
  case (unrefuted cur oc es)
  from unrefuted(2) show ?case
    by (induction rule: kill_run.induct) (use spawn_run_row in \<open>auto\<close>)
qed auto

subsection \<open>It returns\<close>

text \<open>A clock that does not run backwards and that sleeping moves.\<close>

definition rung4_clock :: "'e REnv \<Rightarrow> ('e \<Rightarrow> int) \<Rightarrow> bool" where
  "rung4_clock V clk \<longleftrightarrow>
     (\<forall>e p i. clk e \<le> clk (snd (rv_confirm V p i e)))
     \<and> (\<forall>e. clk e \<le> fst (rv_now V e) \<and> fst (rv_now V e) \<le> clk (snd (rv_now V e)))
     \<and> (\<forall>e ms. clk e + int ms \<le> clk (rv_sleep V ms e))"

lemma confirm_loop_returns:
  assumes "rung4_clock V clk" "0 < poll"
  shows "\<exists>y. confirm_loop V row sid np deadline poll w = Some y"
proof (induction "nat (deadline - clk (rw_env w))" arbitrary: w rule: less_induct)
  case less
  obtain ready e where c: "rv_confirm V np sid (rw_env w) = (ready, e)" by fastforce
  obtain t e2 where t: "rv_now V e = (t, e2)" by fastforce
  show ?case
  proof (cases "ready \<or> deadline \<le> t")
    case True
    then show ?thesis using c t by (cases ready) (simp_all add: confirm_loop.simps Let_def split: prod.split)
  next
    case False
    let ?w = "w\<lparr>rw_env := rv_sleep V poll e2\<rparr>"
    have "clk (rw_env w) \<le> clk e" using assms(1) c unfolding rung4_clock_def by (metis snd_conv)
    moreover have "clk e \<le> t" "t \<le> clk e2" using assms(1) t unfolding rung4_clock_def by (metis fst_conv snd_conv)+
    moreover have "clk e2 + int poll \<le> clk (rw_env ?w)" using assms(1) unfolding rung4_clock_def by simp
    ultimately have "nat (deadline - clk (rw_env ?w)) < nat (deadline - clk (rw_env w))" using False assms(2) by linarith
    from less [OF this] obtain y where "confirm_loop V row sid np deadline poll ?w = Some y" by blast
    then show ?thesis using False c t by (simp add: confirm_loop.simps [of V row sid np deadline poll w])
  qed
qed

lemma rung4_confirm_returns:
  assumes "rung4_clock V clk" "0 < poll"
  shows "\<exists>y. rung4_confirm V row sid np budget poll w = Some y"
  using confirm_loop_returns [OF assms] by (simp add: rung4_confirm_def split: prod.split)

lemma rung4_spawn_returns:
  assumes "rung4_clock V clk" "0 < poll"
  shows "\<exists>y. rung4_spawn V row budget poll w = Some y"
  using rung4_confirm_returns [OF assms] by (simp add: rung4_spawn_def Let_def split: prod.split option.split)

lemma rung4_kill_returns:
  assumes "rung4_clock V clk" "0 < poll"
  shows "\<exists>y. rung4_kill V row p started_at budget poll w = Some y"
  using rung4_spawn_returns [OF assms]
  by (simp add: rung4_kill_def rung4_abort_def Let_def split: prod.split TombstoneOutcome.split)

lemma rung4_returns:
  assumes "rung4_clock V clk" "0 < poll"
  shows "\<exists>y. execute_rung4 V row old started_at budget poll w = Some y"
  using rung4_kill_returns [OF assms]
  by (simp add: execute_rung4_def rung4_abort_def Let_def split: prod.split)

subsection \<open>A pass of the coordinator\<close>

text \<open>What a pass may make of one row.\<close>

definition row_step :: "nat \<Rightarrow> int \<Rightarrow> (string \<Rightarrow> LockProbe) \<Rightarrow> RecoveryRow \<Rightarrow> RecoveryRow \<Rightarrow> bool" where
  "row_step mine now probe r r' \<longleftrightarrow>
     can_acquire_lease (ladder_owner r) mine now
     \<and> (CRIT_CONSECUTIVE_FAILURES \<le> consecutive_failures r \<and> r' = r\<lparr>ladder_state := Crit\<rparr>
        \<or> consecutive_failures r < CRIT_CONSECUTIVE_FAILURES \<and> rr_phase r \<in> {Spawning, Confirming}
          \<and> (\<exists>n. new_session_id r = Some n \<and> \<not> probe_dead (probe n))
          \<and> r' = r\<lparr>ladder_state := LadderIdle, rr_phase := PhaseIdle, ladder_owner := None\<rparr>)"

lemma resume_healthy_iff: "resume_action r h = SuccessorHealthy \<longleftrightarrow> h \<and> rr_phase r \<in> {Spawning, Confirming}"
  by (auto simp: resume_action_def split: Phase.splits option.splits LadderState.splits if_splits)

text \<open>Every file is under the id its row carries; a pass keeps that, and steps each row at most once a visit.\<close>

definition rows_named :: "rowdir \<Rightarrow> bool" where
  "rows_named m \<longleftrightarrow> (\<forall>i r. m i = Some (Some r) \<longrightarrow> rr_session_id r = i)"

lemma coordinator_row_store:
  assumes "coordinator_row mine now probe ok i (m, rep, evs) = (m', rep', evs')"
  shows "m' = m \<or> (\<exists>r r'. m i = Some (Some r) \<and> row_step mine now probe r r' \<and> m' = m(rr_session_id r \<mapsto> Some r'))"
proof (cases "read_recovery_row m i")
  case None
  then show ?thesis using assms by (simp add: coordinator_row_def)
next
  case (Some r)
  then have m: "m i = Some (Some r)" by (auto simp: read_recovery_row_def split: option.splits)
  let ?h = "case new_session_id r of Some n \<Rightarrow> \<not> probe_dead (probe n) | None \<Rightarrow> False"
  let ?crit = "r\<lparr>ladder_state := Crit\<rparr>" and ?clear = "r\<lparr>ladder_state := LadderIdle, rr_phase := PhaseIdle, ladder_owner := None\<rparr>"
  let ?acq = "can_acquire_lease (ladder_owner r) mine now"
  have "m' = (if \<not> ?acq then m
              else if CRIT_CONSECUTIVE_FAILURES \<le> consecutive_failures r then if ladder_state r \<noteq> Crit then put_row ok ?crit m else m
              else if resume_action r ?h = SuccessorHealthy then put_row ok ?clear m else m)"
    using assms Some by (cases "resume_action r ?h") (auto simp: coordinator_row_def Let_def split: if_splits)
  moreover have "row_step mine now probe r ?crit" if "?acq" "CRIT_CONSECUTIVE_FAILURES \<le> consecutive_failures r"
    using that by (simp add: row_step_def)
  moreover have "row_step mine now probe r ?clear"
    if "?acq" "\<not> CRIT_CONSECUTIVE_FAILURES \<le> consecutive_failures r" "resume_action r ?h = SuccessorHealthy"
    using that by (cases "new_session_id r") (simp_all add: row_step_def resume_healthy_iff)
  ultimately show ?thesis using m by (auto simp: put_row_def split: if_splits)
qed

text \<open>A row that a pass has stepped is not stepped again by it, so the whole pass steps it at most once.\<close>

lemma row_step_named: "row_step mine now probe r r' \<Longrightarrow> rr_session_id r' = rr_session_id r"
  by (auto simp: row_step_def)

lemma row_step_twice: "row_step mine now probe r r' \<Longrightarrow> row_step mine now probe r' r'' \<Longrightarrow> r'' = r'"
  by (auto simp: row_step_def)

definition rows_stepped :: "nat \<Rightarrow> int \<Rightarrow> (string \<Rightarrow> LockProbe) \<Rightarrow> rowdir \<Rightarrow> rowdir \<Rightarrow> bool" where
  "rows_stepped mine now probe m m' \<longleftrightarrow>
     (\<forall>i. m' i = m i \<or> (\<exists>r r'. m i = Some (Some r) \<and> m' i = Some (Some r') \<and> row_step mine now probe r r'))"

lemma rows_stepped_refl [simp]: "rows_stepped mine now probe m m"
  by (simp add: rows_stepped_def)

lemma rows_stepped_trans:
  assumes "rows_stepped mine now probe m m'" "rows_stepped mine now probe m' m''"
  shows "rows_stepped mine now probe m m''"
  using assms unfolding rows_stepped_def by (metis option.inject row_step_twice)

lemma coordinator_row_stepped:
  assumes "coordinator_row mine now probe ok i (m, rep, evs) = (m', rep', evs')" "rows_named m"
  shows "rows_stepped mine now probe m m' \<and> rows_named m'"
proof -
  from coordinator_row_store [OF assms(1)] show ?thesis
  proof
    assume "\<exists>r r'. m i = Some (Some r) \<and> row_step mine now probe r r' \<and> m' = m(rr_session_id r \<mapsto> Some r')"
    then obtain r r' where r: "m i = Some (Some r)" "row_step mine now probe r r'" "m' = m(rr_session_id r \<mapsto> Some r')" by blast
    moreover have "rr_session_id r = i" using r(1) assms(2) by (simp add: rows_named_def)
    ultimately show ?thesis using assms(2) row_step_named [OF r(2)] by (auto simp: rows_stepped_def rows_named_def)
  qed (use assms(2) in simp)
qed

lemma coordinator_rows_stepped:
  "coordinator_rows mine now probe ok names (m, rep, evs) = (m', rep', evs') \<Longrightarrow> rows_named m \<Longrightarrow>
   rows_stepped mine now probe m m' \<and> rows_named m'"
proof (induction names arbitrary: m rep evs)
  case (Cons name names)
  show ?case
  proof (cases "row_session name")
    case None
    then show ?thesis using Cons by simp
  next
    case (Some i)
    obtain m1 rep1 evs1 where one: "coordinator_row mine now probe ok i (m, rep, evs) = (m1, rep1, evs1)" by (metis prod_cases3)
    then have "coordinator_rows mine now probe ok names (m1, rep1, evs1) = (m', rep', evs')" using Cons.prems Some by simp
    from Cons.IH [OF this] show ?thesis using coordinator_row_stepped [OF one] Cons.prems(2) rows_stepped_trans by blast
  qed
qed simp

text \<open>Every row is counted once as read or unreadable.\<close>

lemma coordinator_row_counts:
  "coordinator_row mine now probe ok i (m, rep, evs) = (m', rep', evs') \<Longrightarrow>
   rows_seen rep' + corrupt_skipped rep' = rows_seen rep + corrupt_skipped rep + 1 \<and> heartbeat rep' = heartbeat rep"
  by (auto simp: coordinator_row_def Let_def split: option.splits if_splits ResumeAction.splits)

lemma coordinator_rows_counts:
  "coordinator_rows mine now probe ok names (m, rep, evs) = (m', rep', evs') \<Longrightarrow>
   rows_seen rep' + corrupt_skipped rep' = rows_seen rep + corrupt_skipped rep + length (filter (\<lambda>n. row_session n \<noteq> None) names)
   \<and> heartbeat rep' = heartbeat rep"
proof (induction names arbitrary: m rep evs)
  case (Cons name names)
  show ?case
  proof (cases "row_session name")
    case None
    then show ?thesis using Cons by simp
  next
    case (Some i)
    obtain m1 rep1 evs1 where one: "coordinator_row mine now probe ok i (m, rep, evs) = (m1, rep1, evs1)" by (metis prod_cases3)
    then have "coordinator_rows mine now probe ok names (m1, rep1, evs1) = (m', rep', evs')" using Cons.prems Some by simp
    from Cons.IH [OF this] show ?thesis using coordinator_row_counts [OF one] Some by simp
  qed
qed simp

end
