(* ===== verification/Gc.thy ===== *)
theory Gc
  imports Recovery
begin

text \<open>
  Garbage collection (\<open>crates/dispatch/src/gc.rs\<close>, \<open>inbox_gc.rs\<close>) with the presence it reads
  (\<open>presence.rs\<close>): which files are collectible, the move to the trash, and the sweep of the relay
  inbox. The move runs as a machine that makes one call of the file system at a time, so that several
  movers can be interleaved and each can stop anywhere; the operating system answers every call. A
  path is compared as a string, and a file that is open keeps the content it had when it was opened.
\<close>

subsection \<open>Ages\<close>

definition GC_STALE_MS :: int where "GC_STALE_MS = 7 * 24 * 60 * 60 * 1000"

definition PURGE_MS :: int where "PURGE_MS = 30 * 24 * 60 * 60 * 1000"

definition INBOX_TTL_MS :: int where "INBOX_TTL_MS = GC_STALE_MS"

definition ACK_GRACE_MS :: int where "ACK_GRACE_MS = 60 * 60 * 1000"

definition jsonl_is_candidate :: "string \<Rightarrow> int \<Rightarrow> int \<Rightarrow> string set \<Rightarrow> bool" where
  "jsonl_is_candidate sid mtime_ms now live_session_ids \<longleftrightarrow>
     (if sid \<in> live_session_ids then False else mtime_ms \<le> now - GC_STALE_MS)"

definition tombstone_is_candidate :: "int \<Rightarrow> int \<Rightarrow> bool" where
  "tombstone_is_candidate mtime_ms now \<longleftrightarrow> mtime_ms \<le> now - GC_STALE_MS"

definition sidecar_is_stale :: "bool \<Rightarrow> bool \<Rightarrow> bool" where
  "sidecar_is_stale pid_alive port_healthy \<longleftrightarrow> \<not> pid_alive \<and> \<not> port_healthy"

definition inbox_is_collectible :: "int \<Rightarrow> int option \<Rightarrow> int \<Rightarrow> int \<Rightarrow> bool \<Rightarrow> bool" where
  "inbox_is_collectible received_at_ms acked ttl now protected \<longleftrightarrow>
     (if protected then False
      else case acked of Some a \<Rightarrow> ACK_GRACE_MS \<le> now - a | None \<Rightarrow> ttl \<le> now - received_at_ms)"

definition should_purge :: "int \<Rightarrow> int \<Rightarrow> bool" where
  "should_purge pruned_at_ms now \<longleftrightarrow> pruned_at_ms < now - PURGE_MS"

subsection \<open>Times as text\<close>

definition iso_from_ms :: "int \<Rightarrow> string" where
  "iso_from_ms ms =
     (let secs = ms div 1000; millis = ms mod 1000; days = secs div 86400; rm = secs mod 86400;
          (h, mi, s) = (tdiv rm 3600, tdiv (rm mod 3600) 60, rm mod 60);
          (y, mo, d) = civil_from_days days
      in pad 4 y @ ''-'' @ pad 2 mo @ ''-'' @ pad 2 d @ ''T'' @ pad 2 h @ '':'' @ pad 2 mi @ '':'' @ pad 2 s @ ''.'' @ pad 3 millis @ ''Z'')"

text \<open>A field of the text, by its byte positions, read by \<open>str::parse\<close>.\<close>

definition i64_field :: "string \<Rightarrow> nat \<Rightarrow> nat \<Rightarrow> int option" where
  "i64_field s lo hi = (if hi \<le> length s then parse_i64 (take (hi - lo) (drop lo s)) else None)"

definition parse_iso_ms :: "string \<Rightarrow> int option" where
  "parse_iso_ms stext =
     (if length stext < 19 then None
      else do {
        y \<leftarrow> i64_field stext 0 4;
        mo \<leftarrow> i64_field stext 5 7;
        d \<leftarrow> i64_field stext 8 10;
        h \<leftarrow> i64_field stext 11 13;
        mi \<leftarrow> i64_field stext 14 16;
        s \<leftarrow> i64_field stext 17 19;
        millis \<leftarrow> (if 23 \<le> length stext \<and> stext ! 19 = CHR ''.'' then i64_field stext 20 23 else Some 0);
        Some ((days_from_civil y mo d * 86400 + h * 3600 + mi * 60 + s) * 1000 + millis) })"

text \<open>Bytes stand for characters here: the text is a formatted time, so it is ASCII.\<close>

definition iso_stamp_from :: "string \<Rightarrow> string" where
  "iso_stamp_from stext = take 19 (map (\<lambda>c. if c = CHR '':'' \<or> c = CHR ''.'' then CHR ''-'' else c) stext)"

definition relative_time :: "int \<Rightarrow> int \<Rightarrow> string" where
  "relative_time date_ms now =
     (let seconds = (now - date_ms) div 1000 in
      if seconds < 60 then pad 0 seconds @ ''s ago''
      else let minutes = seconds div 60 in
        if minutes < 60 then pad 0 minutes @ ''m ago''
        else let hours = minutes div 60 in
          if hours < 24 then pad 0 hours @ ''h ago'' else pad 0 (hours div 24) @ ''d ago'')"

subsection \<open>Names in the trash\<close>

datatype CandidateType = CcJsonl | CcTombstone | OcSidecar | OcLog | RelayInbox

definition cand_is_claude :: "CandidateType \<Rightarrow> bool" where
  "cand_is_claude k \<longleftrightarrow> k \<in> {CcJsonl, CcTombstone, RelayInbox}"

fun cand_ext :: "CandidateType \<Rightarrow> string" where
  "cand_ext CcJsonl = ''.jsonl''"
| "cand_ext CcTombstone = ''.json.tombstoned''"
| "cand_ext OcSidecar = ''.json''"
| "cand_ext OcLog = ''.log''"
| "cand_ext RelayInbox = ''.json''"

fun type_token :: "CandidateType \<Rightarrow> string" where
  "type_token CcJsonl = ''cc-jsonl''"
| "type_token CcTombstone = ''cc-tombstone''"
| "type_token OcSidecar = ''oc-sidecar''"
| "type_token OcLog = ''oc-log''"
| "type_token RelayInbox = ''relay-inbox''"

definition trash_name :: "string \<Rightarrow> string \<Rightarrow> CandidateType \<Rightarrow> string" where
  "trash_name timestamp identifier ck = timestamp @ ''_'' @ identifier @ cand_ext ck"

text \<open>The process id and the value of the counter of the process.\<close>

definition trash_nonce :: "nat \<times> nat \<Rightarrow> string" where
  "trash_nonce c = nat_digits (fst c) @ ''-'' @ nat_digits (snd c)"

record Candidate =
  cand_kind :: CandidateType
  cand_path :: string
  cand_reason :: string
  cand_size :: nat
  cand_identifier :: string

record TrashMeta =
  tm_original_path :: string
  tm_reason :: string
  tm_pruned_at :: string
  tm_kind :: string
  tm_size :: nat

subsection \<open>The move to the trash\<close>

text \<open>
  What the operating system answers to a call: done, failed, or this many bytes were written. Whether a
  file is there is read off the file system.
\<close>

datatype answer = Done | Failed | Wrote nat

type_synonym files = "string \<rightharpoonup> string"

datatype mover_pc =
    MakeDir | NewMeta | PutMeta string | OpenSrc | NewCopy string | PutCopy string | UnlinkSrc
  | DropMeta | RollMeta | RollCopy | Finished bool

record mover =
  mv_src :: string
  mv_trash :: string
  mv_meta :: string
  mv_json :: string
  mv_pc :: mover_pc

definition trash_path :: "string \<Rightarrow> CandidateType \<Rightarrow> string \<Rightarrow> int \<Rightarrow> nat \<times> nat \<Rightarrow> string" where
  "trash_path dir ck identifier now c =
     dir @ ''/'' @ trash_name (iso_stamp_from (iso_from_ms now)) (identifier @ ''.'' @ trash_nonce c) ck"

definition meta_path :: "string \<Rightarrow> CandidateType \<Rightarrow> string \<Rightarrow> int \<Rightarrow> nat \<times> nat \<Rightarrow> string" where
  "meta_path dir ck identifier now c = trash_path dir ck identifier now c @ ''_meta.json''"

text \<open>A call of \<open>move_to_trash_at\<close> on a candidate, before its first step; \<open>ser\<close> is the serializer of the sidecar.\<close>

definition new_mover :: "(TrashMeta \<Rightarrow> string) \<Rightarrow> string \<Rightarrow> int \<Rightarrow> nat \<times> nat \<Rightarrow> Candidate \<Rightarrow> mover" where
  "new_mover ser dir now c x =
     \<lparr>mv_src = cand_path x,
      mv_trash = trash_path dir (cand_kind x) (cand_identifier x) now c,
      mv_meta = meta_path dir (cand_kind x) (cand_identifier x) now c,
      mv_json = ser \<lparr>tm_original_path = cand_path x, tm_reason = cand_reason x, tm_pruned_at = iso_from_ms now,
                     tm_kind = type_token (cand_kind x), tm_size = cand_size x\<rparr>,
      mv_pc = MakeDir\<rparr>"

definition append_file :: "string \<Rightarrow> string \<Rightarrow> files \<Rightarrow> files" where
  "append_file path b fs = (case fs path of None \<Rightarrow> fs | Some old \<Rightarrow> fs(path \<mapsto> old @ b))"

definition remove_file :: "answer \<Rightarrow> string \<Rightarrow> files \<Rightarrow> files" where
  "remove_file a path fs = (if a = Failed then fs else fs(path := None))"

text \<open>A call that writes takes at least one byte.\<close>

fun chunk :: "answer \<Rightarrow> string \<Rightarrow> nat" where
  "chunk (Wrote n) b = max 1 n"
| "chunk _ b = length b"

definition mv_goto :: "mover_pc \<Rightarrow> mover \<Rightarrow> files \<Rightarrow> mover \<times> files" where
  "mv_goto pc m fs = (m\<lparr>mv_pc := pc\<rparr>, fs)"

definition mv_step :: "answer \<Rightarrow> mover \<Rightarrow> files \<Rightarrow> mover \<times> files" where
  "mv_step a m fs =
     (case mv_pc m of
        MakeDir \<Rightarrow> mv_goto (if a = Failed then Finished False else NewMeta) m fs
      | NewMeta \<Rightarrow>
          if a = Failed \<or> fs (mv_meta m) \<noteq> None then mv_goto (Finished False) m fs
          else mv_goto (PutMeta (mv_json m)) m (fs(mv_meta m \<mapsto> []))
      | PutMeta rest \<Rightarrow>
          if rest = [] then mv_goto OpenSrc m fs
          else if a = Failed then mv_goto (Finished False) m fs
          else mv_goto (PutMeta (drop (chunk a rest) rest)) m (append_file (mv_meta m) (take (chunk a rest) rest) fs)
      | OpenSrc \<Rightarrow>
          (if a = Failed then mv_goto DropMeta m fs
           else case fs (mv_src m) of None \<Rightarrow> mv_goto DropMeta m fs | Some b \<Rightarrow> mv_goto (NewCopy b) m fs)
      | NewCopy b \<Rightarrow>
          if a = Failed \<or> fs (mv_trash m) \<noteq> None then mv_goto DropMeta m fs
          else mv_goto (PutCopy b) m (fs(mv_trash m \<mapsto> []))
      | PutCopy rest \<Rightarrow>
          if rest = [] then mv_goto UnlinkSrc m fs
          else if a = Failed then mv_goto DropMeta m fs
          else mv_goto (PutCopy (drop (chunk a rest) rest)) m (append_file (mv_trash m) (take (chunk a rest) rest) fs)
      | UnlinkSrc \<Rightarrow>
          if fs (mv_src m) = None then mv_goto (Finished True) m fs
          else if a = Failed then mv_goto RollMeta m fs
          else mv_goto (Finished True) m (fs(mv_src m := None))
      | DropMeta \<Rightarrow> mv_goto (Finished False) m (remove_file a (mv_meta m) fs)
      | RollMeta \<Rightarrow> mv_goto RollCopy m (remove_file a (mv_meta m) fs)
      | RollCopy \<Rightarrow> mv_goto (Finished False) m (remove_file a (mv_trash m) fs)
      | Finished b \<Rightarrow> (m, fs))"

text \<open>One call run alone; the answers may stop before it ends, and then it died there.\<close>

fun mv_run :: "answer list \<Rightarrow> mover \<Rightarrow> files \<Rightarrow> mover \<times> files" where
  "mv_run [] m fs = (m, fs)"
| "mv_run (a # as) m fs = (case mv_step a m fs of (m', fs') \<Rightarrow> mv_run as m' fs')"

text \<open>Several calls, of several processes, in the order of a schedule.\<close>

type_synonym movers = "mover list \<times> files"

definition sys_step :: "nat \<times> answer \<Rightarrow> movers \<Rightarrow> movers" where
  "sys_step ka s =
     (case s of (ms, fs) \<Rightarrow> case ka of (k, a) \<Rightarrow>
        if k < length ms then (case mv_step a (ms ! k) fs of (m', fs') \<Rightarrow> (ms[k := m'], fs')) else (ms, fs))"

fun sys_run :: "(nat \<times> answer) list \<Rightarrow> movers \<Rightarrow> movers" where
  "sys_run [] s = s"
| "sys_run (ka # sch) s = sys_run sch (sys_step ka s)"

subsection \<open>Presence\<close>

definition presence_is_live :: "(string \<Rightarrow> LockProbe) \<Rightarrow> string \<Rightarrow> bool" where
  "presence_is_live probe i \<longleftrightarrow> \<not> probe_dead (probe i)"

text \<open>\<open>P\<close> reads the process table.\<close>

record Presence =
  pr_session_id :: string
  pr_identity :: "(int \<times> int) option"
  pr_incarnation :: "nat option"
  pr_liveness :: LifecycleState
  pr_readiness :: "Readiness option"
  pr_health :: Health
  pr_daemon :: DaemonLiveness
  pr_status :: SessionStatus
  pr_updated_at_ms :: "int option"
  pr_recovery :: "LadderState option"

definition presence_of ::
  "ProcProbe \<Rightarrow> (string \<Rightarrow> LockProbe) \<Rightarrow> rowdir \<Rightarrow> string \<Rightarrow> int \<Rightarrow> Presence"
where
  "presence_of P probe rows i now =
     (let row = read_recovery_row rows i;
          recovery = map_option ladder_state row;
          identity = Option.bind row (\<lambda>r. map_option (\<lambda>o'. (id_pid o', id_start_ms o')) (old_identity r));
          incarnation = Option.bind row (\<lambda>r. map_option id_incarnation (old_identity r));
          live = presence_is_live probe i;
          lv = (case identity of Some key \<Rightarrow> classify_inner P key | None \<Rightarrow> if live then AliveSilentValid else Gone);
          st = (case recovery of Some (Running r) \<Rightarrow> Busy | _ \<Rightarrow> if live then Idle else Cold)
      in \<lparr>pr_session_id = i, pr_identity = identity, pr_incarnation = incarnation, pr_liveness = lv, pr_readiness = readiness_facet lv,
          pr_health = classify_health lv st False False DaemonUp True now, pr_daemon = DaemonUp, pr_status = st,
          pr_updated_at_ms = Option.bind row last_attempt_ms, pr_recovery = recovery\<rparr>)"

record SessionReplaced =
  sr_old_identity :: ProcIdentity
  sr_new_session_id :: string
  sr_new_incarnation :: nat

definition detect_session_replaced ::
  "LadderState \<Rightarrow> LadderState \<Rightarrow> ProcIdentity option \<Rightarrow> string option \<Rightarrow> nat option \<Rightarrow> SessionReplaced option"
where
  "detect_session_replaced prev nxt old new_id new_inc =
     (if prev \<noteq> Running Respawn \<or> nxt \<noteq> LadderIdle then None
      else case (old, new_id, new_inc) of
        (Some o', Some n, Some inc) \<Rightarrow> Some \<lparr>sr_old_identity = o', sr_new_session_id = n, sr_new_incarnation = inc\<rparr>
      | _ \<Rightarrow> None)"

subsection \<open>The relay inbox\<close>

record InboxRecord =
  ir_text :: string
  ir_from_session :: string
  ir_message_id :: string
  ir_received_at :: string
  ir_to_session :: "string option"
  ir_acked_at_ms :: "int option"
  ir_ttl_ms :: "int option"

text \<open>What the gate reads: the operating system, the locks and the rows.\<close>

record gate_env =
  ge_procs :: ProcProbe
  ge_probe :: "string \<Rightarrow> LockProbe"
  ge_rows :: rowdir

definition recipient_live_or_recovering :: "gate_env \<Rightarrow> string \<Rightarrow> int \<Rightarrow> bool" where
  "recipient_live_or_recovering G i now =
     (if presence_is_live (ge_probe G) i then True
      else case pr_recovery (presence_of (ge_procs G) (ge_probe G) (ge_rows G) i now) of
             Some (Running r) \<Rightarrow> True | _ \<Rightarrow> False)"

definition recipient_protected :: "gate_env \<Rightarrow> string option \<Rightarrow> int \<Rightarrow> bool" where
  "recipient_protected G to_session now =
     (case to_session of
        None \<Rightarrow> False
      | Some i \<Rightarrow>
          if recipient_live_or_recovering G i now then True
          else case read_recovery_row (ge_rows G) i of
                 None \<Rightarrow> False
               | Some row \<Rightarrow> (case new_session_id row of Some n \<Rightarrow> recipient_live_or_recovering G n now | None \<Rightarrow> False))"

text \<open>An entry of the inbox: its name, what reading it gives, its modification time and length if they are known.\<close>

record mail_file =
  if_name :: string
  if_bytes :: "string option"
  if_mtime :: "int option"
  if_len :: "nat option"

definition json_extension :: "string \<Rightarrow> bool" where
  "json_extension name = (case rsplit_once (CHR ''.'') name of Some (stem, ext) \<Rightarrow> stem \<noteq> [] \<and> ext = ''json'' | None \<Rightarrow> False)"

definition file_stem :: "string \<Rightarrow> string" where
  "file_stem name = (case rsplit_once (CHR ''.'') name of Some (stem, ext) \<Rightarrow> if stem = [] then name else stem | None \<Rightarrow> name)"

text \<open>\<open>de\<close> reads a record; a file that does not read or parse is passed over.\<close>

definition scan_file :: "(string \<Rightarrow> InboxRecord option) \<Rightarrow> gate_env \<Rightarrow> string \<Rightarrow> int \<Rightarrow> mail_file \<Rightarrow> Candidate option" where
  "scan_file de G dir now f =
     (if \<not> json_extension (if_name f) then None
      else case Option.bind (if_bytes f) de of
        None \<Rightarrow> None
      | Some rec \<Rightarrow>
          let mtime_ms = (case if_mtime f of Some t \<Rightarrow> t | None \<Rightarrow> 0);
              received_at_ms = (case parse_iso_ms (ir_received_at rec) of Some t \<Rightarrow> t | None \<Rightarrow> mtime_ms);
              ttl = (case ir_ttl_ms rec of Some t \<Rightarrow> t | None \<Rightarrow> INBOX_TTL_MS);
              protected = recipient_protected G (ir_to_session rec) now
          in if inbox_is_collectible received_at_ms (ir_acked_at_ms rec) ttl now protected
             then Some \<lparr>cand_kind = RelayInbox, cand_path = dir @ ''/'' @ if_name f,
                        cand_reason = (if ir_acked_at_ms rec \<noteq> None then ''delivered (acked), received ''
                                       else ''undelivered, expired '' @ [CHR 0xE2, CHR 0x80, CHR 0x94] @ '' received '') @ relative_time received_at_ms now,
                        cand_size = (case if_len f of Some n \<Rightarrow> n | None \<Rightarrow> 0),
                        cand_identifier = (if ir_message_id rec = [] then file_stem (if_name f) else ir_message_id rec)\<rparr>
             else None)"

definition scan_collectible :: "(string \<Rightarrow> InboxRecord option) \<Rightarrow> gate_env \<Rightarrow> string \<Rightarrow> int \<Rightarrow> mail_file list \<Rightarrow> Candidate list" where
  "scan_collectible de G dir now files = List.map_filter (scan_file de G dir now) files"

text \<open>
  The sweep of process \<open>p\<close>, whose counter stands at \<open>n\<close>: the candidates one after the other, each with
  the answers its move meets. A move that never ended is the last thing a process did.
\<close>

fun sweep_moves ::
  "(TrashMeta \<Rightarrow> string) \<Rightarrow> string \<Rightarrow> int \<Rightarrow> nat \<Rightarrow> nat \<Rightarrow> (Candidate \<times> answer list) list \<Rightarrow> files \<Rightarrow> nat \<times> files"
where
  "sweep_moves ser trash now p n [] fs = (0, fs)"
| "sweep_moves ser trash now p n ((x, as) # rest) fs =
     (case mv_run as (new_mover ser trash now (p, n) x) fs of (m, fs') \<Rightarrow>
        case mv_pc m of
          Finished moved \<Rightarrow>
            (case sweep_moves ser trash now p (n + 1) rest fs' of (k, fs'') \<Rightarrow> ((if moved then 1 else 0) + k, fs''))
        | _ \<Rightarrow> (0, fs'))"

definition sweep_inbox_once ::
  "(string \<Rightarrow> InboxRecord option) \<Rightarrow> (TrashMeta \<Rightarrow> string) \<Rightarrow> gate_env \<Rightarrow> string \<Rightarrow> string \<Rightarrow> int \<Rightarrow> nat \<times> nat \<Rightarrow> answer list list
   \<Rightarrow> mail_file list \<Rightarrow> files \<Rightarrow> nat \<times> files"
where
  "sweep_inbox_once de ser G inbox trash now c answers files fs =
     sweep_moves ser trash now (fst c) (snd c) (zip (scan_collectible de G inbox now files) answers) fs"

end
