(* ===== verification/Gc_Inv.thy ===== *)
theory Gc_Inv
  imports Gc
begin

text \<open>
  The move to the trash loses nothing: names in the trash are never shared, a mover touches only its
  source and the files it made, and a source is gone only when a complete copy of it stands in the
  trash with its sidecar. Every move ends, and every call of the file system may fail on the way.
\<close>

subsection \<open>Names are not shared\<close>

lemma nat_digits_chars: "c \<in> set (nat_digits n) \<Longrightarrow> is_digit c"
proof (induction n rule: nat_digits.induct)
  case (1 n)
  then show ?case using digit_of_digit [of "int n"] digit_of_digit [of "int (n mod 10)"]
    by (cases "n < 10") (auto simp: nat_digits.simps [of n] zmod_int)
qed

lemma nat_digits_ne: "nat_digits n \<noteq> []"
  by (simp add: nat_digits.simps [of n])

lemma nat_digits_inject: "nat_digits a = nat_digits b \<Longrightarrow> a = b"
proof -
  have "digits_val 0 (nat_digits n) = Some (int n)" for n
  proof (induction n rule: nat_digits.induct)
    case (1 n)
    show ?case
    proof (cases "n < 10")
      case True
      then show ?thesis using digit_of_digit [of "int n"] by (simp add: nat_digits.simps [of n])
    next
      case False
      then show ?thesis using 1 digit_of_digit [of "int (n mod 10)"]
        by (simp add: nat_digits.simps [of n] digits_val_append zmod_int zdiv_int mult.commute)
    qed
  qed
  then show "nat_digits a = nat_digits b \<Longrightarrow> a = b" by (metis of_nat_eq_iff option.inject)
qed

lemma last_part_unique: "xs @ (c :: char) # a = ys @ c # b \<Longrightarrow> c \<notin> set a \<Longrightarrow> c \<notin> set b \<Longrightarrow> xs = ys \<and> a = b"
proof -
  assume eq: "xs @ c # a = ys @ c # b" and a: "c \<notin> set a" and b: "c \<notin> set b"
  have "Some (xs, a) = Some (ys, b)" using rsplit_once_Some [OF a, of xs] rsplit_once_Some [OF b, of ys] unfolding eq by (rule trans [OF sym])
  then show ?thesis by simp
qed

lemma nonce_digits: "x \<in> set (trash_nonce c) \<Longrightarrow> is_digit x \<or> x = CHR ''-''"
  by (auto simp: trash_nonce_def dest: nat_digits_chars)

lemma nonce_no_dot: "CHR ''.'' \<notin> set (trash_nonce c)"
  using nonce_digits [of "CHR ''.''" c] by (auto simp: is_digit_def)

lemma trash_nonce_inject: "trash_nonce c = trash_nonce c' \<Longrightarrow> c = c'"
proof -
  assume "trash_nonce c = trash_nonce c'"
  moreover have "CHR ''-'' \<notin> set (nat_digits n)" for n using nat_digits_chars [of "CHR ''-''" n] by (auto simp: is_digit_def)
  ultimately have "nat_digits (fst c) = nat_digits (fst c') \<and> nat_digits (snd c) = nat_digits (snd c')"
    unfolding trash_nonce_def by (intro last_part_unique [of _ "CHR ''-''"]) simp_all
  then show ?thesis using nat_digits_inject by (metis prod.expand)
qed

lemma last_nonce: "is_digit (last (xs @ trash_nonce c))"
proof -
  have "last (xs @ trash_nonce c) = last (nat_digits (snd c))" by (simp add: trash_nonce_def nat_digits_ne)
  then show ?thesis using nat_digits_chars [OF last_in_set [OF nat_digits_ne]] by simp
qed

lemma ext_end: "last (xs @ cand_ext k) = last (cand_ext k)" "cand_ext k \<noteq> []"
  by (cases k; simp)+

lemma ext_last_inject: "last (cand_ext k) = last (cand_ext k') \<Longrightarrow> cand_ext k = cand_ext k'"
  by (cases k; cases k'; simp)

lemma stem_unique:
  assumes "a @ CHR ''.'' # trash_nonce c @ cand_ext k = a' @ CHR ''.'' # trash_nonce c' @ cand_ext k'"
  shows "c = c'"
proof -
  have "last (cand_ext k) = last (cand_ext k')"
    using arg_cong [OF assms, of last] ext_end(1) [of "a @ CHR ''.'' # trash_nonce c" k] ext_end(1) [of "a' @ CHR ''.'' # trash_nonce c'" k'] by simp
  then have "cand_ext k = cand_ext k'" by (rule ext_last_inject)
  then have "a @ CHR ''.'' # trash_nonce c = a' @ CHR ''.'' # trash_nonce c'" using assms by (metis append.assoc append_Cons append_same_eq)
  then show ?thesis using last_part_unique nonce_no_dot trash_nonce_inject by metis
qed

lemma stem_not_meta:
  assumes "a @ CHR ''.'' # trash_nonce c @ cand_ext k = b @ ''_meta.json''"
  shows False
proof -
  have "last (cand_ext k) = CHR ''n''"
    using arg_cong [OF assms, of last] ext_end(1) [of "a @ CHR ''.'' # trash_nonce c" k] by simp
  then have k: "cand_ext k = ''.json''" by (cases k) simp_all
  have "(a @ CHR ''.'' # trash_nonce c) @ ''.json'' = (b @ ''_meta'') @ ''.json''" using assms unfolding k by simp
  then have "a @ CHR ''.'' # trash_nonce c = b @ ''_meta''" by (simp only: append_same_eq)
  then have "last ((a @ [CHR ''.'']) @ trash_nonce c) = CHR ''a''" by simp
  then show False using last_nonce [of "a @ [CHR ''.'']" c] by (simp add: is_digit_def)
qed

lemma trash_path_stem:
  "trash_path dir k i now c = (dir @ ''/'' @ iso_stamp_from (iso_from_ms now) @ ''_'' @ i) @ CHR ''.'' # trash_nonce c @ cand_ext k"
  by (simp add: trash_path_def trash_name_def)

lemma trash_path_unique: "trash_path dir k i now c = trash_path dir' k' i' now' c' \<Longrightarrow> c = c'"
  unfolding trash_path_stem by (rule stem_unique)

lemma meta_path_unique: "meta_path dir k i now c = meta_path dir' k' i' now' c' \<Longrightarrow> c = c'"
  unfolding meta_path_def using trash_path_unique by blast

lemma trash_path_not_meta: "trash_path dir k i now c \<noteq> meta_path dir' k' i' now' c'"
  unfolding meta_path_def trash_path_stem [of dir k] using stem_not_meta by blast

subsection \<open>One mover\<close>

definition copied :: "files \<Rightarrow> files \<Rightarrow> mover \<Rightarrow> bool" where
  "copied fs0 fs m \<longleftrightarrow>
     fs0 (mv_meta m) = None \<and> fs0 (mv_trash m) = None \<and> fs (mv_meta m) = Some (mv_json m)
     \<and> fs0 (mv_src m) \<noteq> None \<and> fs (mv_trash m) = fs0 (mv_src m)"

text \<open>What is known at each point of a mover, where the move began on the files \<open>fs0\<close>.\<close>

definition mv_ok :: "files \<Rightarrow> files \<Rightarrow> mover \<Rightarrow> bool" where
  "mv_ok fs0 fs m \<longleftrightarrow>
     (case mv_pc m of
        PutMeta rest \<Rightarrow> fs0 (mv_meta m) = None \<and> (\<exists>b. fs (mv_meta m) = Some b \<and> b @ rest = mv_json m)
      | OpenSrc \<Rightarrow> fs0 (mv_meta m) = None \<and> fs (mv_meta m) = Some (mv_json m)
      | NewCopy b \<Rightarrow> fs0 (mv_meta m) = None \<and> fs (mv_meta m) = Some (mv_json m) \<and> fs0 (mv_src m) = Some b
      | PutCopy rest \<Rightarrow>
          fs0 (mv_meta m) = None \<and> fs0 (mv_trash m) = None \<and> fs (mv_meta m) = Some (mv_json m)
          \<and> (\<exists>b. fs (mv_trash m) = Some b \<and> fs0 (mv_src m) = Some (b @ rest))
      | UnlinkSrc \<Rightarrow> copied fs0 fs m
      | DropMeta \<Rightarrow> fs0 (mv_meta m) = None
      | RollMeta \<Rightarrow> fs0 (mv_meta m) = None \<and> fs0 (mv_trash m) = None
      | RollCopy \<Rightarrow> fs0 (mv_trash m) = None
      | Finished True \<Rightarrow> copied fs0 fs m
      | _ \<Rightarrow> True)"

lemma mv_ok_cong:
  "fs' (mv_meta m) = fs (mv_meta m) \<Longrightarrow> fs' (mv_trash m) = fs (mv_trash m) \<Longrightarrow> mv_ok fs0 fs' m = mv_ok fs0 fs m"
  by (cases "mv_pc m") (auto simp: mv_ok_def copied_def split: bool.splits)

lemmas mv_step_defs = mv_step_def mv_goto_def append_file_def remove_file_def

lemma mv_step_fixed:
  assumes "mv_step a m fs = (m', fs')"
  shows "mv_src m' = mv_src m" "mv_trash m' = mv_trash m" "mv_meta m' = mv_meta m" "mv_json m' = mv_json m"
  using assms by (auto simp: mv_step_defs split: mover_pc.splits if_splits option.splits)

lemma mv_step_frame:
  assumes "mv_step a m fs = (m', fs')" "q \<noteq> mv_src m" "q \<noteq> mv_trash m" "q \<noteq> mv_meta m"
  shows "fs' q = fs q"
  using assms by (auto simp: mv_step_defs split: mover_pc.splits if_splits option.splits)

text \<open>Files that were there when the moves began stay as they are, unless they are the source.\<close>

lemma mv_step_old:
  assumes "mv_step a m fs = (m', fs')" "mv_ok fs0 fs m" "fs q = fs0 q" "fs0 q \<noteq> None" "q \<noteq> mv_src m"
  shows "fs' q = fs0 q"
  using assms by (auto simp: mv_step_defs mv_ok_def copied_def split: mover_pc.splits if_splits option.splits)

lemma mv_step_src:
  assumes "mv_step a m fs = (m', fs')" "mv_src m \<noteq> mv_trash m" "mv_src m \<noteq> mv_meta m"
  shows "fs' (mv_src m) = fs (mv_src m) \<or> fs' (mv_src m) = None \<and> mv_pc m' = Finished True"
  using assms by (auto simp: mv_step_defs split: mover_pc.splits if_splits option.splits)

lemma mv_step_ok:
  assumes "mv_step a m fs = (m', fs')" "mv_ok fs0 fs m" "mv_trash m \<noteq> mv_meta m" "mv_src m \<noteq> mv_trash m" "mv_src m \<noteq> mv_meta m"
    and src: "fs (mv_src m) = None \<or> fs (mv_src m) = fs0 (mv_src m)"
    and old: "fs (mv_meta m) = None \<Longrightarrow> fs0 (mv_meta m) = None" "fs (mv_trash m) = None \<Longrightarrow> fs0 (mv_trash m) = None"
  shows "mv_ok fs0 fs' m'"
proof (cases "mv_pc m")
  case (PutMeta rest)
  then show ?thesis using assms(1-5) by (auto simp: mv_step_defs mv_ok_def split: if_splits option.splits)
next
  case (PutCopy rest)
  then show ?thesis using assms(1-5) by (auto simp: mv_step_defs mv_ok_def copied_def split: if_splits option.splits)
next
  case NewMeta
  then show ?thesis using assms(1-5) old(1) by (auto simp: mv_step_defs mv_ok_def split: if_splits)
next
  case OpenSrc
  then show ?thesis using assms(1-5) src by (auto simp: mv_step_defs mv_ok_def split: if_splits option.splits)
next
  case (NewCopy b)
  then show ?thesis using assms(1-5) old(2) by (auto simp: mv_step_defs mv_ok_def split: if_splits)
next
  case (Finished b)
  then show ?thesis using assms(1,2) by (simp add: mv_step_def)
qed (use assms in \<open>auto simp: mv_step_defs mv_ok_def copied_def split: if_splits\<close>)

subsection \<open>Many movers\<close>

text \<open>No two movers share a file they make, and no source is such a file.\<close>

definition apart :: "mover list \<Rightarrow> bool" where
  "apart ms \<longleftrightarrow>
     (\<forall>i < length ms. \<forall>j < length ms.
        mv_trash (ms ! i) \<noteq> mv_meta (ms ! j) \<and> mv_src (ms ! i) \<noteq> mv_trash (ms ! j) \<and> mv_src (ms ! i) \<noteq> mv_meta (ms ! j)
        \<and> (i \<noteq> j \<longrightarrow> mv_trash (ms ! i) \<noteq> mv_trash (ms ! j) \<and> mv_meta (ms ! i) \<noteq> mv_meta (ms ! j)))"

definition sources :: "mover list \<Rightarrow> string set" where
  "sources ms = mv_src ` set ms"

definition moves_inv :: "files \<Rightarrow> movers \<Rightarrow> bool" where
  "moves_inv fs0 s \<longleftrightarrow>
     (case s of (ms, fs) \<Rightarrow>
        apart ms \<and> (\<forall>m \<in> set ms. mv_ok fs0 fs m)
        \<and> (\<forall>q. fs0 q \<noteq> None \<longrightarrow> q \<notin> sources ms \<longrightarrow> fs q = fs0 q)
        \<and> (\<forall>q \<in> sources ms. fs q = fs0 q \<or> fs q = None \<and> (\<exists>m \<in> set ms. mv_src m = q \<and> mv_pc m = Finished True)))"

lemma sys_step_inv:
  assumes inv: "moves_inv fs0 (ms, fs)" and k: "k < length ms" and st: "mv_step a (ms ! k) fs = (m', fs')"
  shows "moves_inv fs0 (ms[k := m'], fs')"
proof -
  let ?m = "ms ! k" and ?ms = "ms[k := m']"
  have ap: "apart ms" and ok: "\<forall>m \<in> set ms. mv_ok fs0 fs m"
    and old: "\<And>q. fs0 q \<noteq> None \<Longrightarrow> q \<notin> sources ms \<Longrightarrow> fs q = fs0 q"
    and src: "\<And>q. q \<in> sources ms \<Longrightarrow> fs q = fs0 q \<or> fs q = None \<and> (\<exists>m \<in> set ms. mv_src m = q \<and> mv_pc m = Finished True)"
    using inv by (auto simp: moves_inv_def)
  note fixed = mv_step_fixed [OF st]
  have m: "?m \<in> set ms" "mv_ok fs0 fs ?m" using k ok by simp_all
  have sep: "mv_trash ?m \<noteq> mv_meta ?m" "mv_src ?m \<noteq> mv_trash ?m" "mv_src ?m \<noteq> mv_meta ?m" using ap k unfolding apart_def by blast+
  have not_src: "mv_trash ?m \<notin> sources ms" "mv_meta ?m \<notin> sources ms"
    using ap k unfolding apart_def sources_def by (force simp: in_set_conv_nth)+
  have same: "mv_src (?ms ! i) = mv_src (ms ! i)" "mv_trash (?ms ! i) = mv_trash (ms ! i)" "mv_meta (?ms ! i) = mv_meta (ms ! i)"
    if "i < length ms" for i using that fixed by (cases "i = k"; simp)+
  have "apart ?ms" using ap unfolding apart_def by (simp add: same)
  moreover have srcs: "sources ?ms = sources ms"
  proof -
    have "map mv_src ?ms = map mv_src ms" using fixed(1) k by (simp add: map_update) (metis list_update_id nth_map)
    then show ?thesis unfolding sources_def by (metis set_map)
  qed
  moreover have m'_ok: "mv_ok fs0 fs' m'"
  proof (rule mv_step_ok [OF st m(2) sep])
    show "fs (mv_src ?m) = None \<or> fs (mv_src ?m) = fs0 (mv_src ?m)" using src [of "mv_src ?m"] m(1) by (auto simp: sources_def)
    show "fs0 (mv_meta ?m) = None" if "fs (mv_meta ?m) = None" using old [OF _ not_src(2)] that by fastforce
    show "fs0 (mv_trash ?m) = None" if "fs (mv_trash ?m) = None" using old [OF _ not_src(1)] that by fastforce
  qed
  moreover have "mv_ok fs0 fs' (ms ! i)" if "i < length ms" "i \<noteq> k" for i
  proof -
    have "mv_meta (ms ! i) \<notin> {mv_src ?m, mv_trash ?m, mv_meta ?m}" "mv_trash (ms ! i) \<notin> {mv_src ?m, mv_trash ?m, mv_meta ?m}"
      using ap k that unfolding apart_def by (metis insertE singletonD)+
    then show ?thesis using mv_ok_cong [of fs' "ms ! i" fs fs0] mv_step_frame [OF st] ok that(1) by simp
  qed
  then have "mv_ok fs0 fs' (?ms ! i)" if "i < length ms" for i using m'_ok that by (cases "i = k") simp_all
  then have "\<forall>m \<in> set ?ms. mv_ok fs0 fs' m" by (auto simp: in_set_conv_nth)
  moreover have "fs' q = fs0 q" if "fs0 q \<noteq> None" "q \<notin> sources ms" for q
    using mv_step_old [OF st m(2) old [OF that] that(1)] that(2) m(1) by (auto simp: sources_def)
  moreover have "fs' q = fs0 q \<or> fs' q = None \<and> (\<exists>x \<in> set ?ms. mv_src x = q \<and> mv_pc x = Finished True)" if "q \<in> sources ms" for q
  proof (cases "\<exists>x \<in> set ms. mv_src x = q \<and> mv_pc x = Finished True")
    case True
    then obtain x where x: "x \<in> set ms" "mv_src x = q" "mv_pc x = Finished True" by blast
    have "x \<in> set ?ms"
    proof (cases "x = ?m")
      case True
      then have "m' = x" using st x(3) by (simp add: mv_step_def)
      then show ?thesis using k by (simp add: set_update_memI)
    next
      case False
      then show ?thesis using x(1) by (metis in_set_conv_nth length_list_update nth_list_update_neq)
    qed
    moreover have "fs' q = fs q \<or> fs' q = None"
      using mv_step_frame [OF st] mv_step_src [OF st sep(2,3)] that not_src by metis
    ultimately show ?thesis using src [OF that] x by auto
  next
    case False
    then have "fs q = fs0 q" using src [OF that] by blast
    moreover have "m' \<in> set ?ms" using k by (simp add: set_update_memI)
    moreover have "fs' q = fs q \<or> q = mv_src ?m \<and> fs' q = None \<and> mv_pc m' = Finished True"
      using mv_step_frame [OF st] mv_step_src [OF st sep(2,3)] that not_src by metis
    ultimately show ?thesis using fixed(1) by auto
  qed
  ultimately show ?thesis unfolding moves_inv_def by (simp add: srcs)
qed

lemma sys_run_inv: "moves_inv fs0 s \<Longrightarrow> moves_inv fs0 (sys_run sch s)"
proof (induction sch arbitrary: s)
  case (Cons ka sch)
  obtain ms fs k a where s: "s = (ms, fs)" "ka = (k, a)" by (metis surj_pair)
  obtain m' fs' where st: "mv_step a (ms ! k) fs = (m', fs')" by fastforce
  have "moves_inv fs0 (sys_step ka s)" using Cons.prems sys_step_inv [OF _ _ st] by (simp add: sys_step_def s st)
  then show ?case using Cons.IH by simp
qed simp

lemma sys_run_fixed:
  "length (fst (sys_run sch s)) = length (fst s)
   \<and> (\<forall>i < length (fst s). mv_src (fst (sys_run sch s) ! i) = mv_src (fst s ! i) \<and> mv_trash (fst (sys_run sch s) ! i) = mv_trash (fst s ! i)
        \<and> mv_meta (fst (sys_run sch s) ! i) = mv_meta (fst s ! i) \<and> mv_json (fst (sys_run sch s) ! i) = mv_json (fst s ! i))"
proof (induction sch arbitrary: s)
  case (Cons ka sch)
  obtain ms fs k a where s: "s = (ms, fs)" "ka = (k, a)" by (metis surj_pair)
  obtain m' fs' where st: "mv_step a (ms ! k) fs = (m', fs')" by fastforce
  have "length (fst (sys_step ka s)) = length ms" by (simp add: sys_step_def s st)
  moreover have "mv_src (fst (sys_step ka s) ! i) = mv_src (ms ! i) \<and> mv_trash (fst (sys_step ka s) ! i) = mv_trash (ms ! i)
      \<and> mv_meta (fst (sys_step ka s) ! i) = mv_meta (ms ! i) \<and> mv_json (fst (sys_step ka s) ! i) = mv_json (ms ! i)" for i
    using mv_step_fixed [OF st] by (cases "i = k") (simp_all add: sys_step_def s st)
  ultimately show ?case using Cons.IH [of "sys_step ka s"] by (simp add: s)
qed simp

text \<open>Calls with their own nonces, of files outside the trash, are such movers.\<close>

lemma new_movers_inv:
  assumes "distinct (map fst cs)" "length cs = length xs" "\<forall>x \<in> set xs. \<forall>n. cand_path x \<noteq> dir @ ''/'' @ n"
  shows "moves_inv fs ((map2 (\<lambda>ct. new_mover ser dir (snd ct) (fst ct)) cs xs), fs)"
proof -
  let ?ms = "map2 (\<lambda>ct. new_mover ser dir (snd ct) (fst ct)) cs xs"
  have nth: "?ms ! i = new_mover ser dir (snd (cs ! i)) (fst (cs ! i)) (xs ! i)" if "i < length ?ms" for i using that assms(2) by simp
  have "cand_path (xs ! i) \<noteq> dir @ ''/'' @ n" if "i < length xs" for i n using assms(3) that by (metis nth_mem)
  then have out: "mv_src (?ms ! i) \<noteq> dir @ ''/'' @ n" if "i < length ?ms" for i n using that assms(2) nth [OF that] by (simp add: new_mover_def)
  have "apart ?ms"
  proof (unfold apart_def, intro allI impI conjI)
    fix i j assume i: "i < length ?ms" and j: "j < length ?ms"
    note ij = nth [OF i] nth [OF j]
    show "mv_trash (?ms ! i) \<noteq> mv_meta (?ms ! j)" unfolding ij by (simp add: new_mover_def trash_path_not_meta)
    obtain n n' where "mv_trash (?ms ! j) = dir @ ''/'' @ n" "mv_meta (?ms ! j) = dir @ ''/'' @ n'"
      unfolding ij by (simp add: new_mover_def trash_path_def meta_path_def)
    then show "mv_src (?ms ! i) \<noteq> mv_trash (?ms ! j)" "mv_src (?ms ! i) \<noteq> mv_meta (?ms ! j)" using out [OF i, of n] out [OF i, of n'] by simp_all
    assume "i \<noteq> j"
    then have "fst (cs ! i) \<noteq> fst (cs ! j)" using i j assms(1,2) nth_eq_iff_index_eq [OF assms(1), of i j] by simp
    then have "trash_path dir k x t (fst (cs ! i)) \<noteq> trash_path dir k' x' t' (fst (cs ! j))" "meta_path dir k x t (fst (cs ! i)) \<noteq> meta_path dir k' x' t' (fst (cs ! j))"
      for k x t k' x' t' using trash_path_unique meta_path_unique by blast+
    then show "mv_trash (?ms ! i) \<noteq> mv_trash (?ms ! j)" "mv_meta (?ms ! i) \<noteq> mv_meta (?ms ! j)" unfolding ij by (simp_all add: new_mover_def)
  qed
  moreover have "mv_ok fs fs m" if "m \<in> set ?ms" for m using that by (auto simp: mv_ok_def new_mover_def in_set_zip)
  ultimately show ?thesis by (simp add: moves_inv_def)
qed

subsection \<open>A move ends\<close>

text \<open>How many more calls a mover makes at most, and what it returns.\<close>

fun mv_left :: "nat \<Rightarrow> nat \<Rightarrow> mover_pc \<Rightarrow> nat" where
  "mv_left j c MakeDir = j + c + 9"
| "mv_left j c NewMeta = j + c + 8"
| "mv_left j c (PutMeta rest) = length rest + c + 7"
| "mv_left j c OpenSrc = c + 6"
| "mv_left j c (NewCopy b) = length b + 5"
| "mv_left j c (PutCopy rest) = length rest + 4"
| "mv_left j c UnlinkSrc = 3"
| "mv_left j c DropMeta = 1"
| "mv_left j c RollMeta = 2"
| "mv_left j c RollCopy = 1"
| "mv_left j c (Finished b) = 0"

definition src_within :: "nat \<Rightarrow> files \<Rightarrow> mover \<Rightarrow> bool" where
  "src_within c fs m \<longleftrightarrow> (case fs (mv_src m) of Some b \<Rightarrow> length b \<le> c | None \<Rightarrow> True)"

lemma chunk_pos: "rest \<noteq> [] \<Longrightarrow> length (drop (chunk a rest) rest) < length rest"
  by (cases a) auto

lemma mv_step_left:
  assumes "mv_step a m fs = (m', fs')" "src_within c fs m" "\<And>b. mv_pc m \<noteq> Finished b"
  shows "mv_left (length (mv_json m)) c (mv_pc m') < mv_left (length (mv_json m)) c (mv_pc m)"
proof (cases "mv_pc m")
  case (PutMeta rest)
  then show ?thesis using assms(1) chunk_pos [of rest a] by (auto simp: mv_step_defs split: if_splits option.splits)
next
  case (PutCopy rest)
  then show ?thesis using assms(1) chunk_pos [of rest a] by (auto simp: mv_step_defs split: if_splits option.splits)
qed (use assms in \<open>auto simp: mv_step_defs src_within_def split: if_splits option.splits\<close>)

lemma mv_step_within:
  assumes "mv_step a m fs = (m', fs')" "src_within c fs m" "mv_src m \<noteq> mv_trash m" "mv_src m \<noteq> mv_meta m"
  shows "src_within c fs' m'"
  using mv_step_src [OF assms(1,3,4)] mv_step_fixed(1) [OF assms(1)] assms(2) by (auto simp: src_within_def)

lemma mv_run_ends:
  assumes "src_within c fs m" "mv_src m \<noteq> mv_trash m" "mv_src m \<noteq> mv_meta m" "mv_left (length (mv_json m)) c (mv_pc m) \<le> length as"
  shows "\<exists>b. mv_pc (fst (mv_run as m fs)) = Finished b"
  using assms
proof (induction as arbitrary: m fs)
  case Nil
  then show ?case by (cases "mv_pc m") simp_all
next
  case (Cons a as)
  obtain m' fs' where st: "mv_step a m fs = (m', fs')" by fastforce
  note fixed = mv_step_fixed [OF st]
  have "mv_left (length (mv_json m)) c (mv_pc m') \<le> length as"
  proof (cases "\<exists>b. mv_pc m = Finished b")
    case True
    then have "m' = m" using st by (auto simp: mv_step_def)
    then show ?thesis using True by auto
  next
    case False
    then show ?thesis using mv_step_left [OF st Cons.prems(1)] Cons.prems(4) by simp
  qed
  then show ?case using Cons.IH [of fs' m'] Cons.prems mv_step_within [OF st] st fixed by simp
qed

text \<open>Where no call fails, the source is moved.\<close>

definition mv_fine :: "files \<Rightarrow> mover \<Rightarrow> bool" where
  "mv_fine fs m \<longleftrightarrow>
     (case mv_pc m of
        Finished b \<Rightarrow> b \<and> fs (mv_src m) = None
      | DropMeta \<Rightarrow> False | RollMeta \<Rightarrow> False | RollCopy \<Rightarrow> False
      | pc \<Rightarrow> fs (mv_src m) \<noteq> None \<and> (pc \<in> {MakeDir, NewMeta} \<longrightarrow> fs (mv_meta m) = None)
              \<and> ((\<forall>rest. pc \<noteq> PutCopy rest) \<and> pc \<noteq> UnlinkSrc \<longrightarrow> fs (mv_trash m) = None))"

lemma mv_step_fine:
  assumes "mv_step a m fs = (m', fs')" "mv_fine fs m" "a \<noteq> Failed" "mv_trash m \<noteq> mv_meta m" "mv_src m \<noteq> mv_trash m" "mv_src m \<noteq> mv_meta m"
  shows "mv_fine fs' m'"
  using assms by (cases "mv_pc m") (auto simp: mv_step_defs mv_fine_def split: if_splits option.splits)

lemma mv_run_fine:
  assumes "mv_fine fs m" "Failed \<notin> set as" "mv_trash m \<noteq> mv_meta m" "mv_src m \<noteq> mv_trash m" "mv_src m \<noteq> mv_meta m"
  shows "mv_fine (snd (mv_run as m fs)) (fst (mv_run as m fs))"
  using assms
proof (induction as arbitrary: m fs)
  case (Cons a as)
  obtain m' fs' where st: "mv_step a m fs = (m', fs')" by fastforce
  have "mv_fine fs' m'" using mv_step_fine [OF st] Cons.prems by auto
  then show ?case using Cons.IH [of fs' m'] Cons.prems mv_step_fixed [OF st] st by simp
qed simp

text \<open>A mover alone is a system of one.\<close>

lemma mv_run_sys: "sys_run (map (\<lambda>a. (0, a)) as) ([m], fs) = ([fst (mv_run as m fs)], snd (mv_run as m fs))"
proof (induction as arbitrary: m fs)
  case (Cons a as)
  obtain m' fs' where st: "mv_step a m fs = (m', fs')" by fastforce
  then show ?case using Cons.IH [of m' fs'] by (simp add: sys_step_def)
qed simp

subsection \<open>A sweep of the inbox\<close>

text \<open>Whose mail is kept: of a session that is not known to be dead or is being recovered, or has such a successor.\<close>

definition maybe_back :: "gate_env \<Rightarrow> string \<Rightarrow> bool" where
  "maybe_back G i \<longleftrightarrow>
     ge_probe G i \<noteq> LockFree \<or> (\<exists>row k. read_recovery_row (ge_rows G) i = Some row \<and> ladder_state row = Running k)"

lemma live_or_recovering_iff: "recipient_live_or_recovering G i now \<longleftrightarrow> maybe_back G i"
proof -
  have "presence_is_live (ge_probe G) i \<longleftrightarrow> ge_probe G i \<noteq> LockFree" by (cases "ge_probe G i") (simp_all add: presence_is_live_def)
  moreover have "pr_recovery (presence_of (ge_procs G) (ge_probe G) (ge_rows G) i now) = map_option ladder_state (read_recovery_row (ge_rows G) i)"
    by (simp add: presence_of_def Let_def)
  ultimately show ?thesis
    by (auto simp: recipient_live_or_recovering_def maybe_back_def split: option.splits LadderState.splits)
qed

lemma recipient_protected_iff:
  "recipient_protected G to now \<longleftrightarrow>
   (\<exists>i. to = Some i \<and> (maybe_back G i \<or> (\<exists>row n. read_recovery_row (ge_rows G) i = Some row \<and> new_session_id row = Some n \<and> maybe_back G n)))"
  by (auto simp: recipient_protected_def live_or_recovering_iff split: option.splits)

lemma scan_file_Some:
  assumes "scan_file de G dir now f = Some x"
  obtains b r where "json_extension (if_name f)" "if_bytes f = Some b" "de b = Some r" "cand_path x = dir @ ''/'' @ if_name f"
    "\<not> recipient_protected G (ir_to_session r) now"
    "case ir_acked_at_ms r of Some a \<Rightarrow> ACK_GRACE_MS \<le> now - a
     | None \<Rightarrow> (case ir_ttl_ms r of Some t \<Rightarrow> t | None \<Rightarrow> INBOX_TTL_MS)
               \<le> now - (case parse_iso_ms (ir_received_at r) of Some t \<Rightarrow> t | None \<Rightarrow> case if_mtime f of Some t \<Rightarrow> t | None \<Rightarrow> 0)"
proof -
  obtain r where r: "Option.bind (if_bytes f) de = Some r" using assms by (auto simp: scan_file_def split: if_splits option.splits)
  then obtain b where b: "if_bytes f = Some b" "de b = Some r" by (auto simp: Option.bind_eq_Some_conv)
  have "json_extension (if_name f)" using assms by (auto simp: scan_file_def split: if_splits)
  moreover have "inbox_is_collectible (case parse_iso_ms (ir_received_at r) of Some t \<Rightarrow> t | None \<Rightarrow> case if_mtime f of Some t \<Rightarrow> t | None \<Rightarrow> 0)
      (ir_acked_at_ms r) (case ir_ttl_ms r of Some t \<Rightarrow> t | None \<Rightarrow> INBOX_TTL_MS) now (recipient_protected G (ir_to_session r) now)"
    "cand_path x = dir @ ''/'' @ if_name f"
    using assms r by (auto simp: scan_file_def Let_def split: if_splits)
  ultimately show thesis using that b by (simp add: inbox_is_collectible_def split: if_splits)
qed

lemma mv_run_frame:
  "q \<notin> {mv_src m, mv_trash m, mv_meta m} \<Longrightarrow> snd (mv_run as m fs) q = fs q"
proof (induction as arbitrary: m fs)
  case (Cons a as)
  obtain m' fs' where st: "mv_step a m fs = (m', fs')" by fastforce
  then show ?case using Cons mv_step_fixed [OF st] mv_step_frame [OF st] by simp
qed simp

lemma sweep_moves_frame:
  assumes "\<forall>n. q \<noteq> trash @ ''/'' @ n" "q \<notin> cand_path ` fst ` set xs"
  shows "snd (sweep_moves ser trash now p n xs fs) q = fs q"
  using assms(2)
proof (induction xs arbitrary: n fs)
  case (Cons xa xs)
  obtain x as where xa: "xa = (x, as)" by fastforce
  obtain m fs' where run: "mv_run as (new_mover ser trash now (p, n) x) fs = (m, fs')" by fastforce
  have "q \<notin> {cand_path x, trash_path trash (cand_kind x) (cand_identifier x) now (p, n), meta_path trash (cand_kind x) (cand_identifier x) now (p, n)}"
    using assms(1) Cons.prems xa unfolding meta_path_def trash_path_def append_assoc by auto
  then have "fs' q = fs q" using mv_run_frame [of q "new_mover ser trash now (p, n) x" as fs] run by (simp add: new_mover_def)
  then show ?case using Cons run xa by (auto split: mover_pc.split prod.split) (metis snd_conv)
qed simp

end
