(* ===== verification/Reconcile.thy ===== *)
theory Reconcile
  imports Liveness
begin

text \<open>
  \<open>qd reconcile\<close>: the plan (\<open>crates/dispatch/src/reconcile.rs\<close>) and the command that carries it out
  (\<open>crates/dispatch/src/bin/qd/verbs/reconcile.rs\<close>). Of a registry entry and of a session of the
  multiplexer only the fields that the code reads are kept. What a run does is the list of its effects.
\<close>

record reg_entry =
  re_pid :: "int option"
  re_name :: "string option"
  re_session_id :: "string option"
  re_started_at :: "int option"

record mux_session =
  mx_name :: string
  mx_pid :: int
  mx_clients :: nat
  mx_socket_dir :: "string option"
  mx_ended :: "int option"
  mx_status :: "string option"
  mx_err :: "string option"

datatype Action =
    TombstoneDeadRegistry int string
  | ReapOrphanWrapper int string "string option" string

record Plan =
  pl_actions :: "Action list"
  live_registry_pids :: "int set"

subsection \<open>The plan\<close>

definition dead_detail :: "reg_entry \<Rightarrow> int \<Rightarrow> string" where
  "dead_detail entry n =
     (case re_name entry of Some x \<Rightarrow> x | None \<Rightarrow> (case re_session_id entry of Some x \<Rightarrow> x | None \<Rightarrow> []))
     @ '' (pid '' @ pad 0 n @ '' dead)''"

definition plan_registry_entry :: "(int \<Rightarrow> bool) \<Rightarrow> reg_entry \<Rightarrow> Plan \<Rightarrow> Plan" where
  "plan_registry_entry is_alive entry p =
     (case re_pid entry of
        None \<Rightarrow> p
      | Some n \<Rightarrow>
          if is_alive n then p\<lparr>live_registry_pids := insert n (live_registry_pids p)\<rparr>
          else p\<lparr>pl_actions := pl_actions p @ [TombstoneDeadRegistry n (dead_detail entry n)]\<rparr>)"

definition mux_dead :: "mux_session \<Rightarrow> bool" where
  "mux_dead z \<longleftrightarrow> mx_ended z \<noteq> None \<or> mx_status z = Some ''unreachable'' \<or> mx_err z \<noteq> None"

definition reap_detail :: "mux_session \<Rightarrow> string" where
  "reap_detail z =
     ''zmx '' @ [CHR 0x22] @ mx_name z @ [CHR 0x22]
     @ (if mux_dead z then '' (ended/unreachable, in '' else '' (pid '' @ pad 0 (mx_pid z) @ '' dead, in '')
     @ (case mx_socket_dir z of Some d \<Rightarrow> d | None \<Rightarrow> ''?'') @ '')''"

definition plan_mux_session :: "(int \<Rightarrow> bool) \<Rightarrow> mux_session \<Rightarrow> Plan \<Rightarrow> Plan" where
  "plan_mux_session is_alive z p =
     (if 0 < mx_clients z then p
      else if \<not> mux_dead z \<and> is_alive (mx_pid z) then p
      else if \<not> mux_dead z \<and> mx_pid z \<in> live_registry_pids p then p
      else p\<lparr>pl_actions := pl_actions p @ [ReapOrphanWrapper (mx_pid z) (mx_name z) (mx_socket_dir z) (reap_detail z)]\<rparr>)"

definition plan :: "reg_entry list \<Rightarrow> mux_session list \<Rightarrow> (int \<Rightarrow> bool) \<Rightarrow> Plan" where
  "plan registry zmx_raw is_alive =
     fold (plan_mux_session is_alive) zmx_raw
       (fold (plan_registry_entry is_alive) registry \<lparr>pl_actions = [], live_registry_pids = {}\<rparr>)"

subsection \<open>The command\<close>

definition identity_of :: "reg_entry list \<Rightarrow> int \<Rightarrow> int option \<times> string option" where
  "identity_of registry n =
     (case List.find (\<lambda>e. re_pid e = Some n) registry of Some e \<Rightarrow> (re_started_at e, re_session_id e) | None \<Rightarrow> (None, None))"

text \<open>\<open>kill0\<close> is \<open>kill -0\<close>.\<close>

definition reconcile_is_alive :: "ProcProbe \<Rightarrow> (string \<Rightarrow> LockProbe) \<Rightarrow> (int \<Rightarrow> bool) \<Rightarrow> reg_entry list \<Rightarrow> int \<Rightarrow> bool" where
  "reconcile_is_alive P probe kill0 registry n =
     (case identity_of registry n of
        (Some start, sid) \<Rightarrow> is_session_live_reconciled P probe sid n start
      | (None, _) \<Rightarrow> kill0 (as_i32 n))"

datatype reconcile_effect = Tombstoned int | MuxKilled string string | PidKilled int

text \<open>
  What the calls of a run answer: whether a tombstone was made, the exit code of the multiplexer's kill
  (\<open>1\<close> where it could not be run), and whether a pid is alive afterwards.
\<close>

record reconcile_env =
  rc_tombstone :: "int \<Rightarrow> bool"
  rc_mux_kill :: "string \<Rightarrow> string \<Rightarrow> int"
  rc_alive_after :: "int \<Rightarrow> bool"

fun drive_action :: "reconcile_env \<Rightarrow> string \<Rightarrow> bool \<Rightarrow> Action \<Rightarrow> reconcile_effect list \<times> nat" where
  "drive_action E canonical dry_run (TombstoneDeadRegistry n detail) =
     (if dry_run then ([], 0) else ([Tombstoned n], if rc_tombstone E n then 0 else 1))"
| "drive_action E canonical dry_run (ReapOrphanWrapper n nm sd detail) =
     (if dry_run then ([], 0)
      else let dir = (case sd of Some d \<Rightarrow> d | None \<Rightarrow> canonical);
               code = rc_mux_kill E dir nm
           in (MuxKilled dir nm # (if 0 < n then [PidKilled n] else []),
               if code \<noteq> 0 \<and> 0 < n \<and> rc_alive_after E n then 1 else 0))"

definition reconcile_run :: "reconcile_env \<Rightarrow> string \<Rightarrow> bool \<Rightarrow> Plan \<Rightarrow> reconcile_effect list \<times> int" where
  "reconcile_run E canonical dry_run p =
     (let rs = map (drive_action E canonical dry_run) (pl_actions p)
      in (concat (map fst rs), if sum_list (map snd rs) = 0 then 0 else 1))"

subsection \<open>What is planned\<close>

lemma plan_registry_entry_sel:
  "live_registry_pids (plan_registry_entry is_alive e p) =
     live_registry_pids p \<union> {n. re_pid e = Some n \<and> is_alive n}"
  "x \<in> set (pl_actions (plan_registry_entry is_alive e p)) \<longleftrightarrow>
     x \<in> set (pl_actions p) \<or> (\<exists>n. re_pid e = Some n \<and> \<not> is_alive n \<and> x = TombstoneDeadRegistry n (dead_detail e n))"
  by (auto simp: plan_registry_entry_def split: option.split)

lemma fold_registry_live:
  "live_registry_pids (fold (plan_registry_entry is_alive) registry p) =
     live_registry_pids p \<union> {n. is_alive n \<and> (\<exists>e \<in> set registry. re_pid e = Some n)}"
  by (induction registry arbitrary: p) (auto simp: plan_registry_entry_sel)

lemma fold_registry_actions:
  "(\<exists>d. TombstoneDeadRegistry n d \<in> set (pl_actions (fold (plan_registry_entry is_alive) registry p))) \<longleftrightarrow>
     (\<exists>d. TombstoneDeadRegistry n d \<in> set (pl_actions p)) \<or> \<not> is_alive n \<and> (\<exists>e \<in> set registry. re_pid e = Some n)"
  by (induction registry arbitrary: p) (auto simp: plan_registry_entry_sel)

lemma fold_registry_reaps:
  "ReapOrphanWrapper n nm sd d \<in> set (pl_actions (fold (plan_registry_entry is_alive) registry p)) \<longleftrightarrow> ReapOrphanWrapper n nm sd d \<in> set (pl_actions p)"
  by (induction registry arbitrary: p) (auto simp: plan_registry_entry_sel)

text \<open>A session is reaped exactly if nobody is attached and it is reported dead or its process is not alive.\<close>

definition reaped :: "(int \<Rightarrow> bool) \<Rightarrow> mux_session \<Rightarrow> bool" where
  "reaped is_alive z \<longleftrightarrow> mx_clients z = 0 \<and> (mux_dead z \<or> \<not> is_alive (mx_pid z))"

lemma plan_mux_session_reaped:
  assumes "live_registry_pids p \<subseteq> Collect is_alive"
  shows "plan_mux_session is_alive z p =
    (if reaped is_alive z then p\<lparr>pl_actions := pl_actions p @ [ReapOrphanWrapper (mx_pid z) (mx_name z) (mx_socket_dir z) (reap_detail z)]\<rparr> else p)"
proof (cases "mux_dead z \<or> \<not> is_alive (mx_pid z)")
  case True
  then have "\<not> (\<not> mux_dead z \<and> mx_pid z \<in> live_registry_pids p)" using assms by auto
  then show ?thesis using True by (simp add: plan_mux_session_def reaped_def)
qed (simp add: plan_mux_session_def reaped_def)

lemma plan_mux_session_sel:
  assumes "live_registry_pids p \<subseteq> Collect is_alive"
  shows "live_registry_pids (plan_mux_session is_alive z p) = live_registry_pids p"
    "(\<exists>d. TombstoneDeadRegistry n d \<in> set (pl_actions (plan_mux_session is_alive z p))) \<longleftrightarrow> (\<exists>d. TombstoneDeadRegistry n d \<in> set (pl_actions p))"
    "(\<exists>d. ReapOrphanWrapper n nm sd d \<in> set (pl_actions (plan_mux_session is_alive z p))) \<longleftrightarrow>
       (\<exists>d. ReapOrphanWrapper n nm sd d \<in> set (pl_actions p)) \<or> reaped is_alive z \<and> n = mx_pid z \<and> nm = mx_name z \<and> sd = mx_socket_dir z"
  by (simp_all add: plan_mux_session_reaped [of p is_alive z, OF assms] ex_disj_distrib disj_ac)

lemma fold_mux_sel:
  assumes "live_registry_pids p \<subseteq> Collect is_alive"
  shows "live_registry_pids (fold (plan_mux_session is_alive) zs p) = live_registry_pids p
    \<and> ((\<exists>d. TombstoneDeadRegistry n d \<in> set (pl_actions (fold (plan_mux_session is_alive) zs p))) \<longleftrightarrow> (\<exists>d. TombstoneDeadRegistry n d \<in> set (pl_actions p)))
    \<and> ((\<exists>d. ReapOrphanWrapper n nm sd d \<in> set (pl_actions (fold (plan_mux_session is_alive) zs p))) \<longleftrightarrow>
        (\<exists>d. ReapOrphanWrapper n nm sd d \<in> set (pl_actions p))
        \<or> (\<exists>z \<in> set zs. reaped is_alive z \<and> n = mx_pid z \<and> nm = mx_name z \<and> sd = mx_socket_dir z))"
  using assms
proof (induction zs arbitrary: p)
  case (Cons z zs)
  note one = plan_mux_session_sel [of p is_alive, OF Cons.prems]
  have "live_registry_pids (plan_mux_session is_alive z p) \<subseteq> Collect is_alive" using Cons.prems one(1) by simp
  from Cons.IH [OF this] show ?case by (simp add: one disj_assoc)
qed simp

lemma plan_sel:
  shows plan_live: "live_registry_pids (plan registry zs is_alive) = {n. is_alive n \<and> (\<exists>e \<in> set registry. re_pid e = Some n)}"
    and plan_tombstones: "(\<exists>d. TombstoneDeadRegistry n d \<in> set (pl_actions (plan registry zs is_alive))) \<longleftrightarrow>
      \<not> is_alive n \<and> (\<exists>e \<in> set registry. re_pid e = Some n)"
    and plan_reaps: "(\<exists>d. ReapOrphanWrapper n nm sd d \<in> set (pl_actions (plan registry zs is_alive))) \<longleftrightarrow>
      (\<exists>z \<in> set zs. reaped is_alive z \<and> n = mx_pid z \<and> nm = mx_name z \<and> sd = mx_socket_dir z)"
proof -
  let ?p = "fold (plan_registry_entry is_alive) registry \<lparr>pl_actions = [], live_registry_pids = {}\<rparr>"
  have live: "live_registry_pids ?p \<subseteq> Collect is_alive" by (auto simp: fold_registry_live)
  note sel = fold_mux_sel [of ?p is_alive, OF live]
  show "live_registry_pids (plan registry zs is_alive) = {n. is_alive n \<and> (\<exists>e \<in> set registry. re_pid e = Some n)}"
    using sel by (simp add: plan_def fold_registry_live)
  show "(\<exists>d. TombstoneDeadRegistry n d \<in> set (pl_actions (plan registry zs is_alive))) \<longleftrightarrow>
      \<not> is_alive n \<and> (\<exists>e \<in> set registry. re_pid e = Some n)"
    using sel by (simp add: plan_def fold_registry_actions)
  show "(\<exists>d. ReapOrphanWrapper n nm sd d \<in> set (pl_actions (plan registry zs is_alive))) \<longleftrightarrow>
      (\<exists>z \<in> set zs. reaped is_alive z \<and> n = mx_pid z \<and> nm = mx_name z \<and> sd = mx_socket_dir z)"
    using sel by (simp add: plan_def fold_registry_reaps)
qed

text \<open>The pids a run signals, and the ones whose entries it retires.\<close>

lemma run_effects:
  assumes "reconcile_run E canonical dry p = (es, code)"
  shows "PidKilled n \<in> set es \<longleftrightarrow> \<not> dry \<and> 0 < n \<and> (\<exists>nm sd d. ReapOrphanWrapper n nm sd d \<in> set (pl_actions p))"
    "reconcile_effect.Tombstoned n \<in> set es \<longleftrightarrow> \<not> dry \<and> (\<exists>d. TombstoneDeadRegistry n d \<in> set (pl_actions p))"
proof -
  have es: "set es = (\<Union>a \<in> set (pl_actions p). set (fst (drive_action E canonical dry a)))"
    using assms by (auto simp: reconcile_run_def Let_def)
  have "PidKilled n \<in> set (fst (drive_action E canonical dry a)) \<longleftrightarrow> \<not> dry \<and> 0 < n \<and> (\<exists>nm sd d. a = ReapOrphanWrapper n nm sd d)"
    "reconcile_effect.Tombstoned n \<in> set (fst (drive_action E canonical dry a)) \<longleftrightarrow> \<not> dry \<and> (\<exists>d. a = TombstoneDeadRegistry n d)" for a
    by (cases a; auto simp: Let_def)+
  then show "PidKilled n \<in> set es \<longleftrightarrow> \<not> dry \<and> 0 < n \<and> (\<exists>nm sd d. ReapOrphanWrapper n nm sd d \<in> set (pl_actions p))"
    "reconcile_effect.Tombstoned n \<in> set es \<longleftrightarrow> \<not> dry \<and> (\<exists>d. TombstoneDeadRegistry n d \<in> set (pl_actions p))"
    unfolding es by auto
qed

end
