(* ===== verification/Upkeep_Props.thy ===== *)
theory Upkeep_Props
  imports Recovery_Inv Gc_Inv Reconcile
begin

text \<open>Properties of liveness, recovery, garbage collection and reconciliation.\<close>

subsection \<open>The trash\<close>

text \<open>C6. Nothing is lost on the way to the trash, whoever moves it and wherever a mover stops. Any number
  of calls of \<open>move_to_trash_at\<close>, of several processes, on the same and on different files, each with its
  own process id and counter value, are interleaved call by call of the file system; any call may fail,
  and a mover may stop after any of them. A file that was there at the start is still there as it was,
  or a call that moved it has returned true and its complete copy stands in the trash with its complete
  sidecar. Whatever a call that returned true moved stays in the trash, and nothing that was in the
  trash before is touched.\<close>

theorem trash_no_loss:
  assumes "distinct (map fst cs)" "length cs = length xs" "\<forall>x \<in> set xs. \<forall>n. cand_path x \<noteq> dir @ ''/'' @ n"
    and "sys_run sch (map2 (\<lambda>ct. new_mover ser dir (snd ct) (fst ct)) cs xs, fs) = (ms, fs')"
  shows "(fs path = Some b \<longrightarrow>
      fs' path = Some b
      \<or> (\<exists>m \<in> set ms. mv_src m = path \<and> mv_pc m = Finished True \<and> fs' (mv_trash m) = Some b \<and> fs' (mv_meta m) = Some (mv_json m)))
    \<and> (m \<in> set ms \<and> mv_pc m = Finished True \<longrightarrow>
      fs (mv_src m) \<noteq> None \<and> fs' (mv_trash m) = fs (mv_src m) \<and> fs' (mv_meta m) = Some (mv_json m))
    \<and> (fs (dir @ ''/'' @ n) \<noteq> None \<longrightarrow> fs' (dir @ ''/'' @ n) = fs (dir @ ''/'' @ n))"
proof (intro conjI)
  let ?ms = "map2 (\<lambda>ct. new_mover ser dir (snd ct) (fst ct)) cs xs"
  have "moves_inv fs (sys_run sch (?ms, fs))" by (intro sys_run_inv new_movers_inv assms(1-3))
  then have inv: "moves_inv fs (ms, fs')" using assms(4) by simp
  have fin: "copied fs fs' m" if "m \<in> set ms" "mv_pc m = Finished True" for m
    using inv that by (force simp: moves_inv_def mv_ok_def)
  show "m \<in> set ms \<and> mv_pc m = Finished True \<longrightarrow>
      fs (mv_src m) \<noteq> None \<and> fs' (mv_trash m) = fs (mv_src m) \<and> fs' (mv_meta m) = Some (mv_json m)"
    using fin by (simp add: copied_def)
  show "fs path = Some b \<longrightarrow>
      fs' path = Some b
      \<or> (\<exists>m \<in> set ms. mv_src m = path \<and> mv_pc m = Finished True \<and> fs' (mv_trash m) = Some b \<and> fs' (mv_meta m) = Some (mv_json m))"
  proof
    assume b: "fs path = Some b"
    show "fs' path = Some b
      \<or> (\<exists>m \<in> set ms. mv_src m = path \<and> mv_pc m = Finished True \<and> fs' (mv_trash m) = Some b \<and> fs' (mv_meta m) = Some (mv_json m))"
    proof (cases "path \<in> sources ms \<and> fs' path \<noteq> fs path")
      case True
      then obtain m where "m \<in> set ms" "mv_src m = path" "mv_pc m = Finished True" using inv by (auto simp: moves_inv_def)
      then show ?thesis using fin [of m] b by (auto simp: copied_def)
    next
      case False
      moreover have "fs' path = fs path" if "path \<notin> sources ms" using inv b that by (simp add: moves_inv_def)
      ultimately have "fs' path = fs path" by blast
      then show ?thesis using b by simp
    qed
  qed
  have "mv_src m \<in> cand_path ` set xs" if m: "m \<in> set ms" for m
  proof -
    obtain i where i: "i < length ms" "m = ms ! i" using m by (auto simp: in_set_conv_nth)
    then have "i < length ?ms" "mv_src m = mv_src (?ms ! i)" using sys_run_fixed [of sch "(?ms, fs)"] assms(4) by simp_all
    then show ?thesis using assms(2) by (simp add: new_mover_def)
  qed
  then have "sources ms \<subseteq> cand_path ` set xs" by (auto simp: sources_def)
  moreover have "dir @ ''/'' @ n \<notin> cand_path ` set xs" using assms(3) by (metis imageE)
  ultimately have "dir @ ''/'' @ n \<notin> sources ms" by blast
  then show "fs (dir @ ''/'' @ n) \<noteq> None \<longrightarrow> fs' (dir @ ''/'' @ n) = fs (dir @ ''/'' @ n)" using inv by (simp add: moves_inv_def)
qed

text \<open>Two calls on one file, step by step in turn: the one that comes second finds the file gone, and both copies stand.\<close>

theorem trash_no_loss_witness:
  "\<exists>ms fs'.
     sys_run (concat (replicate 9 [(0, Done), (1, Wrote 1)])) (map2 (\<lambda>ct. new_mover (\<lambda>t. ''m'') ''t'' (snd ct) (fst ct)) [((7, 0), 0), ((8, 0), 0)]
       (replicate 2 \<lparr>cand_kind = RelayInbox, cand_path = ''i/a'', cand_reason = [], cand_size = 1, cand_identifier = ''a''\<rparr>), [''i/a'' \<mapsto> ''x'']) = (ms, fs')
     \<and> fs' ''i/a'' = None \<and> (\<exists>m \<in> set ms. mv_src m = ''i/a'' \<and> mv_pc m = Finished True \<and> fs' (mv_trash m) = Some ''x'' \<and> fs' (mv_meta m) = Some (mv_json m))"
proof -
  let ?s = "sys_run (concat (replicate 9 [(0, Done), (1, Wrote 1)])) (map2 (\<lambda>ct. new_mover (\<lambda>t. ''m'') ''t'' (snd ct) (fst ct)) [((7, 0), 0), ((8, 0), 0)]
       (replicate 2 \<lparr>cand_kind = RelayInbox, cand_path = ''i/a'', cand_reason = [], cand_size = 1, cand_identifier = ''a''\<rparr>), [''i/a'' \<mapsto> ''x''])"
  obtain ms fs' where run: "?s = (ms, fs')" by (rule prod.exhaust)
  have "snd ?s ''i/a'' = None" by code_simp
  then have "fs' ''i/a'' = None" unfolding run by simp
  moreover from trash_no_loss [where path = "''i/a''" and b = "''x''", OF _ _ _ run, THEN conjunct1]
  have "fs' ''i/a'' = Some ''x'' \<or> (\<exists>m \<in> set ms. mv_src m = ''i/a'' \<and> mv_pc m = Finished True \<and> fs' (mv_trash m) = Some ''x'' \<and> fs' (mv_meta m) = Some (mv_json m))"
    by simp
  ultimately show ?thesis using run by auto
qed

text \<open>C19. A move ends and works. However the file system answers, a call of \<open>move_to_trash_at\<close> makes at most
  as many calls as the sidecar and the file have bytes, and nine more, and then has returned; if no call
  fails and the names are free, it has returned true, the file is gone, and its copy and the sidecar are
  complete.\<close>

theorem trash_move_ends:
  assumes "\<forall>n. cand_path x \<noteq> dir @ ''/'' @ n" "fs (cand_path x) = Some b"
    and "mv_run as (new_mover ser dir now c x) fs = (m, fs')" "length (mv_json m) + length b + 9 \<le> length as"
  shows "(\<exists>r. mv_pc m = Finished r)
    \<and> (Failed \<notin> set as \<and> fs (mv_meta m) = None \<and> fs (mv_trash m) = None \<longrightarrow>
      mv_pc m = Finished True \<and> fs' (cand_path x) = None \<and> fs' (mv_trash m) = Some b \<and> fs' (mv_meta m) = Some (mv_json m))"
proof (intro conjI)
  let ?m = "new_mover ser dir now c x"
  have sep: "mv_trash ?m \<noteq> mv_meta ?m" "mv_src ?m \<noteq> mv_trash ?m" "mv_src ?m \<noteq> mv_meta ?m"
    using assms(1) trash_path_not_meta by (auto simp: new_mover_def trash_path_def meta_path_def)
  have sys: "sys_run (map (\<lambda>a. (0, a)) as) ([?m], fs) = ([m], fs')" using mv_run_sys [of as ?m fs] assms(3) by simp
  have fixed: "mv_src m = mv_src ?m" "mv_trash m = mv_trash ?m" "mv_meta m = mv_meta ?m" "mv_json m = mv_json ?m"
    using sys_run_fixed [of "map (\<lambda>a. (0, a)) as" "([?m], fs)"] unfolding sys by simp_all
  have ends: "\<exists>r. mv_pc (fst (mv_run as ?m fs)) = Finished r"
    using assms(2,4) fixed(4) by (intro mv_run_ends [where c = "length b"] sep) (simp_all add: src_within_def new_mover_def)
  then show r: "\<exists>r. mv_pc m = Finished r" using assms(3) by simp
  show "Failed \<notin> set as \<and> fs (mv_meta m) = None \<and> fs (mv_trash m) = None \<longrightarrow>
      mv_pc m = Finished True \<and> fs' (cand_path x) = None \<and> fs' (mv_trash m) = Some b \<and> fs' (mv_meta m) = Some (mv_json m)"
  proof
    assume ok: "Failed \<notin> set as \<and> fs (mv_meta m) = None \<and> fs (mv_trash m) = None"
    have "mv_fine fs ?m" using ok assms(2) fixed by (simp add: mv_fine_def new_mover_def)
    then have "mv_fine (snd (mv_run as ?m fs)) (fst (mv_run as ?m fs))" by (rule mv_run_fine) (use ok sep in simp_all)
    then have fine: "mv_pc m = Finished True" "fs' (mv_src m) = None" using r assms(3) by (auto simp: mv_fine_def)
    have "moves_inv fs (map2 (\<lambda>ct. new_mover ser dir (snd ct) (fst ct)) [(c, now)] [x], fs)"
      by (rule new_movers_inv) (use assms(1) in simp_all)
    then have "moves_inv fs (sys_run (map (\<lambda>a. (0, a)) as) ([?m], fs))" by (intro sys_run_inv) simp
    then have "copied fs fs' m" using fine unfolding sys by (simp add: moves_inv_def mv_ok_def)
    then show "mv_pc m = Finished True \<and> fs' (cand_path x) = None \<and> fs' (mv_trash m) = Some b \<and> fs' (mv_meta m) = Some (mv_json m)"
      using fine fixed(1) assms(2) by (simp add: copied_def new_mover_def)
  qed
qed

theorem trash_move_ends_witness:
  "\<exists>m fs'. mv_run (replicate 20 Done) (new_mover (\<lambda>t. ''m'') ''t'' 0 (7, 0)
       \<lparr>cand_kind = RelayInbox, cand_path = ''i/a'', cand_reason = [], cand_size = 1, cand_identifier = ''a''\<rparr>) [''i/a'' \<mapsto> ''x''] = (m, fs')
     \<and> mv_pc m = Finished True \<and> fs' ''i/a'' = None \<and> fs' (mv_trash m) = Some ''x''"
proof -
  let ?x = "\<lparr>cand_kind = RelayInbox, cand_path = ''i/a'', cand_reason = [], cand_size = 1, cand_identifier = ''a''\<rparr>"
  let ?r = "mv_run (replicate 20 Done) (new_mover (\<lambda>t. ''m'') ''t'' 0 (7, 0) ?x) [''i/a'' \<mapsto> ''x'']"
  obtain m fs' where run: "?r = (m, fs')" by (rule prod.exhaust)
  have "mv_json (fst ?r) = ''m''" "mv_meta (fst ?r) \<noteq> ''i/a''" "mv_trash (fst ?r) \<noteq> ''i/a''" by code_simp+
  then have "mv_json m = ''m''" "mv_meta m \<noteq> ''i/a''" "mv_trash m \<noteq> ''i/a''" unfolding run by simp_all
  then show ?thesis using trash_move_ends [OF _ _ run, of "''x''"] run by auto
qed

text \<open>A copy that fails part of the way leaves what it had written, and no sidecar.\<close>

theorem partial_copy_left:
  assumes "mv_pc m = PutCopy rest" "rest \<noteq> []" "mv_trash m \<noteq> mv_meta m"
  shows "mv_pc (fst (mv_run [Failed, Done] m fs)) = Finished False"
    "snd (mv_run [Failed, Done] m fs) (mv_trash m) = fs (mv_trash m)" "snd (mv_run [Failed, Done] m fs) (mv_meta m) = None"
  using assms by (simp_all add: mv_step_defs)

text \<open>The formatting of times here and in the core crate agree.\<close>

theorem iso_from_ms_core: "iso_from_ms ms = epoch_ms_to_iso ms"
  by (simp add: iso_from_ms_def epoch_ms_to_iso_def civil_from_epoch_ms_def Let_def split_beta)

subsection \<open>The inbox\<close>

text \<open>C17. The mail of a session that may still want it is not collected. A sweep of the relay inbox, whatever
  the file system answers to its moves and wherever it stops, leaves a message file byte for byte in place
  if the message is addressed to a session whose liveness lock is not free, or that is on a rung of the
  recovery ladder, or whose recovery row names a successor of which one of these holds; or if it is not
  older than the hour of grace after it was acknowledged, or unacknowledged and not older than its time
  to live.\<close>

theorem wanted_mail_kept:
  assumes "distinct (map if_name files)" "f \<in> set files" "if_bytes f = Some b" "de b = Some r"
    and "\<forall>n. inbox @ ''/'' @ if_name f \<noteq> trash @ ''/'' @ n"
    and "(\<exists>i. ir_to_session r = Some i
          \<and> (maybe_back G i \<or> (\<exists>row n. read_recovery_row (ge_rows G) i = Some row \<and> new_session_id row = Some n \<and> maybe_back G n)))
       \<or> (case ir_acked_at_ms r of
            Some a \<Rightarrow> now - a < ACK_GRACE_MS
          | None \<Rightarrow> now - (case parse_iso_ms (ir_received_at r) of Some t \<Rightarrow> t | None \<Rightarrow> case if_mtime f of Some t \<Rightarrow> t | None \<Rightarrow> 0)
                    < (case ir_ttl_ms r of Some t \<Rightarrow> t | None \<Rightarrow> INBOX_TTL_MS))"
  shows "snd (sweep_inbox_once de ser G inbox trash now c answers files fs) (inbox @ ''/'' @ if_name f) = fs (inbox @ ''/'' @ if_name f)"
proof -
  have none: "scan_file de G inbox now f = None"
  proof (rule ccontr)
    assume "scan_file de G inbox now f \<noteq> None"
    then obtain x where "scan_file de G inbox now f = Some x" by blast
    then show False
      by (rule scan_file_Some) (use assms(3,4,6) recipient_protected_iff [of G "ir_to_session r" now] in \<open>auto split: option.splits\<close>)
  qed
  have "inbox @ ''/'' @ if_name f \<noteq> cand_path x" if x: "x \<in> set (scan_collectible de G inbox now files)" for x
  proof -
    obtain g where g: "g \<in> set files" "scan_file de G inbox now g = Some x" using x by (auto simp: scan_collectible_def List.map_filter_def)
    then have "g \<noteq> f" using none by auto
    then have "if_name g \<noteq> if_name f" using assms(1,2) g(1) by (meson distinct_map inj_onD)
    then show ?thesis using g(2) by (auto elim: scan_file_Some)
  qed
  then have "inbox @ ''/'' @ if_name f \<notin> cand_path ` fst ` set (zip (scan_collectible de G inbox now files) answers)"
    by (force dest: set_zip_leftD)
  then show ?thesis unfolding sweep_inbox_once_def using assms(5) by (intro sweep_moves_frame)
qed

text \<open>Mail to a session whose lock is free and whose successor holds one.\<close>

definition mail_gate :: gate_env where
  "mail_gate = \<lparr>ge_procs = \<lparr>pp_start_ms = \<lambda>p. None, pp_liveness = \<lambda>p. ProcGone\<rparr>, ge_probe = \<lambda>i. if i = ''old'' then LockFree else LockHeld,
     ge_rows = [''old'' \<mapsto> Some ((cold_row ''old'')\<lparr>new_session_id := Some ''new''\<rparr>)]\<rparr>"

definition mail_record :: "string \<Rightarrow> InboxRecord option" where
  "mail_record b = Some \<lparr>ir_text = b, ir_from_session = [], ir_message_id = ''m'', ir_received_at = [], ir_to_session = Some ''old'',
     ir_acked_at_ms = None, ir_ttl_ms = None\<rparr>"

theorem wanted_mail_kept_witness:
  "snd (sweep_inbox_once mail_record (\<lambda>t. ''j'') mail_gate ''i'' ''t'' 9999999999 (7, 0) [replicate 20 Done]
      [\<lparr>if_name = ''a.json'', if_bytes = Some ''hello'', if_mtime = Some 0, if_len = Some 5\<rparr>] [''i/a.json'' \<mapsto> ''hello'']) ''i/a.json'' = Some ''hello''"
proof -
  let ?f = "\<lparr>if_name = ''a.json'', if_bytes = Some ''hello'', if_mtime = Some 0, if_len = Some 5\<rparr>"
  have "read_recovery_row (ge_rows mail_gate) ''old'' = Some ((cold_row ''old'')\<lparr>new_session_id := Some ''new''\<rparr>)" "maybe_back mail_gate ''new''"
    by (simp_all add: mail_gate_def read_recovery_row_def maybe_back_def)
  then have succ: "\<exists>row n. read_recovery_row (ge_rows mail_gate) ''old'' = Some row \<and> new_session_id row = Some n \<and> maybe_back mail_gate n" by force
  obtain r where r: "mail_record ''hello'' = Some r" "ir_to_session r = Some ''old''" by (simp add: mail_record_def)
  have "snd (sweep_inbox_once mail_record (\<lambda>t. ''j'') mail_gate ''i'' ''t'' 9999999999 (7, 0) [replicate 20 Done] [?f] [''i/a.json'' \<mapsto> ''hello''])
      (''i'' @ ''/'' @ if_name ?f) = [''i/a.json'' \<mapsto> ''hello''] (''i'' @ ''/'' @ if_name ?f)"
    by (rule wanted_mail_kept [where b = "''hello''" and r = r]) (use r succ in \<open>simp_all\<close>)
  then show ?thesis by simp
qed

subsection \<open>The destructive rung\<close>

text \<open>C7. The destructive rung is safe to interrupt anywhere. Whatever the system calls answer, its log has at
  most one kill, and it is of the recorded pid, after the intent to kill it was durable and after its start
  time was asked for: the answer agreed with the recorded one, or there was no answer. No answer is not
  evidence that the process is the recorded one or that it is gone (\<open>proc_start_ms\<close> also gives none when \<open>ps\<close>
  fails), so in that case a pid that was not verified may be killed. Whatever prefix of the log
  has happened when the coordinator dies, once a successor was spawned the durable row never leads the
  coordinator that comes next to kill again: it finds the successor healthy, verifies it again under the
  id that was recorded before the spawn, or has nothing to do.\<close>

theorem rung4_crash_safe:
  assumes "execute_rung4 V row0 old started_at budget poll w0 = Some (oc, w')" "rw_log w0 = []"
  shows "(kills (rw_log w') = [] \<or> kills (rw_log w') = [id_pid old])
    \<and> (rw_log w' = before @ KilledPid p res # after \<longrightarrow>
      p = id_pid old \<and> rr_phase (durable_row row0 before) = Killing \<and> old_identity (durable_row row0 before) = Some old
      \<and> (\<exists>cur. Fenced (id_pid old) cur \<in> set before \<and> (\<forall>t. cur = Some t \<longrightarrow> \<bar>t - id_start_ms old\<bar> \<le> START_TIME_SLACK_MS)))
    \<and> (spawned_id None (take n (rw_log w')) = Some i \<longrightarrow>
      resume_action (durable_row row0 (take n (rw_log w'))) healthy \<in> {if healthy then SuccessorHealthy else ReverifySuccessor i, ResumeCold})"
proof (intro conjI)
  have d: "disciplined old Unchecked None row0 (rw_log w')" using rung4_adds [OF assms(1)] assms(2) by (auto simp: adds_def)
  show "kills (rw_log w') = [] \<or> kills (rw_log w') = [id_pid old]" using kills_at_most_one [OF d] by blast
  show "rw_log w' = before @ KilledPid p res # after \<longrightarrow>
      p = id_pid old \<and> rr_phase (durable_row row0 before) = Killing \<and> old_identity (durable_row row0 before) = Some old
      \<and> (\<exists>cur. Fenced (id_pid old) cur \<in> set before \<and> (\<forall>t. cur = Some t \<longrightarrow> \<bar>t - id_start_ms old\<bar> \<le> START_TIME_SLACK_MS))"
    using d kill_guard [of old row0 before p res after] by auto
  show "spawned_id None (take n (rw_log w')) = Some i \<longrightarrow>
      resume_action (durable_row row0 (take n (rw_log w'))) healthy \<in> {if healthy then SuccessorHealthy else ReverifySuccessor i, ResumeCold}"
    using durable_after_spawn [OF disciplined_take [OF d, of n]] resume_after_spawn by blast
qed

text \<open>An environment in which every call succeeds and the successor is ready at the second look.\<close>

definition ready_env :: "(int \<times> nat) REnv" where
  "ready_env =
     \<lparr>rv_write = \<lambda>e. (True, e), rv_start_ms = \<lambda>p e. (Some 1000, e), rv_kill = \<lambda>p e. (KillOk, e), rv_entry = \<lambda>p e. (Some (Some 5), e),
      rv_rename = \<lambda>p e. (True, e), rv_mint = \<lambda>e. (Some ''s'', e), rv_spawn = \<lambda>i e. (Some 43, e),
      rv_confirm = \<lambda>p i e. (1 \<le> snd e, (fst e, snd e + 1)), rv_now = \<lambda>e. (fst e, e), rv_sleep = \<lambda>ms e. (fst e + int ms, snd e)\<rparr>"

definition old_process :: ProcIdentity where
  "old_process = \<lparr>id_pid = 42, id_start_ms = 900, id_incarnation = 1\<rparr>"

lemma ready_env_clock: "rung4_clock ready_env fst"
  by (simp add: rung4_clock_def ready_env_def)

theorem rung4_crash_safe_witness:
  "\<exists>oc w'. execute_rung4 ready_env (cold_row ''x'') old_process (Some 5) 60000 500 \<lparr>rw_log = [], rw_env = (0, 0)\<rparr> = Some (oc, w')
     \<and> (kills (rw_log w') = [] \<or> kills (rw_log w') = [42])"
proof -
  obtain oc w' where run: "execute_rung4 ready_env (cold_row ''x'') old_process (Some 5) 60000 500 \<lparr>rw_log = [], rw_env = (0, 0)\<rparr> = Some (oc, w')"
    using rung4_returns [OF ready_env_clock, of 500] by fastforce
  from rung4_crash_safe [OF run, THEN conjunct1] show ?thesis using run by (simp add: old_process_def)
qed

text \<open>C18. The destructive rung returns, and what it returns is true. If the clock does not run backwards, sleeping
  moves it and the poll is not zero, it returns whatever the other calls answer. For each outcome the log is exactly one of the
  runs of \<open>rung4_run\<close>, and the durable row is the one of \<open>outcome_row\<close>. \<open>Recovered\<close>: the pid was killed, its
  registry row was tried to be renamed, the successor was spawned under the id and the pid told, and the
  row is idle, names it and has no failures. \<open>SpawnFailed\<close> and \<open>SuccessorUnconfirmed\<close>: killed and renamed in the
  same way, the spawn failed, or gave that pid and was not confirmed in time; the row stands at \<open>Spawning\<close> or
  \<open>Confirming\<close> with the id. An abort on a mismatch of identity killed, renamed and spawned nothing; an abort
  on a reused row killed the pid and renamed and spawned nothing, and the start times differ; both leave an
  idle row. An error: the last entry of the log is the call that failed, the write of a row, the kill or
  the minting of an id, and everything before it went as in one of these runs.\<close>

theorem rung4_returns_truth:
  assumes "rung4_clock V clk" "0 < poll" "rw_log w0 = []"
  shows "\<exists>oc w'. execute_rung4 V row0 old started_at budget poll w0 = Some (oc, w')
    \<and> rung4_run row0 old started_at oc (rw_log w') \<and> outcome_row row0 old oc (durable_row row0 (rw_log w'))"
proof -
  obtain oc w' where run: "execute_rung4 V row0 old started_at budget poll w0 = Some (oc, w')"
    using rung4_returns [OF assms(1,2)] by fastforce
  then show ?thesis using rung4_log [OF run] rung4_run_row assms(3) by (auto intro: exI [of _ oc])
qed

theorem rung4_returns_truth_witness:
  "\<exists>oc w'. execute_rung4 ready_env (cold_row ''x'') old_process (Some 5) 60000 500 \<lparr>rw_log = [], rw_env = (0, 0)\<rparr> = Some (oc, w')
     \<and> rung4_run (cold_row ''x'') old_process (Some 5) oc (rw_log w')
     \<and> outcome_row (cold_row ''x'') old_process oc (durable_row (cold_row ''x'') (rw_log w'))"
  by (rule rung4_returns_truth [OF ready_env_clock]) simp_all

text \<open>A recovery that succeeded is seen as the replacement of the old process by the new session.\<close>

theorem recovered_is_replacement:
  assumes "execute_rung4 V row0 old started_at budget poll w0 = Some (Rung4Recovered sid p, w')" "rw_log w0 = []"
  shows "detect_session_replaced (Running Respawn) (ladder_state (durable_row row0 (rw_log w'))) (Some old)
      (new_session_id (durable_row row0 (rw_log w'))) (Some inc)
    = Some \<lparr>sr_old_identity = old, sr_new_session_id = sid, sr_new_incarnation = inc\<rparr>"
  using rung4_log [OF assms(1)] rung4_run_row assms(2)
  by (fastforce simp: detect_session_replaced_def killing_row_def spawning_row_def)

subsection \<open>The ladder\<close>

text \<open>
  When a session is acted upon, and how far: it is wedged by both signals, or its channel is down though
  it should run, or it is dead with work outstanding. The ladder never reaches the destructive rung where
  the harness has no live output signal.
\<close>

theorem ladder_decision:
  "evaluate_session obs =
     (if is_dead_dangling obs then ArmLadder (ladder_ceiling (signal_b_harness_live obs)) (ladder_ceiling (signal_b_harness_live obs))
      else if lc_is_alive (ob_live obs) \<and> ob_status obs = Busy \<and> signal_a_stuck obs \<and> signal_b_stale obs
              \<and> \<not> (is_headless obs \<and> daemon_state obs = DaemonDown)
              \<or> should_be_running obs \<and> connect_ok obs = Some False
      then ArmLadder PidfdSignal (ladder_ceiling (signal_b_harness_live obs))
      else NoAction)"
proof -
  have "cap_rung Respawn b = ladder_ceiling b" for b by (simp add: cap_rung_def ladder_ceiling_def less_eq_Rung_def min_def)
  then show ?thesis
    by (simp add: evaluate_session_def ladder_trigger_def authorizes_recovery_def wedged_iff Let_def) blast
qed

theorem ladder_capped:
  assumes "evaluate_session obs = ArmLadder entry ceil" "entry \<le> r" "r \<le> ceil"
  shows "is_destructive r \<longrightarrow> signal_b_harness_live obs"
  using assms by (auto simp: ladder_decision ladder_ceiling_def is_destructive_def less_eq_Rung_def split: if_splits)

text \<open>Three confirmed failures in a row, and nothing less, are critical.\<close>

fun failures_in_row :: "RecoveryOutcome list \<Rightarrow> nat" where
  "failures_in_row [] = 0"
| "failures_in_row (oc # ocs) = (case oc of Recovered \<Rightarrow> 0 | ConfirmedFailure \<Rightarrow> failures_in_row ocs + 1 | Indeterminate \<Rightarrow> failures_in_row ocs)"

theorem strikes_count_failures:
  assumes "length ocs < 2 ^ 32"
  shows "fst (foldr (\<lambda>oc s. apply_outcome (fst s) oc) ocs (0, False)) = failures_in_row ocs"
proof -
  have le: "failures_in_row ocs \<le> length ocs" for ocs by (induction ocs) (auto split: RecoveryOutcome.split)
  show ?thesis using assms
  proof (induction ocs)
    case (Cons oc ocs)
    then show ?case using le [of ocs] by (cases oc) (simp_all add: apply_outcome_def Let_def)
  qed simp
qed

subsection \<open>The coordinator\<close>

text \<open>C20. What a pass of the coordinator does to the rows. Where every file is named after its row, a pass leaves
  a row as it is or makes exactly one of two changes, and only if the row has no owner, an expired owner
  or this coordinator as its owner: a row with three failures or more becomes critical; a row with fewer
  that stands at \<open>Spawning\<close> or \<open>Confirming\<close>, and whose successor's lock is not free, becomes idle without an
  owner. The identity, the ids and the failures of a row never change, files that are not rows stay,
  every row file is counted exactly once as seen or as unreadable, and the heartbeat moves by one.\<close>

theorem coordinator_pass_steps:
  assumes "coordinator_pass mine prev now beat_ok probe ok names m = Some (m', rep, evs)" "rows_named m"
  shows "(m' i = m i
      \<or> (\<exists>r. m i = Some (Some r) \<and> can_acquire_lease (ladder_owner r) mine now
          \<and> (CRIT_CONSECUTIVE_FAILURES \<le> consecutive_failures r \<and> m' i = Some (Some (r\<lparr>ladder_state := Crit\<rparr>))
             \<or> consecutive_failures r < CRIT_CONSECUTIVE_FAILURES \<and> rr_phase r \<in> {Spawning, Confirming}
               \<and> (\<exists>n. new_session_id r = Some n \<and> probe n \<noteq> LockFree)
               \<and> m' i = Some (Some (r\<lparr>ladder_state := LadderIdle, rr_phase := PhaseIdle, ladder_owner := None\<rparr>)))))
    \<and> (rows_named m')
    \<and> (rows_seen rep + corrupt_skipped rep = length (filter (\<lambda>n. row_session n \<noteq> None) names))
    \<and> (heartbeat rep = min (prev + 1) (2 ^ 64 - 1))"
proof (intro conjI)
  have run: "coordinator_rows mine now probe ok names (m, pass_report_new (min (prev + 1) (2 ^ 64 - 1)), []) = (m', rep, evs)"
    using assms(1) by (simp add: coordinator_pass_def split: if_splits)
  note st = coordinator_rows_stepped [OF run assms(2)]
  have probe: "probe_dead (probe n) \<longleftrightarrow> probe n = LockFree" for n by (cases "probe n") simp_all
  show "rows_named m'" using st by blast
  show "rows_seen rep + corrupt_skipped rep = length (filter (\<lambda>n. row_session n \<noteq> None) names)" "heartbeat rep = min (prev + 1) (2 ^ 64 - 1)"
    using coordinator_rows_counts [OF run] by (simp_all add: pass_report_new_def)
  show "m' i = m i
      \<or> (\<exists>r. m i = Some (Some r) \<and> can_acquire_lease (ladder_owner r) mine now
          \<and> (CRIT_CONSECUTIVE_FAILURES \<le> consecutive_failures r \<and> m' i = Some (Some (r\<lparr>ladder_state := Crit\<rparr>))
             \<or> consecutive_failures r < CRIT_CONSECUTIVE_FAILURES \<and> rr_phase r \<in> {Spawning, Confirming}
               \<and> (\<exists>n. new_session_id r = Some n \<and> probe n \<noteq> LockFree)
               \<and> m' i = Some (Some (r\<lparr>ladder_state := LadderIdle, rr_phase := PhaseIdle, ladder_owner := None\<rparr>))))"
  proof (cases "m' i = m i")
    case False
    then obtain r r' where "m i = Some (Some r)" "m' i = Some (Some r')" "row_step mine now probe r r'"
      using st unfolding rows_stepped_def by blast
    then show ?thesis by (auto simp: row_step_def probe)
  qed simp
qed

theorem coordinator_pass_steps_witness:
  "\<exists>m' rep evs.
     coordinator_pass 7 0 1000 True (\<lambda>n. LockHeld) (\<lambda>i. True) [''x.json'', ''.x.json.tmp.1'']
       [''x'' \<mapsto> Some ((cold_row ''x'')\<lparr>rr_phase := Confirming, new_session_id := Some ''s''\<rparr>)] = Some (m', rep, evs)
     \<and> rows_named m' \<and> heartbeat rep = 1"
proof -
  let ?m = "[''x'' \<mapsto> Some ((cold_row ''x'')\<lparr>rr_phase := Confirming, new_session_id := Some ''s''\<rparr>)]"
  obtain m' rep evs where run: "coordinator_pass 7 0 1000 True (\<lambda>n. LockHeld) (\<lambda>i. True) [''x.json'', ''.x.json.tmp.1''] ?m = Some (m', rep, evs)"
    by (simp add: coordinator_pass_def) (metis prod_cases3)
  have "rows_named ?m" by (simp add: rows_named_def cold_row_def)
  from coordinator_pass_steps [OF run this, THEN conjunct2] show ?thesis using run by simp
qed

text \<open>C37. A recovery that failed is taken for one that worked. If the spawn of the successor fails, the rung leaves
  the row at \<open>Spawning\<close> with the id it had minted, for the next pass to look at again. No process ever took
  the liveness lock of that id, so there is no lock file, which the probe does not count as dead: the
  next pass counts the successor as healthy and clears the row. No process replaced the one that was
  killed, and nothing is left that says so, whatever number of failures below three the caller has
  recorded.\<close>

theorem failed_spawn_taken_for_healthy:
  assumes "execute_rung4 V row0 old started_at budget poll w0 = Some (SpawnFailed sid, w')" "rw_log w0 = []"
    and "r = (durable_row row0 (rw_log w'))\<lparr>consecutive_failures := k\<rparr>" "k < CRIT_CONSECUTIVE_FAILURES"
    and "can_acquire_lease (ladder_owner r) mine now" "ok (rr_session_id r)" "probe sid = LockAbsent"
    and "m (rr_session_id r) = Some (Some r)"
    and "coordinator_row mine now probe ok (rr_session_id r) (m, rep, evs) = (m', rep', evs')"
  shows "(m' (rr_session_id r) = Some (Some (r\<lparr>ladder_state := LadderIdle, rr_phase := PhaseIdle, ladder_owner := None\<rparr>)))
    \<and> (successors_cleared rep' = successors_cleared rep + 1)"
proof (intro conjI)
  have "outcome_row row0 old (SpawnFailed sid) (durable_row row0 (rw_log w'))"
    using rung4_log [OF assms(1)] rung4_run_row assms(2) by fastforce
  then have r: "rr_phase r = Spawning" "new_session_id r = Some sid" "consecutive_failures r = k"
    using assms(3) by (simp_all add: spawning_row_def)
  then have "resume_action r True = SuccessorHealthy" by (simp add: resume_healthy_iff)
  moreover have "read_recovery_row m (rr_session_id r) = Some r" using assms(8) by (simp add: read_recovery_row_def)
  ultimately have "m' = put_row ok (r\<lparr>ladder_state := LadderIdle, rr_phase := PhaseIdle, ladder_owner := None\<rparr>) m"
    "successors_cleared rep' = successors_cleared rep + 1"
    using assms(4,5,7,9) r by (auto simp: coordinator_row_def Let_def split: option.splits if_splits)
  then show "m' (rr_session_id r) = Some (Some (r\<lparr>ladder_state := LadderIdle, rr_phase := PhaseIdle, ladder_owner := None\<rparr>))"
    "successors_cleared rep' = successors_cleared rep + 1" using assms(6) by (simp_all add: put_row_def)
qed

text \<open>The process is killed, and the spawn of its successor fails.\<close>

definition no_spawn_env :: "(int \<times> nat) REnv" where
  "no_spawn_env = ready_env\<lparr>rv_spawn := \<lambda>i e. (None, e)\<rparr>"

theorem failed_spawn_taken_for_healthy_witness:
  "\<exists>w' m' rep' evs'.
     execute_rung4 no_spawn_env (cold_row ''x'') old_process (Some 5) 60000 500 \<lparr>rw_log = [], rw_env = (0, 0)\<rparr> = Some (SpawnFailed ''s'', w')
     \<and> kills (rw_log w') = [42]
     \<and> coordinator_row 7 0 (\<lambda>n. LockAbsent) (\<lambda>i. True) ''x'' ([''x'' \<mapsto> Some ((durable_row (cold_row ''x'') (rw_log w'))\<lparr>consecutive_failures := 1\<rparr>)], pass_report_new 1, [])
         = (m', rep', evs')
     \<and> successors_cleared rep' = 1"
proof -
  let ?x = "execute_rung4 no_spawn_env (cold_row ''x'') old_process (Some 5) 60000 500 \<lparr>rw_log = [], rw_env = (0, 0)\<rparr>"
  have ex: "\<exists>w'. ?x = Some (SpawnFailed ''s'', w') \<and> kills (rw_log w') = [42] \<and> rr_session_id (durable_row (cold_row ''x'') (rw_log w')) = ''x''
      \<and> ladder_owner (durable_row (cold_row ''x'') (rw_log w')) = None"
    by (simp add: execute_rung4_def no_spawn_env_def ready_env_def write_recovery_row_def rw_note_def Let_def old_process_def START_TIME_SLACK_MS_def
        rung4_kill_def tombstone_guarded_def rung4_spawn_def cold_row_def kills_def List.map_filter_simps)
  then obtain w' where x: "?x = Some (SpawnFailed ''s'', w')" "kills (rw_log w') = [42]"
    "rr_session_id (durable_row (cold_row ''x'') (rw_log w')) = ''x''" "ladder_owner (durable_row (cold_row ''x'') (rw_log w')) = None" by blast
  let ?r = "(durable_row (cold_row ''x'') (rw_log w'))\<lparr>consecutive_failures := 1\<rparr>"
  obtain m' rep' evs' where run: "coordinator_row 7 0 (\<lambda>n. LockAbsent) (\<lambda>i. True) (rr_session_id ?r) ([''x'' \<mapsto> Some ?r], pass_report_new 1, []) = (m', rep', evs')"
    by (metis prod_cases3)
  have "successors_cleared rep' = successors_cleared (pass_report_new 1) + 1"
    by (rule failed_spawn_taken_for_healthy [OF x(1) _ refl _ _ _ _ _ run, THEN conjunct2])
      (simp_all add: CRIT_CONSECUTIVE_FAILURES_def can_acquire_lease_def x)
  then show ?thesis using x run by (auto simp: pass_report_new_def)
qed

subsection \<open>Reconciliation\<close>

text \<open>C36. What \<open>qd reconcile\<close> signals and retires. Exactly the entries of the registry whose process is not alive are
  retired. Exactly the positive pids of detached sessions of the multiplexer that are reported ended,
  unreachable or in error, or whose process is not alive, are killed. So a process that is alive, and
  even the process of a live registry entry, is killed whenever a detached session that is reported dead
  still carries its pid; otherwise no live process is touched.\<close>

theorem reconcile_kills_exactly:
  assumes "reconcile_run E canonical dry_run (plan registry zs (reconcile_is_alive P probe kill0 registry)) = (es, code)"
  shows "(reconcile_effect.Tombstoned n \<in> set es \<longleftrightarrow>
      \<not> dry_run \<and> (\<exists>e \<in> set registry. re_pid e = Some n) \<and> \<not> reconcile_is_alive P probe kill0 registry n)
    \<and> (PidKilled n \<in> set es \<longleftrightarrow>
      \<not> dry_run \<and> 0 < n \<and> (\<exists>z \<in> set zs. mx_pid z = n \<and> mx_clients z = 0 \<and> (mux_dead z \<or> \<not> reconcile_is_alive P probe kill0 registry n)))
    \<and> (n \<in> live_registry_pids (plan registry zs (reconcile_is_alive P probe kill0 registry)) \<longrightarrow>
      (PidKilled n \<in> set es \<longleftrightarrow> \<not> dry_run \<and> 0 < n \<and> (\<exists>z \<in> set zs. mx_pid z = n \<and> mx_clients z = 0 \<and> mux_dead z)))"
proof (intro conjI)
  note eff = run_effects [OF assms]
  show "reconcile_effect.Tombstoned n \<in> set es \<longleftrightarrow>
      \<not> dry_run \<and> (\<exists>e \<in> set registry. re_pid e = Some n) \<and> \<not> reconcile_is_alive P probe kill0 registry n"
    unfolding eff plan_tombstones by blast
  show killed: "PidKilled n \<in> set es \<longleftrightarrow>
      \<not> dry_run \<and> 0 < n \<and> (\<exists>z \<in> set zs. mx_pid z = n \<and> mx_clients z = 0 \<and> (mux_dead z \<or> \<not> reconcile_is_alive P probe kill0 registry n))"
    unfolding eff plan_reaps reaped_def by blast
  show "n \<in> live_registry_pids (plan registry zs (reconcile_is_alive P probe kill0 registry)) \<longrightarrow>
      (PidKilled n \<in> set es \<longleftrightarrow> \<not> dry_run \<and> 0 < n \<and> (\<exists>z \<in> set zs. mx_pid z = n \<and> mx_clients z = 0 \<and> mux_dead z))"
    unfolding killed plan_live by blast
qed

theorem reconcile_kills_exactly_witness:
  "\<exists>es code.
     reconcile_run \<lparr>rc_tombstone = \<lambda>n. True, rc_mux_kill = \<lambda>d n. 1, rc_alive_after = \<lambda>n. False\<rparr> ''d'' False
       (plan [\<lparr>re_pid = Some 42, re_name = Some ''a'', re_session_id = None, re_started_at = Some 1000\<rparr>]
          [\<lparr>mx_name = ''a'', mx_pid = 42, mx_clients = 0, mx_socket_dir = None, mx_ended = Some 5, mx_status = None, mx_err = None\<rparr>]
          (reconcile_is_alive \<lparr>pp_start_ms = \<lambda>p. Some 1000, pp_liveness = \<lambda>p. Sleeping\<rparr> (\<lambda>i. LockHeld) (\<lambda>p. True)
             [\<lparr>re_pid = Some 42, re_name = Some ''a'', re_session_id = None, re_started_at = Some 1000\<rparr>])) = (es, code)
     \<and> PidKilled 42 \<in> set es"
proof -
  let ?reg = "[\<lparr>re_pid = Some 42, re_name = Some ''a'', re_session_id = None, re_started_at = Some 1000\<rparr>]"
  let ?z = "\<lparr>mx_name = ''a'', mx_pid = 42, mx_clients = 0, mx_socket_dir = None, mx_ended = Some 5, mx_status = None, mx_err = None\<rparr>"
  let ?P = "\<lparr>pp_start_ms = \<lambda>p. Some 1000, pp_liveness = \<lambda>p. Sleeping\<rparr>"
  let ?E = "\<lparr>rc_tombstone = \<lambda>n. True, rc_mux_kill = \<lambda>d n. 1, rc_alive_after = \<lambda>n. False\<rparr>"
  obtain es code where run: "reconcile_run ?E ''d'' False (plan ?reg [?z] (reconcile_is_alive ?P (\<lambda>i. LockHeld) (\<lambda>p. True) ?reg)) = (es, code)"
    by (rule prod.exhaust)
  have "reconcile_is_alive ?P (\<lambda>i. LockHeld) (\<lambda>p. True) ?reg 42"
    by (simp add: reconcile_is_alive_def identity_of_def is_session_live_reconciled_def classify_inner_def lc_is_alive_def START_TIME_SLACK_MS_def)
  then have "42 \<in> live_registry_pids (plan ?reg [?z] (reconcile_is_alive ?P (\<lambda>i. LockHeld) (\<lambda>p. True) ?reg))" unfolding plan_live by simp
  with reconcile_kills_exactly [OF run, of 42, THEN conjunct2, THEN conjunct2] have "PidKilled 42 \<in> set es" by (simp add: mux_dead_def)
  then show ?thesis using run by blast
qed

end
