(* ===== verification/Spec2Isabelle.thy ===== *)
theory Spec2Isabelle
  imports Screen_Props Codec_Props Relay_Props Ledger_Props Identity_Props Door_Props Attended_Props Upkeep_Props
begin

text \<open>
  A verification library for quorum-dispatch.

  \<^bold>\<open>The program.\<close> quorum-dispatch runs many agent sessions on a host and lets them write to each other.
  \<open>crates/qrmux\<close> is the terminal multiplexer that holds a session's screen; \<open>crates/quorum-qw\<close> knows the
  agent programs and the lanes that reach them; \<open>crates/quorum-core\<close> holds the shared data (sessions,
  identifiers, time); \<open>crates/quorum-dispositions\<close> and \<open>crates/dispatch\<close> are the ledger of messages and the
  \<open>qd\<close> command line, of which \<open>qd send\<close> is the one door for a message, and the relay server that
  carries replies. A message enters at the door, is resolved to a session, logged, handed to a lane and
  stamped in the ledger; its reply comes back through the relay server; what a session prints goes
  through the screen. Where a human sits at the session, the multiplexer holds the message until the
  human pauses, puts it into the composer without losing the draft, and reports what became of it.
  Beside this runs the upkeep of the host: what is alive is read off the process table, a session that
  hangs is recovered on a ladder whose last rung kills and replaces it, old files go to a trash, and
  \<open>qd reconcile\<close> retires what is dead.

  \<^bold>\<open>The model.\<close> Rust functions are HOL functions on records and datatypes with the source's names. A
  function that may panic returns \<open>option\<close>, \<open>None\<close> being the panic (an index out of range, a checked
  overflow, a failed \<open>debug_assert!\<close>); a \<open>Result\<close> is a sum; an operation on a \<open>&mut self\<close> returns the new
  state; a \<open>for\<close> loop is \<open>foldM\<close> or \<open>repeatM\<close>, a \<open>while\<close> loop a recursion with a termination proof. A \<open>u16\<close>
  or \<open>u64\<close> is a natural number with its wrap-around or overflow check written out, an \<open>i64\<close> an integer
  with its range, a byte of the wire and of an identifier a word. A string is its UTF-8 bytes.
  Threads that share a lock are an inductive
  step relation whose steps are the lock spans, or a function of a schedule that says what the other
  thread does before each effect. A loop that waits for the outside world is a \<open>partial_function\<close>, where
  \<open>None\<close> is that it never ends. Code from outside the repository is an argument: the
  vte parser, the width table, bincode, the JSON library (\<open>json_ok\<close>), the SHA-256 digest, lower-casing,
  the clock, the file system's answers, the trait objects of the lanes. What is relied on is a named
  hypothesis, and every property that has one has a witness on concrete instances.

  \<^bold>\<open>The theories.\<close>
  \<^item> \<^verbatim>\<open>Prelude\<close>: results that may panic, loops, machine integers, vectors, the locale
    \<open>panic_free_machine\<close>. \<^verbatim>\<open>Rust_Str\<close>: the string functions of the standard library that are used.
  \<^item> \<^verbatim>\<open>Cell_Row\<close>, \<^verbatim>\<open>Style_Table\<close>, \<^verbatim>\<open>Grid\<close>, \<^verbatim>\<open>Grid_Geometry\<close>, \<^verbatim>\<open>Performer\<close>, \<^verbatim>\<open>Performer_Dispatch\<close>, \<^verbatim>\<open>Screen\<close>:
    \<open>qrmux/src/screen/\<close> (\<open>cell.rs\<close>, \<open>style.rs\<close>, \<open>grid.rs\<close>, \<open>grid_mutator.rs\<close>, \<open>performer.rs\<close>, \<open>mod.rs\<close>): rows with wrap
    provenance, the interned style table, the unified row buffer with scrollback, resizing, every
    escape sequence the performer handles, the alternate screen and the drained queues.
    \<^verbatim>\<open>Grid_Inv\<close>, \<^verbatim>\<open>Grid_Scroll\<close>, \<^verbatim>\<open>Grid_Resize\<close>, \<^verbatim>\<open>Style_Inv\<close>, \<^verbatim>\<open>Performer_Inv\<close>, \<^verbatim>\<open>Performer_Alt\<close>,
    \<^verbatim>\<open>Performer_Safe\<close>, \<^verbatim>\<open>Queues\<close> carry the well-formedness invariant through every operation;
    \<^verbatim>\<open>Screen_Props\<close> states what it gives: no byte stream and no resize panics or grows a buffer past
    its limit, as long as a character wider than two columns fits in \<open>u16\<close> behind the last column
    (\<open>width_fits\<close>; nothing else is assumed of the width function) and no title is cut inside a character
    (\<open>title_safe\<close>, asked only of the callbacks that the session makes); what scrolling and shrinking keep,
    the alternate screen round trip, styles of cells under interning and garbage collection, and that
    both conditions are needed, since there the code panics.
  \<^item> \<^verbatim>\<open>Codec\<close>, \<^verbatim>\<open>Client\<close>, \<^verbatim>\<open>Codec_Props\<close>: \<open>qrmux/src/protocol/codec.rs\<close>, \<open>handshake.rs\<close> and, of \<open>client/mod.rs\<close>, the receive
    loop with its leftover bytes, its early end, its errors and its flushes, and the handler it runs: the loop
    refines a parser of the whole stream under any fragmentation and for any handler (locale \<open>framing\<close>).
  \<^item> \<^verbatim>\<open>Relay\<close>, \<^verbatim>\<open>Relay_Threads\<close>, \<^verbatim>\<open>Relay_Inv\<close>, \<^verbatim>\<open>Relay_Props\<close>: \<open>dispatch/src/relay_server/\<close> (\<open>state.rs\<close>, the lock
    spans of \<open>mod.rs\<close> and \<open>http.rs\<close>): every interleaving of repliers and long polls keeps the windows,
    acknowledgements and origins consistent, and a reported delivery happened.
  \<^item> \<^verbatim>\<open>Dispositions\<close>, \<^verbatim>\<open>Dispositions_Fold\<close>, \<^verbatim>\<open>Ledger\<close>, \<^verbatim>\<open>Json_Instance\<close>, \<^verbatim>\<open>Ledger_Log\<close>, \<^verbatim>\<open>Ledger_Props\<close>:
    \<open>quorum-dispositions/src\<close> and \<open>dispatch/src/dispositions.rs\<close>: rows, the torn-tail tolerant files as an
    instance of the locale \<open>record_log\<close>, and the projection against a declarative reference.
  \<^item> \<^verbatim>\<open>Lanes\<close> (\<open>quorum-qw/src/lane.rs\<close>), \<^verbatim>\<open>Time_Format\<close> (\<open>quorum-core/src/timefmt.rs\<close>), \<^verbatim>\<open>Id_Store\<close>, \<^verbatim>\<open>Id_Store_Inv\<close>
    (\<open>quorum-core/src/idstore.rs\<close>), \<^verbatim>\<open>Resolve\<close>, \<^verbatim>\<open>Resolve_Inv\<close> (\<open>quorum-core/src/model.rs\<close>, \<open>dispatch/src/resolve.rs\<close>),
    \<^verbatim>\<open>Identity_Props\<close>: lanes and their names, time stamps, stable identifiers, and which session a query
    names.
  \<^item> \<^verbatim>\<open>Origin_Send\<close>, \<^verbatim>\<open>Origin_Ulid\<close> (\<open>dispatch/src/origin_send.rs\<close>), \<^verbatim>\<open>Door\<close>, \<^verbatim>\<open>Door_Inv\<close>, \<^verbatim>\<open>Door_Run\<close>, \<^verbatim>\<open>Door_Props\<close>
    (\<open>dispatch/src/bin/qd/verbs/send_unified.rs\<close>, \<open>carrier.rs\<close>, the types of \<open>quorum-qw/src/contract.rs\<close>): the
    verb \<open>qd send\<close> over the ledger, the resolver, the lanes and the wires that \<open>--carrier\<close> and \<open>--wait\<close> pin: at
    most one acceptance per identifier over a sequence of invocations whose outcome stamps are written,
    truthful exit codes, durability before the attempt, retries. What goes over a pinned wire leaves no
    envelope and is kept apart (\<open>wired\<close>).
  \<^item> \<^verbatim>\<open>Submit\<close>, \<^verbatim>\<open>Submit_Inv\<close> (\<open>quorum-submit-discipline/src/lib.rs\<close>): chunking, the two-write delivery and the
    return that is only sent while the composer shows the message; the locales \<open>clocked_session\<close> (its
    waits end) and \<open>observed_session\<close> (what it writes).
  \<^item> \<^verbatim>\<open>Attended\<close> (\<open>qrmux/src/attended/mod.rs\<close>), \<^verbatim>\<open>Fire\<close> (\<open>fire.rs\<close>), \<^verbatim>\<open>Driver\<close> (\<open>driver.rs\<close>, \<open>banner.rs\<close>), \<^verbatim>\<open>Spool\<close>
    (\<open>spool.rs\<close>), \<^verbatim>\<open>Sweep\<close> (\<open>sweep.rs\<close>), \<^verbatim>\<open>Delivery_Events\<close> (\<open>quorum-delivery-events/src/lib.rs\<close>, \<open>emitter.rs\<close>) over the
    JSON documents of \<^verbatim>\<open>Json_Value\<close>, and \<^verbatim>\<open>Composer\<close> (\<open>fakerepl/src/main.rs\<close>), the harness that stands in for an
    agent: attended delivery. \<^verbatim>\<open>Fire_Inv\<close>, \<^verbatim>\<open>Fire_Log\<close> and \<^verbatim>\<open>Fire_Run\<close> show the shape of the log of a
    fire against any environment and any typing; \<^verbatim>\<open>Fire_Ends\<close> that it ends (locale \<open>clocked_env\<close>, of which
    the stand-in is an instance), \<^verbatim>\<open>Deliver\<close> that it delivers to the stand-in, \<^verbatim>\<open>Driver_Inv\<close> the
    invariant of the task that owns the held sends. \<^verbatim>\<open>Attended_Props\<close> states the results: who writes
    when, which of the bytes go through and which are lost with a failed write, an honest outcome at once
    and after a crash at any point, one terminal per send, termination, timely firing, and the places where
    a promise is not kept. The task's commands go through its channel, which may be closed.
  \<^item> \<^verbatim>\<open>Liveness\<close> (\<open>quorum-qw/src/liveness.rs\<close>, \<open>livelock.rs\<close>, \<open>dispatch/src/health.rs\<close>), \<^verbatim>\<open>Recovery\<close>, \<^verbatim>\<open>Recovery_Inv\<close>
    (\<open>dispatch/src/recovery.rs\<close>), \<^verbatim>\<open>Gc\<close>, \<^verbatim>\<open>Gc_Inv\<close> (\<open>gc.rs\<close>, \<open>inbox_gc.rs\<close>, \<open>presence.rs\<close>), \<^verbatim>\<open>Reconcile\<close> (\<open>reconcile.rs\<close> and
    its verb), \<^verbatim>\<open>Upkeep_Props\<close>: upkeep. The log of the destructive rung is walked with the row that is
    durable at each point, so that every interruption is covered; the move to the trash is a machine of
    file system calls, of which any number run interleaved. What is shown: nothing is lost on the way to
    the trash and a move ends, wanted mail stays, the rung kills at most once and only the recorded process
    (whose identity is not refuted, though unverified if its start time cannot be read), each outcome goes
    with exactly the calls of one run of \<open>rung4_run\<close>, what a pass of the coordinator and a run of \<open>qd reconcile\<close> may touch, and two
    places where a live or a missing process is mistaken.

  \<^bold>\<open>Bounds and fuel.\<close> There is no fuel: loops are structural, have a measure, or are proved to return
  when the clock moves. Sequences of events,
  bytes, appends, interleaving steps and invocations are arbitrary. A \<open>usize\<close> is a natural number, as a
  buffer of \<open>2 ^ 64\<close> rows cannot be allocated; counters of fixed width are checked.

  \<^bold>\<open>Assumptions that are not hypotheses of a theorem.\<close> An exclusive lock serializes the spans it guards,
  and a claim lock the invocations for one identifier, so an invocation of the door is one step. The
  ids of attended sends are minted afresh by their callers. The milliseconds of attended delivery do
  not overflow an \<open>i64\<close>, and no mutex is poisoned. A
  file is its bytes, and an append adds a prefix of its record; in the trash, two paths name one file only
  if they are equal, no process reuses a process id and counter value, and nobody writes into a file while
  it is moved.

  \<^bold>\<open>Not modelled.\<close> The ANSI renderer and the logical emission of history; the session server, the
  client's raw terminal mode and its relay from the keyboard, PTYs (tokio tasks and system calls); of attended delivery
  the text of the banner and the reading of a status from the registry; the array form in which serde also
  reads an inbound envelope; the
  failures that the stand-in harness can inject; the bodies of the lanes (\<open>quorum-qw/src/lanes.rs\<close>, \<open>delivery/\<close>, \<open>provider/\<close>), which
  drive external programs and are trait objects at the door; the gathering of session rows from
  processes and files, and the system calls that read the process table; the conformance harness, setup, archive and update code; the other verbs of
  \<open>qd\<close>. The manifest lists each with its reason.
\<close>

end
